(* ===== verification/Systems.thy ===== *)
theory Systems
  imports Prelude
begin

text \<open>
  State machines in general: the states a step relation reaches, and the two interfaces the
  components' proofs go through. An \<open>inductive_invariant\<close> is a predicate that holds at the start
  and that every step keeps; a \<open>forward_relation\<close> is a preorder every step moves along, used for
  what, once true, stays true.
\<close>

inductive reach :: "('s \<Rightarrow> bool) \<Rightarrow> ('s \<Rightarrow> 's \<Rightarrow> bool) \<Rightarrow> 's \<Rightarrow> bool" for init step where
  reach_init: "init s \<Longrightarrow> reach init step s"
| reach_step: "reach init step s \<Longrightarrow> step s t \<Longrightarrow> reach init step t"

inductive runs :: "('s \<Rightarrow> 's \<Rightarrow> bool) \<Rightarrow> 's \<Rightarrow> 's \<Rightarrow> bool" for step where
  runs_refl: "runs step s s"
| runs_step: "runs step s t \<Longrightarrow> step t u \<Longrightarrow> runs step s u"

lemma reach_runs: "reach init step s \<Longrightarrow> runs step s t \<Longrightarrow> reach init step t"
  by (rotate_tac, induction rule: runs.induct) (auto intro: reach_step)

locale inductive_invariant =
  fixes init :: "'s \<Rightarrow> bool" and step :: "'s \<Rightarrow> 's \<Rightarrow> bool" and inv :: "'s \<Rightarrow> bool"
  assumes inv_init: "init s \<Longrightarrow> inv s"
    and inv_step: "inv s \<Longrightarrow> step s t \<Longrightarrow> inv t"
begin

lemma reach_inv: "reach init step s \<Longrightarrow> inv s"
  by (induction rule: reach.induct) (auto intro: inv_init inv_step)

lemma runs_inv: "runs step s t \<Longrightarrow> inv s \<Longrightarrow> inv t"
  by (induction rule: runs.induct) (auto intro: inv_step)

end

locale forward_relation = inductive_invariant +
  fixes fwd :: "'s \<Rightarrow> 's \<Rightarrow> bool"
  assumes fwd_refl: "fwd s s"
    and fwd_trans: "fwd s t \<Longrightarrow> fwd t u \<Longrightarrow> fwd s u"
    and fwd_step: "inv s \<Longrightarrow> step s t \<Longrightarrow> fwd s t"
begin

lemma runs_fwd: "runs step s t \<Longrightarrow> inv s \<Longrightarrow> fwd s t"
proof (induction rule: runs.induct)
  case (runs_refl s)
  show ?case by (rule fwd_refl)
next
  case (runs_step s t u)
  then show ?case by (meson fwd_step fwd_trans runs_inv)
qed

end


lemma runs_trans: "runs step t u \<Longrightarrow> runs step s t \<Longrightarrow> runs step s u"
  by (induction rule: runs.induct) (auto intro: runs_step)

lemma runs_single: "step s t \<Longrightarrow> runs step s t"
  by (blast intro: runs_refl runs_step)

lemma runs_mono: "runs step s t \<Longrightarrow> (\<And>x y. step x y \<Longrightarrow> step' x y) \<Longrightarrow> runs step' s t"
  by (induction rule: runs.induct) (auto intro: runs_refl runs_step)

text \<open>
  A \<open>simulation\<close>: every step of a detailed system is, through an abstraction of its states, a
  sequence of steps of an abstract one. What the abstract system reaches then bounds what the
  detailed one reaches.
\<close>

locale simulation = inductive_invariant init step inv
  for init :: "'s \<Rightarrow> bool" and step :: "'s \<Rightarrow> 's \<Rightarrow> bool" and inv :: "'s \<Rightarrow> bool" +
  fixes ainit :: "'a \<Rightarrow> bool" and astep :: "'a \<Rightarrow> 'a \<Rightarrow> bool" and view :: "'s \<Rightarrow> 'a"
  assumes sim_init: "init s \<Longrightarrow> ainit (view s)"
    and sim_step: "inv s \<Longrightarrow> step s t \<Longrightarrow> runs astep (view s) (view t)"
begin

lemma sim_runs: "runs step s t \<Longrightarrow> inv s \<Longrightarrow> runs astep (view s) (view t)"
proof (induction rule: runs.induct)
  case (runs_refl s)
  show ?case by (rule runs.runs_refl)
next
  case (runs_step s t u)
  show ?case by (rule runs_trans [OF sim_step [OF runs_inv [OF runs_step(1,4)] runs_step(2)] runs_step(3) [OF runs_step(4)]])
qed

lemma sim_reach: "reach init step s \<Longrightarrow> reach ainit astep (view s)"
proof (induction rule: reach.induct)
  case (reach_init s)
  then show ?case by (simp add: reach.reach_init sim_init)
next
  case (reach_step s t)
  from reach_runs [OF reach_step(3) sim_step [OF reach_inv [OF reach_step(1)] reach_step(2)]] show ?case .
qed

end

end
