(* ===== verification/Glob.thy ===== *)
theory Glob
  imports Prelude
begin

text \<open>
  The two glob matchers the program relies on: \<open>path.Match\<close> of Go's standard library, which the
  ACL and the repositories' job patterns use, and \<open>GLOB\<close> of SQLite, which the lists of deployments
  use for the same ACL blocks. A pattern is read into tokens first; a malformed one matches
  nothing. Characters are bytes: \<open>?\<close> and a character class stand for one byte.
\<close>

datatype glob_tok =
    Star
  | AnyChar
  | Lit char
  | Class bool "(char \<times> char) list" \<comment> \<open>negated, and the ranges\<close>

text \<open>The ranges of a character class up to its closing bracket.\<close>

fun class_char :: "string \<Rightarrow> (char \<times> string) option" where
  "class_char [] = None"
| "class_char (c # cs) =
     (if c = CHR ''-'' \<or> c = CHR 0x5D then None
      else if c = CHR 0x5C then (case cs of [] \<Rightarrow> None | d # ds \<Rightarrow> if ds = [] then None else Some (d, ds))
      else if cs = [] then None else Some (c, cs))"

lemma class_char_shorter: "class_char s = Some (c, t) \<Longrightarrow> length t < length s"
  by (cases s) (auto split: if_splits list.splits)

function class_ranges :: "bool \<Rightarrow> string \<Rightarrow> ((char \<times> char) list \<times> string) option" where
  "class_ranges some s =
     (if some \<and> s \<noteq> [] \<and> hd s = CHR 0x5D then Some ([], tl s)
      else case class_char s of
        None \<Rightarrow> None
      | Some (lo, t) \<Rightarrow>
          (if t \<noteq> [] \<and> hd t = CHR ''-'' then
             (case class_char (tl t) of
                None \<Rightarrow> None
              | Some (hi, u) \<Rightarrow> map_option (\<lambda>(rs, v). ((lo, hi) # rs, v)) (class_ranges True u))
           else map_option (\<lambda>(rs, v). ((lo, lo) # rs, v)) (class_ranges True t)))"
  by pat_completeness auto
termination
  by (relation "measure (\<lambda>(some, s). length s)")
    (auto dest!: class_char_shorter simp: neq_Nil_conv)

declare class_ranges.simps [simp del]

lemma class_ranges_shorter:
  "class_ranges some s = Some (rs, t) \<Longrightarrow> length t < length s"
proof (induction some s arbitrary: rs t rule: class_ranges.induct)
  case (1 some s)
  show ?case
  proof (cases "some \<and> s \<noteq> [] \<and> hd s = CHR 0x5D")
    case True
    then have "class_ranges some s = Some ([], tl s)" by (subst class_ranges.simps) simp
    with True "1.prems" show ?thesis by auto
  next
    case False
    with "1.prems" obtain lo u where u: "class_char s = Some (lo, u)"
      by (auto simp: class_ranges.simps [of some s] split: option.splits)
    show ?thesis
    proof (cases "u \<noteq> [] \<and> hd u = CHR ''-''")
      case True
      with False u "1.prems" obtain hi v rs' where
        v: "class_char (tl u) = Some (hi, v)" "class_ranges True v = Some (rs', t)"
        by (auto simp: class_ranges.simps [of some s] split: option.splits)
      from "1.IH"(1) [OF False u refl True v(1) refl v(2)] have "length t < length v" .
      with u v show ?thesis by (auto dest!: class_char_shorter)
    next
      case nodash: False
      with False u "1.prems" obtain rs' where "class_ranges True u = Some (rs', t)"
        by (auto simp: class_ranges.simps [of some s])
      from "1.IH"(2) [OF False u refl nodash this] have "length t < length u" .
      with u show ?thesis by (auto dest!: class_char_shorter)
    qed
  qed
qed

function glob_toks :: "string \<Rightarrow> glob_tok list option" where
  "glob_toks [] = Some []"
| "glob_toks (c # cs) =
     (if c = CHR ''*'' then map_option ((#) Star) (glob_toks cs)
      else if c = CHR ''?'' then map_option ((#) AnyChar) (glob_toks cs)
      else if c = CHR 0x5C then
        (case cs of [] \<Rightarrow> None | d # ds \<Rightarrow> map_option ((#) (Lit d)) (glob_toks ds))
      else if c = CHR 0x5B then
        (let neg = (cs \<noteq> [] \<and> hd cs = CHR ''^'') in
         case class_ranges False (if neg then tl cs else cs) of
           None \<Rightarrow> None
         | Some (rs, t) \<Rightarrow> map_option ((#) (Class neg rs)) (glob_toks t))
      else map_option ((#) (Lit c)) (glob_toks cs))"
  by pat_completeness auto
termination
proof (relation "measure length", goal_cases)
  case (5 c cs neg x rs t)
  then have "length t < length (if neg then tl cs else cs)"
    by (auto dest: class_ranges_shorter split: if_splits)
  then show ?case by (auto split: if_splits)
qed auto

text \<open>
  What one character token accepts. \<open>path.Match\<close> never lets \<open>?\<close> or a star take a slash;
  \<open>GLOB\<close> gives the slash no special meaning.
\<close>

fun tok_accepts :: "bool \<Rightarrow> glob_tok \<Rightarrow> char \<Rightarrow> bool" where
  "tok_accepts path Star c = False"
| "tok_accepts path AnyChar c = (\<not> (path \<and> c = CHR ''/''))"
| "tok_accepts path (Lit d) c = (c = d)"
| "tok_accepts path (Class neg rs) c = ((\<exists>(lo, hi)\<in>set rs. lo \<le> c \<and> c \<le> hi) \<noteq> neg)"

fun tok_match :: "bool \<Rightarrow> glob_tok list \<Rightarrow> string \<Rightarrow> bool" where
  "tok_match path [] s = (s = [])"
| "tok_match path (Star # ts) [] = tok_match path ts []"
| "tok_match path (Star # ts) (c # cs) =
     (tok_match path ts (c # cs) \<or> (\<not> (path \<and> c = CHR ''/'') \<and> tok_match path (Star # ts) cs))"
| "tok_match path (t # ts) [] = False"
| "tok_match path (t # ts) (c # cs) = (tok_accepts path t c \<and> tok_match path ts cs)"

text \<open>\<open>path.Match\<close>, with the error of a malformed pattern read as no match, as every caller does.\<close>

definition path_match :: "string \<Rightarrow> string \<Rightarrow> bool" where
  "path_match p s = (case glob_toks p of None \<Rightarrow> False | Some ts \<Rightarrow> tok_match True ts s)"

text \<open>\<open>s GLOB p\<close> of SQLite, for the patterns \<open>path_match\<close> reads the same way.\<close>

definition sqlite_glob :: "string \<Rightarrow> string \<Rightarrow> bool" where
  "sqlite_glob p s = (case glob_toks p of None \<Rightarrow> False | Some ts \<Rightarrow> tok_match False ts s)"

section \<open>Literals and stars\<close>

definition simple_tok :: "glob_tok \<Rightarrow> bool" where
  "simple_tok t = (case t of Star \<Rightarrow> True | Lit _ \<Rightarrow> True | _ \<Rightarrow> False)"

definition plain_char :: "char \<Rightarrow> bool" where
  "plain_char c = (c \<noteq> CHR ''?'' \<and> c \<noteq> CHR 0x5C \<and> c \<noteq> CHR 0x5B)"

lemma glob_toks_plain:
  "\<forall>c\<in>set p. plain_char c \<Longrightarrow>
   glob_toks p = Some (map (\<lambda>c. if c = CHR ''*'' then Star else Lit c) p)"
  by (induction p) (auto simp: plain_char_def)

lemma tok_match_lits: "tok_match b (map Lit p) s \<longleftrightarrow> s = p"
proof (induction p arbitrary: s)
  case Nil
  then show ?case by simp
next
  case (Cons c p)
  then show ?case by (cases s) auto
qed

lemma tok_match_no_slash:
  "list_all simple_tok ts \<Longrightarrow> CHR ''/'' \<notin> set s \<Longrightarrow> tok_match True ts s = tok_match False ts s"
proof (induction "True" ts s rule: tok_match.induct)
  case (3 ts c cs)
  then show ?case by auto
qed (auto simp: simple_tok_def)

lemma tok_match_lit_count:
  "tok_match b ts s \<Longrightarrow> length (filter (\<lambda>t. t \<noteq> Star) ts) \<le> length s"
  by (induction b ts s rule: tok_match.induct) auto

lemma path_match_literal:
  assumes "\<forall>c\<in>set p. plain_char c" "CHR ''*'' \<notin> set p"
  shows "path_match p s \<longleftrightarrow> s = p"
proof -
  from assms(2) have "map (\<lambda>c. if c = CHR ''*'' then Star else Lit c) p = map Lit p"
    by (induction p) auto
  with glob_toks_plain [OF assms(1)] show ?thesis
    by (simp add: path_match_def tok_match_lits)
qed

lemma path_match_sqlite_glob:
  assumes "\<forall>c\<in>set p. plain_char c" "CHR ''/'' \<notin> set s"
  shows "path_match p s = sqlite_glob p s"
proof -
  have "list_all simple_tok (map (\<lambda>c. if c = CHR ''*'' then Star else Lit c) p)"
    by (auto simp: list_all_iff simple_tok_def)
  with assms show ?thesis
    by (simp add: path_match_def sqlite_glob_def glob_toks_plain tok_match_no_slash)
qed

lemma path_match_literal_count:
  assumes "\<forall>c\<in>set p. plain_char c" "path_match p s"
  shows "length p - count_list p CHR ''*'' \<le> length s"
proof -
  let ?ts = "map (\<lambda>c. if c = CHR ''*'' then Star else Lit c) p"
  have "length (filter (\<lambda>t. t \<noteq> Star) ?ts) = length p - count_list p CHR ''*''"
    by (induction p) (auto simp: Suc_diff_le count_le_length)
  moreover from assms have "tok_match True ?ts s"
    by (simp add: path_match_def glob_toks_plain)
  ultimately show ?thesis using tok_match_lit_count by metis
qed

end
