(* ===== verification/Acl.thy ===== *)
theory Acl
  imports Glob "HOL-Library.AList"
begin

text \<open>
  The access control list (\<open>internal/acl\<close>): the rules of an ACL policy as the parser checks them,
  what a token may do (\<open>allow\<close>), and the same decision in the form a query tests on each row
  (\<open>scope\<close>, \<open>scope_match\<close>, and \<open>scope_sql\<close> of \<open>internal/store/list.go\<close>). The HCL reader is a
  third-party library: the model starts from the blocks it decodes.
\<close>

section \<open>Capabilities and rules\<close>

type_synonym capability = string

definition globalCapabilities :: "capability list" where
  "globalCapabilities = [''fetch'', ''pause'', ''backup'', ''metrics'']"

definition namespaceCapabilities :: "capability list" where
  "namespaceCapabilities = [''read'', ''approve'', ''promote'', ''retry'', ''deploy-now'', ''pause'']"

definition label_char :: "char \<Rightarrow> bool" where
  "label_char c = (between CHR ''A'' CHR ''Z'' c \<or> between CHR ''a'' CHR ''z'' c \<or>
     between CHR ''0'' CHR ''9'' c \<or> c = CHR ''*'' \<or> c = CHR ''-'')"

definition labelPattern :: "string \<Rightarrow> bool" where
  "labelPattern s = (s \<noteq> [] \<and> list_all label_char s)"

record acl_rule =
  rule_label :: string
  rule_deny :: bool
  rule_caps :: "capability list"

record acl_policy =
  policy_rules :: "acl_rule list"
  policy_global :: "capability list"

record namespace_block =
  block_label :: string
  block_policy :: string
  block_caps :: "string list"

record acl_file =
  file_namespaces :: "namespace_block list"
  file_caps :: "string list"

datatype acl_error =
    HclError string
  | BadLabel string
  | LabelTwice string
  | NothingSet string
  | DenyWithCapabilities string
  | BadShorthand string string
  | BadNamespaceCapability string string
  | BadGlobalCapability string

text \<open>\<open>Rule.add\<close>: a capability is added once.\<close>

definition add_cap :: "capability list \<Rightarrow> capability \<Rightarrow> capability list" where
  "add_cap cs c = (if c \<in> set cs then cs else cs @ [c])"

fun add_block_caps :: "string \<Rightarrow> string list \<Rightarrow> acl_rule \<Rightarrow> acl_error + acl_rule" where
  "add_block_caps l [] r = Inr r"
| "add_block_caps l (c # cs) r =
     (if c \<notin> set namespaceCapabilities then Inl (BadNamespaceCapability l c)
      else add_block_caps l cs (r\<lparr>rule_caps := add_cap (rule_caps r) c\<rparr>))"

definition block_rule :: "namespace_block \<Rightarrow> acl_error + acl_rule" where
  "block_rule b =
     (let l = block_label b; r = \<lparr>rule_label = l, rule_deny = False, rule_caps = []\<rparr> in
      if block_policy b = '''' \<and> block_caps b = [] then Inl (NothingSet l)
      else if block_policy b = '''' then add_block_caps l (block_caps b) r
      else if block_policy b = ''read'' then
        add_block_caps l (block_caps b) (r\<lparr>rule_caps := foldl add_cap (rule_caps r) [''read'']\<rparr>)
      else if block_policy b = ''write'' then
        add_block_caps l (block_caps b)
          (r\<lparr>rule_caps := foldl add_cap (rule_caps r) namespaceCapabilities\<rparr>)
      else if block_policy b = ''deny'' then
        (if block_caps b \<noteq> [] then Inl (DenyWithCapabilities l)
         else add_block_caps l (block_caps b) (r\<lparr>rule_deny := True\<rparr>))
      else Inl (BadShorthand l (block_policy b)))"

fun block_rules :: "string list \<Rightarrow> namespace_block list \<Rightarrow> acl_error + acl_rule list" where
  "block_rules seen [] = Inr []"
| "block_rules seen (b # bs) =
     (if \<not> labelPattern (block_label b) then Inl (BadLabel (block_label b))
      else if block_label b \<in> set seen then Inl (LabelTwice (block_label b))
      else bindE (block_rule b) (\<lambda>r.
           bindE (block_rules (block_label b # seen) bs) (\<lambda>rs. Inr (r # rs))))"

fun global_caps :: "string list \<Rightarrow> capability list \<Rightarrow> acl_error + capability list" where
  "global_caps [] acc = Inr acc"
| "global_caps (c # cs) acc =
     (if c \<notin> set globalCapabilities then Inl (BadGlobalCapability c)
      else global_caps cs (add_cap acc c))"

text \<open>\<open>Parse\<close>, with the HCL reader as the argument \<open>hcl\<close>.\<close>

definition acl_parse :: "(string \<Rightarrow> string + acl_file) \<Rightarrow> string \<Rightarrow> acl_error + acl_policy" where
  "acl_parse hcl rules = (case hcl rules of
       Inl e \<Rightarrow> Inl (HclError e)
     | Inr f \<Rightarrow> bindE (block_rules [] (file_namespaces f)) (\<lambda>rs.
         bindE (global_caps (file_caps f) []) (\<lambda>g.
           Inr \<lparr>policy_rules = rs, policy_global = g\<rparr>)))"

section \<open>What a token may do\<close>

record acl =
  acl_management :: bool
  acl_policies :: "acl_policy list"

definition management_acl :: acl where
  "management_acl = \<lparr>acl_management = True, acl_policies = []\<rparr>"

definition new_acl :: "acl_policy list \<Rightarrow> acl" where
  "new_acl ps = \<lparr>acl_management = False, acl_policies = ps\<rparr>"

definition specificity :: "string \<Rightarrow> nat" where
  "specificity label =
     (let literal = length label - count_list label CHR ''*'' in
      if CHR ''*'' \<notin> set label then 2 ^ 20 + literal else literal)"

definition acl_rules :: "acl \<Rightarrow> acl_rule list" where
  "acl_rules a = concat (map policy_rules (acl_policies a))"

text \<open>The nested loops of \<open>Allow\<close>: the best specificity so far and the rules that have it.\<close>

definition allow_step :: "string \<Rightarrow> int \<times> acl_rule list \<Rightarrow> acl_rule \<Rightarrow> int \<times> acl_rule list" where
  "allow_step ns acc r = (case acc of (best, rules) \<Rightarrow>
     if \<not> path_match (rule_label r) ns then (best, rules)
     else let s = int (specificity (rule_label r)) in
       if s > best then (s, [r])
       else if s = best then (best, rules @ [r])
       else (best, rules))"

fun allow_verdict :: "capability \<Rightarrow> bool \<Rightarrow> acl_rule list \<Rightarrow> bool" where
  "allow_verdict c allowed [] = allowed"
| "allow_verdict c allowed (r # rs) =
     (if rule_deny r then False else allow_verdict c (allowed \<or> c \<in> set (rule_caps r)) rs)"

definition allow :: "acl \<Rightarrow> string \<Rightarrow> capability \<Rightarrow> bool" where
  "allow a ns c =
     (if acl_management a then True
      else allow_verdict c False (snd (foldl (allow_step ns) (-1, []) (acl_rules a))))"

definition allow_global :: "acl \<Rightarrow> capability \<Rightarrow> bool" where
  "allow_global a c = (acl_management a \<or> list_ex (\<lambda>p. c \<in> set (policy_global p)) (acl_policies a))"

section \<open>The scope of a capability\<close>

record level =
  level_labels :: "string list"
  level_deny :: "string list"
  level_grant :: "string list"

record scope =
  scope_all :: bool
  scope_levels :: "level list"

definition empty_level :: level where
  "empty_level = \<lparr>level_labels = [], level_deny = [], level_grant = []\<rparr>"

definition level_add :: "capability \<Rightarrow> acl_rule \<Rightarrow> level \<Rightarrow> level" where
  "level_add c r l =
     (let l' = l\<lparr>level_labels := level_labels l @ [rule_label r]\<rparr> in
      if rule_deny r then l'\<lparr>level_deny := level_deny l' @ [rule_label r]\<rparr>
      else if c \<in> set (rule_caps r) then l'\<lparr>level_grant := level_grant l' @ [rule_label r]\<rparr>
      else l')"

definition by_level_step :: "capability \<Rightarrow> (nat \<times> level) list \<Rightarrow> acl_rule \<Rightarrow> (nat \<times> level) list" where
  "by_level_step c m r =
     (let s = specificity (rule_label r);
          l = (case map_of m s of None \<Rightarrow> empty_level | Some l \<Rightarrow> l)
      in AList.update s (level_add c r l) m)"

definition by_level :: "capability \<Rightarrow> acl_rule list \<Rightarrow> (nat \<times> level) list" where
  "by_level c rs = foldl (by_level_step c) [] rs"

definition sort_compact :: "string list \<Rightarrow> string list" where
  "sort_compact xs = remdups_adj (sort xs)"

definition compact_level :: "level \<Rightarrow> level" where
  "compact_level l = \<lparr>level_labels = sort_compact (level_labels l),
     level_deny = sort_compact (level_deny l), level_grant = sort_compact (level_grant l)\<rparr>"

definition scope_of :: "acl \<Rightarrow> capability \<Rightarrow> scope" where
  "scope_of a c =
     (if acl_management a then \<lparr>scope_all = True, scope_levels = []\<rparr>
      else let m = by_level c (acl_rules a) in
        \<lparr>scope_all = False,
         scope_levels = map (\<lambda>s. compact_level (the (map_of m s))) (rev (sort (map fst m)))\<rparr>)"

definition any_label :: "(string \<Rightarrow> string \<Rightarrow> bool) \<Rightarrow> string list \<Rightarrow> string \<Rightarrow> bool" where
  "any_label m labels ns = list_ex (\<lambda>l. m l ns) labels"

fun levels_match :: "(string \<Rightarrow> string \<Rightarrow> bool) \<Rightarrow> level list \<Rightarrow> string \<Rightarrow> bool" where
  "levels_match m [] ns = False"
| "levels_match m (l # ls) ns =
     (if any_label m (level_labels l) ns
      then \<not> any_label m (level_deny l) ns \<and> any_label m (level_grant l) ns
      else levels_match m ls ns)"

definition scope_match :: "scope \<Rightarrow> string \<Rightarrow> bool" where
  "scope_match sc ns = (scope_all sc \<or> levels_match path_match (scope_levels sc) ns)"

text \<open>
  \<open>scopeSQL\<close>: the condition a row's namespace meets, a \<open>CASE\<close> with one \<open>WHEN\<close> per level and
  \<open>GLOB\<close> for the labels. An empty list of labels is the condition 0. The caller leaves the
  condition out for a scope that holds everywhere.
\<close>

definition scope_sql :: "scope \<Rightarrow> string \<Rightarrow> bool" where
  "scope_sql sc ns = (scope_all sc \<or> levels_match sqlite_glob (scope_levels sc) ns)"


section \<open>The blocks that decide for a namespace\<close>

abbreviation rule_spec :: "acl_rule \<Rightarrow> nat" where
  "rule_spec r \<equiv> specificity (rule_label r)"

abbreviation applies :: "string \<Rightarrow> acl_rule \<Rightarrow> bool" where
  "applies ns r \<equiv> path_match (rule_label r) ns"

definition grants :: "capability \<Rightarrow> acl_rule list \<Rightarrow> bool" where
  "grants c rs = ((\<forall>r\<in>set rs. \<not> rule_deny r) \<and> (\<exists>r\<in>set rs. c \<in> set (rule_caps r)))"

lemma allow_verdict_eq:
  "allow_verdict c b rs \<longleftrightarrow> (\<forall>r\<in>set rs. \<not> rule_deny r) \<and> (b \<or> (\<exists>r\<in>set rs. c \<in> set (rule_caps r)))"
  by (induction rs arbitrary: b) auto

text \<open>The specificities of the blocks that apply to a namespace.\<close>

definition hits :: "string \<Rightarrow> acl_rule list \<Rightarrow> nat set" where
  "hits ns rs = rule_spec ` {r \<in> set rs. applies ns r}"

definition at_spec :: "string \<Rightarrow> acl_rule list \<Rightarrow> nat \<Rightarrow> acl_rule list" where
  "at_spec ns rs k = filter (\<lambda>r. applies ns r \<and> rule_spec r = k) rs"

lemma finite_hits [simp]: "finite (hits ns rs)"
  by (simp add: hits_def)

lemma hits_Nil [simp]: "hits ns [] = {}"
  by (simp add: hits_def)

lemma hits_snoc: "hits ns (rs @ [r]) = (if applies ns r then insert (rule_spec r) (hits ns rs) else hits ns rs)"
  by (auto simp: hits_def)

lemma hits_iff: "k \<in> hits ns rs \<longleftrightarrow> (\<exists>r\<in>set rs. applies ns r \<and> rule_spec r = k)"
  by (auto simp: hits_def)

lemma at_spec_above: "hits ns rs = {} \<or> Max (hits ns rs) < k \<Longrightarrow> at_spec ns rs k = []"
  by (auto simp: at_spec_def filter_empty_conv hits_iff dest!: Max_ge [OF finite_hits, rotated]
      intro!: leD) (auto simp: hits_def leD)

lemma at_spec_snoc:
  "at_spec ns (rs @ [r]) k = at_spec ns rs k @ (if applies ns r \<and> rule_spec r = k then [r] else [])"
  by (simp add: at_spec_def)

lemma allow_scan:
  "foldl (allow_step ns) (-1, []) rs =
     (if hits ns rs = {} then (-1, [])
      else (int (Max (hits ns rs)), at_spec ns rs (Max (hits ns rs))))"
proof (induction rs rule: rev_induct)
  case Nil
  show ?case by simp
next
  case (snoc r rs)
  show ?case
  proof (cases "applies ns r")
    case False
    with snoc.IH show ?thesis by (simp add: hits_snoc allow_step_def at_spec_snoc)
  next
    case True
    show ?thesis
    proof (cases "hits ns rs = {}")
      case empty: True
      with True snoc.IH show ?thesis
        by (simp add: hits_snoc allow_step_def at_spec_snoc at_spec_above)
    next
      case False
      obtain M where M: "Max (hits ns rs) = M" by blast
      have M': "Max (hits ns (rs @ [r])) = max (rule_spec r) M"
        using True False by (simp add: hits_snoc M)
      have scan: "foldl (allow_step ns) (-1, []) rs = (int M, at_spec ns rs M)"
        using snoc.IH False by (simp add: M)
      have above: "M < k \<Longrightarrow> at_spec ns rs k = []" for k
        using at_spec_above [of ns rs k] by (simp only: M) blast
      have ne: "hits ns (rs @ [r]) \<noteq> {}" using False by (auto simp: hits_snoc)
      have app: "foldl (allow_step ns) (-1, []) (rs @ [r]) = allow_step ns (int M, at_spec ns rs M) r"
        using scan by simp
      consider "M < rule_spec r" | "rule_spec r = M" | "rule_spec r < M" by linarith
      then show ?thesis
        unfolding app by cases (simp_all add: M' ne allow_step_def True at_spec_snoc above max_def)
    qed
  qed
qed

text \<open>\<open>allow\<close> in one formula: the applying blocks of the greatest specificity.\<close>

lemma allow_top_rules:
  assumes "\<not> acl_management a"
  shows "allow a ns c \<longleftrightarrow> hits ns (acl_rules a) \<noteq> {} \<and>
    grants c (at_spec ns (acl_rules a) (Max (hits ns (acl_rules a))))"
  using assms by (simp add: allow_def allow_scan allow_verdict_eq grants_def)

section \<open>Levels\<close>

lemma sort_compact_set [simp]: "set (sort_compact xs) = set xs"
  by (simp add: sort_compact_def)

lemma any_label_compact [simp]:
  "any_label m (sort_compact xs) ns = any_label m xs ns"
  by (simp add: any_label_def list_ex_iff)

lemma by_level_snoc: "by_level c (rs @ [r]) = by_level_step c (by_level c rs) r"
  by (simp add: by_level_def)

lemma by_level_keys: "distinct (map fst (by_level c rs)) \<and>
    set (map fst (by_level c rs)) = rule_spec ` set rs"
proof (induction rs rule: rev_induct)
  case Nil
  then show ?case by (simp add: by_level_def)
next
  case (snoc r rs)
  then show ?case
    by (simp add: by_level_snoc by_level_step_def Let_def distinct_update update_keys
        dom_update [symmetric] flip: dom_map_of_conv_image_fst)
       (auto simp: update_conv' dom_map_of_conv_image_fst)
qed

definition level_of :: "capability \<Rightarrow> acl_rule list \<Rightarrow> nat \<Rightarrow> level" where
  "level_of c rs k = (let at = filter (\<lambda>r. rule_spec r = k) rs in
     \<lparr>level_labels = map rule_label at,
      level_deny = map rule_label (filter rule_deny at),
      level_grant = map rule_label (filter (\<lambda>r. \<not> rule_deny r \<and> c \<in> set (rule_caps r)) at)\<rparr>)"

lemma by_level_lookup:
  "map_of (by_level c rs) k =
     (if k \<in> rule_spec ` set rs then Some (level_of c rs k) else None)"
proof (induction rs arbitrary: k rule: rev_induct)
  case Nil
  then show ?case by (simp add: by_level_def)
next
  case (snoc r rs)
  show ?case
  proof (cases "k = rule_spec r")
    case True
    have "level_of c rs k = empty_level" if "k \<notin> rule_spec ` set rs"
      using that by (auto simp: level_of_def empty_level_def Let_def image_iff
          intro!: filter_False)
    with True snoc.IH [of k] show ?thesis
      by (auto simp: by_level_snoc by_level_step_def Let_def update_conv' level_add_def level_of_def
          empty_level_def split: option.splits)
  next
    case False
    with snoc.IH [of k] show ?thesis
      by (auto simp: by_level_snoc by_level_step_def Let_def update_conv' level_of_def)
  qed
qed

lemma any_level_labels:
  "any_label path_match (level_labels (level_of c rs k)) ns \<longleftrightarrow> k \<in> hits ns rs"
  by (auto simp: any_label_def level_of_def list_ex_iff Let_def hits_iff)

lemma level_verdict:
  "(\<not> any_label path_match (level_deny (level_of c rs k)) ns \<and>
    any_label path_match (level_grant (level_of c rs k)) ns) = grants c (at_spec ns rs k)"
  by (auto simp: any_label_def level_of_def list_ex_iff grants_def Let_def at_spec_def)

lemma compact_level_sels [simp]:
  "level_labels (compact_level l) = sort_compact (level_labels l)"
  "level_deny (compact_level l) = sort_compact (level_deny l)"
  "level_grant (compact_level l) = sort_compact (level_grant l)"
  by (simp_all add: compact_level_def)

lemma levels_match_find:
  "levels_match path_match (map (\<lambda>k. compact_level (level_of c rs k)) ks) ns =
     (case find (\<lambda>k. k \<in> hits ns rs) ks of None \<Rightarrow> False | Some k \<Rightarrow> grants c (at_spec ns rs k))"
  by (induction ks) (simp_all add: any_level_labels level_verdict)

text \<open>In a descending list the first hit is the greatest one.\<close>

lemma find_descending:
  "sorted_wrt (>) ks \<Longrightarrow> H \<subseteq> set ks \<Longrightarrow>
     find (\<lambda>k. k \<in> H) ks = (if H = {} then None else Some (Max H :: nat))"
proof (induction ks)
  case Nil
  then show ?case by simp
next
  case (Cons k ks)
  show ?case
  proof (cases "k \<in> H")
    case True
    have "finite H" using Cons.prems(2) by (meson List.finite_set finite_subset)
    moreover have "\<forall>j\<in>H. j \<le> k" using Cons.prems by (auto dest!: subsetD)
    ultimately have "Max H = k" using True by (intro Max_eqI) auto
    with True show ?thesis by auto
  next
    case False
    with Cons.prems have "H \<subseteq> set ks" "sorted_wrt (>) ks" by auto
    with False Cons.IH show ?thesis by simp
  qed
qed

lemma sorted_desc_keys: "distinct ks \<Longrightarrow> sorted_wrt (>) (rev (sort (ks :: nat list)))"
  by (simp add: sorted_wrt_rev strict_sorted_iff)

lemma scope_levels_of:
  assumes "\<not> acl_management a"
  shows "\<exists>ks. sorted_wrt (>) ks \<and> rule_spec ` set (acl_rules a) = set ks \<and>
    scope_levels (scope_of a c) = map (\<lambda>k. compact_level (level_of c (acl_rules a) k)) ks"
proof (intro exI conjI)
  let ?m = "by_level c (acl_rules a)"
  let ?ks = "rev (sort (map fst ?m))"
  have keys: "distinct (map fst ?m)" "set (map fst ?m) = rule_spec ` set (acl_rules a)"
    using by_level_keys by blast+
  show "sorted_wrt (>) ?ks" using keys(1) by (rule sorted_desc_keys)
  show "rule_spec ` set (acl_rules a) = set ?ks" using keys(2) by simp
  show "scope_levels (scope_of a c) = map (\<lambda>k. compact_level (level_of c (acl_rules a) k)) ?ks"
    using assms keys(2) by (auto simp: scope_of_def Let_def by_level_lookup)
qed

lemma scope_match_top:
  assumes "\<not> acl_management a"
  shows "scope_match (scope_of a c) ns \<longleftrightarrow> hits ns (acl_rules a) \<noteq> {} \<and>
    grants c (at_spec ns (acl_rules a) (Max (hits ns (acl_rules a))))"
proof -
  obtain ks where ks: "sorted_wrt (>) ks" "rule_spec ` set (acl_rules a) = set ks"
    "scope_levels (scope_of a c) = map (\<lambda>k. compact_level (level_of c (acl_rules a) k)) ks"
    using scope_levels_of [OF assms] by blast
  have "hits ns (acl_rules a) \<subseteq> set ks" using ks(2) by (auto simp: hits_def)
  with ks(1) have "find (\<lambda>k. k \<in> hits ns (acl_rules a)) ks =
      (if hits ns (acl_rules a) = {} then None else Some (Max (hits ns (acl_rules a))))"
    by (rule find_descending)
  moreover have "\<not> scope_all (scope_of a c)" using assms by (simp add: scope_of_def Let_def)
  ultimately show ?thesis using ks(3) by (simp add: scope_match_def levels_match_find)
qed

section \<open>What the parser guarantees\<close>

definition rule_ok :: "acl_rule \<Rightarrow> bool" where
  "rule_ok r = (labelPattern (rule_label r) \<and> distinct (rule_caps r) \<and>
     set (rule_caps r) \<subseteq> set namespaceCapabilities \<and> (rule_deny r \<longleftrightarrow> rule_caps r = []))"

definition policy_ok :: "acl_policy \<Rightarrow> bool" where
  "policy_ok p = (list_all rule_ok (policy_rules p) \<and> distinct (map rule_label (policy_rules p)) \<and>
     distinct (policy_global p) \<and> set (policy_global p) \<subseteq> set globalCapabilities)"

lemma add_cap_props [simp]:
  "distinct (add_cap cs c) = distinct cs" "set (add_cap cs c) = insert c (set cs)"
  by (auto simp: add_cap_def)

lemma foldl_add_cap:
  "distinct (foldl add_cap cs xs) = distinct cs \<and> set (foldl add_cap cs xs) = set cs \<union> set xs"
  by (induction xs arbitrary: cs) auto

lemma add_block_caps_props:
  "add_block_caps l cs r = Inr r' \<Longrightarrow>
     rule_label r' = rule_label r \<and> rule_deny r' = rule_deny r \<and>
     (distinct (rule_caps r) \<longrightarrow> distinct (rule_caps r')) \<and>
     set (rule_caps r') = set (rule_caps r) \<union> set cs \<and> set cs \<subseteq> set namespaceCapabilities"
  by (induction cs arbitrary: r) (auto split: if_splits)

lemma add_block_caps_ok:
  assumes "add_block_caps l cs r = Inr r'" "labelPattern (rule_label r)" "\<not> rule_deny r"
    "distinct (rule_caps r)" "set (rule_caps r) \<subseteq> set namespaceCapabilities"
    "rule_caps r \<noteq> [] \<or> cs \<noteq> []"
  shows "rule_ok r' \<and> rule_label r' = rule_label r"
proof -
  note props = add_block_caps_props [OF assms(1)]
  have "rule_caps r' \<noteq> []" using props assms(6) by (metis Un_empty set_empty)
  with props assms show ?thesis by (simp add: rule_ok_def)
qed

lemma namespaceCapabilities_distinct: "distinct namespaceCapabilities" "namespaceCapabilities \<noteq> []"
    "''read'' \<in> set namespaceCapabilities"
  by (simp_all add: namespaceCapabilities_def)

lemma foldl_add_cap_nonempty: "cs \<noteq> [] \<Longrightarrow> foldl add_cap [] cs \<noteq> []"
  using foldl_add_cap [of "[]" cs] by (metis set_empty sup_bot.left_neutral)

lemma block_rule_ok:
  assumes "block_rule b = Inr r" "labelPattern (block_label b)"
  shows "rule_ok r \<and> rule_label r = block_label b"
proof -
  let ?r = "\<lparr>rule_label = block_label b, rule_deny = False, rule_caps = []\<rparr>"
  consider (none) "block_caps b \<noteq> []" "add_block_caps (block_label b) (block_caps b) ?r = Inr r"
    | (read) "add_block_caps (block_label b) (block_caps b)
        (?r\<lparr>rule_caps := foldl add_cap [] [''read'']\<rparr>) = Inr r"
    | (all_caps) "add_block_caps (block_label b) (block_caps b)
        (?r\<lparr>rule_caps := foldl add_cap [] namespaceCapabilities\<rparr>) = Inr r"
    | (deny) "block_caps b = []" "r = ?r\<lparr>rule_deny := True\<rparr>"
    using assms(1) by (auto simp: block_rule_def Let_def split: if_splits)
  then show ?thesis
  proof cases
    case none
    from add_block_caps_ok [OF none(2)] none(1) assms(2) show ?thesis by simp
  next
    case read
    from add_block_caps_ok [OF read] assms(2) namespaceCapabilities_distinct show ?thesis
      by (simp add: add_cap_def)
  next
    case all_caps
    from add_block_caps_ok [OF all_caps] assms(2) namespaceCapabilities_distinct show ?thesis
      by (simp add: foldl_add_cap foldl_add_cap_nonempty)
  next
    case deny
    with assms(2) show ?thesis by (simp add: rule_ok_def)
  qed
qed

lemma block_rules_ok:
  "block_rules seen bs = Inr rs \<Longrightarrow>
     list_all rule_ok rs \<and> distinct (map rule_label rs) \<and> set (map rule_label rs) \<inter> set seen = {}"
proof (induction bs arbitrary: seen rs)
  case Nil
  then show ?case by simp
next
  case (Cons b bs)
  from Cons.prems obtain r rs' where
    b: "labelPattern (block_label b)" "block_label b \<notin> set seen" "block_rule b = Inr r"
      "block_rules (block_label b # seen) bs = Inr rs'" "rs = r # rs'"
    by (auto simp: bindE_Inr split: if_splits)
  from Cons.IH [OF b(4)] block_rule_ok [OF b(3,1)] b show ?case by auto
qed

lemma global_caps_ok:
  "global_caps cs acc = Inr g \<Longrightarrow> distinct acc \<Longrightarrow> set acc \<subseteq> set globalCapabilities \<Longrightarrow>
     distinct g \<and> set g \<subseteq> set globalCapabilities"
  by (induction cs arbitrary: acc) (simp_all split: if_splits)

lemma acl_parse_ok:
  assumes "acl_parse hcl rules = Inr p"
  shows "policy_ok p"
proof -
  from assms obtain f where f: "hcl rules = Inr f"
      "block_rules [] (file_namespaces f) = Inr (policy_rules p)"
      "global_caps (file_caps f) [] = Inr (policy_global p)"
    by (auto simp: acl_parse_def bindE_Inr split: sum.splits)
  from block_rules_ok [OF f(2)] global_caps_ok [OF f(3)] show ?thesis
    by (auto simp: policy_ok_def)
qed

text \<open>
  Every ACL policy the parser accepts is well formed: block names are made of letters,
  digits, dashes and stars and no two blocks have the same one, a block denies exactly when it
  grants nothing, and every capability is one of the known ones and listed once.
\<close>

theorem acl_parse_well_formed:
  assumes "acl_parse hcl rules = Inr p"
  shows "policy_ok p"
  using assms by (rule acl_parse_ok)

definition sample_file :: acl_file where
  "sample_file = \<lparr>file_namespaces =
      [\<lparr>block_label = ''prod'', block_policy = ''read'', block_caps = [''pause'', ''read'']\<rparr>,
       \<lparr>block_label = ''pr*'', block_policy = ''deny'', block_caps = []\<rparr>,
       \<lparr>block_label = ''*'', block_policy = ''write'', block_caps = []\<rparr>],
     file_caps = [''fetch'', ''fetch'']\<rparr>"

definition sample_policy :: acl_policy where
  "sample_policy = \<lparr>policy_rules =
      [\<lparr>rule_label = ''prod'', rule_deny = False, rule_caps = [''read'', ''pause'']\<rparr>,
       \<lparr>rule_label = ''pr*'', rule_deny = True, rule_caps = []\<rparr>,
       \<lparr>rule_label = ''*'', rule_deny = False, rule_caps = namespaceCapabilities\<rparr>],
     policy_global = [''fetch'']\<rparr>"

lemma sample_parses: "acl_parse (\<lambda>_. Inr sample_file) ''x'' = Inr sample_policy"
  by code_simp

theorem acl_parse_well_formed_witness: "policy_ok sample_policy"
  by (rule acl_parse_well_formed [OF sample_parses])

section \<open>The decision and its query form\<close>

lemma scope_match_allow: "scope_match (scope_of a c) ns = allow a ns c"
proof (cases "acl_management a")
  case True
  then show ?thesis by (simp add: scope_match_def scope_of_def allow_def)
next
  case False
  then show ?thesis by (simp add: scope_match_top allow_top_rules)
qed

text \<open>
  The scope of a capability, the form a list query tests on each row, holds a namespace
  exactly when the token is allowed the capability there: grouping the blocks by specificity,
  sorting and deduplicating them loses nothing.
\<close>

theorem scope_match_eq_allow: "scope_match (scope_of a c) ns = allow a ns c"
  by (rule scope_match_allow)

lemma label_plain: "labelPattern l \<Longrightarrow> \<forall>c\<in>set l. plain_char c"
  by (auto simp: labelPattern_def list_all_iff label_char_def plain_char_def)

lemma levels_match_cong:
  "(\<And>l k. l \<in> set ls \<Longrightarrow>
      k \<in> set (level_labels l) \<union> set (level_deny l) \<union> set (level_grant l) \<Longrightarrow> m k ns = m' k ns) \<Longrightarrow>
   levels_match m ls ns = levels_match m' ls ns"
proof (induction ls)
  case Nil
  show ?case by simp
next
  case (Cons l ls)
  have "any_label m ks ns = any_label m' ks ns"
    if "set ks \<subseteq> set (level_labels l) \<union> set (level_deny l) \<union> set (level_grant l)" for ks
    using that Cons.prems [of l] by (fastforce simp: any_label_def list_ex_iff)
  then have "any_label m (level_labels l) ns = any_label m' (level_labels l) ns"
    "any_label m (level_deny l) ns = any_label m' (level_deny l) ns"
    "any_label m (level_grant l) ns = any_label m' (level_grant l) ns"
    by blast+
  moreover have "levels_match m ls ns = levels_match m' ls ns"
    by (rule Cons.IH) (use Cons.prems in auto)
  ultimately show ?case by simp
qed

lemma scope_labels_of_rules:
  assumes "l \<in> set (scope_levels (scope_of a c))"
    and "k \<in> set (level_labels l) \<union> set (level_deny l) \<union> set (level_grant l)"
  shows "k \<in> rule_label ` set (acl_rules a)"
proof (cases "acl_management a")
  case True
  with assms show ?thesis by (simp add: scope_of_def)
next
  case False
  from scope_levels_of [OF False, of c] assms show ?thesis
    by (auto simp: level_of_def Let_def)
qed

lemma parsed_rules_ok:
  "\<forall>p\<in>set (acl_policies a). policy_ok p \<Longrightarrow> r \<in> set (acl_rules a) \<Longrightarrow> rule_ok r"
  by (auto simp: acl_rules_def policy_ok_def list_all_iff)

lemma rule_plain: "rule_ok r \<Longrightarrow> \<forall>c\<in>set (rule_label r). plain_char c"
  by (rule label_plain) (simp add: rule_ok_def)

lemma scope_sql_allow:
  assumes parsed: "\<forall>p\<in>set (acl_policies a). \<exists>rules. acl_parse hcl rules = Inr p"
    and ns: "CHR ''/'' \<notin> set ns"
  shows "scope_sql (scope_of a c) ns = allow a ns c"
proof -
  have ok: "\<forall>p\<in>set (acl_policies a). policy_ok p" using parsed acl_parse_ok by blast
  have plain: "\<forall>ch\<in>set k. plain_char ch" if "k \<in> rule_label ` set (acl_rules a)" for k
    using that parsed_rules_ok [OF ok] rule_plain by blast
  have "levels_match sqlite_glob (scope_levels (scope_of a c)) ns =
      levels_match path_match (scope_levels (scope_of a c)) ns"
    by (rule levels_match_cong) (use scope_labels_of_rules plain ns path_match_sqlite_glob in metis)
  then have "scope_sql (scope_of a c) ns = scope_match (scope_of a c) ns"
    by (simp add: scope_sql_def scope_match_def)
  also have "\<dots> = allow a ns c" by (rule scope_match_allow)
  finally show ?thesis .
qed

text \<open>
  Claim C13. The SQL condition of a list of deployments gives the answer of \<open>allow\<close> for every token
  whose ACL policies the parser accepted, on every namespace without a slash: \<open>GLOB\<close> and
  \<open>path.Match\<close> read the names of blocks the same way.
\<close>

theorem scope_sql_eq_allow:
  assumes parsed: "\<forall>p\<in>set (acl_policies a). \<exists>rules. acl_parse hcl rules = Inr p"
    and ns: "CHR ''/'' \<notin> set ns"
  shows "scope_sql (scope_of a c) ns = allow a ns c"
  by (rule scope_sql_allow [OF parsed ns])

theorem scope_sql_eq_allow_witness:
  "scope_sql (scope_of (new_acl [sample_policy]) ''read'') ''prod'' =
     allow (new_acl [sample_policy]) ''prod'' ''read''"
  by (rule scope_sql_eq_allow [where hcl = "\<lambda>_. Inr sample_file"])
    (use sample_parses in \<open>auto simp: new_acl_def\<close>)

lemma specificity_exact: "CHR ''*'' \<notin> set l \<Longrightarrow> specificity l = 2 ^ 20 + length l"
  by (simp add: specificity_def)

lemma specificity_glob:
  "CHR ''*'' \<in> set l \<Longrightarrow> specificity l = length l - count_list l CHR ''*''"
  by (simp add: specificity_def)

lemma exact_specificity_greatest:
  assumes "labelPattern l" "path_match l ns"
  shows "specificity l \<le> 2 ^ 20 + length ns"
    and "CHR ''*'' \<notin> set ns \<Longrightarrow> specificity l = 2 ^ 20 + length ns \<longleftrightarrow> l = ns"
proof -
  have plain: "\<forall>c\<in>set l. plain_char c" using assms(1) by (rule label_plain)
  note count = path_match_literal_count [OF plain assms(2)]
  have lit: "CHR ''*'' \<notin> set l \<Longrightarrow> ns = l"
    using path_match_literal [OF plain] assms(2) by simp
  show "specificity l \<le> 2 ^ 20 + length ns"
    using count lit by (cases "CHR ''*'' \<in> set l") (auto simp: specificity_glob specificity_exact)
  show "specificity l = 2 ^ 20 + length ns \<longleftrightarrow> l = ns" if "CHR ''*'' \<notin> set ns"
  proof (cases "CHR ''*'' \<in> set l")
    case True
    with count that show ?thesis by (auto simp: specificity_glob)
  next
    case False
    with lit show ?thesis by (simp add: specificity_exact)
  qed
qed

text \<open>
  A block that names a namespace exactly beats every glob: with one such block in the
  token's ACL policies, only the blocks of that exact name decide, whatever the globs say. Deny
  wins among them, and the capabilities of the others add up.
\<close>

theorem allow_exact_block:
  assumes "\<not> acl_management a" and wf: "\<forall>p\<in>set (acl_policies a). policy_ok p"
    and r: "r \<in> set (acl_rules a)" "rule_label r = ns" "CHR ''*'' \<notin> set ns"
  shows "allow a ns c = grants c (filter (\<lambda>r. rule_label r = ns) (acl_rules a))"
proof -
  have ok: "labelPattern (rule_label r)" if "r \<in> set (acl_rules a)" for r
    using parsed_rules_ok [OF wf that] by (simp add: rule_ok_def)
  have self: "path_match ns ns"
    using path_match_literal label_plain ok r by blast
  have mem: "2 ^ 20 + length ns \<in> hits ns (acl_rules a)"
    using r self by (auto simp: hits_iff specificity_exact)
  have top: "Max (hits ns (acl_rules a)) = 2 ^ 20 + length ns"
    using mem exact_specificity_greatest(1) ok by (intro Max_eqI) (auto simp: hits_iff)
  have "at_spec ns (acl_rules a) (2 ^ 20 + length ns) = filter (\<lambda>r. rule_label r = ns) (acl_rules a)"
    unfolding at_spec_def by (rule filter_cong) (use exact_specificity_greatest(2) ok self r(3) in auto)
  with mem top show ?thesis by (auto simp: allow_top_rules [OF assms(1)])
qed

theorem allow_exact_block_witness:
  "allow (new_acl [sample_policy]) ''prod'' ''pause'' =
     grants ''pause'' (filter (\<lambda>r. rule_label r = ''prod'') (acl_rules (new_acl [sample_policy])))"
proof (rule allow_exact_block [where r = "hd (policy_rules sample_policy)"])
  show "\<forall>p\<in>set (acl_policies (new_acl [sample_policy])). policy_ok p"
    by code_simp
qed (simp_all add: new_acl_def acl_rules_def sample_policy_def)

end
