(* ===== verification/Meta.thy ===== *)
theory Meta
  imports Prelude "HOL-Library.Multiset"
begin

text \<open>
  The \<open>nops_*\<close> meta keys of a job (\<open>internal/meta/meta.go\<close>): the parser, which never fails and
  resolves invalid input to the most conservative reading, and the sync window.

  A Go map is an association list with distinct keys, in the order the loop over it happens to
  take; \<open>parse_order_irrelevant\<close> shows that the order does not matter. The duration parser and
  the cron library are arguments of the definitions that use them. The text of an issue is a
  constructor per format string with the values it prints.
\<close>

section \<open>Policies, issues, configuration\<close>

datatype mpolicy = PAuto | PApproval | PNone

datatype severity = SevWarn | SevError

datatype meta_msg =
    UnknownKey
  | RemovedKey string
  | InvalidValue string
  | NotManaged
  | NotHook
  | InvalidDuration string
  | NotPositive string
  | NeedsDuration
  | WithoutWindow
  | InvalidCron string
  | NeverMatches string
  | IgnoredUnder mpolicy
  | EmptyHookID
  | EmptyItem string
  | ListedTwice string

record issue =
  issue_severity :: severity
  issue_key :: string
  issue_msg :: meta_msg

text \<open>
  A cron expression as its library offers it: by the name of the zone it is read in, the first
  time after a given one at which it matches, \<open>None\<close> (the zero time) if there is none.
\<close>

type_synonym cron = "string \<Rightarrow> time \<Rightarrow> time option"

record sync_window =
  sw_spec :: string
  sw_duration :: duration
  sw_expr :: cron

record meta_config =
  managed :: bool
  eff_policy :: mpolicy
  pre_hooks :: "string list"
  post_hooks :: "string list"
  is_hook :: bool
  notify_completed :: bool
  sync_window :: "sync_window option"
  hook_timeout :: duration
  issues :: "issue list"

definition defaultHookTimeout :: duration where
  "defaultHookTimeout = 300 * second"

definition knownKeys :: "string list" where
  "knownKeys = [''nops_managed'', ''nops_policy'', ''nops_pre_hook'', ''nops_post_hook'',
     ''nops_role'', ''nops_timeout'', ''nops_notify_completed'', ''nops_sync_window'',
     ''nops_sync_window_duration'']"

definition removedKeys :: "(string \<times> string) list" where
  "removedKeys =
     [(''nops_pre_hook_timeout'', ''removed: set nops_timeout on the hook job''),
      (''nops_post_hook_timeout'', ''removed: set nops_timeout on the hook job'')]"

abbreviation warn :: "string \<Rightarrow> meta_msg \<Rightarrow> issue" where
  "warn k m \<equiv> \<lparr>issue_severity = SevWarn, issue_key = k, issue_msg = m\<rparr>"

abbreviation err :: "string \<Rightarrow> meta_msg \<Rightarrow> issue" where
  "err k m \<equiv> \<lparr>issue_severity = SevError, issue_key = k, issue_msg = m\<rparr>"

definition any_error :: "issue list \<Rightarrow> bool" where
  "any_error is = list_ex (\<lambda>i. issue_severity i = SevError) is"

definition HasErrors :: "meta_config \<Rightarrow> bool" where
  "HasErrors c = any_error (issues c)"

section \<open>The parser\<close>

text \<open>The loop over the keys of the map.\<close>

fun key_issues :: "(string \<times> string) list \<Rightarrow> issue list" where
  "key_issues [] = []"
| "key_issues ((k, v) # kvs) =
     (if \<not> prefix ''nops_'' k \<or> k \<in> set knownKeys then []
      else (case map_of removedKeys k of
              Some msg \<Rightarrow> [warn k (RemovedKey msg)]
            | None \<Rightarrow> [warn k UnknownKey])) @ key_issues kvs"

definition parse_managed :: "(string \<rightharpoonup> string) \<Rightarrow> bool \<times> issue list" where
  "parse_managed m = (case m ''nops_managed'' of
       None \<Rightarrow> (False, [])
     | Some v \<Rightarrow>
         if v = ''true'' then (True, [])
         else if v = ''false'' then (False, [])
         else (False, [err ''nops_managed'' (InvalidValue v)]))"

definition policy_of_string :: "string \<Rightarrow> mpolicy option" where
  "policy_of_string v =
     (if v = ''auto'' then Some PAuto else if v = ''approval'' then Some PApproval
      else if v = ''none'' then Some PNone else None)"

definition not_managed :: "bool \<Rightarrow> string \<Rightarrow> issue list" where
  "not_managed mgd k = (if mgd then [] else [warn k NotManaged])"

definition parse_policy :: "(string \<rightharpoonup> string) \<Rightarrow> bool \<Rightarrow> mpolicy \<times> issue list" where
  "parse_policy m mgd = (case m ''nops_policy'' of
       None \<Rightarrow> (PNone, [])
     | Some v \<Rightarrow> (case policy_of_string v of
           Some p \<Rightarrow> (p, not_managed mgd ''nops_policy'')
         | None \<Rightarrow> (PNone, err ''nops_policy'' (InvalidValue v) # not_managed mgd ''nops_policy'')))"

definition parse_notify :: "(string \<rightharpoonup> string) \<Rightarrow> bool \<Rightarrow> bool \<times> issue list" where
  "parse_notify m mgd = (case m ''nops_notify_completed'' of
       None \<Rightarrow> (False, [])
     | Some v \<Rightarrow>
         if v = ''true'' then (True, not_managed mgd ''nops_notify_completed'')
         else if v = ''false'' then (False, not_managed mgd ''nops_notify_completed'')
         else (False, err ''nops_notify_completed'' (InvalidValue v)
                # not_managed mgd ''nops_notify_completed''))"

definition parse_role :: "(string \<rightharpoonup> string) \<Rightarrow> bool \<times> issue list" where
  "parse_role m = (case m ''nops_role'' of
       None \<Rightarrow> (False, [])
     | Some v \<Rightarrow> if v = ''hook'' then (True, []) else (False, [err ''nops_role'' (InvalidValue v)]))"

definition parse_timeout ::
  "(string \<Rightarrow> duration option) \<Rightarrow> (string \<rightharpoonup> string) \<Rightarrow> bool \<Rightarrow> duration \<times> issue list" where
  "parse_timeout dur m hook =
     (let t0 = (if hook then defaultHookTimeout else 0) in
      case m ''nops_timeout'' of
        None \<Rightarrow> (t0, [])
      | Some v \<Rightarrow>
          if \<not> hook then (t0, [warn ''nops_timeout'' NotHook])
          else (case dur v of
              None \<Rightarrow> (t0, [err ''nops_timeout'' (InvalidDuration v)])
            | Some d \<Rightarrow> if d \<le> 0 then (t0, [err ''nops_timeout'' (NotPositive v)]) else (d, [])))"

text \<open>1 January 2000, UTC.\<close>

definition neverMatchesFrom :: time where
  "neverMatchesFrom = 946684800 * second"

definition parse_sync_window ::
  "(string \<Rightarrow> duration option) \<Rightarrow> (string \<Rightarrow> cron option) \<Rightarrow> (string \<rightharpoonup> string) \<Rightarrow> bool \<Rightarrow> mpolicy \<Rightarrow>
   sync_window option \<times> issue list" where
  "parse_sync_window dur cronlib m mgd pol =
     (case (m ''nops_sync_window'', m ''nops_sync_window_duration'') of
        (None, None) \<Rightarrow> (None, [])
      | (Some _, None) \<Rightarrow> (None, [err ''nops_sync_window'' NeedsDuration])
      | (None, Some _) \<Rightarrow> (None, [err ''nops_sync_window_duration'' WithoutWindow])
      | (Some spec, Some durStr) \<Rightarrow>
          (case cronlib spec of
             None \<Rightarrow> (None, [err ''nops_sync_window'' (InvalidCron spec)])
           | Some expr \<Rightarrow>
               if expr ''UTC'' neverMatchesFrom = None
               then (None, [err ''nops_sync_window'' (NeverMatches spec)])
               else (case dur durStr of
                   None \<Rightarrow> (None, [err ''nops_sync_window_duration'' (InvalidDuration durStr)])
                 | Some d \<Rightarrow>
                     if d \<le> 0 then (None, [err ''nops_sync_window_duration'' (NotPositive durStr)])
                     else (Some \<lparr>sw_spec = spec, sw_duration = d, sw_expr = expr\<rparr>,
                           if \<not> mgd then [warn ''nops_sync_window'' NotManaged]
                           else if pol \<noteq> PAuto then [warn ''nops_sync_window'' (IgnoredUnder pol)]
                           else []))))"

text \<open>The loop of \<open>parseHooks\<close> over the items of the list \<open>v\<close>; \<open>ids\<close> are the ones seen.\<close>

fun hooks_loop :: "string \<Rightarrow> string list \<Rightarrow> string list \<Rightarrow> meta_msg + string list" where
  "hooks_loop v [] ids = Inr ids"
| "hooks_loop v (item # items) ids =
     (let id = trim_space item in
      if id = [] \<and> trim_space v = [] then Inl EmptyHookID
      else if id = [] then Inl (EmptyItem v)
      else if id \<in> set ids then Inl (ListedTwice id)
      else hooks_loop v items (ids @ [id]))"

definition parse_hooks :: "(string \<rightharpoonup> string) \<Rightarrow> string \<Rightarrow> string list \<times> issue list" where
  "parse_hooks m k = (case m k of
       None \<Rightarrow> ([], [])
     | Some v \<Rightarrow> (case hooks_loop v (split_on (CHR '','') v) [] of
           Inl msg \<Rightarrow> ([], [err k msg])
         | Inr ids \<Rightarrow> (ids, [])))"

definition parse ::
  "(string \<Rightarrow> duration option) \<Rightarrow> (string \<Rightarrow> cron option) \<Rightarrow> (string \<times> string) list \<Rightarrow> meta_config" where
  "parse dur cronlib kvs =
     (let m = map_of kvs;
          (mgd, i1) = parse_managed m;
          (pol, i2) = parse_policy m mgd;
          (ntf, i3) = parse_notify m mgd;
          (hook, i4) = parse_role m;
          (tmo, i5) = parse_timeout dur m hook;
          (win, i6) = parse_sync_window dur cronlib m mgd pol;
          (pre, i7) = parse_hooks m ''nops_pre_hook'';
          (post, i8) = parse_hooks m ''nops_post_hook'';
          is = sort_key issue_key (key_issues kvs @ i1 @ i2 @ i3 @ i4 @ i5 @ i6 @ i7 @ i8)
      in \<lparr>managed = mgd,
          eff_policy = (if mgd \<and> \<not> any_error is then pol else PNone),
          pre_hooks = pre, post_hooks = post, is_hook = hook, notify_completed = ntf,
          sync_window = win, hook_timeout = tmo, issues = is\<rparr>)"

section \<open>The sync window\<close>

definition window_open :: "sync_window \<Rightarrow> string \<Rightarrow> time \<Rightarrow> bool" where
  "window_open w z t = (case sw_expr w z (t - sw_duration w) of
       None \<Rightarrow> False
     | Some op \<Rightarrow> \<not> op > t)"

definition window_next_open :: "sync_window \<Rightarrow> string \<Rightarrow> time \<Rightarrow> time option" where
  "window_next_open w z t = sw_expr w z t"

definition maxCloseSteps :: nat where
  "maxCloseSteps = 10000"

fun close_loop :: "nat \<Rightarrow> sync_window \<Rightarrow> string \<Rightarrow> time \<Rightarrow> time \<Rightarrow> time option" where
  "close_loop 0 w z start endt = None"
| "close_loop (Suc i) w z start endt =
     (case sw_expr w z start of
        None \<Rightarrow> Some endt
      | Some nxt \<Rightarrow>
          if nxt > endt then Some endt
          else close_loop i w z nxt (nxt + sw_duration w))"

definition window_next_close :: "sync_window \<Rightarrow> string \<Rightarrow> time \<Rightarrow> time option" where
  "window_next_close w z t =
     (if \<not> window_open w z t then None
      else (case sw_expr w z (t - sw_duration w) of
          None \<Rightarrow> None
        | Some start \<Rightarrow> close_loop maxCloseSteps w z start (start + sw_duration w)))"

section \<open>Trimming\<close>

lemma trim_left_prefix_closed:
  assumes "find (\<lambda>w. w \<noteq> [] \<and> prefix w s) ws = None" "prefix p s"
  shows "find (\<lambda>w. w \<noteq> [] \<and> prefix w p) ws = None"
  using assms by (auto simp: find_None_iff dest: prefix_order.trans)

lemma trim_left_done: "find (\<lambda>w. w \<noteq> [] \<and> prefix w (trim_left ws s)) ws = None"
proof (induction ws s rule: trim_left.induct)
  case (1 ws s)
  show ?case
  proof (cases "find (\<lambda>w. w \<noteq> [] \<and> prefix w s) ws")
    case None
    then show ?thesis by (simp add: trim_left.simps [of ws s])
  next
    case (Some w)
    with 1 show ?thesis by (simp add: trim_left.simps [of ws s])
  qed
qed

lemma trim_left_fixed: "find (\<lambda>w. w \<noteq> [] \<and> prefix w s) ws = None \<Longrightarrow> trim_left ws s = s"
  by (simp add: trim_left.simps [of ws s])

lemma trim_space_idem: "trim_space (trim_space s) = trim_space s"
proof -
  let ?l = "trim_left white s" let ?r = "trim_left (map rev white) (rev ?l)"
  have "suffix ?r (rev ?l)" by (rule trim_left_suffix)
  then have "prefix (rev ?r) ?l" by (simp add: suffix_to_prefix)
  then have "trim_left white (rev ?r) = rev ?r"
    by (intro trim_left_fixed trim_left_prefix_closed [OF trim_left_done])
  then show ?thesis by (simp add: trim_space_def trim_left_idem)
qed

lemma trim_space_sub: "set (trim_space s) \<subseteq> set s"
proof -
  have "set (trim_left ws x) \<subseteq> set x" for ws x
    using trim_left_suffix [of ws x] by (rule set_mono_suffix)
  then show ?thesis unfolding trim_space_def by (metis order_trans set_rev)
qed

section \<open>Hook lists\<close>

lemma hooks_loop_result:
  "hooks_loop v items ids = Inr out \<Longrightarrow> distinct ids \<Longrightarrow>
     out = ids @ map trim_space items \<and> distinct out \<and> [] \<notin> trim_space ` set items"
proof (induction items arbitrary: ids)
  case Nil
  then show ?case by simp
next
  case (Cons item items)
  from Cons.prems have step: "trim_space item \<noteq> []" "trim_space item \<notin> set ids"
    "hooks_loop v items (ids @ [trim_space item]) = Inr out"
    by (auto simp: Let_def split: if_splits)
  from Cons.IH [OF step(3)] Cons.prems(2) step(1,2) show ?case by (fastforce simp: disjoint_iff)
qed

lemma hooks_loop_ok:
  "distinct (ids @ map trim_space items) \<Longrightarrow> [] \<notin> trim_space ` set items \<Longrightarrow>
     hooks_loop v items ids = Inr (ids @ map trim_space items)"
  by (induction items arbitrary: ids) (auto simp: Let_def)

definition hook_list_ok :: "string list \<Rightarrow> bool" where
  "hook_list_ok ids = (distinct ids \<and>
     list_all (\<lambda>i. i \<noteq> [] \<and> trim_space i = i \<and> CHR '','' \<notin> set i) ids)"

lemma parse_hooks_ok: "hook_list_ok (fst (parse_hooks m k))"
proof (cases "m k")
  case None
  then show ?thesis by (simp add: parse_hooks_def hook_list_ok_def)
next
  case (Some v)
  show ?thesis
  proof (cases "hooks_loop v (split_on (CHR '','') v) []")
    case (Inl msg)
    with Some show ?thesis by (simp add: parse_hooks_def hook_list_ok_def)
  next
    case (Inr ids)
    from hooks_loop_result [OF Inr] have ids: "ids = map trim_space (split_on (CHR '','') v)"
      "distinct ids" "[] \<notin> set ids" by auto
    have "CHR '','' \<notin> set i" if "i \<in> set ids" for i
      using that ids(1) split_on_no_sep trim_space_sub by fastforce
    moreover have "trim_space i = i" if "i \<in> set ids" for i
      using that ids(1) by (auto simp: trim_space_idem)
    ultimately show ?thesis
      using Some Inr ids(2,3) by (auto simp: parse_hooks_def hook_list_ok_def list_all_iff)
  qed
qed

section \<open>Reading the result of the parser\<close>

lemma parse_fields:
  fixes dur cronlib kvs
  defines "m \<equiv> map_of kvs" and "c \<equiv> parse dur cronlib kvs"
  shows "managed c = fst (parse_managed m)"
    and "pre_hooks c = fst (parse_hooks m ''nops_pre_hook'')"
    and "post_hooks c = fst (parse_hooks m ''nops_post_hook'')"
    and "is_hook c = fst (parse_role m)"
    and "notify_completed c = fst (parse_notify m (managed c))"
    and "hook_timeout c = fst (parse_timeout dur m (is_hook c))"
    and "sync_window c = fst (parse_sync_window dur cronlib m (managed c) (fst (parse_policy m (managed c))))"
    and "issues c = sort_key issue_key (key_issues kvs @ snd (parse_managed m)
       @ snd (parse_policy m (managed c)) @ snd (parse_notify m (managed c)) @ snd (parse_role m)
       @ snd (parse_timeout dur m (is_hook c))
       @ snd (parse_sync_window dur cronlib m (managed c) (fst (parse_policy m (managed c))))
       @ snd (parse_hooks m ''nops_pre_hook'') @ snd (parse_hooks m ''nops_post_hook''))"
    and "eff_policy c = (if managed c \<and> \<not> any_error (issues c)
       then fst (parse_policy m (managed c)) else PNone)"
  by (simp_all only: parse_def m_def c_def Let_def split_beta meta_config.select_convs)

lemma parse_managed_iff: "fst (parse_managed m) \<longleftrightarrow> m ''nops_managed'' = Some ''true''"
  by (auto simp: parse_managed_def split: option.splits)

lemma parse_policy_value:
  "fst (parse_policy m mgd) = (case m ''nops_policy'' of None \<Rightarrow> PNone
     | Some v \<Rightarrow> (case policy_of_string v of None \<Rightarrow> PNone | Some p \<Rightarrow> p))"
  by (simp add: parse_policy_def split: option.splits)

text \<open>
  The policy is read conservatively: it is the one the job names only for a job with
  \<open>nops_managed = "true"\<close> in whose meta the parser found no error at all; in every other case,
  whatever \<open>nops_policy\<close> says, it is none and nothing of the job is ever applied.
\<close>

theorem parse_policy_conservative:
  "eff_policy (parse dur cronlib kvs) =
     (if map_of kvs ''nops_managed'' = Some ''true'' \<and> \<not> HasErrors (parse dur cronlib kvs)
      then (case map_of kvs ''nops_policy'' of None \<Rightarrow> PNone
        | Some v \<Rightarrow> (case policy_of_string v of None \<Rightarrow> PNone | Some p \<Rightarrow> p))
      else PNone)"
  by (simp add: parse_fields(1,9) parse_managed_iff parse_policy_value HasErrors_def)

text \<open>
  The hook lists of a parsed job hold no hook twice, no empty ID and no ID with blanks
  around it, and without an error in the meta they are exactly the items of the comma-separated
  value, in the order written.
\<close>

theorem parse_hook_lists:
  "hook_list_ok (pre_hooks (parse dur cronlib kvs)) \<and> hook_list_ok (post_hooks (parse dur cronlib kvs))
   \<and> (\<not> HasErrors (parse dur cronlib kvs) \<longrightarrow>
       pre_hooks (parse dur cronlib kvs) = (case map_of kvs ''nops_pre_hook'' of None \<Rightarrow> []
         | Some v \<Rightarrow> map trim_space (split_on (CHR '','') v)) \<and>
       post_hooks (parse dur cronlib kvs) = (case map_of kvs ''nops_post_hook'' of None \<Rightarrow> []
         | Some v \<Rightarrow> map trim_space (split_on (CHR '','') v)))"
proof -
  have lists: "fst (parse_hooks m k) = (case m k of None \<Rightarrow> []
      | Some v \<Rightarrow> map trim_space (split_on (CHR '','') v))"
    if "\<not> any_error (snd (parse_hooks m k))" for m :: "string \<rightharpoonup> string" and k
    using that hooks_loop_result [where ids = "[]"]
    by (auto simp: parse_hooks_def any_error_def split: option.splits sum.splits)
  have "\<not> any_error (snd (parse_hooks (map_of kvs) k))"
    if "\<not> HasErrors (parse dur cronlib kvs)" "k = ''nops_pre_hook'' \<or> k = ''nops_post_hook''" for k
    using that by (auto simp: HasErrors_def parse_fields(8) any_error_def list_ex_iff)
  with lists show ?thesis by (simp add: parse_fields(2,3) parse_hooks_ok)
qed

theorem parse_hook_lists_witness:
  "pre_hooks (parse (\<lambda>_. None) (\<lambda>_. None) [(''nops_pre_hook'', ''a, b'')]) = [''a'', ''b'']"
proof -
  have "\<not> HasErrors (parse (\<lambda>_. None) (\<lambda>_. None) [(''nops_pre_hook'', ''a, b'')])" by code_simp
  then have "pre_hooks (parse (\<lambda>_. None) (\<lambda>_. None) [(''nops_pre_hook'', ''a, b'')])
      = map trim_space (split_on (CHR '','') ''a, b'')"
    using parse_hook_lists [of "\<lambda>_. None" "\<lambda>_. None" "[(''nops_pre_hook'', ''a, b'')]"] by simp
  also have "\<dots> = [''a'', ''b'']" by code_simp
  finally show ?thesis .
qed

text \<open>
  A hook job always has a positive timeout and any other job has none; a sync window,
  when the parser keeps one, has a positive length and a cron expression that matches at some
  time from the year 2000 on.
\<close>

theorem parse_durations:
  "(if is_hook (parse dur cronlib kvs) then 0 < hook_timeout (parse dur cronlib kvs)
    else hook_timeout (parse dur cronlib kvs) = 0) \<and>
   (case sync_window (parse dur cronlib kvs) of None \<Rightarrow> True
    | Some w \<Rightarrow> 0 < sw_duration w \<and> cronlib (sw_spec w) = Some (sw_expr w) \<and>
        sw_expr w ''UTC'' neverMatchesFrom \<noteq> None)"
proof
  show "if is_hook (parse dur cronlib kvs) then 0 < hook_timeout (parse dur cronlib kvs)
    else hook_timeout (parse dur cronlib kvs) = 0"
    by (simp add: parse_fields(6) parse_timeout_def defaultHookTimeout_def Let_def split: option.splits)
  show "case sync_window (parse dur cronlib kvs) of None \<Rightarrow> True
    | Some w \<Rightarrow> 0 < sw_duration w \<and> cronlib (sw_spec w) = Some (sw_expr w) \<and>
        sw_expr w ''UTC'' neverMatchesFrom \<noteq> None"
    by (auto simp: parse_fields(7) parse_sync_window_def split: option.splits if_splits)
qed

section \<open>The order of the map does not matter\<close>

definition reported :: "string \<Rightarrow> bool" where
  "reported k = (prefix ''nops_'' k \<and> k \<notin> set knownKeys)"

definition key_issue :: "string \<Rightarrow> issue" where
  "key_issue k = (case map_of removedKeys k of Some msg \<Rightarrow> warn k (RemovedKey msg) | None \<Rightarrow> warn k UnknownKey)"

lemma key_issue_key [simp]: "issue_key (key_issue k) = k"
  by (simp add: key_issue_def split: option.splits)

lemma key_issues_eq: "key_issues kvs = map key_issue (filter reported (map fst kvs))"
  by (induction kvs rule: key_issues.induct)
    (simp_all add: reported_def key_issue_def split: option.splits)

definition known_issues :: "issue list \<Rightarrow> bool" where
  "known_issues is = (\<forall>i\<in>set is. issue_key i \<in> set knownKeys)"

lemma known_parts:
  "known_issues (snd (parse_managed m))" "known_issues (snd (parse_policy m mgd))"
  "known_issues (snd (parse_notify m mgd))" "known_issues (snd (parse_role m))"
  "known_issues (snd (parse_timeout dur m hook))"
  "known_issues (snd (parse_sync_window dur cronlib m mgd pol))"
  "known_issues (snd (parse_hooks m ''nops_pre_hook''))"
  "known_issues (snd (parse_hooks m ''nops_post_hook''))"
  by (simp_all add: known_issues_def knownKeys_def parse_managed_def parse_policy_def not_managed_def
      parse_notify_def parse_role_def parse_timeout_def parse_sync_window_def parse_hooks_def Let_def
      split: option.splits sum.splits)

lemma known_issues_append [simp]:
  "known_issues (xs @ ys) \<longleftrightarrow> known_issues xs \<and> known_issues ys"
  by (auto simp: known_issues_def)

lemma filter_distinct_key:
  "distinct (map f zs) \<Longrightarrow> z \<in> set zs \<Longrightarrow> filter (\<lambda>x. f z = f x) zs = [z]"
proof (induction zs)
  case Nil
  then show ?case by simp
next
  case (Cons y zs)
  show ?case
  proof (cases "z = y")
    case True
    with Cons.prems show ?thesis by (auto simp: filter_empty_conv)
  next
    case False
    then have "f z \<noteq> f y" using Cons.prems by (auto simp: image_iff)
    with False Cons show ?thesis by simp
  qed
qed

text \<open>A stable sort cannot tell two orders of entries with distinct keys apart.\<close>

lemma sort_key_distinct_part:
  assumes "mset us = mset vs" "distinct (map f us)" "f ` set us \<inter> f ` set xs = {}"
  shows "sort_key f (us @ xs) = sort_key f (vs @ xs)"
proof (rule properties_for_sort_key)
  have dv: "distinct (map f vs)" using assms(1,2)
    by (metis mset_eq_imp_distinct_iff mset_map)
  have sv: "set us = set vs" using assms(1) by (metis set_mset_mset)
  show "mset (sort_key f (vs @ xs)) = mset (us @ xs)" using assms(1) by simp
  show "sorted (map f (sort_key f (vs @ xs)))" by simp
  fix k
  have "filter (\<lambda>x. f k = f x) us = filter (\<lambda>x. f k = f x) vs"
  proof (cases "\<exists>z\<in>set us. f z = f k")
    case True
    then obtain z where "z \<in> set us" "z \<in> set vs" "f k = f z" using sv by auto
    with filter_distinct_key [OF assms(2)] filter_distinct_key [OF dv] show ?thesis by simp
  next
    case False
    with sv have "filter (\<lambda>x. f k = f x) us = []" "filter (\<lambda>x. f k = f x) vs = []"
      by (auto simp: filter_empty_conv)
    then show ?thesis by simp
  qed
  then show "filter (\<lambda>x. f k = f x) (sort_key f (vs @ xs)) = filter (\<lambda>x. f k = f x) (us @ xs)"
    using sort_key_stable [of f "f k" "vs @ xs"] by (simp add: eq_commute)
qed

text \<open>
  The order in which Go walks the meta map does not matter: two lists of the same keys
  and values, each key once, give the same configuration, the list of issues and its order
  included.
\<close>

theorem parse_order_irrelevant:
  assumes "distinct (map fst kvs)" "distinct (map fst kvs')" "map_of kvs = map_of kvs'"
  shows "parse dur cronlib kvs = parse dur cronlib kvs'"
proof -
  have keys: "set (map fst kvs) = set (map fst kvs')"
    using assms(3) by (metis dom_map_of_conv_image_fst set_map)
  then have "mset (map fst kvs) = mset (map fst kvs')"
    using assms(1,2) by (metis mset_set_set)
  then have ms: "mset (key_issues kvs) = mset (key_issues kvs')"
    by (simp only: key_issues_eq mset_map mset_filter)
  have ds: "distinct (map issue_key (key_issues kvs))"
    using assms(1) by (simp add: key_issues_eq comp_def)
  have "sort_key issue_key (key_issues kvs @ xs) = sort_key issue_key (key_issues kvs' @ xs)"
    if "known_issues xs" for xs
    by (rule sort_key_distinct_part [OF ms ds])
      (use that in \<open>auto simp: key_issues_eq reported_def known_issues_def\<close>)
  then show ?thesis
    by (simp add: parse_def Let_def split_beta assms(3) known_parts)
qed

theorem parse_order_irrelevant_witness:
  "parse (\<lambda>_. None) (\<lambda>_. None) [(''nops_b'', ''''), (''nops_a'', '''')] =
   parse (\<lambda>_. None) (\<lambda>_. None) [(''nops_a'', ''''), (''nops_b'', '''')]"
  by (rule parse_order_irrelevant) (auto simp: fun_eq_iff)

section \<open>When a window is open\<close>

text \<open>
  What the cron library documents of the next match: for an expression that matches at the times
  \<open>F\<close>, the first of them after a given time.
\<close>

definition cron_fires :: "time set \<Rightarrow> (time \<Rightarrow> time option) \<Rightarrow> bool" where
  "cron_fires F nxt = (\<forall>t. case nxt t of None \<Rightarrow> (\<forall>u\<in>F. u \<le> t)
     | Some s \<Rightarrow> s \<in> F \<and> t < s \<and> (\<forall>u\<in>F. t < u \<longrightarrow> s \<le> u))"

lemma cron_fires_None: "cron_fires F nxt \<Longrightarrow> nxt t = None \<Longrightarrow> u \<in> F \<Longrightarrow> u \<le> t"
  unfolding cron_fires_def by (drule spec [of _ t]) simp

lemma cron_fires_Some:
  "cron_fires F nxt \<Longrightarrow> nxt t = Some s \<Longrightarrow> s \<in> F \<and> t < s \<and> (\<forall>u\<in>F. t < u \<longrightarrow> s \<le> u)"
  unfolding cron_fires_def by (drule spec [of _ t]) simp

lemma window_open_iff:
  assumes "cron_fires F (sw_expr w z)"
  shows "window_open w z t \<longleftrightarrow> (\<exists>s\<in>F. s \<le> t \<and> t < s + sw_duration w)"
proof (cases "sw_expr w z (t - sw_duration w)")
  case None
  with cron_fires_None [OF assms None] show ?thesis by (fastforce simp: window_open_def)
next
  case (Some s)
  from cron_fires_Some [OF assms Some] show ?thesis
    by (auto simp: window_open_def Some intro: order_trans intro!: bexI [of _ s])
qed

definition hourly :: cron where
  "hourly z t = Some ((t div (3600 * second) + 1) * (3600 * second))"

definition hourly_window :: sync_window where
  "hourly_window = \<lparr>sw_spec = ''0 * * * *'', sw_duration = 600 * second, sw_expr = hourly\<rparr>"

lemma hourly_fires: "cron_fires {k * (3600 * second) |k. True} (hourly z)"
proof -
  let ?h = "3600 * second :: int"
  have "t < (t div ?h + 1) * ?h" for t :: int
    by presburger
  moreover have "(t div ?h + 1) * ?h \<le> k * ?h" if "t < k * ?h" for t k :: int
  proof -
    from that have "t div ?h < k" by (simp add: div_less_iff_less_mult)
    then show ?thesis by simp
  qed
  moreover have "\<exists>k. t div ?h * ?h + ?h = k * ?h" for t :: int
    by (rule exI [of _ "t div ?h + 1"]) (simp add: algebra_simps)
  ultimately show ?thesis by (auto simp: cron_fires_def hourly_def)
qed

text \<open>
  A sync window is open at a time exactly when its cron expression matched at that time
  or before, less than the window's duration ago: the end is exclusive.
\<close>

theorem window_open_spec:
  assumes "cron_fires F (sw_expr w z)"
  shows "window_open w z t \<longleftrightarrow> (\<exists>s\<in>F. s \<le> t \<and> t < s + sw_duration w)"
  using assms by (rule window_open_iff)

theorem window_open_spec_witness:
  "window_open hourly_window ''UTC'' 0 \<longleftrightarrow>
     (\<exists>s\<in>{k * (3600 * second) |k. True}. s \<le> 0 \<and> 0 < s + 600 * second)"
  using window_open_spec [of "{k * (3600 * second) |k. True}" hourly_window "''UTC''" 0] hourly_fires
  by (simp add: hourly_window_def)

lemma close_loop_spec:
  assumes "cron_fires F (sw_expr w z)"
  shows "close_loop n w z start endt = Some e \<Longrightarrow> endt = start + sw_duration w \<Longrightarrow> start \<in> F \<Longrightarrow>
     t < endt \<Longrightarrow> \<forall>u. t \<le> u \<and> u < endt \<longrightarrow> window_open w z u \<Longrightarrow>
     t < e \<and> (\<forall>u. t \<le> u \<and> u < e \<longrightarrow> window_open w z u) \<and> \<not> window_open w z e"
proof (induction n arbitrary: start endt)
  case 0
  then show ?case by simp
next
  case (Suc n)
  have closed: "\<not> window_open w z endt"
    if "sw_expr w z start = None \<or> (\<exists>s. sw_expr w z start = Some s \<and> endt < s)"
  proof
    assume "window_open w z endt"
    then obtain s where s: "s \<in> F" "s \<le> endt" "endt < s + sw_duration w"
      using window_open_iff [OF assms] by blast
    with Suc.prems(2) have "start < s" by simp
    with s that show False
      using cron_fires_None [OF assms, of start s] cron_fires_Some [OF assms, of start] by force
  qed
  show ?case
  proof (cases "sw_expr w z start")
    case None
    with Suc.prems closed show ?thesis by simp
  next
    case (Some s)
    show ?thesis
    proof (cases "s > endt")
      case True
      with Some Suc.prems closed show ?thesis by simp
    next
      case False
      from cron_fires_Some [OF assms Some] have s: "s \<in> F" "start < s" by blast+
      have "close_loop n w z s (s + sw_duration w) = Some e" using Suc.prems(1) Some False by simp
      moreover have "t < s + sw_duration w" using Suc.prems(2,4) s(2) by simp
      moreover have "window_open w z u" if "t \<le> u" "u < s + sw_duration w" for u
        using that Suc.prems(5) s(1) False window_open_iff [OF assms, of u] by (cases "u < endt") auto
      ultimately show ?thesis using Suc.IH [of s "s + sw_duration w"] s(1) by blast
    qed
  qed
qed

lemma next_close_spec:
  assumes "cron_fires F (sw_expr w z)" "window_next_close w z t = Some e"
  shows "t < e \<and> (\<forall>u. t \<le> u \<and> u < e \<longrightarrow> window_open w z u) \<and> \<not> window_open w z e"
proof -
  from assms(2) obtain s where s: "window_open w z t" "sw_expr w z (t - sw_duration w) = Some s"
      "close_loop maxCloseSteps w z s (s + sw_duration w) = Some e"
    by (auto simp: window_next_close_def split: if_splits option.splits)
  from s(1,2) have "s \<le> t" by (simp add: window_open_def)
  moreover from cron_fires_Some [OF assms(1) s(2)] have f: "s \<in> F" "t < s + sw_duration w" by auto
  ultimately have "\<forall>u. t \<le> u \<and> u < s + sw_duration w \<longrightarrow> window_open w z u"
    using window_open_iff [OF assms(1)] by (meson order_trans)
  with close_loop_spec [OF assms(1) s(3)] f show ?thesis by blast
qed

text \<open>
  The time \<open>NextClose\<close> gives is the true end of the stretch the window is open for, even
  where windows run into each other: the window is open at every time from now until then, and
  closed at that very time.
\<close>

theorem window_next_close_spec:
  assumes "cron_fires F (sw_expr w z)" "window_next_close w z t = Some e"
  shows "t < e \<and> (\<forall>u. t \<le> u \<and> u < e \<longrightarrow> window_open w z u) \<and> \<not> window_open w z e"
  using assms by (rule next_close_spec)

lemma hourly_next_close: "window_next_close hourly_window ''UTC'' 0 = Some (600 * second)"
proof -
  have "close_loop (Suc 9999) hourly_window ''UTC'' 0 (600 * second) = Some (600 * second)"
    by (simp only: close_loop.simps) (simp add: hourly_window_def hourly_def)
  then show ?thesis
    by (simp add: window_next_close_def window_open_def hourly_window_def hourly_def maxCloseSteps_def
        del: close_loop.simps)
qed

theorem window_next_close_spec_witness:
  "window_open hourly_window ''UTC'' 0 \<and> window_open hourly_window ''UTC'' (599 * second) \<and>
     \<not> window_open hourly_window ''UTC'' (600 * second)"
proof -
  have "cron_fires {k * (3600 * second) |k. True} (sw_expr hourly_window ''UTC'')"
    using hourly_fires by (simp add: hourly_window_def)
  from window_next_close_spec [OF this hourly_next_close] show ?thesis by simp
qed

end
