(* ===== verification/Tables.thy ===== *)
theory Tables
  imports Systems
begin

text \<open>
  SQL tables as lists of rows in the order of insertion: the statements the store uses, and the
  contract of a UNIQUE index as an interface. A \<open>lock_table\<close> is a table of a state all of whose
  writes either change rows in place without taking a key or append a row that takes a free key;
  then at most one row ever holds each key.
\<close>

definition update_where :: "('r \<Rightarrow> bool) \<Rightarrow> ('r \<Rightarrow> 'r) \<Rightarrow> 'r list \<Rightarrow> 'r list" where
  "update_where P f rows = map (\<lambda>r. if P r then f r else r) rows"

definition delete_where :: "('r \<Rightarrow> bool) \<Rightarrow> 'r list \<Rightarrow> 'r list" where
  "delete_where P rows = filter (\<lambda>r. \<not> P r) rows"

definition limit_rows :: "int \<Rightarrow> 'r list \<Rightarrow> 'r list" where
  "limit_rows n rows = (if n < 0 then rows else take (nat n) rows)"

lemma update_where_Nil [simp]: "update_where P f [] = []"
  by (simp add: update_where_def)

lemma update_where_Cons [simp]:
  "update_where P f (r # rs) = (if P r then f r else r) # update_where P f rs"
  by (simp add: update_where_def)

lemma length_update_where [simp]: "length (update_where P f rows) = length rows"
  by (simp add: update_where_def)

lemma update_where_append [simp]:
  "update_where P f (xs @ ys) = update_where P f xs @ update_where P f ys"
  by (simp add: update_where_def)

lemma set_update_where:
  "set (update_where P f rows) = {r \<in> set rows. \<not> P r} \<union> f ` {r \<in> set rows. P r}"
  by (auto simp: update_where_def image_iff)

lemma update_where_none: "\<not> list_ex P rows \<Longrightarrow> update_where P f rows = rows"
  by (induction rows) auto

lemma map_update_where:
  "(\<And>r. r \<in> set rows \<Longrightarrow> P r \<Longrightarrow> k (f r) = k r) \<Longrightarrow> map k (update_where P f rows) = map k rows"
  by (induction rows) auto

text \<open>Reading a row by key after an update that keeps the keys.\<close>

lemma find_update_where:
  assumes "\<And>r. Q (f r) = Q r"
  shows "find Q (update_where P f rows) = map_option (\<lambda>r. if P r then f r else r) (find Q rows)"
  using assms by (induction rows) auto

definition unique_held :: "('r \<Rightarrow> bool) \<Rightarrow> ('r \<Rightarrow> 'k) \<Rightarrow> 'r list \<Rightarrow> bool" where
  "unique_held held key rows = distinct (map key (filter held rows))"

lemma unique_held_Nil [simp]: "unique_held held key []"
  by (simp add: unique_held_def)

lemma unique_held_snoc:
  "unique_held held key (rows @ [r]) \<longleftrightarrow>
     unique_held held key rows \<and> (held r \<longrightarrow> (\<forall>q\<in>set rows. held q \<longrightarrow> key q \<noteq> key r))"
  by (auto simp: unique_held_def image_iff)

lemma unique_held_filter: "unique_held held key rows \<Longrightarrow> unique_held held key (filter Q rows)"
proof (induction rows)
  case (Cons r rows)
  then show ?case by (auto simp: unique_held_def split: if_splits)
qed simp

lemma unique_held_map:
  "unique_held held key rows \<Longrightarrow>
   (\<And>r. r \<in> set rows \<Longrightarrow> key (f r) = key r \<and> (held (f r) \<longrightarrow> held r)) \<Longrightarrow>
   unique_held held key (map f rows)"
proof (induction rows)
  case Nil
  then show ?case by simp
next
  case (Cons r rows)
  have "set (map key (filter held (map f rows))) \<subseteq> set (map key (filter held rows))"
    using Cons.prems(2) by fastforce
  moreover have "unique_held held key (map f rows)"
    using Cons by (auto simp: unique_held_def split: if_splits)
  ultimately show ?case using Cons.prems by (auto simp: unique_held_def split: if_splits)
qed

lemma unique_heldD:
  "unique_held held key rows \<Longrightarrow> r \<in> set rows \<Longrightarrow> q \<in> set rows \<Longrightarrow> held r \<Longrightarrow> held q \<Longrightarrow>
     key r = key q \<Longrightarrow> r = q"
  by (auto simp: unique_held_def distinct_map inj_on_def)

text \<open>
  How a write may change a table that keeps a UNIQUE index: rows updated in place or deleted, or a
  row inserted.
\<close>

definition lock_write :: "('r \<Rightarrow> bool) \<Rightarrow> ('r \<Rightarrow> 'k) \<Rightarrow> 'r list \<Rightarrow> 'r list \<Rightarrow> bool" where
  "lock_write held key rows rows' =
     ((\<exists>f Q. rows' = map f (filter Q rows) \<and>
        (\<forall>r\<in>set rows. key (f r) = key r \<and> (held (f r) \<longrightarrow> held r))) \<or>
      (\<exists>r. rows' = rows @ [r] \<and> (held r \<longrightarrow> (\<forall>q\<in>set rows. held q \<longrightarrow> key q \<noteq> key r))))"

lemma lock_write_same [simp]: "lock_write held key rows rows"
  unfolding lock_write_def by (rule disjI1, rule exI [of _ id], rule exI [of _ "\<lambda>_. True"]) simp

lemma lock_write_update:
  "(\<And>r. r \<in> set rows \<Longrightarrow> P r \<Longrightarrow> key (f r) = key r \<and> (held (f r) \<longrightarrow> held r)) \<Longrightarrow>
     lock_write held key rows (update_where P f rows)"
  unfolding lock_write_def update_where_def
  by (rule disjI1, rule exI [of _ "\<lambda>r. if P r then f r else r"], rule exI [of _ "\<lambda>_. True"]) simp

lemma lock_write_delete: "lock_write held key rows (delete_where P rows)"
  unfolding lock_write_def delete_where_def
  by (rule disjI1, rule exI [of _ id], rule exI [of _ "\<lambda>r. \<not> P r"]) simp

lemma lock_write_insert:
  "(held r \<Longrightarrow> \<forall>q\<in>set rows. held q \<longrightarrow> key q \<noteq> key r) \<Longrightarrow> lock_write held key rows (rows @ [r])"
  unfolding lock_write_def by blast

lemma lock_write_unique:
  "lock_write held key rows rows' \<Longrightarrow> unique_held held key rows \<Longrightarrow> unique_held held key rows'"
  by (auto simp: lock_write_def unique_held_snoc intro!: unique_held_map unique_held_filter)

locale lock_table =
  fixes start :: "'s \<Rightarrow> bool" and step :: "'s \<Rightarrow> 's \<Rightarrow> bool"
    and rows :: "'s \<Rightarrow> 'r list" and held :: "'r \<Rightarrow> bool" and key :: "'r \<Rightarrow> 'k"
  assumes start_empty: "start s \<Longrightarrow> rows s = []"
    and step_write: "step s t \<Longrightarrow> lock_write held key (rows s) (rows t)"
begin

lemma start_unique: "start s \<Longrightarrow> unique_held held key (rows s)"
  by (simp add: start_empty)

lemma step_unique: "unique_held held key (rows s) \<Longrightarrow> step s t \<Longrightarrow> unique_held held key (rows t)"
  by (rule lock_write_unique [OF step_write])

end

sublocale lock_table \<subseteq> inv: inductive_invariant start step "\<lambda>s. unique_held held key (rows s)"
  by unfold_locales (rule start_unique, assumption, rule step_unique)

context lock_table
begin

lemma one_holder:
  assumes "reach start step s" "r \<in> set (rows s)" "q \<in> set (rows s)" "held r" "held q" "key r = key q"
  shows "r = q"
  using unique_heldD [OF inv.reach_inv [OF assms(1)] assms(2-6)] .

end

end
