(* ===== verification/StoreState.thy ===== *)
theory StoreState
  imports Tables
begin

text \<open>
  The data of the store (\<open>internal/store\<close>): the states of a deployment and the transitions the
  state machine allows, the rows of the tables, and the database as one record. A column that may
  be NULL is an \<open>option\<close> where the code tells NULL from the zero value; where it reads NULL as the
  empty string the column is a string.

  A time is stored as text in the layout \<open>time.RFC3339Nano\<close>, and SQLite compares the texts. The
  text of a time is its date and time of day, of fixed width (for the years 0 to 9999) and ordered
  as the seconds are, followed by the fraction without trailing zeros and by \<open>Z\<close>: \<open>ts_key\<close> is
  that pair, the first part standing for the fixed-width text.
\<close>

section \<open>The states of a deployment\<close>

datatype dstate =
    Detected | PendingApproval | PreHook | Applying | PostHook
  | Completed | Failed | Rejected | Superseded

definition state_str :: "dstate \<Rightarrow> string" where
  "state_str s = (case s of
       Detected \<Rightarrow> ''detected'' | PendingApproval \<Rightarrow> ''pending_approval'' | PreHook \<Rightarrow> ''pre_hook''
     | Applying \<Rightarrow> ''applying'' | PostHook \<Rightarrow> ''post_hook'' | Completed \<Rightarrow> ''completed''
     | Failed \<Rightarrow> ''failed'' | Rejected \<Rightarrow> ''rejected'' | Superseded \<Rightarrow> ''superseded'')"

definition IsActive :: "dstate \<Rightarrow> bool" where
  "IsActive s = (case s of
       Detected \<Rightarrow> True | PendingApproval \<Rightarrow> True | PreHook \<Rightarrow> True | Applying \<Rightarrow> True | PostHook \<Rightarrow> True
     | _ \<Rightarrow> False)"

definition allowed :: "dstate \<Rightarrow> dstate list" where
  "allowed s = (case s of
       Detected \<Rightarrow> [PendingApproval, PreHook, Applying, Completed, Failed, Superseded]
     | PendingApproval \<Rightarrow> [PreHook, Applying, Rejected, Superseded, Completed]
     | PreHook \<Rightarrow> [Applying, Failed]
     | Applying \<Rightarrow> [PostHook, Completed, Failed]
     | PostHook \<Rightarrow> [Completed, Failed]
     | _ \<Rightarrow> [])"

definition canTransition :: "dstate \<Rightarrow> dstate \<Rightarrow> bool" where
  "canTransition from_st to_st = list_ex (\<lambda>s. s = to_st) (allowed from_st)"

datatype dpolicy = PolAuto | PolApproval | PolOther string

definition dpolicy_str :: "dpolicy \<Rightarrow> string" where
  "dpolicy_str p = (case p of PolAuto \<Rightarrow> ''auto'' | PolApproval \<Rightarrow> ''approval'' | PolOther s \<Rightarrow> s)"

section \<open>Rows\<close>

record deployment =
  d_id :: string
  d_job_id :: string
  d_namespace :: string
  d_repository :: string
  d_commit_sha :: string
  d_commit_subject :: string
  d_commit_author :: string
  d_spec_hash :: string
  d_job_spec :: string
  d_job_source :: string
  d_job_vars :: string
  d_plan_diff :: string
  d_diff_hash :: string
  d_policy :: dpolicy
  d_state :: dstate
  d_cas_index :: nat
  d_applied_index :: "nat option"
  d_applied_version :: "nat option"
  d_eval_id :: string
  d_error :: string
  d_decided_by :: string
  d_decided_at :: "time option"
  d_retried_by :: string
  d_retried_at :: "time option"
  d_retry_of :: string
  d_window_lifted_by :: string
  d_promotion_wait_since :: "time option"
  d_promoted_at :: "time option"
  d_created_at :: time
  d_updated_at :: time

text \<open>\<open>Deployment.AppliedIndex\<close> as a reader of the row sees it: NULL is 0.\<close>

definition AppliedIndex :: "deployment \<Rightarrow> nat" where
  "AppliedIndex d = (case d_applied_index d of None \<Rightarrow> 0 | Some n \<Rightarrow> n)"

record deployment_hook =
  h_phase :: string
  h_position :: int
  h_hook_id :: string
  h_revision :: string
  h_spec_hash :: string
  h_job_spec :: string

datatype hook_state = HookDispatching | HookRunning | HookSucceeded | HookFailed | HookTimedOut

record hook_run =
  r_id :: string
  r_deployment_id :: string
  r_phase :: string
  r_position :: int
  r_hook_job_id :: string
  r_token :: string
  r_dispatched_job_id :: string
  r_state :: hook_state
  r_timeout_s :: int
  r_error :: string
  r_started_at :: time
  r_finished_at :: "time option"

record event =
  e_id :: nat
  e_deployment_id :: string
  e_ts :: time
  e_from :: "dstate option"
  e_to :: dstate
  e_actor :: string
  e_accessor_id :: string
  e_identity :: string
  e_message :: string

record pause =
  p_id :: nat
  p_namespace :: string
  p_job_id :: string
  p_paused_by :: string
  p_paused_at :: time
  p_reason :: string
  p_resumed_by :: string
  p_resumed_at :: "time option"

record window_lift =
  l_namespace :: string
  l_job_id :: string
  l_spec_hash :: string
  l_requested_by :: string
  l_requested_at :: time

text \<open>The database.\<close>

record store =
  deployments :: "deployment list"
  deployment_hooks :: "(string \<times> deployment_hook) list"
  hook_runs :: "hook_run list"
  events :: "event list"
  event_seq :: nat
  job_pauses :: "pause list"
  pause_seq :: nat
  nops_pauses :: "pause list"
  nops_pause_seq :: nat
  window_lifts :: "window_lift list"

definition empty_store :: store where
  "empty_store = \<lparr>deployments = [], deployment_hooks = [], hook_runs = [], events = [],
     event_seq = 0, job_pauses = [], pause_seq = 0, nops_pauses = [], nops_pause_seq = 0,
     window_lifts = []\<rparr>"

text \<open>
  The errors of the store. \<open>ErrInvalid\<close> is a refused argument, \<open>ErrConstraint\<close> a constraint of
  the database other than the ones the code reads a meaning into, and \<open>ErrDatabase\<close> any other
  failure of SQLite: no operation here returns it, its callers meet it.
\<close>

datatype store_error =
    ErrActiveDeployment | ErrNotFound | ErrStateConflict | ErrInvalidTransition | ErrAlreadyRetried
  | ErrAlreadyPaused | ErrNotPaused | ErrInvalid | ErrConstraint | ErrDatabase

text \<open>What a call brings with it: the clock, the next new ID, and the token and person behind it.\<close>

record call =
  c_now :: time
  c_new_id :: string
  c_accessor :: string
  c_identity :: string

section \<open>The order of stored times\<close>

definition frac_digits :: "nat \<Rightarrow> string" where
  "frac_digits n = map (\<lambda>i. digit_char (n div 10 ^ i mod 10)) [8, 7, 6, 5, 4, 3, 2, 1, 0]"

definition rfc_frac :: "nat \<Rightarrow> string" where
  "rfc_frac n = (if n = 0 then []
     else CHR ''.'' # rev (dropWhile (\<lambda>c. c = CHR ''0'') (rev (frac_digits n))))"

definition ts_key :: "time \<Rightarrow> int \<times> string" where
  "ts_key t = (t div second, rfc_frac (nat (t mod second)) @ ''Z'')"

definition created_key :: "deployment \<Rightarrow> (int \<times> string) \<times> string" where
  "created_key d = (ts_key (d_created_at d), d_id d)"

definition updated_key :: "deployment \<Rightarrow> (int \<times> string) \<times> string" where
  "updated_key d = (ts_key (d_updated_at d), d_id d)"

definition has_id :: "string \<Rightarrow> deployment \<Rightarrow> bool" where
  "has_id i d = (d_id d = i)"

definition of_job :: "string \<Rightarrow> string \<Rightarrow> deployment \<Rightarrow> bool" where
  "of_job ns job d = (d_namespace d = ns \<and> d_job_id d = job)"

lemma canTransition_active: "canTransition a b \<Longrightarrow> IsActive a"
  by (cases a) (simp_all add: canTransition_def allowed_def IsActive_def)

lemma canTransition_into: "canTransition a b \<Longrightarrow> b \<noteq> Detected"
  by (cases a) (auto simp: canTransition_def allowed_def)

text \<open>Different seconds are ordered as the times are.\<close>

lemma ts_key_seconds: "t div second < u div second \<Longrightarrow> ts_key t < ts_key u"
  by (simp add: ts_key_def)

lemma ts_key_seconds_iff:
  "t div second \<noteq> u div second \<Longrightarrow> ts_key t < ts_key u \<longleftrightarrow> t < u"
proof -
  assume ne: "t div second \<noteq> u div second"
  have "t < u \<longleftrightarrow> t div second < u div second"
    using ne zdiv_mono1 [of t u second] zdiv_mono1 [of u t second] by linarith
  with ne show ?thesis by (auto simp: ts_key_def order_le_less)
qed

end
