(* ===== verification/DeploymentStore.thy ===== *)
theory DeploymentStore
  imports StoreState
begin

text \<open>
  The deployments and their audit log (\<open>internal/store/store.go\<close>). Each operation is one
  transaction: it returns the new database, or an error and the database as it was.
\<close>

section \<open>Events\<close>

definition insertEvent ::
  "call \<Rightarrow> string \<Rightarrow> dstate option \<Rightarrow> dstate \<Rightarrow> string \<Rightarrow> string \<Rightarrow> store \<Rightarrow> store" where
  "insertEvent c dep from_st to_st actor msg s =
     s\<lparr>events := events s @ [\<lparr>e_id = Suc (event_seq s), e_deployment_id = dep, e_ts = c_now c,
          e_from = from_st, e_to = to_st, e_actor = actor, e_accessor_id = c_accessor c,
          e_identity = c_identity c, e_message = msg\<rparr>],
       event_seq := Suc (event_seq s)\<rparr>"

section \<open>Creating a deployment\<close>

text \<open>The fields of a deployment \<open>CreateDeployment\<close> reads; no state is the empty string.\<close>

record new_deployment =
  n_job_id :: string
  n_namespace :: string
  n_repository :: string
  n_commit_sha :: string
  n_commit_subject :: string
  n_commit_author :: string
  n_spec_hash :: string
  n_job_spec :: string
  n_job_source :: string
  n_job_vars :: string
  n_plan_diff :: string
  n_diff_hash :: string
  n_policy :: dpolicy
  n_state :: "dstate option"
  n_error :: string
  n_cas_index :: nat
  n_retry_of :: string
  n_window_lifted_by :: string
  n_hooks :: "deployment_hook list"

definition born_state :: "new_deployment \<Rightarrow> dstate" where
  "born_state n = (case n_state n of None \<Rightarrow> Detected | Some st \<Rightarrow> st)"

text \<open>The checks before the transaction.\<close>

definition create_refused :: "new_deployment \<Rightarrow> bool" where
  "create_refused n =
     (n_job_id n = [] \<or> n_namespace n = [] \<or> n_spec_hash n = [] \<or> n_job_spec n = [] \<or>
      (n_policy n \<noteq> PolAuto \<and> n_policy n \<noteq> PolApproval) \<or>
      (case born_state n of
         Detected \<Rightarrow> n_error n \<noteq> []
       | PendingApproval \<Rightarrow> n_error n \<noteq> []
       | Failed \<Rightarrow> n_error n = []
       | _ \<Rightarrow> True))"

text \<open>The row the INSERT writes.\<close>

definition new_row :: "call \<Rightarrow> new_deployment \<Rightarrow> deployment" where
  "new_row c n = \<lparr>d_id = c_new_id c, d_job_id = n_job_id n, d_namespace = n_namespace n,
     d_repository = (if n_repository n = [] then ''default'' else n_repository n),
     d_commit_sha = n_commit_sha n, d_commit_subject = n_commit_subject n,
     d_commit_author = n_commit_author n, d_spec_hash = n_spec_hash n, d_job_spec = n_job_spec n,
     d_job_source = n_job_source n, d_job_vars = n_job_vars n, d_plan_diff = n_plan_diff n,
     d_diff_hash = n_diff_hash n, d_policy = n_policy n, d_state = born_state n,
     d_cas_index = n_cas_index n, d_applied_index = None, d_applied_version = None,
     d_eval_id = [], d_error = n_error n, d_decided_by = [], d_decided_at = None,
     d_retried_by = [], d_retried_at = None, d_retry_of = n_retry_of n,
     d_window_lifted_by = n_window_lifted_by n, d_promotion_wait_since = None,
     d_promoted_at = None, d_created_at = c_now c, d_updated_at = c_now c\<rparr>"

fun insert_hooks ::
  "string \<Rightarrow> deployment_hook list \<Rightarrow> (string \<times> deployment_hook) list \<Rightarrow>
   store_error + (string \<times> deployment_hook) list" where
  "insert_hooks dep [] tab = Inr tab"
| "insert_hooks dep (h # hs) tab =
     (if h_revision h = [] \<or> h_hook_id h = [] \<or> h_spec_hash h = [] \<or> h_job_spec h = [] \<or>
         (h_phase h \<noteq> ''pre'' \<and> h_phase h \<noteq> ''post'') then Inl ErrInvalid
      else if list_ex (\<lambda>(d, h'). d = dep \<and> h_phase h' = h_phase h \<and> h_position h' = h_position h) tab
        then Inl ErrConstraint
      else insert_hooks dep hs (tab @ [(dep, h)]))"

definition detected_msg :: "new_deployment \<Rightarrow> string" where
  "detected_msg n = ''detected at commit '' @ n_commit_sha n @
     (if n_retry_of n \<noteq> [] then '', retry of '' @ n_retry_of n else [])"

definition log_birth :: "call \<Rightarrow> new_deployment \<Rightarrow> store \<Rightarrow> store" where
  "log_birth c n s = (let i = c_new_id c; s1 = insertEvent c i None Detected ''nops'' (detected_msg n) s;
     s2 = (if n_window_lifted_by n \<noteq> []
           then insertEvent c i (Some Detected) Detected (n_window_lifted_by n)
                  ''deploy now requested outside the sync window''
                  (s1\<lparr>window_lifts := delete_where
                     (\<lambda>l. l_namespace l = n_namespace n \<and> l_job_id l = n_job_id n) (window_lifts s1)\<rparr>)
           else s1)
     in (case born_state n of
           PendingApproval \<Rightarrow> insertEvent c i (Some Detected) PendingApproval ''nops'' ''waiting for approval'' s2
         | Failed \<Rightarrow> insertEvent c i (Some Detected) Failed ''nops'' (n_error n) s2
         | _ \<Rightarrow> s2))"

text \<open>
  \<open>CreateDeployment\<close>. The INSERT meets the primary key, the index of the per-job lock and the
  reference of \<open>retry_of\<close>. The second value is the deployment as the caller has it afterwards.
\<close>

definition CreateDeployment ::
  "call \<Rightarrow> new_deployment \<Rightarrow> store \<Rightarrow> store_error + store \<times> deployment" where
  "CreateDeployment c n s =
     (if create_refused n then Inl ErrInvalid
      else if list_ex (has_id (c_new_id c)) (deployments s) then Inl ErrConstraint
      else if IsActive (born_state n) \<and>
          list_ex (\<lambda>d. of_job (n_namespace n) (n_job_id n) d \<and> IsActive (d_state d)) (deployments s)
        then Inl ErrActiveDeployment
      else if n_retry_of n \<noteq> [] \<and> n_retry_of n \<noteq> c_new_id c \<and> \<not> list_ex (has_id (n_retry_of n)) (deployments s)
        then Inl ErrConstraint
      else (case insert_hooks (c_new_id c) (n_hooks n) (deployment_hooks s) of
          Inl e \<Rightarrow> Inl e
        | Inr hooks \<Rightarrow>
            Inr (log_birth c n (s\<lparr>deployments := deployments s @ [new_row c n], deployment_hooks := hooks\<rparr>),
                 new_row c n)))"

section \<open>Transitions\<close>

record transition =
  t_from :: "dstate option"
  t_actor :: string
  t_message :: string
  t_error :: string
  t_applied_index :: nat
  t_eval_id :: string
  t_decided_by :: string

definition by_actor :: "dstate \<Rightarrow> string \<Rightarrow> string \<Rightarrow> transition" where
  "by_actor st actor msg = \<lparr>t_from = Some st, t_actor = actor, t_message = msg, t_error = [],
     t_applied_index = 0, t_eval_id = [], t_decided_by = []\<rparr>"

text \<open>\<open>COALESCE(NULLIF(?, ''), column)\<close>.\<close>

definition keep_if_empty :: "string \<Rightarrow> string \<Rightarrow> string" where
  "keep_if_empty new old = (if new = [] then old else new)"

definition transition_row :: "call \<Rightarrow> dstate \<Rightarrow> transition \<Rightarrow> deployment \<Rightarrow> deployment" where
  "transition_row c to_st t d = d\<lparr>d_state := to_st, d_updated_at := c_now c,
     d_error := keep_if_empty (t_error t) (d_error d),
     d_applied_index := (if t_applied_index t = 0 then d_applied_index d else Some (t_applied_index t)),
     d_eval_id := keep_if_empty (t_eval_id t) (d_eval_id d),
     d_decided_by := keep_if_empty (t_decided_by t) (d_decided_by d),
     d_decided_at := (if t_decided_by t \<noteq> [] then Some (c_now c) else d_decided_at d)\<rparr>"

text \<open>The error of an UPDATE that found no row: the deployment is missing, or not as expected.\<close>

definition no_row :: "string \<Rightarrow> store \<Rightarrow> store_error" where
  "no_row i s = (if list_ex (has_id i) (deployments s) then ErrStateConflict else ErrNotFound)"

definition in_state :: "string \<Rightarrow> dstate \<Rightarrow> deployment \<Rightarrow> bool" where
  "in_state i st d = (d_id d = i \<and> d_state d = st)"

definition Transition ::
  "call \<Rightarrow> string \<Rightarrow> dstate \<Rightarrow> transition \<Rightarrow> store \<Rightarrow> store_error + store" where
  "Transition c i to_st t s = (case t_from t of
       None \<Rightarrow> Inl ErrInvalid
     | Some from_st \<Rightarrow>
         if t_actor t = [] then Inl ErrInvalid
         else if \<not> canTransition from_st to_st then Inl ErrInvalidTransition
         else if \<not> list_ex (in_state i from_st) (deployments s) then Inl (no_row i s)
         else Inr (insertEvent c i (Some from_st) to_st (t_actor t)
                     (if t_message t = [] then t_error t else t_message t)
                     (s\<lparr>deployments := update_where (in_state i from_st) (transition_row c to_st t)
                          (deployments s)\<rparr>)))"

section \<open>Changes within a state\<close>

definition SetApplied ::
  "call \<Rightarrow> string \<Rightarrow> nat \<Rightarrow> nat \<Rightarrow> string \<Rightarrow> store \<Rightarrow> store_error + store" where
  "SetApplied c i idx ver eval s =
     (if idx = 0 then Inl ErrInvalid
      else if \<not> list_ex (in_state i Applying) (deployments s) then Inl (no_row i s)
      else Inr (s\<lparr>deployments := update_where (in_state i Applying)
             (\<lambda>d. d\<lparr>d_applied_index := Some idx, d_applied_version := Some ver,
                    d_eval_id := keep_if_empty eval (d_eval_id d), d_updated_at := c_now c\<rparr>)
             (deployments s)\<rparr>))"

text \<open>The event every change within a state logs.\<close>

definition scale_msg :: "nat \<Rightarrow> nat \<Rightarrow> string \<Rightarrow> string" where
  "scale_msg a b what = ''live job index '' @ show_nat a @ '' -> '' @ show_nat b @ '' with '' @ what @
     '': a scale, not an outside edit''"

definition MoveCASIndex ::
  "call \<Rightarrow> string \<Rightarrow> dstate \<Rightarrow> nat \<Rightarrow> nat \<Rightarrow> store \<Rightarrow> store_error + store" where
  "MoveCASIndex c i st a b s =
     (let P = (\<lambda>d. in_state i st d \<and> d_cas_index d = a \<and> d_applied_index d = None) in
      if st \<noteq> Detected \<and> st \<noteq> PendingApproval \<and> st \<noteq> Applying then Inl ErrInvalid
      else if \<not> list_ex P (deployments s) then Inl (no_row i s)
      else Inr (insertEvent c i (Some st) st ''nops'' (scale_msg a b ''the same plan diff'')
             (s\<lparr>deployments := update_where P (\<lambda>d. d\<lparr>d_cas_index := b, d_updated_at := c_now c\<rparr>)
                  (deployments s)\<rparr>)))"

definition MoveAppliedIndex :: "call \<Rightarrow> string \<Rightarrow> nat \<Rightarrow> nat \<Rightarrow> store \<Rightarrow> store_error + store" where
  "MoveAppliedIndex c i a b s =
     (let P = (\<lambda>d. in_state i Applying d \<and> d_applied_index d = Some a) in
      if \<not> list_ex P (deployments s) then Inl (no_row i s)
      else Inr (insertEvent c i (Some Applying) Applying ''nops'' (scale_msg a b ''nothing to apply'')
             (s\<lparr>deployments := update_where P (\<lambda>d. d\<lparr>d_applied_index := Some b, d_updated_at := c_now c\<rparr>)
                  (deployments s)\<rparr>)))"

definition retriable_row :: "string \<Rightarrow> deployment \<Rightarrow> bool" where
  "retriable_row i d = (d_id d = i \<and> (d_state d = Failed \<or> d_state d = Rejected) \<and> d_retried_at d = None)"

definition MarkRetried :: "call \<Rightarrow> string \<Rightarrow> string \<Rightarrow> store \<Rightarrow> store_error + store" where
  "MarkRetried c i actor s =
     (if actor = [] then Inl ErrInvalid
      else (case find (retriable_row i) (deployments s) of
          None \<Rightarrow> (case find (has_id i) (deployments s) of
              None \<Rightarrow> Inl ErrNotFound
            | Some d \<Rightarrow> if d_retried_at d \<noteq> None then Inl ErrAlreadyRetried else Inl ErrStateConflict)
        | Some d \<Rightarrow>
            Inr (insertEvent c i (Some (d_state d)) (d_state d) actor ''retry requested''
              (s\<lparr>deployments := update_where (retriable_row i)
                   (\<lambda>d. d\<lparr>d_retried_by := actor, d_retried_at := Some (c_now c), d_updated_at := c_now c\<rparr>)
                   (deployments s)\<rparr>))))"

text \<open>\<open>markPromotion\<close>: the guard and the column of its statement are arguments.\<close>

definition markPromotion ::
  "call \<Rightarrow> string \<Rightarrow> (deployment \<Rightarrow> bool) \<Rightarrow> (deployment \<Rightarrow> deployment) \<Rightarrow> string \<Rightarrow> store \<Rightarrow>
   store_error + store \<times> bool" where
  "markPromotion c i guard upd msg s =
     (let P = (\<lambda>d. in_state i Applying d \<and> guard d) in
      if \<not> list_ex P (deployments s) then
        (case find (has_id i) (deployments s) of
           None \<Rightarrow> Inl ErrNotFound
         | Some d \<Rightarrow> if d_state d \<noteq> Applying then Inl ErrStateConflict else Inr (s, False))
      else Inr (insertEvent c i (Some Applying) Applying ''nops'' msg
             (s\<lparr>deployments := update_where P (\<lambda>d. (upd d)\<lparr>d_updated_at := c_now c\<rparr>) (deployments s)\<rparr>),
           True))"

definition MarkAwaitingPromotion :: "call \<Rightarrow> string \<Rightarrow> store \<Rightarrow> store_error + store \<times> bool" where
  "MarkAwaitingPromotion c i = markPromotion c i (\<lambda>d. d_promotion_wait_since d = None)
     (\<lambda>d. d\<lparr>d_promotion_wait_since := Some (c_now c)\<rparr>) ''waiting for canary promotion in Nomad''"

definition MarkPromoted :: "call \<Rightarrow> string \<Rightarrow> store \<Rightarrow> store_error + store \<times> bool" where
  "MarkPromoted c i = markPromotion c i
     (\<lambda>d. d_promotion_wait_since d \<noteq> None \<and> d_promoted_at d = None)
     (\<lambda>d. d\<lparr>d_promoted_at := Some (c_now c)\<rparr>)
     ''canaries promoted in Nomad: the apply timeout counts again''"

definition MarkPromotionRequested :: "call \<Rightarrow> string \<Rightarrow> string \<Rightarrow> store \<Rightarrow> store_error + store" where
  "MarkPromotionRequested c i actor s =
     (if actor = [] then Inl ErrInvalid
      else if \<not> list_ex (in_state i Applying) (deployments s) then Inl (no_row i s)
      else Inr (insertEvent c i (Some Applying) Applying actor ''promotion requested''
             (s\<lparr>deployments := update_where (in_state i Applying) (\<lambda>d. d\<lparr>d_updated_at := c_now c\<rparr>)
                  (deployments s)\<rparr>)))"

section \<open>Queries\<close>

definition GetDeployment :: "string \<Rightarrow> store \<Rightarrow> store_error + deployment" where
  "GetDeployment i s = (case find (has_id i) (deployments s) of None \<Rightarrow> Inl ErrNotFound | Some d \<Rightarrow> Inr d)"

text \<open>\<open>ORDER BY created_at DESC, id DESC LIMIT 1\<close>.\<close>

definition newest :: "deployment list \<Rightarrow> deployment option" where
  "newest ds = (case rev (sort_key created_key ds) of [] \<Rightarrow> None | d # _ \<Rightarrow> Some d)"

definition or_not_found :: "'a option \<Rightarrow> store_error + 'a" where
  "or_not_found r = (case r of None \<Rightarrow> Inl ErrNotFound | Some x \<Rightarrow> Inr x)"

definition RetryOf :: "string \<Rightarrow> store \<Rightarrow> store_error + deployment" where
  "RetryOf i s = or_not_found (newest (filter (\<lambda>d. i \<noteq> [] \<and> d_retry_of d = i) (deployments s)))"

definition ActiveDeployment :: "string \<Rightarrow> string \<Rightarrow> store \<Rightarrow> store_error + deployment" where
  "ActiveDeployment ns job s =
     or_not_found (find (\<lambda>d. of_job ns job d \<and> IsActive (d_state d)) (deployments s))"

definition LatestDeployment :: "string \<Rightarrow> string \<Rightarrow> store \<Rightarrow> store_error + deployment" where
  "LatestDeployment ns job s = or_not_found (newest (filter (of_job ns job) (deployments s)))"

definition ListActive :: "store \<Rightarrow> deployment list" where
  "ListActive s = sort_key created_key (filter (\<lambda>d. IsActive (d_state d)) (deployments s))"

definition ListByState :: "dstate \<Rightarrow> store \<Rightarrow> deployment list" where
  "ListByState st s = sort_key created_key (filter (\<lambda>d. d_state d = st) (deployments s))"

definition ListByJob :: "string \<Rightarrow> string \<Rightarrow> int \<Rightarrow> store \<Rightarrow> deployment list" where
  "ListByJob ns job n s = limit_rows n (rev (sort_key created_key (filter (of_job ns job) (deployments s))))"

definition LatestPerJob :: "store \<Rightarrow> deployment list" where
  "LatestPerJob s = sort_key (\<lambda>d. (d_namespace d, d_job_id d))
     (filter (\<lambda>d. map_option d_id (newest (filter (of_job (d_namespace d) (d_job_id d)) (deployments s)))
        = Some (d_id d)) (deployments s))"

definition LatestCompletedPerJob :: "string \<Rightarrow> store \<Rightarrow> deployment list" where
  "LatestCompletedPerJob ns s = sort_key d_job_id
     (filter (\<lambda>d. d_namespace d = ns \<and> d_state d = Completed \<and>
        map_option d_id (newest (filter (\<lambda>x. of_job (d_namespace d) (d_job_id d) x \<and> d_state x = Completed)
          (deployments s))) = Some (d_id d)) (deployments s))"

definition ListRecentCompleted :: "int \<Rightarrow> store \<Rightarrow> deployment list" where
  "ListRecentCompleted n s =
     limit_rows n (rev (sort_key updated_key (filter (\<lambda>d. d_state d = Completed) (deployments s))))"

definition phase_rank :: "string \<Rightarrow> nat" where
  "phase_rank ph = (if ph = ''pre'' then 0 else 1)"

definition DeploymentHooks :: "string \<Rightarrow> store \<Rightarrow> deployment_hook list" where
  "DeploymentHooks i s = sort_key (\<lambda>h. (phase_rank (h_phase h), h_position h))
     (map snd (filter (\<lambda>r. fst r = i) (deployment_hooks s)))"

definition HookRevisionsInUse :: "string \<Rightarrow> store \<Rightarrow> string list" where
  "HookRevisionsInUse ns s = sort (remdups (map (\<lambda>r. h_revision (snd r))
     (filter (\<lambda>r. list_ex (\<lambda>d. d_id d = fst r \<and> d_namespace d = ns \<and> IsActive (d_state d)) (deployments s))
       (deployment_hooks s))))"

definition Events :: "string \<Rightarrow> store \<Rightarrow> event list" where
  "Events i s = sort_key e_id (filter (\<lambda>e. e_deployment_id e = i) (events s))"

text \<open>\<open>AppliedSince\<close>: the last event that entered applying from another state.\<close>

definition AppliedSince :: "string \<Rightarrow> store \<Rightarrow> store_error + time" where
  "AppliedSince i s = (case rev (sort_key e_id (filter (\<lambda>e. e_deployment_id e = i \<and> e_to e = Applying \<and>
       e_from e \<noteq> Some Applying) (events s))) of [] \<Rightarrow> Inl ErrNotFound | e # _ \<Rightarrow> Inr (e_ts e))"

end
