(* ===== verification/HookRunStore.thy ===== *)
theory HookRunStore
  imports DeploymentStore
begin

text \<open>
  The runs of hooks in the store (\<open>internal/store/store.go\<close>): one row per deployment, phase and
  position, created once and found again by a restarted controller.
\<close>

definition hook_state_done :: "hook_state \<Rightarrow> bool" where
  "hook_state_done st = (st = HookSucceeded \<or> st = HookFailed \<or> st = HookTimedOut)"

text \<open>Integers with a sign, as \<open>%d\<close> prints them.\<close>

definition show_int :: "int \<Rightarrow> string" where
  "show_int n = (if n < 0 then CHR ''-'' # show_nat (nat (- n)) else show_nat (nat n))"

definition hook_token :: "string \<Rightarrow> string \<Rightarrow> int \<Rightarrow> string" where
  "hook_token dep phase pos = dep @ '':'' @ phase @ '':'' @ show_int pos"

text \<open>Division of durations in Go truncates towards zero.\<close>

definition go_div :: "int \<Rightarrow> int \<Rightarrow> int" where
  "go_div a b = (if 0 \<le> a then a div b else - ((- a) div b))"

definition at_position :: "string \<Rightarrow> string \<Rightarrow> int \<Rightarrow> hook_run \<Rightarrow> bool" where
  "at_position dep phase pos r =
     (r_deployment_id r = dep \<and> r_phase r = phase \<and> r_position r = pos)"

definition GetHookRun :: "string \<Rightarrow> string \<Rightarrow> int \<Rightarrow> store \<Rightarrow> store_error + hook_run" where
  "GetHookRun dep phase pos s = or_not_found (find (at_position dep phase pos) (hook_runs s))"

text \<open>\<open>INSERT ... ON CONFLICT (deployment_id, phase, position) DO NOTHING\<close>, then a read.\<close>

definition EnsureHookRun ::
  "call \<Rightarrow> string \<Rightarrow> string \<Rightarrow> int \<Rightarrow> string \<Rightarrow> duration \<Rightarrow> store \<Rightarrow>
   store_error + store \<times> hook_run \<times> bool" where
  "EnsureHookRun c dep phase pos job timeout s =
     (if phase \<noteq> ''pre'' \<and> phase \<noteq> ''post'' then Inl ErrInvalid
      else if pos < 0 then Inl ErrInvalid
      else (case find (at_position dep phase pos) (hook_runs s) of
          Some r \<Rightarrow> Inr (s, r, False)
        | None \<Rightarrow>
            if list_ex (\<lambda>r. r_id r = c_new_id c) (hook_runs s) then Inl ErrConstraint
            else if \<not> list_ex (has_id dep) (deployments s) then Inl ErrConstraint
            else (let r = \<lparr>r_id = c_new_id c, r_deployment_id = dep, r_phase = phase, r_position = pos,
                    r_hook_job_id = job, r_token = hook_token dep phase pos, r_dispatched_job_id = [],
                    r_state = HookDispatching, r_timeout_s = go_div timeout second, r_error = [],
                    r_started_at = c_now c, r_finished_at = None\<rparr>
                  in Inr (s\<lparr>hook_runs := hook_runs s @ [r]\<rparr>, r, True))))"

text \<open>\<open>HookRun.Timeout\<close>, from the seconds of the row.\<close>

definition run_timeout :: "hook_run \<Rightarrow> duration" where
  "run_timeout r = wrap64 (r_timeout_s r * second)"

definition ListHookRuns :: "string \<Rightarrow> store \<Rightarrow> hook_run list" where
  "ListHookRuns dep s = sort_key (\<lambda>r. (phase_rank (r_phase r), r_position r))
     (filter (\<lambda>r. r_deployment_id r = dep) (hook_runs s))"

record hook_update =
  u_state :: "hook_state option"
  u_dispatched :: string
  u_error :: string

definition update_run_row :: "call \<Rightarrow> hook_state \<Rightarrow> hook_update \<Rightarrow> hook_run \<Rightarrow> hook_run" where
  "update_run_row c st u r = r\<lparr>r_state := st,
     r_dispatched_job_id := keep_if_empty (u_dispatched u) (r_dispatched_job_id r),
     r_error := keep_if_empty (u_error u) (r_error r),
     r_finished_at := (if hook_state_done st then Some (c_now c) else r_finished_at r)\<rparr>"

definition UpdateHookRun :: "call \<Rightarrow> string \<Rightarrow> hook_update \<Rightarrow> store \<Rightarrow> store_error + store" where
  "UpdateHookRun c i u s = (case u_state u of
       None \<Rightarrow> Inl ErrInvalid
     | Some st \<Rightarrow>
         if \<not> list_ex (\<lambda>r. r_id r = i) (hook_runs s) then Inl ErrNotFound
         else Inr (s\<lparr>hook_runs := update_where (\<lambda>r. r_id r = i) (update_run_row c st u) (hook_runs s)\<rparr>))"

section \<open>What the operations do\<close>

lemma EnsureHookRun_found:
  "find (at_position dep phase pos) (hook_runs s) = Some r \<Longrightarrow> phase = ''pre'' \<or> phase = ''post'' \<Longrightarrow>
     0 \<le> pos \<Longrightarrow> EnsureHookRun c dep phase pos job tmo s = Inr (s, r, False)"
  by (auto simp: EnsureHookRun_def)

lemma EnsureHookRun_Inr:
  assumes "EnsureHookRun c dep phase pos job tmo s = Inr (s', r, new)"
  shows "GetHookRun dep phase pos s' = Inr r \<and> at_position dep phase pos r \<and>
    (new \<longrightarrow> hook_runs s' = hook_runs s @ [r] \<and> r_state r = HookDispatching \<and> r_dispatched_job_id r = []) \<and>
    (\<not> new \<longrightarrow> s' = s)"
proof (cases "find (at_position dep phase pos) (hook_runs s)")
  case (Some q)
  with assms have "s' = s" "r = q" "\<not> new" by (auto simp: EnsureHookRun_def split: if_splits)
  with Some find_SomeD [OF Some] show ?thesis by (simp add: GetHookRun_def or_not_found_def)
next
  case None
  have "find P (xs @ [x]) = Some x" if "find P xs = None" "P x" for P and xs :: "hook_run list" and x
    using that by (induction xs) (auto split: if_splits)
  with None assms show ?thesis
    by (auto simp: EnsureHookRun_def GetHookRun_def or_not_found_def Let_def at_position_def
        split: if_splits)
qed

text \<open>
  \<open>EnsureHookRun\<close> is the idempotent entry point it is meant to be: after it succeeded,
  calling it again for the same deployment, phase and position, with whatever hook, timeout, clock
  and ID, changes nothing and returns the same run, and so does reading the run.
\<close>

theorem EnsureHookRun_idempotent:
  assumes "EnsureHookRun c dep phase pos job tmo s = Inr (s', r, new)"
  shows "EnsureHookRun c' dep phase pos job' tmo' s' = Inr (s', r, False) \<and>
    GetHookRun dep phase pos s' = Inr r"
proof -
  from assms have "phase = ''pre'' \<or> phase = ''post''" "0 \<le> pos"
    by (auto simp: EnsureHookRun_def split: if_splits)
  with EnsureHookRun_Inr [OF assms] show ?thesis
    by (auto simp: GetHookRun_def or_not_found_def intro!: EnsureHookRun_found split: option.splits)
qed


theorem EnsureHookRun_idempotent_witness:
  "\<exists>s r. EnsureHookRun \<lparr>c_now = 9, c_new_id = ''R2'', c_accessor = [], c_identity = []\<rparr> ''D'' ''pre'' 0 ''j'' second s
      = Inr (s, r, False)"
proof -
  let ?c = "\<lparr>c_now = 5, c_new_id = ''R1'', c_accessor = [], c_identity = []\<rparr>"
  let ?d = "(new_row ?c \<lparr>n_job_id = ''j'', n_namespace = ''n'', n_repository = [], n_commit_sha = [],
     n_commit_subject = [], n_commit_author = [], n_spec_hash = ''h'', n_job_spec = ''s'',
     n_job_source = [], n_job_vars = [], n_plan_diff = [], n_diff_hash = [], n_policy = PolAuto,
     n_state = None, n_error = [], n_cas_index = 0, n_retry_of = [], n_window_lifted_by = [],
     n_hooks = []\<rparr>)\<lparr>d_id := ''D''\<rparr>"
  have "\<exists>x. EnsureHookRun ?c ''D'' ''pre'' 0 ''j'' second (empty_store\<lparr>deployments := [?d]\<rparr>) = Inr x"
    by (auto simp: EnsureHookRun_def empty_store_def has_id_def Let_def)
  then obtain s r new where
    "EnsureHookRun ?c ''D'' ''pre'' 0 ''j'' second (empty_store\<lparr>deployments := [?d]\<rparr>) = Inr (s, r, new)"
    by (metis prod.exhaust)
  from EnsureHookRun_idempotent [OF this] show ?thesis by blast
qed

end
