(* ===== verification/PauseStore.thy ===== *)
theory PauseStore
  imports StoreState
begin

text \<open>
  The pauses of a job and of every job, and the requests to deploy outside a sync window
  (\<open>internal/store/pause.go\<close>, \<open>internal/store/windowlift.go\<close>).
\<close>

section \<open>Pauses\<close>

definition in_force :: "pause \<Rightarrow> bool" where
  "in_force p = (p_resumed_at p = None)"

definition pause_of_job :: "string \<Rightarrow> string \<Rightarrow> pause \<Rightarrow> bool" where
  "pause_of_job ns job p = (p_namespace p = ns \<and> p_job_id p = job \<and> in_force p)"

definition resume_row :: "call \<Rightarrow> string \<Rightarrow> pause \<Rightarrow> pause" where
  "resume_row c actor p = p\<lparr>p_resumed_by := actor, p_resumed_at := Some (c_now c)\<rparr>"

definition new_pause :: "call \<Rightarrow> nat \<Rightarrow> string \<Rightarrow> string \<Rightarrow> string \<Rightarrow> string \<Rightarrow> pause" where
  "new_pause c i ns job actor reason = \<lparr>p_id = i, p_namespace = ns, p_job_id = job,
     p_paused_by = actor, p_paused_at = c_now c, p_reason = reason, p_resumed_by = [], p_resumed_at = None\<rparr>"

definition PauseJob ::
  "call \<Rightarrow> string \<Rightarrow> string \<Rightarrow> string \<Rightarrow> string \<Rightarrow> store \<Rightarrow> store_error + store" where
  "PauseJob c ns job actor reason s =
     (if actor = [] then Inl ErrInvalid
      else if list_ex (pause_of_job ns job) (job_pauses s) then Inl ErrAlreadyPaused
      else Inr (s\<lparr>job_pauses := job_pauses s @ [new_pause c (Suc (pause_seq s)) ns job actor reason],
                  pause_seq := Suc (pause_seq s)\<rparr>))"

definition ResumeJob :: "call \<Rightarrow> string \<Rightarrow> string \<Rightarrow> string \<Rightarrow> store \<Rightarrow> store_error + store" where
  "ResumeJob c ns job actor s =
     (if actor = [] then Inl ErrInvalid
      else if \<not> list_ex (pause_of_job ns job) (job_pauses s) then Inl ErrNotPaused
      else Inr (s\<lparr>job_pauses := update_where (pause_of_job ns job) (resume_row c actor) (job_pauses s)\<rparr>))"

definition ActivePauses :: "store \<Rightarrow> pause list" where
  "ActivePauses s = sort_key (\<lambda>p. (ts_key (p_paused_at p), p_id p)) (filter in_force (job_pauses s))"

definition PauseOf :: "string \<Rightarrow> string \<Rightarrow> store \<Rightarrow> store_error + pause" where
  "PauseOf ns job s = (case find (pause_of_job ns job) (job_pauses s) of None \<Rightarrow> Inl ErrNotFound | Some p \<Rightarrow> Inr p)"

definition PauseAll :: "call \<Rightarrow> string \<Rightarrow> string \<Rightarrow> store \<Rightarrow> store_error + store" where
  "PauseAll c actor reason s =
     (if actor = [] then Inl ErrInvalid
      else if list_ex in_force (nops_pauses s) then Inl ErrAlreadyPaused
      else Inr (s\<lparr>nops_pauses := nops_pauses s @ [new_pause c (Suc (nops_pause_seq s)) [] [] actor reason],
                  nops_pause_seq := Suc (nops_pause_seq s)\<rparr>))"

definition ResumeAll :: "call \<Rightarrow> string \<Rightarrow> store \<Rightarrow> store_error + store" where
  "ResumeAll c actor s =
     (if actor = [] then Inl ErrInvalid
      else if \<not> list_ex in_force (nops_pauses s) then Inl ErrNotPaused
      else Inr (s\<lparr>nops_pauses := update_where in_force (resume_row c actor) (nops_pauses s)\<rparr>))"

definition AllPause :: "store \<Rightarrow> store_error + pause" where
  "AllPause s = (case find in_force (nops_pauses s) of None \<Rightarrow> Inl ErrNotFound | Some p \<Rightarrow> Inr p)"

section \<open>Deploy now requests\<close>

definition lift_of_job :: "string \<Rightarrow> string \<Rightarrow> window_lift \<Rightarrow> bool" where
  "lift_of_job ns job l = (l_namespace l = ns \<and> l_job_id l = job)"

text \<open>\<open>INSERT ... ON CONFLICT (namespace, job_id) DO UPDATE\<close>.\<close>

definition RequestWindowLift ::
  "call \<Rightarrow> string \<Rightarrow> string \<Rightarrow> string \<Rightarrow> string \<Rightarrow> store \<Rightarrow> store_error + store" where
  "RequestWindowLift c ns job hash actor s =
     (if actor = [] then Inl ErrInvalid
      else if hash = [] then Inl ErrInvalid
      else if list_ex (lift_of_job ns job) (window_lifts s) then
        Inr (s\<lparr>window_lifts := update_where (lift_of_job ns job)
          (\<lambda>l. l\<lparr>l_spec_hash := hash, l_requested_by := actor, l_requested_at := c_now c\<rparr>) (window_lifts s)\<rparr>)
      else Inr (s\<lparr>window_lifts := window_lifts s @ [\<lparr>l_namespace = ns, l_job_id = job, l_spec_hash = hash,
          l_requested_by = actor, l_requested_at = c_now c\<rparr>]\<rparr>))"

definition WindowLifts :: "store \<Rightarrow> window_lift list" where
  "WindowLifts s = sort_key (\<lambda>l. (ts_key (l_requested_at l), l_namespace l, l_job_id l)) (window_lifts s)"

definition DropWindowLift :: "string \<Rightarrow> string \<Rightarrow> store \<Rightarrow> store \<times> bool" where
  "DropWindowLift ns job s = (s\<lparr>window_lifts := delete_where (lift_of_job ns job) (window_lifts s)\<rparr>,
     list_ex (lift_of_job ns job) (window_lifts s))"

section \<open>Pausing and resuming\<close>

lemma find_snoc: "find P xs = None \<Longrightarrow> P x \<Longrightarrow> find P (xs @ [x]) = Some x"
  by (induction xs) (auto split: if_splits)

lemma find_None_ex: "find P xs = None \<longleftrightarrow> \<not> list_ex P xs"
  by (auto simp: find_None_iff list_ex_iff)

lemma PauseJob_PauseOf:
  "PauseJob c ns job actor reason s = Inr s' \<Longrightarrow>
     PauseOf ns job s' = Inr (new_pause c (Suc (pause_seq s)) ns job actor reason)"
  by (auto simp: PauseJob_def PauseOf_def find_snoc find_None_ex new_pause_def pause_of_job_def
      in_force_def split: if_splits)

lemma ResumeJob_PauseOf:
  assumes "ResumeJob c ns job actor s = Inr s'"
  shows "PauseOf ns job s' = Inl ErrNotFound"
    and "\<not> (ns' = ns \<and> job' = job) \<Longrightarrow> PauseOf ns' job' s' = PauseOf ns' job' s"
proof -
  let ?u = "\<lambda>xs. update_where (pause_of_job ns job) (resume_row c actor) xs"
  have s': "s' = s\<lparr>job_pauses := ?u (job_pauses s)\<rparr>"
    using assms by (auto simp: ResumeJob_def split: if_splits)
  have "find (pause_of_job ns job) (?u xs) = None" for xs
    by (induction xs) (auto simp: pause_of_job_def resume_row_def in_force_def)
  then show "PauseOf ns job s' = Inl ErrNotFound" by (simp add: PauseOf_def s')
  assume ne: "\<not> (ns' = ns \<and> job' = job)"
  have "find (pause_of_job ns' job') (?u xs) = find (pause_of_job ns' job') xs" for xs
    using ne by (induction xs) (auto simp: pause_of_job_def resume_row_def in_force_def)
  then show "PauseOf ns' job' s' = PauseOf ns' job' s" by (simp add: PauseOf_def s')
qed

text \<open>
  Pausing a job and reading its pause gives back who paused it, when and why; pausing it
  again is refused as already paused; resuming it ends the pause, leaves the pause of every other
  job as it was, and resuming once more is refused.
\<close>

theorem pause_resume_roundtrip:
  assumes "PauseJob c ns job actor reason s = Inr s1" and "actor' \<noteq> []"
  shows "PauseOf ns job s1 = Inr (new_pause c (Suc (pause_seq s)) ns job actor reason)
    \<and> PauseJob c2 ns job actor' reason' s1 = Inl ErrAlreadyPaused
    \<and> (\<exists>s2. ResumeJob c2 ns job actor' s1 = Inr s2 \<and> PauseOf ns job s2 = Inl ErrNotFound
        \<and> ResumeJob c2 ns job actor' s2 = Inl ErrNotPaused
        \<and> (\<forall>ns' job'. \<not> (ns' = ns \<and> job' = job) \<longrightarrow> PauseOf ns' job' s2 = PauseOf ns' job' s1))"
proof -
  note p = PauseJob_PauseOf [OF assms(1)]
  then have ex: "list_ex (pause_of_job ns job) (job_pauses s1)"
    by (auto simp: PauseOf_def list_ex_iff dest!: find_SomeD split: option.splits)
  with assms(2) obtain s2 where s2: "ResumeJob c2 ns job actor' s1 = Inr s2"
    by (simp add: ResumeJob_def)
  have gone: "\<not> list_ex (pause_of_job ns job) (job_pauses s2)"
    using ResumeJob_PauseOf(1) [OF s2] by (auto simp: PauseOf_def simp flip: find_None_ex split: option.splits)
  with p ex s2 assms(2) ResumeJob_PauseOf [OF s2] show ?thesis
    by (simp add: PauseJob_def ResumeJob_def)
qed

definition sample_call :: call where
  "sample_call = \<lparr>c_now = 5, c_new_id = ''01A'', c_accessor = [], c_identity = []\<rparr>"

theorem pause_resume_roundtrip_witness:
  "\<exists>s1. PauseJob sample_call ''default'' ''api'' ''alice'' ''db'' empty_store = Inr s1 \<and>
     PauseJob sample_call ''default'' ''api'' ''bob'' [] s1 = Inl ErrAlreadyPaused"
proof -
  have "\<exists>s1. PauseJob sample_call ''default'' ''api'' ''alice'' ''db'' empty_store = Inr s1"
    by (simp add: PauseJob_def empty_store_def)
  then obtain s1 where s1: "PauseJob sample_call ''default'' ''api'' ''alice'' ''db'' empty_store = Inr s1" ..
  from pause_resume_roundtrip [OF s1, of "''bob''" sample_call "[]"] s1 show ?thesis by simp
qed

end
