(* ===== verification/StoreSystem.thy ===== *)
theory StoreSystem
  imports HookRunStore PauseStore
begin

text \<open>
  The store as a state machine: its writing operations in any order, with any arguments, clocks
  and callers, failed ones included as no step at all. What every database reached this way
  satisfies: the UNIQUE indexes, the audit log as a path through the state machine, and what never
  changes once written.
\<close>

section \<open>Operations\<close>

datatype store_op =
    OpCreate new_deployment
  | OpTransition string dstate transition
  | OpSetApplied string nat nat string
  | OpMoveCAS string dstate nat nat
  | OpMoveApplied string nat nat
  | OpMarkRetried string string
  | OpAwaiting string
  | OpPromoted string
  | OpPromotionRequested string string
  | OpEnsureHookRun string string int string duration
  | OpUpdateHookRun string hook_update
  | OpPauseJob string string string string
  | OpResumeJob string string string
  | OpPauseAll string string
  | OpResumeAll string
  | OpRequestLift string string string string
  | OpDropLift string string

fun exec_op :: "call \<Rightarrow> store_op \<Rightarrow> store \<Rightarrow> store_error + store" where
  "exec_op c (OpCreate n) s = bindE (CreateDeployment c n s) (\<lambda>r. Inr (fst r))"
| "exec_op c (OpTransition i to_st t) s = Transition c i to_st t s"
| "exec_op c (OpSetApplied i idx ver ev) s = SetApplied c i idx ver ev s"
| "exec_op c (OpMoveCAS i st a b) s = MoveCASIndex c i st a b s"
| "exec_op c (OpMoveApplied i a b) s = MoveAppliedIndex c i a b s"
| "exec_op c (OpMarkRetried i actor) s = MarkRetried c i actor s"
| "exec_op c (OpAwaiting i) s = bindE (MarkAwaitingPromotion c i s) (\<lambda>r. Inr (fst r))"
| "exec_op c (OpPromoted i) s = bindE (MarkPromoted c i s) (\<lambda>r. Inr (fst r))"
| "exec_op c (OpPromotionRequested i actor) s = MarkPromotionRequested c i actor s"
| "exec_op c (OpEnsureHookRun dep ph pos job tmo) s =
     bindE (EnsureHookRun c dep ph pos job tmo s) (\<lambda>r. Inr (fst r))"
| "exec_op c (OpUpdateHookRun i u) s = UpdateHookRun c i u s"
| "exec_op c (OpPauseJob ns job actor reason) s = PauseJob c ns job actor reason s"
| "exec_op c (OpResumeJob ns job actor) s = ResumeJob c ns job actor s"
| "exec_op c (OpPauseAll actor reason) s = PauseAll c actor reason s"
| "exec_op c (OpResumeAll actor) s = ResumeAll c actor s"
| "exec_op c (OpRequestLift ns job h actor) s = RequestWindowLift c ns job h actor s"
| "exec_op c (OpDropLift ns job) s = Inr (fst (DropWindowLift ns job s))"

inductive store_step :: "store \<Rightarrow> store \<Rightarrow> bool" where
  store_stepI: "exec_op c op s = Inr t \<Longrightarrow> store_step s t"

abbreviation store_start :: "store \<Rightarrow> bool" where
  "store_start s \<equiv> s = empty_store"

abbreviation stored :: "store \<Rightarrow> bool" where
  "stored \<equiv> reach store_start store_step"

section \<open>The audit log as a walk\<close>

text \<open>
  The events of a deployment, followed from no state: the first one must enter detected, every
  other one must leave the state the walk is in, for itself or along an edge of the state machine.
\<close>

abbreviation ev_step :: "event \<Rightarrow> dstate option \<times> dstate" where
  "ev_step e \<equiv> (e_from e, e_to e)"

definition edge :: "dstate option \<Rightarrow> dstate \<Rightarrow> bool" where
  "edge cur b = (case cur of None \<Rightarrow> b = Detected | Some a \<Rightarrow> a = b \<or> canTransition a b)"

fun walk :: "dstate option \<Rightarrow> (dstate option \<times> dstate) list \<Rightarrow> dstate option option" where
  "walk cur [] = Some cur"
| "walk cur ((a, b) # es) = (if a = cur \<and> edge cur b then walk (Some b) es else None)"

definition trail :: "string \<Rightarrow> store \<Rightarrow> (dstate option \<times> dstate) list" where
  "trail i s = map ev_step (filter (\<lambda>e. e_deployment_id e = i) (events s))"

lemma walk_append: "walk cur (xs @ ys) = (case walk cur xs of None \<Rightarrow> None | Some c \<Rightarrow> walk c ys)"
  by (induction cur xs rule: walk.induct) auto

section \<open>The effect of an operation on the deployments\<close>

text \<open>The columns no operation changes once the row exists.\<close>

definition frozen_part :: "deployment \<Rightarrow> deployment" where
  "frozen_part d = d\<lparr>d_state := Detected, d_cas_index := 0, d_applied_index := None,
     d_applied_version := None, d_eval_id := [], d_error := [], d_decided_by := [],
     d_decided_at := None, d_retried_by := [], d_retried_at := None, d_promotion_wait_since := None,
     d_promoted_at := None, d_updated_at := 0\<rparr>"

text \<open>
  A write changes no deployment, changes rows without touching a state (and logs nothing, or an
  event from a state to itself), moves one deployment along an edge of the state machine and logs
  that, or adds a deployment with the events of its birth.
\<close>

inductive dep_effect :: "store \<Rightarrow> store \<Rightarrow> bool" where
  eff_quiet: "deployments t = update_where P f (deployments s) \<Longrightarrow>
     (\<And>d. P d \<Longrightarrow> frozen_part (f d) = frozen_part d \<and> d_state (f d) = d_state d) \<Longrightarrow>
     events t = events s \<Longrightarrow> event_seq t = event_seq s \<Longrightarrow>
     deployment_hooks t = deployment_hooks s \<Longrightarrow> dep_effect s t"
| eff_log: "deployments t = update_where P f (deployments s) \<Longrightarrow>
     (\<And>d. P d \<Longrightarrow> frozen_part (f d) = frozen_part d \<and> d_state (f d) = d_state d) \<Longrightarrow>
     list_ex (in_state (e_deployment_id e) a) (deployments s) \<Longrightarrow> ev_step e = (Some a, a) \<Longrightarrow>
     e_id e = Suc (event_seq s) \<Longrightarrow> events t = events s @ [e] \<Longrightarrow> event_seq t = Suc (event_seq s) \<Longrightarrow>
     deployment_hooks t = deployment_hooks s \<Longrightarrow> dep_effect s t"
| eff_move: "deployments t = update_where (in_state (e_deployment_id e) a) f (deployments s) \<Longrightarrow>
     (\<And>d. frozen_part (f d) = frozen_part d \<and> d_state (f d) = b) \<Longrightarrow>
     list_ex (in_state (e_deployment_id e) a) (deployments s) \<Longrightarrow> canTransition a b \<Longrightarrow>
     ev_step e = (Some a, b) \<Longrightarrow> e_id e = Suc (event_seq s) \<Longrightarrow>
     events t = events s @ [e] \<Longrightarrow> event_seq t = Suc (event_seq s) \<Longrightarrow>
     deployment_hooks t = deployment_hooks s \<Longrightarrow> dep_effect s t"
| eff_create: "deployments t = deployments s @ [r] \<Longrightarrow> \<not> list_ex (has_id (d_id r)) (deployments s) \<Longrightarrow>
     (IsActive (d_state r) \<Longrightarrow>
        \<not> list_ex (\<lambda>d. of_job (d_namespace r) (d_job_id r) d \<and> IsActive (d_state d)) (deployments s)) \<Longrightarrow>
     (\<forall>e\<in>set es. e_deployment_id e = d_id r) \<Longrightarrow>
     walk None (map ev_step es) = Some (Some (d_state r)) \<Longrightarrow>
     map e_id es = [Suc (event_seq s)..<Suc (event_seq s + length es)] \<Longrightarrow>
     events t = events s @ es \<Longrightarrow> event_seq t = event_seq s + length es \<Longrightarrow>
     deployment_hooks t = deployment_hooks s @ map (Pair (d_id r)) hs \<Longrightarrow> dep_effect s t"

lemma insert_hooks_appends:
  "insert_hooks dep hs tab = Inr tab' \<Longrightarrow> tab' = tab @ map (Pair dep) hs"
proof (induction hs arbitrary: tab)
  case (Cons h hs)
  from Cons.prems have "insert_hooks dep hs (tab @ [(dep, h)]) = Inr tab'"
    by (simp split: if_splits)
  from Cons.IH [OF this] show ?case by simp
qed simp

lemma insertEvent_frame [simp]:
  "deployments (insertEvent c i a b actor msg s) = deployments s"
  "deployment_hooks (insertEvent c i a b actor msg s) = deployment_hooks s"
  "hook_runs (insertEvent c i a b actor msg s) = hook_runs s"
  "job_pauses (insertEvent c i a b actor msg s) = job_pauses s"
  "nops_pauses (insertEvent c i a b actor msg s) = nops_pauses s"
  "window_lifts (insertEvent c i a b actor msg s) = window_lifts s"
  "event_seq (insertEvent c i a b actor msg s) = Suc (event_seq s)"
  by (simp_all add: insertEvent_def)

lemma insertEvent_events:
  "events (insertEvent c i a b actor msg s) = events s @
     [\<lparr>e_id = Suc (event_seq s), e_deployment_id = i, e_ts = c_now c, e_from = a, e_to = b,
       e_actor = actor, e_accessor_id = c_accessor c, e_identity = c_identity c, e_message = msg\<rparr>]"
  by (simp add: insertEvent_def)

lemma log_birth_frame [simp]:
  "deployments (log_birth c n s) = deployments s"
  "deployment_hooks (log_birth c n s) = deployment_hooks s"
  "hook_runs (log_birth c n s) = hook_runs s"
  "job_pauses (log_birth c n s) = job_pauses s"
  "nops_pauses (log_birth c n s) = nops_pauses s"
  "window_lifts (log_birth c n s) = (if n_window_lifted_by n \<noteq> []
     then delete_where (lift_of_job (n_namespace n) (n_job_id n)) (window_lifts s) else window_lifts s)"
  by (simp_all add: log_birth_def Let_def lift_of_job_def [abs_def] split: dstate.splits)

lemma CreateDeployment_Inr:
  assumes "CreateDeployment c n s = Inr (t, r)"
  shows "r = new_row c n" "\<not> create_refused n" "\<not> list_ex (has_id (c_new_id c)) (deployments s)"
    "IsActive (born_state n) \<Longrightarrow> \<not> list_ex (\<lambda>d. of_job (n_namespace n) (n_job_id n) d \<and> IsActive (d_state d)) (deployments s)"
    "t = log_birth c n (s\<lparr>deployments := deployments s @ [r],
       deployment_hooks := deployment_hooks s @ map (Pair (c_new_id c)) (n_hooks n)\<rparr>)"
  using assms by (auto simp: CreateDeployment_def dest!: insert_hooks_appends split: if_splits sum.splits)

lemma frozen_part_keys:
  assumes "frozen_part d = frozen_part d'"
  shows "d_id d = d_id d'" "d_namespace d = d_namespace d'" "d_job_id d = d_job_id d'"
    "d_policy d = d_policy d'" "d_spec_hash d = d_spec_hash d'" "d_job_spec d = d_job_spec d'"
    "d_retry_of d = d_retry_of d'" "d_created_at d = d_created_at d'"
    "d_plan_diff d = d_plan_diff d'" "d_diff_hash d = d_diff_hash d'"
    "d_window_lifted_by d = d_window_lifted_by d'"
proof -
  from assms have
    "d_id (frozen_part d) = d_id (frozen_part d')" "d_namespace (frozen_part d) = d_namespace (frozen_part d')"
    "d_job_id (frozen_part d) = d_job_id (frozen_part d')" "d_policy (frozen_part d) = d_policy (frozen_part d')"
    "d_spec_hash (frozen_part d) = d_spec_hash (frozen_part d')" "d_job_spec (frozen_part d) = d_job_spec (frozen_part d')"
    "d_retry_of (frozen_part d) = d_retry_of (frozen_part d')" "d_created_at (frozen_part d) = d_created_at (frozen_part d')"
    "d_plan_diff (frozen_part d) = d_plan_diff (frozen_part d')" "d_diff_hash (frozen_part d) = d_diff_hash (frozen_part d')"
    "d_window_lifted_by (frozen_part d) = d_window_lifted_by (frozen_part d')"
    by simp_all
  then show "d_id d = d_id d'" "d_namespace d = d_namespace d'" "d_job_id d = d_job_id d'"
    "d_policy d = d_policy d'" "d_spec_hash d = d_spec_hash d'" "d_job_spec d = d_job_spec d'"
    "d_retry_of d = d_retry_of d'" "d_created_at d = d_created_at d'"
    "d_plan_diff d = d_plan_diff d'" "d_diff_hash d = d_diff_hash d'"
    "d_window_lifted_by d = d_window_lifted_by d'"
    by (simp_all add: frozen_part_def)
qed


lemma effI_none:
  "deployments t = deployments s \<Longrightarrow> events t = events s \<Longrightarrow> event_seq t = event_seq s \<Longrightarrow>
     deployment_hooks t = deployment_hooks s \<Longrightarrow> dep_effect s t"
  by (rule eff_quiet [of t "\<lambda>_. False" id s]) (simp_all add: update_where_none list_ex_iff)

text \<open>The writes that log one event, in the shape the operations have.\<close>

lemma effI_log:
  assumes "list_ex (in_state i a) (deployments s)"
    and "\<And>d. P d \<Longrightarrow> frozen_part (f d) = frozen_part d \<and> d_state (f d) = d_state d"
  shows "dep_effect s (insertEvent c i (Some a) a actor msg
           (s\<lparr>deployments := update_where P f (deployments s)\<rparr>))"
  by (rule eff_log [of _ P f, OF _ assms(2)]) (use assms(1) in \<open>simp_all add: insertEvent_events\<close>)

lemma effI_move:
  assumes "list_ex (in_state i a) (deployments s)" "canTransition a b"
    and "\<And>d. frozen_part (f d) = frozen_part d \<and> d_state (f d) = b"
  shows "dep_effect s (insertEvent c i (Some a) b actor msg
           (s\<lparr>deployments := update_where (in_state i a) f (deployments s)\<rparr>))"
  by (rule eff_move [of _ _ _ f, OF _ assms(3)]) (use assms(1,2) in \<open>simp_all add: insertEvent_events\<close>)

lemma list_ex_mono: "list_ex P xs \<Longrightarrow> (\<And>x. P x \<Longrightarrow> Q x) \<Longrightarrow> list_ex Q xs"
  by (auto simp: list_ex_iff)

lemma Transition_effect: "Transition c i to_st t s = Inr s' \<Longrightarrow> dep_effect s s'"
  by (auto simp: Transition_def transition_row_def frozen_part_def split: option.splits if_splits
      intro!: effI_move)

lemma SetApplied_effect: "SetApplied c i idx ver ev s = Inr s' \<Longrightarrow> dep_effect s s'"
  by (auto simp: SetApplied_def frozen_part_def split: if_splits intro!: eff_quiet)

lemma MoveCASIndex_effect: "MoveCASIndex c i st a b s = Inr s' \<Longrightarrow> dep_effect s s'"
  by (auto simp: MoveCASIndex_def frozen_part_def Let_def split: if_splits
      intro!: effI_log elim!: list_ex_mono)

lemma MoveAppliedIndex_effect: "MoveAppliedIndex c i a b s = Inr s' \<Longrightarrow> dep_effect s s'"
  by (auto simp: MoveAppliedIndex_def frozen_part_def Let_def split: if_splits
      intro!: effI_log elim!: list_ex_mono)

lemma MarkRetried_effect: "MarkRetried c i actor s = Inr s' \<Longrightarrow> dep_effect s s'"
  by (auto simp: MarkRetried_def frozen_part_def retriable_row_def in_state_def list_ex_iff
      split: if_splits option.splits dest!: find_SomeD intro!: effI_log)

lemma markPromotion_effect:
  "markPromotion c i guard upd msg s = Inr (s', b) \<Longrightarrow>
     (\<And>d. frozen_part (upd d) = frozen_part d \<and> d_state (upd d) = d_state d) \<Longrightarrow> dep_effect s s'"
proof -
  assume r: "markPromotion c i guard upd msg s = Inr (s', b)"
    and k: "\<And>d. frozen_part (upd d) = frozen_part d \<and> d_state (upd d) = d_state d"
  let ?P = "\<lambda>d. in_state i Applying d \<and> guard d"
  show ?thesis
  proof (cases "list_ex ?P (deployments s)")
    case False
    with r have "s' = s" by (simp add: markPromotion_def split: option.splits if_splits)
    then show ?thesis by (simp add: effI_none)
  next
    case True
    then have "list_ex (in_state i Applying) (deployments s)" by (auto simp: list_ex_iff)
    moreover have "frozen_part ((upd d)\<lparr>d_updated_at := t\<rparr>) = frozen_part d" for d t
      using k [of d] by (simp add: frozen_part_def)
    ultimately show ?thesis
      using r True k by (auto simp: markPromotion_def Let_def intro!: effI_log)
  qed
qed

lemma MarkPromotionRequested_effect: "MarkPromotionRequested c i actor s = Inr s' \<Longrightarrow> dep_effect s s'"
  by (auto simp: MarkPromotionRequested_def frozen_part_def split: if_splits intro!: effI_log)


lemma insertEvent_walk [simp]:
  "map ev_step (events (insertEvent c i a b actor msg s)) = map ev_step (events s) @ [(a, b)]"
  by (simp add: insertEvent_events)

definition birth_events :: "call \<Rightarrow> new_deployment \<Rightarrow> store \<Rightarrow> event list" where
  "birth_events c n s = drop (length (events s)) (events (log_birth c n s))"

lemma create_states:
  assumes "\<not> create_refused n"
  obtains "born_state n = Detected" | "born_state n = PendingApproval" | "born_state n = Failed"
  using assms by (cases "born_state n") (simp_all add: create_refused_def)

lemma log_birth_events:
  assumes "\<not> create_refused n"
  shows "events (log_birth c n s) = events s @ birth_events c n s"
    and "event_seq (log_birth c n s) = event_seq s + length (birth_events c n s)"
    and "\<forall>e\<in>set (birth_events c n s). e_deployment_id e = c_new_id c"
    and "map e_id (birth_events c n s) = [Suc (event_seq s)..<Suc (event_seq s + length (birth_events c n s))]"
    and "walk None (map ev_step (birth_events c n s)) = Some (Some (born_state n))"
proof -
  let ?e = "\<lambda>k a b actor msg. \<lparr>e_id = event_seq s + k, e_deployment_id = c_new_id c, e_ts = c_now c,
    e_from = a, e_to = b, e_actor = actor, e_accessor_id = c_accessor c, e_identity = c_identity c,
    e_message = msg\<rparr>"
  let ?l = "n_window_lifted_by n"
  let ?start = "?e 1 None Detected ''nops'' (detected_msg n) #
    (if ?l \<noteq> [] then [?e 2 (Some Detected) Detected ?l ''deploy now requested outside the sync window''] else [])"
  let ?k = "Suc (length ?start)"
  let ?es = "?start @ (case born_state n of
      PendingApproval \<Rightarrow> [?e ?k (Some Detected) PendingApproval ''nops'' ''waiting for approval'']
    | Failed \<Rightarrow> [?e ?k (Some Detected) Failed ''nops'' (n_error n)] | _ \<Rightarrow> [])"
  have ev: "events (log_birth c n s) = events s @ ?es" and seq: "event_seq (log_birth c n s) = event_seq s + length ?es"
    by (rule create_states [OF assms]; cases "?l = []"; simp add: log_birth_def Let_def insertEvent_events)+
  then have b: "birth_events c n s = ?es" by (simp add: birth_events_def)
  show "events (log_birth c n s) = events s @ birth_events c n s"
    "event_seq (log_birth c n s) = event_seq s + length (birth_events c n s)"
    by (simp_all only: b ev seq)
  have "canTransition Detected PendingApproval" "canTransition Detected Failed"
    by (simp_all add: canTransition_def allowed_def)
  note [simp] = this
  show "\<forall>e\<in>set (birth_events c n s). e_deployment_id e = c_new_id c"
    "map e_id (birth_events c n s) = [Suc (event_seq s)..<Suc (event_seq s + length (birth_events c n s))]"
    "walk None (map ev_step (birth_events c n s)) = Some (Some (born_state n))"
    unfolding b by (rule create_states [OF assms]; cases "?l = []"; simp add: edge_def)+
qed

lemma CreateDeployment_effect:
  assumes "CreateDeployment c n s = Inr (t, r)"
  shows "dep_effect s t"
proof -
  note f = CreateDeployment_Inr [OF assms]
  let ?s = "s\<lparr>deployments := deployments s @ [r],
       deployment_hooks := deployment_hooks s @ map (Pair (c_new_id c)) (n_hooks n)\<rparr>"
  have r: "d_id r = c_new_id c" "d_state r = born_state n" "d_namespace r = n_namespace n"
    "d_job_id r = n_job_id n"
    by (simp_all add: f(1) new_row_def)
  show ?thesis
    by (rule eff_create [of t s r "birth_events c n ?s" "n_hooks n"])
      (use f(3,4) log_birth_events [OF f(2), of c ?s] in \<open>simp_all add: f(5) r\<close>)
qed

lemma other_tables_effect:
  "EnsureHookRun c dep ph pos job tmo s = Inr (t, x) \<Longrightarrow> dep_effect s t"
  "UpdateHookRun c i u s = Inr t \<Longrightarrow> dep_effect s t"
  "PauseJob c ns job actor reason s = Inr t \<Longrightarrow> dep_effect s t"
  "ResumeJob c ns job actor s = Inr t \<Longrightarrow> dep_effect s t"
  "PauseAll c actor reason s = Inr t \<Longrightarrow> dep_effect s t"
  "ResumeAll c actor s = Inr t \<Longrightarrow> dep_effect s t"
  "RequestWindowLift c ns job h actor s = Inr t \<Longrightarrow> dep_effect s t"
  "dep_effect s (fst (DropWindowLift ns job s))"
  by (auto simp: EnsureHookRun_def UpdateHookRun_def PauseJob_def ResumeJob_def PauseAll_def
      ResumeAll_def RequestWindowLift_def DropWindowLift_def Let_def
      split: if_splits option.splits intro!: effI_none)

lemmas operation_effects = Transition_effect SetApplied_effect MoveCASIndex_effect
  MoveAppliedIndex_effect MarkRetried_effect MarkPromotionRequested_effect CreateDeployment_effect
  other_tables_effect

lemma exec_op_effect: "exec_op c op s = Inr t \<Longrightarrow> dep_effect s t"
proof (cases op)
  case (OpAwaiting i)
  assume "exec_op c op s = Inr t"
  with OpAwaiting show ?thesis
    by (auto simp: bindE_Inr MarkAwaitingPromotion_def frozen_part_def intro: markPromotion_effect)
next
  case (OpPromoted i)
  assume "exec_op c op s = Inr t"
  with OpPromoted show ?thesis
    by (auto simp: bindE_Inr MarkPromoted_def frozen_part_def intro: markPromotion_effect)
qed (auto simp: bindE_Inr intro: operation_effects)

lemma store_step_effect: "store_step s t \<Longrightarrow> dep_effect s t"
  by (erule store_step.cases) (auto intro: exec_op_effect)


section \<open>The audit log invariant\<close>

definition audited :: "store \<Rightarrow> bool" where
  "audited s = (map e_id (events s) = [1..<Suc (event_seq s)] \<and>
     (\<forall>e\<in>set (events s). list_ex (has_id (e_deployment_id e)) (deployments s)) \<and>
     (\<forall>d\<in>set (deployments s). walk None (trail (d_id d) s) = Some (Some (d_state d))))"

lemma trail_append:
  "events t = events s @ es \<Longrightarrow>
     trail i t = trail i s @ map ev_step (filter (\<lambda>e. e_deployment_id e = i) es)"
  by (simp add: trail_def)

lemma upt_extend: "[1..<Suc m] @ [Suc m..<Suc (m + n)] = [1..<Suc (m + n)]"
  using upt_add_eq_append [of 1 "Suc m" n] by (simp del: upt_Suc)

text \<open>A write that keeps the IDs and logs nothing, and one that logs an event of a deployment.\<close>

lemma audited_quiet:
  assumes "audited s" "deployments t = map g (deployments s)"
    and "\<And>d. d_id (g d) = d_id d \<and> d_state (g d) = d_state d"
    and "events t = events s" "event_seq t = event_seq s"
  shows "audited t"
  using assms by (simp add: audited_def trail_def list_ex_iff has_id_def)

lemma audited_event:
  assumes a: "audited s" and g: "deployments t = map g (deployments s)"
    and id: "\<And>d. d_id (g d) = d_id d"
    and st: "\<And>d. d \<in> set (deployments s) \<Longrightarrow> (d_id d = e_deployment_id e \<Longrightarrow> d_state d = a) \<Longrightarrow>
      d_state (g d) = (if d_id d = e_deployment_id e then b else d_state d)"
    and ex: "list_ex (in_state (e_deployment_id e) a) (deployments s)"
    and ev: "ev_step e = (Some a, b)" "edge (Some a) b" "e_id e = Suc (event_seq s)"
      "events t = events s @ [e]" "event_seq t = Suc (event_seq s)"
  shows "audited t"
proof -
  let ?i = "e_deployment_id e"
  have "walk None (trail ?i s) = Some (Some a)"
    using a ex by (auto simp: audited_def list_ex_iff in_state_def)
  moreover from this have same: "d_state d = a" if "d \<in> set (deployments s)" "d_id d = ?i" for d
    using a that by (auto simp: audited_def)
  ultimately have "walk None (trail (d_id d) t) = Some (Some (d_state (g d)))" if "d \<in> set (deployments s)" for d
    using st [OF that] a that ev by (auto simp: audited_def trail_append [OF ev(4)] walk_append)
  moreover have "list_ex (has_id ?i) (deployments t)"
    using ex by (auto simp: g id list_ex_iff in_state_def has_id_def)
  moreover have "list_ex (has_id x) (deployments t) = list_ex (has_id x) (deployments s)" for x
    by (simp add: g id list_ex_iff has_id_def)
  ultimately show ?thesis
    using a ev upt_extend [of "event_seq s" 1] by (simp add: audited_def g id)
qed

lemma audited_create:
  assumes a: "audited s" and t: "deployments t = deployments s @ [r]" "\<not> list_ex (has_id (d_id r)) (deployments s)"
    and es: "\<forall>e\<in>set es. e_deployment_id e = d_id r" "walk None (map ev_step es) = Some (Some (d_state r))"
      "map e_id es = [Suc (event_seq s)..<Suc (event_seq s + length es)]"
      "events t = events s @ es" "event_seq t = event_seq s + length es"
  shows "audited t"
proof -
  have "trail (d_id r) s = []"
    using a t(2) by (auto simp: trail_def audited_def list_ex_iff has_id_def filter_empty_conv)
  then have "trail (d_id r) t = map ev_step es"
    using es(1) by (simp add: trail_append [OF es(4)] filter_id_conv)
  moreover have "trail (d_id d) t = trail (d_id d) s" if "d \<in> set (deployments s)" for d
    using that t(2) es(1) by (auto simp: trail_append [OF es(4)] list_ex_iff has_id_def filter_empty_conv)
  moreover have "map e_id (events t) = [1..<Suc (event_seq t)]"
    using a upt_extend [of "event_seq s" "length es"] by (simp add: es(3-5) audited_def del: upt_Suc)
  ultimately show ?thesis
    using a es(1,2) by (auto simp: audited_def t(1) es(4) has_id_def)
qed

text \<open>\<open>update_where\<close> as a map, with what it keeps.\<close>

lemma update_where_frozen:
  assumes "\<And>d. P d \<Longrightarrow> frozen_part (f d) = frozen_part d"
  shows "d_id (if P d then f d else d) = d_id d"
    and "frozen_part (if P d then f d else d) = frozen_part d"
  using assms frozen_part_keys(1) [of "f d" d] by simp_all

lemma audited_effect:
  assumes "audited s" "dep_effect s t"
  shows "audited t"
  using assms(2)
proof cases
  case (eff_quiet P f)
  show ?thesis
    by (rule audited_quiet [OF assms(1) eff_quiet(1) [unfolded update_where_def] _ eff_quiet(3,4)])
      (use eff_quiet(2) update_where_frozen [of P f] in simp)
next
  case (eff_log P f e a)
  show ?thesis
    by (rule audited_event [OF assms(1) eff_log(1) [unfolded update_where_def] _ _ eff_log(3,4) _ eff_log(5-7)])
      (use eff_log(2) update_where_frozen [of P f] in \<open>simp_all add: edge_def\<close>)
next
  case (eff_move e a f b)
  show ?thesis
    by (rule audited_event [OF assms(1) eff_move(1) [unfolded update_where_def] _ _ eff_move(3,5) _ eff_move(6-8)])
      (use eff_move(2,4) update_where_frozen [of "in_state (e_deployment_id e) a" f]
        in \<open>auto simp: edge_def in_state_def\<close>)
next
  case (eff_create r es hs)
  show ?thesis by (rule audited_create [OF assms(1) eff_create(1,2,4-8)])
qed


lemma audited_start: "audited empty_store"
  by (simp add: audited_def empty_store_def)

interpretation audit: inductive_invariant store_start store_step audited
  by unfold_locales (simp_all add: audited_start audited_effect [OF _ store_step_effect])

section \<open>The UNIQUE indexes\<close>

text \<open>
  The primary key of \<open>deployments\<close> and the partial index \<open>one_active_per_job\<close>: an effect writes
  either of them as a UNIQUE index allows.
\<close>

lemma effect_keeps_ids:
  assumes "dep_effect s t"
  shows "lock_write (\<lambda>_. True) d_id (deployments s) (deployments t)"
  using assms
proof cases
  case (eff_quiet P f)
  show ?thesis unfolding eff_quiet(1) by (rule lock_write_update) (use eff_quiet(2) frozen_part_keys(1) in blast)
next
  case (eff_log P f e a)
  show ?thesis unfolding eff_log(1) by (rule lock_write_update) (use eff_log(2) frozen_part_keys(1) in blast)
next
  case (eff_move e a f b)
  show ?thesis unfolding eff_move(1) by (rule lock_write_update) (use eff_move(2) frozen_part_keys(1) in blast)
next
  case (eff_create r es hs)
  show ?thesis unfolding eff_create(1) by (rule lock_write_insert) (use eff_create(2) in \<open>auto simp: list_ex_iff has_id_def\<close>)
qed

definition job_key :: "deployment \<Rightarrow> string \<times> string" where
  "job_key d = (d_namespace d, d_job_id d)"

definition active :: "deployment \<Rightarrow> bool" where
  "active d = IsActive (d_state d)"

lemma job_key_frozen: "frozen_part d = frozen_part d' \<Longrightarrow> job_key d = job_key d'"
  using frozen_part_keys(2,3) [of d d'] by (simp add: job_key_def)

lemma effect_keeps_lock:
  assumes "dep_effect s t"
  shows "lock_write active job_key (deployments s) (deployments t)"
  using assms
proof cases
  case (eff_quiet P f)
  show ?thesis unfolding eff_quiet(1)
    by (rule lock_write_update) (use job_key_frozen [OF conjunct1 [OF eff_quiet(2)]] eff_quiet(2) in \<open>simp add: active_def\<close>)
next
  case (eff_log P f e a)
  show ?thesis unfolding eff_log(1)
    by (rule lock_write_update) (use job_key_frozen [OF conjunct1 [OF eff_log(2)]] eff_log(2) in \<open>simp add: active_def\<close>)
next
  case (eff_move e a f b)
  show ?thesis unfolding eff_move(1)
    by (rule lock_write_update)
      (use job_key_frozen [OF conjunct1 [OF eff_move(2)]] eff_move(2) canTransition_active [OF eff_move(4)] in \<open>simp add: active_def in_state_def\<close>)
next
  case (eff_create r es hs)
  show ?thesis unfolding eff_create(1)
    by (rule lock_write_insert)
      (use eff_create(3) in \<open>auto simp: active_def job_key_def of_job_def list_ex_iff\<close>)
qed

interpretation ids: lock_table store_start store_step deployments "\<lambda>_. True" d_id
  by (unfold_locales, simp add: empty_store_def, rule effect_keeps_ids, rule store_step_effect)

interpretation job_lock: lock_table store_start store_step deployments active job_key
  by (unfold_locales, simp add: empty_store_def, rule effect_keeps_lock, rule store_step_effect)

text \<open>The other tables: which operations write them at all.\<close>

definition side_tables :: "store \<Rightarrow> hook_run list \<times> pause list \<times> pause list" where
  "side_tables s = (hook_runs s, job_pauses s, nops_pauses s)"

lemma side_tables_frame:
  "CreateDeployment c n s = Inr (t, r) \<Longrightarrow> side_tables t = side_tables s"
  "Transition c i to_st tr s = Inr t \<Longrightarrow> side_tables t = side_tables s"
  "SetApplied c i idx ver ev s = Inr t \<Longrightarrow> side_tables t = side_tables s"
  "MoveCASIndex c i st a b s = Inr t \<Longrightarrow> side_tables t = side_tables s"
  "MoveAppliedIndex c i a b s = Inr t \<Longrightarrow> side_tables t = side_tables s"
  "MarkRetried c i actor s = Inr t \<Longrightarrow> side_tables t = side_tables s"
  "markPromotion c i guard upd msg s = Inr (t, changed) \<Longrightarrow> side_tables t = side_tables s"
  "MarkPromotionRequested c i actor s = Inr t \<Longrightarrow> side_tables t = side_tables s"
  "RequestWindowLift c ns job h actor s = Inr t \<Longrightarrow> side_tables t = side_tables s"
  by (auto simp: side_tables_def Transition_def SetApplied_def MoveCASIndex_def MoveAppliedIndex_def
      MarkRetried_def markPromotion_def MarkPromotionRequested_def RequestWindowLift_def
      Let_def dest!: CreateDeployment_Inr(5) split: option.splits if_splits)

lemma side_tables_drop [simp]: "side_tables (fst (DropWindowLift ns job s)) = side_tables s"
  by (simp add: side_tables_def DropWindowLift_def)

lemma exec_op_side:
  "exec_op c op s = Inr t \<Longrightarrow> side_tables t \<noteq> side_tables s \<Longrightarrow>
     (\<exists>dep ph pos job tmo. op = OpEnsureHookRun dep ph pos job tmo) \<or> (\<exists>i u. op = OpUpdateHookRun i u) \<or>
     (\<exists>ns job actor reason. op = OpPauseJob ns job actor reason) \<or>
     (\<exists>ns job actor. op = OpResumeJob ns job actor) \<or>
     (\<exists>actor reason. op = OpPauseAll actor reason) \<or> (\<exists>actor. op = OpResumeAll actor)"
  by (cases op) (auto simp: bindE_Inr MarkAwaitingPromotion_def MarkPromoted_def dest: side_tables_frame)


definition run_key :: "hook_run \<Rightarrow> string \<times> string \<times> int" where
  "run_key r = (r_deployment_id r, r_phase r, r_position r)"

lemma exec_op_hook_runs:
  assumes "exec_op c op s = Inr t"
  shows "lock_write (\<lambda>_. True) run_key (hook_runs s) (hook_runs t)"
proof (cases "side_tables t = side_tables s")
  case True
  then show ?thesis by (simp add: side_tables_def)
next
  case False
  from exec_op_side [OF assms False] assms show ?thesis
    by (auto simp: EnsureHookRun_def UpdateHookRun_def PauseJob_def ResumeJob_def PauseAll_def ResumeAll_def
        bindE_Inr Let_def run_key_def update_run_row_def at_position_def find_None_iff
        split: if_splits option.splits intro!: lock_write_insert lock_write_update)
qed

definition pause_key :: "pause \<Rightarrow> string \<times> string" where
  "pause_key p = (p_namespace p, p_job_id p)"

lemma exec_op_job_pauses:
  assumes "exec_op c op s = Inr t"
  shows "lock_write in_force pause_key (job_pauses s) (job_pauses t)"
proof (cases "side_tables t = side_tables s")
  case True
  then show ?thesis by (simp add: side_tables_def)
next
  case False
  from exec_op_side [OF assms False] assms show ?thesis
    by (auto simp: EnsureHookRun_def UpdateHookRun_def PauseJob_def ResumeJob_def PauseAll_def ResumeAll_def
        bindE_Inr Let_def pause_key_def resume_row_def new_pause_def pause_of_job_def in_force_def list_ex_iff
        split: if_splits option.splits intro!: lock_write_insert lock_write_update) fastforce
qed

lemma exec_op_nops_pauses:
  assumes "exec_op c op s = Inr t"
  shows "lock_write in_force (\<lambda>_. ()) (nops_pauses s) (nops_pauses t)"
proof (cases "side_tables t = side_tables s")
  case True
  then show ?thesis by (simp add: side_tables_def)
next
  case False
  from exec_op_side [OF assms False] assms show ?thesis
    by (auto simp: EnsureHookRun_def UpdateHookRun_def PauseJob_def ResumeJob_def PauseAll_def ResumeAll_def
        bindE_Inr Let_def resume_row_def new_pause_def in_force_def list_ex_iff
        split: if_splits option.splits intro!: lock_write_insert lock_write_update) fastforce
qed

definition lift_key :: "window_lift \<Rightarrow> string \<times> string" where
  "lift_key l = (l_namespace l, l_job_id l)"

lemma window_lifts_frame:
  "Transition c i to_st tr s = Inr t \<Longrightarrow> window_lifts t = window_lifts s"
  "SetApplied c i idx ver ev s = Inr t \<Longrightarrow> window_lifts t = window_lifts s"
  "MoveCASIndex c i st a b s = Inr t \<Longrightarrow> window_lifts t = window_lifts s"
  "MoveAppliedIndex c i a b s = Inr t \<Longrightarrow> window_lifts t = window_lifts s"
  "MarkRetried c i actor s = Inr t \<Longrightarrow> window_lifts t = window_lifts s"
  "markPromotion c i guard upd msg s = Inr (t, changed) \<Longrightarrow> window_lifts t = window_lifts s"
  "MarkPromotionRequested c i actor s = Inr t \<Longrightarrow> window_lifts t = window_lifts s"
  "EnsureHookRun c dep ph pos job tmo s = Inr (t, x) \<Longrightarrow> window_lifts t = window_lifts s"
  "UpdateHookRun c i u s = Inr t \<Longrightarrow> window_lifts t = window_lifts s"
  "PauseJob c ns job actor reason s = Inr t \<Longrightarrow> window_lifts t = window_lifts s"
  "ResumeJob c ns job actor s = Inr t \<Longrightarrow> window_lifts t = window_lifts s"
  "PauseAll c actor reason s = Inr t \<Longrightarrow> window_lifts t = window_lifts s"
  "ResumeAll c actor s = Inr t \<Longrightarrow> window_lifts t = window_lifts s"
  by (auto simp: Transition_def SetApplied_def MoveCASIndex_def MoveAppliedIndex_def
      MarkRetried_def markPromotion_def MarkPromotionRequested_def EnsureHookRun_def UpdateHookRun_def
      PauseJob_def ResumeJob_def PauseAll_def ResumeAll_def Let_def split: option.splits if_splits)

lemma CreateDeployment_window_lifts:
  "CreateDeployment c n s = Inr (t, r) \<Longrightarrow>
     lock_write (\<lambda>_. True) lift_key (window_lifts s) (window_lifts t)"
  by (drule CreateDeployment_Inr(5)) (auto intro: lock_write_delete)

lemma RequestWindowLift_window_lifts:
  "RequestWindowLift c ns job h actor s = Inr t \<Longrightarrow>
     lock_write (\<lambda>_. True) lift_key (window_lifts s) (window_lifts t)"
  by (auto simp: RequestWindowLift_def lift_key_def lift_of_job_def list_ex_iff
      split: if_splits intro!: lock_write_insert lock_write_update) blast

lemma exec_op_window_lifts:
  "exec_op c op s = Inr t \<Longrightarrow> lock_write (\<lambda>_. True) lift_key (window_lifts s) (window_lifts t)"
  by (cases op) (auto simp: bindE_Inr MarkAwaitingPromotion_def MarkPromoted_def DropWindowLift_def
      lock_write_delete CreateDeployment_window_lifts RequestWindowLift_window_lifts window_lifts_frame
      dest!: window_lifts_frame)

interpretation runs: lock_table store_start store_step hook_runs "\<lambda>_. True" run_key
  by (unfold_locales, simp add: empty_store_def, erule store_step.cases, simp add: exec_op_hook_runs)

interpretation pauses: lock_table store_start store_step job_pauses in_force pause_key
  by (unfold_locales, simp add: empty_store_def, erule store_step.cases, simp add: exec_op_job_pauses)

interpretation stops: lock_table store_start store_step nops_pauses in_force "\<lambda>_. ()"
  by (unfold_locales, simp add: empty_store_def, erule store_step.cases, simp add: exec_op_nops_pauses)

interpretation lifts: lock_table store_start store_step window_lifts "\<lambda>_. True" lift_key
  by (unfold_locales, simp add: empty_store_def, erule store_step.cases, simp add: exec_op_window_lifts)

end
