(* ===== verification/StoreProperties.thy ===== *)
theory StoreProperties
  imports StoreSystem
begin

text \<open>
  What holds of every database the store's operations produce: the properties of the tables, the
  audit log and the reads, over the invariants of \<open>StoreSystem\<close>.
\<close>

section \<open>What never changes\<close>

text \<open>
  \<open>follows s t\<close>: \<open>t\<close> may be the database later than \<open>s\<close>. Every deployment of \<open>s\<close> is still there
  with its frozen columns, a closed one with its state, every one with its hooks, and the audit
  log of \<open>s\<close> is a prefix of the one of \<open>t\<close>.
\<close>

definition row_follows :: "deployment \<Rightarrow> deployment \<Rightarrow> bool" where
  "row_follows d d' = (frozen_part d' = frozen_part d \<and>
     (IsActive (d_state d) \<or> d_state d' = d_state d))"

definition hooks_of :: "string \<Rightarrow> store \<Rightarrow> deployment_hook list" where
  "hooks_of i s = map snd (filter (\<lambda>r. fst r = i) (deployment_hooks s))"

definition follows :: "store \<Rightarrow> store \<Rightarrow> bool" where
  "follows s t = ((\<forall>d\<in>set (deployments s). \<exists>d'\<in>set (deployments t). row_follows d d') \<and>
     (\<forall>i. list_ex (has_id i) (deployments s) \<longrightarrow> list_ex (has_id i) (deployments t) \<and> hooks_of i t = hooks_of i s) \<and>
     prefix (events s) (events t))"

lemma follows_refl: "follows s s"
  by (auto simp: follows_def row_follows_def)

lemma follows_trans:
  assumes "follows s t" "follows t u"
  shows "follows s u"
proof -
  have "row_follows a c" if "row_follows a b" "row_follows b c" for a b c
    using that by (auto simp: row_follows_def)
  with assms show ?thesis by (fastforce simp: follows_def intro: prefix_order.trans)
qed

lemma follows_rows:
  assumes "deployments t = map g (deployments s)" "\<And>d. d \<in> set (deployments s) \<Longrightarrow> row_follows d (g d)"
    and "deployment_hooks t = deployment_hooks s" "prefix (events s) (events t)"
  shows "follows s t"
proof -
  have "d_id (g d) = d_id d" if "d \<in> set (deployments s)" for d
    using assms(2) [OF that] frozen_part_keys(1) [of "g d" d] by (simp add: row_follows_def)
  then show ?thesis
    using assms by (auto simp: follows_def hooks_of_def list_ex_iff has_id_def)
qed

lemma follows_effect:
  assumes "dep_effect s t"
  shows "follows s t"
  using assms
proof cases
  case (eff_quiet P f)
  then show ?thesis
    by (intro follows_rows [OF eff_quiet(1) [unfolded update_where_def]]) (auto simp: row_follows_def)
next
  case (eff_log P f e a)
  then show ?thesis
    by (intro follows_rows [OF eff_log(1) [unfolded update_where_def]]) (auto simp: row_follows_def)
next
  case (eff_move e a f b)
  then show ?thesis
    by (intro follows_rows [OF eff_move(1) [unfolded update_where_def]])
      (auto simp: row_follows_def in_state_def dest: canTransition_active)
next
  case (eff_create r es hs)
  have "hooks_of i t = hooks_of i s" if "list_ex (has_id i) (deployments s)" for i
    using that eff_create(2,9) by (auto simp: hooks_of_def list_ex_iff has_id_def filter_empty_conv)
  then show ?thesis
    by (auto simp: follows_def eff_create(1,7) row_follows_def)
qed

interpretation history: forward_relation store_start store_step audited follows
  by unfold_locales
    (auto intro: follows_refl follows_trans follows_effect store_step_effect)

lemma follows_events:
  assumes "follows s t"
  obtains es where "events t = events s @ es"
  using assms by (auto simp: follows_def prefix_def)

section \<open>Order of the states\<close>

definition rank :: "dstate \<Rightarrow> nat" where
  "rank st = (case st of Detected \<Rightarrow> 0 | PendingApproval \<Rightarrow> 1 | PreHook \<Rightarrow> 2 | Applying \<Rightarrow> 3
     | PostHook \<Rightarrow> 4 | _ \<Rightarrow> 5)"

definition rank_of :: "dstate option \<Rightarrow> nat" where
  "rank_of cur = (case cur of None \<Rightarrow> 0 | Some st \<Rightarrow> Suc (rank st))"

lemma canTransition_rank: "canTransition a b \<Longrightarrow> rank a < rank b"
  by (cases a) (auto simp: canTransition_def allowed_def rank_def)

lemma edge_rank: "edge cur b \<Longrightarrow> rank_of cur \<le> rank_of (Some b) \<and> (cur \<noteq> Some b \<longrightarrow> rank_of cur < rank_of (Some b))"
  by (auto simp: edge_def rank_of_def split: option.splits dest: canTransition_rank)

abbreviation changes :: "(dstate option \<times> dstate) list \<Rightarrow> (dstate option \<times> dstate) list" where
  "changes es \<equiv> filter (\<lambda>(a, b). a \<noteq> Some b) es"

lemma walk_rank: "walk cur es = Some c \<Longrightarrow> rank_of cur + length (changes es) \<le> rank_of c"
proof (induction cur es rule: walk.induct)
  case (2 cur a b es)
  from "2.prems" have "a = cur" "edge cur b" "walk (Some b) es = Some c" by (auto split: if_splits)
  with "2.IH" edge_rank [of cur b] show ?case by auto
qed simp

lemma rank_bound: "rank_of c \<le> 6"
  by (auto simp: rank_of_def rank_def split: option.splits dstate.splits)

text \<open>A state is entered at most once: never again by a walk that is at or beyond it.\<close>

lemma walk_no_reentry:
  "walk cur es = Some c \<Longrightarrow> rank_of (Some st) \<le> rank_of cur \<Longrightarrow> (a, st) \<in> set es \<Longrightarrow> a = Some st"
proof (induction cur es rule: walk.induct)
  case (2 cur a' b es)
  then have w: "a' = cur" "edge cur b" "walk (Some b) es = Some c" by (auto split: if_splits)
  from "2.prems"(3) consider "(a, st) = (a', b)" | "(a, st) \<in> set es" by auto
  then show ?case
  proof cases
    case 1
    with w "2.prems"(2) edge_rank [of cur b] show ?thesis by auto
  next
    case 2
    with "2.IH" [of] w "2.prems"(2) edge_rank [of cur b] show ?thesis
      by (metis order_trans)
  qed
qed simp

lemma walk_after_entry:
  "walk cur es = Some c \<Longrightarrow> (a, st) \<in> set es \<Longrightarrow> rank_of (Some st) \<le> rank_of c"
proof (induction cur es rule: walk.induct)
  case (2 cur a' b es)
  then have w: "edge cur b" "walk (Some b) es = Some c" by (auto split: if_splits)
  with 2 walk_rank [OF w(2)] show ?case by (auto split: if_splits)
qed simp

section \<open>Reading the audit log\<close>

lemma sorted_ids: "audited s \<Longrightarrow> sorted (map e_id (events s)) \<and> distinct (map e_id (events s))"
  by (simp add: audited_def del: upt_Suc)

lemma sort_key_filter_id: "sorted (map k xs) \<Longrightarrow> sort_key k (filter P xs) = filter P xs"
  by (rule sort_key_id_if_sorted) (induction xs, auto)

lemma Events_filter: "audited s \<Longrightarrow> Events i s = filter (\<lambda>e. e_deployment_id e = i) (events s)"
  by (simp add: Events_def sort_key_filter_id sorted_ids)

lemma Events_trail: "audited s \<Longrightarrow> map ev_step (Events i s) = trail i s"
  by (simp add: Events_filter trail_def)

definition entered :: "string \<Rightarrow> store \<Rightarrow> event list" where
  "entered i s = filter (\<lambda>e. e_deployment_id e = i \<and> e_to e = Applying \<and> e_from e \<noteq> Some Applying) (events s)"

lemma AppliedSince_entered:
  "audited s \<Longrightarrow> AppliedSince i s = (case rev (entered i s) of [] \<Rightarrow> Inl ErrNotFound | e # _ \<Rightarrow> Inr (e_ts e))"
  by (simp add: AppliedSince_def entered_def sort_key_filter_id sorted_ids)

lemma audited_walk:
  assumes "audited s" "list_ex (has_id i) (deployments s)"
  obtains st where "walk None (trail i s) = Some (Some st)"
  using assms by (auto simp: audited_def list_ex_iff has_id_def)

lemma entered_once:
  assumes "audited s" "audited t" "follows s t" "entered i s \<noteq> []"
  shows "entered i t = entered i s"
proof -
  obtain es where es: "events t = events s @ es" using follows_events [OF assms(3)] .
  from assms(4) obtain e where e: "e \<in> set (events s)" "e_deployment_id e = i" "e_to e = Applying"
    by (auto simp: entered_def filter_empty_conv)
  with assms(1) have ex: "list_ex (has_id i) (deployments s)" by (auto simp: audited_def)
  with assms(3) have ext: "list_ex (has_id i) (deployments t)" by (auto simp: follows_def)
  obtain st where st: "walk None (trail i s) = Some (Some st)" using audited_walk [OF assms(1) ex] .
  obtain st' where st': "walk None (trail i t) = Some (Some st')" using audited_walk [OF assms(2) ext] .
  let ?new = "map ev_step (filter (\<lambda>e. e_deployment_id e = i) es)"
  have "walk (Some st) ?new = Some (Some st')"
    using st st' by (simp add: trail_append [OF es] walk_append)
  moreover have "rank_of (Some Applying) \<le> rank_of (Some st)"
    by (rule walk_after_entry [OF st, of "e_from e"]) (use e in \<open>force simp: trail_def\<close>)
  ultimately have "\<forall>a. (a, Applying) \<in> set ?new \<longrightarrow> a = Some Applying"
    using walk_no_reentry by blast
  then have "filter (\<lambda>e. e_deployment_id e = i \<and> e_to e = Applying \<and> e_from e \<noteq> Some Applying) es = []"
    by (force simp: filter_empty_conv)
  then show ?thesis by (simp add: entered_def es)
qed


lemma entered_le_1:
  assumes a: "audited s"
  shows "length (entered i s) \<le> 1"
proof (rule ccontr)
  assume "\<not> length (entered i s) \<le> 1"
  then obtain e1 e2 es where e: "entered i s = e1 # e2 # es"
    by (cases "entered i s"; cases "tl (entered i s)") auto
  from filter_eq_ConsD [OF e [unfolded entered_def]] obtain xs ys where xs: "events s = xs @ e1 # ys"
    and e1: "e_deployment_id e1 = i" "e_to e1 = Applying" "e_from e1 \<noteq> Some Applying"
    and ys: "e2 # es = filter (\<lambda>e. e_deployment_id e = i \<and> e_to e = Applying \<and> e_from e \<noteq> Some Applying) ys"
    by auto
  have "e2 \<in> set (e2 # es)" by simp
  then have e2: "e2 \<in> set ys" "e_deployment_id e2 = i" "e_to e2 = Applying" "e_from e2 \<noteq> Some Applying"
    unfolding ys by simp_all
  have "list_ex (has_id i) (deployments s)" using a e1(1) xs by (auto simp: audited_def)
  then obtain st where "walk None (trail i s) = Some (Some st)" by (rule audited_walk [OF a])
  then obtain c where "walk c (map ev_step (filter (\<lambda>e. e_deployment_id e = i) (e1 # ys))) = Some (Some st)"
    by (auto simp: trail_def xs walk_append split: option.splits)
  then have "walk (Some Applying) (map ev_step (filter (\<lambda>e. e_deployment_id e = i) ys)) = Some (Some st)"
    using e1 by (auto split: if_splits)
  from walk_no_reentry [OF this, of Applying "e_from e2"] e2 show False by force
qed

section \<open>A sample database\<close>

definition sample_new :: new_deployment where
  "sample_new = \<lparr>n_job_id = ''api'', n_namespace = ''default'', n_repository = [], n_commit_sha = ''c0'',
     n_commit_subject = [], n_commit_author = [], n_spec_hash = ''h'', n_job_spec = ''{}'',
     n_job_source = [], n_job_vars = [], n_plan_diff = ''{}'', n_diff_hash = ''p'', n_policy = PolAuto,
     n_state = None, n_error = [], n_cas_index = 7, n_retry_of = [], n_window_lifted_by = [],
     n_hooks = []\<rparr>"

definition sample_row :: deployment where
  "sample_row = new_row sample_call sample_new"

definition sample_store :: store where
  "sample_store = log_birth sample_call sample_new
     (empty_store\<lparr>deployments := [sample_row]\<rparr>)"

lemma sample_created: "CreateDeployment sample_call sample_new empty_store = Inr (sample_store, sample_row)"
  by (simp add: CreateDeployment_def sample_store_def sample_row_def create_refused_def sample_new_def
      born_state_def empty_store_def)

lemma sample_stored: "stored sample_store"
proof -
  have "exec_op sample_call (OpCreate sample_new) empty_store = Inr sample_store"
    by (simp add: sample_created)
  moreover have "stored empty_store" by (simp add: reach_init)
  ultimately show ?thesis by (blast intro: reach_step store_stepI)
qed

lemma sample_rows: "deployments sample_store = [sample_row]" "d_id sample_row = ''01A''"
  "d_state sample_row = Detected" "d_namespace sample_row = ''default''" "d_job_id sample_row = ''api''"
  by (simp_all add: sample_store_def sample_row_def new_row_def sample_new_def sample_call_def born_state_def)

definition start_apply :: transition where
  "start_apply = by_actor Detected ''nops'' ''policy auto''"

definition applying_store :: store where
  "applying_store = (case Transition sample_call ''01A'' Applying start_apply sample_store of
     Inr t \<Rightarrow> t | Inl _ \<Rightarrow> empty_store)"

lemma applying_step: "Transition sample_call ''01A'' Applying start_apply sample_store = Inr applying_store"
  by (simp add: applying_store_def Transition_def start_apply_def by_actor_def canTransition_def allowed_def
      sample_rows in_state_def)

lemma applying_rows: "deployments applying_store = [transition_row sample_call Applying start_apply sample_row]"
  by (simp add: applying_store_def Transition_def start_apply_def by_actor_def canTransition_def allowed_def
      sample_rows in_state_def)

lemma applying_stored: "stored applying_store" "runs store_step sample_store applying_store"
proof -
  have "exec_op sample_call (OpTransition ''01A'' Applying start_apply) sample_store = Inr applying_store"
    by (simp add: applying_step)
  then have "store_step sample_store applying_store" by (rule store_stepI)
  with sample_stored show "stored applying_store" "runs store_step sample_store applying_store"
    by (auto intro: reach_step runs_step runs_refl)
qed

section \<open>The tables\<close>

text \<open>
  Claim C5. The per-job lock and every other UNIQUE index hold in every database the store's
  operations produce, in whatever order and however they fail: a job never has two active
  deployments, IDs are unique, there is one run per deployment, phase and position, one pause in
  force per job and one of all jobs, and one deploy-now request per job.
\<close>

theorem unique_indexes_hold:
  assumes "stored s"
  shows "(\<forall>d\<in>set (deployments s). \<forall>d'\<in>set (deployments s).
            IsActive (d_state d) \<and> IsActive (d_state d') \<and> d_namespace d = d_namespace d' \<and>
            d_job_id d = d_job_id d' \<longrightarrow> d = d')
    \<and> distinct (map d_id (deployments s))
    \<and> distinct (map (\<lambda>r. (r_deployment_id r, r_phase r, r_position r)) (hook_runs s))
    \<and> (\<forall>ns job. length (filter (pause_of_job ns job) (job_pauses s)) \<le> 1)
    \<and> length (filter in_force (nops_pauses s)) \<le> 1
    \<and> distinct (map (\<lambda>l. (l_namespace l, l_job_id l)) (window_lifts s))"
proof -
  have few: "length (filter P xs) \<le> 1" if "unique_held in_force k xs" "\<And>p. P p \<Longrightarrow> in_force p \<and> k p = c"
    for P xs c and k :: "pause \<Rightarrow> 'k"
  proof -
    have "unique_held in_force k (filter P xs)" by (rule unique_held_filter [OF that(1)])
    moreover have "filter in_force (filter P xs) = filter P xs"
      using that(2) by (auto intro: filter_cong)
    ultimately have "distinct (map k (filter P xs))" by (simp only: unique_held_def)
    moreover have "set (map k (filter P xs)) \<subseteq> {c}" using that(2) by auto
    ultimately show ?thesis by (metis One_nat_def card_mono distinct_card finite.emptyI finite_insert
          is_singletonI is_singleton_altdef length_map)
  qed
  have "\<forall>ns job. length (filter (pause_of_job ns job) (job_pauses s)) \<le> 1"
    using few [OF pauses.inv.reach_inv [OF assms], of "pause_of_job _ _" "(_, _)"]
    by (simp add: pause_of_job_def pause_key_def)
  moreover have "length (filter in_force (nops_pauses s)) \<le> 1"
    using few [OF stops.inv.reach_inv [OF assms], of in_force "()"] by simp
  ultimately show ?thesis
    using job_lock.one_holder [OF assms] ids.inv.reach_inv [OF assms] runs.inv.reach_inv [OF assms]
      lifts.inv.reach_inv [OF assms]
    by (auto simp: active_def job_key_def run_key_def [abs_def] lift_key_def [abs_def] unique_held_def)
qed

theorem unique_indexes_hold_witness:
  "length (filter (\<lambda>d. IsActive (d_state d)) (deployments applying_store)) = 1 \<and>
     distinct (map d_id (deployments applying_store))"
proof -
  from applying_rows unique_indexes_hold [OF applying_stored(1)] show ?thesis
    by (simp add: transition_row_def IsActive_def)
qed

text \<open>
  Claim C9. The audit log of a deployment is complete and in order: its events, as \<open>Events\<close> reads
  them, have strictly increasing numbers, start with the one that detected it, follow each other
  along the edges of the state machine (or stay within a state), end in the state its row has, and
  change the state at most six times.
\<close>

theorem audit_log_is_a_path:
  assumes "stored s" "d \<in> set (deployments s)"
  shows "walk None (map ev_step (Events (d_id d) s)) = Some (Some (d_state d))
    \<and> sorted (map e_id (Events (d_id d) s)) \<and> distinct (map e_id (Events (d_id d) s))
    \<and> length (filter (\<lambda>e. e_from e \<noteq> Some (e_to e)) (Events (d_id d) s)) \<le> 6"
proof -
  note a = audit.reach_inv [OF assms(1)]
  then have w: "walk None (trail (d_id d) s) = Some (Some (d_state d))"
    using assms(2) by (auto simp: audited_def)
  have "length (changes (trail (d_id d) s)) = length (filter (\<lambda>e. e_from e \<noteq> Some (e_to e)) (Events (d_id d) s))"
    by (simp add: trail_def Events_filter [OF a] filter_map o_def)
  with walk_rank [OF w] rank_bound [of "Some (d_state d)"] w show ?thesis
    using sorted_ids [OF a]
    by (simp add: Events_trail [OF a]) (simp add: Events_filter [OF a] sorted_filter distinct_map_filter)
qed

theorem audit_log_is_a_path_witness:
  "walk None (map ev_step (Events ''01A'' applying_store)) = Some (Some Applying)"
proof -
  from applying_rows audit_log_is_a_path [OF applying_stored(1), of "transition_row sample_call Applying start_apply sample_row"]
  show ?thesis by (simp add: transition_row_def sample_rows)
qed


text \<open>
  Claim C11. History is never rewritten: in any later database every deployment is still there with
  the policy, spec, plan, retry origin, creation time and hooks it was created with, its recorded
  events are a prefix of the later ones, and once it is closed its state never changes again.
\<close>

theorem history_is_append_only:
  assumes "stored s" "runs store_step s t" "d \<in> set (deployments s)"
  shows "\<exists>d'\<in>set (deployments t). frozen_part d' = frozen_part d
      \<and> (IsActive (d_state d) \<or> d_state d' = d_state d)
      \<and> DeploymentHooks (d_id d) t = DeploymentHooks (d_id d) s
      \<and> prefix (Events (d_id d) s) (Events (d_id d) t)"
proof -
  note a = audit.reach_inv [OF assms(1)]
  note f = history.runs_fwd [OF assms(2) a]
  have "audited t" by (rule audit.runs_inv [OF assms(2) a])
  moreover obtain es where "events t = events s @ es" by (rule follows_events [OF f])
  ultimately have "prefix (Events (d_id d) s) (Events (d_id d) t)" by (simp add: Events_filter a)
  moreover have "hooks_of (d_id d) t = hooks_of (d_id d) s"
    using f assms(3) by (auto simp: follows_def list_ex_iff has_id_def)
  ultimately show ?thesis
    using f assms(3) by (auto simp: follows_def row_follows_def DeploymentHooks_def hooks_of_def)
qed

theorem history_is_append_only_witness:
  "\<exists>d'\<in>set (deployments applying_store). d_policy d' = PolAuto \<and> d_state d' = Applying \<and>
     prefix (Events ''01A'' sample_store) (Events ''01A'' applying_store)"
proof -
  have "sample_row \<in> set (deployments sample_store)" by (simp add: sample_rows)
  from history_is_append_only [OF sample_stored applying_stored(2) this]
  obtain d' where d': "d' \<in> set (deployments applying_store)" "frozen_part d' = frozen_part sample_row"
    "prefix (Events ''01A'' sample_store) (Events ''01A'' applying_store)"
    by (auto simp: sample_rows)
  moreover have "d_state d' = Applying" using d'(1) by (simp add: applying_rows transition_row_def)
  moreover have "d_policy sample_row = PolAuto" by (simp add: sample_row_def new_row_def sample_new_def)
  ultimately show ?thesis using frozen_part_keys(4) [OF d'(2)] by auto
qed

text \<open>
  The clock of an apply starts once: from the event that moved a deployment into
  applying, \<open>AppliedSince\<close> gives the same time in every later database, whatever is logged on the
  deployment afterwards (scales, promotions, a second controller).
\<close>

theorem AppliedSince_fixed:
  assumes "stored s" "runs store_step s t" "AppliedSince i s = Inr since"
  shows "AppliedSince i t = Inr since \<and> length (entered i t) = 1"
proof -
  note a = audit.reach_inv [OF assms(1)]
  have t: "audited t" by (rule audit.runs_inv [OF assms(2) a])
  from assms(3) have ne: "entered i s \<noteq> []" by (auto simp: AppliedSince_entered [OF a])
  have eq: "entered i t = entered i s" by (rule entered_once [OF a t history.runs_fwd [OF assms(2) a] ne])
  from entered_le_1 [OF a, of i] ne have "length (entered i s) = 1" by (cases "entered i s") auto
  with eq assms(3) show ?thesis by (simp add: AppliedSince_entered a t)
qed

theorem AppliedSince_fixed_witness:
  "\<exists>since. AppliedSince ''01A'' applying_store = Inr since \<and> length (entered ''01A'' applying_store) = 1"
proof -
  have "map e_ts (entered ''01A'' applying_store) = [5]"
    by (simp add: entered_def applying_store_def
        Transition_def start_apply_def by_actor_def canTransition_def allowed_def sample_rows in_state_def
        insertEvent_events sample_store_def log_birth_def Let_def born_state_def sample_new_def empty_store_def
        sample_call_def sample_row_def new_row_def)
  then have "AppliedSince ''01A'' applying_store = Inr 5"
    by (auto simp: AppliedSince_entered [OF audit.reach_inv [OF applying_stored(1)]])
  from AppliedSince_fixed [OF applying_stored(1) runs_refl this] this show ?thesis by blast
qed


section \<open>Operations\<close>

lemma list_ex_has_id_update:
  "(\<And>d. P d \<Longrightarrow> d_id (f d) = d_id d) \<Longrightarrow>
     list_ex (has_id i) (update_where P f ds) = list_ex (has_id i) ds"
  by (induction ds) (auto simp: has_id_def)

text \<open>
  A transition is a compare-and-set: when one succeeded from a state, every other one
  from that state, to whatever state and by whomever, is refused as a state conflict, and the
  database stays as the winner left it. This is what keeps a human decision and the apply loop from
  both acting.
\<close>

theorem transition_compare_and_set:
  assumes "Transition c i to_st t s = Inr s1" and "t_from t' = t_from t" and "t_actor t' \<noteq> []"
    and "\<And>st. t_from t' = Some st \<Longrightarrow> canTransition st to_st'"
  shows "Transition c' i to_st' t' s1 = Inl ErrStateConflict"
proof -
  from assms(1) obtain st where st: "t_from t = Some st" "canTransition st to_st"
    and ex: "list_ex (in_state i st) (deployments s)"
    and s1: "deployments s1 = update_where (in_state i st) (transition_row c to_st t) (deployments s)"
    by (auto simp: Transition_def split: option.splits if_splits)
  have ne: "st \<noteq> to_st" using canTransition_rank [OF st(2)] by auto
  then have "\<not> in_state i st (transition_row c to_st t d)" for d
    by (simp add: transition_row_def in_state_def)
  then have "\<not> list_ex (in_state i st) (deployments s1)" by (auto simp: s1 update_where_def list_ex_iff)
  moreover have "list_ex (has_id i) (deployments s1) = list_ex (has_id i) (deployments s)"
    unfolding s1 by (rule list_ex_has_id_update) (simp add: transition_row_def)
  moreover have "list_ex (has_id i) (deployments s)"
    using ex by (auto simp: list_ex_iff in_state_def has_id_def)
  moreover have f: "t_from t' = Some st" using assms(2) st(1) by simp
  moreover note assms(3) assms(4) [OF f]
  ultimately show ?thesis by (simp add: Transition_def no_row_def)
qed

theorem transition_compare_and_set_witness:
  "Transition sample_call ''01A'' Failed (by_actor Detected ''bob'' ''no'') applying_store = Inl ErrStateConflict"
  by (rule transition_compare_and_set [OF applying_step])
    (simp_all add: start_apply_def by_actor_def canTransition_def allowed_def)

definition hooks_owned :: "store \<Rightarrow> bool" where
  "hooks_owned s = (\<forall>(i, h)\<in>set (deployment_hooks s). list_ex (has_id i) (deployments s))"

lemma hooks_owned_effect:
  assumes "hooks_owned s" "dep_effect s t"
  shows "hooks_owned t"
proof -
  have "list_ex (has_id i) (deployments t)" if "list_ex (has_id i) (deployments s)" for i
    using follows_effect [OF assms(2)] that by (auto simp: follows_def)
  with assms(1) have "\<forall>(i, h)\<in>set (deployment_hooks s). list_ex (has_id i) (deployments t)"
    by (auto simp: hooks_owned_def)
  with assms(2) show ?thesis by cases (auto simp: hooks_owned_def has_id_def)
qed

interpretation owned: inductive_invariant store_start store_step hooks_owned
  by (unfold_locales, simp add: hooks_owned_def empty_store_def)
    (rule hooks_owned_effect, assumption, rule store_step_effect)

text \<open>
  What \<open>CreateDeployment\<close> stores is what is read back: the deployment by its ID and as
  the active one of its job, its hooks in the order they run; the lock is then taken, so that
  creating another active deployment of the job is refused, whatever it carries, unless its
  arguments are refused first or its ID is in use.
\<close>

theorem CreateDeployment_readback:
  assumes "stored s" "CreateDeployment c n s = Inr (t, d)"
  shows "GetDeployment (c_new_id c) t = Inr d \<and> d = new_row c n
    \<and> DeploymentHooks (c_new_id c) t = sort_key (\<lambda>h. (phase_rank (h_phase h), h_position h)) (n_hooks n)
    \<and> (IsActive (born_state n) \<longrightarrow> ActiveDeployment (n_namespace n) (n_job_id n) t = Inr d
        \<and> (\<forall>c' n'. \<not> create_refused n' \<and> c_new_id c' \<notin> d_id ` set (deployments t) \<and> IsActive (born_state n') \<and>
             n_namespace n' = n_namespace n \<and> n_job_id n' = n_job_id n \<longrightarrow>
             CreateDeployment c' n' t = Inl ErrActiveDeployment))"
proof -
  note f = CreateDeployment_Inr [OF assms(2)]
  have d: "d_id d = c_new_id c" "d_state d = born_state n" "of_job (n_namespace n) (n_job_id n) d"
    by (simp_all add: f(1) new_row_def of_job_def)
  have t: "deployments t = deployments s @ [d]" by (simp add: f(5))
  have snoc: "find P (xs @ [d]) = Some d" if "\<not> list_ex P xs" "P d" for P xs
    using that by (induction xs) auto
  have "GetDeployment (c_new_id c) t = Inr d"
    using snoc [OF f(3)] by (simp add: GetDeployment_def t has_id_def d)
  moreover have "ActiveDeployment (n_namespace n) (n_job_id n) t = Inr d" if "IsActive (born_state n)"
    using snoc [OF f(4) [OF that]] that d by (simp add: ActiveDeployment_def or_not_found_def t)
  moreover have "filter (\<lambda>r. fst r = c_new_id c) (deployment_hooks s) = []"
    using owned.reach_inv [OF assms(1)] f(3) by (auto simp: filter_empty_conv hooks_owned_def list_ex_iff has_id_def)
  then have "DeploymentHooks (c_new_id c) t = sort_key (\<lambda>h. (phase_rank (h_phase h), h_position h)) (n_hooks n)"
    by (simp add: DeploymentHooks_def f(5) filter_map o_def)
  moreover have "CreateDeployment c' n' t = Inl ErrActiveDeployment"
    if "\<not> create_refused n'" "c_new_id c' \<notin> d_id ` set (deployments t)" "IsActive (born_state n')"
      "n_namespace n' = n_namespace n" "n_job_id n' = n_job_id n" "IsActive (born_state n)" for c' n'
  proof -
    have "\<not> list_ex (has_id (c_new_id c')) (deployments t)"
      using that(2) by (force simp: list_ex_iff has_id_def)
    moreover have "list_ex (\<lambda>x. of_job (n_namespace n') (n_job_id n') x \<and> IsActive (d_state x)) (deployments t)"
      using that d by (simp add: t)
    ultimately show ?thesis using that by (simp add: CreateDeployment_def)
  qed
  ultimately show ?thesis using f(1) by blast
qed

theorem CreateDeployment_readback_witness:
  "GetDeployment ''01A'' sample_store = Inr sample_row \<and>
     ActiveDeployment ''default'' ''api'' sample_store = Inr sample_row"
proof -
  have "stored empty_store" by (simp add: reach_init)
  from CreateDeployment_readback [OF this sample_created] show ?thesis
    by (simp add: sample_call_def sample_new_def born_state_def IsActive_def)
qed

lemma find_retriable_unique:
  assumes "distinct (map d_id ds)" "find (retriable_row i) ds = Some d"
  shows "find (has_id i) ds = Some d"
  using find_map_of [OF assms(1), of d] find_SomeD [OF assms(2)]
  by (simp add: retriable_row_def has_id_def [abs_def])

lemma MarkRetried_marks:
  assumes "distinct (map d_id (deployments s))" "MarkRetried c i actor s = Inr s1"
  shows "\<exists>d. find (has_id i) (deployments s1) = Some d \<and> d_retried_by d = actor \<and> d_retried_at d = Some (c_now c)"
proof -
  from assms(2) obtain d where d: "find (retriable_row i) (deployments s) = Some d"
    and s1: "deployments s1 = update_where (retriable_row i)
      (\<lambda>d. d\<lparr>d_retried_by := actor, d_retried_at := Some (c_now c), d_updated_at := c_now c\<rparr>) (deployments s)"
    by (auto simp: MarkRetried_def split: if_splits option.splits)
  from find_retriable_unique [OF assms(1) d] find_SomeD [OF d] show ?thesis
    by (auto simp: s1 find_update_where has_id_def)
qed


text \<open>What marks a deployment as retried is never written again.\<close>

definition same_mark :: "deployment \<Rightarrow> deployment \<Rightarrow> bool" where
  "same_mark d d' = (d_id d' = d_id d \<and>
     (d_retried_at d \<noteq> None \<longrightarrow> d_retried_at d' = d_retried_at d \<and> d_retried_by d' = d_retried_by d))"

definition marks_kept :: "store \<Rightarrow> store \<Rightarrow> bool" where
  "marks_kept s t = (\<forall>d\<in>set (deployments s). \<exists>d'\<in>set (deployments t). same_mark d d')"

lemma marks_keptI:
  assumes t: "deployments t = update_where P f (deployments s)" and f: "\<And>d. P d \<Longrightarrow> same_mark d (f d)"
  shows "marks_kept s t"
  unfolding marks_kept_def
proof
  fix d assume "d \<in> set (deployments s)"
  then have "(if P d then f d else d) \<in> set (deployments t)" by (simp add: t update_where_def)
  moreover have "same_mark d (if P d then f d else d)" using f [of d] by (simp add: same_mark_def)
  ultimately show "\<exists>d'\<in>set (deployments t). same_mark d d'" by blast
qed

lemma marks_kept_same: "deployments t = deployments s \<Longrightarrow> marks_kept s t"
  by (auto simp: marks_kept_def same_mark_def)

lemma marks_kept_ops:
  "CreateDeployment c n s = Inr (t, r) \<Longrightarrow> marks_kept s t"
  "Transition c i to_st tr s = Inr t \<Longrightarrow> marks_kept s t"
  "SetApplied c i idx ver ev s = Inr t \<Longrightarrow> marks_kept s t"
  "MoveCASIndex c i st a b s = Inr t \<Longrightarrow> marks_kept s t"
  "MoveAppliedIndex c i a b s = Inr t \<Longrightarrow> marks_kept s t"
  "MarkPromotionRequested c i actor s = Inr t \<Longrightarrow> marks_kept s t"
proof -
  show "CreateDeployment c n s = Inr (t, r) \<Longrightarrow> marks_kept s t"
    by (drule CreateDeployment_Inr(5)) (auto simp: marks_kept_def same_mark_def)
  show "Transition c i to_st tr s = Inr t \<Longrightarrow> marks_kept s t"
    by (rule marks_keptI [of _ "in_state i (the (t_from tr))" "transition_row c to_st tr"])
      (auto simp: Transition_def transition_row_def same_mark_def split: option.splits if_splits)
  show "SetApplied c i idx ver ev s = Inr t \<Longrightarrow> marks_kept s t"
    by (auto simp: SetApplied_def same_mark_def split: if_splits intro!: marks_keptI)
  show "MoveCASIndex c i st a b s = Inr t \<Longrightarrow> marks_kept s t"
    by (rule marks_keptI [of _ "\<lambda>d. in_state i st d \<and> d_cas_index d = a \<and> d_applied_index d = None"
          "\<lambda>d. d\<lparr>d_cas_index := b, d_updated_at := c_now c\<rparr>"])
      (auto simp: MoveCASIndex_def Let_def same_mark_def split: if_splits)
  show "MoveAppliedIndex c i a b s = Inr t \<Longrightarrow> marks_kept s t"
    by (auto simp: MoveAppliedIndex_def Let_def same_mark_def split: if_splits intro!: marks_keptI)
  show "MarkPromotionRequested c i actor s = Inr t \<Longrightarrow> marks_kept s t"
    by (auto simp: MarkPromotionRequested_def same_mark_def split: if_splits intro!: marks_keptI)
qed

lemma marks_kept_retried: "MarkRetried c i actor s = Inr t \<Longrightarrow> marks_kept s t"
  by (auto simp: MarkRetried_def same_mark_def retriable_row_def split: if_splits option.splits intro!: marks_keptI)

lemma marks_kept_promotion:
  "markPromotion c i guard upd msg s = Inr (t, b) \<Longrightarrow> (\<And>d. same_mark d (upd d)) \<Longrightarrow> marks_kept s t"
  by (cases "list_ex (\<lambda>d. in_state i Applying d \<and> guard d) (deployments s)")
    (auto simp: markPromotion_def Let_def same_mark_def marks_kept_same split: if_splits option.splits
      intro!: marks_keptI)

lemma marks_kept_others:
  "EnsureHookRun c dep ph pos job tmo s = Inr (t, x) \<Longrightarrow> deployments t = deployments s"
  "UpdateHookRun c i u s = Inr t \<Longrightarrow> deployments t = deployments s"
  "PauseJob c ns job actor reason s = Inr t \<Longrightarrow> deployments t = deployments s"
  "ResumeJob c ns job actor s = Inr t \<Longrightarrow> deployments t = deployments s"
  "PauseAll c actor reason s = Inr t \<Longrightarrow> deployments t = deployments s"
  "ResumeAll c actor s = Inr t \<Longrightarrow> deployments t = deployments s"
  "RequestWindowLift c ns job h actor s = Inr t \<Longrightarrow> deployments t = deployments s"
  by (auto simp: EnsureHookRun_def UpdateHookRun_def PauseJob_def ResumeJob_def PauseAll_def ResumeAll_def
      RequestWindowLift_def Let_def split: if_splits option.splits)

lemma marks_kept_exec: "exec_op c op s = Inr t \<Longrightarrow> marks_kept s t"
proof (cases op)
  case (OpAwaiting i)
  assume "exec_op c op s = Inr t"
  with OpAwaiting show ?thesis
    by (auto simp: bindE_Inr MarkAwaitingPromotion_def same_mark_def intro: marks_kept_promotion)
next
  case (OpPromoted i)
  assume "exec_op c op s = Inr t"
  with OpPromoted show ?thesis
    by (auto simp: bindE_Inr MarkPromoted_def same_mark_def intro: marks_kept_promotion)
next
  case (OpDropLift ns job)
  assume "exec_op c op s = Inr t"
  with OpDropLift show ?thesis by (auto simp: DropWindowLift_def intro: marks_kept_same)
qed (auto simp: bindE_Inr intro: marks_kept_ops marks_kept_retried marks_kept_same dest: marks_kept_others)

lemma marks_kept_trans: "marks_kept s t \<Longrightarrow> marks_kept t u \<Longrightarrow> marks_kept s u"
  unfolding marks_kept_def same_mark_def by (metis (no_types, lifting))

interpretation marks: forward_relation store_start store_step audited marks_kept
  by unfold_locales
    (auto intro: marks_kept_same marks_kept_trans elim: store_step.cases marks_kept_exec)


definition failed_store :: store where
  "failed_store = (case Transition sample_call ''01A'' Failed (by_actor Applying ''nops'' ''timeout'') applying_store of
     Inr t \<Rightarrow> t | Inl _ \<Rightarrow> empty_store)"

lemma failed_step:
  "Transition sample_call ''01A'' Failed (by_actor Applying ''nops'' ''timeout'') applying_store = Inr failed_store"
  by (simp add: failed_store_def Transition_def by_actor_def canTransition_def allowed_def
      applying_rows sample_rows in_state_def transition_row_def)

lemma failed_stored: "stored failed_store"
proof -
  have "exec_op sample_call (OpTransition ''01A'' Failed (by_actor Applying ''nops'' ''timeout'')) applying_store
      = Inr failed_store"
    by (simp add: failed_step)
  then show ?thesis by (blast intro: reach_step store_stepI applying_stored(1))
qed

lemma failed_rows: "\<exists>d. deployments failed_store = [d] \<and> d_id d = ''01A'' \<and> d_state d = Failed \<and> d_retried_at d = None"
  by (simp add: failed_store_def Transition_def by_actor_def canTransition_def allowed_def
      applying_rows sample_rows in_state_def transition_row_def sample_row_def new_row_def sample_call_def)

text \<open>
  A deployment is retried at most once: after \<open>MarkRetried\<close> every further request, in
  whatever later database and by whomever, is refused as already retried, and the row keeps who
  asked first and when.
\<close>

theorem MarkRetried_once:
  assumes "stored s" "MarkRetried c i actor s = Inr s1" "runs store_step s1 t" "actor' \<noteq> []"
  shows "MarkRetried c' i actor' t = Inl ErrAlreadyRetried
    \<and> (\<exists>d\<in>set (deployments t). d_id d = i \<and> d_retried_by d = actor \<and> d_retried_at d = Some (c_now c))"
proof -
  have "exec_op c (OpMarkRetried i actor) s = Inr s1" using assms(2) by simp
  then have s1: "stored s1" by (blast intro: reach_step [OF assms(1)] store_stepI)
  then have t: "stored t" by (rule reach_runs [OF _ assms(3)])
  have dist: "distinct (map d_id (deployments x))" if "stored x" for x
    using ids.inv.reach_inv [OF that] by (simp add: unique_held_def)
  from MarkRetried_marks [OF dist [OF assms(1)] assms(2)] obtain d where
    d: "find (has_id i) (deployments s1) = Some d" "d_retried_by d = actor" "d_retried_at d = Some (c_now c)"
    by blast
  from marks.runs_fwd [OF assms(3) audit.reach_inv [OF s1]] find_SomeD [OF d(1)] d(2,3)
  obtain d' where d': "d' \<in> set (deployments t)" "d_id d' = i" "d_retried_by d' = actor" "d_retried_at d' = Some (c_now c)"
    by (auto simp: marks_kept_def same_mark_def has_id_def)
  have "find (has_id i) (deployments t) = Some d'"
    using find_map_of [OF dist [OF t] d'(1)] d'(2) by (simp add: has_id_def [abs_def])
  moreover have "find (retriable_row i) (deployments t) = None"
    using find_retriable_unique [OF dist [OF t]] calculation d'(4)
    by (cases "find (retriable_row i) (deployments t)") (auto simp: retriable_row_def dest: find_SomeD)
  ultimately show ?thesis using d' assms(4) by (auto simp: MarkRetried_def)
qed

theorem MarkRetried_once_witness:
  "\<exists>s1. MarkRetried sample_call ''01A'' ''alice'' failed_store = Inr s1 \<and>
     MarkRetried sample_call ''01A'' ''bob'' s1 = Inl ErrAlreadyRetried"
proof -
  obtain d where "deployments failed_store = [d]" "d_id d = ''01A''" "d_state d = Failed" "d_retried_at d = None"
    using failed_rows by blast
  then have "\<exists>s1. MarkRetried sample_call ''01A'' ''alice'' failed_store = Inr s1"
    by (simp add: MarkRetried_def retriable_row_def)
  then obtain s1 where "MarkRetried sample_call ''01A'' ''alice'' failed_store = Inr s1" ..
  with MarkRetried_once [OF failed_stored this runs_refl, of "''bob''" sample_call] show ?thesis by auto
qed

section \<open>The latest deployment\<close>

lemma newest_max:
  assumes "newest ds = Some d"
  shows "d \<in> set ds" "\<forall>x\<in>set ds. created_key x \<le> created_key d"
proof -
  obtain ys where "rev (sort_key created_key ds) = d # ys"
    using assms by (cases "rev (sort_key created_key ds)") (simp_all add: newest_def)
  then have l: "sort_key created_key ds = rev ys @ [d]" by (metis rev.simps(2) rev_rev_ident)
  have set: "set ds = insert d (set ys)" using arg_cong [OF l, of set] by simp
  then show "d \<in> set ds" by simp
  have "sorted (map created_key (rev ys @ [d]))" unfolding l [symmetric] by simp
  then have "created_key x \<le> created_key d" if "x \<in> set ys" for x
    using that by (auto simp: sorted_append)
  with set show "\<forall>x\<in>set ds. created_key x \<le> created_key d" by auto
qed

lemma newest_None: "newest ds = None \<longleftrightarrow> ds = []"
  by (auto simp: newest_def split: list.splits)

text \<open>
  \<open>LatestDeployment\<close> is the deployment of the job created last, and reports not found
  only for a job without deployments, as long as no two deployments of the job are created within
  the same second: the stored times are compared as text, and \<open>created_within_a_second_misordered\<close>
  shows why the condition is needed.
\<close>

theorem LatestDeployment_is_latest:
  assumes "\<forall>d\<in>set (deployments s). \<forall>d'\<in>set (deployments s). of_job ns job d \<and> of_job ns job d' \<and> d \<noteq> d' \<longrightarrow>
      d_created_at d div second \<noteq> d_created_at d' div second"
  shows "case LatestDeployment ns job s of
      Inr d \<Rightarrow> d \<in> set (deployments s) \<and> of_job ns job d \<and>
        (\<forall>d'\<in>set (deployments s). of_job ns job d' \<and> d' \<noteq> d \<longrightarrow> d_created_at d' < d_created_at d)
    | Inl e \<Rightarrow> e = ErrNotFound \<and> (\<forall>d\<in>set (deployments s). \<not> of_job ns job d)"
proof (cases "newest (filter (of_job ns job) (deployments s))")
  case None
  then show ?thesis by (simp add: LatestDeployment_def or_not_found_def) (simp add: newest_None filter_empty_conv)
next
  case (Some d)
  note m = newest_max [OF Some]
  have "d_created_at d' < d_created_at d" if d': "d' \<in> set (deployments s)" "of_job ns job d'" "d' \<noteq> d" for d'
  proof -
    have "created_key d' \<le> created_key d" using m(2) d' by simp
    then have "ts_key (d_created_at d') \<le> ts_key (d_created_at d)"
      unfolding created_key_def less_eq_prod_def [of "(_, _)"] by (metis fst_conv order_less_imp_le)
    moreover have "d_created_at d div second \<noteq> d_created_at d' div second"
      using assms m(1) d' by auto
    ultimately show ?thesis using ts_key_seconds_iff [of "d_created_at d" "d_created_at d'"] by force
  qed
  with Some m(1) show ?thesis by (auto simp: LatestDeployment_def or_not_found_def)
qed

theorem LatestDeployment_is_latest_witness:
  "LatestDeployment ''default'' ''api'' sample_store = Inr sample_row"
proof -
  have "\<forall>d\<in>set (deployments sample_store). \<forall>d'\<in>set (deployments sample_store).
      of_job ''default'' ''api'' d \<and> of_job ''default'' ''api'' d' \<and> d \<noteq> d' \<longrightarrow>
      d_created_at d div second \<noteq> d_created_at d' div second"
    by (simp add: sample_rows)
  from LatestDeployment_is_latest [OF this] show ?thesis
    by (auto simp: sample_rows of_job_def split: sum.splits)
qed


definition tenth :: call where
  "tenth = \<lparr>c_now = 100000000, c_new_id = ''01A'', c_accessor = [], c_identity = []\<rparr>"

definition twelve_hundredths :: call where
  "twelve_hundredths = \<lparr>c_now = 120000000, c_new_id = ''01B'', c_accessor = [], c_identity = []\<rparr>"

definition misordered :: "store_error + store" where
  "misordered = bindE (exec_op tenth (OpCreate sample_new) empty_store) (\<lambda>s1.
     bindE (exec_op tenth (OpTransition ''01A'' Failed (by_actor Detected ''nops'' ''no plan'')) s1)
       (exec_op twelve_hundredths (OpCreate sample_new)))"

lemma digits_012: "digit_char 0 = CHR ''0''" "digit_char (Suc 0) = CHR ''1''" "digit_char 2 = CHR ''2''"
  by (simp_all add: digit_char_def char_of_def bit_0)

lemma misordered_keys: "ts_key 120000000 < ts_key 100000000"
  by (simp add: ts_key_def rfc_frac_def frac_digits_def digits_012 less_char_def)

text \<open>
  Within one second the text of a later time can be the smaller one, since the layout
  drops trailing zeros of the fraction and the digits then meet the final \<open>Z\<close>: of two deployments
  of a job created 0.1 s and 0.12 s after the same second, the database, reached by creating the
  one, closing it and creating the other, answers with the older one as the latest.
\<close>

theorem created_within_a_second_misordered:
  "\<exists>s old new. misordered = Inr s \<and> deployments s = [old, new] \<and> stored s
     \<and> d_created_at old < d_created_at new \<and> LatestDeployment ''default'' ''api'' s = Inr old"
proof -
  let ?s1 = "log_birth tenth sample_new (empty_store\<lparr>deployments := [new_row tenth sample_new]\<rparr>)"
  let ?t = "by_actor Detected ''nops'' ''no plan''"
  let ?s2 = "insertEvent tenth ''01A'' (Some Detected) Failed ''nops'' ''no plan''
    (?s1\<lparr>deployments := [transition_row tenth Failed ?t (new_row tenth sample_new)]\<rparr>)"
  let ?old = "transition_row tenth Failed ?t (new_row tenth sample_new)"
  let ?new = "new_row twelve_hundredths sample_new"
  let ?s3 = "log_birth twelve_hundredths sample_new (?s2\<lparr>deployments := [?old, ?new], deployment_hooks := []\<rparr>)"
  have 1: "exec_op tenth (OpCreate sample_new) empty_store = Inr ?s1"
    by (simp add: CreateDeployment_def create_refused_def sample_new_def born_state_def empty_store_def)
  have 2: "exec_op tenth (OpTransition ''01A'' Failed ?t) ?s1 = Inr ?s2"
    by (simp add: Transition_def by_actor_def canTransition_def allowed_def in_state_def new_row_def
        tenth_def born_state_def sample_new_def)
  have r2: "deployments ?s2 = [?old]" "deployment_hooks empty_store = []" by (simp_all add: empty_store_def)
  have old: "d_id ?old = ''01A''" "d_state ?old = Failed"
    by (simp_all add: transition_row_def new_row_def tenth_def)
  have n: "n_state sample_new = None" "n_job_id sample_new = ''api''" "n_namespace sample_new = ''default''"
    "n_spec_hash sample_new = ''h''" "n_job_spec sample_new = ''{}''" "n_policy sample_new = PolAuto"
    "n_error sample_new = []" "n_retry_of sample_new = []" "n_hooks sample_new = []"
    by (simp_all add: sample_new_def)
  have new: "c_new_id twelve_hundredths = ''01B''" by (simp add: twelve_hundredths_def)
  have 3: "exec_op twelve_hundredths (OpCreate sample_new) ?s2 = Inr ?s3"
    by (simp add: CreateDeployment_def create_refused_def born_state_def has_id_def IsActive_def r2 old n new)
  have "misordered = Inr ?s3" by (simp only: misordered_def 1 2 3 bindE_simps)
  moreover have "stored empty_store" by (simp add: reach_init)
  then have "stored ?s1" by (rule reach_step) (rule store_stepI [OF 1])
  then have "stored ?s2" by (rule reach_step) (rule store_stepI [OF 2])
  then have "stored ?s3" by (rule reach_step) (rule store_stepI [OF 3])
  moreover have keys: "created_key ?new < created_key ?old"
    using misordered_keys by (simp_all add: created_key_def transition_row_def new_row_def tenth_def twelve_hundredths_def)
  have d3: "deployments ?s3 = [?old, ?new]" by simp
  have jobs: "of_job ''default'' ''api'' ?old" "of_job ''default'' ''api'' ?new"
    by (simp_all add: of_job_def transition_row_def new_row_def n)
  have "LatestDeployment ''default'' ''api'' ?s3 = Inr ?old"
    using keys by (simp only: LatestDeployment_def newest_def or_not_found_def d3)
      (auto simp: jobs)
  moreover have "d_created_at ?old < d_created_at ?new"
    by (simp add: transition_row_def new_row_def tenth_def twelve_hundredths_def)
  ultimately show ?thesis using d3 by blast
qed

end
