(* ===== verification/Nomad.thy ===== *)
theory Nomad
  imports Meta StoreState
begin

text \<open>
  What the engine and the hook runner see of Nomad (\<open>internal/nomadx\<close> and the types of Nomad's
  own \<open>api\<close> package): the fields of jobs, plans, allocations and Nomad deployments the code reads,
  with the rest of a job as one opaque field, and the errors it tells apart. Nomad itself, the JSON
  and HCL decoders, SHA-256, the cron library and the formatting of times are arguments, grouped in
  the record \<open>libs\<close>; what Nomad answers is an argument of each step.
\<close>

section \<open>Jobs\<close>

record task =
  t_name :: string
  t_driver :: string
  t_image :: "string option"

text \<open>
  \<open>g_update\<close> is the group's update block, if any, with its \<open>auto_promote\<close>; \<open>g_scaling\<close> says whether
  there is a scaling block. A group or task may be a nil pointer.
\<close>

record task_group =
  g_name :: "string option"
  g_count :: "int option"
  g_scaling :: bool
  g_update :: "bool option option"
  g_tasks :: "task option list"

record job =
  j_id :: "string option"
  j_name :: "string option"
  j_namespace :: "string option"
  j_type :: "string option"
  j_meta :: "(string \<times> string) list"
  j_modify_index :: "nat option"
  j_version :: "nat option"
  j_status :: "string option"
  j_stop :: "bool option"
  j_update :: "bool option option"
  j_groups :: "task_group option list"
  j_is_periodic :: bool
  j_is_parameterized :: bool
  j_parameterized :: "(string list \<times> string list) option"
  j_rest :: string

definition derefUint64 :: "nat option \<Rightarrow> nat" where
  "derefUint64 p = (case p of None \<Rightarrow> 0 | Some n \<Rightarrow> n)"

section \<open>Plans\<close>

record field_diff =
  fd_type :: string
  fd_name :: string
  fd_old :: string
  fd_new :: string
  fd_annotations :: "string list"

datatype object_diff = ObjectDiff (od_type: string) (od_name: string)
  (od_fields: "field_diff option list") (od_objects: "object_diff option list")

record task_diff =
  td_type :: string
  td_name :: string
  td_fields :: "field_diff option list"
  td_objects :: "object_diff option list"
  td_annotations :: "string list"

record group_diff =
  gd_type :: string
  gd_name :: string
  gd_fields :: "field_diff option list"
  gd_objects :: "object_diff option list"
  gd_tasks :: "task_diff option list"
  gd_updates :: "(string \<times> nat) list"

record job_diff =
  jd_type :: string
  jd_id :: string
  jd_fields :: "field_diff option list"
  jd_objects :: "object_diff option list"
  jd_groups :: "group_diff option list"

text \<open>The answer to a plan: its diff, which may be missing.\<close>

type_synonym plan = "job_diff option"

definition plan_drift :: "plan \<Rightarrow> bool" where
  "plan_drift p = (case p of None \<Rightarrow> False | Some d \<Rightarrow> jd_type d \<noteq> ''None'')"

section \<open>Allocations and Nomad deployments\<close>

record alloc =
  al_id :: string
  al_job_version :: nat
  al_client_status :: string
  al_desired_status :: string
  al_failure :: string
  al_next :: string
  al_followup :: string

record canary_state =
  cs_desired_canaries :: int
  cs_promoted :: bool
  cs_placed_canaries :: nat
  cs_healthy_allocs :: int

record nomad_deployment =
  nd_id :: string
  nd_job_modify_index :: nat
  nd_status :: string
  nd_status_description :: string
  nd_groups :: "(string \<times> canary_state) list"

record job_stub =
  st_id :: string
  st_parent :: string
  st_stop :: bool
  st_meta :: "(string \<times> string) list"

text \<open>The source Nomad keeps with a registered version.\<close>

record submission =
  sub_source :: string
  sub_format :: string
  sub_variables :: string

record register_result =
  rr_eval_id :: string
  rr_warnings :: string

text \<open>The errors the code tells apart, with the text of the error.\<close>

datatype nomad_error =
    JobNotFound string
  | CASConflict string
  | DispatchRefused string
  | NomadFailure string

definition err_text :: "nomad_error \<Rightarrow> string" where
  "err_text e = (case e of JobNotFound m \<Rightarrow> m | CASConflict m \<Rightarrow> m | DispatchRefused m \<Rightarrow> m | NomadFailure m \<Rightarrow> m)"

definition is_not_found :: "nomad_error \<Rightarrow> bool" where
  "is_not_found e = (case e of JobNotFound _ \<Rightarrow> True | _ \<Rightarrow> False)"

section \<open>Libraries\<close>

text \<open>
  \<open>lib_dec\<close> and \<open>lib_enc\<close> are JSON decoding and encoding of a job, \<open>lib_diff_json\<close> the encoding of
  a plan diff and \<open>lib_redacted_json\<close> the one without HTML escaping, \<open>lib_sha\<close> SHA-256 in
  hexadecimal, \<open>lib_fmt\<close> a time in a zone as a person reads it, \<open>lib_dur_text\<close> a duration as text.
\<close>

record libs =
  lib_dur :: "string \<Rightarrow> duration option"
  lib_cron :: "string \<Rightarrow> cron option"
  lib_dec :: "string \<Rightarrow> string + job"
  lib_enc :: "job \<Rightarrow> string + string"
  lib_diff_json :: "job_diff \<Rightarrow> string + string"
  lib_redacted_json :: "job_diff option \<Rightarrow> string + string"
  lib_sha :: "string \<Rightarrow> string"
  lib_fmt :: "string \<Rightarrow> time \<Rightarrow> string"
  lib_dur_text :: "duration \<Rightarrow> string"

abbreviation meta_of :: "libs \<Rightarrow> (string \<times> string) list \<Rightarrow> meta_config" where
  "meta_of L \<equiv> parse (lib_dur L) (lib_cron L)"


section \<open>Samples\<close>

definition sample_job :: job where
  "sample_job = \<lparr>j_id = Some ''api'', j_name = Some ''api'', j_namespace = Some ''default'', j_type = Some ''service'',
     j_meta = [(''nops_managed'', ''true''), (''nops_policy'', ''auto'')], j_modify_index = None, j_version = None,
     j_status = None, j_stop = None, j_update = None,
     j_groups = [Some \<lparr>g_name = Some ''web'', g_count = Some 2, g_scaling = True, g_update = None, g_tasks = []\<rparr>],
     j_is_periodic = False, j_is_parameterized = False, j_parameterized = None, j_rest = []\<rparr>"

definition sample_hook_job :: job where
  "sample_hook_job = sample_job\<lparr>j_id := Some ''migrate-0'', j_type := Some ''batch'',
     j_meta := [(''nops_role'', ''hook'')], j_parameterized := Some ([''nops_commit''], [])\<rparr>"

text \<open>Libraries that know one job, no duration and no cron expression.\<close>

definition sample_libs :: libs where
  "sample_libs = \<lparr>lib_dur = (\<lambda>_. None), lib_cron = (\<lambda>_. None), lib_dec = (\<lambda>_. Inr sample_job),
     lib_enc = (\<lambda>_. Inr ''{}''), lib_diff_json = (\<lambda>_. Inr ''{}''), lib_redacted_json = (\<lambda>_. Inr ''{}''),
     lib_sha = (\<lambda>s. s), lib_fmt = (\<lambda>_ _. []), lib_dur_text = (\<lambda>_. ''1s'')\<rparr>"

end
