(* ===== verification/Redact.thy ===== *)
theory Redact
  imports Nomad
begin

text \<open>
  The redaction of a plan diff (\<open>internal/redact/redact.go\<close>), as a function on the diff tree. The
  JSON round trip of the code is its deep copy and its encoding of the result; both are identities
  on the tree.
\<close>

section \<open>Secret names\<close>

definition Marker :: string where
  "Marker = ''<redacted>''"

definition secretWords :: "string list" where
  "secretWords = [''password'', ''token'', ''secret'', ''auth'', ''credential'', ''privatekey'', ''apikey'']"

text \<open>
  \<open>strings.ToLower\<close>, as far as an ASCII letter can come out of it: the ASCII capitals, the Kelvin
  sign (U+212A) and the dotted capital I (U+0130). Every other character keeps its bytes here; the
  words searched for are ASCII, which makes no difference to them.
\<close>

definition lower_char :: "char \<Rightarrow> char" where
  "lower_char c = (if between CHR ''A'' CHR ''Z'' c then char_of ((of_char c :: nat) + 32) else c)"

fun to_lower :: "string \<Rightarrow> string" where
  "to_lower [] = []"
| "to_lower (c # s) =
     (if c = CHR 0xE2 \<and> prefix [CHR 0x84, CHR 0xAA] s then CHR ''k'' # to_lower (drop 2 s)
      else if c = CHR 0xC4 \<and> prefix [CHR 0xB0] s then CHR ''i'' # to_lower (drop 1 s)
      else lower_char c # to_lower s)"

definition secretName :: "string \<Rightarrow> bool" where
  "secretName name = (let n = filter (\<lambda>c. c \<noteq> CHR ''-'' \<and> c \<noteq> CHR ''_'') (to_lower name) in
     list_ex (\<lambda>w. sublist w n) secretWords)"

definition secretField :: "string \<Rightarrow> bool" where
  "secretField name = (prefix ''Env['' name \<or> name = ''EmbeddedTmpl'' \<or> prefix ''GetterHeaders['' name \<or>
     secretName name)"

definition mask :: "string \<Rightarrow> string" where
  "mask v = (if v = [] then [] else Marker)"

section \<open>Credentials in URLs\<close>

text \<open>
  The regular expression \<open>urlCredentials\<close>: a scheme, its \<open>://\<close>, a user, a colon, a password and an
  at sign. Every run is followed by a character outside its class, so the match at a position is
  unique: its length, and the length of the scheme with the \<open>://\<close>.
\<close>

definition letter :: "char \<Rightarrow> bool" where
  "letter c = (between CHR ''a'' CHR ''z'' c \<or> between CHR ''A'' CHR ''Z'' c)"

definition scheme_char :: "char \<Rightarrow> bool" where
  "scheme_char c = (letter c \<or> between CHR ''0'' CHR ''9'' c \<or> c \<in> set ''+.-'')"

definition space_char :: "char \<Rightarrow> bool" where
  "space_char c = (c \<in> set [CHR 0x09, CHR 0x0A, CHR 0x0C, CHR 0x0D, CHR 0x20])"

definition user_char :: "char \<Rightarrow> bool" where
  "user_char c = (c \<noteq> CHR ''/'' \<and> c \<noteq> CHR ''@'' \<and> c \<noteq> CHR '':'' \<and> \<not> space_char c)"

definition password_char :: "char \<Rightarrow> bool" where
  "password_char c = (c \<noteq> CHR ''/'' \<and> c \<noteq> CHR ''@'' \<and> \<not> space_char c)"

definition match_credentials :: "string \<Rightarrow> (string \<times> string) option" where
  "match_credentials s = (if s = [] \<or> \<not> letter (hd s) then None else
     (let scheme = takeWhile scheme_char s; r1 = dropWhile scheme_char s in
      if \<not> prefix ''://'' r1 then None else
      (let r2 = drop 3 r1; user = takeWhile user_char r2; r3 = dropWhile user_char r2 in
       if user = [] \<or> r3 = [] \<or> hd r3 \<noteq> CHR '':'' then None else
       (let pass = takeWhile password_char (tl r3); r4 = dropWhile password_char (tl r3) in
        if pass = [] \<or> r4 = [] \<or> hd r4 \<noteq> CHR ''@'' then None
        else Some (scheme @ ''://'', tl r4)))))"

lemma match_credentials_shorter: "match_credentials s = Some (p, rest) \<Longrightarrow> length rest < length s"
proof -
  assume m: "match_credentials s = Some (p, rest)"
  define r1 where "r1 = dropWhile scheme_char s"
  define r3 where "r3 = dropWhile user_char (drop 3 r1)"
  define r4 where "r4 = dropWhile password_char (tl r3)"
  from m have "rest = tl r4" "r4 \<noteq> []"
    by (auto simp: match_credentials_def Let_def r1_def r3_def r4_def split: if_splits)
  then have "length rest < length r4" by (cases r4) auto
  also have "length r4 \<le> length (tl r3)" unfolding r4_def by (rule length_dropWhile_le)
  also have "\<dots> \<le> length r3" by simp
  also have "\<dots> \<le> length (drop 3 r1)" unfolding r3_def by (rule length_dropWhile_le)
  also have "\<dots> \<le> length r1" by simp
  also have "\<dots> \<le> length s" unfolding r1_def by (rule length_dropWhile_le)
  finally show ?thesis .
qed

text \<open>\<open>ReplaceAllString\<close>: the leftmost match, then on behind it.\<close>

function replace_credentials :: "string \<Rightarrow> string" where
  "replace_credentials s = (case match_credentials s of
       Some (p, rest) \<Rightarrow> p @ Marker @ ''@'' @ replace_credentials rest
     | None \<Rightarrow> (case s of [] \<Rightarrow> [] | c # cs \<Rightarrow> c # replace_credentials cs))"
  by pat_completeness auto
termination
  by (relation "measure length") (auto dest: match_credentials_shorter)

declare replace_credentials.simps [simp del]

section \<open>The tree\<close>

definition redact_field :: "bool \<Rightarrow> field_diff \<Rightarrow> field_diff" where
  "redact_field all f = (if all \<or> secretField (fd_name f)
     then f\<lparr>fd_old := mask (fd_old f), fd_new := mask (fd_new f)\<rparr>
     else f\<lparr>fd_old := replace_credentials (fd_old f), fd_new := replace_credentials (fd_new f)\<rparr>)"

abbreviation redact_fields :: "bool \<Rightarrow> field_diff option list \<Rightarrow> field_diff option list" where
  "redact_fields all fs \<equiv> map (map_option (redact_field all)) fs"

definition secret_object :: "bool \<Rightarrow> string \<Rightarrow> bool" where
  "secret_object all name = (all \<or> secretName name \<or> name = ''Header'')"

primrec redact_object :: "bool \<Rightarrow> object_diff \<Rightarrow> object_diff" where
  "redact_object all (ObjectDiff ty name fs os) = (let sub = secret_object all name in
     ObjectDiff ty name (redact_fields sub fs) (map (map_option (redact_object sub)) os))"


text \<open>\<open>fields\<close> and \<open>objects\<close> on a diff, a group, a task.\<close>

abbreviation redact_objects :: "bool \<Rightarrow> object_diff option list \<Rightarrow> object_diff option list" where
  "redact_objects all os \<equiv> map (map_option (redact_object all)) os"

definition redact_task :: "task_diff \<Rightarrow> task_diff" where
  "redact_task t = t\<lparr>td_fields := redact_fields False (td_fields t),
     td_objects := redact_objects False (td_objects t)\<rparr>"

definition redact_group :: "group_diff \<Rightarrow> group_diff" where
  "redact_group g = g\<lparr>gd_fields := redact_fields False (gd_fields g),
     gd_objects := redact_objects False (gd_objects g), gd_tasks := map (map_option redact_task) (gd_tasks g)\<rparr>"

definition redact_diff :: "job_diff \<Rightarrow> job_diff" where
  "redact_diff d = d\<lparr>jd_fields := redact_fields False (jd_fields d),
     jd_objects := redact_objects False (jd_objects d), jd_groups := map (map_option redact_group) (jd_groups d)\<rparr>"

text \<open>\<open>redact.Diff\<close>: the JSON of the redacted tree.\<close>

definition Diff :: "libs \<Rightarrow> job_diff option \<Rightarrow> string + string" where
  "Diff L d = lib_redacted_json L (map_option redact_diff d)"

end
