(* ===== verification/RedactProperties.thy ===== *)
theory RedactProperties
  imports Redact
begin

text \<open>
  What the redaction of a plan diff (\<open>Redact\<close>) hides: a specification of the secrets of its own, by
  spelling and by the shape of a URL, and the proof that two diffs are redacted to the same tree exactly
  when they differ in secrets alone.
\<close>

section \<open>What counts as a secret\<close>

text \<open>
  What the redaction is for, said without the code of it. A name holds a secret if one of seven words is
  spelled in it, in any case, with any dashes and underscores in between. \<open>letter_of x y\<close>: \<open>y\<close> is
  the letter \<open>x\<close>, small or capital.
\<close>

definition letter_of :: "char \<Rightarrow> char \<Rightarrow> bool" where
  "letter_of x y = (y = x \<or> between CHR ''A'' CHR ''Z'' y \<and> (of_char x :: nat) = of_char y + 32)"

text \<open>The last two rules are the letters outside of ASCII whose small letter is in it: the Kelvin sign and the dotted capital I.\<close>

inductive spells :: "string \<Rightarrow> string \<Rightarrow> bool" where
  spells_end: "spells [] []"
| spells_skip: "spells w m \<Longrightarrow> c = CHR ''-'' \<or> c = CHR ''_'' \<Longrightarrow> spells w (c # m)"
| spells_letter: "spells w m \<Longrightarrow> letter_of x y \<Longrightarrow> spells (x # w) (y # m)"
| spells_kelvin: "spells w m \<Longrightarrow> spells (CHR ''k'' # w) (CHR 0xE2 # CHR 0x84 # CHR 0xAA # m)"
| spells_dotted: "spells w m \<Longrightarrow> spells (CHR ''i'' # w) (CHR 0xC4 # CHR 0xB0 # m)"

definition names_secret :: "string \<Rightarrow> bool" where
  "names_secret name = (\<exists>w\<in>{''password'', ''token'', ''secret'', ''auth'', ''credential'', ''privatekey'', ''apikey''}.
     \<exists>a m b. name = a @ m @ b \<and> spells w m)"

definition holds_secret :: "string \<Rightarrow> bool" where
  "holds_secret name = ((\<exists>r. name = ''Env['' @ r) \<or> name = ''EmbeddedTmpl'' \<or> (\<exists>r. name = ''GetterHeaders['' @ r) \<or>
     names_secret name)"

text \<open>
  Two texts differ only in the credentials of their URLs: reading along, they have the same characters, or
  both have a scheme, the same, and then each a user and a password, or the marker in their place.
\<close>

definition blank :: "char \<Rightarrow> bool" where
  "blank c = (c \<in> {CHR 0x09, CHR 0x0A, CHR 0x0C, CHR 0x0D, CHR 0x20})"

definition login :: "string \<Rightarrow> bool" where
  "login h = (\<exists>u p. h = u @ '':'' @ p \<and> u \<noteq> [] \<and> p \<noteq> [] \<and>
     (\<forall>c\<in>set u. c \<notin> set ''/@:'' \<and> \<not> blank c) \<and> (\<forall>c\<in>set p. c \<notin> set ''/@'' \<and> \<not> blank c))"

definition credentials :: "string \<Rightarrow> bool" where
  "credentials h = (h = Marker \<or> login h)"

definition scheme :: "string \<Rightarrow> bool" where
  "scheme x = (\<exists>c r. x = c # r \<and> (between CHR ''a'' CHR ''z'' c \<or> between CHR ''A'' CHR ''Z'' c) \<and>
     (\<forall>c\<in>set r. between CHR ''a'' CHR ''z'' c \<or> between CHR ''A'' CHR ''Z'' c \<or> between CHR ''0'' CHR ''9'' c \<or>
       c = CHR ''+'' \<or> c = CHR ''.'' \<or> c = CHR ''-''))"

inductive same_but_credentials :: "string \<Rightarrow> string \<Rightarrow> bool" where
  same_end: "same_but_credentials [] []"
| same_char: "same_but_credentials s t \<Longrightarrow> same_but_credentials (c # s) (c # t)"
| same_url: "same_but_credentials s t \<Longrightarrow> scheme x \<Longrightarrow> credentials h \<Longrightarrow> credentials h' \<Longrightarrow>
    same_but_credentials (x @ ''://'' @ h @ ''@'' @ s) (x @ ''://'' @ h' @ ''@'' @ t)"

section \<open>Secret names\<close>

abbreviation plain_name :: "string \<Rightarrow> string" where
  "plain_name n \<equiv> filter (\<lambda>c. c \<noteq> CHR ''-'' \<and> c \<noteq> CHR ''_'') (to_lower n)"

definition small :: "char \<Rightarrow> bool" where "small c = between CHR ''a'' CHR ''z'' c"

lemma lower_char_id: "\<not> between CHR ''A'' CHR ''Z'' c \<Longrightarrow> lower_char c = c"
  by (auto simp: lower_char_def)

lemma lower_char_small: "small x \<Longrightarrow> lower_char y = x \<longleftrightarrow> letter_of x y"
proof (cases "between CHR ''A'' CHR ''Z'' y")
  case True
  assume x: "small x"
  from True have y: "(of_char y :: nat) \<ge> 65" "(of_char y :: nat) \<le> 90" by (simp_all add: less_eq_char_def)
  then have "(of_char (lower_char y) :: nat) = of_char y + 32" using True by (simp add: lower_char_def)
  then have "lower_char y = x \<longleftrightarrow> (of_char x :: nat) = of_char y + 32" by (metis of_char_eq_iff)
  moreover have "y \<noteq> x" using x y by (auto simp: small_def less_eq_char_def)
  ultimately show ?thesis using True by (auto simp: letter_of_def)
next
  case False
  then show ?thesis by (auto simp: lower_char_id letter_of_def)
qed

lemma small_kept: "small x \<Longrightarrow> x \<noteq> CHR ''-'' \<and> x \<noteq> CHR ''_''"
  by (auto simp: small_def less_eq_char_def)

lemma lower_char_dash: "lower_char c = CHR ''-'' \<or> lower_char c = CHR ''_'' \<longleftrightarrow> c = CHR ''-'' \<or> c = CHR ''_''"
proof (cases "between CHR ''A'' CHR ''Z'' c")
  case True
  then have y: "(of_char c :: nat) \<ge> 65" "(of_char c :: nat) \<le> 90" by (simp_all add: less_eq_char_def)
  then have "(of_char (lower_char c) :: nat) \<ge> 97" "(of_char (lower_char c) :: nat) \<le> 122"
    using True by (simp_all add: lower_char_def)
  then show ?thesis using y by auto
qed (simp add: lower_char_id)

lemma letter_of_plain: "small x \<Longrightarrow> letter_of x y \<Longrightarrow> y \<noteq> CHR 0xE2 \<and> y \<noteq> CHR 0xC4 \<and> y \<notin> {CHR 0x84, CHR 0xAA, CHR 0xB0}"
  by (auto simp: letter_of_def small_def less_eq_char_def)

text \<open>A unit of \<open>to_lower\<close>: the characters of one step, and what they give.\<close>

lemma norm_unit:
  assumes "n \<noteq> []"
  obtains u v where "n = u @ v" "u \<noteq> []" "plain_name n = plain_name u @ plain_name v" "length (plain_name u) \<le> 1"
    "\<forall>w m. spells w m \<and> plain_name u = [] \<longrightarrow> spells w (u @ m)"
    "\<forall>x w m. spells w m \<and> plain_name u = [x] \<and> small x \<longrightarrow> spells (x # w) (u @ m)"
proof -
  obtain c s where n: "n = c # s" using assms by (cases n) auto
  show thesis
  proof (cases "c = CHR 0xE2 \<and> prefix [CHR 0x84, CHR 0xAA] s")
    case True
    then obtain v where "s = CHR 0x84 # CHR 0xAA # v" by (auto simp: prefix_def)
    with True n show thesis
      by (intro that [of "[CHR 0xE2, CHR 0x84, CHR 0xAA]" v]) (auto intro: spells_kelvin)
  next
    case kelvin: False
    show thesis
    proof (cases "c = CHR 0xC4 \<and> prefix [CHR 0xB0] s")
      case True
      then obtain v where "s = CHR 0xB0 # v" by (auto simp: prefix_def)
      with True n show thesis
        by (intro that [of "[CHR 0xC4, CHR 0xB0]" v]) (auto intro: spells_dotted)
    next
      case False
      with kelvin n have split: "plain_name n = plain_name [c] @ plain_name s" by auto
      have one: "plain_name [c] = (if c = CHR ''-'' \<or> c = CHR ''_'' then [] else [lower_char c])"
        using lower_char_dash [of c] by auto
      have skip: "\<forall>w m. spells w m \<and> plain_name [c] = [] \<longrightarrow> spells w ([c] @ m)"
        unfolding one by (auto intro: spells_skip)
      have "small (lower_char c) \<Longrightarrow> letter_of (lower_char c) c" using lower_char_small [of "lower_char c" c] by simp
      then have keep: "\<forall>x w m. spells w m \<and> plain_name [c] = [x] \<and> small x \<longrightarrow> spells (x # w) ([c] @ m)"
        unfolding one by (auto intro: spells_letter)
      from n have "n = [c] @ s" "[c] \<noteq> []" "length (plain_name [c]) \<le> 1" by simp_all
      with split skip keep show thesis by (intro that)
    qed
  qed
qed

lemma spells_prefix: "plain_name n = w @ q \<Longrightarrow> \<forall>c\<in>set w. small c \<Longrightarrow> \<exists>m b. n = m @ b \<and> spells w m"
proof (induction "length n" arbitrary: n w rule: less_induct)
  case less
  show ?case
  proof (cases "w = [] \<or> n = []")
    case True
    with less.prems show ?thesis by (auto intro: spells_end)
  next
    case False
    then have "n \<noteq> []" by simp
    then obtain u v where u: "n = u @ v" "u \<noteq> []" "plain_name n = plain_name u @ plain_name v" "length (plain_name u) \<le> 1"
      "\<forall>w m. spells w m \<and> plain_name u = [] \<longrightarrow> spells w (u @ m)"
      "\<forall>x w m. spells w m \<and> plain_name u = [x] \<and> small x \<longrightarrow> spells (x # w) (u @ m)"
      by (rule norm_unit)
    from u(1,2) have shorter: "length v < length n" by simp
    show ?thesis
    proof (cases "plain_name u")
      case Nil
      with less.hyps [OF shorter _ less.prems(2)] less.prems(1) u(3) obtain m b where "v = m @ b" "spells w m" by auto
      with u(1,5) Nil show ?thesis by (metis append.assoc)
    next
      case (Cons x xs)
      with u(4) have x: "plain_name u = [x]" by simp
      from False obtain y w' where w: "w = y # w'" by (cases w) auto
      from less.prems(1) u(3) x w have "y = x" "plain_name v = w' @ q" by simp_all
      with less.hyps [OF shorter, of w'] less.prems(2) w obtain m b where "v = m @ b" "spells w' m" by auto
      with u(1,6) x w less.prems(2) \<open>y = x\<close> show ?thesis by (metis append.assoc list.set_intros(1))
    qed
  qed
qed

lemma spells_within: "plain_name n = p @ w @ q \<Longrightarrow> \<forall>c\<in>set w. small c \<Longrightarrow> \<exists>a m b. n = a @ m @ b \<and> spells w m"
proof (induction "length n" arbitrary: n p rule: less_induct)
  case less
  show ?case
  proof (cases "p = [] \<or> n = []")
    case True
    then show ?thesis
    proof
      assume "p = []"
      with spells_prefix [OF _ less.prems(2)] less.prems(1) show ?thesis by (metis append_Nil)
    next
      assume "n = []"
      with less.prems spells_end show ?thesis by auto
    qed
  next
    case False
    then have "n \<noteq> []" by simp
    then obtain u v where u: "n = u @ v" "u \<noteq> []" "plain_name n = plain_name u @ plain_name v" "length (plain_name u) \<le> 1"
      by (rule norm_unit)
    from u(1,2) have shorter: "length v < length n" by simp
    have "plain_name v = p @ w @ q \<or> plain_name v = tl p @ w @ q"
      using u(3,4) less.prems(1) False by (cases "plain_name u"; cases p) auto
    then have "\<exists>p'. plain_name v = p' @ w @ q" by blast
    with less.hyps [OF shorter _ less.prems(2)] obtain a m b where "v = a @ m @ b" "spells w m" by blast
    with u(1) show ?thesis by (metis append.assoc)
  qed
qed

lemma spells_norm: "spells w m \<Longrightarrow> \<forall>c\<in>set w. small c \<Longrightarrow> plain_name (m @ b) = w @ plain_name b"
proof (induction rule: spells.induct)
  case (spells_letter w m x y)
  then have "lower_char y = x" "small x" by (simp_all add: lower_char_small)
  with spells_letter letter_of_plain [of x y] small_kept [of x] show ?case by simp
qed (auto simp: lower_char_def)

lemma spells_head: "spells w m \<Longrightarrow> w \<noteq> [] \<Longrightarrow> \<forall>c\<in>set w. small c \<Longrightarrow>
    m \<noteq> [] \<and> hd m \<notin> {CHR 0x84, CHR 0xAA, CHR 0xB0}"
  by (induction rule: spells.induct) (auto dest: letter_of_plain)

lemma to_lower_append: "m \<noteq> [] \<Longrightarrow> hd m \<notin> {CHR 0x84, CHR 0xAA, CHR 0xB0} \<Longrightarrow> to_lower (a @ m) = to_lower a @ to_lower m"
proof (induction a rule: to_lower.induct)
  case (2 c s)
  have "prefix [CHR 0x84, CHR 0xAA] (s @ m) \<longleftrightarrow> prefix [CHR 0x84, CHR 0xAA] s"
    using 2(4,5) by (cases s; cases "tl s"; cases m) auto
  moreover have "prefix [CHR 0xB0] (s @ m) \<longleftrightarrow> prefix [CHR 0xB0] s"
    using 2(4,5) by (cases s; cases m) auto
  moreover have "prefix [CHR 0x84, CHR 0xAA] s \<Longrightarrow> drop 2 (s @ m) = drop 2 s @ m" by (auto simp: prefix_def)
  moreover have "prefix [CHR 0xB0] s \<Longrightarrow> drop 1 (s @ m) = drop 1 s @ m" by (auto simp: prefix_def)
  ultimately show ?case using 2 by (simp del: prefix_Cons) 
qed simp

lemma spelled_sublist:
  assumes "w \<noteq> []" "\<forall>c\<in>set w. small c"
  shows "sublist w (plain_name n) \<longleftrightarrow> (\<exists>a m b. n = a @ m @ b \<and> spells w m)"
proof
  assume "sublist w (plain_name n)"
  then show "\<exists>a m b. n = a @ m @ b \<and> spells w m" using spells_within [OF _ assms(2)] by (auto simp: sublist_def)
next
  assume "\<exists>a m b. n = a @ m @ b \<and> spells w m"
  then obtain a m b where n: "n = a @ m @ b" "spells w m" by blast
  from spells_head [OF n(2) assms] have "to_lower n = to_lower a @ to_lower (m @ b)"
    unfolding n(1) by (intro to_lower_append) auto
  with spells_norm [OF n(2) assms(2), of b] show "sublist w (plain_name n)" by (auto simp: sublist_def)
qed

lemma secretName_names: "secretName name = names_secret name"
proof -
  have w: "\<forall>w\<in>set secretWords. w \<noteq> [] \<and> (\<forall>c\<in>set w. small c)"
    by (simp add: secretWords_def small_def less_eq_char_def)
  have "secretName name \<longleftrightarrow> (\<exists>w\<in>set secretWords. sublist w (plain_name name))"
    by (simp add: secretName_def Let_def list_ex_iff)
  also have "\<dots> \<longleftrightarrow> (\<exists>w\<in>set secretWords. \<exists>a m b. name = a @ m @ b \<and> spells w m)"
    using w spelled_sublist by meson
  finally show ?thesis by (simp add: names_secret_def secretWords_def)
qed

lemma secretField_holds: "secretField name = holds_secret name"
  by (auto simp: secretField_def holds_secret_def secretName_names prefix_def)

section \<open>Credentials in URLs\<close>

lemma user_char_iff: "user_char c \<longleftrightarrow> c \<notin> set ''/@:'' \<and> \<not> blank c"
  by (auto simp: user_char_def space_char_def blank_def)

lemma password_char_iff: "password_char c \<longleftrightarrow> c \<notin> set ''/@'' \<and> \<not> blank c"
  by (auto simp: password_char_def space_char_def blank_def)

lemma scheme_chars: "scheme x \<longleftrightarrow> (\<exists>c r. x = c # r \<and> letter c) \<and> (\<forall>c\<in>set x. scheme_char c)"
  by (auto simp: scheme_def scheme_char_def letter_def)

lemma marks_not_scheme: "\<not> scheme_char CHR '':''" "\<not> scheme_char CHR ''/''" "\<not> scheme_char CHR ''@''"
  "\<not> letter CHR '':''" "\<not> letter CHR ''/''" "\<not> letter CHR ''@''"
  by (simp_all add: scheme_char_def letter_def less_eq_char_def)

lemma match_form:
  assumes "match_credentials s = Some (p, rest)"
  obtains x h where "s = x @ ''://'' @ h @ ''@'' @ rest" "p = x @ ''://''" "scheme x" "login h"
proof -
  define x where "x = takeWhile scheme_char s"
  define r1 where "r1 = dropWhile scheme_char s"
  define u where "u = takeWhile user_char (drop 3 r1)"
  define r3 where "r3 = dropWhile user_char (drop 3 r1)"
  define pw where "pw = takeWhile password_char (tl r3)"
  define r4 where "r4 = dropWhile password_char (tl r3)"
  from assms have m: "s \<noteq> []" "letter (hd s)" "prefix ''://'' r1" "u \<noteq> []" "r3 \<noteq> []" "hd r3 = CHR '':''" "pw \<noteq> []" "r4 \<noteq> []"
    "hd r4 = CHR ''@''" "p = x @ ''://''" "rest = tl r4"
    by (auto simp: match_credentials_def Let_def x_def r1_def u_def r3_def pw_def r4_def split: if_splits)
  have "r4 = ''@'' @ rest" using m by (cases r4) auto
  moreover have "tl r3 = pw @ r4" by (simp add: pw_def r4_def)
  moreover have "r3 = CHR '':'' # tl r3" using m by (cases r3) auto
  moreover have "drop 3 r1 = u @ r3" by (simp add: u_def r3_def)
  moreover have "r1 = ''://'' @ drop 3 r1" using m(3) by (auto simp: prefix_def)
  moreover have "s = x @ r1" by (simp add: x_def r1_def)
  ultimately have "s = x @ ''://'' @ (u @ '':'' @ pw) @ ''@'' @ rest" by simp
  moreover have "\<forall>c\<in>set u. user_char c" "\<forall>c\<in>set pw. password_char c"
    by (auto simp: u_def pw_def dest: set_takeWhileD)
  with m(4,7) have "login (u @ '':'' @ pw)"
    unfolding login_def user_char_iff password_char_iff by blast
  moreover have "scheme x"
    unfolding scheme_chars using m(1,2)
    by (cases s) (auto simp: x_def scheme_char_def dest: set_takeWhileD)
  ultimately show thesis using that m(10) by blast
qed

lemma take_scheme:
  "\<forall>c\<in>set x. scheme_char c \<Longrightarrow> takeWhile scheme_char (x @ ''://'' @ r) = x"
  "\<forall>c\<in>set x. scheme_char c \<Longrightarrow> dropWhile scheme_char (x @ ''://'' @ r) = ''://'' @ r"
  by (simp_all add: takeWhile_append2 dropWhile_append2 marks_not_scheme)

lemma match_of:
  assumes "scheme x" "login h"
  shows "match_credentials (x @ ''://'' @ h @ ''@'' @ rest) = Some (x @ ''://'', rest)"
proof -
  obtain u pw where h: "h = u @ '':'' @ pw" "u \<noteq> []" "pw \<noteq> []" "\<forall>c\<in>set u. user_char c" "\<forall>c\<in>set pw. password_char c"
    using assms(2) by (auto simp: login_def user_char_iff password_char_iff)
  have x: "\<forall>c\<in>set x. scheme_char c" "x \<noteq> []" "letter (hd x)" using assms(1) by (auto simp: scheme_chars)
  have ends: "\<not> user_char CHR '':''" "\<not> user_char CHR ''@''" "\<not> password_char CHR ''@''" by (simp_all add: user_char_def password_char_def)
  have "takeWhile user_char (h @ ''@'' @ rest) = u" "dropWhile user_char (h @ ''@'' @ rest) = '':'' @ pw @ ''@'' @ rest"
    using h(4) ends by (simp_all add: h(1) takeWhile_append2 dropWhile_append2)
  moreover have "takeWhile password_char (pw @ ''@'' @ rest) = pw" "dropWhile password_char (pw @ ''@'' @ rest) = ''@'' @ rest"
    using h(5) ends by (simp_all add: takeWhile_append2 dropWhile_append2)
  ultimately show ?thesis
    unfolding match_credentials_def take_scheme [OF x(1)] using h(2,3) x(2,3) ends by (simp add: Let_def)
qed

lemma replace_skip: "match_credentials (c # s) = None \<Longrightarrow> replace_credentials (c # s) = c # replace_credentials s"
  by (subst replace_credentials.simps) simp

lemma replace_Nil [simp]: "replace_credentials [] = []"
  by (subst replace_credentials.simps) (simp add: match_credentials_def)

lemma no_match_letter: "\<not> letter c \<Longrightarrow> match_credentials (c # s) = None"
  by (simp add: match_credentials_def)

lemma word_stops: "CHR '':'' \<notin> set w \<Longrightarrow> \<not> prefix ''://'' (dropWhile scheme_char (w @ CHR ''@'' # r))"
  by (induction w) (auto simp: marks_not_scheme)

lemma replace_word: "CHR '':'' \<notin> set w \<Longrightarrow> replace_credentials (w @ CHR ''@'' # r) = w @ CHR ''@'' # replace_credentials r"
proof (induction w)
  case Nil
  then show ?case by (simp add: replace_skip no_match_letter marks_not_scheme)
next
  case (Cons c w)
  have "match_credentials ((c # w) @ CHR ''@'' # r) = None"
    using word_stops [OF Cons.prems, of r] by (auto simp: match_credentials_def Let_def simp del: dropWhile.simps)
  with Cons show ?case by (simp add: replace_skip)
qed

lemma marker_plain: "CHR '':'' \<notin> set Marker" "CHR ''@'' \<notin> set Marker" "CHR ''/'' \<notin> set Marker" "\<forall>c\<in>set Marker. user_char c"
  by (simp_all add: Marker_def user_char_def space_char_def)

lemma replace_marker:
  "\<forall>c\<in>set x. scheme_char c \<Longrightarrow>
     replace_credentials (x @ ''://'' @ Marker @ ''@'' @ r) = x @ ''://'' @ Marker @ ''@'' @ replace_credentials r"
proof (induction x)
  case Nil
  show ?case
    using replace_word [OF marker_plain(1), of r] by (simp add: replace_skip no_match_letter marks_not_scheme)
next
  case (Cons c x)
  have "takeWhile user_char (Marker @ ''@'' @ r) = Marker" "dropWhile user_char (Marker @ ''@'' @ r) = ''@'' @ r"
    using marker_plain(4) by (simp_all add: takeWhile_append2 dropWhile_append2 user_char_def)
  then have "match_credentials ((c # x) @ ''://'' @ Marker @ ''@'' @ r) = None"
    unfolding match_credentials_def take_scheme [OF Cons.prems] by (simp add: Let_def)
  with Cons show ?case by (simp add: replace_skip)
qed

lemma replace_url:
  assumes "scheme x" "credentials h"
  shows "replace_credentials (x @ ''://'' @ h @ ''@'' @ r) = x @ ''://'' @ Marker @ ''@'' @ replace_credentials r"
proof (cases "login h")
  case True
  then show ?thesis by (subst replace_credentials.simps) (simp only: match_of [OF assms(1)] option.case prod.case append.assoc)
next
  case False
  with assms show ?thesis using replace_marker [of x r] by (auto simp: credentials_def scheme_chars)
qed

section \<open>The same but for the credentials\<close>

lemma same_sym: "same_but_credentials s t \<Longrightarrow> same_but_credentials t s"
  by (induction rule: same_but_credentials.induct) (blast intro: same_but_credentials.intros)+

lemma credentials_plain: "credentials h \<Longrightarrow> CHR ''@'' \<notin> set h \<and> CHR ''/'' \<notin> set h"
proof (cases "h = Marker")
  case False
  moreover assume "credentials h"
  ultimately obtain u p where "h = u @ '':'' @ p" "\<forall>c\<in>set u. c \<notin> set ''/@:''" "\<forall>c\<in>set p. c \<notin> set ''/@''"
    unfolding credentials_def login_def by blast
  then show ?thesis by auto
qed (simp add: marker_plain)

lemma scheme_plain: "\<forall>c\<in>set x. scheme_char c \<Longrightarrow> CHR ''@'' \<notin> set x \<and> CHR ''/'' \<notin> set x"
  using marks_not_scheme by blast

lemma same_region:
  "same_but_credentials (y @ CHR ''@'' # r) t \<Longrightarrow> CHR ''@'' \<notin> set y \<and> CHR ''/'' \<notin> set y \<Longrightarrow>
     \<exists>r'. t = y @ CHR ''@'' # r' \<and> same_but_credentials r r'"
proof (induction y arbitrary: t)
  case Nil
  from Nil.prems(1) show ?case
    by (cases rule: same_but_credentials.cases) (auto simp: scheme_chars marks_not_scheme)
next
  case (Cons c y)
  from Cons.prems(1) show ?case
  proof (cases rule: same_but_credentials.cases)
    case (same_char s t' c')
    with Cons show ?thesis by auto
  next
    case (same_url s t' x h h')
    let ?D = "dropWhile (\<lambda>c. c \<noteq> CHR ''@'' \<and> c \<noteq> CHR ''/'')"
    have a: "?D ((c # y) @ CHR ''@'' # r) = CHR ''@'' # r" using Cons.prems(2) by (subst dropWhile_append2) auto
    have "CHR ''@'' \<notin> set x \<and> CHR ''/'' \<notin> set x" using same_url scheme_plain by (auto simp: scheme_chars)
    then have "?D (x @ ''://'' @ h @ ''@'' @ s) = ''//'' @ h @ ''@'' @ s" by (subst dropWhile_append2) auto
    with a have "CHR ''@'' # r = ''//'' @ h @ ''@'' @ s" unfolding same_url(1) by (rule trans [OF sym])
    then show ?thesis by simp
  qed simp
qed

lemma same_url_inv:
  "same_but_credentials (x @ ''://'' @ h @ ''@'' @ r) t \<Longrightarrow> \<forall>c\<in>set x. scheme_char c \<Longrightarrow> credentials h \<Longrightarrow>
     \<exists>h' r'. t = x @ ''://'' @ h' @ ''@'' @ r' \<and> credentials h' \<and> same_but_credentials r r'"
proof (induction x arbitrary: t)
  case Nil
  have step: "\<exists>t'. t = c # t' \<and> same_but_credentials s t'" if "same_but_credentials (c # s) t" "\<not> letter c" for c s t
    using that by (cases rule: same_but_credentials.cases) (auto simp: scheme_chars)
  from Nil.prems(1) have "same_but_credentials (CHR '':'' # CHR ''/'' # CHR ''/'' # h @ CHR ''@'' # r) t" by simp
  from step [OF this] obtain t1 where t1: "t = CHR '':'' # t1" "same_but_credentials (CHR ''/'' # CHR ''/'' # h @ CHR ''@'' # r) t1"
    by (auto simp: marks_not_scheme)
  from step [OF t1(2)] obtain t2 where t2: "t1 = CHR ''/'' # t2" "same_but_credentials (CHR ''/'' # h @ CHR ''@'' # r) t2"
    by (auto simp: marks_not_scheme)
  from step [OF t2(2)] obtain t3 where t3: "t2 = CHR ''/'' # t3" "same_but_credentials (h @ CHR ''@'' # r) t3"
    by (auto simp: marks_not_scheme)
  from same_region [OF t3(2) credentials_plain [OF Nil.prems(3)]] t1 t2 t3 Nil.prems(3) show ?case by auto
next
  case (Cons c x)
  from Cons.prems(1) show ?case
  proof (cases rule: same_but_credentials.cases)
    case (same_char s t' c')
    with Cons show ?thesis by auto
  next
    case (same_url s t' x2 h2 h')
    have "takeWhile scheme_char ((c # x) @ ''://'' @ h @ ''@'' @ r) = takeWhile scheme_char (x2 @ ''://'' @ h2 @ ''@'' @ s)"
      using same_url(1) by simp
    then have x: "x2 = c # x"
      using take_scheme(1) [OF Cons.prems(2)] take_scheme(1) [of x2] same_url by (simp add: scheme_chars)
    with same_url(1) have eq: "h @ CHR ''@'' # r = h2 @ CHR ''@'' # s" by simp
    have "h = takeWhile (\<lambda>c. c \<noteq> CHR ''@'') (h @ CHR ''@'' # r)" using credentials_plain [OF Cons.prems(3)]
      by (subst takeWhile_append2) auto
    moreover have "h2 = takeWhile (\<lambda>c. c \<noteq> CHR ''@'') (h2 @ CHR ''@'' # s)" using credentials_plain [of h2] same_url
      by (subst takeWhile_append2) auto
    ultimately have "h2 = h" using eq by simp
    with eq x same_url show ?thesis by auto
  qed simp
qed

definition has_url :: "string \<Rightarrow> bool" where
  "has_url s = (\<exists>x h r. s = x @ ''://'' @ h @ ''@'' @ r \<and> scheme x \<and> credentials h)"

lemma no_url_no_match: "\<not> has_url s \<Longrightarrow> match_credentials s = None"
  by (metis credentials_def has_url_def match_form not_Some_eq surj_pair)

lemma same_redacted: "same_but_credentials s t \<Longrightarrow> replace_credentials s = replace_credentials t"
proof (induction "length s" arbitrary: s t rule: less_induct)
  case less
  show ?case
  proof (cases "has_url s")
    case True
    then obtain x h r where s: "s = x @ ''://'' @ h @ ''@'' @ r" "scheme x" "credentials h" by (auto simp: has_url_def)
    with less.prems same_url_inv [of x h r t] obtain h' r' where
      t: "t = x @ ''://'' @ h' @ ''@'' @ r'" "credentials h'" "same_but_credentials r r'" by (auto simp: scheme_chars)
    have "replace_credentials r = replace_credentials r'" by (rule less.hyps [OF _ t(3)]) (simp add: s(1))
    then show ?thesis unfolding s(1) t(1) by (simp only: replace_url [OF s(2,3)] replace_url [OF s(2) t(2)])
  next
    case False
    have t: "\<not> has_url t"
      using False same_sym [OF less.prems] same_url_inv by (metis has_url_def scheme_chars)
    from less.prems show ?thesis
    proof (cases rule: same_but_credentials.cases)
      case (same_char s' t' c)
      then have "replace_credentials s' = replace_credentials t'" by (intro less.hyps) simp_all
      with same_char False t show ?thesis using no_url_no_match by (simp add: replace_skip)
    next
      case (same_url s' t' x h h')
      with False show ?thesis by (auto simp: has_url_def)
    qed simp
  qed
qed

section \<open>Redacted to the same text\<close>

lemma replace_head:
  assumes "replace_credentials t = y # z" "\<not> (letter y \<and> prefix ''://'' (dropWhile scheme_char (y # z)))"
  shows "\<exists>t'. t = y # t' \<and> replace_credentials t' = z"
proof (cases "match_credentials t")
  case None
  with assms(1) show ?thesis by (cases t) (auto simp: replace_skip)
next
  case (Some pr)
  then obtain p r where "match_credentials t = Some (p, r)" by (cases pr) auto
  then obtain x h where t: "t = x @ ''://'' @ h @ ''@'' @ r" "scheme x" "login h" by (rule match_form)
  then have eq: "y # z = x @ ''://'' @ Marker @ ''@'' @ replace_credentials r"
    using assms(1) replace_url [of x h r] by (simp add: credentials_def)
  moreover have x: "\<forall>c\<in>set x. scheme_char c" "\<exists>c r. x = c # r \<and> letter c" using t(2) by (auto simp: scheme_chars)
  ultimately have "letter y" "dropWhile scheme_char (y # z) = ''://'' @ Marker @ ''@'' @ replace_credentials r"
    using take_scheme(2) [OF x(1)] by auto
  with assms(2) show ?thesis by simp
qed

lemma replace_word_inv:
  "replace_credentials t = w @ CHR ''@'' # z \<Longrightarrow> CHR '':'' \<notin> set w \<Longrightarrow>
     \<exists>t'. t = w @ CHR ''@'' # t' \<and> replace_credentials t' = z"
proof (induction w arbitrary: t)
  case Nil
  then show ?case using replace_head [of t "CHR ''@''" z] by (simp add: marks_not_scheme)
next
  case (Cons c w)
  have "\<not> prefix ''://'' (dropWhile scheme_char (c # w @ CHR ''@'' # z))" using word_stops [OF Cons.prems(2), of z] by simp
  with replace_head [of t c "w @ CHR ''@'' # z"] Cons.prems(1) obtain t1 where
    "t = c # t1" "replace_credentials t1 = w @ CHR ''@'' # z" by auto
  with Cons.IH [of t1] Cons.prems(2) show ?case by auto
qed

definition no_login :: "string \<Rightarrow> bool" where
  "no_login t = (\<not> (\<exists>x h r. (\<forall>c\<in>set x. scheme_char c) \<and> t = x @ ''://'' @ h @ ''@'' @ r \<and> login h))"

lemma no_login_match: "no_login t \<Longrightarrow> match_credentials t = None"
  by (metis no_login_def match_form not_Some_eq scheme_chars surj_pair)

lemma no_login_tail: "no_login (c # t) \<Longrightarrow> scheme_char c \<Longrightarrow> no_login t"
  unfolding no_login_def by (metis append_Cons set_ConsD)

lemma marker_url_inv:
  "no_login t \<Longrightarrow> \<forall>c\<in>set x. scheme_char c \<Longrightarrow> replace_credentials t = x @ ''://'' @ Marker @ ''@'' @ z \<Longrightarrow>
     \<exists>r. t = x @ ''://'' @ Marker @ ''@'' @ r \<and> replace_credentials r = z"
proof (induction x arbitrary: t)
  case Nil
  have step: "\<exists>t'. t = c # t' \<and> replace_credentials t' = s" if "replace_credentials t = c # s" "\<not> letter c" for t c s
    using replace_head [OF that(1)] that(2) by blast
  from Nil.prems(3) have "replace_credentials t = CHR '':'' # CHR ''/'' # CHR ''/'' # Marker @ CHR ''@'' # z" by simp
  from step [OF this] obtain t1 where t1: "t = CHR '':'' # t1" "replace_credentials t1 = CHR ''/'' # CHR ''/'' # Marker @ CHR ''@'' # z"
    by (auto simp: marks_not_scheme)
  from step [OF t1(2)] obtain t2 where t2: "t1 = CHR ''/'' # t2" "replace_credentials t2 = CHR ''/'' # Marker @ CHR ''@'' # z"
    by (auto simp: marks_not_scheme)
  from step [OF t2(2)] obtain t3 where t3: "t2 = CHR ''/'' # t3" "replace_credentials t3 = Marker @ CHR ''@'' # z"
    by (auto simp: marks_not_scheme)
  from replace_word_inv [OF t3(2) marker_plain(1)] t1 t2 t3 show ?case by auto
next
  case (Cons c x)
  from Cons.prems(3) obtain t' where t: "t = c # t'" "replace_credentials t' = x @ ''://'' @ Marker @ ''@'' @ z"
    using no_login_match [OF Cons.prems(1)] by (cases t) (auto simp: replace_skip)
  with Cons.IH [of t'] Cons.prems(1,2) no_login_tail [of c t'] show ?case by auto
qed

lemma replace_url_inv:
  assumes "replace_credentials t = x @ ''://'' @ Marker @ ''@'' @ z" "scheme x"
  shows "\<exists>h r. t = x @ ''://'' @ h @ ''@'' @ r \<and> credentials h \<and> replace_credentials r = z"
proof (cases "match_credentials t")
  case None
  obtain c x' where x: "x = c # x'" "letter c" "\<forall>c\<in>set x. scheme_char c" using assms(2) by (auto simp: scheme_chars)
  obtain t' where t: "t = c # t'" using assms(1) x(1) None by (cases t) (auto simp: replace_skip)
  have "no_login t"
    unfolding no_login_def
  proof
    assume "\<exists>x h r. (\<forall>c\<in>set x. scheme_char c) \<and> t = x @ ''://'' @ h @ ''@'' @ r \<and> login h"
    then obtain x3 h r where t3: "\<forall>c\<in>set x3. scheme_char c" "t = x3 @ ''://'' @ h @ ''@'' @ r" "login h" by blast
    then have "scheme x3" using t x(2) marks_not_scheme by (cases x3) (auto simp: scheme_chars)
    with t3 match_of [of x3 h r] None show False by simp
  qed
  from marker_url_inv [OF this x(3) assms(1)] show ?thesis by (auto simp: credentials_def)
next
  case (Some pr)
  then obtain p r where "match_credentials t = Some (p, r)" by (cases pr) auto
  then obtain x2 h where t: "t = x2 @ ''://'' @ h @ ''@'' @ r" "scheme x2" "login h" by (rule match_form)
  then have eq: "x2 @ ''://'' @ Marker @ ''@'' @ replace_credentials r = x @ ''://'' @ Marker @ ''@'' @ z"
    using assms(1) replace_url [of x2 h r] by (simp add: credentials_def)
  then have "x2 = x" using take_scheme(1) [of x2] take_scheme(1) [of x] t(2) assms(2) by (metis scheme_chars)
  with eq t show ?thesis by (auto simp: credentials_def)
qed

lemma redacted_same: "replace_credentials s = replace_credentials t \<Longrightarrow> same_but_credentials s t"
proof (induction "length s" arbitrary: s t rule: less_induct)
  case less
  show ?case
  proof (cases "has_url s")
    case True
    then obtain x h r where s: "s = x @ ''://'' @ h @ ''@'' @ r" "scheme x" "credentials h" by (auto simp: has_url_def)
    then have "replace_credentials t = x @ ''://'' @ Marker @ ''@'' @ replace_credentials r"
      using less.prems replace_url [of x h r] by simp
    from replace_url_inv [OF this s(2)] obtain h' r' where
      t: "t = x @ ''://'' @ h' @ ''@'' @ r'" "credentials h'" "replace_credentials r' = replace_credentials r" by blast
    have "same_but_credentials r r'" by (rule less.hyps) (simp_all add: s(1) t(3))
    from same_url [OF this s(2,3) t(2)] show ?thesis by (simp only: s(1) t(1))
  next
    case False
    have t: "\<not> has_url t"
    proof
      assume "has_url t"
      then obtain x h r where "t = x @ ''://'' @ h @ ''@'' @ r" "scheme x" "credentials h" by (auto simp: has_url_def)
      with less.prems replace_url [of x h r] have "replace_credentials s = x @ ''://'' @ Marker @ ''@'' @ replace_credentials r" by simp
      from replace_url_inv [OF this \<open>scheme x\<close>] False \<open>scheme x\<close> show False by (auto simp: has_url_def)
    qed
    show ?thesis
    proof (cases s)
      case Nil
      with less.prems no_url_no_match [OF t] same_end show ?thesis by (cases t) (auto simp: replace_skip)
    next
      case (Cons c s')
      with less.prems no_url_no_match [OF t] no_url_no_match [OF False] obtain t' where
        "t = c # t'" "replace_credentials s' = replace_credentials t'" by (cases t) (auto simp: replace_skip)
      with Cons less.hyps [of s' t'] same_char show ?thesis by simp
    qed
  qed
qed

lemma same_redacted_iff: "replace_credentials s = replace_credentials t \<longleftrightarrow> same_but_credentials s t"
  using same_redacted redacted_same by blast

section \<open>What the redaction hides\<close>

text \<open>
  Two fields look alike to a reader of the redacted diff: their values are both empty or both not for one
  that holds a secret, and the same but for the credentials of their URLs for the others.
\<close>

definition alike :: "bool \<Rightarrow> field_diff \<Rightarrow> field_diff \<Rightarrow> bool" where
  "alike all f g = (fd_type f = fd_type g \<and> fd_name f = fd_name g \<and> fd_annotations f = fd_annotations g \<and>
     (if all \<or> holds_secret (fd_name f)
      then (fd_old f = [] \<longleftrightarrow> fd_old g = []) \<and> (fd_new f = [] \<longleftrightarrow> fd_new g = [])
      else same_but_credentials (fd_old f) (fd_old g) \<and> same_but_credentials (fd_new f) (fd_new g)))"

abbreviation alike_fields :: "bool \<Rightarrow> field_diff option list \<Rightarrow> field_diff option list \<Rightarrow> bool" where
  "alike_fields all \<equiv> list_all2 (rel_option (alike all))"

fun alike_object :: "bool \<Rightarrow> object_diff \<Rightarrow> object_diff \<Rightarrow> bool"
  and alike_objects :: "bool \<Rightarrow> object_diff option list \<Rightarrow> object_diff option list \<Rightarrow> bool" where
  "alike_object all (ObjectDiff ty name fs os) (ObjectDiff ty' name' fs' os') =
     (ty = ty' \<and> name = name' \<and> alike_fields (all \<or> names_secret name \<or> name = ''Header'') fs fs' \<and>
      alike_objects (all \<or> names_secret name \<or> name = ''Header'') os os')"
| "alike_objects all [] [] = True"
| "alike_objects all (None # os) (None # os') = alike_objects all os os'"
| "alike_objects all (Some a # os) (Some b # os') = (alike_object all a b \<and> alike_objects all os os')"
| "alike_objects all _ _ = False"

definition alike_task :: "task_diff \<Rightarrow> task_diff \<Rightarrow> bool" where
  "alike_task t u = (td_type t = td_type u \<and> td_name t = td_name u \<and> td_annotations t = td_annotations u \<and>
     alike_fields False (td_fields t) (td_fields u) \<and> alike_objects False (td_objects t) (td_objects u))"

definition alike_group :: "group_diff \<Rightarrow> group_diff \<Rightarrow> bool" where
  "alike_group g h = (gd_type g = gd_type h \<and> gd_name g = gd_name h \<and> gd_updates g = gd_updates h \<and>
     alike_fields False (gd_fields g) (gd_fields h) \<and> alike_objects False (gd_objects g) (gd_objects h) \<and>
     list_all2 (rel_option alike_task) (gd_tasks g) (gd_tasks h))"

definition alike_diff :: "job_diff \<Rightarrow> job_diff \<Rightarrow> bool" where
  "alike_diff d e = (jd_type d = jd_type e \<and> jd_id d = jd_id e \<and>
     alike_fields False (jd_fields d) (jd_fields e) \<and> alike_objects False (jd_objects d) (jd_objects e) \<and>
     list_all2 (rel_option alike_group) (jd_groups d) (jd_groups e))"

lemma redact_field_alike: "redact_field all f = redact_field all g \<longleftrightarrow> alike all f g"
  by (cases f; cases g)
    (auto simp: redact_field_def alike_def mask_def Marker_def secretField_holds same_redacted_iff)

lemma map_eq_list_all2: "map f xs = map f ys \<longleftrightarrow> list_all2 (\<lambda>x y. f x = f y) xs ys"
  by (auto simp: list_all2_conv_all_nth list_eq_iff_nth_eq)

lemma map_option_eq_rel: "map_option f x = map_option f y \<longleftrightarrow> rel_option (\<lambda>x y. f x = f y) x y"
  by (cases x; cases y) auto

lemma redact_fields_alike: "redact_fields all fs = redact_fields all gs \<longleftrightarrow> alike_fields all fs gs"
  by (simp add: map_eq_list_all2 map_option_eq_rel redact_field_alike)

lemma redact_object_alike:
  "redact_object all a = redact_object all b \<longleftrightarrow> alike_object all a b"
  "redact_objects all os = redact_objects all os' \<longleftrightarrow> alike_objects all os os'"
proof (induction all a b and all os os' rule: alike_object_alike_objects.induct)
  case (1 all ty name fs os ty' name' fs' os')
  then show ?case by (auto simp: Let_def redact_fields_alike secret_object_def secretName_names)
qed auto

text \<open>
  Claim C14. The redaction hides exactly the secrets, with what a secret is said apart from the code: two diffs have
  the same redacted tree, hence the same stored JSON, exactly when they agree in everything but the values
  of the fields that hold a secret (an environment variable, a template, a header, a name with one of the
  words spelled in it, or anything below an object of such a name), of which only being empty shows, and
  the users and passwords of URLs.
\<close>

theorem redact_noninterference:
  "redact_diff d = redact_diff e \<longleftrightarrow> alike_diff d e"
proof -
  have task: "redact_task t = redact_task u \<longleftrightarrow> alike_task t u" for t u
    by (cases t; cases u)
      (auto simp: redact_task_def alike_task_def redact_fields_alike redact_object_alike)
  have tasks: "map (map_option redact_task) ts = map (map_option redact_task) us \<longleftrightarrow>
      list_all2 (rel_option alike_task) ts us" for ts us
    by (simp add: map_eq_list_all2 map_option_eq_rel task)
  have group: "redact_group g = redact_group h \<longleftrightarrow> alike_group g h" for g h
    by (cases g; cases h)
      (auto simp: redact_group_def alike_group_def redact_fields_alike redact_object_alike tasks)
  have groups: "map (map_option redact_group) gs = map (map_option redact_group) hs \<longleftrightarrow>
      list_all2 (rel_option alike_group) gs hs" for gs hs
    by (simp add: map_eq_list_all2 map_option_eq_rel group)
  show ?thesis
    by (cases d; cases e)
      (auto simp: redact_diff_def alike_diff_def redact_fields_alike redact_object_alike groups)
qed

end
