(* ===== verification/Runner.thy ===== *)
theory Runner
  imports Nomad HookRunStore PauseStore
begin

text \<open>
  The hook runner (\<open>internal/hooks\<close>): the meta a hook is dispatched with, the outcome read from
  the dispatched job, and \<open>Run\<close>, which drives one hook to a terminal state.

  What happens around a run is its argument: what Nomad answers, the times of the clock, which
  calls of the store fail, and one entry per poll of the waiting loop. The loop ends with the
  entries: a run whose entries are used up is one whose context was cancelled while it waited.
\<close>

section \<open>Dispatch meta\<close>

text \<open>
  Every character of a name that is not an ASCII letter or digit becomes one underscore. The bytes
  0x80 to 0xBF continue the character before them (names are UTF-8).
\<close>

definition alnum :: "char \<Rightarrow> bool" where
  "alnum c = (between CHR ''a'' CHR ''z'' c \<or> between CHR ''A'' CHR ''Z'' c \<or>
     between CHR ''0'' CHR ''9'' c)"

definition sanitize :: "string \<Rightarrow> string" where
  "sanitize s = map (\<lambda>c. if alnum c then c else CHR ''_'')
     (filter (\<lambda>c. \<not> (CHR 0x80 \<le> c \<and> c \<le> CHR 0xBF)) s)"

text \<open>A Go map built by assignments, as the list of its entries.\<close>

definition put :: "'k \<Rightarrow> 'v \<Rightarrow> ('k \<times> 'v) list \<Rightarrow> ('k \<times> 'v) list" where
  "put k v m = filter (\<lambda>e. fst e \<noteq> k) m @ [(k, v)]"

lemma map_of_put [simp]: "map_of (put k v m) = (map_of m)(k \<mapsto> v)"
proof
  fix x
  have "map_of (filter (\<lambda>e. fst e \<noteq> k) m) x = (if x = k then None else map_of m x)"
    by (induction m) auto
  then show "map_of (put k v m) x = ((map_of m)(k \<mapsto> v)) x"
    by (simp add: put_def map_add_def split: option.splits)
qed

definition docker_image :: "task \<Rightarrow> string option" where
  "docker_image t = (if t_driver t \<noteq> ''docker'' then None
     else (case t_image t of None \<Rightarrow> None | Some i \<Rightarrow> if i = [] then None else Some i))"

definition image_key :: "task \<Rightarrow> string" where
  "image_key t = ''nops_image_'' @ sanitize (t_name t)"

fun add_images :: "string \<Rightarrow> task option list \<Rightarrow> (string \<times> string) list \<times> (string \<times> string) list \<Rightarrow>
    string + (string \<times> string) list \<times> (string \<times> string) list" where
  "add_images g [] acc = Inr acc"
| "add_images g (None # ts) acc = add_images g ts acc"
| "add_images g (Some t # ts) (m, owner) = (case docker_image t of
       None \<Rightarrow> add_images g ts (m, owner)
     | Some img \<Rightarrow>
         (let key = image_key t; whr = g @ ''/'' @ t_name t in
          case map_of m key of
            Some prev \<Rightarrow> if prev \<noteq> img
              then Inl (''build hook meta: tasks '' @ (case map_of owner key of None \<Rightarrow> [] | Some w \<Rightarrow> w) @ '' and '' @
                whr @ '' both map to '' @ key @ '' but use different images ('' @ go_quote prev @ '', '' @ go_quote img @ '')'')
              else add_images g ts (put key img m, put key whr owner)
          | None \<Rightarrow> add_images g ts (put key img m, put key whr owner)))"

fun add_group_images :: "task_group option list \<Rightarrow> (string \<times> string) list \<times> (string \<times> string) list \<Rightarrow>
    string + (string \<times> string) list \<times> (string \<times> string) list" where
  "add_group_images [] acc = Inr acc"
| "add_group_images (None # gs) acc = add_group_images gs acc"
| "add_group_images (Some g # gs) acc =
     bindE (add_images (case g_name g of None \<Rightarrow> [] | Some n \<Rightarrow> n) (g_tasks g) acc) (add_group_images gs)"

definition BuildMeta :: "string \<Rightarrow> string \<Rightarrow> string \<Rightarrow> job option \<Rightarrow> string + (string \<times> string) list" where
  "BuildMeta dep commit phase target = (case target of
       None \<Rightarrow> Inl ''build hook meta: no target job''
     | Some j \<Rightarrow> (case j_id j of
           None \<Rightarrow> Inl ''build hook meta: no target job''
         | Some i \<Rightarrow> bindE (add_group_images (j_groups j)
             ([(''nops_deployment_id'', dep), (''nops_job_id'', i), (''nops_commit'', commit), (''nops_phase'', phase)], []))
             (\<lambda>r. Inr (fst r))))"

fun join_words :: "string list \<Rightarrow> string" where
  "join_words [] = []"
| "join_words [w] = w"
| "join_words (w # ws) = w @ '' '' @ join_words ws"

definition show_words :: "string list \<Rightarrow> string" where
  "show_words ws = ''['' @ join_words ws @ '']''"

definition DispatchMeta :: "job \<Rightarrow> (string \<times> string) list \<Rightarrow> string + (string \<times> string) list" where
  "DispatchMeta parent all = (case j_parameterized parent of
       None \<Rightarrow> Inl ''hook job is not parameterized''
     | Some (required, optional) \<Rightarrow>
         (let missing = filter (\<lambda>k. map_of all k = None) required in
          if missing \<noteq> [] then Inl (''hook job requires meta '' @ show_words (sort missing) @
            '' that nops cannot provide (available: '' @ show_words (sort (map fst all)) @ '')'')
          else Inr (fold (\<lambda>k out. case map_of all k of None \<Rightarrow> out | Some v \<Rightarrow> put k v out) (required @ optional) [])))"

section \<open>The outcome of a dispatched hook\<close>

datatype verdict = VRunning | VSucceeded | VFailed string | VStopped string

definition shortID :: "string \<Rightarrow> string" where
  "shortID i = take 8 i"

definition evaluate :: "job \<Rightarrow> alloc list \<Rightarrow> verdict" where
  "evaluate child allocs =
     (case find (\<lambda>a. al_client_status a = ''failed'' \<or> al_client_status a = ''lost'') allocs of
        Some a \<Rightarrow> VFailed (''allocation '' @ shortID (al_id a) @ '' '' @ al_client_status a @ '': '' @
          (if al_failure a = [] then ''no details from Nomad'' else al_failure a))
      | None \<Rightarrow>
     (case find (\<lambda>a. al_client_status a = ''complete'' \<and> al_desired_status a \<noteq> ''run'') allocs of
        Some a \<Rightarrow> VStopped (''allocation '' @ shortID (al_id a) @ '' was stopped from outside nops (desired status '' @
          go_quote (al_desired_status a) @ '')'')
      | None \<Rightarrow>
          if j_status child \<noteq> Some ''dead'' then VRunning
          else if allocs = [] then
            (if j_stop child \<noteq> Some True
             then VFailed ''hook job ran on no node: no node matched its datacenters, node pool and constraints''
             else VFailed ''hook job stopped before any allocation ran'')
          else if list_ex (\<lambda>a. al_client_status a \<noteq> ''complete'') allocs then VRunning
          else VSucceeded))"


section \<open>Runs\<close>

record hook_request =
  q_deployment :: string
  q_namespace :: string
  q_phase :: string
  q_position :: int
  q_hook :: string
  q_commit :: string
  q_timeout :: duration
  q_target :: "job option"

datatype run_error =
    BadRequest | RunStore store_error | RunNomad nomad_error | RunMeta string | RunCancelled

record hook_result =
  hs_state :: hook_state
  hs_dispatched :: string
  hs_error :: string

text \<open>What a run sends to Nomad: a dispatch with its token, for the run's position, or a stop.\<close>

datatype hook_action =
    Dispatched "string \<times> string \<times> int" string "(string \<times> string) list" string
  | Stopped string

record poll =
  po_job :: "nomad_error + job"
  po_allocs :: "nomad_error + alloc list"
  po_now :: time
  po_no_room :: "nomad_error + string"
  po_stop :: "nomad_error + unit"
  po_save_fails :: bool

record runner_env =
  re_ensure :: call
  re_ensure_fails :: bool
  re_now :: time
  re_parent :: "nomad_error + job"
  re_dispatch :: "nomad_error + string"
  re_found :: "nomad_error + string"
  re_mark :: call
  re_mark_fails :: bool
  re_child :: call
  re_child_fails :: bool
  re_finish :: call
  re_finish_fails :: bool
  re_polls :: "poll list"

text \<open>The state of a call of \<open>Run\<close>: the database, what was sent, and its copy of the run's row.\<close>

type_synonym 'a run_result = "(run_error + 'a) \<times> store \<times> hook_action list"

definition resultOf :: "hook_run \<Rightarrow> hook_result" where
  "resultOf r = \<lparr>hs_state = r_state r, hs_dispatched = r_dispatched_job_id r, hs_error = r_error r\<rparr>"

definition save_run ::
  "call \<Rightarrow> bool \<Rightarrow> hook_run \<Rightarrow> hook_state \<Rightarrow> string \<Rightarrow> string \<Rightarrow> store \<Rightarrow> store_error + store" where
  "save_run c fails r st child msg s =
     (if fails then Inl ErrDatabase
      else UpdateHookRun c (r_id r) \<lparr>u_state = Some st, u_dispatched = child, u_error = msg\<rparr> s)"

definition finish ::
  "call \<Rightarrow> bool \<Rightarrow> hook_run \<Rightarrow> hook_state \<Rightarrow> string \<Rightarrow> store \<Rightarrow> hook_action list \<Rightarrow> hook_result run_result" where
  "finish c fails r st msg s as = (case save_run c fails r st [] msg s of
       Inl e \<Rightarrow> (Inl (RunStore e), s, as)
     | Inr s' \<Rightarrow> (Inr (resultOf (r\<lparr>r_state := st, r_error := msg\<rparr>)), s', as))"

definition saveChild :: "runner_env \<Rightarrow> hook_run \<Rightarrow> string \<Rightarrow> store \<Rightarrow> store_error + store \<times> hook_run" where
  "saveChild env r child s = bindE (save_run (re_child env) (re_child_fails env) r HookRunning child [] s)
     (\<lambda>s'. Inr (s', r\<lparr>r_dispatched_job_id := child\<rparr>))"

definition run_position :: "hook_run \<Rightarrow> string \<times> string \<times> int" where
  "run_position r = (r_deployment_id r, r_phase r, r_position r)"

definition hook_type_ok :: "job \<Rightarrow> bool" where
  "hook_type_ok j = (j_type j = Some ''batch'' \<or> j_type j = Some ''sysbatch'')"

text \<open>
  \<open>dispatch\<close>: either the run ended here (the value \<open>Inl\<close> of the success), or the child is known
  and the wait begins (\<open>Inr\<close>).
\<close>

definition dispatch ::
  "libs \<Rightarrow> runner_env \<Rightarrow> hook_request \<Rightarrow> hook_run \<Rightarrow> time \<Rightarrow> store \<Rightarrow> (hook_result + hook_run) run_result" where
  "dispatch L env q r deadline s =
     (let fin = (\<lambda>st msg r s as. (case finish (re_finish env) (re_finish_fails env) r st msg s as of
          (Inl e, s', as') \<Rightarrow> (Inl e, s', as') | (Inr res, s', as') \<Rightarrow> (Inr (Inl res), s', as')));
          hook = r_hook_job_id r in
      if \<not> re_now env < deadline
      then fin HookTimedOut (''timed out after '' @ lib_dur_text L (run_timeout r) @ '' before the hook was dispatched'') r s []
      else (case re_parent env of
        Inl (JobNotFound _) \<Rightarrow> fin HookFailed (''hook job '' @ go_quote hook @
          '' not found in Nomad: its revision is registered right before the dispatch, so it was removed in between'') r s []
      | Inl e \<Rightarrow> (Inl (RunNomad e), s, [])
      | Inr parent \<Rightarrow>
          if \<not> is_hook (meta_of L (j_meta parent))
          then fin HookFailed (''job '' @ go_quote hook @ '' is not a hook: it must set meta nops_role = '' @ go_quote ''hook'') r s []
          else if \<not> hook_type_ok parent
          then fin HookFailed (''hook job '' @ go_quote hook @ '' must be of type batch or sysbatch'') r s []
          else (case BuildMeta (r_deployment_id r) (q_commit q) (r_phase r) (q_target q) of
            Inl msg \<Rightarrow> if q_target q = None then (Inl (RunMeta msg), s, [])
              else fin HookFailed (''hook job '' @ go_quote hook @ '': '' @ msg) r s []
          | Inr all \<Rightarrow> (case DispatchMeta parent all of
              Inl msg \<Rightarrow> fin HookFailed (''hook job '' @ go_quote hook @ '': '' @ msg) r s []
            | Inr dm \<Rightarrow> (case save_run (re_mark env) (re_mark_fails env) r HookRunning [] [] s of
                Inl e \<Rightarrow> (Inl (RunStore e), s, [])
              | Inr s1 \<Rightarrow>
                  (let r1 = r\<lparr>r_state := HookRunning\<rparr>;
                       as = [Dispatched (run_position r1) hook dm (r_token r1)] in
                   case re_dispatch env of
                     Inl (DispatchRefused m) \<Rightarrow>
                       fin HookFailed (''dispatch of hook job '' @ go_quote hook @ '': '' @ m) r1 s1 as
                   | Inl e \<Rightarrow> (Inl (RunNomad e), s1, as)
                   | Inr child \<Rightarrow> (case saveChild env r1 child s1 of
                         Inl e \<Rightarrow> (Inl (RunStore e), s1, as)
                       | Inr (s2, r2) \<Rightarrow> (Inr (Inr r2), s2, as))))))))"

definition recoverChild ::
  "libs \<Rightarrow> runner_env \<Rightarrow> hook_run \<Rightarrow> store \<Rightarrow> (hook_result + hook_run) run_result" where
  "recoverChild L env r s = (case re_found env of
       Inl e \<Rightarrow> (Inl (RunNomad e), s, [])
     | Inr i \<Rightarrow>
         if i = [] then
           (let hook = r_hook_job_id r in
            case finish (re_finish env) (re_finish_fails env) r HookFailed
              (''the dispatch of hook job '' @ go_quote hook @ '' may have been sent before nops stopped, but no run with its token exists in Nomad (never created, or garbage-collected): the outcome is unknown, so it is not dispatched again; check '' @ hook @ ''/dispatch-* in Nomad'') s [] of
              (Inl e, s', as) \<Rightarrow> (Inl e, s', as) | (Inr res, s', as) \<Rightarrow> (Inr (Inl res), s', as))
         else (case saveChild env r i s of
             Inl e \<Rightarrow> (Inl (RunStore e), s, [])
           | Inr (s', r') \<Rightarrow> (Inr (Inr r'), s', [])))"

text \<open>\<open>noRoom\<close>: asked only for a pending child.\<close>

definition noRoom :: "poll \<Rightarrow> job \<Rightarrow> nomad_error + string" where
  "noRoom p child = (if j_status child \<noteq> Some ''pending'' then Inr [] else po_no_room p)"

fun await ::
  "libs \<Rightarrow> call \<Rightarrow> hook_run \<Rightarrow> time \<Rightarrow> string \<Rightarrow> poll list \<Rightarrow> store \<Rightarrow> hook_action list \<Rightarrow> hook_result run_result" where
  "await L c r deadline cause [] s as = (Inl RunCancelled, s, as)"
| "await L c r deadline cause (p # ps) s as =
     (let child_id = r_dispatched_job_id r;
          gone = finish c (po_save_fails p) r HookFailed (''hook run '' @ child_id @
            '' disappeared from Nomad (garbage-collected or purged) before nops saw its outcome; the outcome is unknown, so it is not dispatched again'') s as in
      case po_job p of
        Inl (JobNotFound _) \<Rightarrow> gone
      | Inl e \<Rightarrow> (Inl (RunNomad e), s, as)
      | Inr child \<Rightarrow> (case po_allocs p of
          Inl (JobNotFound _) \<Rightarrow> gone
        | Inl e \<Rightarrow> (Inl (RunNomad e), s, as)
        | Inr allocs \<Rightarrow>
            (let expired = (\<not> po_now p < deadline); v = evaluate child allocs in
             case (if v = VRunning then noRoom p child else Inr cause) of
               Inl (JobNotFound _) \<Rightarrow> gone
             | Inl e \<Rightarrow> (Inl (RunNomad e), s, as)
             | Inr cause' \<Rightarrow>
                 (let stop = (case po_stop p of
                        Inl e \<Rightarrow> (Inl (RunNomad e), s, as @ [Stopped child_id])
                      | Inr _ \<Rightarrow> finish c (po_save_fails p) r HookTimedOut (''timed out after '' @
                          lib_dur_text L (run_timeout r) @ '': '' @ (if cause' \<noteq> [] then cause' @ ''; '' else []) @
                          ''hook run '' @ child_id @ '' was stopped'') s (as @ [Stopped child_id])) in
                  case v of
                    VSucceeded \<Rightarrow> finish c (po_save_fails p) r HookSucceeded [] s as
                  | VFailed msg \<Rightarrow> finish c (po_save_fails p) r HookFailed msg s as
                  | VStopped msg \<Rightarrow> if expired then stop else finish c (po_save_fails p) r HookFailed msg s as
                  | VRunning \<Rightarrow> if expired then stop
                      else await L c r deadline cause' ps s as))))"

text \<open>
  \<open>Run\<close>: the timeout is rounded up to whole seconds in the 64 bits of a duration. \<open>drive\<close> is what
  follows for a run that is not terminal yet.
\<close>

definition round_timeout :: "duration \<Rightarrow> duration" where
  "round_timeout t = wrap64 (go_div (wrap64 (wrap64 (t + second) - 1)) second * second)"

definition drive ::
  "libs \<Rightarrow> runner_env \<Rightarrow> hook_request \<Rightarrow> hook_run \<Rightarrow> store \<Rightarrow> hook_result run_result" where
  "drive L env q r s =
     (let deadline = r_started_at r + run_timeout r in
      case (if r_dispatched_job_id r = []
            then (if r_state r = HookDispatching then dispatch L env q r deadline s else recoverChild L env r s)
            else (Inr (Inr r), s, [])) of
        (Inl e, s2, as) \<Rightarrow> (Inl e, s2, as)
      | (Inr (Inl res), s2, as) \<Rightarrow> (Inr res, s2, as)
      | (Inr (Inr r2), s2, as) \<Rightarrow> await L (re_finish env) r2 deadline [] (re_polls env) s2 as)"

definition Run ::
  "libs \<Rightarrow> runner_env \<Rightarrow> hook_request \<Rightarrow> store \<Rightarrow> hook_result run_result" where
  "Run L env q s =
     (if q_hook q = [] \<or> q_namespace q = [] \<or> q_timeout q \<le> 0 then (Inl BadRequest, s, [])
      else (case (if re_ensure_fails env then Inl ErrDatabase
                  else EnsureHookRun (re_ensure env) (q_deployment q) (q_phase q) (q_position q) (q_hook q)
                    (round_timeout (q_timeout q)) s) of
        Inl e \<Rightarrow> (Inl (RunStore e), s, [])
      | Inr (s1, r, _) \<Rightarrow>
          if hook_state_done (r_state r) then (Inr (resultOf r), s1, []) else drive L env q r s1))"

end
