(* ===== verification/RunnerProperties.thy ===== *)
theory RunnerProperties
  imports Runner StoreProperties
begin

text \<open>
  What the hook runner guarantees: a hook is dispatched at most once whatever fails around it, the
  outcome of a finished run is final, success is read conservatively, and a run ends once its
  deadline has passed.
\<close>

section \<open>What a run writes\<close>

text \<open>The rows with one ID leave the state \<open>dispatching\<close>, and keep their position.\<close>

definition moves_on :: "(hook_run \<Rightarrow> hook_run) \<Rightarrow> bool" where
  "moves_on f = (\<forall>r. r_id (f r) = r_id r \<and> run_position (f r) = run_position r \<and> r_state (f r) \<noteq> HookDispatching)"

definition moved :: "string \<Rightarrow> store \<Rightarrow> store \<Rightarrow> bool" where
  "moved i s t = (\<exists>f. moves_on f \<and> hook_runs t = update_where (\<lambda>r. r_id r = i) f (hook_runs s) \<and>
     deployments t = deployments s \<and> events t = events s)"

definition unmoved :: "store \<Rightarrow> store \<Rightarrow> bool" where
  "unmoved s t = (hook_runs t = hook_runs s)"

lemma moved_trans: "moved i s t \<Longrightarrow> moved i t u \<Longrightarrow> moved i s u"
proof -
  assume "moved i s t" "moved i t u"
  then obtain f g where f: "moves_on f" "hook_runs t = update_where (\<lambda>r. r_id r = i) f (hook_runs s)"
    and g: "moves_on g" "hook_runs u = update_where (\<lambda>r. r_id r = i) g (hook_runs t)"
    and o: "deployments t = deployments s" "events t = events s" "deployments u = deployments t" "events u = events t"
    by (auto simp: moved_def)
  have "hook_runs u = update_where (\<lambda>r. r_id r = i) (\<lambda>r. g (f r)) (hook_runs s)"
    using f(1) unfolding g(2) f(2) update_where_def moves_on_def by simp
  moreover have "moves_on (\<lambda>r. g (f r))" using f(1) g(1) by (auto simp: moves_on_def)
  ultimately show ?thesis using o by (auto simp: moved_def)
qed

lemma save_run_moved:
  assumes "save_run c fails r st child msg s = Inr t" "st \<noteq> HookDispatching"
  shows "moved (r_id r) s t"
proof -
  have "moves_on (update_run_row c st u)" for u
    using assms(2) by (auto simp: moves_on_def update_run_row_def run_position_def)
  with assms(1) show ?thesis
    by (fastforce simp: save_run_def UpdateHookRun_def moved_def split: if_splits)
qed

definition wrote :: "string \<Rightarrow> store \<Rightarrow> store \<Rightarrow> bool" where
  "wrote i s t = (t = s \<or> moved i s t)"

lemma wrote_refl [simp]: "wrote i s s"
  by (simp add: wrote_def)

lemma moved_wrote: "moved i s t \<Longrightarrow> wrote i s t"
  by (simp add: wrote_def)

lemma moved_then_wrote: "moved i s t \<Longrightarrow> wrote i t u \<Longrightarrow> moved i s u"
  by (auto simp: wrote_def dest: moved_trans)

lemma finish_wrote:
  "finish c fails r st msg s as = (res, t, bs) \<Longrightarrow> st \<noteq> HookDispatching \<Longrightarrow> bs = as \<and> wrote (r_id r) s t"
  by (auto simp: finish_def wrote_def split: sum.splits dest: save_run_moved)

lemma saveChild_wrote:
  "saveChild env r child s = Inr (t, r') \<Longrightarrow> moved (r_id r) s t \<and> r_id r' = r_id r"
  by (auto simp: saveChild_def bindE_Inr dest: save_run_moved)

lemma wrote_trans: "wrote i s t \<Longrightarrow> wrote i t u \<Longrightarrow> wrote i s u"
  by (auto simp: wrote_def dest: moved_trans)

definition is_dispatch :: "hook_action \<Rightarrow> bool" where
  "is_dispatch a = (case a of Dispatched _ _ _ _ \<Rightarrow> True | Stopped _ \<Rightarrow> False)"

definition dispatch_of :: "string \<times> string \<times> int \<Rightarrow> hook_action \<Rightarrow> bool" where
  "dispatch_of k a = (case a of Dispatched k' _ _ _ \<Rightarrow> k' = k | Stopped _ \<Rightarrow> False)"

lemma await_wrote:
  "await L c r deadline cause ps s as = (res, t, bs) \<Longrightarrow>
     wrote (r_id r) s t \<and> (\<exists>ms. bs = as @ ms \<and> filter is_dispatch ms = [])"
proof (induction ps arbitrary: cause)
  case Nil
  then show ?case by (simp add: wrote_def)
next
  case (Cons p ps)
  show ?case
    using Cons.prems
    by (auto simp: Let_def is_dispatch_def
        split: sum.splits nomad_error.splits verdict.splits if_splits
        dest!: finish_wrote dest: Cons.IH)
qed

lemma recoverChild_wrote:
  "recoverChild L env r s = (res, t, as) \<Longrightarrow>
     wrote (r_id r) s t \<and> as = [] \<and> (\<forall>r'. res = Inr (Inr r') \<longrightarrow> r_id r' = r_id r)"
  by (auto simp: recoverChild_def Let_def split: sum.splits if_splits prod.splits
      dest!: finish_wrote saveChild_wrote intro: moved_wrote)

text \<open>
  A dispatch either sends nothing, or sends once, with the run already saved as running.
\<close>

lemma dispatch_wrote:
  assumes "dispatch L env q r deadline s = (res, t, as)"
  shows "wrote (r_id r) s t \<and> (\<forall>r'. res = Inr (Inr r') \<longrightarrow> r_id r' = r_id r) \<and>
    (as = [] \<or> (\<exists>h m tok. as = [Dispatched (run_position r) h m tok] \<and> moved (r_id r) s t))"
proof -
  have pos: "run_position (r\<lparr>r_state := HookRunning\<rparr>) = run_position r" by (simp add: run_position_def)
  show ?thesis
    using assms
    by (auto simp: dispatch_def Let_def pos split: sum.splits nomad_error.splits if_splits prod.splits
        dest!: finish_wrote save_run_moved saveChild_wrote
        intro: moved_wrote moved_then_wrote moved_trans
          moved_wrote [OF moved_then_wrote] moved_wrote [OF moved_trans])
qed


section \<open>At most one dispatch\<close>

text \<open>
  The runner and the rest of nops as a state machine: any run with any request and any behaviour of
  Nomad, the clock and SQLite, or a write that leaves the table of runs alone. The second component
  is what was sent to Nomad so far.
\<close>

inductive runner_step :: "store \<times> hook_action list \<Rightarrow> store \<times> hook_action list \<Rightarrow> bool" where
  step_run: "Run L env q s = (res, t, as) \<Longrightarrow> runner_step (s, tr) (t, tr @ as)"
| step_other: "hook_runs t = hook_runs s \<Longrightarrow> runner_step (s, tr) (t, tr)"

definition runner_start :: "store \<times> hook_action list \<Rightarrow> bool" where
  "runner_start x = (x = (empty_store, []))"

definition once_inv :: "store \<times> hook_action list \<Rightarrow> bool" where
  "once_inv x = (let s = fst x; tr = snd x in
     distinct (map r_id (hook_runs s)) \<and> distinct (map run_position (hook_runs s)) \<and>
     (\<forall>k. length (filter (dispatch_of k) tr) \<le> 1) \<and>
     (\<forall>a\<in>set tr. is_dispatch a \<longrightarrow>
        (\<exists>r\<in>set (hook_runs s). dispatch_of (run_position r) a \<and> r_state r \<noteq> HookDispatching)))"

lemma wrote_rows:
  assumes "wrote i s t"
  obtains g where "hook_runs t = map g (hook_runs s)"
    "\<And>r. r_id (g r) = r_id r \<and> run_position (g r) = run_position r"
    "\<And>r. r_state r \<noteq> HookDispatching \<Longrightarrow> r_state (g r) \<noteq> HookDispatching"
proof (cases "t = s")
  case True
  then show ?thesis using that [of id] by simp
next
  case False
  with assms obtain f where f: "moves_on f" "hook_runs t = update_where (\<lambda>r. r_id r = i) f (hook_runs s)"
    by (auto simp: wrote_def moved_def)
  show ?thesis
    by (rule that [of "\<lambda>r. if r_id r = i then f r else r"])
      (use f in \<open>simp_all add: update_where_def moves_on_def\<close>)
qed

lemma once_inv_rows:
  assumes "once_inv (s, tr)" "wrote i s t" "filter is_dispatch as = []"
  shows "once_inv (t, tr @ as)"
proof -
  obtain g where g: "hook_runs t = map g (hook_runs s)"
    "\<And>r. r_id (g r) = r_id r \<and> run_position (g r) = run_position r"
    "\<And>r. r_state r \<noteq> HookDispatching \<Longrightarrow> r_state (g r) \<noteq> HookDispatching"
    by (rule wrote_rows [OF assms(2)]) blast
  have no: "\<not> is_dispatch a" if "a \<in> set as" for a
    using assms(3) that by (auto simp: filter_empty_conv)
  have "filter (dispatch_of k) as = []" for k
    using no by (force simp: filter_empty_conv dispatch_of_def is_dispatch_def split: hook_action.splits)
  moreover have "map r_id (hook_runs t) = map r_id (hook_runs s)"
    "map run_position (hook_runs t) = map run_position (hook_runs s)"
    by (simp_all add: g)
  moreover have "\<exists>r\<in>set (hook_runs t). dispatch_of (run_position r) a \<and> r_state r \<noteq> HookDispatching"
    if "a \<in> set tr" "is_dispatch a" for a
    using assms(1) that g by (fastforce simp: once_inv_def Let_def)
  ultimately show ?thesis
    using assms(1) no by (auto simp: once_inv_def Let_def)
qed

lemma EnsureHookRun_rows:
  assumes "EnsureHookRun c dep ph pos job tmo s = Inr (s1, r, new)"
  shows "r \<in> set (hook_runs s1)"
    and "once_inv (s, tr) \<Longrightarrow> once_inv (s1, tr)"
proof -
  show "r \<in> set (hook_runs s1)"
    using EnsureHookRun_Inr [OF assms] find_SomeD
    by (fastforce simp: GetHookRun_def or_not_found_def split: option.splits)
  assume inv: "once_inv (s, tr)"
  show "once_inv (s1, tr)"
  proof (cases new)
    case False
    with EnsureHookRun_Inr [OF assms] inv show ?thesis by simp
  next
    case True
    with EnsureHookRun_Inr [OF assms] have rows: "hook_runs s1 = hook_runs s @ [r]" by simp
    from assms True have f: "find (at_position dep ph pos) (hook_runs s) = None"
      "\<not> list_ex (\<lambda>r. r_id r = c_new_id c) (hook_runs s)" "r_id r = c_new_id c" "run_position r = (dep, ph, pos)"
      by (auto simp: EnsureHookRun_def Let_def run_position_def split: option.splits if_splits)
    then have "r_id r \<notin> set (map r_id (hook_runs s))" "run_position r \<notin> set (map run_position (hook_runs s))"
      by (auto simp: list_ex_iff find_None_iff at_position_def run_position_def)
    with inv rows show ?thesis by (fastforce simp: once_inv_def Let_def)
  qed
qed

text \<open>A dispatch finds its row still \<open>dispatching\<close>, so nothing was sent for it before.\<close>

lemma once_inv_dispatch:
  assumes inv: "once_inv (s, tr)" and r: "r \<in> set (hook_runs s)" "r_state r = HookDispatching"
    and m: "moved (r_id r) s t"
  shows "once_inv (t, tr @ [Dispatched (run_position r) h mt tok])"
proof -
  let ?a = "Dispatched (run_position r) h mt tok"
  obtain f where f: "moves_on f" "hook_runs t = update_where (\<lambda>x. r_id x = r_id r) f (hook_runs s)"
    using m by (auto simp: moved_def)
  have "filter (dispatch_of (run_position r)) tr = []"
  proof -
    have False if a: "a \<in> set tr" "dispatch_of (run_position r) a" for a
    proof -
      have "is_dispatch a" using a(2) by (auto simp: dispatch_of_def is_dispatch_def split: hook_action.splits)
      with inv a(1) obtain q where q: "q \<in> set (hook_runs s)" "dispatch_of (run_position q) a" "r_state q \<noteq> HookDispatching"
        by (auto simp: once_inv_def Let_def)
      with a(2) have "run_position q = run_position r"
        by (auto simp: dispatch_of_def split: hook_action.splits)
      with inv q(1) r(1) have "q = r" by (auto simp: once_inv_def Let_def distinct_map inj_on_def)
      with q(3) r(2) show False by simp
    qed
    then show ?thesis by (auto simp: filter_empty_conv)
  qed
  then have "length (filter (dispatch_of k) (tr @ [?a])) \<le> 1" for k
  proof -
    have "length (filter (dispatch_of k) tr) \<le> 1"
      using inv unfolding once_inv_def Let_def by (cases k) simp
    moreover have "dispatch_of k ?a \<longleftrightarrow> k = run_position r" by (auto simp: dispatch_of_def)
    ultimately show ?thesis using \<open>filter (dispatch_of (run_position r)) tr = []\<close> by auto
  qed
  moreover have "f r \<in> set (hook_runs t)" "dispatch_of (run_position (f r)) ?a" "r_state (f r) \<noteq> HookDispatching"
    using f r(1) by (force simp: set_update_where moves_on_def dispatch_of_def)+
  moreover have "once_inv (t, tr @ [])"
    by (rule once_inv_rows [OF inv moved_wrote [OF m]]) simp
  ultimately show ?thesis by (auto simp: once_inv_def Let_def)
qed


lemma dispatch_once:
  assumes inv: "once_inv (s, tr)" and r: "r \<in> set (hook_runs s)" "r_state r = HookDispatching"
    and d: "dispatch L env q r deadline s = (x, t, as)"
  shows "once_inv (t, tr @ as)"
proof -
  from dispatch_wrote [OF d] consider "as = []" "wrote (r_id r) s t"
    | h m tok where "as = [Dispatched (run_position r) h m tok]" "moved (r_id r) s t" by blast
  then show ?thesis
  proof cases
    case 1
    with once_inv_rows [OF inv 1(2), of "[]"] show ?thesis by simp
  next
    case 2
    show ?thesis unfolding 2(1) by (rule once_inv_dispatch [OF inv r 2(2)])
  qed
qed

lemma recoverChild_once:
  assumes inv: "once_inv (s, tr)" and d: "recoverChild L env r s = (x, t, as)"
  shows "once_inv (t, tr @ as)"
  using recoverChild_wrote [OF d] once_inv_rows [OF inv, of "r_id r" t as] by simp

lemma await_once:
  assumes inv: "once_inv (s, tr @ as)" and d: "await L c r deadline cause ps s as = (res, t, bs)"
  shows "once_inv (t, tr @ bs)"
proof -
  from await_wrote [OF d] obtain ms where ms: "bs = as @ ms" "filter is_dispatch ms = []" and w: "wrote (r_id r) s t"
    by blast
  from once_inv_rows [OF inv w ms(2)] show ?thesis by (simp add: ms(1))
qed

lemma drive_once:
  assumes inv: "once_inv (s, tr)" and r: "r \<in> set (hook_runs s)"
    and d: "drive L env q r s = (res, t, as)"
  shows "once_inv (t, tr @ as)"
proof -
  let ?deadline = "r_started_at r + run_timeout r"
  obtain x s2 as2 where f: "(if r_dispatched_job_id r = []
    then (if r_state r = HookDispatching then dispatch L env q r ?deadline s else recoverChild L env r s)
    else (Inr (Inr r), s, [])) = (x, s2, as2)" by (rule prod_cases3)
  have first: "once_inv (s2, tr @ as2)"
  proof (cases "r_dispatched_job_id r = []")
    case False
    with f inv show ?thesis by simp
  next
    case child: True
    show ?thesis
    proof (cases "r_state r = HookDispatching")
      case True
      with f child have "dispatch L env q r ?deadline s = (x, s2, as2)" by simp
      from dispatch_once [OF inv r True this] show ?thesis .
    next
      case False
      with f child have "recoverChild L env r s = (x, s2, as2)" by simp
      from recoverChild_once [OF inv this] show ?thesis .
    qed
  qed
  have d': "(case x of Inl e \<Rightarrow> (Inl e, s2, as2) | Inr (Inl res) \<Rightarrow> (Inr res, s2, as2)
      | Inr (Inr r2) \<Rightarrow> await L (re_finish env) r2 ?deadline [] (re_polls env) s2 as2) = (res, t, as)"
    using d unfolding drive_def Let_def f by (simp split: sum.splits)
  show ?thesis
  proof (cases "\<exists>r2. x = Inr (Inr r2)")
    case True
    then obtain r2 where r2: "x = Inr (Inr r2)" by blast
    with d' have "await L (re_finish env) r2 ?deadline [] (re_polls env) s2 as2 = (res, t, as)" by simp
    from await_once [OF first this] show ?thesis .
  next
    case False
    with d' have "t = s2 \<and> as = as2" by (cases x) (auto split: sum.splits)
    with first show ?thesis by simp
  qed
qed

lemma Run_once:
  assumes inv: "once_inv (s, tr)" and run: "Run L env q s = (res, t, as)"
  shows "once_inv (t, tr @ as)"
proof (cases "q_hook q = [] \<or> q_namespace q = [] \<or> q_timeout q \<le> 0 \<or> re_ensure_fails env")
  case True
  with run inv show ?thesis by (auto simp: Run_def split: if_splits)
next
  case False
  show ?thesis
  proof (cases "EnsureHookRun (re_ensure env) (q_deployment q) (q_phase q) (q_position q) (q_hook q)
      (round_timeout (q_timeout q)) s")
    case (Inl e)
    with run inv False show ?thesis by (simp add: Run_def)
  next
    case (Inr x)
    obtain s1 r new where x: "x = (s1, r, new)" by (metis prod_cases3)
    note ens = Inr [unfolded x]
    note r = EnsureHookRun_rows(1) [OF ens] and inv1 = EnsureHookRun_rows(2) [OF ens inv]
    show ?thesis
    proof (cases "hook_state_done (r_state r)")
      case True
      with run False ens inv1 show ?thesis by (simp add: Run_def)
    next
      case nd: False
      with run False ens have "drive L env q r s1 = (res, t, as)" by (simp add: Run_def)
      from drive_once [OF inv1 r this] show ?thesis .
    qed
  qed
qed

interpretation dispatches: inductive_invariant runner_start runner_step once_inv
proof (unfold_locales, goal_cases)
  case (1 x)
  then show ?case by (simp add: runner_start_def once_inv_def empty_store_def)
next
  case (2 x y)
  from 2(2,1) show ?case
    by cases (auto simp: Run_once, simp add: once_inv_def Let_def)
qed

text \<open>
  Claim C4. A hook is dispatched at most once per deployment, phase and position, over any
  sequence of runs with any requests, whatever Nomad answers, whichever writes SQLite fails and
  however often nops restarts in between; and once it has been sent, its run is no longer in the
  state that would send it.
\<close>

theorem hook_dispatched_at_most_once:
  assumes "reach runner_start runner_step (s, sent)"
  shows "length (filter (dispatch_of k) sent) \<le> 1
    \<and> (filter (dispatch_of k) sent \<noteq> [] \<longrightarrow>
        (\<exists>r\<in>set (hook_runs s). run_position r = k \<and> r_state r \<noteq> HookDispatching))"
proof -
  have inv: "once_inv (s, sent)" by (rule dispatches.reach_inv [OF assms])
  have "length (filter (dispatch_of k) sent) \<le> 1"
    using inv unfolding once_inv_def Let_def by (cases k) simp
  moreover have "\<exists>r\<in>set (hook_runs s). run_position r = k \<and> r_state r \<noteq> HookDispatching"
    if ne: "filter (dispatch_of k) sent \<noteq> []"
  proof -
    from ne obtain a where a: "a \<in> set sent" "dispatch_of k a" by (auto simp: filter_empty_conv)
    moreover from a(2) have "is_dispatch a"
      by (auto simp: dispatch_of_def is_dispatch_def split: hook_action.splits)
    ultimately obtain r where "r \<in> set (hook_runs s)" "dispatch_of (run_position r) a" "r_state r \<noteq> HookDispatching"
      using inv by (auto simp: once_inv_def Let_def)
    with a(2) show ?thesis by (auto simp: dispatch_of_def split: hook_action.splits)
  qed
  ultimately show ?thesis by blast
qed


section \<open>Outcomes\<close>

text \<open>
  A dispatched hook counts as succeeded only when Nomad says its job is dead and it has
  allocations, all of which completed without the server having wanted them stopped.
\<close>

theorem evaluate_success:
  "evaluate child allocs = VSucceeded \<longleftrightarrow> j_status child = Some ''dead'' \<and> allocs \<noteq> [] \<and>
     (\<forall>a\<in>set allocs. al_client_status a = ''complete'' \<and> al_desired_status a = ''run'')"
  by (auto simp: evaluate_def find_None_iff list_ex_iff split: option.splits dest!: find_SomeD)

theorem evaluate_success_witness:
  "evaluate \<lparr>j_id = None, j_name = None, j_namespace = None, j_type = None, j_meta = [], j_modify_index = None,
      j_version = None, j_status = Some ''dead'', j_stop = None, j_update = None, j_groups = [],
      j_is_periodic = False, j_is_parameterized = False, j_parameterized = None, j_rest = []\<rparr>
     [\<lparr>al_id = ''a1'', al_job_version = 0, al_client_status = ''complete'', al_desired_status = ''run'',
       al_failure = [], al_next = [], al_followup = []\<rparr>] = VSucceeded"
  by (subst evaluate_success) simp

text \<open>The row of a position, by its ID, and what a finished run leaves there.\<close>

definition row_at :: "hook_request \<Rightarrow> store \<Rightarrow> string \<Rightarrow> bool" where
  "row_at q s i = (\<exists>r. find (at_position (q_deployment q) (q_phase q) (q_position q)) (hook_runs s) = Some r \<and> r_id r = i)"

definition row_state :: "hook_request \<Rightarrow> store \<Rightarrow> hook_state \<Rightarrow> bool" where
  "row_state q s st = (\<exists>r. find (at_position (q_deployment q) (q_phase q) (q_position q)) (hook_runs s) = Some r \<and>
     r_state r = st)"

lemma find_moved:
  assumes "moves_on f"
  shows "find (at_position dep ph pos) (update_where (\<lambda>r. r_id r = i) f rows) =
    map_option (\<lambda>r. if r_id r = i then f r else r) (find (at_position dep ph pos) rows)"
  by (rule find_update_where) (use assms in \<open>auto simp: moves_on_def run_position_def at_position_def\<close>)

lemma row_at_wrote: "wrote j s t \<Longrightarrow> row_at q s i \<Longrightarrow> row_at q t i"
  by (auto simp: wrote_def moved_def row_at_def find_moved moves_on_def)

lemma save_run_state:
  assumes "save_run c fails r st child msg s = Inr t" "row_at q s (r_id r)"
  shows "row_state q t st"
proof -
  obtain x where x: "find (at_position (q_deployment q) (q_phase q) (q_position q)) (hook_runs s) = Some x" "r_id x = r_id r"
    using assms(2) by (auto simp: row_at_def)
  have t: "hook_runs t = update_where (\<lambda>x. r_id x = r_id r)
      (update_run_row c st \<lparr>u_state = Some st, u_dispatched = child, u_error = msg\<rparr>) (hook_runs s)"
    using assms(1) by (auto simp: save_run_def UpdateHookRun_def split: if_splits)
  have "find (at_position (q_deployment q) (q_phase q) (q_position q)) (hook_runs t) =
      Some (update_run_row c st \<lparr>u_state = Some st, u_dispatched = child, u_error = msg\<rparr> x)"
    unfolding t by (subst find_update_where) (simp_all add: x update_run_row_def at_position_def)
  then show ?thesis by (simp add: row_state_def update_run_row_def)
qed

lemma finish_result:
  assumes "finish c fails r st msg s as = (Inr res, t, bs)" "row_at q s (r_id r)"
  shows "hs_state res = st \<and> row_state q t st"
  using assms by (auto simp: finish_def resultOf_def split: sum.splits intro: save_run_state)

lemma await_result:
  "await L c r deadline cause ps s as = (Inr res, t, bs) \<Longrightarrow> row_at q s (r_id r) \<Longrightarrow>
     hook_state_done (hs_state res) \<and> row_state q t (hs_state res)"
proof (induction ps arbitrary: cause)
  case (Cons p ps)
  show ?case
    using Cons.prems(1)
    by (auto simp: Let_def hook_state_done_def
        split: sum.splits nomad_error.splits verdict.splits if_splits
        dest!: finish_result [OF _ Cons.prems(2)] dest: Cons.IH [OF _ Cons.prems(2)])
qed simp

lemma recoverChild_result:
  assumes "recoverChild L env r s = (Inr (Inl res), t, as)" "row_at q s (r_id r)"
  shows "hook_state_done (hs_state res) \<and> row_state q t (hs_state res)"
  using assms(1)
  by (auto simp: recoverChild_def Let_def hook_state_done_def split: sum.splits if_splits prod.splits
      dest!: finish_result [OF _ assms(2)])

lemma dispatch_result:
  assumes "dispatch L env q r deadline s = (Inr (Inl res), t, as)" "row_at q s (r_id r)"
  shows "hook_state_done (hs_state res) \<and> row_state q t (hs_state res)"
proof -
  have *: "row_at q s1 (r_id (r\<lparr>r_state := HookRunning\<rparr>))" if "save_run c f r HookRunning [] [] s = Inr s1" for c f s1
    using save_run_moved [OF that] assms(2) row_at_wrote [of "r_id r" s s1] by (simp add: wrote_def)
  show ?thesis
    using assms(1)
    by (auto simp: dispatch_def Let_def hook_state_done_def
        split: sum.splits nomad_error.splits if_splits prod.splits
        dest!: finish_result [OF _ assms(2)] finish_result [OF _ *])
qed


lemma drive_result:
  assumes d: "drive L env q r s = (Inr res, t, as)" and at: "row_at q s (r_id r)"
  shows "hook_state_done (hs_state res) \<and> row_state q t (hs_state res)"
proof -
  let ?deadline = "r_started_at r + run_timeout r"
  obtain x s2 as2 where f: "(if r_dispatched_job_id r = []
    then (if r_state r = HookDispatching then dispatch L env q r ?deadline s else recoverChild L env r s)
    else (Inr (Inr r), s, [])) = (x, s2, as2)" by (rule prod_cases3)
  have d': "(case x of Inl e \<Rightarrow> (Inl e, s2, as2) | Inr (Inl res) \<Rightarrow> (Inr res, s2, as2)
      | Inr (Inr r2) \<Rightarrow> await L (re_finish env) r2 ?deadline [] (re_polls env) s2 as2) = (Inr res, t, as)"
    using d unfolding drive_def Let_def f by (simp split: sum.splits)
  have ended: "hook_state_done (hs_state res') \<and> row_state q s2 (hs_state res')" if "x = Inr (Inl res')" for res'
    using f that at by (auto split: if_splits dest: dispatch_result recoverChild_result)
  have waits: "row_at q s2 (r_id r2)" if "x = Inr (Inr r2)" for r2
    using f that at dispatch_wrote [of L env q r ?deadline s x s2 as2] recoverChild_wrote [of L env r s x s2 as2]
    by (auto split: if_splits intro: row_at_wrote)
  show ?thesis
  proof (cases x)
    case (Inr y)
    show ?thesis
    proof (cases y)
      case (Inl res')
      with Inr d' ended show ?thesis by simp
    next
      case (Inr r2)
      with \<open>x = Inr y\<close> d' have "await L (re_finish env) r2 ?deadline [] (re_polls env) s2 as2 = (Inr res, t, as)" by simp
      from await_result [OF this waits] Inr \<open>x = Inr y\<close> show ?thesis by simp
    qed
  qed (use d' in simp)
qed

lemma Run_stored:
  assumes "q_hook q \<noteq> []" "q_namespace q \<noteq> []" "0 < q_timeout q" "\<not> re_ensure_fails env"
    and "q_phase q = ''pre'' \<or> q_phase q = ''post''" "0 \<le> q_position q"
    and "find (at_position (q_deployment q) (q_phase q) (q_position q)) (hook_runs s) = Some r" "hook_state_done (r_state r)"
  shows "Run L env q s = (Inr (resultOf r), s, [])"
  using assms by (simp add: Run_def EnsureHookRun_found)

text \<open>
  The result of a run is terminal and on record: when \<open>Run\<close> returns one, the row of its
  position has that state, and running the hook again, with whatever behaviour of Nomad, returns
  what is stored, changes nothing and sends nothing.
\<close>

theorem Run_result_is_final:
  assumes "Run L env q s = (Inr res, t, as)"
  shows "hook_state_done (hs_state res) \<and>
    (\<exists>r. GetHookRun (q_deployment q) (q_phase q) (q_position q) t = Inr r \<and> r_state r = hs_state res \<and>
      (\<forall>env'. \<not> re_ensure_fails env' \<longrightarrow> Run L env' q t = (Inr (resultOf r), t, [])))"
proof -
  from assms have q: "q_hook q \<noteq> []" "q_namespace q \<noteq> []" "0 < q_timeout q" and nf: "\<not> re_ensure_fails env"
    by (auto simp: Run_def split: if_splits)
  let ?ens = "EnsureHookRun (re_ensure env) (q_deployment q) (q_phase q) (q_position q) (q_hook q)
      (round_timeout (q_timeout q)) s"
  obtain s1 r new where ens: "?ens = Inr (s1, r, new)"
    using assms q nf by (cases ?ens) (auto simp: Run_def)
  have ph: "q_phase q = ''pre'' \<or> q_phase q = ''post''" "0 \<le> q_position q"
    using ens by (auto simp: EnsureHookRun_def split: if_splits)
  have at: "find (at_position (q_deployment q) (q_phase q) (q_position q)) (hook_runs s1) = Some r"
    using EnsureHookRun_Inr [OF ens] by (auto simp: GetHookRun_def or_not_found_def split: option.splits)
  have "hook_state_done (hs_state res) \<and> row_state q t (hs_state res)"
  proof (cases "hook_state_done (r_state r)")
    case True
    with assms q nf ens have "t = s1" "res = resultOf r" by (simp_all add: Run_def)
    with True at show ?thesis by (simp add: resultOf_def row_state_def)
  next
    case False
    with assms q nf ens have "drive L env q r s1 = (Inr res, t, as)" by (simp add: Run_def)
    from drive_result [OF this] at show ?thesis by (simp add: row_at_def)
  qed
  then obtain r' where ended: "hook_state_done (hs_state res)" and r': "r_state r' = hs_state res"
      "find (at_position (q_deployment q) (q_phase q) (q_position q)) (hook_runs t) = Some r'"
    by (auto simp: row_state_def)
  moreover have "Run L env' q t = (Inr (resultOf r'), t, [])" if "\<not> re_ensure_fails env'" for env'
    using Run_stored [OF q that ph r'(2)] ended r'(1) by simp
  ultimately show ?thesis by (auto simp: GetHookRun_def or_not_found_def)
qed

section \<open>Waiting ends\<close>

definition answered :: "poll \<Rightarrow> bool" where
  "answered p = (is_ok (po_job p) \<and> is_ok (po_allocs p) \<and> is_ok (po_no_room p) \<and> is_ok (po_stop p) \<and> \<not> po_save_fails p)"

lemma is_ok_ex: "is_ok x \<longleftrightarrow> (\<exists>y. x = Inr y)"
  by (cases x) auto

lemma finish_saves:
  "list_ex (\<lambda>x. r_id x = r_id r) (hook_runs s) \<Longrightarrow>
     \<exists>t. finish c False r st msg s as = (Inr (resultOf (r\<lparr>r_state := st, r_error := msg\<rparr>)), t, as)"
  by (simp add: finish_def save_run_def UpdateHookRun_def)

lemma noRoom_answered: "answered p \<Longrightarrow> is_ok (noRoom p child)"
  by (simp add: answered_def noRoom_def)

text \<open>
  The wait for a hook is bounded by its deadline: as long as Nomad answers and the
  result can be saved, the poll at which the clock has reached the deadline, if none before, ends
  the run with a terminal result.
\<close>

theorem await_ends_at_deadline:
  assumes "\<forall>p\<in>set ps. answered p" "\<exists>p\<in>set ps. deadline \<le> po_now p"
    and "list_ex (\<lambda>x. r_id x = r_id r) (hook_runs s)"
  shows "\<exists>res t bs. await L c r deadline cause ps s as = (Inr res, t, bs) \<and> hook_state_done (hs_state res)"
  using assms(1,2)
proof (induction ps arbitrary: cause)
  case (Cons p ps)
  from Cons.prems(1) have p: "answered p" by simp
  then obtain child allocs u where a': "po_job p = Inr child" "po_allocs p = Inr allocs"
      "po_stop p = Inr u" "\<not> po_save_fails p"
    by (auto simp: answered_def is_ok_ex)
  moreover obtain room where "noRoom p child = Inr room"
    using noRoom_answered [OF p, of child] by (auto simp: is_ok_ex)
  ultimately have a: "po_job p = Inr child" "po_allocs p = Inr allocs" "po_stop p = Inr u"
      "\<not> po_save_fails p" "noRoom p child = Inr room" by simp_all
  have fin: "\<exists>res t bs. finish c (po_save_fails p) r st msg s as' = (Inr res, t, bs) \<and> hook_state_done (hs_state res)"
    if "hook_state_done st" for st msg as'
    using finish_saves [OF assms(3), of c st msg as'] a(4) that by (auto simp: resultOf_def)
  show ?case
  proof (cases "evaluate child allocs = VRunning \<and> po_now p < deadline")
    case True
    with Cons.prems have "\<exists>p\<in>set ps. deadline \<le> po_now p" by auto
    with Cons.IH [of room] Cons.prems(1) True a show ?thesis by simp
  next
    case False
    with a fin show ?thesis
      by (cases "evaluate child allocs") (auto simp: Let_def hook_state_done_def)
  qed
qed simp


section \<open>Samples\<close>

definition sample_request :: hook_request where
  "sample_request = \<lparr>q_deployment = ''01A'', q_namespace = ''default'', q_phase = ''pre'', q_position = 0,
     q_hook = ''migrate-0'', q_commit = ''c0'', q_timeout = 1500000000, q_target = Some sample_job\<rparr>"

text \<open>A run that dispatches and is then cancelled, and one whose clock is past the deadline.\<close>

definition sample_env :: "time \<Rightarrow> poll list \<Rightarrow> runner_env" where
  "sample_env t ps = \<lparr>re_ensure = sample_call, re_ensure_fails = False, re_now = t, re_parent = Inr sample_hook_job,
     re_dispatch = Inr ''migrate-0/dispatch-1'', re_found = Inr [], re_mark = sample_call, re_mark_fails = False,
     re_child = sample_call, re_child_fails = False, re_finish = sample_call, re_finish_fails = False, re_polls = ps\<rparr>"

lemma sample_hook_meta: "is_hook (parse d c (j_meta sample_hook_job))"
  by (simp add: parse_def Let_def parse_role_def sample_hook_job_def split: prod.splits)

lemma sample_timeout: "go_div (round_timeout 1500000000) second = 2" "wrap64 2000000000 = 2000000000"
  by (simp_all add: round_timeout_def wrap64_def go_div_def)

lemma no_runs: "hook_runs applying_store = []"
  by (simp add: applying_store_def Transition_def start_apply_def by_actor_def canTransition_def allowed_def
      sample_rows in_state_def sample_store_def empty_store_def)

lemma sample_ensured:
  "\<exists>r. EnsureHookRun sample_call ''01A'' ''pre'' 0 ''migrate-0'' (round_timeout 1500000000) applying_store
      = Inr (applying_store\<lparr>hook_runs := [r]\<rparr>, r, True) \<and> r_id r = ''01A'' \<and> r_state r = HookDispatching \<and>
     r_dispatched_job_id r = [] \<and> r_started_at r = 5 \<and> run_timeout r = 2 * second \<and>
     r_hook_job_id r = ''migrate-0'' \<and> run_position r = (''01A'', ''pre'', 0) \<and> r_deployment_id r = ''01A'' \<and>
     r_phase r = ''pre''"
proof -
  show ?thesis
    by (simp add: EnsureHookRun_def no_runs applying_rows Let_def has_id_def transition_row_def sample_rows
        sample_timeout run_timeout_def run_position_def sample_call_def)
qed

lemma sample_meta: "\<exists>m. BuildMeta ''01A'' ''c0'' ''pre'' (Some sample_job) = Inr m \<and> map_of m ''nops_commit'' = Some ''c0''"
  by (simp add: BuildMeta_def sample_job_def)

lemma sample_dispatch_meta:
  "map_of m ''nops_commit'' = Some ''c0'' \<Longrightarrow> DispatchMeta sample_hook_job m = Inr [(''nops_commit'', ''c0'')]"
  by (simp add: DispatchMeta_def sample_hook_job_def sample_job_def put_def)

lemma sample_dispatch:
  "\<exists>t h m tok. Run sample_libs (sample_env 6 []) sample_request applying_store =
     (Inl RunCancelled, t, [Dispatched (''01A'', ''pre'', 0) h m tok])"
proof -
  obtain r where r: "EnsureHookRun sample_call ''01A'' ''pre'' 0 ''migrate-0'' (round_timeout 1500000000) applying_store
      = Inr (applying_store\<lparr>hook_runs := [r]\<rparr>, r, True)" "r_id r = ''01A''" "r_state r = HookDispatching"
     "r_dispatched_job_id r = []" "r_started_at r = 5" "run_timeout r = 2 * second"
     "r_hook_job_id r = ''migrate-0''" "run_position r = (''01A'', ''pre'', 0)" "r_deployment_id r = ''01A''"
     "r_phase r = ''pre''"
    using sample_ensured by blast
  obtain m where m: "BuildMeta ''01A'' ''c0'' ''pre'' (Some sample_job) = Inr m" "map_of m ''nops_commit'' = Some ''c0''"
    using sample_meta by blast
  have type: "hook_type_ok sample_hook_job" by (simp add: hook_type_ok_def sample_hook_job_def)
  let ?s = "applying_store\<lparr>hook_runs := [r]\<rparr>"
  have "\<exists>t r' as. dispatch sample_libs (sample_env 6 []) sample_request r (5 + 2 * second) ?s = (Inr (Inr r'), t, as)
      \<and> (\<exists>h m tok. as = [Dispatched (''01A'', ''pre'', 0) h m tok])"
    using r m sample_hook_meta type
    by (simp add: dispatch_def sample_env_def sample_request_def sample_dispatch_meta save_run_def UpdateHookRun_def
        saveChild_def run_position_def update_run_row_def hook_state_done_def Let_def)
  then obtain t r' h m' tok where d: "dispatch sample_libs (sample_env 6 []) sample_request r (5 + 2 * second) ?s =
      (Inr (Inr r'), t, [Dispatched (''01A'', ''pre'', 0) h m' tok])" by blast
  have "drive sample_libs (sample_env 6 []) sample_request r ?s =
      (Inl RunCancelled, t, [Dispatched (''01A'', ''pre'', 0) h m' tok])"
    using d r(2-7) by (simp add: drive_def) (simp add: sample_env_def)
  moreover have "Run sample_libs (sample_env 6 []) sample_request applying_store =
      drive sample_libs (sample_env 6 []) sample_request r ?s"
    using r(1,3) by (simp add: Run_def sample_env_def sample_request_def hook_state_done_def)
  ultimately have "Run sample_libs (sample_env 6 []) sample_request applying_store =
      (Inl RunCancelled, t, [Dispatched (''01A'', ''pre'', 0) h m' tok])" by simp
  then show ?thesis by (intro exI)
qed

theorem hook_dispatched_at_most_once_witness:
  "\<exists>s h m tok. reach runner_start runner_step (s, [Dispatched (''01A'', ''pre'', 0) h m tok]) \<and>
     (\<exists>r\<in>set (hook_runs s). run_position r = (''01A'', ''pre'', 0) \<and> r_state r \<noteq> HookDispatching)"
proof -
  obtain t h m tok where run: "Run sample_libs (sample_env 6 []) sample_request applying_store =
      (Inl RunCancelled, t, [Dispatched (''01A'', ''pre'', 0) h m tok])"
    using sample_dispatch by blast
  have "reach runner_start runner_step (empty_store, [])" by (rule reach_init) (simp add: runner_start_def)
  then have "reach runner_start runner_step (applying_store, [])"
    by (rule reach_step) (rule step_other, simp add: no_runs empty_store_def)
  then have "reach runner_start runner_step (t, [] @ [Dispatched (''01A'', ''pre'', 0) h m tok])"
    by (rule reach_step) (rule step_run [OF run])
  from hook_dispatched_at_most_once [OF this, of "(''01A'', ''pre'', 0)"] this show ?thesis
    by (auto simp: dispatch_of_def)
qed


lemma sample_timed_out:
  "\<exists>res t. Run sample_libs (sample_env (3 * second) []) sample_request applying_store = (Inr res, t, []) \<and>
     hs_state res = HookTimedOut"
proof -
  obtain r where r: "EnsureHookRun sample_call ''01A'' ''pre'' 0 ''migrate-0'' (round_timeout 1500000000) applying_store
      = Inr (applying_store\<lparr>hook_runs := [r]\<rparr>, r, True)" "r_id r = ''01A''" "r_state r = HookDispatching"
     "r_dispatched_job_id r = []" "r_started_at r = 5" "run_timeout r = 2 * second"
    using sample_ensured by blast
  let ?s = "applying_store\<lparr>hook_runs := [r]\<rparr>"
  have "\<exists>res t. dispatch sample_libs (sample_env (3 * second) []) sample_request r (5 + 2 * second) ?s = (Inr (Inl res), t, [])
      \<and> hs_state res = HookTimedOut"
    using r by (simp add: dispatch_def sample_env_def finish_def save_run_def UpdateHookRun_def resultOf_def)
  then obtain res t where "dispatch sample_libs (sample_env (3 * second) []) sample_request r (5 + 2 * second) ?s =
      (Inr (Inl res), t, [])" "hs_state res = HookTimedOut" by blast
  then have "drive sample_libs (sample_env (3 * second) []) sample_request r ?s = (Inr res, t, [])"
    using r(2-6) by (simp add: drive_def)
  moreover have "Run sample_libs (sample_env (3 * second) []) sample_request applying_store =
      drive sample_libs (sample_env (3 * second) []) sample_request r ?s"
    using r(1,3) by (simp add: Run_def sample_env_def sample_request_def hook_state_done_def)
  ultimately have "Run sample_libs (sample_env (3 * second) []) sample_request applying_store = (Inr res, t, [])" by simp
  with \<open>hs_state res = HookTimedOut\<close> show ?thesis by (intro exI conjI)
qed

theorem Run_result_is_final_witness:
  "\<exists>t r. Run sample_libs (sample_env 0 []) sample_request t = (Inr (resultOf r), t, []) \<and> r_state r = HookTimedOut"
proof -
  obtain res t where run: "Run sample_libs (sample_env (3 * second) []) sample_request applying_store = (Inr res, t, [])"
      "hs_state res = HookTimedOut" using sample_timed_out by blast
  have "\<not> re_ensure_fails (sample_env 0 [])" by (simp add: sample_env_def)
  with Run_result_is_final [OF run(1)] run(2) show ?thesis by fastforce
qed

definition sample_poll :: poll where
  "sample_poll = \<lparr>po_job = Inr sample_job, po_allocs = Inr [], po_now = 10, po_no_room = Inr [], po_stop = Inr (),
     po_save_fails = False\<rparr>"

theorem await_ends_at_deadline_witness:
  "\<exists>r res t bs. await sample_libs sample_call r 10 [] [sample_poll] (applying_store\<lparr>hook_runs := [r]\<rparr>) [] =
      (Inr res, t, bs) \<and> hook_state_done (hs_state res)"
proof -
  obtain r :: hook_run where "True" by simp
  have "list_ex (\<lambda>x. r_id x = r_id r) (hook_runs (applying_store\<lparr>hook_runs := [r]\<rparr>))" by simp
  moreover have "\<forall>p\<in>set [sample_poll]. answered p" "\<exists>p\<in>set [sample_poll]. 10 \<le> po_now p"
    by (simp_all add: sample_poll_def answered_def)
  ultimately have "\<exists>res t bs. await sample_libs sample_call r 10 [] [sample_poll] (applying_store\<lparr>hook_runs := [r]\<rparr>) [] =
      (Inr res, t, bs) \<and> hook_state_done (hs_state res)"
    by (intro await_ends_at_deadline)
  then show ?thesis by (rule exI)
qed

section \<open>Meta and timeouts\<close>

lemma fold_offers:
  "map_of (fold (\<lambda>k out. case map_of all k of None \<Rightarrow> out | Some v \<Rightarrow> put k v out) ks out) x =
     (if x \<in> set ks \<and> map_of all x \<noteq> None then map_of all x else map_of out x)"
proof (induction ks arbitrary: out)
  case (Cons k ks)
  show ?case
  proof (cases "map_of all k")
    case None
    with Cons show ?thesis by auto
  next
    case (Some v)
    with Cons.IH [of "put k v out"] show ?thesis by (auto simp del: map_of_put simp: map_of_put)
  qed
qed simp

text \<open>
  A dispatch carries exactly the meta the hook declares: a key is sent with the value
  nops offers for it if the hook declares it, required or optional, and no other key is; a
  dispatch goes out only if every required key is offered.
\<close>

theorem DispatchMeta_declared:
  assumes "j_parameterized parent = Some (required, optional)"
  shows "case DispatchMeta parent all of
      Inr dm \<Rightarrow> (\<forall>k. map_of dm k = (if k \<in> set required \<union> set optional then map_of all k else None)) \<and>
        set required \<subseteq> dom (map_of all)
    | Inl _ \<Rightarrow> \<not> set required \<subseteq> dom (map_of all)"
proof (cases "filter (\<lambda>k. map_of all k = None) required = []")
  case True
  then have "set required \<subseteq> dom (map_of all)" by (auto simp: filter_empty_conv)
  with True assms show ?thesis
    by (auto simp: DispatchMeta_def Let_def fold_offers simp del: fold_append)
next
  case False
  then have "\<not> set required \<subseteq> dom (map_of all)" by (auto simp: filter_empty_conv)
  with False assms show ?thesis by (simp add: DispatchMeta_def Let_def)
qed

theorem DispatchMeta_declared_witness:
  "map_of (projr (DispatchMeta sample_hook_job [(''nops_commit'', ''c0''), (''nops_phase'', ''pre'')])) ''nops_phase'' = None"
  using DispatchMeta_declared [of sample_hook_job "[''nops_commit'']" "[]" "[(''nops_commit'', ''c0''), (''nops_phase'', ''pre'')]"]
  by (auto simp: sample_hook_job_def split: sum.splits)

text \<open>
  The timeout of a run is kept in whole seconds, never less than asked and by less than
  a second more, for every timeout of up to one second below the largest duration.
\<close>

theorem round_timeout_bounds:
  assumes "0 < t" "t < 2 ^ 63 - second"
  shows "t \<le> round_timeout t \<and> round_timeout t < t + second \<and> round_timeout t mod second = 0"
proof -
  let ?q = "(t + second - 1) div second"
  have m: "?q * second = t + second - 1 - (t + second - 1) mod second" by (simp add: minus_mod_eq_div_mult)
  have "0 \<le> (t + second - 1) mod second" "(t + second - 1) mod second < second" by simp_all
  with m have b: "t \<le> ?q * second" "?q * second < t + second" by linarith+
  have "round_timeout t = ?q * second"
    using assms b by (simp add: round_timeout_def wrap64_id go_div_def)
  with b show ?thesis by simp
qed

theorem round_timeout_bounds_witness:
  "1500000000 \<le> round_timeout 1500000000 \<and> round_timeout 1500000000 mod second = 0"
  using round_timeout_bounds [of 1500000000] by simp

end
