(* ===== verification/EngineState.thy ===== *)
theory EngineState
  imports Nomad DeploymentStore HookRunStore PauseStore
begin

text \<open>
  The state of the engine (\<open>internal/engine/engine.go\<close>): what it is configured with, the
  observations it keeps in memory next to the database, and what it has asked of Nomad and of the
  notifier, in order. A call of the store may fail for a reason of its own (\<open>db\<close>); which calls of a
  step fail is an argument of the step, as Nomad's answers are.
\<close>

section \<open>Jobs\<close>

datatype job_key = JobKey (key_namespace: string) (key_id: string)

text \<open>The order of the lists of jobs: by namespace, then ID.\<close>

instantiation job_key :: linorder
begin

definition less_eq_job_key :: "job_key \<Rightarrow> job_key \<Rightarrow> bool" where
  "less_eq_job_key a b = (if key_namespace a \<noteq> key_namespace b then key_namespace a < key_namespace b
     else key_id a \<le> key_id b)"

definition less_job_key :: "job_key \<Rightarrow> job_key \<Rightarrow> bool" where
  "less_job_key a b = (a \<le> b \<and> a \<noteq> (b :: job_key))"

instance
proof
  fix a b c :: job_key
  show "a < b \<longleftrightarrow> a \<le> b \<and> \<not> b \<le> a"
    by (cases a; cases b) (auto simp: less_job_key_def less_eq_job_key_def split: if_splits)
  show "a \<le> a" by (simp add: less_eq_job_key_def)
  show "a \<le> b \<Longrightarrow> b \<le> c \<Longrightarrow> a \<le> c"
    by (auto simp: less_eq_job_key_def split: if_splits)
  show "a \<le> b \<Longrightarrow> b \<le> a \<Longrightarrow> a = b"
    by (cases a; cases b) (auto simp: less_eq_job_key_def split: if_splits)
  show "a \<le> b \<or> b \<le> a"
    by (auto simp: less_eq_job_key_def)
qed

end

definition keyOf :: "job \<Rightarrow> job_key" where
  "keyOf j = JobKey (case j_namespace j of None \<Rightarrow> [] | Some n \<Rightarrow> n) (case j_id j of None \<Rightarrow> [] | Some i \<Rightarrow> i)"

definition dep_key :: "deployment \<Rightarrow> job_key" where
  "dep_key d = JobKey (d_namespace d) (d_job_id d)"

section \<open>Observations\<close>

datatype hold_kind = HoldPaused | HoldWindow

record hold =
  ho_kind :: hold_kind
  ho_reason :: string
  ho_by :: string
  ho_since :: "time option"
  ho_note :: string
  ho_all :: bool

record window_status =
  ws_spec :: string
  ws_duration :: duration
  ws_zone :: string
  ws_open :: bool
  ws_until :: "time option"

record hook_ref =
  hr_job_id :: string
  hr_timeout :: duration

record observation =
  ob_job_id :: string
  ob_namespace :: string
  ob_repository :: string
  ob_file_path :: string
  ob_policy :: mpolicy
  ob_spec_hash :: string
  ob_drift :: bool
  ob_plan_diff :: string
  ob_pre_hooks :: "hook_ref list"
  ob_post_hooks :: "hook_ref list"
  ob_issues :: "issue list"
  ob_observed_at :: time
  ob_blocked_by :: string
  ob_blocked_reason :: string
  ob_hold :: "hold option"
  ob_window :: "window_status option"
  ob_deploy_now_by :: string
  ob_nomad_error :: string

record orphan =
  or_job_id :: string
  or_namespace :: string
  or_policy :: dpolicy
  or_last_deployment :: string
  or_nomad_status :: string
  or_observed_at :: time

record refused_file =
  rf_repository :: string
  rf_path :: string
  rf_namespace :: string
  rf_job_id :: string

record status =
  su_error :: bool
  su_managed :: nat
  su_skipped :: nat
  su_unparsed :: nat
  su_orphans :: nat
  su_orphan_check_skipped :: bool
  su_refused :: "refused_file list"

section \<open>The engine\<close>

record opts =
  op_namespaces :: "string list"
  op_repository_jobs :: "string \<rightharpoonup> string list"
  op_apply_timeout :: duration
  op_sync_zone :: string

definition managedNS :: "opts \<Rightarrow> string \<Rightarrow> bool" where
  "managedNS cf ns = (ns \<in> set (op_namespaces cf))"

text \<open>What the engine asks of Nomad that changes it, and what it sends to the notifier.\<close>

datatype action =
    Register job nat bool "submission option"
  | StopJob string string
  | PromoteCanaries string string
  | RunHook string string int string
  | Notify deployment string
  | NotifyPause bool string string

record engine =
  en_store :: store
  en_observations :: "job_key \<rightharpoonup> observation"
  en_all :: "hold option"
  en_orphans :: "orphan list"
  en_status :: status
  en_parse_cache :: "string \<rightharpoonup> job"
  en_kick :: bool
  en_in_flight :: "string list"
  en_trace :: "action list"

datatype engine_error =
    ActorRequired | PauseNoteTooLong | NotPausable | StaleApproval | NotInRepo | NomadError string
  | Paused string | NotPendingApproval | NotWaitingForPromotion | NotRetryable | NotDeployable
  | SpecError string | StoreError store_error | NomadCall nomad_error | OtherError string

text \<open>The result of an operation of a person, and the engine after it.\<close>

type_synonym 'a outcome = "(engine_error + 'a) \<times> engine"

text \<open>A store call that SQLite fails.\<close>

definition db :: "bool \<Rightarrow> store_error + 'a \<Rightarrow> store_error + 'a" where
  "db failing r = (if failing then Inl ErrDatabase else r)"

lemma db_Inr: "db failing r = Inr x \<longleftrightarrow> \<not> failing \<and> r = Inr x"
  by (simp add: db_def)

definition kick_detection :: "engine \<Rightarrow> engine" where
  "kick_detection E = E\<lparr>en_kick := True\<rparr>"

definition acts :: "action list \<Rightarrow> engine \<Rightarrow> engine" where
  "acts as E = E\<lparr>en_trace := en_trace E @ as\<rparr>"

lemma kick_frame [simp]:
  "en_store (kick_detection E) = en_store E" "en_trace (kick_detection E) = en_trace E"
  "en_observations (kick_detection E) = en_observations E" "en_all (kick_detection E) = en_all E"
  by (simp_all add: kick_detection_def)

lemma acts_frame [simp]:
  "en_store (acts as E) = en_store E" "en_trace (acts as E) = en_trace E @ as"
  "en_observations (acts as E) = en_observations E" "en_all (acts as E) = en_all E"
  by (simp_all add: acts_def)

end
