(* ===== verification/Hold.thy ===== *)
theory Hold
  imports EngineState
begin

text \<open>
  What holds a job (\<open>internal/engine/hold.go\<close>): a person's pause of the job or of every job, and
  the job's sync window. The functions take \<open>L\<close>, the libraries, and \<open>cf\<close>, the configuration.
\<close>

section \<open>Holds\<close>

definition maxPauseNote :: nat where
  "maxPauseNote = 500"

definition pauseHold :: "pause \<Rightarrow> hold" where
  "pauseHold p = \<lparr>ho_kind = HoldPaused,
     ho_reason = ''paused by '' @ p_paused_by p @ (if p_reason p \<noteq> [] then '': '' @ p_reason p else []),
     ho_by = p_paused_by p, ho_since = Some (p_paused_at p), ho_note = p_reason p, ho_all = False\<rparr>"

definition allHold :: "pause \<Rightarrow> hold" where
  "allHold p = (let h = pauseHold p in h\<lparr>ho_reason := ''every job '' @ ho_reason h, ho_all := True\<rparr>)"

definition windowStatus :: "opts \<Rightarrow> time \<Rightarrow> meta_config \<Rightarrow> window_status option" where
  "windowStatus cf now cfg = (if eff_policy cfg \<noteq> PAuto then None else
     (case sync_window cfg of
        None \<Rightarrow> None
      | Some w \<Rightarrow> (let z = op_sync_zone cf; op = window_open w z now in
          Some \<lparr>ws_spec = sw_spec w, ws_duration = sw_duration w, ws_zone = z, ws_open = op,
                ws_until = (if op then window_next_close w z now else window_next_open w z now)\<rparr>)))"

definition window_hold :: "libs \<Rightarrow> window_status option \<Rightarrow> hold option" where
  "window_hold L ws = (case ws of
       None \<Rightarrow> None
     | Some w \<Rightarrow> if ws_open w then None
         else Some \<lparr>ho_kind = HoldWindow,
           ho_reason = ''outside its sync window'' @ (case ws_until w of None \<Rightarrow> []
             | Some t \<Rightarrow> '', next opens '' @ lib_fmt L (ws_zone w) t),
           ho_by = [], ho_since = None, ho_note = [], ho_all = False\<rparr>)"

definition holdFrom :: "libs \<Rightarrow> hold option \<Rightarrow> window_status option \<Rightarrow> hold option" where
  "holdFrom L pause ws = (case pause of Some h \<Rightarrow> Some h | None \<Rightarrow> window_hold L ws)"

definition holdOn :: "hold option \<Rightarrow> deployment \<Rightarrow> hold option" where
  "holdOn h d = (case h of
       None \<Rightarrow> None
     | Some x \<Rightarrow> if ho_kind x = HoldWindow \<and> d_window_lifted_by d \<noteq> [] then None else Some x)"

text \<open>The index of the pauses in force: a later one of the list overwrites an earlier one.\<close>

definition holds :: "pause list \<Rightarrow> job_key \<rightharpoonup> hold" where
  "holds ps = map_of (rev (map (\<lambda>p. (JobKey (p_namespace p) (p_job_id p), pauseHold p)) ps))"

text \<open>
  \<open>allPause\<close> and \<open>pauseOf\<close> read the store; \<open>bad\<close> says whether the first and the second read fail.
\<close>

definition allPause :: "bool \<Rightarrow> store \<Rightarrow> store_error + hold option" where
  "allPause bad s = (case db bad (AllPause s) of
       Inl ErrNotFound \<Rightarrow> Inr None
     | Inl e \<Rightarrow> Inl e
     | Inr p \<Rightarrow> Inr (Some (allHold p)))"

definition pauseOf :: "bool \<times> bool \<Rightarrow> string \<Rightarrow> string \<Rightarrow> store \<Rightarrow> store_error + hold option" where
  "pauseOf bad ns job s = (case db (fst bad) (PauseOf ns job s) of
       Inl ErrNotFound \<Rightarrow> allPause (snd bad) s
     | Inl e \<Rightarrow> Inl e
     | Inr p \<Rightarrow> Inr (Some (pauseHold p)))"

section \<open>Pausing and resuming\<close>

definition setHold :: "job_key \<Rightarrow> hold option \<Rightarrow> engine \<Rightarrow> engine" where
  "setHold k h E = (case en_observations E k of
       None \<Rightarrow> E
     | Some ob \<Rightarrow> E\<lparr>en_observations := (en_observations E)(k \<mapsto> ob\<lparr>ob_hold := h\<rparr>)\<rparr>)"

definition with_all_hold :: "hold option \<Rightarrow> observation \<Rightarrow> observation" where
  "with_all_hold h ob = (case h of
       Some x \<Rightarrow> (case ob_hold ob of
           None \<Rightarrow> ob\<lparr>ob_hold := h\<rparr>
         | Some y \<Rightarrow> if ho_kind y = HoldWindow then ob\<lparr>ob_hold := h\<rparr> else ob)
     | None \<Rightarrow> (case ob_hold ob of
           None \<Rightarrow> ob
         | Some y \<Rightarrow> if ho_all y then ob\<lparr>ob_hold := None\<rparr> else ob))"

definition setAllHold :: "hold option \<Rightarrow> engine \<Rightarrow> engine" where
  "setAllHold h E = E\<lparr>en_all := h, en_observations := (\<lambda>k. map_option (with_all_hold h) (en_observations E k))\<rparr>"

text \<open>
  \<open>bad\<close> says which store calls fail: for \<open>Pause\<close> and \<open>PauseAll\<close> the write and the read back.
\<close>

definition Pause ::
  "opts \<Rightarrow> call \<Rightarrow> bool \<times> bool \<Rightarrow> string \<Rightarrow> string \<Rightarrow> string \<Rightarrow> string \<Rightarrow> engine \<Rightarrow> unit outcome" where
  "Pause cf c bad ns job actor note0 E =
     (let note = trim_space note0 in
      if actor = [] then (Inl ActorRequired, E)
      else if length note > maxPauseNote then (Inl PauseNoteTooLong, E)
      else if \<not> managedNS cf ns \<or> en_observations E (JobKey ns job) = None then (Inl NotPausable, E)
      else (case db (fst bad) (PauseJob c ns job actor note (en_store E)) of
          Inl e \<Rightarrow> (Inl (StoreError e), E)
        | Inr s \<Rightarrow>
            (let E1 = E\<lparr>en_store := s\<rparr>;
                 E2 = (case db (snd bad) (PauseOf ns job s) of
                     Inl _ \<Rightarrow> E1
                   | Inr p \<Rightarrow> setHold (JobKey ns job) (Some (pauseHold p)) E1)
             in (Inr (), kick_detection E2))))"

definition Resume :: "opts \<Rightarrow> call \<Rightarrow> bool \<Rightarrow> string \<Rightarrow> string \<Rightarrow> string \<Rightarrow> engine \<Rightarrow> unit outcome" where
  "Resume cf c bad ns job actor E =
     (if actor = [] then (Inl ActorRequired, E)
      else if \<not> managedNS cf ns then (Inl (StoreError ErrNotFound), E)
      else (case db bad (ResumeJob c ns job actor (en_store E)) of
          Inl e \<Rightarrow> (Inl (StoreError e), E)
        | Inr s \<Rightarrow> (Inr (), kick_detection (setHold (JobKey ns job) None (E\<lparr>en_store := s\<rparr>)))))"

definition PauseAllJobs :: "call \<Rightarrow> bool \<times> bool \<Rightarrow> string \<Rightarrow> string \<Rightarrow> engine \<Rightarrow> unit outcome" where
  "PauseAllJobs c bad actor note0 E =
     (let note = trim_space note0 in
      if actor = [] then (Inl ActorRequired, E)
      else if length note > maxPauseNote then (Inl PauseNoteTooLong, E)
      else (case db (fst bad) (PauseAll c actor note (en_store E)) of
          Inl e \<Rightarrow> (Inl (StoreError e), E)
        | Inr s \<Rightarrow>
            (let E1 = E\<lparr>en_store := s\<rparr>;
                 E2 = (case db (snd bad) (AllPause s) of
                     Inl _ \<Rightarrow> E1
                   | Inr p \<Rightarrow> setAllHold (Some (allHold p)) E1)
             in (Inr (), acts [NotifyPause False actor note] (kick_detection E2)))))"

definition ResumeAllJobs :: "call \<Rightarrow> bool \<Rightarrow> string \<Rightarrow> engine \<Rightarrow> unit outcome" where
  "ResumeAllJobs c bad actor E =
     (if actor = [] then (Inl ActorRequired, E)
      else (case db bad (ResumeAll c actor (en_store E)) of
          Inl e \<Rightarrow> (Inl (StoreError e), E)
        | Inr s \<Rightarrow> (Inr (), acts [NotifyPause True actor []]
            (kick_detection (setAllHold None (E\<lparr>en_store := s\<rparr>))))))"

section \<open>What holds a job\<close>

lemma pauseOf_None:
  "pauseOf bad ns job s = Inr None \<longleftrightarrow>
     \<not> fst bad \<and> \<not> snd bad \<and> \<not> list_ex (pause_of_job ns job) (job_pauses s) \<and> \<not> list_ex in_force (nops_pauses s)"
  by (auto simp: pauseOf_def allPause_def db_def PauseOf_def AllPause_def find_None_ex simp flip: find_None_ex
      split: option.splits if_splits)

end
