(* ===== verification/Apply.thy ===== *)
theory Apply
  imports Hold Runner
begin

text \<open>
  The apply loop (\<open>internal/engine/apply.go\<close>): one step of one deployment, from detected to
  completed, and the decisions of a person. A step gets the deployment as the loop read it, which
  may be older than the row; everything it writes goes through the store's compare-and-set.

  An \<open>apply_env\<close> is what a step meets: the clock, what Nomad answers to each of its calls, and
  which calls of the store fail, numbered by their place in the code.
\<close>

record apply_env =
  ae_now :: time
  ae_call :: call
  ae_bad :: "nat \<Rightarrow> bool"
  ae_live :: "nomad_error + job"
  ae_plan :: "job \<Rightarrow> nomad_error + plan"
  ae_register :: "job \<Rightarrow> nomad_error + register_result"
  ae_reread :: "nomad_error + job"
  ae_deployment :: "nomad_error + nomad_deployment option"
  ae_allocs :: "nomad_error + alloc list"
  ae_unfinished :: "nomad_error + bool"
  ae_revision :: "string \<Rightarrow> nomad_error + job"
  ae_run :: "deployment_hook \<Rightarrow> runner_env"
  ae_promote :: "nomad_error + unit"

section \<open>Transitions\<close>

definition failedPhase :: "dstate \<Rightarrow> string" where
  "failedPhase from_st = (case from_st of PreHook \<Rightarrow> ''pre'' | Applying \<Rightarrow> ''apply'' | PostHook \<Rightarrow> ''post''
     | _ \<Rightarrow> ''detection'')"

definition notifyOnCompleted :: "libs \<Rightarrow> deployment \<Rightarrow> bool" where
  "notifyOnCompleted L d = (case lib_dec L (d_job_spec d) of
       Inl _ \<Rightarrow> False | Inr j \<Rightarrow> notify_completed (meta_of L (j_meta j)))"

definition announce :: "libs \<Rightarrow> bool \<Rightarrow> deployment \<Rightarrow> dstate \<Rightarrow> dstate \<Rightarrow> engine \<Rightarrow> engine" where
  "announce L bad d from_st to_st E =
     (if to_st = PendingApproval \<or> to_st = Failed \<or> (to_st = Completed \<and> notifyOnCompleted L d)
      then (case db bad (GetDeployment (d_id d) (en_store E)) of
          Inl _ \<Rightarrow> E
        | Inr fresh \<Rightarrow> acts [Notify fresh (if to_st = Failed then failedPhase from_st else [])] E)
      else E)"

text \<open>
  \<open>Engine.transition\<close>: the error, if any, and the engine. A conflict is skipped. The store calls
  are the write (\<open>bad 0\<close>) and the reload for the notification (\<open>bad 1\<close>).
\<close>

definition engine_move :: "dstate \<Rightarrow> dstate \<Rightarrow> string \<Rightarrow> transition" where
  "engine_move from_st to_st msg = \<lparr>t_from = Some from_st, t_actor = ''nops'', t_message = msg,
     t_error = (if to_st = Failed then msg else []), t_applied_index = 0, t_eval_id = [], t_decided_by = []\<rparr>"

definition engine_transition ::
  "libs \<Rightarrow> call \<Rightarrow> (nat \<Rightarrow> bool) \<Rightarrow> deployment \<Rightarrow> dstate \<Rightarrow> string \<Rightarrow> engine \<Rightarrow> store_error option \<times> engine" where
  "engine_transition L c bad d to_st msg E =
     (case db (bad 0) (Transition c (d_id d) to_st (engine_move (d_state d) to_st msg) (en_store E)) of
        Inl e \<Rightarrow> (if e = ErrStateConflict \<or> e = ErrInvalidTransition then None else Some e, E)
      | Inr s \<Rightarrow> (None, announce L (bad 1) d (d_state d) to_st (E\<lparr>en_store := s\<rparr>)))"

definition applyTransition ::
  "libs \<Rightarrow> apply_env \<Rightarrow> deployment \<Rightarrow> dstate \<Rightarrow> string \<Rightarrow> engine \<Rightarrow> engine" where
  "applyTransition L env d to_st msg E =
     (case engine_transition L (ae_call env) (ae_bad env) d to_st msg E of
        (Some _, E') \<Rightarrow> E'
      | (None, E') \<Rightarrow> if to_st = Completed \<or> to_st = Failed then kick_detection E' else E')"

section \<open>Specs\<close>

definition parseJobSpec :: "libs \<Rightarrow> deployment \<Rightarrow> string + job" where
  "parseJobSpec L d = bindE (lib_dec L (d_job_spec d)) (\<lambda>j. Inr (j\<lparr>j_namespace := Some (d_namespace d)\<rparr>))"

definition Rerun :: "deployment \<Rightarrow> bool" where
  "Rerun d = (d_retry_of d \<noteq> [] \<and> d_plan_diff d = [])"

definition nextAfterDecision :: "libs \<Rightarrow> deployment \<Rightarrow> job \<Rightarrow> dstate" where
  "nextAfterDecision L d j = (if Rerun d then Applying
     else if pre_hooks (meta_of L (j_meta j)) \<noteq> [] then PreHook else Applying)"

definition deepCopyJob :: "libs \<Rightarrow> job \<Rightarrow> string + job" where
  "deepCopyJob L j = bindE (lib_enc L j) (lib_dec L)"

text \<open>The counts of the live groups, by name; of two groups of a name the later one counts.\<close>

definition live_counts :: "job \<Rightarrow> string \<rightharpoonup> int" where
  "live_counts live = map_of (rev (concat (map (\<lambda>g. case g of
       Some g' \<Rightarrow> (case (g_name g', g_count g') of (Some n, Some c) \<Rightarrow> [(n, c)] | _ \<Rightarrow> [])
     | None \<Rightarrow> []) (j_groups live))))"

definition scaled_count :: "(string \<rightharpoonup> int) \<Rightarrow> task_group \<Rightarrow> int option" where
  "scaled_count counts g = (if g_scaling g then (case g_name g of None \<Rightarrow> None | Some n \<Rightarrow> counts n) else None)"

definition substitute_group :: "(string \<rightharpoonup> int) \<Rightarrow> task_group \<Rightarrow> task_group" where
  "substitute_group counts g = (case scaled_count counts g of None \<Rightarrow> g | Some c \<Rightarrow> g\<lparr>g_count := Some c\<rparr>)"

definition substituteScalingCounts :: "libs \<Rightarrow> job \<Rightarrow> job \<Rightarrow> string + job" where
  "substituteScalingCounts L j live = (let counts = live_counts live in
     if \<not> list_ex (\<lambda>g. case g of None \<Rightarrow> False | Some g' \<Rightarrow> scaled_count counts g' \<noteq> None) (j_groups j) then Inr j
     else bindE (deepCopyJob L j)
       (\<lambda>cp. Inr (cp\<lparr>j_groups := map (map_option (substitute_group counts)) (j_groups cp)\<rparr>)))"

text \<open>A version is a \<open>uint64\<close>.\<close>

definition nextVersion :: "job \<Rightarrow> job \<Rightarrow> job" where
  "nextVersion j live = j\<lparr>j_version := Some ((derefUint64 (j_version live) + 1) mod 2 ^ 64)\<rparr>"

definition submissionOf :: "deployment \<Rightarrow> submission option" where
  "submissionOf d = (if d_job_source d = [] then None
     else Some \<lparr>sub_source = d_job_source d, sub_format = ''hcl2'', sub_variables = d_job_vars d\<rparr>)"

definition diffHashOf :: "libs \<Rightarrow> job_diff \<Rightarrow> string + string" where
  "diffHashOf L d = bindE (lib_diff_json L
       (d\<lparr>jd_groups := map (map_option (\<lambda>g. g\<lparr>gd_updates := []\<rparr>)) (jd_groups d)\<rparr>))
     (\<lambda>b. Inr (lib_sha L b))"

definition sameDiff :: "string \<Rightarrow> string \<Rightarrow> bool" where
  "sameDiff stored fresh = (stored \<noteq> [] \<and> stored = fresh)"

text \<open>\<open>moveCASIndex\<close>: an error other than a conflict, the engine, and the deployment as it then is.\<close>

definition moveCASIndex ::
  "call \<Rightarrow> bool \<Rightarrow> deployment \<Rightarrow> nat \<Rightarrow> engine \<Rightarrow> store_error option \<times> engine \<times> deployment" where
  "moveCASIndex c bad d idx E =
     (case db bad (MoveCASIndex c (d_id d) (d_state d) (d_cas_index d) idx (en_store E)) of
        Inl e \<Rightarrow> (if e = ErrStateConflict then None else Some e, E, d)
      | Inr s \<Rightarrow> (None, E\<lparr>en_store := s\<rparr>, d\<lparr>d_cas_index := idx\<rparr>))"

section \<open>Leaving detected\<close>

definition stepDetected :: "libs \<Rightarrow> opts \<Rightarrow> apply_env \<Rightarrow> deployment \<Rightarrow> engine \<Rightarrow> engine" where
  "stepDetected L cf env d E =
     (if d_policy d \<noteq> PolAuto then kick_detection E
      else (case parseJobSpec L d of
        Inl _ \<Rightarrow> E
      | Inr j \<Rightarrow> (case pauseOf (ae_bad env 2, ae_bad env 3) (d_namespace d) (d_job_id d) (en_store E) of
          Inl _ \<Rightarrow> E
        | Inr pause \<Rightarrow>
            (case holdOn (holdFrom L pause (windowStatus cf (ae_now env) (meta_of L (j_meta j)))) d of
               Some _ \<Rightarrow> kick_detection E
             | None \<Rightarrow> applyTransition L env d (nextAfterDecision L d j) [] E))))"


section \<open>Hooks\<close>

definition frozenTimeout :: "libs \<Rightarrow> deployment_hook \<Rightarrow> duration" where
  "frozenTimeout L h = (case lib_dec L (h_job_spec h) of
       Inl _ \<Rightarrow> defaultHookTimeout
     | Inr j \<Rightarrow> (let t = hook_timeout (meta_of L (j_meta j)) in if 0 < t then t else defaultHookTimeout))"

definition revisionJob :: "libs \<Rightarrow> deployment_hook \<Rightarrow> string + job" where
  "revisionJob L h = (case lib_dec L (h_job_spec h) of
       Inl m \<Rightarrow> Inl (''decode spec of hook '' @ h_hook_id h @ '': '' @ m)
     | Inr j \<Rightarrow> Inr (j\<lparr>j_name := (if j_name j = None then Some (h_hook_id h) else j_name j),
                      j_id := Some (h_revision h)\<rparr>))"

text \<open>\<open>registerRevision\<close>: the error's text, if any, and what was sent to Nomad.\<close>

definition registerRevision ::
  "libs \<Rightarrow> apply_env \<Rightarrow> string \<Rightarrow> deployment_hook \<Rightarrow> string option \<times> action list" where
  "registerRevision L env ns h = (case revisionJob L h of
       Inl m \<Rightarrow> (Some m, [])
     | Inr j0 \<Rightarrow>
         (let j1 = j0\<lparr>j_namespace := Some ns\<rparr> in
          case (case ae_revision env (h_revision h) of
                  Inl e \<Rightarrow> if is_not_found e then Inr (0, j1) else Inl e
                | Inr live \<Rightarrow> Inr (derefUint64 (j_modify_index live), nextVersion j1 live)) of
            Inl e \<Rightarrow> (Some (err_text e), [])
          | Inr (idx, j) \<Rightarrow> (case ae_plan env j of
                Inl e \<Rightarrow> (Some (err_text e), [])
              | Inr p \<Rightarrow> if \<not> plan_drift p then (None, [])
                  else (case ae_register env j of
                      Inl e \<Rightarrow> (Some (err_text e), [Register j idx False None])
                    | Inr _ \<Rightarrow> (None, [Register j idx False None])))))"

definition hookFailure :: "string \<Rightarrow> string \<Rightarrow> string" where
  "hookFailure phase what = phase @ ''-hook '' @ what @
     (if phase = ''pre'' then '' (live job left untouched)'' else '' (apply already live, not undone)'')"

text \<open>
  \<open>hookStart\<close>: when the hook became the one being worked on; \<open>prev\<close> is the hook before it, if any.
\<close>

definition hookStart :: "bool \<Rightarrow> deployment \<Rightarrow> string \<Rightarrow> deployment_hook option \<Rightarrow> store \<Rightarrow> time" where
  "hookStart bad d phase prev s = (case prev of
       None \<Rightarrow> d_updated_at d
     | Some h \<Rightarrow> (case db bad (GetHookRun (d_id d) phase (h_position h) s) of
         Inl _ \<Rightarrow> d_updated_at d
       | Inr r \<Rightarrow> (case r_finished_at r of None \<Rightarrow> d_updated_at d | Some t \<Rightarrow> t)))"

definition hook_state_str :: "hook_state \<Rightarrow> string" where
  "hook_state_str st = (case st of HookDispatching \<Rightarrow> ''dispatching'' | HookRunning \<Rightarrow> ''running''
     | HookSucceeded \<Rightarrow> ''succeeded'' | HookFailed \<Rightarrow> ''failed'' | HookTimedOut \<Rightarrow> ''timed_out'')"

definition request_of :: "deployment \<Rightarrow> job \<Rightarrow> string \<Rightarrow> duration \<Rightarrow> deployment_hook \<Rightarrow> hook_request" where
  "request_of d j phase timeout h = \<lparr>q_deployment = d_id d, q_namespace = d_namespace d, q_phase = phase,
     q_position = h_position h, q_hook = h_revision h, q_commit = d_commit_sha d, q_timeout = timeout,
     q_target = Some j\<rparr>"

text \<open>The loop over the hooks of the phase; \<open>prev\<close> is the one before the first of the list.\<close>

fun hook_phase ::
  "libs \<Rightarrow> apply_env \<Rightarrow> deployment \<Rightarrow> job \<Rightarrow> string \<Rightarrow> deployment_hook option \<Rightarrow> deployment_hook list \<Rightarrow> engine \<Rightarrow> engine" where
  "hook_phase L env d j phase prev [] E =
     applyTransition L env d (if phase = ''post'' then Completed else Applying) [] E"
| "hook_phase L env d j phase prev (h # hs) E =
     (let timeout = frozenTimeout L h in
      case registerRevision L env (d_namespace d) h of
        (Some msg, as) \<Rightarrow>
          (let E1 = acts as E in
           if timeout \<le> ae_now env - hookStart (ae_bad env 4) d phase prev (en_store E1)
           then applyTransition L env d Failed (hookFailure phase (h_hook_id h @ '': could not register it within '' @
                  lib_dur_text L timeout @ '': '' @ msg)) E1
           else E1)
      | (None, as) \<Rightarrow>
          (case Run L (ae_run env h) (request_of d j phase timeout h) (en_store E) of
             (res, s, _) \<Rightarrow>
               (let E1 = acts [RunHook (d_id d) phase (h_position h) (h_revision h)] (acts as E)\<lparr>en_store := s\<rparr> in
                case res of
                  Inl _ \<Rightarrow> E1
                | Inr r \<Rightarrow>
                    if hs_state r = HookSucceeded then hook_phase L env d j phase (Some h) hs E1
                    else if hs_state r = HookFailed \<or> hs_state r = HookTimedOut
                    then applyTransition L env d Failed (hookFailure phase (h_hook_id h @ '' '' @
                           hook_state_str (hs_state r) @ '': '' @ hs_error r)) E1
                    else E1)))"

definition stepHook :: "libs \<Rightarrow> apply_env \<Rightarrow> string \<Rightarrow> deployment \<Rightarrow> engine \<Rightarrow> engine" where
  "stepHook L env phase d E = (case parseJobSpec L d of
       Inl _ \<Rightarrow> E
     | Inr j \<Rightarrow> (case db (ae_bad env 5) (Inr (DeploymentHooks (d_id d) (en_store E)) :: store_error + deployment_hook list) of
         Inl _ \<Rightarrow> E
       | Inr frozen \<Rightarrow>
           (let hs = filter (\<lambda>h. h_phase h = phase) frozen in
            if hs = [] then applyTransition L env d Failed (phase @
              ''-hook: the deployment has no frozen hook (created by an older nops): push a new commit or retry it'') E
            else hook_phase L env d j phase None hs E)))"

section \<open>The register\<close>

definition registerRetry :: "libs \<Rightarrow> opts \<Rightarrow> apply_env \<Rightarrow> deployment \<Rightarrow> nomad_error \<Rightarrow> engine \<Rightarrow> engine" where
  "registerRetry L cf env d cause E =
     (case db (ae_bad env 6) (AppliedSince (d_id d) (en_store E)) of
        Inl _ \<Rightarrow> E
      | Inr since \<Rightarrow>
          if since + op_apply_timeout cf < ae_now env
          then applyTransition L env d Failed (''could not register within '' @
                 lib_dur_text L (op_apply_timeout cf) @ '': '' @ err_text cause) E
          else E)"

text \<open>The end of the register step: the live job read again and its index saved.\<close>

definition record_applied :: "apply_env \<Rightarrow> deployment \<Rightarrow> string \<Rightarrow> engine \<Rightarrow> engine" where
  "record_applied env d eval E = (case ae_reread env of
       Inl _ \<Rightarrow> E
     | Inr applied \<Rightarrow>
         (case db (ae_bad env 7) (SetApplied (ae_call env) (d_id d) (derefUint64 (j_modify_index applied))
                (derefUint64 (j_version applied)) eval (en_store E)) of
            Inl _ \<Rightarrow> E
          | Inr s \<Rightarrow> E\<lparr>en_store := s\<rparr>))"

text \<open>The register at the saved index, when the live job is still at it.\<close>

definition register_at_index :: "libs \<Rightarrow> opts \<Rightarrow> apply_env \<Rightarrow> deployment \<Rightarrow> job \<Rightarrow> engine \<Rightarrow> engine" where
  "register_at_index L cf env d j E = (case ae_plan env j of
       Inl e \<Rightarrow> registerRetry L cf env d e E
     | Inr p \<Rightarrow>
         if plan_drift p then
           (let E1 = acts [Register j (d_cas_index d) False (submissionOf d)] E in
            case ae_register env j of
              Inl e \<Rightarrow> (case e of
                  CASConflict m \<Rightarrow> if d_diff_hash d \<noteq> [] then registerRetry L cf env d e E1
                    else applyTransition L env d Failed (''job modified outside nops: '' @ m) E1
                | _ \<Rightarrow> registerRetry L cf env d e E1)
            | Inr res \<Rightarrow> record_applied env d (rr_eval_id res) E1)
         else if Rerun d then record_applied env d [] E
         else applyTransition L env d Completed ''already in sync'' E)"

text \<open>The live index moved: a register already done, a scale, or a conflict.\<close>

definition register_moved :: "libs \<Rightarrow> opts \<Rightarrow> apply_env \<Rightarrow> deployment \<Rightarrow> job \<Rightarrow> nat \<Rightarrow> engine \<Rightarrow> engine" where
  "register_moved L cf env d j idx E = (case ae_plan env j of
       Inl e \<Rightarrow> registerRetry L cf env d e E
     | Inr p \<Rightarrow>
         if plan_drift p then
           (case diffHashOf L (the p) of
              Inl _ \<Rightarrow> E
            | Inr fresh \<Rightarrow>
                if sameDiff (d_diff_hash d) fresh
                then fst (snd (moveCASIndex (ae_call env) (ae_bad env 8) d idx E))
                else applyTransition L env d Failed ''conflict: live job changed and our spec no longer applies'' E)
         else record_applied env d [] E)"

definition stepRegister :: "libs \<Rightarrow> opts \<Rightarrow> apply_env \<Rightarrow> deployment \<Rightarrow> engine \<Rightarrow> engine" where
  "stepRegister L cf env d E = (case parseJobSpec L d of
       Inl _ \<Rightarrow> E
     | Inr j0 \<Rightarrow> (case ae_live env of
         Inl e \<Rightarrow> if is_not_found e
           then (if 0 = d_cas_index d then register_at_index L cf env d j0 E else register_moved L cf env d j0 0 E)
           else registerRetry L cf env d e E
       | Inr live \<Rightarrow> (case substituteScalingCounts L j0 live of
           Inl _ \<Rightarrow> E
         | Inr j1 \<Rightarrow>
             (let idx = derefUint64 (j_modify_index live); j = nextVersion j1 live in
              if idx = d_cas_index d then register_at_index L cf env d j E else register_moved L cf env d j idx E))))"


section \<open>Health\<close>

datatype health = Waiting | Healthy | Unhealthy | AwaitingPromotion | Promoted

definition autoPromotes :: "job \<Rightarrow> task_group \<Rightarrow> bool" where
  "autoPromotes j g = ((case g_update g of None \<Rightarrow> j_update j | Some u \<Rightarrow> Some u) = Some (Some True))"

text \<open>The groups whose canaries a person has to promote, with their state in the Nomad deployment.\<close>

definition manual_canaries :: "nomad_deployment \<Rightarrow> job \<Rightarrow> canary_state list" where
  "manual_canaries dep j = concat (map (\<lambda>g. case g of
       None \<Rightarrow> []
     | Some g' \<Rightarrow> (case g_name g' of
         None \<Rightarrow> []
       | Some n \<Rightarrow> (case map_of (nd_groups dep) n of
           None \<Rightarrow> []
         | Some st \<Rightarrow> if cs_desired_canaries st = 0 \<or> autoPromotes j g' then [] else [st]))) (j_groups j))"

definition canary_ready :: "canary_state \<Rightarrow> bool" where
  "canary_ready st = (\<not> cs_promoted st \<and> int (cs_placed_canaries st) \<ge> cs_desired_canaries st \<and>
     cs_healthy_allocs st \<ge> cs_desired_canaries st)"

definition canaryHealth :: "nomad_deployment \<Rightarrow> job \<Rightarrow> health" where
  "canaryHealth dep j =
     (let ms = manual_canaries dep j; manual = length ms;
          promoted = length (filter cs_promoted ms); ready = length (filter canary_ready ms) in
      if manual = 0 then Waiting
      else if promoted = manual then Promoted
      else if ready + promoted = manual then AwaitingPromotion
      else Waiting)"

definition neverHasAllocations :: "job \<Rightarrow> bool" where
  "neverHasAllocations j =
     (if j_is_periodic j \<or> j_is_parameterized j then True
      else if j_groups j = [] then False
      else \<not> list_ex (\<lambda>g. case g of None \<Rightarrow> True
        | Some g' \<Rightarrow> (case g_count g' of None \<Rightarrow> True | Some c \<Rightarrow> c > 0)) (j_groups j))"

definition down :: "alloc \<Rightarrow> bool" where
  "down a = (al_client_status a = ''failed'' \<or> al_client_status a = ''lost'')"

text \<open>The verdict on the allocations of the applied version and of the scales after it.\<close>

definition alloc_health :: "nomad_error + bool \<Rightarrow> alloc list \<Rightarrow> nomad_error + health \<times> string" where
  "alloc_health unfinished ours =
     (if ours = [] then Inr (Waiting, [])
      else (let replaced = length (filter (\<lambda>a. down a \<and> al_next a \<noteq> []) ours);
                rescheduling = length (filter (\<lambda>a. down a \<and> al_next a = [] \<and> al_followup a \<noteq> []) ours) in
        case find (\<lambda>a. down a \<and> al_next a = [] \<and> al_followup a = []) ours of
          Some a \<Rightarrow> bindE unfinished (\<lambda>u. Inr (if u then (Waiting, []) else (Unhealthy, al_failure a)))
        | None \<Rightarrow>
            if rescheduling > 0 then Inr (Waiting, [])
            else if list_ex (\<lambda>a. al_next a = [] \<and> al_client_status a \<noteq> ''running'' \<and> al_client_status a \<noteq> ''complete'') ours
              then Inr (Waiting, [])
            else if replaced = 1 then Inr (Healthy, ''healthy after Nomad replaced 1 failed or lost allocation'')
            else if replaced > 1 then Inr (Healthy, ''healthy after Nomad replaced '' @ show_nat replaced @ '' failed or lost allocations'')
            else Inr (Healthy, [])))"

text \<open>The errors of a health check: Nomad's, the store's, or of the spec.\<close>

datatype health_error = HealthNomad nomad_error | HealthStore store_error | HealthSpec string

definition from_nomad :: "nomad_error + 'a \<Rightarrow> health_error + 'a" where
  "from_nomad r = (case r of Inl e \<Rightarrow> Inl (HealthNomad e) | Inr x \<Rightarrow> Inr x)"

definition from_spec :: "string + 'a \<Rightarrow> health_error + 'a" where
  "from_spec r = (case r of Inl e \<Rightarrow> Inl (HealthSpec e) | Inr x \<Rightarrow> Inr x)"

definition scaledSinceRegister :: "libs \<Rightarrow> apply_env \<Rightarrow> deployment \<Rightarrow> job \<Rightarrow> health_error + bool" where
  "scaledSinceRegister L env d live =
     (if d_applied_version d = None then Inr False
      else bindE (from_spec (parseJobSpec L d)) (\<lambda>j.
           bindE (from_spec (substituteScalingCounts L j live)) (\<lambda>j'.
           bindE (from_nomad (ae_plan env j')) (\<lambda>p. Inr (\<not> plan_drift p)))))"

text \<open>\<open>moveAppliedIndex\<close>: the error or whether it moved, and the engine.\<close>

definition moveAppliedIndex ::
  "apply_env \<Rightarrow> deployment \<Rightarrow> nat \<Rightarrow> engine \<Rightarrow> (health_error + bool) \<times> engine" where
  "moveAppliedIndex env d idx E =
     (case db (ae_bad env 9) (MoveAppliedIndex (ae_call env) (d_id d) (AppliedIndex d) idx (en_store E)) of
        Inl e \<Rightarrow> (if e = ErrStateConflict then Inr False else Inl (HealthStore e), E)
      | Inr s \<Rightarrow> (Inr True, E\<lparr>en_store := s\<rparr>))"

definition health_of_allocs :: "apply_env \<Rightarrow> deployment \<Rightarrow> job \<Rightarrow> health_error + health \<times> string" where
  "health_of_allocs env d live =
     (if neverHasAllocations live then Inr (Healthy, [])
      else (let version = (case d_applied_version d of None \<Rightarrow> derefUint64 (j_version live) | Some v \<Rightarrow> v) in
        bindE (from_nomad (ae_allocs env)) (\<lambda>allocs.
          from_nomad (alloc_health (ae_unfinished env) (filter (\<lambda>a. version \<le> al_job_version a) allocs)))))"

definition health_of_live ::
  "libs \<Rightarrow> apply_env \<Rightarrow> deployment \<Rightarrow> engine \<Rightarrow> (health_error + health \<times> string) \<times> engine" where
  "health_of_live L env d E = (case from_nomad (ae_live env) of
       Inl e \<Rightarrow> (Inl e, E)
     | Inr live \<Rightarrow>
         (let idx = derefUint64 (j_modify_index live) in
          if idx = AppliedIndex d then (health_of_allocs env d live, E)
          else (case scaledSinceRegister L env d live of
              Inl e \<Rightarrow> (Inl e, E)
            | Inr scaled \<Rightarrow>
                if \<not> scaled then (Inr (Unhealthy, ''job modified outside nops while waiting for health (live index '' @
                    show_nat idx @ '', applied '' @ show_nat (AppliedIndex d) @ '')''), E)
                else (case moveAppliedIndex env d idx E of
                    (Inl e, E') \<Rightarrow> (Inl e, E')
                  | (Inr moved, E') \<Rightarrow> if moved then (health_of_allocs env d live, E') else (Inr (Waiting, []), E')))))"

definition applyHealth ::
  "libs \<Rightarrow> apply_env \<Rightarrow> deployment \<Rightarrow> engine \<Rightarrow> (health_error + health \<times> string) \<times> engine" where
  "applyHealth L env d E = (case from_nomad (ae_deployment env) of
       Inl e \<Rightarrow> (Inl e, E)
     | Inr dep \<Rightarrow> (case dep of
         None \<Rightarrow> health_of_live L env d E
       | Some nd \<Rightarrow>
           if nd_job_modify_index nd \<noteq> AppliedIndex d then health_of_live L env d E
           else if nd_status nd = ''successful'' then (Inr (Healthy, []), E)
           else if nd_status nd = ''failed'' \<or> nd_status nd = ''cancelled'' then
             (Inr (Unhealthy, ''nomad deployment '' @ nd_status nd @ '': '' @ nd_status_description nd), E)
           else if nd_status nd = ''running'' then
             (bindE (from_spec (parseJobSpec L d)) (\<lambda>j. Inr (canaryHealth nd j, [])), E)
           else (Inr (Waiting, []), E)))"

definition awaitPromotion :: "apply_env \<Rightarrow> deployment \<Rightarrow> engine \<Rightarrow> engine" where
  "awaitPromotion env d E = (case db (ae_bad env 10) (MarkAwaitingPromotion (ae_call env) (d_id d) (en_store E)) of
       Inl _ \<Rightarrow> E
     | Inr (s, wrote) \<Rightarrow>
         if \<not> wrote then E\<lparr>en_store := s\<rparr>
         else (case db (ae_bad env 11) (GetDeployment (d_id d) s) of
             Inl _ \<Rightarrow> E\<lparr>en_store := s\<rparr>
           | Inr fresh \<Rightarrow> acts [Notify fresh []] (E\<lparr>en_store := s\<rparr>)))"

definition promoted :: "apply_env \<Rightarrow> deployment \<Rightarrow> engine \<Rightarrow> engine" where
  "promoted env d E = (case db (ae_bad env 12) (MarkPromoted (ae_call env) (d_id d) (en_store E)) of
       Inl _ \<Rightarrow> E
     | Inr (s, _) \<Rightarrow> E\<lparr>en_store := s\<rparr>)"

text \<open>The time the wait is counted from, \<open>None\<close> while a person is waited for.\<close>

definition awaits_person :: "deployment \<Rightarrow> bool" where
  "awaits_person d = (d_promotion_wait_since d \<noteq> None \<and> d_promoted_at d = None)"

definition health_verdict :: "libs \<Rightarrow> apply_env \<Rightarrow> deployment \<Rightarrow> engine \<Rightarrow> engine" where
  "health_verdict L env d E = (case applyHealth L env d E of
       (Inl e, E1) \<Rightarrow>
         (case e of
            HealthNomad (JobNotFound _) \<Rightarrow>
              applyTransition L env d Failed ''job removed from Nomad outside nops while waiting for health'' E1
          | _ \<Rightarrow> E1)
     | (Inr (v, reason), E1) \<Rightarrow>
         (case v of
            Unhealthy \<Rightarrow> applyTransition L env d Failed (''apply did not become healthy: '' @ reason) E1
          | Healthy \<Rightarrow> (case parseJobSpec L d of
                Inl _ \<Rightarrow> E1
              | Inr j \<Rightarrow> applyTransition L env d
                  (if post_hooks (meta_of L (j_meta j)) \<noteq> [] then PostHook else Completed) reason E1)
          | AwaitingPromotion \<Rightarrow> awaitPromotion env d E1
          | Promoted \<Rightarrow> if awaits_person d then promoted env d E1 else E1
          | Waiting \<Rightarrow> E1))"

definition stepHealth :: "libs \<Rightarrow> opts \<Rightarrow> apply_env \<Rightarrow> deployment \<Rightarrow> engine \<Rightarrow> engine" where
  "stepHealth L cf env d E =
     (if awaits_person d then health_verdict L env d E
      else (case db (ae_bad env 6) (AppliedSince (d_id d) (en_store E)) of
          Inl _ \<Rightarrow> E
        | Inr since0 \<Rightarrow>
            (let since = (case d_promoted_at d of None \<Rightarrow> since0 | Some t \<Rightarrow> t) in
             if since + op_apply_timeout cf < ae_now env
             then applyTransition L env d Failed (''apply did not become healthy within '' @
                    lib_dur_text L (op_apply_timeout cf)) E
             else health_verdict L env d E)))"

definition stepApplying :: "libs \<Rightarrow> opts \<Rightarrow> apply_env \<Rightarrow> deployment \<Rightarrow> engine \<Rightarrow> engine" where
  "stepApplying L cf env d E = (if AppliedIndex d = 0 then stepRegister L cf env d E else stepHealth L cf env d E)"

definition applyStep :: "libs \<Rightarrow> opts \<Rightarrow> apply_env \<Rightarrow> deployment \<Rightarrow> engine \<Rightarrow> engine" where
  "applyStep L cf env d E = (case d_state d of
       Detected \<Rightarrow> stepDetected L cf env d E
     | PreHook \<Rightarrow> stepHook L env ''pre'' d E
     | Applying \<Rightarrow> stepApplying L cf env d E
     | PostHook \<Rightarrow> stepHook L env ''post'' d E
     | _ \<Rightarrow> E)"


section \<open>The loop\<close>

text \<open>
  \<open>applyCycle\<close> lists the active deployments and starts the step of each one of a managed namespace
  that is not in flight; the steps then run side by side. \<open>start_steps\<close> is what is started.
\<close>

definition startApply :: "string \<Rightarrow> engine \<Rightarrow> bool \<times> engine" where
  "startApply i E = (if i \<in> set (en_in_flight E) then (False, E)
     else (True, E\<lparr>en_in_flight := en_in_flight E @ [i]\<rparr>))"

definition finishApply :: "string \<Rightarrow> engine \<Rightarrow> engine" where
  "finishApply i E = E\<lparr>en_in_flight := filter (\<lambda>x. x \<noteq> i) (en_in_flight E)\<rparr>"

fun start_steps :: "opts \<Rightarrow> deployment list \<Rightarrow> engine \<Rightarrow> deployment list \<times> engine" where
  "start_steps cf [] E = ([], E)"
| "start_steps cf (d # ds) E =
     (if \<not> managedNS cf (d_namespace d) then start_steps cf ds E
      else (case startApply (d_id d) E of
          (False, E1) \<Rightarrow> start_steps cf ds E1
        | (True, E1) \<Rightarrow> (case start_steps cf ds E1 of (started, E2) \<Rightarrow> (d # started, E2))))"

definition applyCycle :: "opts \<Rightarrow> bool \<Rightarrow> engine \<Rightarrow> deployment list \<times> engine" where
  "applyCycle cf bad E = (if bad then ([], E) else start_steps cf (ListActive (en_store E)) E)"

section \<open>Decisions\<close>

text \<open>The store calls: the read (0), the pauses (2, 3), the transition (1).\<close>

definition Approve ::
  "libs \<Rightarrow> call \<Rightarrow> (nat \<Rightarrow> bool) \<Rightarrow> string \<Rightarrow> string \<Rightarrow> string \<Rightarrow> engine \<Rightarrow> unit outcome" where
  "Approve L c bad i hash actor E =
     (if actor = [] then (Inl ActorRequired, E)
      else (case db (bad 0) (GetDeployment i (en_store E)) of
        Inl e \<Rightarrow> (Inl (StoreError e), E)
      | Inr d \<Rightarrow>
          if d_state d \<noteq> PendingApproval then (Inl NotPendingApproval, E)
          else if d_spec_hash d \<noteq> hash then (Inl StaleApproval, E)
          else (case en_observations E (dep_key d) of
            None \<Rightarrow> (Inl NotInRepo, E)
          | Some ob \<Rightarrow>
              if ob_nomad_error ob \<noteq> [] then (Inl (NomadError (ob_nomad_error ob)), E)
              else (case pauseOf (bad 2, bad 3) (d_namespace d) (d_job_id d) (en_store E) of
                Inl e \<Rightarrow> (Inl (StoreError e), E)
              | Inr (Some h) \<Rightarrow> (Inl (Paused (ho_reason h)), E)
              | Inr None \<Rightarrow> (case parseJobSpec L d of
                  Inl m \<Rightarrow> (Inl (SpecError m), E)
                | Inr j \<Rightarrow>
                    (case db (bad 1) (Transition c i (nextAfterDecision L d j)
                        \<lparr>t_from = Some (d_state d), t_actor = actor, t_message = ''approved'', t_error = [],
                          t_applied_index = 0, t_eval_id = [], t_decided_by = actor\<rparr> (en_store E)) of
                       Inl e \<Rightarrow> (Inl (StoreError e), E)
                     | Inr s \<Rightarrow> (Inr (), E\<lparr>en_store := s\<rparr>)))))))"

definition Reject :: "call \<Rightarrow> (nat \<Rightarrow> bool) \<Rightarrow> string \<Rightarrow> string \<Rightarrow> engine \<Rightarrow> unit outcome" where
  "Reject c bad i actor E =
     (if actor = [] then (Inl ActorRequired, E)
      else (case db (bad 0) (GetDeployment i (en_store E)) of
        Inl e \<Rightarrow> (Inl (StoreError e), E)
      | Inr d \<Rightarrow>
          if d_state d \<noteq> PendingApproval then (Inl NotPendingApproval, E)
          else (case db (bad 1) (Transition c i Rejected
              \<lparr>t_from = Some (d_state d), t_actor = actor, t_message = ''rejected'', t_error = [],
                t_applied_index = 0, t_eval_id = [], t_decided_by = actor\<rparr> (en_store E)) of
             Inl e \<Rightarrow> (Inl (StoreError e), E)
           | Inr s \<Rightarrow> (Inr (), kick_detection (E\<lparr>en_store := s\<rparr>)))))"

text \<open>The store calls: the read (0), the request (1), the promotion (2).\<close>

definition Promote ::
  "libs \<Rightarrow> opts \<Rightarrow> call \<Rightarrow> apply_env \<Rightarrow> string \<Rightarrow> string \<Rightarrow> engine \<Rightarrow> unit outcome" where
  "Promote L cf c env i actor E =
     (if actor = [] then (Inl ActorRequired, E)
      else (case db (ae_bad env 0) (GetDeployment i (en_store E)) of
        Inl e \<Rightarrow> (Inl (StoreError e), E)
      | Inr d \<Rightarrow>
          if \<not> managedNS cf (d_namespace d) then (Inl (StoreError ErrNotFound), E)
          else if d_state d \<noteq> Applying \<or> d_promotion_wait_since d = None \<or> d_promoted_at d \<noteq> None
            then (Inl NotWaitingForPromotion, E)
          else (case parseJobSpec L d of
            Inl m \<Rightarrow> (Inl (SpecError m), E)
          | Inr j \<Rightarrow> (case ae_deployment env of
              Inl e \<Rightarrow> (Inl (NomadCall e), E)
            | Inr None \<Rightarrow> (Inl NotWaitingForPromotion, E)
            | Inr (Some nd) \<Rightarrow>
                if nd_job_modify_index nd \<noteq> AppliedIndex d \<or> nd_status nd \<noteq> ''running'' \<or>
                   canaryHealth nd j \<noteq> AwaitingPromotion
                then (Inl NotWaitingForPromotion, E)
                else (case db (ae_bad env 1) (MarkPromotionRequested c i actor (en_store E)) of
                  Inl e \<Rightarrow> (Inl (StoreError e), E)
                | Inr s \<Rightarrow>
                    (let E1 = acts [PromoteCanaries (d_namespace d) (nd_id nd)] (E\<lparr>en_store := s\<rparr>) in
                     case ae_promote env of
                       Inl e \<Rightarrow> (Inl (NomadCall e), E1)
                     | Inr _ \<Rightarrow> (case db (ae_bad env 2) (MarkPromoted c i s) of
                           Inl _ \<Rightarrow> (Inr (), E1)
                         | Inr (s', _) \<Rightarrow> (Inr (), E1\<lparr>en_store := s'\<rparr>))))))))"

end
