(* ===== verification/Detect.thy ===== *)
theory Detect
  imports Apply Redact Glob
begin

text \<open>
  The detection cycle (\<open>internal/engine/detect.go\<close>, \<open>hookrev.go\<close>, \<open>orphans.go\<close>, \<open>parsecache.go\<close>):
  from the files of the snapshots to the deployments, the observations, the hook revisions and the
  orphans. A \<open>detect_env\<close> is what a cycle meets: the clock, the new IDs, Nomad's answers by job,
  and which calls of the store fail, by job or by place in the code.
\<close>

record job_file =
  fl_path :: string
  fl_content :: string
  fl_vars :: string

record snapshot =
  sn_repository :: string
  sn_commit :: string
  sn_subject :: string
  sn_author :: string
  sn_files :: "job_file list"

record commit_ref =
  cr_repo :: string
  cr_sha :: string
  cr_subject :: string
  cr_author :: string

record parsed_file =
  pf_path :: string
  pf_commit :: commit_ref
  pf_job :: job
  pf_cfg :: meta_config
  pf_file :: string
  pf_vars :: string

record detect_env =
  de_now :: time
  de_call :: "job_key \<Rightarrow> call"
  de_move :: "string \<Rightarrow> call"
  de_bad :: "nat \<Rightarrow> bool"
  de_bad_job :: "job_key \<Rightarrow> nat \<Rightarrow> bool"
  de_bad_move :: "string \<Rightarrow> nat \<Rightarrow> bool"
  de_bad_ns :: "string \<Rightarrow> nat \<Rightarrow> bool"
  de_parse :: "string \<Rightarrow> string \<Rightarrow> string \<Rightarrow> nomad_error + job"
  de_live :: "job_key \<Rightarrow> nomad_error + job"
  de_plan :: "job \<Rightarrow> nomad_error + plan"
  de_jobs :: "string \<Rightarrow> nomad_error + job_stub list"
  de_stop :: "string \<Rightarrow> string \<Rightarrow> nomad_error + unit"

section \<open>Parsing\<close>

definition commitVars :: "string \<Rightarrow> string \<Rightarrow> string" where
  "commitVars vars commit = vars @ [CHR 0x0A] @ ''nops_commit'' @ '' = '' @ go_quote commit @ [CHR 0x0A]"

definition parseCacheKey :: "libs \<Rightarrow> string \<Rightarrow> string \<Rightarrow> string" where
  "parseCacheKey L content vars = lib_sha L content @ '':'' @ lib_sha L vars"

definition jobAllowed :: "string list \<Rightarrow> string \<Rightarrow> string \<Rightarrow> bool" where
  "jobAllowed patterns ns i = list_ex (\<lambda>p. path_match p (ns @ ''/'' @ i)) patterns"

definition defaultNamespace :: "job \<Rightarrow> job" where
  "defaultNamespace j = (if j_namespace j = None \<or> j_namespace j = Some [] then j\<lparr>j_namespace := Some ''default''\<rparr> else j)"

datatype file_outcome = FileParsed parsed_file | FileUnparsed | FileRefused refused_file

text \<open>\<open>parseFile\<close>: the outcome, and the entry for the next cache, if any.\<close>

definition parseFile ::
  "libs \<Rightarrow> opts \<Rightarrow> detect_env \<Rightarrow> string \<Rightarrow> (string \<rightharpoonup> job) \<Rightarrow> commit_ref \<Rightarrow> job_file \<Rightarrow>
   file_outcome \<times> (string \<times> job) option" where
  "parseFile L cf env parseNS prev ref f =
     (let vars = commitVars (fl_vars f) (cr_sha ref); key = parseCacheKey L (fl_content f) vars in
      case (case prev key of Some j \<Rightarrow> Inr j
            | None \<Rightarrow> bindE (de_parse env parseNS (fl_content f) vars) (\<lambda>j. Inr (defaultNamespace j))) of
        Inl _ \<Rightarrow> (FileUnparsed, None)
      | Inr j \<Rightarrow>
          (let entry = Some (key, j); k = keyOf j; ns = key_namespace k; i = key_id k in
           if i = [] then (FileUnparsed, entry)
           else if (case op_repository_jobs cf (cr_repo ref) of None \<Rightarrow> False | Some ps \<Rightarrow> \<not> jobAllowed ps ns i)
           then (FileRefused \<lparr>rf_repository = cr_repo ref, rf_path = fl_path f, rf_namespace = ns, rf_job_id = i\<rparr>, entry)
           else if \<not> managedNS cf ns then (FileUnparsed, entry)
           else (FileParsed \<lparr>pf_path = fl_path f, pf_commit = ref, pf_job = j, pf_cfg = meta_of L (j_meta j),
                   pf_file = fl_content f, pf_vars = vars\<rparr>, entry)))"

definition commit_of :: "snapshot \<Rightarrow> commit_ref" where
  "commit_of sn = \<lparr>cr_repo = sn_repository sn, cr_sha = sn_commit sn, cr_subject = sn_subject sn, cr_author = sn_author sn\<rparr>"

definition parse_outcomes ::
  "libs \<Rightarrow> opts \<Rightarrow> detect_env \<Rightarrow> (string \<rightharpoonup> job) \<Rightarrow> snapshot list \<Rightarrow>
   (file_outcome \<times> (string \<times> job) option) list" where
  "parse_outcomes L cf env prev snaps =
     (let parseNS = (case op_namespaces cf of [] \<Rightarrow> [] | ns # _ \<Rightarrow> ns) in
      concat (map (\<lambda>sn. map (parseFile L cf env parseNS prev (commit_of sn)) (sn_files sn)) snaps))"

definition parsed_of :: "(file_outcome \<times> 'a) list \<Rightarrow> parsed_file list" where
  "parsed_of rs = concat (map (\<lambda>r. case fst r of FileParsed pf \<Rightarrow> [pf] | _ \<Rightarrow> []) rs)"

definition refused_of :: "(file_outcome \<times> 'a) list \<Rightarrow> refused_file list" where
  "refused_of rs = concat (map (\<lambda>r. case fst r of FileRefused rf \<Rightarrow> [rf] | _ \<Rightarrow> []) rs)"

definition unparsed_of :: "(file_outcome \<times> 'a) list \<Rightarrow> nat" where
  "unparsed_of rs = length (filter (\<lambda>r. case fst r of FileUnparsed \<Rightarrow> True | _ \<Rightarrow> False) rs)"

definition next_cache :: "(file_outcome \<times> (string \<times> job) option) list \<Rightarrow> string \<rightharpoonup> job" where
  "next_cache rs = map_of (rev (concat (map (\<lambda>r. case snd r of None \<Rightarrow> [] | Some e \<Rightarrow> [e]) rs)))"

section \<open>Classifying\<close>

text \<open>The groups of files by job, those of one file only, in the order of the jobs.\<close>

definition single_files :: "parsed_file list \<Rightarrow> parsed_file list" where
  "single_files ps = concat (map (\<lambda>k. case filter (\<lambda>p. keyOf (pf_job p) = k) ps of [p] \<Rightarrow> [p] | _ \<Rightarrow> [])
     (sort (remdups (map (\<lambda>p. keyOf (pf_job p)) ps))))"

definition classify :: "parsed_file list \<Rightarrow> parsed_file list \<times> parsed_file list" where
  "classify ps = (let fs = single_files ps in
     (filter (\<lambda>p. is_hook (pf_cfg p)) fs, filter (\<lambda>p. \<not> is_hook (pf_cfg p) \<and> managed (pf_cfg p)) fs))"

definition hooks_in :: "string \<Rightarrow> parsed_file list \<Rightarrow> string \<rightharpoonup> parsed_file" where
  "hooks_in ns hs = map_of (rev (map (\<lambda>h. (key_id (keyOf (pf_job h)), h))
     (filter (\<lambda>h. key_namespace (keyOf (pf_job h)) = ns) hs)))"

section \<open>Freezing the hooks\<close>

definition specHash :: "libs \<Rightarrow> job \<Rightarrow> string + string" where
  "specHash L j = bindE (lib_enc L j) (\<lambda>b. Inr (lib_sha L b))"

definition revisionID :: "string \<Rightarrow> string \<Rightarrow> string" where
  "revisionID hook hash = hook @ ''-'' @ take 8 hash"

record freeze =
  fz_hooks :: "deployment_hook list"
  fz_text :: string
  fz_problem :: string

definition freeze_hook ::
  "libs \<Rightarrow> (string \<rightharpoonup> parsed_file) \<Rightarrow> string \<Rightarrow> nat \<Rightarrow> string \<Rightarrow> freeze \<Rightarrow> string + freeze" where
  "freeze_hook L hooks phase pos i fz =
     (let line = [CHR 0x0A] @ phase @ '':'' @ i @ '':'' in
      case hooks i of
        None \<Rightarrow> Inr (fz\<lparr>fz_problem := (if fz_problem fz = []
            then phase @ ''-hook '' @ go_quote i @ '' not found in repo'' else fz_problem fz),
          fz_text := fz_text fz @ line @ ''missing''\<rparr>)
      | Some hf \<Rightarrow>
          if HasErrors (pf_cfg hf) then Inr (fz\<lparr>fz_problem := (if fz_problem fz = []
              then phase @ ''-hook '' @ go_quote i @ '' has invalid meta'' else fz_problem fz),
            fz_text := fz_text fz @ line @ ''invalid''\<rparr>)
          else bindE (lib_enc L (pf_job hf)) (\<lambda>spec. let h = lib_sha L spec in
            Inr (fz\<lparr>fz_hooks := fz_hooks fz @ [\<lparr>h_phase = phase, h_position = int pos, h_hook_id = i,
                   h_revision = revisionID i h, h_spec_hash = h, h_job_spec = spec\<rparr>],
                 fz_text := fz_text fz @ line @ h\<rparr>)))"

fun freeze_phase ::
  "libs \<Rightarrow> (string \<rightharpoonup> parsed_file) \<Rightarrow> string \<Rightarrow> nat \<Rightarrow> string list \<Rightarrow> freeze \<Rightarrow> string + freeze" where
  "freeze_phase L hooks phase pos [] fz = Inr fz"
| "freeze_phase L hooks phase pos (i # is) fz =
     bindE (freeze_hook L hooks phase pos i fz) (freeze_phase L hooks phase (Suc pos) is)"

text \<open>The hooks, the hash of the deployment and the problem.\<close>

definition freezeHooks ::
  "libs \<Rightarrow> meta_config \<Rightarrow> (string \<rightharpoonup> parsed_file) \<Rightarrow> string \<Rightarrow> string + deployment_hook list \<times> string \<times> string" where
  "freezeHooks L cfg hooks target =
     (if pre_hooks cfg = [] \<and> post_hooks cfg = [] then Inr ([], target, [])
      else bindE (freeze_phase L hooks ''pre'' 0 (pre_hooks cfg) \<lparr>fz_hooks = [], fz_text = target, fz_problem = []\<rparr>)
        (\<lambda>fz. bindE (freeze_phase L hooks ''post'' 0 (post_hooks cfg) fz)
          (\<lambda>fz'. Inr (fz_hooks fz', lib_sha L (fz_text fz'), fz_problem fz'))))"

definition hookRefs :: "string list \<Rightarrow> (string \<rightharpoonup> parsed_file) \<Rightarrow> hook_ref list" where
  "hookRefs is hooks = map (\<lambda>i. \<lparr>hr_job_id = i, hr_timeout = (case hooks i of
       Some hf \<Rightarrow> if HasErrors (pf_cfg hf) then 0 else hook_timeout (pf_cfg hf) | None \<Rightarrow> 0)\<rparr>) is"

section \<open>One deployment\<close>

definition storePolicy :: "mpolicy \<Rightarrow> dpolicy" where
  "storePolicy p = (if p = PAuto then PolAuto else PolApproval)"

definition failed_or_rejected :: "deployment \<Rightarrow> bool" where
  "failed_or_rejected d = (d_state d = Failed \<or> d_state d = Rejected)"

definition blockedRetry :: "deployment \<Rightarrow> string \<Rightarrow> nat \<Rightarrow> string \<Rightarrow> string \<times> string" where
  "blockedRetry latest hash idx diffHash =
     (if \<not> failed_or_rejected latest then ([], [])
      else if d_retried_at latest \<noteq> None then ([], [])
      else if d_spec_hash latest \<noteq> hash then ([], [])
      else if AppliedIndex latest \<noteq> 0
        then (d_id latest, ''failed after applying this spec; push a new commit or retry it'')
      else if d_cas_index latest = idx \<or> sameDiff (d_diff_hash latest) diffHash
        then (d_id latest, (if d_state latest = Rejected then ''was rejected'' else ''failed'') @
               '' on the same live job; push a new commit or retry it'')
      else ([], []))"

definition retried :: "deployment \<Rightarrow> string \<Rightarrow> bool" where
  "retried latest hash = (failed_or_rejected latest \<and> d_retried_at latest \<noteq> None \<and> d_spec_hash latest = hash)"

text \<open>What one job brings to the reconciliation of its deployment.\<close>

record target =
  ta_key :: job_key
  ta_commit :: commit_ref
  ta_policy :: mpolicy
  ta_hash :: string
  ta_hooks :: "deployment_hook list"
  ta_problem :: string
  ta_index :: nat
  ta_drift :: bool
  ta_diff_hash :: string
  ta_redacted :: string
  ta_job :: job
  ta_file :: string
  ta_vars :: string
  ta_hold :: "hold option"
  ta_lifted_by :: string


text \<open>
  The guard and the effect of the rules on an active deployment, in the order of the code: the
  state to move it to and why; \<open>Keep\<close> leaves it and ends, \<open>Leave\<close> is \<open>leaveDetected\<close>.
\<close>

datatype ruling = MoveTo dstate string | Leave | Keep

definition rule_active :: "target \<Rightarrow> deployment \<Rightarrow> ruling" where
  "rule_active ta d =
     (if ta_policy ta = PNone then MoveTo Superseded ''policy changed to none''
      else if d_spec_hash d \<noteq> ta_hash ta then MoveTo Superseded (''newer spec at commit '' @ cr_sha (ta_commit ta))
      else if d_cas_index d \<noteq> ta_index ta then MoveTo Superseded ''job modified outside nops''
      else if \<not> ta_drift ta \<and> \<not> Rerun d then MoveTo Completed ''already in sync''
      else (case holdOn (ta_hold ta) d of
          Some h \<Rightarrow> if d_state d = Detected \<and> d_policy d = PolAuto then MoveTo Superseded (ho_reason h)
            else if d_state d = Detected \<and> d_policy d = PolApproval then Leave else Keep
        | None \<Rightarrow> if d_state d = Detected \<and> d_policy d = PolApproval then Leave else Keep))"

definition leave_move :: "target \<Rightarrow> dstate \<times> string" where
  "leave_move ta = (if ta_problem ta \<noteq> [] then (Failed, ta_problem ta @ '' at commit '' @ cr_sha (ta_commit ta))
     else (PendingApproval, ''waiting for approval''))"

text \<open>The deployment detection creates, and the message of its state.\<close>

definition target_deployment :: "target \<Rightarrow> string \<Rightarrow> deployment option \<Rightarrow> new_deployment" where
  "target_deployment ta spec retry_of = (let born = (if ta_problem ta \<noteq> [] then Failed
       else if ta_policy ta = PApproval then PendingApproval else Detected) in
     \<lparr>n_job_id = key_id (ta_key ta), n_namespace = key_namespace (ta_key ta), n_repository = cr_repo (ta_commit ta),
      n_commit_sha = cr_sha (ta_commit ta), n_commit_subject = cr_subject (ta_commit ta),
      n_commit_author = cr_author (ta_commit ta), n_spec_hash = ta_hash ta, n_job_spec = spec,
      n_job_source = ta_file ta, n_job_vars = ta_vars ta,
      n_plan_diff = (if retry_of \<noteq> None \<and> \<not> ta_drift ta then [] else ta_redacted ta),
      n_diff_hash = ta_diff_hash ta, n_policy = storePolicy (ta_policy ta), n_state = Some born,
      n_error = (if ta_problem ta \<noteq> [] then ta_problem ta @ '' at commit '' @ cr_sha (ta_commit ta) else []),
      n_cas_index = ta_index ta, n_retry_of = (case retry_of of None \<Rightarrow> [] | Some d \<Rightarrow> d_id d),
      n_window_lifted_by = ta_lifted_by ta, n_hooks = ta_hooks ta\<rparr>)"

definition create_target ::
  "libs \<Rightarrow> call \<Rightarrow> (nat \<Rightarrow> bool) \<Rightarrow> target \<Rightarrow> deployment option \<Rightarrow> engine \<Rightarrow> (engine_error + string \<times> string) \<times> engine" where
  "create_target L c bad ta retry_of E = (case lib_enc L (ta_job ta) of
       Inl m \<Rightarrow> (Inl (SpecError m), E)
     | Inr spec \<Rightarrow>
         (let n = target_deployment ta spec retry_of in
          case db (bad 4) (CreateDeployment c n (en_store E)) of
            Inl e \<Rightarrow> (if e = ErrActiveDeployment then Inr ([], []) else Inl (StoreError e), E)
          | Inr (s, d) \<Rightarrow>
              (let E1 = E\<lparr>en_store := s\<rparr> in
               (Inr ([], []), if born_state n \<noteq> Detected then announce L (bad 1) d Detected (born_state n) E1 else E1))))"

text \<open>
  After the active deployment, if any, is out of the way: the block, the hold, the creation. The
  store calls are the active deployment (2), the latest one (3), the create (4), the move of the
  index (5), a transition (0) and the reload for a notification (1).
\<close>

definition reconcile_new ::
  "libs \<Rightarrow> call \<Rightarrow> (nat \<Rightarrow> bool) \<Rightarrow> target \<Rightarrow> engine \<Rightarrow> (engine_error + string \<times> string) \<times> engine" where
  "reconcile_new L c bad ta E =
     (if ta_policy ta = PNone then (Inr ([], []), E)
      else (case (case db (bad 3) (LatestDeployment (key_namespace (ta_key ta)) (key_id (ta_key ta)) (en_store E)) of
                    Inl ErrNotFound \<Rightarrow> Inr None | Inl e \<Rightarrow> Inl e | Inr d \<Rightarrow> Inr (Some d)) of
        Inl e \<Rightarrow> (Inl (StoreError e), E)
      | Inr latest \<Rightarrow>
          (let retry_of = (case latest of Some d \<Rightarrow> if retried d (ta_hash ta) then Some d else None | None \<Rightarrow> None);
               rerun = (case retry_of of Some d \<Rightarrow> AppliedIndex d \<noteq> 0 | None \<Rightarrow> False);
               block = (case latest of
                   Some d \<Rightarrow> if ta_drift ta then blockedRetry d (ta_hash ta) (ta_index ta) (ta_diff_hash ta) else ([], [])
                 | None \<Rightarrow> ([], []))
           in if \<not> ta_drift ta \<and> \<not> rerun then (Inr ([], []), E)
              else if fst block \<noteq> [] then (Inr block, E)
              else if ta_hold ta \<noteq> None then (Inr ([], []), E)
              else create_target L c bad ta retry_of E)))"

definition move_then ::
  "libs \<Rightarrow> call \<Rightarrow> (nat \<Rightarrow> bool) \<Rightarrow> deployment \<Rightarrow> dstate \<times> string \<Rightarrow>
   (engine \<Rightarrow> (engine_error + string \<times> string) \<times> engine) \<Rightarrow> engine \<Rightarrow> (engine_error + string \<times> string) \<times> engine" where
  "move_then L c bad d mv k E = (case engine_transition L c bad d (fst mv) (snd mv) E of
       (Some e, E') \<Rightarrow> (Inl (StoreError e), E')
     | (None, E') \<Rightarrow> k E')"

definition rule_on ::
  "libs \<Rightarrow> call \<Rightarrow> (nat \<Rightarrow> bool) \<Rightarrow> target \<Rightarrow> deployment \<Rightarrow> engine \<Rightarrow> (engine_error + string \<times> string) \<times> engine" where
  "rule_on L c bad ta d E = (case rule_active ta d of
       MoveTo to_st msg \<Rightarrow> move_then L c bad d (to_st, msg) (reconcile_new L c bad ta) E
     | Leave \<Rightarrow> move_then L c bad d (leave_move ta) (\<lambda>E'. (Inr ([], []), E')) E
     | Keep \<Rightarrow> (Inr ([], []), E))"

definition reconcileDeployment ::
  "libs \<Rightarrow> call \<Rightarrow> (nat \<Rightarrow> bool) \<Rightarrow> target \<Rightarrow> engine \<Rightarrow> (engine_error + string \<times> string) \<times> engine" where
  "reconcileDeployment L c bad ta E =
     (case db (bad 2) (ActiveDeployment (key_namespace (ta_key ta)) (key_id (ta_key ta)) (en_store E)) of
        Inl e \<Rightarrow> if e = ErrNotFound then reconcile_new L c bad ta E else (Inl (StoreError e), E)
      | Inr d \<Rightarrow>
          if d_state d = PreHook \<or> d_state d = Applying \<or> d_state d = PostHook then (Inr ([], []), E)
          else if ta_policy ta \<noteq> PNone \<and> d_spec_hash d = ta_hash ta \<and> d_cas_index d \<noteq> ta_index ta \<and>
                  sameDiff (d_diff_hash d) (ta_diff_hash ta)
          then (case moveCASIndex c (bad 5) d (ta_index ta) E of
              (Some e, E', _) \<Rightarrow> (Inl (StoreError e), E')
            | (None, E', d') \<Rightarrow> rule_on L c bad ta d' E')
          else rule_on L c bad ta d E)"

section \<open>One job\<close>

definition drop_lift :: "bool \<Rightarrow> window_lift \<Rightarrow> engine \<Rightarrow> engine_error option \<times> engine" where
  "drop_lift bad l E = (if bad then (Some (StoreError ErrDatabase), E)
     else (None, E\<lparr>en_store := fst (DropWindowLift (l_namespace l) (l_job_id l) (en_store E))\<rparr>))"

text \<open>What Nomad says of the job: the job to plan, the live index and the plan's diff.\<close>

definition plan_job :: "libs \<Rightarrow> detect_env \<Rightarrow> parsed_file \<Rightarrow> (string + (nomad_error \<times> string)) + job \<times> nat \<times> plan" where
  "plan_job L env mf =
     (let k = keyOf (pf_job mf) in
      case (case de_live env k of
              Inl e \<Rightarrow> if is_not_found e then Inr None else Inl (Inr (e, ''get live job: ''))
            | Inr live \<Rightarrow> Inr (Some live)) of
        Inl x \<Rightarrow> Inl x
      | Inr live \<Rightarrow>
          (let idx = (case live of None \<Rightarrow> 0 | Some l \<Rightarrow> derefUint64 (j_modify_index l)) in
           case (case live of None \<Rightarrow> Inr (pf_job mf) | Some l \<Rightarrow> substituteScalingCounts L (pf_job mf) l) of
             Inl m \<Rightarrow> Inl (Inl m)
           | Inr j \<Rightarrow> (case de_plan env j of
               Inl e \<Rightarrow> Inl (Inr (e, ''plan job: ''))
             | Inr p \<Rightarrow> Inr (j, idx, p))))"

definition lifted_hold :: "hold option \<Rightarrow> string \<Rightarrow> window_lift option \<Rightarrow> hold option \<times> string" where
  "lifted_hold h hash lift = (case (lift, h) of
       (Some l, Some x) \<Rightarrow> if ho_kind x = HoldWindow \<and> l_spec_hash l = hash then (None, l_requested_by l) else (h, [])
     | _ \<Rightarrow> (h, []))"

definition drop_used ::
  "bool \<Rightarrow> window_lift option \<Rightarrow> observation \<Rightarrow> engine \<Rightarrow> (engine_error + observation option) \<times> engine" where
  "drop_used bad lift ob E = (case lift of
       None \<Rightarrow> (Inr (Some ob), E)
     | Some l \<Rightarrow> (case drop_lift bad l E of
         (Some e, E') \<Rightarrow> (Inl e, E')
       | (None, E') \<Rightarrow> (Inr (Some ob), E')))"

definition base_observation ::
  "detect_env \<Rightarrow> parsed_file \<Rightarrow> (string \<rightharpoonup> parsed_file) \<Rightarrow> string \<Rightarrow> hold option \<Rightarrow> window_status option \<Rightarrow> observation" where
  "base_observation env mf hooks hash h window = (let k = keyOf (pf_job mf); cfg = pf_cfg mf in
     \<lparr>ob_job_id = key_id k, ob_namespace = key_namespace k, ob_repository = cr_repo (pf_commit mf),
      ob_file_path = pf_path mf, ob_policy = eff_policy cfg, ob_spec_hash = hash, ob_drift = False,
      ob_plan_diff = [], ob_pre_hooks = hookRefs (pre_hooks cfg) hooks, ob_post_hooks = hookRefs (post_hooks cfg) hooks,
      ob_issues = issues cfg, ob_observed_at = de_now env, ob_blocked_by = [], ob_blocked_reason = [],
      ob_hold = h, ob_window = window, ob_deploy_now_by = [], ob_nomad_error = []\<rparr>)"

text \<open>\<open>Inr None\<close>: the job is skipped for a failure of nops scoped to it.\<close>

definition reconcileJob ::
  "libs \<Rightarrow> detect_env \<Rightarrow> parsed_file \<Rightarrow> (string \<rightharpoonup> parsed_file) \<Rightarrow> hold option \<Rightarrow> window_status option \<Rightarrow>
   window_lift option \<Rightarrow> engine \<Rightarrow> (engine_error + observation option) \<times> engine" where
  "reconcileJob L env mf hooks pause window lift E =
     (let k = keyOf (pf_job mf); cfg = pf_cfg mf; bad = de_bad_job env k in
      case bindE (specHash L (pf_job mf)) (freezeHooks L cfg hooks) of
        Inl _ \<Rightarrow> (Inr None, E)
      | Inr (frozen, hash, problem) \<Rightarrow>
          (let (h, liftedBy) = lifted_hold (holdFrom L pause window) hash lift;
               ob = base_observation env mf hooks hash h window in
           case plan_job L env mf of
             Inl (Inl _) \<Rightarrow> (Inr None, E)
           | Inl (Inr (e, what)) \<Rightarrow> (Inr (Some (ob\<lparr>ob_nomad_error := what @ err_text e\<rparr>)), E)
           | Inr (j, idx, p) \<Rightarrow>
               (let drift = plan_drift p in
                case bindE (Diff L p) (\<lambda>redacted. bindE (if drift then diffHashOf L (the p) else Inr [])
                       (\<lambda>dh. Inr (redacted, dh))) of
                  Inl m \<Rightarrow> (Inl (OtherError m), E)
                | Inr (redacted, dh) \<Rightarrow>
                    (let ob1 = (if drift then ob\<lparr>ob_drift := True, ob_plan_diff := redacted\<rparr> else ob) in
                     case reconcileDeployment L (de_call env k) bad
                       \<lparr>ta_key = k, ta_commit = pf_commit mf, ta_policy = eff_policy cfg, ta_hash = hash, ta_hooks = frozen,
                        ta_problem = problem, ta_index = idx, ta_drift = drift, ta_diff_hash = dh, ta_redacted = redacted,
                        ta_job = j, ta_file = pf_file mf, ta_vars = pf_vars mf, ta_hold = h, ta_lifted_by = liftedBy\<rparr> E of
                       (Inl e, E1) \<Rightarrow> (Inl e, E1)
                     | (Inr (by, why), E1) \<Rightarrow>
                         drop_used (bad 6) lift (ob1\<lparr>ob_blocked_by := by, ob_blocked_reason := why\<rparr>) E1))))"


section \<open>The rest of a cycle\<close>

fun supersede_each ::
  "libs \<Rightarrow> opts \<Rightarrow> detect_env \<Rightarrow> job_key set \<Rightarrow> deployment list \<Rightarrow> engine \<Rightarrow> engine_error option \<times> engine" where
  "supersede_each L cf env seen [] E = (None, E)"
| "supersede_each L cf env seen (d # ds) E =
     (if \<not> managedNS cf (d_namespace d) \<or> dep_key d \<in> seen \<or> (d_state d \<noteq> Detected \<and> d_state d \<noteq> PendingApproval)
      then supersede_each L cf env seen ds E
      else (case engine_transition L (de_move env (d_id d)) (de_bad_move env (d_id d)) d Superseded ''job removed from repo'' E of
          (Some e, E') \<Rightarrow> (Some (StoreError e), E')
        | (None, E') \<Rightarrow> supersede_each L cf env seen ds E'))"

definition supersedeRemoved ::
  "libs \<Rightarrow> opts \<Rightarrow> detect_env \<Rightarrow> job_key set \<Rightarrow> engine \<Rightarrow> engine_error option \<times> engine" where
  "supersedeRemoved L cf env seen E = (if de_bad env 3 then (Some (StoreError ErrDatabase), E)
     else supersede_each L cf env seen (ListActive (en_store E)) E)"

fun drop_unseen ::
  "detect_env \<Rightarrow> job_key set \<Rightarrow> window_lift list \<Rightarrow> engine \<Rightarrow> engine_error option \<times> engine" where
  "drop_unseen env seen [] E = (None, E)"
| "drop_unseen env seen (l # ls) E =
     (let k = JobKey (l_namespace l) (l_job_id l) in
      if k \<in> seen then drop_unseen env seen ls E
      else (case drop_lift (de_bad_job env k 6) l E of
          (Some e, E') \<Rightarrow> (Some e, E')
        | (None, E') \<Rightarrow> drop_unseen env seen ls E'))"

text \<open>The ID of a hook revision: some name, a dash and eight hexadecimal digits.\<close>

definition hex_digit :: "char \<Rightarrow> bool" where
  "hex_digit c = (between CHR ''0'' CHR ''9'' c \<or> between CHR ''a'' CHR ''f'' c)"

definition revisionRe :: "string \<Rightarrow> bool" where
  "revisionRe i = (let name = take (length i - 9) i; tail = drop (length i - 9) i in
     length i > 9 \<and> \<not> list_ex (\<lambda>c. c = CHR 0x0A) name \<and> hd tail = CHR ''-'' \<and> list_all hex_digit (tl tail))"

definition gc_candidate :: "libs \<Rightarrow> job_stub \<Rightarrow> bool" where
  "gc_candidate L st = (st_parent st = [] \<and> \<not> st_stop st \<and> revisionRe (st_id st) \<and> is_hook (meta_of L (st_meta st)))"

definition gcHookRevisionsIn :: "libs \<Rightarrow> detect_env \<Rightarrow> string \<Rightarrow> engine \<Rightarrow> engine_error option \<times> engine" where
  "gcHookRevisionsIn L env ns E = (case de_jobs env ns of
       Inl _ \<Rightarrow> (None, E)
     | Inr stubs \<Rightarrow>
         (let cands = map st_id (filter (gc_candidate L) stubs) in
          if cands = [] then (None, E)
          else if de_bad_ns env ns 0 then (Some (StoreError ErrDatabase), E)
          else (let used = HookRevisionsInUse ns (en_store E) in
            (None, acts (map (StopJob ns) (filter (\<lambda>i. i \<notin> set used) cands)) E))))"

fun gcHookRevisions :: "libs \<Rightarrow> detect_env \<Rightarrow> string list \<Rightarrow> engine \<Rightarrow> engine_error option \<times> engine" where
  "gcHookRevisions L env [] E = (None, E)"
| "gcHookRevisions L env (ns # nss) E = (case gcHookRevisionsIn L env ns E of
       (Some e, E') \<Rightarrow> (Some e, E') | (None, E') \<Rightarrow> gcHookRevisions L env nss E')"

definition orphan_of :: "detect_env \<Rightarrow> string \<Rightarrow> deployment \<Rightarrow> orphan option" where
  "orphan_of env ns d = (case de_live env (JobKey ns (d_job_id d)) of
       Inl _ \<Rightarrow> None
     | Inr live \<Rightarrow>
         (let st = (case j_status live of None \<Rightarrow> [] | Some x \<Rightarrow> x) in
          if j_stop live = Some True \<or> st = ''dead'' then None
          else Some \<lparr>or_job_id = d_job_id d, or_namespace = ns, or_policy = d_policy d, or_last_deployment = d_id d,
            or_nomad_status = st, or_observed_at = de_now env\<rparr>))"

definition orphans_in :: "detect_env \<Rightarrow> job_key set \<Rightarrow> store \<Rightarrow> string \<Rightarrow> orphan list" where
  "orphans_in env present s ns = concat (map (\<lambda>d. case orphan_of env ns d of None \<Rightarrow> [] | Some x \<Rightarrow> [x])
     (filter (\<lambda>d. JobKey ns (d_job_id d) \<notin> present) (LatestCompletedPerJob ns s)))"

definition orphan_key :: "orphan \<Rightarrow> job_key" where
  "orphan_key x = JobKey (or_namespace x) (or_job_id x)"

definition findOrphans ::
  "opts \<Rightarrow> detect_env \<Rightarrow> job_key set \<Rightarrow> store \<Rightarrow> engine_error + orphan list" where
  "findOrphans cf env present s = (if list_ex (\<lambda>ns. de_bad_ns env ns 1) (op_namespaces cf) then Inl (StoreError ErrDatabase)
     else Inr (sort_key orphan_key (concat (map (orphans_in env present s) (op_namespaces cf)))))"

section \<open>The cycle\<close>

text \<open>The jobs of the cycle, one after the other; what they add to the observations and the skipped.\<close>

fun reconcile_jobs ::
  "libs \<Rightarrow> opts \<Rightarrow> detect_env \<Rightarrow> parsed_file list \<Rightarrow> (job_key \<rightharpoonup> hold) \<Rightarrow> hold option \<Rightarrow> (job_key \<rightharpoonup> window_lift) \<Rightarrow>
   parsed_file list \<Rightarrow> (job_key \<rightharpoonup> observation) \<times> nat \<Rightarrow> engine \<Rightarrow>
   (engine_error + (job_key \<rightharpoonup> observation) \<times> nat) \<times> engine" where
  "reconcile_jobs L cf env hookFiles held all asked [] acc E = (Inr acc, E)"
| "reconcile_jobs L cf env hookFiles held all asked (mf # mfs) acc E =
     (let k = keyOf (pf_job mf);
          pause = (case held k of Some h \<Rightarrow> Some h | None \<Rightarrow> all) in
      case reconcileJob L env mf (hooks_in (key_namespace k) hookFiles) pause (windowStatus cf (de_now env) (pf_cfg mf))
             (asked k) E of
        (Inl e, E') \<Rightarrow> (Inl e, E')
      | (Inr None, E') \<Rightarrow> reconcile_jobs L cf env hookFiles held all asked mfs (fst acc, Suc (snd acc)) E'
      | (Inr (Some ob), E') \<Rightarrow> reconcile_jobs L cf env hookFiles held all asked mfs
            ((fst acc)(k \<mapsto> ob), if ob_nomad_error ob \<noteq> [] then Suc (snd acc) else snd acc) E')"

definition set_orphans :: "orphan list \<Rightarrow> status \<Rightarrow> engine \<Rightarrow> status \<times> engine" where
  "set_orphans os st E = (st\<lparr>su_orphans := length os\<rparr>, E\<lparr>en_orphans := os\<rparr>)"

text \<open>What follows once every job is reconciled: removals, hook revisions, orphans.\<close>

definition after_jobs ::
  "libs \<Rightarrow> opts \<Rightarrow> detect_env \<Rightarrow> parsed_file list \<Rightarrow> job_key set \<Rightarrow> window_lift list \<Rightarrow> status \<Rightarrow> engine \<Rightarrow>
   engine_error option \<times> status \<times> engine" where
  "after_jobs L cf env parsed seen lifts st E =
     (let removed = (if su_unparsed st = 0
        then (case supersedeRemoved L cf env seen E of
            (Some e, E1) \<Rightarrow> (Some e, E1) | (None, E1) \<Rightarrow> drop_unseen env seen lifts E1)
        else (None, E)) in
      case removed of
        (Some e, E1) \<Rightarrow> (Some e, st, E1)
      | (None, E1) \<Rightarrow> (case gcHookRevisions L env (op_namespaces cf) E1 of
          (Some e, E2) \<Rightarrow> (Some e, st, E2)
        | (None, E2) \<Rightarrow>
            if su_unparsed st > 0
            then (None, st\<lparr>su_orphan_check_skipped := True, su_orphans := length (en_orphans E2)\<rparr>, E2)
            else (case findOrphans cf env (set (map (\<lambda>p. keyOf (pf_job p)) parsed)) (en_store E2) of
                Inl e \<Rightarrow> (Some e, st, E2)
              | Inr os \<Rightarrow> (None, set_orphans os st E2))))"

definition detect ::
  "libs \<Rightarrow> opts \<Rightarrow> detect_env \<Rightarrow> snapshot list \<Rightarrow> engine \<Rightarrow> engine_error option \<times> status \<times> engine" where
  "detect L cf env snaps E0 =
     (let rs = parse_outcomes L cf env (en_parse_cache E0) snaps;
          E = E0\<lparr>en_parse_cache := next_cache rs\<rparr>;
          parsed = parsed_of rs; (hookFiles, mgd) = classify parsed;
          st = \<lparr>su_error = False, su_managed = length mgd, su_skipped = 0, su_unparsed = unparsed_of rs,
                su_orphans = 0, su_orphan_check_skipped = False, su_refused = refused_of rs\<rparr> in
      if de_bad env 0 then (Some (StoreError ErrDatabase), st, E)
      else (case allPause (de_bad env 1) (en_store E) of
        Inl e \<Rightarrow> (Some (StoreError e), st, E)
      | Inr all \<Rightarrow>
          (let E1 = E\<lparr>en_all := all\<rparr>; lifts = WindowLifts (en_store E1) in
           if de_bad env 2 then (Some (StoreError ErrDatabase), st, E1)
           else (case reconcile_jobs L cf env hookFiles (holds (ActivePauses (en_store E))) all
                   (map_of (rev (map (\<lambda>l. (JobKey (l_namespace l) (l_job_id l), l)) lifts))) mgd (Map.empty, 0) E1 of
               (Inl e, E2) \<Rightarrow> (Some e, st, E2)
             | (Inr (obs, skipped), E2) \<Rightarrow>
                 after_jobs L cf env parsed (set (map (\<lambda>p. keyOf (pf_job p)) mgd)) lifts
                   (st\<lparr>su_skipped := skipped\<rparr>) (E2\<lparr>en_observations := obs\<rparr>)))))"

definition Detect ::
  "libs \<Rightarrow> opts \<Rightarrow> detect_env \<Rightarrow> snapshot list \<Rightarrow> engine \<Rightarrow> engine_error option \<times> engine" where
  "Detect L cf env snaps E = (case detect L cf env snaps E of
       (e, st, E') \<Rightarrow> (e, E'\<lparr>en_status := st\<lparr>su_error := (e \<noteq> None)\<rparr>\<rparr>))"

section \<open>Retry and deploy now\<close>

definition Retryable :: "deployment \<Rightarrow> deployment option \<Rightarrow> engine \<Rightarrow> bool" where
  "Retryable d latest E =
     (if (case latest of None \<Rightarrow> True | Some l \<Rightarrow> d_id l \<noteq> d_id d) \<or> d_retried_at d \<noteq> None \<or> \<not> failed_or_rejected d
      then False
      else (case en_observations E (dep_key d) of
          None \<Rightarrow> False
        | Some ob \<Rightarrow>
            if ob_nomad_error ob \<noteq> [] \<or> ob_policy ob = PNone \<or> ob_spec_hash ob \<noteq> d_spec_hash d then False
            else ob_drift ob \<or> AppliedIndex d \<noteq> 0))"

text \<open>The store calls: the read (10), the latest (11), the mark (12), the read back (13).\<close>

definition Retry ::
  "libs \<Rightarrow> opts \<Rightarrow> call \<Rightarrow> detect_env \<Rightarrow> snapshot list \<Rightarrow> string \<Rightarrow> string \<Rightarrow> engine \<Rightarrow> string outcome" where
  "Retry L cf c env snaps i actor E =
     (if actor = [] then (Inl ActorRequired, E)
      else (case db (de_bad env 10) (GetDeployment i (en_store E)) of
        Inl e \<Rightarrow> (Inl (StoreError e), E)
      | Inr d \<Rightarrow>
          if \<not> managedNS cf (d_namespace d) then (Inl (StoreError ErrNotFound), E)
          else if d_retried_at d \<noteq> None then (Inl (StoreError ErrAlreadyRetried), E)
          else (case db (de_bad env 11) (LatestDeployment (d_namespace d) (d_job_id d) (en_store E)) of
            Inl e \<Rightarrow> (Inl (StoreError e), E)
          | Inr latest \<Rightarrow>
              if \<not> Retryable d (Some latest) E then (Inl NotRetryable, E)
              else (case db (de_bad env 12) (MarkRetried c i actor (en_store E)) of
                Inl e \<Rightarrow> (Inl (StoreError e), E)
              | Inr s \<Rightarrow> (case Detect L cf env snaps (E\<lparr>en_store := s\<rparr>) of
                  (Some _, E') \<Rightarrow> (Inr i, kick_detection E')
                | (None, E') \<Rightarrow> (case db (de_bad env 13) (RetryOf i (en_store E')) of
                    Inl _ \<Rightarrow> (Inr i, E')
                  | Inr nxt \<Rightarrow> (Inr (d_id nxt), E')))))))"

definition DeployNowable :: "observation \<Rightarrow> deployment option \<Rightarrow> bool" where
  "DeployNowable ob latest =
     ((case ob_hold ob of None \<Rightarrow> False | Some h \<Rightarrow> ho_kind h = HoldWindow) \<and> ob_drift ob \<and> ob_blocked_by ob = [] \<and>
      ob_nomad_error ob = [] \<and> (case latest of None \<Rightarrow> True | Some d \<Rightarrow> \<not> IsActive (d_state d)))"

definition setDeployNowBy :: "job_key \<Rightarrow> string \<Rightarrow> engine \<Rightarrow> engine" where
  "setDeployNowBy k actor E = (case en_observations E k of
       None \<Rightarrow> E
     | Some ob \<Rightarrow> E\<lparr>en_observations := (en_observations E)(k \<mapsto> ob\<lparr>ob_deploy_now_by := actor\<rparr>)\<rparr>)"

definition latest_opt :: "bool \<Rightarrow> string \<Rightarrow> string \<Rightarrow> store \<Rightarrow> store_error + deployment option" where
  "latest_opt bad ns job s = (case db bad (LatestDeployment ns job s) of
       Inl e \<Rightarrow> if e = ErrNotFound then Inr None else Inl e
     | Inr d \<Rightarrow> Inr (Some d))"

definition DeployNow ::
  "libs \<Rightarrow> opts \<Rightarrow> call \<Rightarrow> detect_env \<Rightarrow> snapshot list \<Rightarrow> string \<Rightarrow> string \<Rightarrow> string \<Rightarrow> string \<Rightarrow> engine \<Rightarrow> string outcome" where
  "DeployNow L cf c env snaps ns job hash actor E =
     (let k = JobKey ns job in
      if actor = [] then (Inl ActorRequired, E)
      else if \<not> managedNS cf ns then (Inl (StoreError ErrNotFound), E)
      else (case en_observations E k of
        None \<Rightarrow> (Inl NotDeployable, E)
      | Some ob \<Rightarrow>
          if ob_spec_hash ob \<noteq> hash then (Inl NotDeployable, E)
          else (case latest_opt (de_bad env 11) ns job (en_store E) of
            Inl e \<Rightarrow> (Inl (StoreError e), E)
          | Inr latest \<Rightarrow>
              if \<not> DeployNowable ob latest then (Inl NotDeployable, E)
              else (case db (de_bad env 12) (RequestWindowLift c ns job hash actor (en_store E)) of
                Inl e \<Rightarrow> (Inl (StoreError e), E)
              | Inr s \<Rightarrow> (case Detect L cf env snaps (setDeployNowBy k actor (E\<lparr>en_store := s\<rparr>)) of
                  (Some _, E') \<Rightarrow> (Inr [], kick_detection E')
                | (None, E') \<Rightarrow> (case latest_opt (de_bad env 13) ns job (en_store E') of
                    Inl _ \<Rightarrow> (Inr [], E')
                  | Inr None \<Rightarrow> (Inr [], E')
                  | Inr (Some created) \<Rightarrow>
                      if (case latest of None \<Rightarrow> True | Some d \<Rightarrow> d_id created \<noteq> d_id d) \<and>
                         d_window_lifted_by created = actor
                      then (Inr (d_id created), E') else (Inr [], E')))))))"

end
