(* ===== verification/Permitted.thy ===== *)
theory Permitted
  imports StoreSystem
begin

text \<open>
  The abstract specification of what the engine may write: the store's operations under the guard
  of invariant 3, that nothing but a deployment under \<open>auto\<close> leaves detected by itself and nothing
  leaves pending approval without the name of who decided. The guard reads only columns that never
  change, so it holds however the writes of several loops interleave.
\<close>

section \<open>Guarded operations\<close>

definition starts :: "dstate \<Rightarrow> bool" where
  "starts st = (st = PreHook \<or> st = Applying)"

definition move_permitted :: "deployment \<Rightarrow> dstate \<Rightarrow> transition \<Rightarrow> bool" where
  "move_permitted d to_st t = (case t_from t of
       None \<Rightarrow> True
     | Some a \<Rightarrow> (a = Detected \<and> starts to_st \<longrightarrow> d_policy d = PolAuto) \<and>
         (a = PendingApproval \<and> (starts to_st \<or> to_st = Rejected) \<longrightarrow> t_decided_by t \<noteq> []))"

fun permitted :: "store_op \<Rightarrow> store \<Rightarrow> bool" where
  "permitted (OpCreate n) s = (born_state n = Detected \<longrightarrow> n_policy n = PolAuto)"
| "permitted (OpTransition i to_st t) s =
     (\<forall>d\<in>set (deployments s). d_id d = i \<longrightarrow> move_permitted d to_st t)"
| "permitted _ s = True"

inductive guarded_step :: "store \<Rightarrow> store \<Rightarrow> bool" where
  guarded_stepI: "exec_op c op s = Inr t \<Longrightarrow> permitted op s \<Longrightarrow> guarded_step s t"

inductive_cases guarded_stepE: "guarded_step s t"

abbreviation writes :: "store \<Rightarrow> store \<Rightarrow> bool" where
  "writes \<equiv> runs guarded_step"

lemma guarded_store: "guarded_step s t \<Longrightarrow> store_step s t"
  by (auto elim!: guarded_stepE intro: store_stepI)

lemma writes_store: "writes s t \<Longrightarrow> runs store_step s t"
  by (rule runs_mono, assumption) (rule guarded_store)

lemma writes_op: "exec_op c op s = Inr t \<Longrightarrow> permitted op s \<Longrightarrow> writes s t"
  by (rule runs_single) (rule guarded_stepI)

text \<open>The operations without a guard, one write each.\<close>

lemma writesI:
  "SetApplied c i idx ver ev s = Inr t \<Longrightarrow> writes s t"
  "MoveCASIndex c i st a b s = Inr t \<Longrightarrow> writes s t"
  "MoveAppliedIndex c i a b s = Inr t \<Longrightarrow> writes s t"
  "MarkRetried c i actor s = Inr t \<Longrightarrow> writes s t"
  "MarkAwaitingPromotion c i s = Inr (t, w) \<Longrightarrow> writes s t"
  "MarkPromoted c i s = Inr (t, w) \<Longrightarrow> writes s t"
  "MarkPromotionRequested c i actor s = Inr t \<Longrightarrow> writes s t"
  "EnsureHookRun c dep ph pos job tmo s = Inr (t, r, new) \<Longrightarrow> writes s t"
  "UpdateHookRun c i u s = Inr t \<Longrightarrow> writes s t"
  "PauseJob c ns job actor reason s = Inr t \<Longrightarrow> writes s t"
  "ResumeJob c ns job actor s = Inr t \<Longrightarrow> writes s t"
  "PauseAll c actor reason s = Inr t \<Longrightarrow> writes s t"
  "ResumeAll c actor s = Inr t \<Longrightarrow> writes s t"
  "RequestWindowLift c ns job h actor s = Inr t \<Longrightarrow> writes s t"
  "writes s (fst (DropWindowLift ns job s))"
  using writes_op [of c "OpSetApplied i idx ver ev" s t]
    writes_op [of c "OpMoveCAS i st a b" s t]
    writes_op [of c "OpMoveApplied i a b" s t]
    writes_op [of c "OpMarkRetried i actor" s t]
    writes_op [of c "OpAwaiting i" s t]
    writes_op [of c "OpPromoted i" s t]
    writes_op [of c "OpPromotionRequested i actor" s t]
    writes_op [of c "OpEnsureHookRun dep ph pos job tmo" s t]
    writes_op [of c "OpUpdateHookRun i u" s t]
    writes_op [of c "OpPauseJob ns job actor reason" s t]
    writes_op [of c "OpResumeJob ns job actor" s t]
    writes_op [of c "OpPauseAll actor reason" s t]
    writes_op [of c "OpResumeAll actor" s t]
    writes_op [of c "OpRequestLift ns job h actor" s t]
    writes_op [of c "OpDropLift ns job" s]
  by simp_all

lemma writes_create:
  "CreateDeployment c n s = Inr (t, r) \<Longrightarrow> born_state n = Detected \<longrightarrow> n_policy n = PolAuto \<Longrightarrow> writes s t"
  using writes_op [of c "OpCreate n" s t] by simp

section \<open>Earlier reads of a row\<close>

text \<open>
  A deployment as it was read at some time: its row is still there with the same frozen columns.
\<close>

definition known :: "store \<Rightarrow> deployment \<Rightarrow> bool" where
  "known s d = (list_ex (has_id (d_id d)) (deployments s) \<and>
     (\<forall>d'\<in>set (deployments s). d_id d' = d_id d \<longrightarrow> frozen_part d' = frozen_part d))"

lemma known_update:
  assumes "deployments t = update_where P f (deployments s)"
    and "\<And>d. P d \<Longrightarrow> frozen_part (f d) = frozen_part d" and "known s d"
  shows "known t d"
proof -
  let ?g = "\<lambda>r. if P r then f r else r"
  have g: "frozen_part (?g r) = frozen_part r" "d_id (?g r) = d_id r" for r
    using assms(2) [of r] frozen_part_keys(1) [of "f r" r] by simp_all
  have "deployments t = map ?g (deployments s)" by (simp add: assms(1) update_where_def)
  with g obtain g where "deployments t = map g (deployments s)" "\<And>r. frozen_part (g r) = frozen_part r"
    "\<And>r. d_id (g r) = d_id r" by blast
  with assms(3) show ?thesis by (simp add: known_def list_ex_iff has_id_def)
qed

lemma known_effect: "dep_effect s t \<Longrightarrow> known s d \<Longrightarrow> known t d"
proof (erule dep_effect.cases, goal_cases)
  case (4 t s r es hs)
  then show ?case by (auto simp: known_def list_ex_iff has_id_def)
qed (blast intro: known_update)+

lemma known_writes: "writes s t \<Longrightarrow> known s d \<Longrightarrow> known t d"
  by (induction rule: runs.induct) (auto intro: known_effect store_step_effect guarded_store)

lemma known_row:
  assumes "unique_held (\<lambda>_. True) d_id (deployments s)" "d \<in> set (deployments s)"
  shows "known s d"
  using assms(2) unique_heldD [OF assms(1) _ assms(2)] by (auto simp: known_def list_ex_iff has_id_def)

lemma known_state [simp]: "known s (d\<lparr>d_cas_index := n\<rparr>) = known s d"
  by (simp add: known_def frozen_part_def)

lemma writes_transition:
  assumes "Transition c (d_id d) to_st t s = Inr s'" "known s d" "move_permitted d to_st t"
  shows "writes s s'"
proof (rule writes_op [of c "OpTransition (d_id d) to_st t"])
  have "move_permitted r to_st t" if "r \<in> set (deployments s)" "d_id r = d_id d" for r
  proof -
    have "frozen_part r = frozen_part d" using assms(2) that by (simp add: known_def)
    from frozen_part_keys(4) [OF this] assms(3) show ?thesis by (cases "t_from t") (simp_all add: move_permitted_def)
  qed
  then show "permitted (OpTransition (d_id d) to_st t) s" by simp
qed (simp add: assms(1))


section \<open>Decisions\<close>

text \<open>
  What the guard keeps: a deployment that is not under \<open>auto\<close> is being applied only with the name
  of who decided it, and none is rejected without one.
\<close>

definition in_progress :: "dstate \<Rightarrow> bool" where
  "in_progress st = (st = PreHook \<or> st = Applying \<or> st = PostHook)"

definition decided :: "deployment \<Rightarrow> bool" where
  "decided d = ((in_progress (d_state d) \<longrightarrow> d_policy d = PolAuto \<or> d_decided_by d \<noteq> []) \<and>
     (d_state d = Rejected \<longrightarrow> d_decided_by d \<noteq> []))"

definition all_decided :: "store \<Rightarrow> bool" where
  "all_decided s = list_all decided (deployments s)"

lemma all_decided_same: "deployments t = deployments s \<Longrightarrow> all_decided s \<Longrightarrow> all_decided t"
  by (simp add: all_decided_def)

lemma all_decided_update:
  assumes "deployments t = update_where P f (deployments s)" "all_decided s"
    and "\<And>d. d \<in> set (deployments s) \<Longrightarrow> P d \<Longrightarrow> decided d \<Longrightarrow> decided (f d)"
  shows "all_decided t"
  using assms by (auto simp: all_decided_def list_all_iff update_where_def)

lemma decided_cong:
  "d_state (f d) = d_state d \<Longrightarrow> d_policy (f d) = d_policy d \<Longrightarrow> d_decided_by (f d) = d_decided_by d \<Longrightarrow>
     decided d \<Longrightarrow> decided (f d)"
  by (simp add: decided_def)

lemma decided_moves:
  assumes "decided d" "move_permitted d to_st t" "t_from t = Some (d_state d)" "canTransition (d_state d) to_st"
  shows "decided (transition_row c to_st t d)"
proof (cases "d_state d")
  case Detected
  with assms show ?thesis
    by (cases to_st) (auto simp: decided_def move_permitted_def transition_row_def in_progress_def starts_def
        canTransition_def allowed_def)
next
  case PendingApproval
  with assms show ?thesis
    by (cases to_st) (auto simp: decided_def move_permitted_def transition_row_def in_progress_def starts_def
        canTransition_def allowed_def keep_if_empty_def)
qed (use assms in \<open>cases to_st; simp add: decided_def transition_row_def in_progress_def
      canTransition_def allowed_def keep_if_empty_def\<close>)+

lemma deployments_rest:
  "EnsureHookRun c dep ph pos job tmo s = Inr (t, x) \<Longrightarrow> deployments t = deployments s"
  "UpdateHookRun c i u s = Inr t \<Longrightarrow> deployments t = deployments s"
  "PauseJob c ns job actor reason s = Inr t \<Longrightarrow> deployments t = deployments s"
  "ResumeJob c ns job actor s = Inr t \<Longrightarrow> deployments t = deployments s"
  "PauseAll c actor reason s = Inr t \<Longrightarrow> deployments t = deployments s"
  "ResumeAll c actor s = Inr t \<Longrightarrow> deployments t = deployments s"
  "RequestWindowLift c ns job h actor s = Inr t \<Longrightarrow> deployments t = deployments s"
  "deployments (fst (DropWindowLift ns job s)) = deployments s"
  by (auto simp: EnsureHookRun_def UpdateHookRun_def PauseJob_def ResumeJob_def PauseAll_def
      ResumeAll_def RequestWindowLift_def DropWindowLift_def Let_def
      split: if_splits option.splits)

text \<open>The writes that change rows without their state, policy or decision.\<close>

definition keeps_decision :: "(deployment \<Rightarrow> deployment) \<Rightarrow> bool" where
  "keeps_decision f = (\<forall>d. d_state (f d) = d_state d \<and> d_policy (f d) = d_policy d \<and>
     d_decided_by (f d) = d_decided_by d)"

lemma decided_within:
  assumes "deployments t = update_where P f (deployments s)" "keeps_decision f" "all_decided s"
  shows "all_decided t"
  by (rule all_decided_update [OF assms(1,3)]) (use assms(2) in \<open>simp add: keeps_decision_def decided_def\<close>)

lemma decided_promotion:
  assumes "markPromotion c i guard upd msg s = Inr (t, w)" "keeps_decision upd" "all_decided s"
  shows "all_decided t"
proof (cases "list_ex (\<lambda>d. in_state i Applying d \<and> guard d) (deployments s)")
  case True
  with assms(1) have "deployments t = update_where (\<lambda>d. in_state i Applying d \<and> guard d)
      (\<lambda>d. (upd d)\<lparr>d_updated_at := c_now c\<rparr>) (deployments s)"
    by (auto simp: markPromotion_def Let_def)
  then show ?thesis
    by (rule decided_within [OF _ _ assms(3)]) (use assms(2) in \<open>simp add: keeps_decision_def\<close>)
next
  case False
  with assms(1) have "t = s" by (simp add: markPromotion_def split: option.splits if_splits)
  with assms(3) show ?thesis by simp
qed

lemma decided_rest:
  assumes "all_decided s"
  shows "SetApplied c i idx ver ev s = Inr t \<Longrightarrow> all_decided t"
    and "MoveCASIndex c i st a b s = Inr t \<Longrightarrow> all_decided t"
    and "MoveAppliedIndex c i a b s = Inr t \<Longrightarrow> all_decided t"
    and "MarkRetried c i actor s = Inr t \<Longrightarrow> all_decided t"
    and "MarkPromotionRequested c i actor s = Inr t \<Longrightarrow> all_decided t"
    and "MarkAwaitingPromotion c i s = Inr (t, w) \<Longrightarrow> all_decided t"
    and "MarkPromoted c i s = Inr (t, w) \<Longrightarrow> all_decided t"
proof -
  have u: "all_decided t" if "deployments t = update_where P f (deployments s)"
      "\<And>d. decided d \<Longrightarrow> decided (f d)" for t P f
    by (rule all_decided_update [OF that(1) assms]) (rule that(2))
  show "SetApplied c i idx ver ev s = Inr t \<Longrightarrow> all_decided t"
    by (auto simp: SetApplied_def decided_def split: if_splits intro!: u)
  show "MoveCASIndex c i st a b s = Inr t \<Longrightarrow> all_decided t"
    by (rule u [of t "\<lambda>d. in_state i st d \<and> d_cas_index d = a \<and> d_applied_index d = None"
          "\<lambda>d. d\<lparr>d_cas_index := b, d_updated_at := c_now c\<rparr>"])
      (auto simp: MoveCASIndex_def Let_def decided_def split: if_splits)
  show "MoveAppliedIndex c i a b s = Inr t \<Longrightarrow> all_decided t"
    by (auto simp: MoveAppliedIndex_def Let_def decided_def split: if_splits intro!: u)
  show "MarkRetried c i actor s = Inr t \<Longrightarrow> all_decided t"
    by (auto simp: MarkRetried_def decided_def split: if_splits option.splits intro!: u)
  show "MarkPromotionRequested c i actor s = Inr t \<Longrightarrow> all_decided t"
    by (auto simp: MarkPromotionRequested_def decided_def split: if_splits intro!: u)
qed (auto simp: MarkAwaitingPromotion_def MarkPromoted_def keeps_decision_def assms elim!: decided_promotion)

text \<open>A row \<open>CreateDeployment\<close> writes was decided by nobody, and is not in progress.\<close>

lemma decided_create:
  assumes "CreateDeployment c n s = Inr (t, r)" "all_decided s"
  shows "all_decided t"
proof -
  note f = CreateDeployment_Inr [OF assms(1)]
  have "decided r"
    by (rule create_states [OF f(2)]) (simp_all add: f(1) new_row_def decided_def in_progress_def)
  with f(5) assms(2) show ?thesis by (simp add: all_decided_def)
qed

lemma decided_transition:
  assumes "Transition c i to_st t s = Inr s'" "permitted (OpTransition i to_st t) s" "all_decided s"
  shows "all_decided s'"
proof -
  from assms(1) obtain a where a: "t_from t = Some a" "canTransition a to_st"
    and s': "deployments s' = update_where (in_state i a) (transition_row c to_st t) (deployments s)"
    by (auto simp: Transition_def split: option.splits if_splits)
  show ?thesis
    by (rule all_decided_update [OF s' assms(3)])
      (use assms(2) a in \<open>auto simp: in_state_def intro: decided_moves\<close>)
qed

lemma decided_step: "all_decided s \<Longrightarrow> guarded_step s t \<Longrightarrow> all_decided t"
proof (erule guarded_stepE)
  fix c op
  assume s: "all_decided s" and op: "exec_op c op s = Inr t" "permitted op s"
  note rest = decided_rest [OF s] and same = all_decided_same [OF _ s]
  from op show "all_decided t"
    by (cases op) (auto simp: bindE_Inr deployments_rest(8) intro: rest same decided_transition [OF _ _ s]
        decided_create [OF _ s] deployments_rest)
qed

interpretation decisions: inductive_invariant store_start guarded_step all_decided
  by unfold_locales (simp_all add: all_decided_def empty_store_def decided_step [unfolded all_decided_def])

end
