(* ===== verification/EngineWrites.thy ===== *)
theory EngineWrites
  imports Detect Permitted
begin

text \<open>
  What the hook runner, the apply loop, the decisions of a person and the detection cycle write:
  each of them is a sequence of the guarded operations of the store, given that the deployment it
  works on is an earlier read of a row.
\<close>

section \<open>The hook runner\<close>

lemma save_run_writes: "save_run c fails r st child msg s = Inr t \<Longrightarrow> writes s t"
  by (auto simp: save_run_def split: if_splits intro: writesI)

lemma finish_writes: "finish c fails r st msg s as = (res, t, bs) \<Longrightarrow> writes s t"
  by (auto simp: finish_def split: sum.splits intro: save_run_writes runs_refl)

lemma saveChild_writes: "saveChild env r child s = Inr (t, r') \<Longrightarrow> writes s t"
  by (auto simp: saveChild_def bindE_Inr dest: save_run_writes)

lemma recoverChild_writes: "recoverChild L env r s = (res, t, as) \<Longrightarrow> writes s t"
  by (auto simp: recoverChild_def Let_def split: sum.splits if_splits prod.splits
      dest!: finish_writes saveChild_writes intro: runs_refl)

lemma dispatch_writes:
  assumes "dispatch L env q r deadline s = (res, t, as)"
  shows "writes s t"
  using assms
  by (auto simp: dispatch_def Let_def split: sum.splits nomad_error.splits if_splits prod.splits
      dest!: finish_writes save_run_writes saveChild_writes intro: runs_refl runs_trans)

lemma await_writes: "await L c r deadline cause ps s as = (res, t, bs) \<Longrightarrow> writes s t"
proof (induction ps arbitrary: cause)
  case Nil
  then show ?case by (simp add: runs_refl)
next
  case (Cons p ps)
  from Cons.prems show ?case
    by (auto simp: Let_def simp del: runs.simps split: sum.splits nomad_error.splits if_splits verdict.splits
        dest!: finish_writes Cons.IH intro: runs_refl)
qed

lemma drive_writes:
  assumes "drive L env q r s = (res, t, as)"
  shows "writes s t"
proof -
  let ?deadline = "r_started_at r + run_timeout r"
  obtain x s2 as2 where f: "(if r_dispatched_job_id r = []
    then (if r_state r = HookDispatching then dispatch L env q r ?deadline s else recoverChild L env r s)
    else (Inr (Inr r), s, [])) = (x, s2, as2)" by (rule prod_cases3)
  then have "writes s s2"
    by (auto split: if_splits intro: dispatch_writes recoverChild_writes runs_refl)
  moreover have "writes s2 t"
    using assms unfolding drive_def Let_def f by (auto split: sum.splits intro: await_writes runs_refl)
  ultimately show ?thesis by (rule runs_trans [rotated])
qed

lemma Run_writes: "Run L env q s = (res, t, as) \<Longrightarrow> writes s t"
  by (auto simp: Run_def split: if_splits sum.splits prod.splits
      intro: runs_refl writesI(8) runs_trans [OF drive_writes writesI(8)])

section \<open>The apply loop\<close>

lemma announce_store [simp]: "en_store (announce L bad d from_st to_st E) = en_store E"
  by (auto simp: announce_def split: sum.splits)

text \<open>The moves the engine makes on its own.\<close>

lemma engine_move_permitted:
  "(d_state d = Detected \<Longrightarrow> starts to_st \<Longrightarrow> d_policy d = PolAuto) \<Longrightarrow>
     (d_state d = PendingApproval \<Longrightarrow> \<not> starts to_st \<and> to_st \<noteq> Rejected) \<Longrightarrow>
     move_permitted d to_st (engine_move (d_state d) to_st msg)"
  by (auto simp: move_permitted_def engine_move_def)

lemma engine_move_in_progress:
  "in_progress (d_state d) \<Longrightarrow> move_permitted d to_st (engine_move (d_state d) to_st msg)"
  by (rule engine_move_permitted) (auto simp: in_progress_def)

lemma engine_transition_writes:
  assumes "engine_transition L c bad d to_st msg E = (e, E')" "known (en_store E) d"
    and "move_permitted d to_st (engine_move (d_state d) to_st msg)"
  shows "writes (en_store E) (en_store E')"
  using assms
  by (auto simp: engine_transition_def db_Inr split: sum.splits intro: runs_refl writes_transition)

lemma applyTransition_writes:
  assumes "known (en_store E) d" "move_permitted d to_st (engine_move (d_state d) to_st msg)"
  shows "writes (en_store E) (en_store (applyTransition L env d to_st msg E))"
  using engine_transition_writes [OF _ assms, of L "ae_call env" "ae_bad env"]
  by (auto simp: applyTransition_def split: prod.splits option.splits)

lemma nextAfterDecision_starts: "starts (nextAfterDecision L d j)"
  by (simp add: nextAfterDecision_def starts_def)

lemma stepDetected_writes:
  "known (en_store E) d \<Longrightarrow> d_state d = Detected \<Longrightarrow> writes (en_store E) (en_store (stepDetected L cf env d E))"
  by (auto simp: stepDetected_def split: sum.splits option.splits
      intro: runs_refl intro!: applyTransition_writes engine_move_permitted)

text \<open>Within one step of a deployment in progress: every transition is permitted.\<close>

lemma progress_transition:
  "known (en_store E) d \<Longrightarrow> in_progress (d_state d) \<Longrightarrow>
     writes (en_store E) (en_store (applyTransition L env d to_st msg E))"
  by (rule applyTransition_writes, assumption, rule engine_move_in_progress)

lemma hook_phase_writes:
  "known (en_store E) d \<Longrightarrow> in_progress (d_state d) \<Longrightarrow>
     writes (en_store E) (en_store (hook_phase L env d j phase prev hs E))"
proof (induction hs arbitrary: prev E)
  case Nil
  then show ?case by (simp add: progress_transition)
next
  case (Cons h hs)
  obtain err as where reg: "registerRevision L env (d_namespace d) h = (err, as)" by (rule prod.exhaust)
  show ?case
  proof (cases err)
    case (Some msg)
    with reg Cons.prems progress_transition [of "acts as E"] show ?thesis
      by (simp add: Let_def runs_refl)
  next
    case None
    obtain res s bs where run: "Run L (ae_run env h) (request_of d j phase (frozenTimeout L h) h) (en_store E) = (res, s, bs)"
      by (rule prod_cases3)
    note w = Run_writes [OF run]
    let ?E = "acts [RunHook (d_id d) phase (h_position h) (h_revision h)] (acts as E)\<lparr>en_store := s\<rparr>"
    have k: "known (en_store ?E) d" using known_writes [OF w Cons.prems(1)] by simp
    note onward = Cons.IH [OF k Cons.prems(2)] progress_transition [OF k Cons.prems(2)]
    have "writes s (en_store (hook_phase L env d j phase prev (h # hs) E))"
      using onward by (auto simp: Let_def reg None run runs_refl split: sum.splits)
    from runs_trans [OF this w] show ?thesis .
  qed
qed

lemma stepHook_writes:
  "known (en_store E) d \<Longrightarrow> in_progress (d_state d) \<Longrightarrow>
     writes (en_store E) (en_store (stepHook L env phase d E))"
  by (auto simp: stepHook_def Let_def split: sum.splits
      intro: runs_refl progress_transition hook_phase_writes)

lemma registerRetry_writes:
  "known (en_store E) d \<Longrightarrow> in_progress (d_state d) \<Longrightarrow>
     writes (en_store E) (en_store (registerRetry L cf env d cause E))"
  by (auto simp: registerRetry_def split: sum.splits intro: runs_refl progress_transition)

lemma record_applied_writes: "writes (en_store E) (en_store (record_applied env d ev E))"
  by (auto simp: record_applied_def db_Inr split: sum.splits intro: runs_refl writesI)

lemma moveCASIndex_writes:
  "moveCASIndex c bad d idx E = (e, E', d') \<Longrightarrow> writes (en_store E) (en_store E')"
  by (auto simp: moveCASIndex_def db_Inr split: sum.splits intro: runs_refl writesI)

lemma moveCASIndex_store: "writes (en_store E) (en_store (fst (snd (moveCASIndex c bad d idx E))))"
  by (rule moveCASIndex_writes [of c bad d idx E "fst (moveCASIndex c bad d idx E)" _ "snd (snd (moveCASIndex c bad d idx E))"]) simp

lemma register_moved_writes:
  "known (en_store E) d \<Longrightarrow> in_progress (d_state d) \<Longrightarrow>
     writes (en_store E) (en_store (register_moved L cf env d j idx E))"
  by (auto simp: register_moved_def split: sum.splits prod.splits
      intro: runs_refl registerRetry_writes record_applied_writes progress_transition moveCASIndex_store)

lemma register_at_index_writes:
  "known (en_store E) d \<Longrightarrow> in_progress (d_state d) \<Longrightarrow>
     writes (en_store E) (en_store (register_at_index L cf env d j E))"
proof -
  assume k: "known (en_store E) d" "in_progress (d_state d)"
  let ?E = "acts [Register j (d_cas_index d) False (submissionOf d)] E"
  have "known (en_store ?E) d" using k(1) by simp
  note retry = registerRetry_writes [OF this k(2)] and move = progress_transition [OF this k(2)]
    and saved = record_applied_writes [of ?E]
  show ?thesis
    using registerRetry_writes [OF k] progress_transition [OF k] record_applied_writes [of E]
      retry move saved
    by (auto simp: register_at_index_def Let_def split: sum.splits nomad_error.splits)
qed

lemma stepRegister_writes:
  "known (en_store E) d \<Longrightarrow> in_progress (d_state d) \<Longrightarrow>
     writes (en_store E) (en_store (stepRegister L cf env d E))"
  by (auto simp: stepRegister_def Let_def split: sum.splits
      intro: runs_refl registerRetry_writes register_at_index_writes register_moved_writes)

lemma moveAppliedIndex_writes:
  "moveAppliedIndex env d idx E = (r, E') \<Longrightarrow> writes (en_store E) (en_store E')"
  by (auto simp: moveAppliedIndex_def db_Inr split: sum.splits intro: runs_refl writesI)

lemma applyHealth_writes: "applyHealth L env d E = (r, E') \<Longrightarrow> writes (en_store E) (en_store E')"
  by (auto simp: applyHealth_def health_of_live_def Let_def split: sum.splits option.splits if_splits prod.splits
      dest!: moveAppliedIndex_writes intro: runs_refl)

lemma awaitPromotion_writes: "writes (en_store E) (en_store (awaitPromotion env d E))"
  by (auto simp: awaitPromotion_def db_Inr split: sum.splits intro: runs_refl writesI)

lemma promoted_writes: "writes (en_store E) (en_store (promoted env d E))"
  by (auto simp: promoted_def db_Inr split: sum.splits intro: runs_refl writesI)

lemma health_verdict_writes:
  assumes "known (en_store E) d" "in_progress (d_state d)"
  shows "writes (en_store E) (en_store (health_verdict L env d E))"
proof -
  obtain r E1 where h: "applyHealth L env d E = (r, E1)" by (rule prod.exhaust)
  note w = applyHealth_writes [OF h]
  note move = progress_transition [OF known_writes [OF w assms(1)] assms(2)]
  have "writes (en_store E1) (en_store (health_verdict L env d E))"
    using move by (auto simp: health_verdict_def h awaitPromotion_writes promoted_writes runs_refl
        split: sum.splits health.splits health_error.splits nomad_error.splits)
  from runs_trans [OF this w] show ?thesis .
qed

lemma stepHealth_writes:
  "known (en_store E) d \<Longrightarrow> in_progress (d_state d) \<Longrightarrow>
     writes (en_store E) (en_store (stepHealth L cf env d E))"
  by (auto simp: stepHealth_def Let_def split: sum.splits
      intro: runs_refl health_verdict_writes progress_transition)

lemma applyStep_writes:
  "known (en_store E) d \<Longrightarrow> writes (en_store E) (en_store (applyStep L cf env d E))"
  by (cases "d_state d") (simp_all add: applyStep_def stepApplying_def stepDetected_writes stepHook_writes
      stepRegister_writes stepHealth_writes in_progress_def runs_refl)

lemma start_steps_store:
  "start_steps cf ds E = (started, E') \<Longrightarrow> en_store E' = en_store E \<and> set started \<subseteq> set ds"
  by (induction ds arbitrary: E started E')
    (fastforce simp: startApply_def split: if_splits prod.splits bool.splits)+

section \<open>Decisions\<close>

lemma GetDeployment_row: "GetDeployment i s = Inr d \<Longrightarrow> d \<in> set (deployments s) \<and> d_id d = i"
  by (auto simp: GetDeployment_def has_id_def split: option.splits dest: find_SomeD)

text \<open>Writes of an operation on a database whose IDs are unique.\<close>

abbreviation unique_ids :: "store \<Rightarrow> bool" where
  "unique_ids s \<equiv> unique_held (\<lambda>_. True) d_id (deployments s)"

lemma read_known: "unique_ids s \<Longrightarrow> GetDeployment i s = Inr d \<Longrightarrow> known s d \<and> d_id d = i"
  using GetDeployment_row known_row by blast

lemma decision_writes:
  assumes "unique_ids s" "GetDeployment i s = Inr d" "Transition c i to_st t s = Inr s'"
    and "t_from t = Some PendingApproval" "t_decided_by t \<noteq> []"
  shows "writes s s'"
  by (rule writes_transition [of c d to_st t]) (use read_known [OF assms(1,2)] assms(3-5) in \<open>simp_all add: move_permitted_def\<close>)

lemma Approve_writes:
  assumes "unique_ids (en_store E)" "Approve L c bad i hash actor E = (r, E')"
  shows "writes (en_store E) (en_store E')"
  using assms(2)
  by (auto simp: Approve_def db_Inr split: if_splits sum.splits option.splits
      intro: runs_refl decision_writes [OF assms(1)])

lemma Reject_writes:
  assumes "unique_ids (en_store E)" "Reject c bad i actor E = (r, E')"
  shows "writes (en_store E) (en_store E')"
  using assms(2)
  by (auto simp: Reject_def db_Inr split: if_splits sum.splits option.splits
      intro: runs_refl decision_writes [OF assms(1)])

lemma Promote_writes: "Promote L cf c env i actor E = (r, E') \<Longrightarrow> writes (en_store E) (en_store E')"
  by (auto simp: Promote_def db_Inr Let_def split: if_splits sum.splits option.splits
      intro: runs_refl writesI runs_trans [OF writesI(6) writesI(7)])


lemma hold_stores [simp]:
  "en_store (setHold k h E) = en_store E" "en_store (setAllHold h E) = en_store E"
  "en_store (setDeployNowBy k actor E) = en_store E"
  by (auto simp: setHold_def setAllHold_def setDeployNowBy_def split: option.splits)

lemma holds_write:
  "Pause cf c bads ns job actor note E = (r, E') \<Longrightarrow> writes (en_store E) (en_store E')"
  "Resume cf c bad ns job actor E = (r, E') \<Longrightarrow> writes (en_store E) (en_store E')"
  "PauseAllJobs c bads actor note E = (r, E') \<Longrightarrow> writes (en_store E) (en_store E')"
  "ResumeAllJobs c bad actor E = (r, E') \<Longrightarrow> writes (en_store E) (en_store E')"
  by (auto simp: Pause_def Resume_def PauseAllJobs_def ResumeAllJobs_def Let_def db_Inr
      split: if_splits sum.splits intro: runs_refl writesI)

section \<open>The detection cycle\<close>

lemma writes_unique: "writes s t \<Longrightarrow> unique_ids s \<Longrightarrow> unique_ids t"
  by (rule ids.inv.runs_inv [OF writes_store])

lemma target_policy:
  "ta_policy ta \<noteq> PNone \<Longrightarrow> born_state (target_deployment ta spec r) = Detected \<Longrightarrow>
     n_policy (target_deployment ta spec r) = PolAuto"
  by (cases "ta_policy ta") (auto simp: target_deployment_def born_state_def storePolicy_def Let_def split: if_splits)

lemma create_target_writes:
  assumes "create_target L c bad ta r E = (res, E')" "ta_policy ta \<noteq> PNone"
  shows "writes (en_store E) (en_store E')"
  using assms(1) target_policy [OF assms(2)]
  by (auto simp: create_target_def Let_def db_Inr split: sum.splits prod.splits if_splits
      intro: runs_refl writes_create)

lemma reconcile_new_writes:
  "reconcile_new L c bad ta E = (res, E') \<Longrightarrow> writes (en_store E) (en_store E')"
  by (auto simp: reconcile_new_def Let_def split: if_splits sum.splits store_error.splits
      intro: runs_refl create_target_writes)

text \<open>What detection does to an active deployment never starts or rejects it.\<close>

lemma detection_move_writes:
  assumes "engine_transition L c bad d to_st msg E = (e, E')" "known (en_store E) d"
    and "\<not> starts to_st" "to_st \<noteq> Rejected"
  shows "writes (en_store E) (en_store E')"
  by (rule engine_transition_writes [OF assms(1,2)]) (use assms(3,4) in \<open>auto intro: engine_move_permitted\<close>)

lemma rule_moves:
  "rule_active ta d = MoveTo to_st msg \<Longrightarrow> \<not> starts to_st \<and> to_st \<noteq> Rejected"
  "\<not> starts (fst (leave_move ta)) \<and> fst (leave_move ta) \<noteq> Rejected"
  by (auto simp: rule_active_def leave_move_def starts_def split: if_splits option.splits)

lemma rule_on_writes:
  assumes "rule_on L c bad ta d E = (res, E')" "known (en_store E) d"
  shows "writes (en_store E) (en_store E')"
proof (cases "rule_active ta d")
  case (MoveTo to_st msg)
  obtain e E1 where t: "engine_transition L c bad d to_st msg E = (e, E1)" by (rule prod.exhaust)
  have w: "writes (en_store E) (en_store E1)"
    by (rule detection_move_writes [OF t assms(2)]) (use rule_moves(1) [OF MoveTo] in simp_all)
  have "writes (en_store E1) (en_store E')"
    using assms(1) by (auto simp: rule_on_def MoveTo move_then_def t runs_refl split: option.splits
        dest: reconcile_new_writes)
  from runs_trans [OF this w] show ?thesis .
next
  case Leave
  obtain e E1 where t: "engine_transition L c bad d (fst (leave_move ta)) (snd (leave_move ta)) E = (e, E1)"
    by (rule prod.exhaust)
  have "writes (en_store E) (en_store E1)"
    by (rule detection_move_writes [OF t assms(2)]) (use rule_moves(2) in simp_all)
  then show ?thesis using assms(1) by (auto simp: rule_on_def Leave move_then_def t split: option.splits)
next
  case Keep
  then show ?thesis using assms(1) by (simp add: rule_on_def runs_refl)
qed

lemma ActiveDeployment_row:
  "ActiveDeployment ns job s = Inr d \<Longrightarrow> d \<in> set (deployments s) \<and> of_job ns job d \<and> IsActive (d_state d)"
  by (auto simp: ActiveDeployment_def or_not_found_def split: option.splits dest: find_SomeD)

lemma reconcileDeployment_writes:
  assumes "reconcileDeployment L c bad ta E = (res, E')" "unique_ids (en_store E)"
  shows "writes (en_store E) (en_store E')"
proof (cases "db (bad 2) (ActiveDeployment (key_namespace (ta_key ta)) (key_id (ta_key ta)) (en_store E))")
  case (Inl e)
  with assms(1) show ?thesis
    by (auto simp: reconcileDeployment_def runs_refl split: if_splits dest: reconcile_new_writes)
next
  case (Inr d)
  then have "d \<in> set (deployments (en_store E))" using ActiveDeployment_row by (auto simp: db_Inr)
  then have k: "known (en_store E) d" by (rule known_row [OF assms(2)])
  obtain e E1 d1 where m: "moveCASIndex c (bad 5) d (ta_index ta) E = (e, E1, d1)" by (rule prod_cases3)
  note w = moveCASIndex_writes [OF m]
  have "known (en_store E1) d1"
    using known_writes [OF w k] m by (auto simp: moveCASIndex_def split: sum.splits)
  with assms(1) Inr k w rule_on_writes [of L c bad ta d1 E1] rule_on_writes [of L c bad ta d E] show ?thesis
    by (auto simp: reconcileDeployment_def m runs_refl split: if_splits option.splits intro: runs_trans)
qed

lemma drop_lift_writes: "drop_lift bad l E = (e, E') \<Longrightarrow> writes (en_store E) (en_store E')"
  by (auto simp: drop_lift_def runs_refl writesI(15) split: if_splits)

lemma drop_used_writes: "drop_used bad lift ob E = (r, E') \<Longrightarrow> writes (en_store E) (en_store E')"
  by (auto simp: drop_used_def runs_refl split: option.splits prod.splits dest: drop_lift_writes)

lemma reconcileJob_writes:
  assumes "reconcileJob L env mf hooks pause window lift E = (r, E')" "unique_ids (en_store E)"
  shows "writes (en_store E) (en_store E')"
  using assms(1)
  by (auto simp: reconcileJob_def Let_def runs_refl split: sum.splits prod.splits
      dest!: drop_used_writes dest: reconcileDeployment_writes [OF _ assms(2)] intro: runs_trans)


lemma reconcile_jobs_writes:
  "reconcile_jobs L cf env hs held all asked mfs acc E = (r, E') \<Longrightarrow> unique_ids (en_store E) \<Longrightarrow>
     writes (en_store E) (en_store E')"
proof (induction mfs arbitrary: acc E)
  case Nil
  then show ?case by (simp add: runs_refl)
next
  case (Cons mf mfs)
  let ?k = "keyOf (pf_job mf)"
  obtain x E1 where j: "reconcileJob L env mf (hooks_in (key_namespace ?k) hs)
      (case held ?k of Some h \<Rightarrow> Some h | None \<Rightarrow> all) (windowStatus cf (de_now env) (pf_cfg mf)) (asked ?k) E = (x, E1)"
    by (rule prod.exhaust)
  note w = reconcileJob_writes [OF j Cons.prems(2)]
  note onward = Cons.IH [OF _ writes_unique [OF w Cons.prems(2)]]
  have "writes (en_store E1) (en_store E')"
    using Cons.prems(1) by (auto simp: Let_def j runs_refl split: sum.splits option.splits dest: onward)
  from runs_trans [OF this w] show ?case .
qed

lemma supersede_each_writes:
  "supersede_each L cf env seen ds E = (r, E') \<Longrightarrow> \<forall>d\<in>set ds. known (en_store E) d \<Longrightarrow>
     writes (en_store E) (en_store E')"
proof (induction ds arbitrary: E)
  case Nil
  then show ?case by (simp add: runs_refl)
next
  case (Cons d ds)
  obtain e E1 where t: "engine_transition L (de_move env (d_id d)) (de_bad_move env (d_id d)) d Superseded
      ''job removed from repo'' E = (e, E1)" by (rule prod.exhaust)
  have w: "writes (en_store E) (en_store E1)"
    by (rule detection_move_writes [OF t]) (use Cons.prems(2) in \<open>simp_all add: starts_def\<close>)
  have "writes (en_store E1) (en_store E')" if "e = None" "supersede_each L cf env seen ds E1 = (r, E')"
    using Cons.IH [OF that(2)] Cons.prems(2) known_writes [OF w] by simp
  with w Cons.prems Cons.IH [of E] show ?case
    by (auto simp: t split: if_splits option.splits intro: runs_trans)
qed

lemma supersedeRemoved_writes:
  assumes "supersedeRemoved L cf env seen E = (r, E')" "unique_ids (en_store E)"
  shows "writes (en_store E) (en_store E')"
proof -
  have "\<forall>d\<in>set (ListActive (en_store E)). known (en_store E) d"
    using known_row [OF assms(2)] by (auto simp: ListActive_def)
  with assms(1) show ?thesis
    by (auto simp: supersedeRemoved_def runs_refl split: if_splits dest: supersede_each_writes)
qed

lemma drop_unseen_writes: "drop_unseen env seen ls E = (r, E') \<Longrightarrow> writes (en_store E) (en_store E')"
proof (induction ls arbitrary: E)
  case Nil
  then show ?case by (simp add: runs_refl)
next
  case (Cons l ls)
  then show ?case
    by (auto simp: Let_def split: if_splits prod.splits option.splits dest!: drop_lift_writes intro: runs_trans)
qed

lemma gcHookRevisionsIn_store:
  "gcHookRevisionsIn L env ns E = (r, E') \<Longrightarrow> en_store E' = en_store E"
  by (auto simp: gcHookRevisionsIn_def Let_def split: sum.splits if_splits)

lemma gcHookRevisions_store: "gcHookRevisions L env nss E = (r, E') \<Longrightarrow> en_store E' = en_store E"
  by (induction nss arbitrary: E) (auto split: prod.splits option.splits dest!: gcHookRevisionsIn_store)

lemma after_jobs_writes:
  assumes "after_jobs L cf env parsed seen lifts st E = (r, st', E')" "unique_ids (en_store E)"
  shows "writes (en_store E) (en_store E')"
proof -
  obtain e1 E1 where rem: "(if su_unparsed st = 0
        then (case supersedeRemoved L cf env seen E of
            (Some e, E1) \<Rightarrow> (Some e, E1) | (None, E1) \<Rightarrow> drop_unseen env seen lifts E1)
        else (None, E)) = (e1, E1)" by (rule prod.exhaust)
  then have w: "writes (en_store E) (en_store E1)"
    using supersedeRemoved_writes [OF _ assms(2)]
    by (auto simp: runs_refl split: if_splits prod.splits option.splits
        dest!: drop_unseen_writes intro: runs_trans)
  have "en_store E' = en_store E1"
    using assms(1) unfolding after_jobs_def Let_def rem
    by (auto simp: set_orphans_def split: option.splits prod.splits if_splits sum.splits
        dest!: gcHookRevisions_store)
  with w show ?thesis by simp
qed

lemma detect_writes:
  assumes "detect L cf env snaps E = (r, st, E')" "unique_ids (en_store E)"
  shows "writes (en_store E) (en_store E')"
proof -
  have "writes (en_store E1) (en_store E')"
    if "reconcile_jobs L cf env hs held all asked mfs acc E1 = (Inr (obs, n), E2)" "unique_ids (en_store E1)"
      "after_jobs L cf env parsed seen lifts st0 (E2\<lparr>en_observations := obs\<rparr>) = (r, st, E')"
    for hs held all asked mfs acc obs n E1 E2 parsed seen lifts st0
  proof -
    note w = reconcile_jobs_writes [OF that(1,2)]
    have "writes (en_store E2) (en_store E')"
      using after_jobs_writes [OF that(3)] writes_unique [OF w that(2)] by simp
    from runs_trans [OF this w] show ?thesis .
  qed
  note onward = this [where ?E1.0 = "E\<lparr>en_parse_cache := _, en_all := _\<rparr>"]
  show ?thesis
    using assms
    by (auto simp: detect_def Let_def runs_refl split: prod.splits if_splits sum.splits
        dest!: onward dest: reconcile_jobs_writes)
qed

lemma Detect_writes:
  "Detect L cf env snaps E = (r, E') \<Longrightarrow> unique_ids (en_store E) \<Longrightarrow> writes (en_store E) (en_store E')"
  by (auto simp: Detect_def split: prod.splits dest: detect_writes)

lemma Retry_writes:
  assumes "Retry L cf c env snaps i actor E = (r, E')" "unique_ids (en_store E)"
  shows "writes (en_store E) (en_store E')"
proof -
  have "writes (en_store E) (en_store E2)"
    if "MarkRetried c i actor (en_store E) = Inr s" "Detect L cf env snaps (E\<lparr>en_store := s\<rparr>) = (e, E2)" for s e E2
  proof -
    note w = writesI(4) [OF that(1)]
    have "writes s (en_store E2)" using Detect_writes [OF that(2)] writes_unique [OF w assms(2)] by simp
    from runs_trans [OF this w] show ?thesis .
  qed
  with assms(1) show ?thesis
    by (auto simp: Retry_def db_Inr runs_refl split: if_splits sum.splits prod.splits option.splits)
qed

lemma DeployNow_writes:
  assumes "DeployNow L cf c env snaps ns job hash actor E = (r, E')" "unique_ids (en_store E)"
  shows "writes (en_store E) (en_store E')"
proof -
  have "writes (en_store E) (en_store E2)"
    if "RequestWindowLift c ns job hash actor (en_store E) = Inr s"
      "Detect L cf env snaps (setDeployNowBy k actor (E\<lparr>en_store := s\<rparr>)) = (e, E2)" for s e E2 k
  proof -
    note w = writesI(14) [OF that(1)]
    have "writes s (en_store E2)" using Detect_writes [OF that(2)] writes_unique [OF w assms(2)] by simp
    from runs_trans [OF this w] show ?thesis .
  qed
  with assms(1) show ?thesis
    by (auto simp: DeployNow_def db_Inr Let_def runs_refl split: if_splits sum.splits prod.splits option.splits)
qed

end
