(* ===== verification/EngineSystem.thy ===== *)
theory EngineSystem
  imports EngineWrites StoreProperties RunnerProperties
begin

text \<open>
  The engine as a state machine: the detection cycle, the steps of the apply loop and the actions
  of people, in any order, with any behaviour of Nomad, git, the clock and SQLite, and restarts. A
  state is the engine and the deployments the apply loop has read and not stepped yet, which may be
  older than their rows by any number of steps. What the engine writes is a run of the guarded
  store; what it sends to Nomad is sent for deployments somebody or \<open>auto\<close> let through.
\<close>

section \<open>The system\<close>

type_synonym system = "engine \<times> deployment list"

definition fresh_status :: status where
  "fresh_status = \<lparr>su_error = False, su_managed = 0, su_skipped = 0, su_unparsed = 0, su_orphans = 0,
     su_orphan_check_skipped = False, su_refused = []\<rparr>"

text \<open>A new process on the same database: what was in memory is gone.\<close>

definition restarted :: "engine \<Rightarrow> engine" where
  "restarted E = \<lparr>en_store = en_store E, en_observations = Map.empty, en_all = None, en_orphans = [],
     en_status = fresh_status, en_parse_cache = Map.empty, en_kick = False, en_in_flight = [],
     en_trace = en_trace E\<rparr>"

definition new_engine :: engine where
  "new_engine = \<lparr>en_store = empty_store, en_observations = Map.empty, en_all = None, en_orphans = [],
     en_status = fresh_status, en_parse_cache = Map.empty, en_kick = False, en_in_flight = [], en_trace = []\<rparr>"

definition engine_start :: "system \<Rightarrow> bool" where
  "engine_start x = (x = (new_engine, []))"

inductive engine_step :: "libs \<Rightarrow> opts \<Rightarrow> system \<Rightarrow> system \<Rightarrow> bool" for L cf where
  es_cycle: "applyCycle cf bad E = (started, E') \<Longrightarrow> engine_step L cf (E, ds) (E', started @ ds)"
| es_apply: "d \<in> set ds \<Longrightarrow>
     engine_step L cf (E, ds) (finishApply (d_id d) (applyStep L cf env d E), remove1 d ds)"
| es_detect: "Detect L cf env snaps E = (e, E') \<Longrightarrow> engine_step L cf (E, ds) (E', ds)"
| es_approve: "Approve L c bads i hash actor E = (r, E') \<Longrightarrow> engine_step L cf (E, ds) (E', ds)"
| es_reject: "Reject c bads i actor E = (r, E') \<Longrightarrow> engine_step L cf (E, ds) (E', ds)"
| es_promote: "Promote L cf c aenv i actor E = (r, E') \<Longrightarrow> engine_step L cf (E, ds) (E', ds)"
| es_retry: "Retry L cf c env snaps i actor E = (rs, E') \<Longrightarrow> engine_step L cf (E, ds) (E', ds)"
| es_deploy_now: "DeployNow L cf c env snaps ns job hash actor E = (rs, E') \<Longrightarrow> engine_step L cf (E, ds) (E', ds)"
| es_pause: "Pause cf c bad2 ns job actor note E = (r, E') \<Longrightarrow> engine_step L cf (E, ds) (E', ds)"
| es_resume: "Resume cf c bad ns job actor E = (r, E') \<Longrightarrow> engine_step L cf (E, ds) (E', ds)"
| es_pause_all: "PauseAllJobs c bad2 actor note E = (r, E') \<Longrightarrow> engine_step L cf (E, ds) (E', ds)"
| es_resume_all: "ResumeAllJobs c bad actor E = (r, E') \<Longrightarrow> engine_step L cf (E, ds) (E', ds)"
| es_restart: "engine_step L cf (E, ds) (restarted E, [])"

inductive_cases engine_stepE: "engine_step L cf (E, ds) (E', ds')"

definition sys_inv :: "system \<Rightarrow> bool" where
  "sys_inv x = (unique_ids (en_store (fst x)) \<and> all_decided (en_store (fst x)) \<and>
     list_all (\<lambda>d. known (en_store (fst x)) d \<and> decided d) (snd x))"

lemma finishApply_store [simp]: "en_store (finishApply i E) = en_store E"
  by (simp add: finishApply_def)

lemma applyCycle_rows:
  "applyCycle cf bad E = (started, E') \<Longrightarrow> en_store E' = en_store E \<and> set started \<subseteq> set (deployments (en_store E))"
  by (auto simp: applyCycle_def ListActive_def split: if_splits dest!: start_steps_store)

lemma engine_step_writes:
  assumes "engine_step L cf (E, ds) (E', ds')" "sys_inv (E, ds)"
  shows "writes (en_store E) (en_store E')"
proof -
  have u: "unique_ids (en_store E)" and k: "\<And>d. d \<in> set ds \<Longrightarrow> known (en_store E) d"
    using assms(2) by (simp_all add: sys_inv_def list_all_iff)
  note w = Detect_writes [OF _ u] Approve_writes [OF u] Reject_writes [OF u] Promote_writes
    Retry_writes [OF _ u] DeployNow_writes [OF _ u] holds_write
  show ?thesis
    using assms(1)
    by (cases rule: engine_stepE) (auto simp: runs_refl restarted_def applyStep_writes k dest: applyCycle_rows w)
qed

lemma engine_step_reads:
  "engine_step L cf (E, ds) (E', ds') \<Longrightarrow> set ds' \<subseteq> set ds \<union> set (deployments (en_store E))"
  by (erule engine_stepE) (auto dest: applyCycle_rows set_remove1_subset [THEN subsetD])

lemma sys_inv_step:
  assumes "sys_inv (E, ds)" "engine_step L cf (E, ds) (E', ds')"
  shows "sys_inv (E', ds')"
proof -
  note w = engine_step_writes [OF assms(2,1)]
  have "known (en_store E) d \<and> decided d" if "d \<in> set ds'" for d
    using that engine_step_reads [OF assms(2)] assms(1) known_row
    by (auto simp: sys_inv_def list_all_iff all_decided_def)
  then show ?thesis
    using assms(1) writes_unique [OF w] decisions.runs_inv [OF w] known_writes [OF w]
    by (simp add: sys_inv_def list_all_iff)
qed

interpretation engines: simulation engine_start "engine_step L cf" sys_inv store_start guarded_step "\<lambda>x. en_store (fst x)"
  for L cf
proof (unfold_locales, goal_cases)
  case (1 x)
  then show ?case
    by (simp add: engine_start_def sys_inv_def new_engine_def all_decided_def empty_store_def)
next
  case (2 x y)
  then show ?case by (cases x; cases y) (simp add: sys_inv_step)
next
  case (3 x)
  then show ?case by (simp add: engine_start_def new_engine_def)
next
  case (4 x y)
  then show ?case by (cases x; cases y) (simp add: engine_step_writes)
qed


section \<open>What is registered\<close>

definition is_register :: "action \<Rightarrow> bool" where
  "is_register a = (case a of Register _ _ _ _ \<Rightarrow> True | _ \<Rightarrow> False)"

lemma is_register_simps [simp]: "is_register (Register j idx b sub)" "\<not> is_register (StopJob ns i)"
  "\<not> is_register (PromoteCanaries ns i)" "\<not> is_register (RunHook i ph pos revision)" "\<not> is_register (Notify d ph)"
  "\<not> is_register (NotifyPause resumed actor note)"
  by (simp_all add: is_register_def)

definition regs :: "engine \<Rightarrow> action list" where
  "regs E = filter is_register (en_trace E)"

lemma regs_simps [simp]:
  "regs (acts as E) = regs E @ filter is_register as" "regs (kick_detection E) = regs E"
  "regs (E\<lparr>en_store := s\<rparr>) = regs E" "regs (E\<lparr>en_observations := obs\<rparr>) = regs E"
  "regs (E\<lparr>en_all := h\<rparr>) = regs E" "regs (E\<lparr>en_orphans := os\<rparr>) = regs E"
  "regs (E\<lparr>en_status := st\<rparr>) = regs E" "regs (E\<lparr>en_parse_cache := pc\<rparr>) = regs E"
  "regs (E\<lparr>en_in_flight := is\<rparr>) = regs E" "regs (finishApply i E) = regs E" "regs (restarted E) = regs E"
  "regs (setHold k h E) = regs E" "regs (setAllHold h E) = regs E" "regs (setDeployNowBy k actor E) = regs E"
  by (auto simp: regs_def acts_def kick_detection_def finishApply_def restarted_def setHold_def setAllHold_def
      setDeployNowBy_def split: option.splits)

lemma announce_regs [simp]: "regs (announce L bad d from_st to_st E) = regs E"
  by (auto simp: announce_def split: sum.splits)

lemma engine_transition_regs: "engine_transition L c bad d to_st msg E = (e, E') \<Longrightarrow> regs E' = regs E"
  by (auto simp: engine_transition_def split: sum.splits)

lemma applyTransition_regs [simp]: "regs (applyTransition L env d to_st msg E) = regs E"
  by (auto simp: applyTransition_def split: prod.splits option.splits dest: engine_transition_regs)

text \<open>Detection and people register nothing.\<close>

lemma decisions_regs:
  "Approve L c bads i hash actor E = (r, E') \<Longrightarrow> regs E' = regs E"
  "Reject c bads i actor E = (r, E') \<Longrightarrow> regs E' = regs E"
  "Promote L cf c aenv i actor E = (r, E') \<Longrightarrow> regs E' = regs E"
  "Pause cf c bad2 ns job actor note E = (r, E') \<Longrightarrow> regs E' = regs E"
  "Resume cf c bad ns job actor E = (r, E') \<Longrightarrow> regs E' = regs E"
  "PauseAllJobs c bad2 actor note E = (r, E') \<Longrightarrow> regs E' = regs E"
  "ResumeAllJobs c bad actor E = (r, E') \<Longrightarrow> regs E' = regs E"
  by (auto simp: Approve_def Reject_def Promote_def Pause_def Resume_def PauseAllJobs_def ResumeAllJobs_def Let_def
      split: if_splits sum.splits option.splits)

lemma reconcile_new_regs: "reconcile_new L c bad ta E = (res, E') \<Longrightarrow> regs E' = regs E"
  by (auto simp: reconcile_new_def create_target_def Let_def
      split: if_splits sum.splits store_error.splits prod.splits)

lemma move_then_regs:
  assumes "move_then L c bad d mv k E = (res, E')" "\<And>E1. k E1 = (res, E') \<Longrightarrow> regs E' = regs E1"
  shows "regs E' = regs E"
  using assms by (auto simp: move_then_def split: prod.splits option.splits dest: engine_transition_regs)

lemma rule_on_regs: "rule_on L c bad ta d E = (res, E') \<Longrightarrow> regs E' = regs E"
  by (auto simp: rule_on_def split: ruling.splits elim!: move_then_regs dest: reconcile_new_regs)

lemma moveCASIndex_regs: "moveCASIndex c bad d idx E = (e, E', d') \<Longrightarrow> regs E' = regs E"
  by (auto simp: moveCASIndex_def split: sum.splits)

lemma reconcileDeployment_regs: "reconcileDeployment L c bad ta E = (res, E') \<Longrightarrow> regs E' = regs E"
  by (auto simp: reconcileDeployment_def split: sum.splits if_splits prod.splits option.splits
      dest!: reconcile_new_regs rule_on_regs moveCASIndex_regs)

lemma drop_lift_regs: "drop_lift bad l E = (e, E') \<Longrightarrow> regs E' = regs E"
  by (auto simp: drop_lift_def split: if_splits)

lemma reconcileJob_regs: "reconcileJob L env mf hooks pause window lift E = (r, E') \<Longrightarrow> regs E' = regs E"
  by (auto simp: reconcileJob_def Let_def drop_used_def split: sum.splits prod.splits option.splits
      dest!: drop_lift_regs reconcileDeployment_regs)

lemma reconcile_jobs_regs:
  "reconcile_jobs L cf env hs held all asked mfs acc E = (r, E') \<Longrightarrow> regs E' = regs E"
  by (induction mfs arbitrary: acc E)
    (auto simp: Let_def split: sum.splits prod.splits option.splits dest!: reconcileJob_regs)

lemma supersede_each_regs: "supersede_each L cf env seen ds E = (r, E') \<Longrightarrow> regs E' = regs E"
  by (induction ds arbitrary: E)
    (auto split: if_splits prod.splits option.splits dest!: engine_transition_regs)

lemma drop_unseen_regs: "drop_unseen env seen ls E = (r, E') \<Longrightarrow> regs E' = regs E"
  by (induction ls arbitrary: E) (auto simp: Let_def split: if_splits prod.splits option.splits dest!: drop_lift_regs)

lemma gcHookRevisions_regs: "gcHookRevisions L env nss E = (r, E') \<Longrightarrow> regs E' = regs E"
  by (induction nss arbitrary: E)
    (auto simp: gcHookRevisionsIn_def Let_def filter_map o_def split: prod.splits option.splits sum.splits if_splits)

lemma after_jobs_regs: "after_jobs L cf env parsed seen lifts st E = (r, st', E') \<Longrightarrow> regs E' = regs E"
  by (auto simp: after_jobs_def Let_def supersedeRemoved_def set_orphans_def
      split: option.splits prod.splits if_splits sum.splits
      dest!: supersede_each_regs drop_unseen_regs gcHookRevisions_regs)

lemma Detect_regs: "Detect L cf env snaps E = (e, E') \<Longrightarrow> regs E' = regs E"
  by (auto simp: Detect_def detect_def Let_def split: prod.splits if_splits sum.splits
      dest!: reconcile_jobs_regs after_jobs_regs)

lemma Retry_regs: "Retry L cf c env snaps i actor E = (r, E') \<Longrightarrow> regs E' = regs E"
  by (auto simp: Retry_def split: if_splits sum.splits prod.splits option.splits dest!: Detect_regs)

lemma DeployNow_regs: "DeployNow L cf c env snaps ns job hash actor E = (r, E') \<Longrightarrow> regs E' = regs E"
  by (auto simp: DeployNow_def Let_def split: if_splits sum.splits prod.splits option.splits dest!: Detect_regs)


lemma registerRetry_regs [simp]: "regs (registerRetry L cf env d e E) = regs E"
  by (simp add: registerRetry_def split: sum.splits)

lemma record_applied_regs [simp]: "regs (record_applied env d ev E) = regs E"
  by (simp add: record_applied_def split: sum.splits)

lemma register_moved_regs [simp]: "regs (register_moved L cf env d j idx E) = regs E"
  by (auto simp: register_moved_def moveCASIndex_def split: sum.splits)

lemma applyHealth_regs: "applyHealth L env d E = (r, E') \<Longrightarrow> regs E' = regs E"
  by (auto simp: applyHealth_def health_of_live_def moveAppliedIndex_def Let_def
      split: sum.splits option.splits if_splits prod.splits)

lemma promotion_regs [simp]:
  "regs (awaitPromotion env d E) = regs E" "regs (promoted env d E) = regs E"
  by (auto simp: awaitPromotion_def promoted_def split: sum.splits)

lemma health_verdict_regs [simp]: "regs (health_verdict L env d E) = regs E"
proof -
  obtain r E1 where h: "applyHealth L env d E = (r, E1)" by (rule prod.exhaust)
  have "regs (health_verdict L env d E) = regs E1"
    by (simp add: health_verdict_def h split: sum.splits prod.splits health.splits health_error.splits nomad_error.splits)
  with applyHealth_regs [OF h] show ?thesis by simp
qed

lemma stepHealth_regs [simp]: "regs (stepHealth L cf env d E) = regs E"
  by (auto simp: stepHealth_def Let_def split: sum.splits)

lemma stepDetected_regs [simp]: "regs (stepDetected L cf env d E) = regs E"
  by (auto simp: stepDetected_def split: sum.splits option.splits)

text \<open>
  What a step of the apply loop may register, said of the answers that very step got: the spec of the
  deployment, or the revision of one of the hooks it froze.
\<close>

definition registers_spec :: "libs \<Rightarrow> apply_env \<Rightarrow> deployment \<Rightarrow> action \<Rightarrow> bool" where
  "registers_spec L env d a = (\<exists>j j0. a = Register j (d_cas_index d) False (submissionOf d) \<and> parseJobSpec L d = Inr j0 \<and>
     (case ae_live env of
        Inl e \<Rightarrow> is_not_found e \<and> d_cas_index d = 0 \<and> j = j0
      | Inr live \<Rightarrow> derefUint64 (j_modify_index live) = d_cas_index d \<and>
          (\<exists>j1. substituteScalingCounts L j0 live = Inr j1 \<and> j = nextVersion j1 live)) \<and>
     (\<exists>p. ae_plan env j = Inr p \<and> plan_drift p))"

definition revision_of :: "deployment \<Rightarrow> deployment_hook \<Rightarrow> job \<Rightarrow> job" where
  "revision_of d h j = j\<lparr>j_name := (if j_name j = None then Some (h_hook_id h) else j_name j),
     j_id := Some (h_revision h), j_namespace := Some (d_namespace d)\<rparr>"

definition registers_hook :: "libs \<Rightarrow> apply_env \<Rightarrow> deployment \<Rightarrow> deployment_hook \<Rightarrow> action \<Rightarrow> bool" where
  "registers_hook L env d h a = (\<exists>j j0 idx. a = Register j idx False None \<and> lib_dec L (h_job_spec h) = Inr j0 \<and>
     (case ae_revision env (h_revision h) of
        Inl e \<Rightarrow> is_not_found e \<and> idx = 0 \<and> j = revision_of d h j0
      | Inr live \<Rightarrow> idx = derefUint64 (j_modify_index live) \<and> j = nextVersion (revision_of d h j0) live) \<and>
     (\<exists>p. ae_plan env j = Inr p \<and> plan_drift p))"

definition may_register :: "libs \<Rightarrow> apply_env \<Rightarrow> store \<Rightarrow> deployment \<Rightarrow> action \<Rightarrow> bool" where
  "may_register L env s d a =
     (d_state d = Applying \<and> AppliedIndex d = 0 \<and> registers_spec L env d a \<or>
      (\<exists>h\<in>set (DeploymentHooks (d_id d) s). registers_hook L env d h a \<and>
         (d_state d = PreHook \<and> h_phase h = ''pre'' \<or> d_state d = PostHook \<and> h_phase h = ''post'')))"

text \<open>\<open>adds P E E'\<close>: the registers of \<open>E'\<close> are those of \<open>E\<close> and then some that are all in \<open>P\<close>.\<close>

definition adds :: "action set \<Rightarrow> engine \<Rightarrow> engine \<Rightarrow> bool" where
  "adds P E E' = (\<exists>rs. regs E' = regs E @ rs \<and> set rs \<subseteq> P)"

lemma adds_refl: "regs E' = regs E \<Longrightarrow> adds P E E'"
  by (simp add: adds_def)

lemma adds_mono: "adds P E E' \<Longrightarrow> P \<subseteq> Q \<Longrightarrow> adds Q E E'"
  by (auto simp: adds_def)

lemma adds_trans: "adds P E E1 \<Longrightarrow> adds Q E1 E2 \<Longrightarrow> adds (P \<union> Q) E E2"
  by (auto simp: adds_def)

lemma adds_same: "adds P E E1 \<Longrightarrow> regs E2 = regs E1 \<Longrightarrow> adds P E E2"
  by (simp add: adds_def)

lemma registerRevision_registers:
  assumes "a \<in> set (snd (registerRevision L env (d_namespace d) h))"
  shows "registers_hook L env d h a"
proof -
  obtain j0 where j0: "lib_dec L (h_job_spec h) = Inr j0"
    using assms by (cases "lib_dec L (h_job_spec h)") (simp_all add: registerRevision_def revisionJob_def)
  then have "\<exists>j. revisionJob L h = Inr j \<and> j\<lparr>j_namespace := Some (d_namespace d)\<rparr> = revision_of d h j0"
    by (simp add: revisionJob_def revision_of_def)
  with assms j0 show ?thesis
    by (auto simp: registerRevision_def registers_hook_def Let_def split: sum.splits if_splits)
qed

lemma registerRevision_only: "filter is_register (snd (registerRevision L env ns h)) = snd (registerRevision L env ns h)"
  by (auto simp: registerRevision_def Let_def split: sum.splits)

lemma register_at_index_adds:
  "adds {a. (\<exists>p. ae_plan env j = Inr p \<and> plan_drift p) \<and> a = Register j (d_cas_index d) False (submissionOf d)}
     E (register_at_index L cf env d j E)"
  by (auto simp: register_at_index_def Let_def adds_def split: sum.splits nomad_error.splits)

lemma stepRegister_cases:
  "regs (stepRegister L cf env d E) = regs E \<or>
   (\<exists>j. stepRegister L cf env d E = register_at_index L cf env d j E \<and> (\<exists>j0. parseJobSpec L d = Inr j0 \<and>
     (case ae_live env of
        Inl e \<Rightarrow> is_not_found e \<and> d_cas_index d = 0 \<and> j = j0
      | Inr live \<Rightarrow> derefUint64 (j_modify_index live) = d_cas_index d \<and>
          (\<exists>j1. substituteScalingCounts L j0 live = Inr j1 \<and> j = nextVersion j1 live))))"
proof (cases "parseJobSpec L d")
  case (Inr j0)
  note parsed = Inr
  show ?thesis
  proof (cases "ae_live env")
    case (Inl e)
    with parsed show ?thesis by (simp add: stepRegister_def)
  next
    case (Inr live)
    with parsed show ?thesis
      by (cases "substituteScalingCounts L j0 live") (simp_all add: stepRegister_def Let_def)
  qed
qed (simp add: stepRegister_def)

lemma stepRegister_adds: "adds {a. registers_spec L env d a} E (stepRegister L cf env d E)"
  using stepRegister_cases [of L cf env d E]
proof (elim disjE exE conjE)
  fix j j0
  assume s: "stepRegister L cf env d E = register_at_index L cf env d j E" and j: "parseJobSpec L d = Inr j0"
    "case ae_live env of Inl e \<Rightarrow> is_not_found e \<and> d_cas_index d = 0 \<and> j = j0
      | Inr live \<Rightarrow> derefUint64 (j_modify_index live) = d_cas_index d \<and>
          (\<exists>j1. substituteScalingCounts L j0 live = Inr j1 \<and> j = nextVersion j1 live)"
  show ?thesis
    unfolding s by (rule adds_mono [OF register_at_index_adds]) (use j in \<open>auto simp: registers_spec_def\<close>)
qed (rule adds_refl)

lemma hook_phase_adds:
  "adds {a. \<exists>h\<in>set hs. registers_hook L env d h a} E (hook_phase L env d j phase prev hs E)"
proof (induction hs arbitrary: prev E)
  case (Cons h hs)
  let ?P = "{a. \<exists>h\<in>set hs. registers_hook L env d h a}" and ?Q = "{a. registers_hook L env d h a}"
  have PQ: "?Q \<union> ?P = {a. \<exists>h\<in>set (h # hs). registers_hook L env d h a}" by auto
  obtain failure as where reg: "registerRevision L env (d_namespace d) h = (failure, as)" by (rule prod.exhaust)
  from registerRevision_registers [of _ L env d h] registerRevision_only [of L env "d_namespace d" h]
  have as: "set as \<subseteq> ?Q" "filter is_register as = as" by (auto simp: reg)
  then have first: "adds ?Q E (acts as E)" by (auto simp: adds_def)
  show ?case
  proof (cases failure)
    case (Some msg)
    have "adds ?Q E (hook_phase L env d j phase prev (h # hs) E)"
      by (rule adds_same [OF first])
        (simp only: hook_phase.simps reg Some Let_def prod.case option.case applyTransition_regs if_cancel split: if_split, simp)
    then show ?thesis by (rule adds_mono) (use PQ in blast)
  next
    case None
    obtain res s bs where run: "Run L (ae_run env h) (request_of d j phase (frozenTimeout L h) h) (en_store E) = (res, s, bs)"
      by (rule prod_cases3)
    let ?E = "acts [RunHook (d_id d) phase (h_position h) (h_revision h)] (acts as E)\<lparr>en_store := s\<rparr>"
    have E: "adds ?Q E ?E" by (rule adds_same [OF first]) simp
    have "regs (hook_phase L env d j phase prev (h # hs) E) = regs ?E \<or>
        regs (hook_phase L env d j phase prev (h # hs) E) = regs (hook_phase L env d j phase (Some h) hs ?E)"
    proof (cases res)
      case (Inl e)
      show ?thesis
        by (rule disjI1) (simp only: hook_phase.simps reg None run Inl Let_def prod.case option.case sum.case)
    next
      case (Inr r)
      show ?thesis
        by (simp only: hook_phase.simps reg None run Inr Let_def prod.case option.case sum.case applyTransition_regs
            split: if_split) blast
    qed
    then have "adds ?P ?E (hook_phase L env d j phase prev (h # hs) E)"
    proof
      assume "regs (hook_phase L env d j phase prev (h # hs) E) = regs ?E"
      then show ?thesis by (rule adds_refl)
    next
      assume "regs (hook_phase L env d j phase prev (h # hs) E) = regs (hook_phase L env d j phase (Some h) hs ?E)"
      with Cons.IH show ?thesis by (rule adds_same)
    qed
    from adds_trans [OF E this] show ?thesis unfolding PQ .
  qed
qed (simp add: adds_refl)

lemma stepHook_adds:
  "adds {a. \<exists>h\<in>set (DeploymentHooks (d_id d) (en_store E)). h_phase h = phase \<and> registers_hook L env d h a}
     E (stepHook L env phase d E)"
proof (cases "\<exists>j. parseJobSpec L d = Inr j \<and> \<not> ae_bad env 5 \<and>
    filter (\<lambda>h. h_phase h = phase) (DeploymentHooks (d_id d) (en_store E)) \<noteq> []")
  case True
  then obtain j where "stepHook L env phase d E =
      hook_phase L env d j phase None (filter (\<lambda>h. h_phase h = phase) (DeploymentHooks (d_id d) (en_store E))) E"
    by (auto simp: stepHook_def Let_def db_def)
  with hook_phase_adds [of "filter (\<lambda>h. h_phase h = phase) (DeploymentHooks (d_id d) (en_store E))" L env d E j phase None]
  show ?thesis by (auto elim!: adds_mono)
qed (auto simp: stepHook_def Let_def db_def intro!: adds_refl split: sum.splits)

lemma applyStep_adds: "adds {a. may_register L env (en_store E) d a} E (applyStep L cf env d E)"
proof (cases "d_state d")
  case PreHook
  then show ?thesis using stepHook_adds [of d E "''pre''" L env]
    by (auto simp: applyStep_def may_register_def elim!: adds_mono)
next
  case PostHook
  then show ?thesis using stepHook_adds [of d E "''post''" L env]
    by (auto simp: applyStep_def may_register_def elim!: adds_mono)
next
  case Applying
  then show ?thesis using stepRegister_adds [of L env d E cf]
    by (auto simp: applyStep_def stepApplying_def may_register_def intro: adds_refl elim!: adds_mono)
qed (auto simp: applyStep_def intro!: adds_refl)

end
