(* ===== verification/EngineSample.thy ===== *)
theory EngineSample
  imports EngineSystem
begin

text \<open>
  A run of the engine on a small repository, for the witnesses: detection finds one job under
  \<open>auto\<close> that is not in Nomad and creates its deployment, the apply loop picks it up and starts it.
\<close>

section \<open>The repository and Nomad\<close>

definition sample_opts :: opts where
  "sample_opts = \<lparr>op_namespaces = [''default''], op_repository_jobs = Map.empty, op_apply_timeout = 300, op_sync_zone = ''UTC''\<rparr>"

definition sample_snapshot :: snapshot where
  "sample_snapshot = \<lparr>sn_repository = ''r'', sn_commit = ''c0'', sn_subject = [], sn_author = [],
     sn_files = [\<lparr>fl_path = ''api.hcl'', fl_content = ''job'', fl_vars = []\<rparr>]\<rparr>"

definition sample_diff :: job_diff where
  "sample_diff = \<lparr>jd_type = ''Added'', jd_id = ''api'', jd_fields = [], jd_objects = [], jd_groups = []\<rparr>"

definition sample_detect :: detect_env where
  "sample_detect = \<lparr>de_now = 5, de_call = (\<lambda>_. sample_call), de_move = (\<lambda>_. sample_call), de_bad = (\<lambda>_. False),
     de_bad_job = (\<lambda>_ _. False), de_bad_move = (\<lambda>_ _. False), de_bad_ns = (\<lambda>_ _. False),
     de_parse = (\<lambda>_ _ _. Inr sample_job), de_live = (\<lambda>_. Inl (JobNotFound [])), de_plan = (\<lambda>_. Inr (Some sample_diff)),
     de_jobs = (\<lambda>_. Inr []), de_stop = (\<lambda>_ _. Inr ())\<rparr>"

definition sample_cfg :: meta_config where
  "sample_cfg = meta_of sample_libs (j_meta sample_job)"

lemma sample_cfg: "eff_policy sample_cfg = PAuto" "pre_hooks sample_cfg = []" "post_hooks sample_cfg = []"
  "\<not> is_hook sample_cfg" "managed sample_cfg" "sync_window sample_cfg = None" "issues sample_cfg = []"
  by code_simp+

definition sample_file :: parsed_file where
  "sample_file = \<lparr>pf_path = ''api.hcl'', pf_commit = commit_of sample_snapshot, pf_job = sample_job, pf_cfg = sample_cfg,
     pf_file = ''job'', pf_vars = commitVars [] ''c0''\<rparr>"

lemma sample_key: "keyOf sample_job = JobKey ''default'' ''api''" by (simp add: keyOf_def sample_job_def)

lemma sample_outcomes: "parse_outcomes sample_libs sample_opts sample_detect Map.empty [sample_snapshot] =
   [(FileParsed sample_file, Some (parseCacheKey sample_libs ''job'' (commitVars [] ''c0''), sample_job))]"
  by (simp add: parse_outcomes_def parseFile_def Let_def sample_opts_def sample_snapshot_def sample_detect_def
    commit_of_def sample_file_def sample_cfg_def sample_key defaultNamespace_def managedNS_def) (simp add: sample_job_def)

lemma sample_classify: "classify [sample_file] = ([], [sample_file])"
  by (simp add: classify_def single_files_def sample_file_def sample_key sample_cfg)

definition detected_new :: new_deployment where
  "detected_new = \<lparr>n_job_id = ''api'', n_namespace = ''default'', n_repository = ''r'', n_commit_sha = ''c0'',
     n_commit_subject = [], n_commit_author = [], n_spec_hash = ''{}'', n_job_spec = ''{}'',
     n_job_source = ''job'', n_job_vars = commitVars [] ''c0'', n_plan_diff = ''{}'', n_diff_hash = ''{}'', n_policy = PolAuto,
     n_state = Some Detected, n_error = [], n_cas_index = 0, n_retry_of = [], n_window_lifted_by = [],
     n_hooks = []\<rparr>"

definition detected_row :: deployment where "detected_row = new_row sample_call detected_new"

definition detected_store :: store where
  "detected_store = log_birth sample_call detected_new (empty_store\<lparr>deployments := [detected_row]\<rparr>)"

lemma detected_created: "CreateDeployment sample_call detected_new empty_store = Inr (detected_store, detected_row)"
  by (simp add: CreateDeployment_def detected_store_def detected_row_def create_refused_def detected_new_def
      born_state_def empty_store_def)

lemma sample_target: "target_deployment \<lparr>ta_key = JobKey ''default'' ''api'', ta_commit = commit_of sample_snapshot, ta_policy = PAuto, ta_hash = ''{}'',
   ta_hooks = [], ta_problem = [], ta_index = 0, ta_drift = True, ta_diff_hash = ''{}'', ta_redacted = ''{}'',
   ta_job = sample_job, ta_file = ''job'', ta_vars = commitVars [] ''c0'', ta_hold = None, ta_lifted_by = []\<rparr> ''{}'' None = detected_new"
  by (simp add: target_deployment_def Let_def detected_new_def commit_of_def sample_snapshot_def storePolicy_def)

lemma sample_lib: "lib_enc sample_libs j = Inr ''{}''" "lib_sha sample_libs h = h" "lib_dec sample_libs h = Inr sample_job"
  "lib_diff_json sample_libs df = Inr ''{}''" "lib_redacted_json sample_libs rdf = Inr ''{}''"
  by (simp_all add: sample_libs_def)

lemma sample_env: "de_now sample_detect = 5" "de_call sample_detect k = sample_call" "de_bad sample_detect n = False"
  "de_bad_job sample_detect k = (\<lambda>_. False)" "de_bad_ns sample_detect ns n = False" "de_live sample_detect k = Inl (JobNotFound [])"
  "de_plan sample_detect j = Inr (Some sample_diff)" "de_jobs sample_detect ns = Inr []"
  by (simp_all add: sample_detect_def)

section \<open>Detection\<close>

lemma sample_freeze: "bindE (specHash sample_libs sample_job) (freezeHooks sample_libs sample_cfg hooks) = Inr ([], ''{}'', [])"
  by (simp add: specHash_def freezeHooks_def sample_cfg sample_lib)

lemma sample_plan: "plan_job sample_libs sample_detect sample_file = Inr (sample_job, 0, Some sample_diff)"
  by (simp add: plan_job_def sample_env is_not_found_def sample_file_def Let_def)

lemma sample_hashes: "plan_drift (Some sample_diff)" "diffHashOf sample_libs sample_diff = Inr ''{}''" "Diff sample_libs (Some sample_diff) = Inr ''{}''"
  by (simp_all add: plan_drift_def sample_diff_def diffHashOf_def Diff_def sample_lib)

lemma sample_create: "reconcileDeployment sample_libs sample_call (\<lambda>_. False) \<lparr>ta_key = JobKey ''default'' ''api'', ta_commit = commit_of sample_snapshot, ta_policy = PAuto, ta_hash = ''{}'',
   ta_hooks = [], ta_problem = [], ta_index = 0, ta_drift = True, ta_diff_hash = ''{}'', ta_redacted = ''{}'',
   ta_job = sample_job, ta_file = ''job'', ta_vars = commitVars [] ''c0'', ta_hold = None, ta_lifted_by = []\<rparr> E = (Inr ([], []), E\<lparr>en_store := detected_store\<rparr>)"
  if n: "en_store E = empty_store"
proof -
  have e: "deployments empty_store = []" by (simp add: empty_store_def)
  have b: "born_state detected_new = Detected" by (simp add: born_state_def detected_new_def)
  show ?thesis
  by (simp add: reconcileDeployment_def ActiveDeployment_def reconcile_new_def LatestDeployment_def newest_def or_not_found_def db_def create_target_def e n
    sample_lib sample_target detected_created b)
qed

lemma sample_file_fields: "pf_job sample_file = sample_job" "pf_cfg sample_file = sample_cfg"
  "pf_commit sample_file = commit_of sample_snapshot" "pf_file sample_file = ''job''" "pf_vars sample_file = commitVars [] ''c0''"
  by (simp_all add: sample_file_def)

lemma sample_reconcile: "en_store E = empty_store \<Longrightarrow> \<exists>ob. reconcileJob sample_libs sample_detect sample_file hooks None None None E =
   (Inr (Some ob), E\<lparr>en_store := detected_store\<rparr>)"
  by (simp add: reconcileJob_def Let_def sample_freeze sample_plan sample_hashes sample_key sample_cfg
    sample_file_fields lifted_hold_def holdFrom_def window_hold_def sample_env sample_create drop_used_def)

lemma detected_rows: "deployments detected_store = [detected_row]" "d_id detected_row = ''01A''" "d_state detected_row = Detected"
  "dep_key detected_row = JobKey ''default'' ''api''" "window_lifts detected_store = []" "d_namespace detected_row = ''default''"
  "d_policy detected_row = PolAuto" "d_job_id detected_row = ''api''"
  by (simp_all add: detected_store_def detected_row_def new_row_def detected_new_def sample_call_def born_state_def dep_key_def empty_store_def)

lemma sample_Detect: "\<exists>E. Detect sample_libs sample_opts sample_detect [sample_snapshot] new_engine = (None, E) \<and>
   en_store E = detected_store \<and> en_trace E = [] \<and> en_in_flight E = []"
proof -
  let ?rs = "[(FileParsed sample_file, Some (parseCacheKey sample_libs ''job'' (commitVars [] ''c0''), sample_job))]"
  let ?E1 = "new_engine\<lparr>en_parse_cache := next_cache ?rs, en_all := None\<rparr>"
  let ?seen = "{JobKey ''default'' ''api''}"
  obtain ob where ob: "reconcileJob sample_libs sample_detect sample_file (hooks_in ''default'' []) None None None ?E1 =
   (Inr (Some ob), ?E1\<lparr>en_store := detected_store\<rparr>)"
    using sample_reconcile [of ?E1] by (auto simp: new_engine_def)
  have w: "windowStatus sample_opts now sample_cfg = None" for now by (simp add: windowStatus_def sample_cfg)
  have m: "managedNS sample_opts ''default''" by (simp add: managedNS_def sample_opts_def)
  have act: "ListActive detected_store = [detected_row]" by (simp add: ListActive_def detected_rows IsActive_def)
  have compl: "LatestCompletedPerJob ns detected_store = []" for ns by (simp add: LatestCompletedPerJob_def detected_rows)
  have after: "\<exists>os st'. after_jobs sample_libs sample_opts sample_detect [sample_file] ?seen [] st E = (None, st', E\<lparr>en_orphans := os\<rparr>)"
    if "su_unparsed st = 0" "en_store E = detected_store" for st E
    using that by (simp add: after_jobs_def Let_def supersedeRemoved_def sample_env act m detected_rows gcHookRevisionsIn_def
      findOrphans_def sample_opts_def orphans_in_def compl set_orphans_def) blast
  have st: "en_store ?E1 = empty_store" "en_parse_cache new_engine = Map.empty" "en_store new_engine = empty_store"
    by (simp_all add: new_engine_def)
  have rs: "parsed_of ?rs = [sample_file]" "unparsed_of ?rs = 0"
    by (simp_all add: parsed_of_def unparsed_of_def)
  have quiet: "allPause False empty_store = Inr None" "ActivePauses empty_store = []" "WindowLifts empty_store = []"
    by (simp_all add: allPause_def db_def AllPause_def ActivePauses_def WindowLifts_def empty_store_def)
  have jobs: "reconcile_jobs sample_libs sample_opts sample_detect [] Map.empty None Map.empty [sample_file] (Map.empty, 0) ?E1 =
     (Inr ([JobKey ''default'' ''api'' \<mapsto> ob], if ob_nomad_error ob \<noteq> [] then Suc 0 else 0), ?E1\<lparr>en_store := detected_store\<rparr>)"
    by (simp add: Let_def sample_file_fields sample_key w ob)
  let ?st = "\<lparr>su_error = False, su_managed = Suc 0, su_skipped = if ob_nomad_error ob \<noteq> [] then Suc 0 else 0, su_unparsed = 0,
                su_orphans = 0, su_orphan_check_skipped = False, su_refused = refused_of ?rs\<rparr>"
  obtain os st' where fin: "after_jobs sample_libs sample_opts sample_detect [sample_file] ?seen [] ?st
      (?E1\<lparr>en_store := detected_store, en_observations := [JobKey ''default'' ''api'' \<mapsto> ob]\<rparr>) =
      (None, st', ?E1\<lparr>en_store := detected_store, en_observations := [JobKey ''default'' ''api'' \<mapsto> ob], en_orphans := os\<rparr>)"
    using after [of ?st "?E1\<lparr>en_store := detected_store, en_observations := [JobKey ''default'' ''api'' \<mapsto> ob]\<rparr>"] by auto
  have "detect sample_libs sample_opts sample_detect [sample_snapshot] new_engine =
      (None, st', ?E1\<lparr>en_store := detected_store, en_observations := [JobKey ''default'' ''api'' \<mapsto> ob], en_orphans := os\<rparr>)"
    unfolding detect_def st(2) sample_outcomes Let_def rs sample_classify
    by (simp add: sample_env st quiet holds_def jobs fin sample_file_fields sample_key del: reconcile_jobs.simps)
  then show ?thesis by (simp add: Detect_def new_engine_def)
qed

lemma sample_managed: "managedNS sample_opts ''default''"
  by (simp add: managedNS_def sample_opts_def)

lemma detected_pauses: "job_pauses detected_store = []" "nops_pauses detected_store = []"
  by (simp_all add: detected_store_def empty_store_def)

section \<open>The start\<close>

definition sample_apply :: apply_env where
  "sample_apply = \<lparr>ae_now = 5, ae_call = sample_call, ae_bad = (\<lambda>_. False), ae_live = Inl (JobNotFound []),
     ae_plan = (\<lambda>_. Inr (Some sample_diff)), ae_register = (\<lambda>_. Inr \<lparr>rr_eval_id = ''e'', rr_warnings = []\<rparr>),
     ae_reread = Inl (NomadFailure []), ae_deployment = Inr None, ae_allocs = Inr [], ae_unfinished = Inr False,
     ae_revision = (\<lambda>_. Inl (JobNotFound [])), ae_run = (\<lambda>_. undefined), ae_promote = Inr ()\<rparr>"

definition sample_spec :: job where
  "sample_spec = sample_job\<lparr>j_namespace := Some ''default''\<rparr>"

definition started_row :: deployment where
  "started_row = transition_row sample_call Applying (engine_move Detected Applying []) detected_row"

definition started_store :: store where
  "started_store = insertEvent sample_call ''01A'' (Some Detected) Applying ''nops'' []
     (detected_store\<lparr>deployments := [started_row]\<rparr>)"

lemma started_rows: "deployments started_store = [started_row]" "d_id started_row = ''01A''" "d_state started_row = Applying"
  "d_policy started_row = PolAuto" "d_namespace started_row = ''default''" "d_cas_index started_row = 0"
  "AppliedIndex started_row = 0" "d_job_source started_row = ''job''"
  by (simp_all add: started_store_def started_row_def transition_row_def detected_rows AppliedIndex_def)
    (simp_all add: detected_row_def new_row_def detected_new_def engine_move_def)

lemma started_transition:
  "Transition sample_call ''01A'' Applying (engine_move Detected Applying []) detected_store = Inr started_store"
  by (simp add: Transition_def engine_move_def canTransition_def allowed_def detected_rows in_state_def
      started_store_def started_row_def)

lemma sample_parsed: "d_namespace d = ''default'' \<Longrightarrow> parseJobSpec sample_libs d = Inr sample_spec"
  by (simp add: parseJobSpec_def sample_lib sample_spec_def)

lemma sample_spec_meta: "meta_of sample_libs (j_meta sample_spec) = sample_cfg"
  by (simp add: sample_spec_def sample_cfg_def)

lemma sample_started:
  "en_store E = detected_store \<Longrightarrow>
     applyStep sample_libs sample_opts sample_apply detected_row E = E\<lparr>en_store := started_store\<rparr>"
proof -
  assume E: "en_store E = detected_store"
  have p: "pauseOf (False, False) ''default'' ''api'' detected_store = Inr None"
    by (simp add: pauseOf_None) (simp add: detected_store_def empty_store_def)
  have nxt: "nextAfterDecision sample_libs detected_row sample_spec = Applying"
    by (simp add: nextAfterDecision_def sample_spec_meta sample_cfg)
  have bad: "ae_bad sample_apply = (\<lambda>_. False)" "ae_call sample_apply = sample_call"
    by (simp_all add: sample_apply_def)
  show ?thesis
    by (simp add: applyStep_def stepDetected_def detected_rows sample_parsed bad E p sample_spec_meta
        windowStatus_def sample_cfg holdFrom_def window_hold_def holdOn_def nxt applyTransition_def
        engine_transition_def db_def started_transition announce_def)
qed

text \<open>The deployment is being applied, and the loop has read it.\<close>

lemma sample_reached:
  "\<exists>E. reach engine_start (engine_step sample_libs sample_opts) (E, [started_row]) \<and> en_store E = started_store \<and>
     en_trace E = []"
proof -
  let ?step = "engine_step sample_libs sample_opts"
  have m: "managedNS sample_opts ''default''" by (simp add: managedNS_def sample_opts_def)
  obtain E1 where E1: "Detect sample_libs sample_opts sample_detect [sample_snapshot] new_engine = (None, E1)"
    "en_store E1 = detected_store" "en_trace E1 = []" "en_in_flight E1 = []"
    using sample_Detect by blast
  have "reach engine_start ?step (new_engine, [])" by (simp add: reach_init engine_start_def)
  then have r1: "reach engine_start ?step (E1, [])" by (rule reach_step) (rule es_detect [OF E1(1)])
  let ?E2 = "E1\<lparr>en_in_flight := [''01A'']\<rparr>"
  have "applyCycle sample_opts False E1 = ([detected_row], ?E2)"
    by (simp add: applyCycle_def E1 ListActive_def detected_rows IsActive_def m startApply_def)
  then have "?step (E1, []) (?E2, [detected_row] @ [])" by (rule es_cycle)
  then have r2: "reach engine_start ?step (?E2, [detected_row])" using r1 by (auto intro: reach_step)
  let ?E3 = "finishApply ''01A'' (?E2\<lparr>en_store := started_store\<rparr>)"
  have a: "applyStep sample_libs sample_opts sample_apply detected_row ?E2 = ?E2\<lparr>en_store := started_store\<rparr>"
    by (rule sample_started) (simp add: E1)
  have "?step (?E2, [detected_row]) (finishApply (d_id detected_row) (applyStep sample_libs sample_opts sample_apply detected_row ?E2),
      remove1 detected_row [detected_row])"
    by (rule es_apply) simp
  then have "?step (?E2, [detected_row]) (?E3, [])" by (simp only: a detected_rows remove1.simps if_True simp_thms)
  with r2 have r3: "reach engine_start ?step (?E3, [])" by (rule reach_step)
  have "applyCycle sample_opts False ?E3 = ([started_row], ?E3\<lparr>en_in_flight := [''01A'']\<rparr>)"
    by (simp add: applyCycle_def ListActive_def started_rows IsActive_def m startApply_def finishApply_def)
  then have "?step (?E3, []) (?E3\<lparr>en_in_flight := [''01A'']\<rparr>, [started_row] @ [])" by (rule es_cycle)
  with r3 have "reach engine_start ?step (?E3\<lparr>en_in_flight := [''01A'']\<rparr>, [started_row])" by (auto intro: reach_step)
  moreover have "en_store (?E3\<lparr>en_in_flight := [''01A'']\<rparr>) = started_store"
    "en_trace (?E3\<lparr>en_in_flight := [''01A'']\<rparr>) = []"
    by (simp_all add: E1 finishApply_def)
  ultimately show ?thesis by blast
qed

end
