(* ===== verification/EngineProperties.thy ===== *)
theory EngineProperties
  imports EngineSample
begin

text \<open>
  The properties of the engine: what it writes refines the guarded store, nothing is applied or
  registered that nobody let through, what starts a deployment and what stops one from starting,
  and the bounds on its waits.
\<close>

section \<open>The engine and its store\<close>

text \<open>
  Claim C3. The engine refines the guarded store: from any state it reaches, a step of it (a
  detection cycle, a step of the apply loop on a deployment read at any earlier time, an action of
  a person, a restart), whatever Nomad, git and SQLite do, writes by a sequence of the store's
  operations under the guard of invariant 3, so its database is one the store system reaches.
\<close>

theorem engine_refines_store:
  assumes "reach engine_start (engine_step L cf) x" "engine_step L cf x y"
  shows "writes (en_store (fst x)) (en_store (fst y)) \<and> reach store_start guarded_step (en_store (fst y)) \<and>
    stored (en_store (fst y))"
proof -
  have w: "writes (en_store (fst x)) (en_store (fst y))"
    by (rule engines.sim_step [OF engines.reach_inv [OF assms(1)] assms(2)])
  have r: "reach store_start guarded_step (en_store (fst y))"
    by (rule engines.sim_reach [OF reach_step [OF assms]])
  then have "stored (en_store (fst y))"
    by (induction rule: reach.induct) (auto intro: reach_init reach_step guarded_store)
  with w r show ?thesis by simp
qed

theorem engine_refines_store_witness:
  "\<exists>E. writes (en_store E) (en_store (restarted E)) \<and> stored started_store"
proof -
  obtain E where E: "reach engine_start (engine_step sample_libs sample_opts) (E, [started_row])" "en_store E = started_store"
    using sample_reached by blast
  from engine_refines_store [OF E(1) es_restart] have "writes (en_store E) (en_store (restarted E)) \<and> stored started_store"
    by (simp add: restarted_def E(2))
  then show ?thesis by blast
qed

text \<open>
  Claim C2. Nothing is applied that nobody let through: in every state the engine reaches, a
  deployment in pre_hook, applying or post_hook, in the database or in the hands of the apply loop,
  is under \<open>auto\<close> or bears the name of who approved it, and a rejected one that of who rejected it.
\<close>

theorem applied_only_when_decided:
  assumes "reach engine_start (engine_step L cf) (E, ds)" "d \<in> set (deployments (en_store E)) \<union> set ds"
  shows "\<not> (d_state d \<in> {PreHook, Applying, PostHook} \<and> d_policy d \<noteq> PolAuto \<and> d_decided_by d = [])
    \<and> \<not> (d_state d = Rejected \<and> d_decided_by d = [])"
proof -
  from engines.reach_inv [OF assms(1)] assms(2) have "decided d"
    by (auto simp: sys_inv_def all_decided_def list_all_iff)
  then show ?thesis by (auto simp: decided_def in_progress_def)
qed

theorem applied_only_when_decided_witness:
  "started_row \<in> set (deployments started_store) \<and> d_state started_row = Applying \<and>
     \<not> (d_policy started_row \<noteq> PolAuto \<and> d_decided_by started_row = [])"
proof -
  obtain E where E: "reach engine_start (engine_step sample_libs sample_opts) (E, [started_row])" "en_store E = started_store"
    using sample_reached by blast
  from applied_only_when_decided [OF E(1), of started_row] show ?thesis
    by (simp add: started_rows)
qed

lemma start_steps_regs: "start_steps cf ds E = (started, E') \<Longrightarrow> regs E' = regs E"
  by (induction ds arbitrary: E started E') (auto simp: startApply_def split: if_splits prod.splits bool.splits)

lemma applyCycle_regs: "applyCycle cf bad E = (started, E') \<Longrightarrow> regs E' = regs E"
  by (auto simp: applyCycle_def split: if_splits dest: start_steps_regs)

text \<open>Every other step registers nothing.\<close>

lemma other_steps_register_nothing:
  assumes "engine_step L cf (E, ds) (E', ds')"
  shows "regs E' = regs E \<or> (\<exists>d env. d \<in> set ds \<and> E' = finishApply (d_id d) (applyStep L cf env d E))"
  by (rule engine_stepE [OF assms])
    (auto dest: applyCycle_regs decisions_regs Detect_regs Retry_regs DeployNow_regs)

text \<open>
  Claim C1. Nothing reaches Nomad that nobody let through, and nothing but what was let through. Only a step of the
  apply loop registers; every job such a step registers, first or again, whatever it is answered, it
  registers for a deployment under \<open>auto\<close> or that was approved. The job is the spec stored with it (with the
  counts of the groups that scale taken from the live job), sent with check-and-set at the saved index,
  when the live job this step read is at that index and the plan this step asked for shows something to
  apply; or it is the revision of a hook frozen with the deployment for the phase it is in, at the index
  it was just read at, when the plan of that very revision shows something to apply.
\<close>

theorem registered_only_when_decided:
  assumes "reach engine_start (engine_step L cf) (E, ds)"
  shows "(\<forall>d\<in>set ds. \<forall>env. \<exists>rs.
      filter is_register (en_trace (applyStep L cf env d E)) = filter is_register (en_trace E) @ rs \<and>
      (\<forall>a\<in>set rs. may_register L env (en_store E) d a \<and> known (en_store E) d \<and>
        \<not> (d_policy d \<noteq> PolAuto \<and> d_decided_by d = []))) \<and>
    (\<forall>E' ds'. engine_step L cf (E, ds) (E', ds') \<and>
      filter is_register (en_trace E') \<noteq> filter is_register (en_trace E) \<longrightarrow>
      (\<exists>d\<in>set ds. \<exists>env. E' = finishApply (d_id d) (applyStep L cf env d E)))"
proof (intro conjI ballI allI impI)
  fix d env
  assume d: "d \<in> set ds"
  with engines.reach_inv [OF assms] have k: "known (en_store E) d" "decided d"
    by (simp_all add: sys_inv_def list_all_iff)
  have "\<not> (d_policy d \<noteq> PolAuto \<and> d_decided_by d = [])" if "may_register L env (en_store E) d a" for a
    using that k(2) by (auto simp: may_register_def decided_def in_progress_def)
  with applyStep_adds [of L env E d cf] k(1) show "\<exists>rs.
      filter is_register (en_trace (applyStep L cf env d E)) = filter is_register (en_trace E) @ rs \<and>
      (\<forall>a\<in>set rs. may_register L env (en_store E) d a \<and> known (en_store E) d \<and>
        \<not> (d_policy d \<noteq> PolAuto \<and> d_decided_by d = []))"
    by (auto simp: adds_def regs_def)
next
  fix E' ds'
  assume "engine_step L cf (E, ds) (E', ds') \<and> filter is_register (en_trace E') \<noteq> filter is_register (en_trace E)"
  with other_steps_register_nothing [of L cf E ds E' ds'] show "\<exists>d\<in>set ds. \<exists>env. E' = finishApply (d_id d) (applyStep L cf env d E)"
    by (auto simp: regs_def)
qed

lemma sample_registers:
  assumes "en_store E = started_store" "en_trace E = []"
  shows "Register sample_spec 0 False (submissionOf started_row)
    \<in> set (en_trace (finishApply ''01A'' (applyStep sample_libs sample_opts sample_apply started_row E)))"
  by (simp add: applyStep_def stepApplying_def started_rows stepRegister_def sample_parsed sample_apply_def
      is_not_found_def register_at_index_def sample_hashes record_applied_def Let_def finishApply_def)

theorem registered_only_when_decided_witness:
  "known started_store started_row \<and> \<not> (d_policy started_row \<noteq> PolAuto \<and> d_decided_by started_row = []) \<and>
     registers_spec sample_libs sample_apply started_row (Register sample_spec 0 False (submissionOf started_row))"
proof -
  obtain E where E: "reach engine_start (engine_step sample_libs sample_opts) (E, [started_row])" "en_store E = started_store"
    "en_trace E = []"
    using sample_reached by blast
  have "Register sample_spec 0 False (submissionOf started_row)
      \<in> set (filter is_register (en_trace (applyStep sample_libs sample_opts sample_apply started_row E)))"
    using sample_registers [OF E(2,3)] by (simp add: finishApply_def)
  with registered_only_when_decided [OF E(1), THEN conjunct1, rule_format, of started_row sample_apply] show ?thesis
    by (auto simp: E may_register_def started_rows DeploymentHooks_def)
qed


section \<open>Starting a deployment\<close>

lemma applyTransition_store:
  "en_store (applyTransition L env d to_st msg E) \<noteq> en_store E \<Longrightarrow>
     Transition (ae_call env) (d_id d) to_st (engine_move (d_state d) to_st msg) (en_store E) =
       Inr (en_store (applyTransition L env d to_st msg E))"
  by (auto simp: applyTransition_def engine_transition_def db_def split: sum.splits prod.splits option.splits if_splits)

lemma window_hold_None: "window_hold L ws = None \<longleftrightarrow> (case ws of None \<Rightarrow> True | Some w \<Rightarrow> ws_open w)"
  by (simp add: window_hold_def split: option.splits)

lemma window_hold_kind: "window_hold L ws = Some h \<Longrightarrow> ho_kind h = HoldWindow"
  by (auto simp: window_hold_def split: option.splits if_splits)

text \<open>Nothing holds a deployment exactly if nobody paused its job and its window is open or lifted.\<close>

lemma holdOn_None:
  "holdOn (holdFrom L p ws) d = None \<longleftrightarrow>
     (case p of Some h \<Rightarrow> ho_kind h = HoldWindow \<and> d_window_lifted_by d \<noteq> []
      | None \<Rightarrow> (case ws of None \<Rightarrow> True | Some w \<Rightarrow> ws_open w) \<or> d_window_lifted_by d \<noteq> [])"
  by (cases p; cases ws) (auto simp: holdOn_def holdFrom_def window_hold_def)

lemma pauseOf_kind: "pauseOf bad ns job s = Inr (Some h) \<Longrightarrow> ho_kind h = HoldPaused"
  by (auto simp: pauseOf_def allPause_def pauseHold_def allHold_def Let_def db_def
      split: sum.splits store_error.splits if_splits)

lemma start_needs:
  assumes "en_store (stepDetected L cf env d E) \<noteq> en_store E"
  shows "d_policy d = PolAuto
    \<and> \<not> list_ex (pause_of_job (d_namespace d) (d_job_id d)) (job_pauses (en_store E))
    \<and> \<not> list_ex in_force (nops_pauses (en_store E))
    \<and> (\<exists>j. parseJobSpec L d = Inr j
        \<and> (case windowStatus cf (ae_now env) (meta_of L (j_meta j)) of
             None \<Rightarrow> True | Some w \<Rightarrow> ws_open w \<or> d_window_lifted_by d \<noteq> [])
        \<and> Transition (ae_call env) (d_id d)
             (if pre_hooks (meta_of L (j_meta j)) \<noteq> [] \<and> \<not> (d_retry_of d \<noteq> [] \<and> d_plan_diff d = []) then PreHook else Applying)
             (engine_move (d_state d) (nextAfterDecision L d j) []) (en_store E) = Inr (en_store (stepDetected L cf env d E)))"
proof -
  from assms obtain j p where j: "d_policy d = PolAuto" "parseJobSpec L d = Inr j"
    "pauseOf (ae_bad env 2, ae_bad env 3) (d_namespace d) (d_job_id d) (en_store E) = Inr p"
    "holdOn (holdFrom L p (windowStatus cf (ae_now env) (meta_of L (j_meta j)))) d = None"
    and s: "stepDetected L cf env d E = applyTransition L env d (nextAfterDecision L d j) [] E"
    by (auto simp: stepDetected_def split: if_splits sum.splits option.splits)
  have p: "p = None"
    using j(3,4) pauseOf_kind by (auto simp: holdOn_None split: option.splits)
  have "Transition (ae_call env) (d_id d) (nextAfterDecision L d j) (engine_move (d_state d) (nextAfterDecision L d j) [])
      (en_store E) = Inr (en_store (stepDetected L cf env d E))"
    using applyTransition_store assms by (simp add: s)
  moreover have "nextAfterDecision L d j =
      (if pre_hooks (meta_of L (j_meta j)) \<noteq> [] \<and> \<not> (d_retry_of d \<noteq> [] \<and> d_plan_diff d = []) then PreHook else Applying)"
    by (auto simp: nextAfterDecision_def Rerun_def)
  ultimately show ?thesis
    using j p by (auto simp: pauseOf_None holdOn_None split: option.splits)
qed

text \<open>
  Claim C10. The apply loop starts a deployment by itself only under \<open>auto\<close>, with no pause in force on
  its job or on all jobs, and inside the sync window its own spec declares unless a person lifted
  it for this deployment; it then moves along one edge, to pre_hook exactly when the spec has pre
  hooks and there is something to register.
\<close>

theorem start_conditions:
  assumes "en_store (stepDetected L cf env d E) \<noteq> en_store E"
  shows "d_policy d = PolAuto
    \<and> \<not> list_ex (pause_of_job (d_namespace d) (d_job_id d)) (job_pauses (en_store E))
    \<and> \<not> list_ex in_force (nops_pauses (en_store E))
    \<and> (\<exists>j. parseJobSpec L d = Inr j
        \<and> (case windowStatus cf (ae_now env) (meta_of L (j_meta j)) of
             None \<Rightarrow> True | Some w \<Rightarrow> ws_open w \<or> d_window_lifted_by d \<noteq> [])
        \<and> Transition (ae_call env) (d_id d)
             (if pre_hooks (meta_of L (j_meta j)) \<noteq> [] \<and> \<not> (d_retry_of d \<noteq> [] \<and> d_plan_diff d = []) then PreHook else Applying)
             (engine_move (d_state d) (nextAfterDecision L d j) []) (en_store E) = Inr (en_store (stepDetected L cf env d E)))"
  using assms by (rule start_needs)

theorem start_conditions_witness:
  "\<not> list_ex in_force (nops_pauses detected_store) \<and>
     (\<exists>j. Transition sample_call ''01A'' Applying (engine_move Detected (nextAfterDecision sample_libs detected_row j) []) detected_store
       = Inr started_store)"
proof -
  let ?E = "new_engine\<lparr>en_store := detected_store\<rparr>"
  have s: "stepDetected sample_libs sample_opts sample_apply detected_row ?E = ?E\<lparr>en_store := started_store\<rparr>"
    using sample_started [of ?E] by (simp add: applyStep_def detected_rows)
  have "deployments started_store \<noteq> deployments detected_store"
    using started_rows(1,3) detected_rows(1,3) by auto
  then have "started_store \<noteq> detected_store" by auto
  with start_conditions [of sample_libs sample_opts sample_apply detected_row ?E] s show ?thesis
    by (auto simp: sample_parsed detected_rows sample_spec_meta sample_cfg sample_apply_def)
qed

lemma Approve_outcome:
  "case Approve L c bad i hash actor E of
     (Inl _, E') \<Rightarrow> E' = E
   | (Inr _, E') \<Rightarrow> actor \<noteq> [] \<and> (\<exists>d j ob. GetDeployment i (en_store E) = Inr d \<and> d_state d = PendingApproval \<and>
       d_spec_hash d = hash \<and> en_observations E (dep_key d) = Some ob \<and> ob_nomad_error ob = [] \<and>
       \<not> list_ex (pause_of_job (d_namespace d) (d_job_id d)) (job_pauses (en_store E)) \<and>
       \<not> list_ex in_force (nops_pauses (en_store E)) \<and> parseJobSpec L d = Inr j \<and>
       (\<exists>s. Transition c i (nextAfterDecision L d j)
          \<lparr>t_from = Some PendingApproval, t_actor = actor, t_message = ''approved'', t_error = [],
            t_applied_index = 0, t_eval_id = [], t_decided_by = actor\<rparr> (en_store E) = Inr s \<and> E' = E\<lparr>en_store := s\<rparr>))"
  by (auto simp: Approve_def db_Inr pauseOf_None split: if_splits sum.splits option.splits prod.splits)

text \<open>
  Claim C8. An approval takes effect whole or not at all. \<open>Approve\<close> succeeds only for a named person,
  for a deployment still waiting, with the very spec hash it has, of a job the last cycle saw in the
  repository and could plan, and with no pause in force; it then writes one transition that records
  the name. Refused or failed, it leaves the engine and the database as they were.
\<close>

theorem approval_all_or_nothing:
  "case Approve L c bad i hash actor E of
     (Inl _, E') \<Rightarrow> E' = E
   | (Inr _, E') \<Rightarrow> actor \<noteq> [] \<and> (\<exists>d j ob. GetDeployment i (en_store E) = Inr d \<and> d_state d = PendingApproval \<and>
       d_spec_hash d = hash \<and> en_observations E (dep_key d) = Some ob \<and> ob_nomad_error ob = [] \<and>
       \<not> list_ex (pause_of_job (d_namespace d) (d_job_id d)) (job_pauses (en_store E)) \<and>
       \<not> list_ex in_force (nops_pauses (en_store E)) \<and> parseJobSpec L d = Inr j \<and>
       (\<exists>s. Transition c i (nextAfterDecision L d j)
          \<lparr>t_from = Some PendingApproval, t_actor = actor, t_message = ''approved'', t_error = [],
            t_applied_index = 0, t_eval_id = [], t_decided_by = actor\<rparr> (en_store E) = Inr s \<and> E' = E\<lparr>en_store := s\<rparr>))"
  by (rule Approve_outcome)

lemma pauseOf_paused:
  "list_ex (pause_of_job ns job) (job_pauses s) \<Longrightarrow> pauseOf bad ns job s \<noteq> Inr None"
  by (simp add: pauseOf_None)

text \<open>
  Claim C12. A pause stops every start: once a person paused a job and until it is resumed, the apply
  loop leaves a deployment of that job in detected, and nobody can approve one.
\<close>

theorem paused_job_does_not_start:
  assumes "Pause cf c bad ns job actor note E = (Inr (), E1)" "d_namespace d = ns" "d_job_id d = job"
  shows "en_store (stepDetected L cf' env d E1) = en_store E1
    \<and> (GetDeployment i (en_store E1) = Inr d \<longrightarrow> (\<exists>e. Approve L c' bad' i hash person E1 = (Inl e, E1)))
    \<and> (\<forall>E2. job_pauses (en_store E2) = job_pauses (en_store E1) \<longrightarrow>
         en_store (stepDetected L cf' env d E2) = en_store E2)"
proof -
  have p: "list_ex (pause_of_job ns job) (job_pauses (en_store E1))"
    using assms(1)
    by (auto simp: Pause_def PauseJob_def db_Inr new_pause_def pause_of_job_def in_force_def Let_def
        split: if_splits sum.splits)
  have *: "en_store (stepDetected L cf' env d E2) = en_store E2" if "job_pauses (en_store E2) = job_pauses (en_store E1)" for E2
    using start_needs [of L cf' env d E2] p assms(2,3) that by fastforce
  have "\<exists>e. Approve L c' bad' i hash person E1 = (Inl e, E1)" if "GetDeployment i (en_store E1) = Inr d"
  proof -
    obtain r E' where a: "Approve L c' bad' i hash person E1 = (r, E')" by (rule prod.exhaust)
    show ?thesis
      using Approve_outcome [where L = L and c = c' and bad = bad' and i = i and hash = hash and actor = person and E = E1] a p that assms(2,3)
      by (cases r) auto
  qed
  with * show ?thesis by simp
qed

text \<open>Two pauses of the sample job: of nobody else, and seen by its deployment.\<close>

lemma sample_paused:
  "\<exists>E1. Pause sample_opts sample_call (False, False) ''default'' ''api'' ''ann'' []
     (new_engine\<lparr>en_store := detected_store, en_observations := (\<lambda>_. Some (base_observation sample_detect sample_file Map.empty [] None None))\<rparr>)
     = (Inr (), E1) \<and> GetDeployment ''01A'' (en_store E1) = Inr detected_row"
proof -
  have t: "trim_space [] = []" by code_simp
  show ?thesis
    by (simp add: Pause_def sample_managed maxPauseNote_def PauseJob_def db_def t Let_def
        detected_pauses detected_rows GetDeployment_def has_id_def split: sum.split)
qed

theorem paused_job_does_not_start_witness:
  "\<exists>E1. en_store (stepDetected sample_libs sample_opts sample_apply detected_row E1) = en_store E1 \<and>
     (\<exists>e. Approve sample_libs sample_call (\<lambda>_. False) ''01A'' ''{}'' ''bob'' E1 = (Inl e, E1))"
proof -
  obtain E1 where E1: "Pause sample_opts sample_call (False, False) ''default'' ''api'' ''ann'' []
     (new_engine\<lparr>en_store := detected_store, en_observations := (\<lambda>_. Some (base_observation sample_detect sample_file Map.empty [] None None))\<rparr>)
     = (Inr (), E1)" "GetDeployment ''01A'' (en_store E1) = Inr detected_row"
    using sample_paused by blast
  note stops = paused_job_does_not_start [OF E1(1) detected_rows(6,8)]
  from stops [where i = "''01A''" and L = sample_libs] E1(2) show ?thesis by blast
qed


section \<open>The end of the wait\<close>

lemma applyTransition_moves:
  assumes "\<not> ae_bad env 0" "list_ex (in_state (d_id d) (d_state d)) (deployments (en_store E))"
    and "canTransition (d_state d) to_st" "to_st \<noteq> d_state d"
  shows "list_ex (in_state (d_id d) to_st) (deployments (en_store (applyTransition L env d to_st msg E)))
    \<and> \<not> list_ex (in_state (d_id d) (d_state d)) (deployments (en_store (applyTransition L env d to_st msg E)))"
proof -
  obtain r where r: "r \<in> set (deployments (en_store E))" "in_state (d_id d) (d_state d) r"
    using assms(2) by (auto simp: list_ex_iff)
  let ?P = "in_state (d_id d) (d_state d)"
  let ?f = "transition_row (ae_call env) to_st (engine_move (d_state d) to_st msg)"
  let ?rows = "update_where ?P ?f (deployments (en_store E))"
  have "Transition (ae_call env) (d_id d) to_st (engine_move (d_state d) to_st msg) (en_store E) =
      Inr (insertEvent (ae_call env) (d_id d) (Some (d_state d)) to_st ''nops''
        (if msg = [] then t_error (engine_move (d_state d) to_st msg) else msg) ((en_store E)\<lparr>deployments := ?rows\<rparr>))"
    using assms(2,3) by (simp add: Transition_def engine_move_def)
  then have rows: "deployments (en_store (applyTransition L env d to_st msg E)) = ?rows"
    using assms(1) by (simp add: applyTransition_def engine_transition_def db_def)
  have "?f r \<in> set ?rows" "in_state (d_id d) to_st (?f r)"
    using r by (auto simp: set_update_where transition_row_def in_state_def)
  moreover have "\<not> ?P x" if "x \<in> set ?rows" for x
    using that assms(4) by (auto simp: set_update_where transition_row_def in_state_def)
  ultimately show ?thesis unfolding rows list_ex_iff by blast
qed

text \<open>
  What stops a register before it went through: Nomad fails to answer about the live job or the plan, it
  refuses the register (a conflict of the check-and-set included), or the live job was changed to
  something the spec no longer is a diff of.
\<close>

definition attempt_stopped :: "libs \<Rightarrow> apply_env \<Rightarrow> deployment \<Rightarrow> nat \<Rightarrow> job \<Rightarrow> bool" where
  "attempt_stopped L env d idx j = (case ae_plan env j of
       Inl _ \<Rightarrow> True
     | Inr p \<Rightarrow> plan_drift p \<and>
         (if idx = d_cas_index d then \<not> is_ok (ae_register env j)
          else \<exists>h. diffHashOf L (the p) = Inr h \<and> \<not> sameDiff (d_diff_hash d) h))"

definition register_stopped :: "libs \<Rightarrow> apply_env \<Rightarrow> deployment \<Rightarrow> bool" where
  "register_stopped L env d = (\<exists>j0. parseJobSpec L d = Inr j0 \<and>
     (case ae_live env of
        Inl e \<Rightarrow> is_not_found e \<longrightarrow> attempt_stopped L env d 0 j0
      | Inr live \<Rightarrow> \<exists>j1. substituteScalingCounts L j0 live = Inr j1 \<and>
          attempt_stopped L env d (derefUint64 (j_modify_index live)) (nextVersion j1 live)))"

text \<open>A step that ends in the transition to failed, whatever it did before.\<close>

definition ends_failed :: "libs \<Rightarrow> apply_env \<Rightarrow> deployment \<Rightarrow> engine \<Rightarrow> engine \<Rightarrow> bool" where
  "ends_failed L env d E E' = (\<exists>msg E1. en_store E1 = en_store E \<and> E' = applyTransition L env d Failed msg E1)"

lemma ends_failedI: "en_store E1 = en_store E \<Longrightarrow> ends_failed L env d E (applyTransition L env d Failed msg E1)"
  by (auto simp: ends_failed_def)

lemma registerRetry_ends:
  assumes "AppliedSince (d_id d) (en_store E1) = Inr since" "\<not> ae_bad env 6" "since + op_apply_timeout cf < ae_now env"
    "en_store E1 = en_store E"
  shows "ends_failed L env d E (registerRetry L cf env d e E1)"
  using assms by (simp add: registerRetry_def db_def ends_failedI)

lemma attempt_ends:
  assumes "AppliedSince (d_id d) (en_store E) = Inr since" "\<not> ae_bad env 6" "since + op_apply_timeout cf < ae_now env"
    "attempt_stopped L env d idx j"
  shows "idx = d_cas_index d \<Longrightarrow> ends_failed L env d E (register_at_index L cf env d j E)"
    and "idx \<noteq> d_cas_index d \<Longrightarrow> ends_failed L env d E (register_moved L cf env d j idx E)"
  using assms
  by (auto simp: attempt_stopped_def register_at_index_def register_moved_def Let_def
      intro!: registerRetry_ends ends_failedI split: sum.splits nomad_error.splits if_splits)

lemma stopped_register_ends:
  assumes "AppliedSince (d_id d) (en_store E) = Inr since" "\<not> ae_bad env 6" "since + op_apply_timeout cf < ae_now env"
    "register_stopped L env d"
  shows "ends_failed L env d E (stepRegister L cf env d E)"
proof -
  obtain j0 where j0: "parseJobSpec L d = Inr j0" using assms(4) by (auto simp: register_stopped_def)
  show ?thesis
  proof (cases "ae_live env")
    case (Inl e)
    with assms j0 attempt_ends [OF assms(1-3), of L 0 j0] registerRetry_ends [OF assms(1-3) refl] show ?thesis
      by (auto simp: stepRegister_def register_stopped_def)
  next
    case (Inr live)
    with assms(4) j0 obtain j1 where j1: "substituteScalingCounts L j0 live = Inr j1"
      and a: "attempt_stopped L env d (derefUint64 (j_modify_index live)) (nextVersion j1 live)"
      by (auto simp: register_stopped_def)
    from Inr j0 j1 attempt_ends [OF assms(1-3) a] show ?thesis by (simp add: stepRegister_def Let_def)
  qed
qed

text \<open>
  Claim C7. An apply does not hang. Once the time to apply has run out, counted from the event that entered applying
  (or from the promotion of the canaries), the next step of the deployment fails it: if it has registered
  and no person is waited for, whatever Nomad answers; if it has not, whenever Nomad stops the register,
  by an error on the live job, the plan or the register, a conflict included, or by a live job that was
  changed. The database has to answer. What it does not fail: a register that goes through in that very
  step, a scale it follows to the new index, and a spec or a diff that does not decode.
\<close>

theorem apply_ends_at_timeout:
  assumes "d_state d = Applying" "list_ex (in_state (d_id d) Applying) (deployments (en_store E))"
    and "AppliedSince (d_id d) (en_store E) = Inr since" "\<not> ae_bad env 0" "\<not> ae_bad env 6"
    and "AppliedIndex d \<noteq> 0 \<and> (d_promotion_wait_since d = None \<or> d_promoted_at d \<noteq> None) \<and>
        (case d_promoted_at d of None \<Rightarrow> since | Some t \<Rightarrow> t) + op_apply_timeout cf < ae_now env \<or>
      AppliedIndex d = 0 \<and> register_stopped L env d \<and> since + op_apply_timeout cf < ae_now env"
  shows "list_ex (in_state (d_id d) Failed) (deployments (en_store (applyStep L cf env d E)))
    \<and> \<not> list_ex (in_state (d_id d) Applying) (deployments (en_store (applyStep L cf env d E)))"
proof -
  have "ends_failed L env d E (applyStep L cf env d E)"
    using assms(6)
  proof (elim disjE conjE)
    assume h: "AppliedIndex d \<noteq> 0" "d_promotion_wait_since d = None"
      "(case d_promoted_at d of None \<Rightarrow> since | Some t \<Rightarrow> t) + op_apply_timeout cf < ae_now env"
    then show ?thesis
      using assms(1,3,5)
      by (auto simp: applyStep_def stepApplying_def stepHealth_def awaits_person_def db_def Let_def intro!: ends_failedI)
  next
    assume h: "AppliedIndex d \<noteq> 0" "d_promoted_at d \<noteq> None"
      "(case d_promoted_at d of None \<Rightarrow> since | Some t \<Rightarrow> t) + op_apply_timeout cf < ae_now env"
    then show ?thesis
      using assms(1,3,5)
      by (auto simp: applyStep_def stepApplying_def stepHealth_def awaits_person_def db_def Let_def intro!: ends_failedI)
  next
    assume h: "AppliedIndex d = 0" "register_stopped L env d" "since + op_apply_timeout cf < ae_now env"
    from stopped_register_ends [OF assms(3,5) h(3,2)] show ?thesis
      using assms(1) h(1) by (simp add: applyStep_def stepApplying_def)
  qed
  then obtain msg E1 where s: "en_store E1 = en_store E" "applyStep L cf env d E = applyTransition L env d Failed msg E1"
    by (auto simp: ends_failed_def)
  have "canTransition Applying Failed" by (simp add: canTransition_def allowed_def)
  with applyTransition_moves [of env d E1 Failed L msg] assms(1,2,4) s show ?thesis by simp
qed

theorem apply_ends_at_timeout_witness:
  "list_ex (in_state ''01A'' Failed) (deployments (en_store
     (applyStep sample_libs sample_opts (sample_apply\<lparr>ae_now := 1000, ae_register := \<lambda>_. Inl (NomadFailure ''refused'')\<rparr>) started_row
       (new_engine\<lparr>en_store := started_store\<rparr>))))"
proof -
  let ?env = "sample_apply\<lparr>ae_now := 1000, ae_register := \<lambda>_. Inl (NomadFailure ''refused'')\<rparr>"
  let ?E = "new_engine\<lparr>en_store := started_store\<rparr>"
  have ev: "events started_store = events detected_store @ [\<lparr>e_id = Suc (event_seq detected_store), e_deployment_id = ''01A'',
      e_ts = 5, e_from = Some Detected, e_to = Applying, e_actor = ''nops'', e_accessor_id = c_accessor sample_call,
      e_identity = c_identity sample_call, e_message = []\<rparr>]"
    by (simp add: started_store_def insertEvent_events) (simp add: sample_call_def)
  have none: "filter (\<lambda>e. e_deployment_id e = ''01A'' \<and> e_to e = Applying \<and> e_from e \<noteq> Some Applying) (events detected_store) = []"
    by (simp add: detected_store_def log_birth_def Let_def detected_new_def born_state_def insertEvent_events
        empty_store_def sample_call_def)
  have "AppliedSince ''01A'' started_store = Inr 5"
    unfolding AppliedSince_def ev filter_append none by simp
  moreover have "register_stopped sample_libs ?env started_row"
    by (simp add: register_stopped_def sample_parsed attempt_stopped_def sample_hashes sample_apply_def is_not_found_def started_rows)
  ultimately show ?thesis
    using apply_ends_at_timeout [of started_row ?E 5 ?env sample_opts sample_libs]
    by (simp add: started_rows in_state_def sample_opts_def sample_apply_def)
qed

end
