(* ===== verification/DetectProperties.thy ===== *)
theory DetectProperties
  imports EngineSample
begin

text \<open>
  The properties of the detection cycle: which files count, what it leaves alone, when it creates
  nothing, and which hook revisions it stops.
\<close>

section \<open>Files\<close>

lemma single_filesD:
  assumes "p \<in> set (single_files ps)"
  shows "filter (\<lambda>q. keyOf (pf_job q) = keyOf (pf_job p)) ps = [p]"
proof -
  from assms obtain k where k: "p \<in> set (case filter (\<lambda>q. keyOf (pf_job q) = k) ps of [q] \<Rightarrow> [q] | _ \<Rightarrow> [])"
    by (auto simp: single_files_def)
  then have f: "filter (\<lambda>q. keyOf (pf_job q) = k) ps = [p]" by (auto split: list.splits)
  then have "p \<in> set (filter (\<lambda>q. keyOf (pf_job q) = k) ps)" by simp
  then have "keyOf (pf_job p) = k" by simp
  with f show ?thesis by simp
qed

lemma single_filesI:
  assumes "filter (\<lambda>q. keyOf (pf_job q) = keyOf (pf_job p)) ps = [p]"
  shows "p \<in> set (single_files ps)"
proof -
  have "p \<in> set (filter (\<lambda>q. keyOf (pf_job q) = keyOf (pf_job p)) ps)" by (simp add: assms)
  then have "p \<in> set ps" by simp
  then show ?thesis
    using assms [symmetric] by (auto simp: single_files_def intro!: bexI [of _ p])
qed

lemma concat_map_keys:
  assumes "\<And>k. map key (f k) \<in> {[], [k]}"
  shows "map key (concat (map f ks)) = filter (\<lambda>k. f k \<noteq> []) ks"
proof (induction ks)
  case (Cons k ks)
  with assms [of k] show ?case by auto
qed simp

lemma single_files_distinct: "distinct (map (\<lambda>p. keyOf (pf_job p)) (single_files ps))"
proof -
  let ?f = "\<lambda>k. case filter (\<lambda>p. keyOf (pf_job p) = k) ps of [p] \<Rightarrow> [p] | _ \<Rightarrow> []"
  have "map (\<lambda>p. keyOf (pf_job p)) (?f k) \<in> {[], [k]}" for k
  proof (cases "filter (\<lambda>p. keyOf (pf_job p) = k) ps")
    case (Cons p qs)
    then have "p \<in> set (filter (\<lambda>p. keyOf (pf_job p) = k) ps)" by simp
    then have "keyOf (pf_job p) = k" by simp
    with Cons show ?thesis by (cases qs) auto
  qed simp
  then have "map (\<lambda>p. keyOf (pf_job p)) (concat (map ?f ks)) = filter (\<lambda>k. ?f k \<noteq> []) ks" for ks
    by (rule concat_map_keys)
  then show ?thesis unfolding single_files_def by simp
qed

text \<open>
  A cycle acts on a job at most once, and never on an ambiguous one: the managed jobs of
  a cycle have different keys, none of them is a hook, and a file is among the hooks or the managed
  jobs exactly if it is the only file that declares its job and its meta says so.
\<close>

theorem classify_each_job_once:
  "distinct (map (\<lambda>p. keyOf (pf_job p)) (snd (classify ps)))
    \<and> p \<in> set (fst (classify ps)) = (filter (\<lambda>q. keyOf (pf_job q) = keyOf (pf_job p)) ps = [p] \<and> is_hook (pf_cfg p))
    \<and> p \<in> set (snd (classify ps)) = (filter (\<lambda>q. keyOf (pf_job q) = keyOf (pf_job p)) ps = [p] \<and>
        \<not> is_hook (pf_cfg p) \<and> managed (pf_cfg p))"
  using single_filesD [of p ps] single_filesI [of p ps] single_files_distinct [of ps]
  by (auto simp: classify_def Let_def distinct_map_filter)

section \<open>Deployments in progress\<close>

definition spares :: "store \<Rightarrow> store \<Rightarrow> bool" where
  "spares s t = (\<forall>d\<in>set (deployments s). in_progress (d_state d) \<longrightarrow> d \<in> set (deployments t))"

lemma spares_refl [simp]: "spares s s"
  by (simp add: spares_def)

lemma spares_trans: "spares t u \<Longrightarrow> spares s t \<Longrightarrow> spares s u"
  by (simp add: spares_def)

lemma spares_update:
  "deployments t = update_where P f (deployments s) \<Longrightarrow> (\<And>d. P d \<Longrightarrow> \<not> in_progress (d_state d)) \<Longrightarrow> spares s t"
  by (auto simp: spares_def set_update_where)

lemma spares_same: "deployments t = deployments s \<Longrightarrow> spares s t"
  by (simp add: spares_def)

lemma Transition_spares:
  assumes "Transition c i to_st t s = Inr s'" "t_from t = Some a" "\<not> in_progress a"
  shows "spares s s'"
  by (rule spares_update [of s' "in_state i a" "transition_row c to_st t"])
    (use assms in \<open>auto simp: Transition_def in_state_def split: if_splits\<close>)

lemma engine_transition_spares:
  assumes "engine_transition L c bad d to_st msg E = (e, E')" "\<not> in_progress (d_state d)"
  shows "spares (en_store E) (en_store E')"
  using assms Transition_spares [of c "d_id d" to_st "engine_move (d_state d) to_st msg" "en_store E" _ "d_state d"]
  by (auto simp: engine_transition_def engine_move_def db_Inr split: sum.splits)

lemma moveCASIndex_spares:
  assumes "moveCASIndex c bad d idx E = (e, E', d')" "\<not> in_progress (d_state d)"
  shows "spares (en_store E) (en_store E') \<and> d_state d' = d_state d"
proof (cases "en_store E' = en_store E")
  case True
  with assms(1) show ?thesis by (auto simp: moveCASIndex_def split: sum.splits)
next
  case False
  with assms(1) have "MoveCASIndex c (d_id d) (d_state d) (d_cas_index d) idx (en_store E) = Inr (en_store E')"
    and "d_state d' = d_state d"
    by (auto simp: moveCASIndex_def db_Inr split: sum.splits)
  then have "deployments (en_store E') = update_where
      (\<lambda>r. in_state (d_id d) (d_state d) r \<and> d_cas_index r = d_cas_index d \<and> d_applied_index r = None)
      (\<lambda>r. r\<lparr>d_cas_index := idx, d_updated_at := c_now c\<rparr>) (deployments (en_store E))"
    by (auto simp: MoveCASIndex_def Let_def split: if_splits dest!: arg_cong [where f = deployments])
  then have "spares (en_store E) (en_store E')"
    by (rule spares_update) (use assms(2) in \<open>auto simp: in_state_def\<close>)
  with \<open>d_state d' = d_state d\<close> show ?thesis by simp
qed

lemma create_target_spares: "create_target L c bad ta r E = (res, E') \<Longrightarrow> spares (en_store E) (en_store E')"
  by (auto simp: create_target_def Let_def db_Inr spares_def split: sum.splits prod.splits if_splits
      dest!: CreateDeployment_Inr(5))

lemma reconcile_new_spares: "reconcile_new L c bad ta E = (res, E') \<Longrightarrow> spares (en_store E) (en_store E')"
  by (auto simp: reconcile_new_def Let_def split: if_splits sum.splits store_error.splits
      dest: create_target_spares)

lemma move_then_spares:
  assumes "move_then L c bad d mv k E = (res, E')" "\<not> in_progress (d_state d)"
    and "\<And>E1. k E1 = (res, E') \<Longrightarrow> spares (en_store E1) (en_store E')"
  shows "spares (en_store E) (en_store E')"
proof -
  obtain e E1 where t: "engine_transition L c bad d (fst mv) (snd mv) E = (e, E1)" by (rule prod.exhaust)
  have "spares (en_store E1) (en_store E')"
    using assms(1,3) by (cases e) (auto simp: move_then_def t)
  from spares_trans [OF this engine_transition_spares [OF t assms(2)]] show ?thesis .
qed

lemma rule_on_spares:
  assumes "rule_on L c bad ta d E = (res, E')" "\<not> in_progress (d_state d)"
  shows "spares (en_store E) (en_store E')"
proof (cases "rule_active ta d")
  case (MoveTo to_st msg)
  with assms(1) have "move_then L c bad d (to_st, msg) (reconcile_new L c bad ta) E = (res, E')" by (simp add: rule_on_def)
  then show ?thesis by (rule move_then_spares [OF _ assms(2) reconcile_new_spares])
next
  case Leave
  with assms(1) have "move_then L c bad d (leave_move ta) (\<lambda>E'. (Inr ([], []), E')) E = (res, E')" by (simp add: rule_on_def)
  then show ?thesis by (rule move_then_spares [OF _ assms(2)]) simp
next
  case Keep
  with assms(1) show ?thesis by (simp add: rule_on_def)
qed

lemma reconcileDeployment_spares:
  assumes "reconcileDeployment L c bad ta E = (res, E')"
  shows "spares (en_store E) (en_store E')"
proof (cases "db (bad 2) (ActiveDeployment (key_namespace (ta_key ta)) (key_id (ta_key ta)) (en_store E))")
  case (Inl e)
  with assms show ?thesis by (auto simp: reconcileDeployment_def split: if_splits dest: reconcile_new_spares)
next
  case (Inr d)
  show ?thesis
  proof (cases "in_progress (d_state d)")
    case True
    with assms Inr show ?thesis by (auto simp: reconcileDeployment_def in_progress_def)
  next
    case False
    obtain e E1 d1 where m: "moveCASIndex c (bad 5) d (ta_index ta) E = (e, E1, d1)" by (rule prod_cases3)
    note k = moveCASIndex_spares [OF m False]
    from assms Inr show ?thesis
      using rule_on_spares [of L c bad ta d E, OF _ False] rule_on_spares [of L c bad ta d1 E1] k False
      by (auto simp: reconcileDeployment_def m split: if_splits option.splits intro: spares_trans)
  qed
qed

lemma drop_lift_spares: "drop_lift bad l E = (e, E') \<Longrightarrow> spares (en_store E) (en_store E')"
  by (auto simp: drop_lift_def DropWindowLift_def split: if_splits intro: spares_same)


lemma drop_used_spares: "drop_used bad lift ob E = (r, E') \<Longrightarrow> spares (en_store E) (en_store E')"
  by (auto simp: drop_used_def split: option.splits prod.splits dest: drop_lift_spares)

lemma reconcileJob_spares:
  "reconcileJob L env mf hooks pause window lift E = (r, E') \<Longrightarrow> spares (en_store E) (en_store E')"
  by (auto simp: reconcileJob_def Let_def split: sum.splits prod.splits
      dest!: drop_used_spares reconcileDeployment_spares intro: spares_trans)

lemma reconcile_jobs_spares:
  "reconcile_jobs L cf env hs held all asked mfs acc E = (r, E') \<Longrightarrow> spares (en_store E) (en_store E')"
proof (induction mfs arbitrary: acc E)
  case (Cons mf mfs)
  then show ?case
    by (auto simp: Let_def split: sum.splits prod.splits option.splits dest!: reconcileJob_spares intro: spares_trans)
qed simp

lemma supersede_each_spares:
  "supersede_each L cf env seen ds E = (r, E') \<Longrightarrow> spares (en_store E) (en_store E')"
proof (induction ds arbitrary: E)
  case (Cons d ds)
  obtain e E1 where t: "engine_transition L (de_move env (d_id d)) (de_bad_move env (d_id d)) d Superseded
      ''job removed from repo'' E = (e, E1)" by (rule prod.exhaust)
  show ?case
  proof (cases "in_progress (d_state d)")
    case True
    with Cons show ?thesis by (auto simp: in_progress_def)
  next
    case False
    from engine_transition_spares [OF t False] Cons show ?thesis
      by (auto simp: t split: if_splits option.splits intro: spares_trans)
  qed
qed simp

lemma drop_unseen_spares: "drop_unseen env seen ls E = (r, E') \<Longrightarrow> spares (en_store E) (en_store E')"
  by (induction ls arbitrary: E)
    (auto simp: Let_def split: if_splits prod.splits option.splits dest!: drop_lift_spares intro: spares_trans)

lemma after_jobs_spares:
  "after_jobs L cf env parsed seen lifts st E = (r, st', E') \<Longrightarrow> spares (en_store E) (en_store E')"
  by (auto simp: after_jobs_def Let_def supersedeRemoved_def set_orphans_def
      split: option.splits prod.splits if_splits sum.splits
      dest!: supersede_each_spares drop_unseen_spares gcHookRevisions_store intro: spares_trans)

lemma detect_spares:
  assumes "detect L cf env snaps E = (r, st, E')"
  shows "spares (en_store E) (en_store E')"
proof -
  have onward: "spares (en_store E1) (en_store E')"
    if "reconcile_jobs L cf env hs held all asked mfs acc E1 = (Inr (obs, n), E2)"
      "after_jobs L cf env parsed seen lifts st0 (E2\<lparr>en_observations := obs\<rparr>) = (r, st, E')"
    for hs held all asked mfs acc obs n E1 E2 parsed seen lifts st0
    using spares_trans [OF _ reconcile_jobs_spares [OF that(1)]] after_jobs_spares [OF that(2)] by simp
  show ?thesis
    using assms
    by (auto simp: detect_def Let_def split: prod.splits if_splits sum.splits
        dest!: onward [where ?E1.0 = "E\<lparr>en_parse_cache := _, en_all := _\<rparr>"] dest: reconcile_jobs_spares)
qed

text \<open>
  Claim C6. Detection never interferes with an apply in progress: a whole cycle, with any files, any
  answers of Nomad and any failure, leaves the row of every deployment in pre_hook, applying or
  post_hook exactly as it was.
\<close>

theorem detection_spares_in_progress:
  assumes "Detect L cf env snaps E = (e, E')" "d \<in> set (deployments (en_store E))"
    and "d_state d = PreHook \<or> d_state d = Applying \<or> d_state d = PostHook"
  shows "d \<in> set (deployments (en_store E'))"
proof -
  from assms(1) obtain st E1 where d: "detect L cf env snaps E = (e, st, E1)" "en_store E' = en_store E1"
    by (auto simp: Detect_def split: prod.splits)
  from detect_spares [OF d(1)] assms(2,3) d(2) show ?thesis by (auto simp: spares_def in_progress_def)
qed

theorem detection_spares_in_progress_witness:
  "started_row \<in> set (deployments (en_store (snd (Detect sample_libs sample_opts sample_detect []
     (new_engine\<lparr>en_store := started_store\<rparr>)))))"
  by (rule detection_spares_in_progress [of sample_libs sample_opts sample_detect "[]"
        "new_engine\<lparr>en_store := started_store\<rparr>" "fst (Detect sample_libs sample_opts sample_detect []
     (new_engine\<lparr>en_store := started_store\<rparr>))"]) (simp_all add: started_rows)

section \<open>When nothing is created\<close>

text \<open>
  A failure is not retried by itself: when the latest deployment of a job failed or was
  rejected, nobody asked to retry it, and what git asks for is the same spec, then, if it had
  registered, or the live job is still at its index, or the plan still shows the diff it was made
  with, a cycle that finds no active deployment changes nothing and names it as the block.
\<close>

theorem failure_blocks_unchanged_spec:
  assumes "ActiveDeployment (key_namespace (ta_key ta)) (key_id (ta_key ta)) (en_store E) = Inl ErrNotFound"
    and "LatestDeployment (key_namespace (ta_key ta)) (key_id (ta_key ta)) (en_store E) = Inr d"
    and "d_state d = Failed \<or> d_state d = Rejected" "d_retried_at d = None" "d_id d \<noteq> []"
    and "ta_policy ta \<noteq> PNone" "ta_drift ta" "d_spec_hash d = ta_hash ta"
    and "AppliedIndex d \<noteq> 0 \<or> d_cas_index d = ta_index ta \<or> d_diff_hash d \<noteq> [] \<and> d_diff_hash d = ta_diff_hash ta"
    and "\<not> bad 2" "\<not> bad 3"
  shows "\<exists>why. reconcileDeployment L c bad ta E = (Inr (d_id d, why), E)"
proof -
  have b: "fst (blockedRetry d (ta_hash ta) (ta_index ta) (ta_diff_hash ta)) = d_id d"
    using assms(3-5,8,9) by (auto simp: blockedRetry_def failed_or_rejected_def sameDiff_def)
  have "reconcile_new L c bad ta E = (Inr (blockedRetry d (ta_hash ta) (ta_index ta) (ta_diff_hash ta)), E)"
    using assms(2,5-7,11) b by (simp add: reconcile_new_def db_def Let_def)
  with b show ?thesis
    using assms(1,10) by (cases "blockedRetry d (ta_hash ta) (ta_index ta) (ta_diff_hash ta)")
      (simp add: reconcileDeployment_def db_def)
qed

lemma reconcile_new_held:
  "ta_hold ta \<noteq> None \<Longrightarrow> reconcile_new L c bad ta E = (res, E') \<Longrightarrow> E' = E"
  by (auto simp: reconcile_new_def Let_def split: if_splits sum.splits store_error.splits)


definition aside :: "deployment \<Rightarrow> deployment \<Rightarrow> bool" where
  "aside d d' = (d_id d' = d_id d \<and> (d_state d' = d_state d \<or> d_state d' \<in> {Superseded, Completed, Failed, PendingApproval}))"

definition puts_aside :: "store \<Rightarrow> store \<Rightarrow> bool" where
  "puts_aside s t = list_all2 aside (deployments s) (deployments t)"

lemma puts_aside_refl [simp]: "puts_aside s s"
  by (simp add: puts_aside_def list_all2_same aside_def)

lemma puts_aside_trans: "puts_aside s t \<Longrightarrow> puts_aside t u \<Longrightarrow> puts_aside s u"
  unfolding puts_aside_def by (erule (1) list_all2_trans [rotated]) (auto simp: aside_def)

lemma puts_aside_update:
  "deployments t = update_where P f (deployments s) \<Longrightarrow> (\<And>d. P d \<Longrightarrow> aside d (f d)) \<Longrightarrow> puts_aside s t"
  by (auto simp: puts_aside_def update_where_def list_all2_map2 list_all2_same aside_def)

lemma engine_transition_aside:
  assumes "engine_transition L c bad d to_st msg E = (e, E')" "to_st \<in> {Superseded, Completed, Failed, PendingApproval}"
  shows "puts_aside (en_store E) (en_store E')"
proof (cases "Transition c (d_id d) to_st (engine_move (d_state d) to_st msg) (en_store E)")
  case (Inl e')
  with assms(1) show ?thesis by (auto simp: engine_transition_def db_def split: if_splits)
next
  case (Inr s)
  then have "puts_aside (en_store E) s"
    by (intro puts_aside_update [of s "in_state (d_id d) (d_state d)" "transition_row c to_st (engine_move (d_state d) to_st msg)"])
      (use assms(2) in \<open>auto simp: Transition_def engine_move_def transition_row_def aside_def split: if_splits\<close>)
  with Inr assms(1) show ?thesis by (auto simp: engine_transition_def db_def split: if_splits)
qed

lemma moveCASIndex_aside:
  assumes "moveCASIndex c bad d idx E = (e, E', d')"
  shows "puts_aside (en_store E) (en_store E')"
proof (cases "MoveCASIndex c (d_id d) (d_state d) (d_cas_index d) idx (en_store E)")
  case (Inl e')
  with assms show ?thesis by (auto simp: moveCASIndex_def db_def split: if_splits)
next
  case (Inr s)
  then have "deployments s = update_where
      (\<lambda>r. in_state (d_id d) (d_state d) r \<and> d_cas_index r = d_cas_index d \<and> d_applied_index r = None)
      (\<lambda>r. r\<lparr>d_cas_index := idx, d_updated_at := c_now c\<rparr>) (deployments (en_store E))"
    by (auto simp: MoveCASIndex_def Let_def split: if_splits)
  then have "puts_aside (en_store E) s" by (rule puts_aside_update) (simp add: aside_def)
  with Inr assms show ?thesis by (auto simp: moveCASIndex_def db_def split: if_splits)
qed

lemma rule_on_held:
  assumes "rule_on L c bad ta d E = (res, E')" "ta_hold ta \<noteq> None"
  shows "puts_aside (en_store E) (en_store E')"
proof (cases "rule_active ta d")
  case (MoveTo to_st msg)
  then have "to_st \<in> {Superseded, Completed, Failed, PendingApproval}"
    by (auto simp: rule_active_def split: if_splits option.splits)
  then show ?thesis
    using assms by (auto simp: rule_on_def MoveTo move_then_def split: prod.splits option.splits
        dest: engine_transition_aside reconcile_new_held [OF assms(2)])
next
  case Leave
  have "fst (leave_move ta) \<in> {Superseded, Completed, Failed, PendingApproval}" by (simp add: leave_move_def)
  then show ?thesis
    using assms by (auto simp: rule_on_def Leave move_then_def split: prod.splits option.splits
        dest: engine_transition_aside)
next
  case Keep
  with assms(1) show ?thesis by (simp add: rule_on_def)
qed

text \<open>
  A hold only ever subtracts: while a job is held, reconciling it creates no deployment,
  and the only moves it can make on the active one are out of the way, to superseded, completed,
  failed or waiting for approval.
\<close>

theorem hold_only_subtracts:
  assumes "reconcileDeployment L c bad ta E = (res, E')" "ta_hold ta \<noteq> None"
  shows "list_all2 (\<lambda>d d'. d_id d' = d_id d \<and>
      (d_state d' = d_state d \<or> d_state d' \<in> {Superseded, Completed, Failed, PendingApproval}))
    (deployments (en_store E)) (deployments (en_store E'))"
proof -
  have "puts_aside (en_store E) (en_store E')"
  proof (cases "db (bad 2) (ActiveDeployment (key_namespace (ta_key ta)) (key_id (ta_key ta)) (en_store E))")
    case (Inl e)
    with assms(1) show ?thesis
      by (auto simp: reconcileDeployment_def split: if_splits dest: reconcile_new_held [OF assms(2)])
  next
    case (Inr d)
    obtain e E1 d1 where m: "moveCASIndex c (bad 5) d (ta_index ta) E = (e, E1, d1)" by (rule prod_cases3)
    from assms(1) Inr show ?thesis
      using rule_on_held [OF _ assms(2), of L c bad d E] rule_on_held [OF _ assms(2), of L c bad d1 E1]
        moveCASIndex_aside [OF m]
      by (auto simp: reconcileDeployment_def m split: if_splits option.splits intro: puts_aside_trans)
  qed
  then show ?thesis by (simp add: puts_aside_def aside_def [abs_def])
qed

text \<open>Samples: a failed row of the sample job, and a pause.\<close>

definition sample_target :: target where
  "sample_target = \<lparr>ta_key = JobKey ''default'' ''api'', ta_commit = commit_of sample_snapshot, ta_policy = PAuto,
     ta_hash = ''{}'', ta_hooks = [], ta_problem = [], ta_index = 0, ta_drift = True, ta_diff_hash = ''{}'',
     ta_redacted = ''{}'', ta_job = sample_job, ta_file = ''job'', ta_vars = [], ta_hold = None, ta_lifted_by = []\<rparr>"

definition failed_row :: deployment where
  "failed_row = detected_row\<lparr>d_state := Failed\<rparr>"

theorem failure_blocks_unchanged_spec_witness:
  "\<exists>why. reconcileDeployment sample_libs sample_call (\<lambda>_. False) sample_target
     (new_engine\<lparr>en_store := empty_store\<lparr>deployments := [failed_row]\<rparr>\<rparr>) =
     (Inr (''01A'', why), new_engine\<lparr>en_store := empty_store\<lparr>deployments := [failed_row]\<rparr>\<rparr>)"
proof -
  let ?E = "new_engine\<lparr>en_store := empty_store\<lparr>deployments := [failed_row]\<rparr>\<rparr>"
  have row: "d_id failed_row = ''01A''" "d_namespace failed_row = ''default''" "d_job_id failed_row = ''api''"
    "d_spec_hash failed_row = ''{}''" "d_cas_index failed_row = 0" "d_retried_at failed_row = None" "d_state failed_row = Failed"
    by (simp_all add: failed_row_def detected_rows) (simp_all add: detected_row_def new_row_def detected_new_def)
  have "ActiveDeployment ''default'' ''api'' (en_store ?E) = Inl ErrNotFound"
    "LatestDeployment ''default'' ''api'' (en_store ?E) = Inr failed_row"
    by (simp_all add: ActiveDeployment_def LatestDeployment_def or_not_found_def newest_def of_job_def row IsActive_def)
  then show ?thesis
    using failure_blocks_unchanged_spec [of sample_target ?E failed_row "\<lambda>_. False" sample_libs sample_call]
    by (simp add: sample_target_def row)
qed

theorem hold_only_subtracts_witness:
  "\<exists>res E'. reconcileDeployment sample_libs sample_call (\<lambda>_. False)
       (sample_target\<lparr>ta_hold := Some (pauseHold (new_pause sample_call 1 ''default'' ''api'' ''ann'' []))\<rparr>)
       (new_engine\<lparr>en_store := detected_store\<rparr>) = (res, E') \<and> map d_id (deployments (en_store E')) = [''01A'']"
proof -
  let ?ta = "sample_target\<lparr>ta_hold := Some (pauseHold (new_pause sample_call 1 ''default'' ''api'' ''ann'' []))\<rparr>"
  let ?E = "new_engine\<lparr>en_store := detected_store\<rparr>"
  obtain res E' where r: "reconcileDeployment sample_libs sample_call (\<lambda>_. False) ?ta ?E = (res, E')" by (rule prod.exhaust)
  from hold_only_subtracts [OF r] have "map d_id (deployments (en_store E')) = map d_id [detected_row]"
    by (simp add: detected_rows list_all2_Cons1) (auto simp: detected_rows)
  with r show ?thesis by (simp add: detected_rows)
qed

section \<open>Hook revisions\<close>

lemma gc_one:
  assumes "gcHookRevisionsIn L env ns E = (r, E')" "StopJob ns' i \<in> set (en_trace E')" "StopJob ns' i \<notin> set (en_trace E)"
  shows "ns' = ns \<and> (\<exists>stubs st. de_jobs env ns = Inr stubs \<and> st \<in> set stubs \<and> gc_candidate L st \<and> st_id st = i) \<and>
    i \<notin> set (HookRevisionsInUse ns (en_store E))"
  using assms by (auto simp: gcHookRevisionsIn_def Let_def split: sum.splits if_splits)

lemma revision_in_use:
  assumes "d \<in> set (deployments s)" "IsActive (d_state d)" "h \<in> set (DeploymentHooks (d_id d) s)"
  shows "h_revision h \<in> set (HookRevisionsInUse (d_namespace d) s)"
proof -
  from assms(3) have "(d_id d, h) \<in> set (deployment_hooks s)" by (auto simp: DeploymentHooks_def)
  moreover have "list_ex (\<lambda>x. d_id x = d_id d \<and> d_namespace x = d_namespace d \<and> IsActive (d_state x)) (deployments s)"
    using assms(1,2) by (auto simp: list_ex_iff)
  ultimately show ?thesis by (force simp: HookRevisionsInUse_def)
qed

text \<open>
  The collection of hook revisions never takes one that an active deployment froze:
  whatever a cycle stops in Nomad is a job of a managed namespace that says it is a hook, has the
  ID of a revision, is no dispatched child and is not stopped yet, and is none of the revisions of a
  deployment of that namespace that is still active.
\<close>

theorem collected_revisions_unused:
  assumes "gcHookRevisions L env nss E = (r, E')" "StopJob ns i \<in> set (en_trace E')" "StopJob ns i \<notin> set (en_trace E)"
  shows "ns \<in> set nss \<and> revisionRe i
    \<and> (\<exists>stubs st. de_jobs env ns = Inr stubs \<and> st \<in> set stubs \<and> st_id st = i \<and> is_hook (meta_of L (st_meta st)) \<and>
         st_parent st = [] \<and> \<not> st_stop st)
    \<and> \<not> (\<exists>d\<in>set (deployments (en_store E)). d_namespace d = ns \<and> IsActive (d_state d) \<and>
         (\<exists>h\<in>set (DeploymentHooks (d_id d) (en_store E)). h_revision h = i))"
  using assms
proof (induction nss arbitrary: E)
  case (Cons n nss)
  obtain x E1 where g: "gcHookRevisionsIn L env n E = (x, E1)" by (rule prod.exhaust)
  show ?case
  proof (cases "StopJob ns i \<in> set (en_trace E1)")
    case True
    from gc_one [OF g True Cons.prems(3)] show ?thesis
      by (auto simp: gc_candidate_def dest: revision_in_use)
  next
    case False
    with Cons.prems g have "gcHookRevisions L env nss E1 = (r, E')" by (auto split: option.splits)
    from Cons.IH [OF this Cons.prems(2) False] gcHookRevisionsIn_store [OF g] show ?thesis by simp
  qed
qed simp

theorem collected_revisions_unused_witness:
  "\<exists>E'. gcHookRevisions sample_libs (sample_detect\<lparr>de_jobs := (\<lambda>_. Inr [\<lparr>st_id = ''m-0123abcd'', st_parent = [],
       st_stop = False, st_meta = [(''nops_role'', ''hook'')]\<rparr>])\<rparr>) [''default''] (new_engine\<lparr>en_store := started_store\<rparr>) = (None, E') \<and>
     revisionRe ''m-0123abcd''"
proof -
  let ?st = "\<lparr>st_id = ''m-0123abcd'', st_parent = [], st_stop = False, st_meta = [(''nops_role'', ''hook'')]\<rparr>"
  let ?env = "sample_detect\<lparr>de_jobs := (\<lambda>_. Inr [?st])\<rparr>"
  let ?E = "new_engine\<lparr>en_store := started_store\<rparr>"
  have re: "revisionRe ''m-0123abcd''" by code_simp
  have hook: "is_hook (meta_of sample_libs [(''nops_role'', ''hook'')])" by code_simp
  have cand: "gc_candidate sample_libs ?st" by (simp add: gc_candidate_def re hook)
  have none: "HookRevisionsInUse ''default'' started_store = []"
    by (simp add: HookRevisionsInUse_def started_store_def insertEvent_def detected_store_def log_birth_def Let_def
        detected_new_def born_state_def empty_store_def)
  have g: "gcHookRevisions sample_libs ?env [''default''] ?E = (None, acts [StopJob ''default'' ''m-0123abcd''] ?E)"
    by (simp add: gcHookRevisionsIn_def cand none sample_env)
  from collected_revisions_unused [OF g, of "''default''" "''m-0123abcd''"]
  have "revisionRe ''m-0123abcd''" by (simp add: new_engine_def)
  with g show ?thesis by blast
qed

end
