(* ===== verification/AclStore.thy ===== *)
theory AclStore
  imports StoreState
begin

text \<open>
  The store of access control (\<open>internal/store/acl.go\<close>): ACL policies, tokens, binding rules and
  the log of their changes. The tables are lists of rows in the order of insertion, as in
  \<open>StoreState\<close>; a row of \<open>acl_tokens\<close> is the hash of the token's secret and its other columns, with
  no policies, which are rows of \<open>acl_token_policies\<close>. Each operation is one transaction, and the
  clock does not move within it.
\<close>

section \<open>Records\<close>

definition TokenManagement :: string where
  "TokenManagement = ''management''"

definition TokenClient :: string where
  "TokenClient = ''client''"

definition OriginLogin :: string where
  "OriginLogin = ''login''"

definition OriginCreated :: string where
  "OriginCreated = ''created''"

definition BindPolicy :: string where
  "BindPolicy = ''policy''"

definition BindManagement :: string where
  "BindManagement = ''management''"

lemma token_kinds_differ [simp]:
  "TokenManagement \<noteq> TokenClient" "TokenClient \<noteq> TokenManagement"
  "OriginLogin \<noteq> OriginCreated" "OriginCreated \<noteq> OriginLogin"
  "TokenManagement \<noteq> []" "TokenClient \<noteq> []" "OriginLogin \<noteq> []" "OriginCreated \<noteq> []"
  "BindPolicy \<noteq> BindManagement" "BindManagement \<noteq> BindPolicy"
  by (simp_all add: TokenManagement_def TokenClient_def OriginLogin_def OriginCreated_def
      BindPolicy_def BindManagement_def)

text \<open>\<open>Audit\<close>: who makes a change.\<close>

record audit =
  au_accessor :: string
  au_actor :: string
  au_identity :: string

record policy_row =
  pr_name :: string
  pr_description :: string
  pr_rules :: string
  pr_created_at :: time
  pr_modified_at :: time

text \<open>\<open>ACLToken\<close>. No expiry is Go's zero time.\<close>

record acl_token =
  tk_accessor :: string
  tk_name :: string
  tk_type :: string
  tk_policies :: "string list"
  tk_acl :: bool
  tk_origin :: string
  tk_identity :: string
  tk_created_at :: time
  tk_expires_at :: "time option"
  tk_creator_accessor :: string
  tk_creator_name :: string
  tk_creator_identity :: string

record acl_change =
  ch_id :: nat
  ch_time :: time
  ch_accessor :: string
  ch_actor :: string
  ch_identity :: string
  ch_action :: string
  ch_kind :: string
  ch_object :: string

record binding_rule =
  br_id :: string
  br_description :: string
  br_method :: string
  br_selector :: string
  br_type :: string
  br_bind_name :: string
  br_created_at :: time
  br_modified_at :: time

text \<open>The tables of access control.\<close>

record access =
  ac_policies :: "policy_row list"
  ac_tokens :: "(string \<times> acl_token) list"
  ac_token_policies :: "(string \<times> string) list"
  ac_rules :: "binding_rule list"
  ac_changes :: "acl_change list"
  ac_change_seq :: nat

definition empty_access :: access where
  "empty_access = \<lparr>ac_policies = [], ac_tokens = [], ac_token_policies = [], ac_rules = [],
     ac_changes = [], ac_change_seq = 0\<rparr>"

abbreviation accessor_of :: "string \<times> acl_token \<Rightarrow> string" where
  "accessor_of row \<equiv> tk_accessor (snd row)"

section \<open>The log of changes\<close>

definition insertChange :: "call \<Rightarrow> audit \<Rightarrow> string \<Rightarrow> string \<Rightarrow> string \<Rightarrow> access \<Rightarrow> access" where
  "insertChange c who action kind object a =
     a\<lparr>ac_changes := ac_changes a @ [\<lparr>ch_id = Suc (ac_change_seq a), ch_time = c_now c,
          ch_accessor = au_accessor who, ch_actor = au_actor who, ch_identity = au_identity who,
          ch_action = action, ch_kind = kind, ch_object = object\<rparr>],
       ac_change_seq := Suc (ac_change_seq a)\<rparr>"

definition ACLChanges :: "int \<Rightarrow> access \<Rightarrow> acl_change list" where
  "ACLChanges limit a = limit_rows limit (rev (sort_key ch_id (ac_changes a)))"

section \<open>ACL policies\<close>

definition PutACLPolicy :: "call \<Rightarrow> policy_row \<Rightarrow> audit \<Rightarrow> access \<Rightarrow> store_error + access" where
  "PutACLPolicy c p who a =
     (if pr_name p = [] \<or> pr_rules p = [] \<or> au_actor who = [] then Inl ErrInvalid
      else if list_ex (\<lambda>q. pr_name q = pr_name p) (ac_policies a) then
        Inr (insertChange c who ''update'' ''acl-policy'' (pr_name p)
          (a\<lparr>ac_policies := update_where (\<lambda>q. pr_name q = pr_name p)
             (\<lambda>q. q\<lparr>pr_description := pr_description p, pr_rules := pr_rules p, pr_modified_at := c_now c\<rparr>)
             (ac_policies a)\<rparr>))
      else Inr (insertChange c who ''create'' ''acl-policy'' (pr_name p)
          (a\<lparr>ac_policies := ac_policies a @
             [p\<lparr>pr_created_at := c_now c, pr_modified_at := c_now c\<rparr>]\<rparr>)))"

definition ACLPolicy :: "string \<Rightarrow> access \<Rightarrow> store_error + policy_row" where
  "ACLPolicy name a = (case find (\<lambda>p. pr_name p = name) (ac_policies a) of
     None \<Rightarrow> Inl ErrNotFound | Some p \<Rightarrow> Inr p)"

definition ACLPolicies :: "access \<Rightarrow> policy_row list" where
  "ACLPolicies a = sort_key pr_name (ac_policies a)"

definition DeleteACLPolicy :: "call \<Rightarrow> string \<Rightarrow> audit \<Rightarrow> access \<Rightarrow> store_error + access" where
  "DeleteACLPolicy c name who a =
     (if au_actor who = [] then Inl ErrInvalid
      else if \<not> list_ex (\<lambda>p. pr_name p = name) (ac_policies a) then Inl ErrNotFound
      else Inr (insertChange c who ''delete'' ''acl-policy'' name
          (a\<lparr>ac_policies := delete_where (\<lambda>p. pr_name p = name) (ac_policies a)\<rparr>)))"

section \<open>Tokens\<close>

text \<open>\<open>INSERT OR IGNORE\<close> into \<open>acl_token_policies\<close>, one row per policy name.\<close>

fun insert_policies :: "string \<Rightarrow> string list \<Rightarrow> (string \<times> string) list \<Rightarrow> (string \<times> string) list" where
  "insert_policies i [] tab = tab"
| "insert_policies i (p # ps) tab =
     insert_policies i ps (if (i, p) \<in> set tab then tab else tab @ [(i, p)])"

text \<open>The checks of \<open>CreateACLToken\<close> before the transaction.\<close>

definition token_refused :: "acl_token \<Rightarrow> string \<Rightarrow> audit \<Rightarrow> bool" where
  "token_refused t hash who =
     (tk_name t = [] \<or> hash = [] \<or> au_actor who = [] \<or>
      (tk_type t \<noteq> TokenManagement \<and> tk_type t \<noteq> TokenClient) \<or>
      (tk_type t = TokenManagement \<and> tk_policies t \<noteq> []) \<or>
      (tk_origin t \<noteq> [] \<and> tk_origin t \<noteq> OriginLogin \<and> tk_origin t \<noteq> OriginCreated))"

definition stamp_token :: "call \<Rightarrow> acl_token \<Rightarrow> acl_token" where
  "stamp_token c t = t\<lparr>tk_origin := (if tk_origin t = [] then OriginCreated else tk_origin t),
     tk_accessor := c_new_id c, tk_created_at := c_now c\<rparr>"

definition CreateACLToken ::
  "call \<Rightarrow> acl_token \<Rightarrow> string \<Rightarrow> audit \<Rightarrow> access \<Rightarrow> store_error + (access \<times> acl_token)" where
  "CreateACLToken c t hash who a =
     (if token_refused t hash who then Inl ErrInvalid
      else if list_ex (\<lambda>r. fst r = hash \<or> accessor_of r = c_new_id c) (ac_tokens a) then Inl ErrConstraint
      else let u = stamp_token c t in
        Inr (insertChange c who ''create'' ''token'' (tk_accessor u)
          (a\<lparr>ac_tokens := ac_tokens a @ [(hash, u\<lparr>tk_policies := []\<rparr>)],
             ac_token_policies := insert_policies (tk_accessor u) (tk_policies u) (ac_token_policies a)\<rparr>), u))"

text \<open>\<open>loadPolicies\<close>: the names of the policies of a token, sorted.\<close>

definition load_policies :: "access \<Rightarrow> acl_token \<Rightarrow> acl_token" where
  "load_policies a t = t\<lparr>tk_policies := tk_policies t @
     sort (map snd (filter (\<lambda>r. fst r = tk_accessor t) (ac_token_policies a)))\<rparr>"

definition expired :: "call \<Rightarrow> acl_token \<Rightarrow> bool" where
  "expired c t = (case tk_expires_at t of None \<Rightarrow> False | Some at \<Rightarrow> \<not> c_now c < at)"

text \<open>\<open>queryTokens\<close>, with the condition of the query as an argument.\<close>

definition token_key :: "acl_token \<Rightarrow> (int \<times> string) \<times> string" where
  "token_key t = (ts_key (tk_created_at t), tk_accessor t)"

definition queryTokens :: "call \<Rightarrow> (acl_token \<Rightarrow> bool) \<Rightarrow> access \<Rightarrow> acl_token list" where
  "queryTokens c P a = map (load_policies a)
     (filter (\<lambda>t. \<not> expired c t) (rev (sort_key token_key (filter P (map snd (ac_tokens a))))))"

definition ACLTokens :: "call \<Rightarrow> access \<Rightarrow> acl_token list" where
  "ACLTokens c a = queryTokens c (\<lambda>_. True) a"

definition ACLToken :: "call \<Rightarrow> string \<Rightarrow> access \<Rightarrow> store_error + acl_token" where
  "ACLToken c i a = (case find (\<lambda>t. tk_accessor t = i) (map snd (ac_tokens a)) of
       None \<Rightarrow> Inl ErrNotFound
     | Some t \<Rightarrow> if expired c t then Inl ErrNotFound else Inr (load_policies a t))"

definition ACLTokenBySecret :: "call \<Rightarrow> string \<Rightarrow> bool \<Rightarrow> access \<Rightarrow> store_error + acl_token" where
  "ACLTokenBySecret c hash acl a = (case find (\<lambda>r. fst r = hash) (ac_tokens a) of
       None \<Rightarrow> Inl ErrNotFound
     | Some r \<Rightarrow> if tk_acl (snd r) \<noteq> acl \<or> expired c (snd r) then Inl ErrNotFound
                 else Inr (load_policies a (snd r)))"

section \<open>Revocation\<close>

text \<open>
  \<open>DELETE FROM acl_tokens WHERE accessor_id = ?\<close>, which takes the rows of \<open>acl_token_policies\<close>
  with it (\<open>ON DELETE CASCADE\<close>). With foreign keys on, such a row exists only beside its token.
\<close>

definition delete_token :: "string \<Rightarrow> access \<Rightarrow> access" where
  "delete_token i a = a\<lparr>ac_tokens := delete_where (\<lambda>r. accessor_of r = i) (ac_tokens a),
     ac_token_policies := delete_where (\<lambda>r. fst r = i) (ac_token_policies a)\<rparr>"

definition RevokeACLToken :: "call \<Rightarrow> string \<Rightarrow> audit \<Rightarrow> access \<Rightarrow> store_error + access" where
  "RevokeACLToken c i who a =
     (if au_actor who = [] then Inl ErrInvalid
      else if \<not> list_ex (\<lambda>r. accessor_of r = i) (ac_tokens a) then Inl ErrNotFound
      else Inr (insertChange c who ''revoke'' ''token'' i (delete_token i a)))"

record revocation =
  sessions_of :: string
  rev_identity :: string
  rev_accessor :: string

definition revocation_valid :: "revocation \<Rightarrow> bool" where
  "revocation_valid r =
     (length (filter (\<lambda>f. f \<noteq> []) [sessions_of r, rev_identity r, rev_accessor r]) = 1)"

text \<open>
  The recursive query: the accessor IDs found so far, and a queue of those whose tokens are still
  to be added. \<open>UNION\<close> drops an ID that was in the queue before.
\<close>

definition created_ids :: "acl_token list \<Rightarrow> string \<Rightarrow> string list" where
  "created_ids rows i = map tk_accessor (filter (\<lambda>t. tk_creator_accessor t = i) rows)"

definition fresh_ids :: "acl_token list \<Rightarrow> string list \<Rightarrow> string list \<Rightarrow> string \<Rightarrow> string list" where
  "fresh_ids rows found queue i =
     remdups (filter (\<lambda>j. j \<notin> set found \<and> j \<notin> set queue) (created_ids rows i))"

abbreviation unseen :: "acl_token list \<Rightarrow> string list \<Rightarrow> string list \<Rightarrow> string set" where
  "unseen rows found queue \<equiv> set (map tk_accessor rows) - (set found \<union> set queue)"

lemma diff_shrinks:
  "N \<subseteq> R - (F \<union> insert i Q) \<Longrightarrow> N \<noteq> {} \<Longrightarrow> R - (F \<union> {i} \<union> (Q \<union> N)) \<subset> R - (F \<union> insert i Q)"
  by auto

lemma fresh_ids_shrink:
  assumes "fresh_ids rows found (i # queue) i \<noteq> []"
  shows "card (unseen rows (found @ [i]) (queue @ fresh_ids rows found (i # queue) i)) <
    card (unseen rows found (i # queue))"
proof (rule psubset_card_mono)
  have sub: "set (fresh_ids rows found (i # queue) i) \<subseteq>
      set (map tk_accessor rows) - (set found \<union> insert i (set queue))"
    by (auto simp: fresh_ids_def created_ids_def)
  have ne: "set (fresh_ids rows found (i # queue) i) \<noteq> {}"
    using assms set_empty by blast
  show "unseen rows (found @ [i]) (queue @ fresh_ids rows found (i # queue) i) \<subset>
      unseen rows found (i # queue)"
    using diff_shrinks [OF sub ne] by (simp only: set_append list.set)
qed (rule finite_Diff, rule finite_set)

function taken_loop :: "acl_token list \<Rightarrow> string list \<Rightarrow> string list \<Rightarrow> string list" where
  "taken_loop rows found [] = found"
| "taken_loop rows found (i # queue) =
     taken_loop rows (found @ [i]) (queue @ fresh_ids rows found (i # queue) i)"
  by pat_completeness auto
termination
proof (relation "measures [\<lambda>(rows, found, queue). card (unseen rows found queue),
    \<lambda>(rows, found, queue). length queue]", rule wf_measures)
  fix rows found i queue
  show "((rows, found @ [i], queue @ fresh_ids rows found (i # queue) i), (rows, found, i # queue)) \<in>
      measures [\<lambda>(rows, found, queue). card (unseen rows found queue), \<lambda>(rows, found, queue). length queue]"
  proof (cases "fresh_ids rows found (i # queue) i = []")
    case True
    have "unseen rows (found @ [i]) queue = unseen rows found (i # queue)"
      by (simp only: set_append list.set Un_insert_right Un_empty_right Un_insert_left)
    then show ?thesis by (simp only: True append_Nil2 measures_less measures_lesseq split length_Cons lessI order_refl)
  next
    case False
    from fresh_ids_shrink [OF this] show ?thesis by (simp only: measures_less split)
  qed
qed

text \<open>The tokens created ones seed the search with.\<close>

definition seeds :: "revocation \<Rightarrow> acl_token list \<Rightarrow> string list" where
  "seeds r rows = map tk_accessor (filter (\<lambda>t. tk_origin t = OriginCreated \<and>
     (if rev_accessor r \<noteq> [] then tk_creator_accessor t = rev_accessor r
      else tk_creator_identity t = rev_identity r)) rows)"

definition taken :: "revocation \<Rightarrow> acl_token list \<Rightarrow> string list" where
  "taken r rows = taken_loop rows [] (remdups (seeds r rows))"

definition revocation_selects :: "revocation \<Rightarrow> acl_token list \<Rightarrow> acl_token \<Rightarrow> bool" where
  "revocation_selects r rows t =
     (if sessions_of r \<noteq> [] then tk_origin t = OriginLogin \<and> tk_identity t = sessions_of r
      else tk_accessor t \<in> set (taken r rows))"

definition TokensToRevoke :: "call \<Rightarrow> revocation \<Rightarrow> access \<Rightarrow> store_error + acl_token list" where
  "TokensToRevoke c r a =
     (if \<not> revocation_valid r then Inl ErrInvalid
      else Inr (queryTokens c (revocation_selects r (map snd (ac_tokens a))) a))"

fun revoke_each :: "call \<Rightarrow> audit \<Rightarrow> string list \<Rightarrow> access \<Rightarrow> access" where
  "revoke_each c who [] a = a"
| "revoke_each c who (i # is) a =
     revoke_each c who is (insertChange c who ''revoke'' ''token'' i (delete_token i a))"

definition RevokeACLTokens ::
  "call \<Rightarrow> revocation \<Rightarrow> audit \<Rightarrow> access \<Rightarrow> store_error + (access \<times> string list)" where
  "RevokeACLTokens c r who a =
     (if au_actor who = [] then Inl ErrInvalid
      else bindE (TokensToRevoke c r a) (\<lambda>ts.
        let ids = map tk_accessor ts in Inr (revoke_each c who ids a, ids)))"

definition DeleteExpiredTokens :: "call \<Rightarrow> access \<Rightarrow> access \<times> nat" where
  "DeleteExpiredTokens c a =
     (let ids = map tk_accessor (filter (expired c) (map snd (ac_tokens a)))
      in (foldl (\<lambda>b i. delete_token i b) a ids, length ids))"

section \<open>Binding rules\<close>

definition checkBindingRule :: "binding_rule \<Rightarrow> audit \<Rightarrow> bool" where
  "checkBindingRule r who =
     (au_actor who \<noteq> [] \<and> br_method r \<noteq> [] \<and>
      (if br_type r = BindPolicy then br_bind_name r \<noteq> []
       else if br_type r = BindManagement then br_bind_name r = [] else False))"

text \<open>The constraint \<open>CHECK (auth_method IN ('oidc', 'basic'))\<close>.\<close>

definition rule_check :: "binding_rule \<Rightarrow> bool" where
  "rule_check r = (br_method r \<in> {''oidc'', ''basic''})"

definition BindingRule :: "string \<Rightarrow> access \<Rightarrow> store_error + binding_rule" where
  "BindingRule i a = (case find (\<lambda>r. br_id r = i) (ac_rules a) of
     None \<Rightarrow> Inl ErrNotFound | Some r \<Rightarrow> Inr r)"

text \<open>The columns an update of a rule sets.\<close>

definition put_rule :: "call \<Rightarrow> binding_rule \<Rightarrow> binding_rule \<Rightarrow> binding_rule" where
  "put_rule c r old = r\<lparr>br_id := br_id old, br_created_at := br_created_at old, br_modified_at := c_now c\<rparr>"

definition PutBindingRule ::
  "call \<Rightarrow> binding_rule \<Rightarrow> audit \<Rightarrow> access \<Rightarrow> store_error + (access \<times> binding_rule)" where
  "PutBindingRule c r who a =
     (if \<not> checkBindingRule r who then Inl ErrInvalid
      else bindE
        (if br_id r = [] then
           (if \<not> rule_check r \<or> list_ex (\<lambda>q. br_id q = c_new_id c) (ac_rules a) then Inl ErrConstraint
            else Inr (''create'', c_new_id c, ac_rules a @
              [r\<lparr>br_id := c_new_id c, br_created_at := c_now c, br_modified_at := c_now c\<rparr>]))
         else
           (if \<not> list_ex (\<lambda>q. br_id q = br_id r) (ac_rules a) then Inl ErrNotFound
            else if \<not> rule_check r then Inl ErrConstraint
            else Inr (''update'', br_id r, update_where (\<lambda>q. br_id q = br_id r) (put_rule c r) (ac_rules a))))
        (\<lambda>(action, i, rules).
           let b = insertChange c who action ''binding-rule'' i (a\<lparr>ac_rules := rules\<rparr>)
           in bindE (BindingRule i b) (\<lambda>saved. Inr (b, saved))))"

definition BindingRules :: "access \<Rightarrow> binding_rule list" where
  "BindingRules a = sort_key (\<lambda>r. (ts_key (br_created_at r), br_id r)) (ac_rules a)"

definition DeleteBindingRule :: "call \<Rightarrow> string \<Rightarrow> audit \<Rightarrow> access \<Rightarrow> store_error + access" where
  "DeleteBindingRule c i who a =
     (if au_actor who = [] then Inl ErrInvalid
      else if \<not> list_ex (\<lambda>r. br_id r = i) (ac_rules a) then Inl ErrNotFound
      else Inr (insertChange c who ''delete'' ''binding-rule'' i
          (a\<lparr>ac_rules := delete_where (\<lambda>r. br_id r = i) (ac_rules a)\<rparr>)))"

end
