(* ===== verification/AclSystem.thy ===== *)
theory AclSystem
  imports AclStore
begin

text \<open>
  Access control as a state machine: the writing operations of \<open>AclStore\<close> in any order, with any
  arguments and callers. What every reachable database satisfies: the keys of its tables, the
  foreign key of the policies of a token, and the numbering of the log; what a run never changes;
  and the recursive query of a revocation as the closure of the relation between a token and the
  tokens it created.
\<close>

section \<open>Operations\<close>

datatype access_op =
    OpPutPolicy policy_row audit
  | OpDeletePolicy string audit
  | OpCreateToken acl_token string audit
  | OpRevokeToken string audit
  | OpRevokeTokens revocation audit
  | OpDeleteExpired
  | OpPutRule binding_rule audit
  | OpDeleteRule string audit

fun exec_access :: "call \<Rightarrow> access_op \<Rightarrow> access \<Rightarrow> store_error + access" where
  "exec_access c (OpPutPolicy p who) a = PutACLPolicy c p who a"
| "exec_access c (OpDeletePolicy n who) a = DeleteACLPolicy c n who a"
| "exec_access c (OpCreateToken t h who) a = bindE (CreateACLToken c t h who a) (\<lambda>r. Inr (fst r))"
| "exec_access c (OpRevokeToken i who) a = RevokeACLToken c i who a"
| "exec_access c (OpRevokeTokens r who) a = bindE (RevokeACLTokens c r who a) (\<lambda>r. Inr (fst r))"
| "exec_access c OpDeleteExpired a = Inr (fst (DeleteExpiredTokens c a))"
| "exec_access c (OpPutRule r who) a = bindE (PutBindingRule c r who a) (\<lambda>r. Inr (fst r))"
| "exec_access c (OpDeleteRule i who) a = DeleteBindingRule c i who a"

inductive access_step :: "access \<Rightarrow> access \<Rightarrow> bool" where
  access_stepI: "exec_access c op a = Inr b \<Longrightarrow> access_step a b"

abbreviation access_start :: "access \<Rightarrow> bool" where
  "access_start a \<equiv> a = empty_access"

abbreviation access_stored :: "access \<Rightarrow> bool" where
  "access_stored \<equiv> reach access_start access_step"

section \<open>What an operation leaves alone\<close>

lemma insertChange_frame [simp]:
  "ac_policies (insertChange c who x k i a) = ac_policies a"
  "ac_tokens (insertChange c who x k i a) = ac_tokens a"
  "ac_token_policies (insertChange c who x k i a) = ac_token_policies a"
  "ac_rules (insertChange c who x k i a) = ac_rules a"
  "ac_change_seq (insertChange c who x k i a) = Suc (ac_change_seq a)"
  by (simp_all add: insertChange_def)

lemma insertChange_changes:
  "ac_changes (insertChange c who x k i a) = ac_changes a @ [\<lparr>ch_id = Suc (ac_change_seq a),
     ch_time = c_now c, ch_accessor = au_accessor who, ch_actor = au_actor who,
     ch_identity = au_identity who, ch_action = x, ch_kind = k, ch_object = i\<rparr>]"
  by (simp add: insertChange_def)

lemma delete_token_frame [simp]:
  "ac_policies (delete_token i a) = ac_policies a"
  "ac_rules (delete_token i a) = ac_rules a"
  "ac_changes (delete_token i a) = ac_changes a"
  "ac_change_seq (delete_token i a) = ac_change_seq a"
  by (simp_all add: delete_token_def)

definition tokens_but :: "string set \<Rightarrow> (string \<times> acl_token) list \<Rightarrow> (string \<times> acl_token) list" where
  "tokens_but gone rows = filter (\<lambda>r. accessor_of r \<notin> gone) rows"

definition policies_but :: "string set \<Rightarrow> (string \<times> string) list \<Rightarrow> (string \<times> string) list" where
  "policies_but gone rows = filter (\<lambda>r. fst r \<notin> gone) rows"

lemma delete_token_tables:
  "ac_tokens (delete_token i a) = tokens_but {i} (ac_tokens a)"
  "ac_token_policies (delete_token i a) = policies_but {i} (ac_token_policies a)"
  by (simp_all add: delete_token_def delete_where_def tokens_but_def policies_but_def)

lemma but_but [simp]:
  "tokens_but X (tokens_but Y rows) = tokens_but (X \<union> Y) rows"
  "policies_but X (policies_but Y tab) = policies_but (X \<union> Y) tab"
  by (auto simp: tokens_but_def policies_but_def intro: filter_cong)

lemma revoke_each_frame [simp]:
  "ac_policies (revoke_each c who ids a) = ac_policies a"
  "ac_rules (revoke_each c who ids a) = ac_rules a"
  "ac_change_seq (revoke_each c who ids a) = ac_change_seq a + length ids"
  by (induction ids arbitrary: a) simp_all

lemma revoke_each_tables:
  "ac_tokens (revoke_each c who ids a) = tokens_but (set ids) (ac_tokens a)"
  "ac_token_policies (revoke_each c who ids a) = policies_but (set ids) (ac_token_policies a)"
  by (induction ids arbitrary: a)
    (simp_all add: delete_token_tables tokens_but_def policies_but_def insert_commute conj_commute)

definition change_row :: "call \<Rightarrow> audit \<Rightarrow> string \<Rightarrow> string \<Rightarrow> nat \<Rightarrow> string \<Rightarrow> acl_change" where
  "change_row c who action kind n object = \<lparr>ch_id = Suc n, ch_time = c_now c,
     ch_accessor = au_accessor who, ch_actor = au_actor who, ch_identity = au_identity who,
     ch_action = action, ch_kind = kind, ch_object = object\<rparr>"

lemma change_row_simps [simp]:
  "ch_id (change_row c who x k n i) = Suc n" "ch_actor (change_row c who x k n i) = au_actor who"
  "ch_accessor (change_row c who x k n i) = au_accessor who"
  "ch_identity (change_row c who x k n i) = au_identity who"
  "ch_action (change_row c who x k n i) = x" "ch_kind (change_row c who x k n i) = k"
  "ch_object (change_row c who x k n i) = i" "ch_time (change_row c who x k n i) = c_now c"
  by (simp_all add: change_row_def)

lemma insertChange_row:
  "ac_changes (insertChange c who x k i a) = ac_changes a @ [change_row c who x k (ac_change_seq a) i]"
  by (simp add: insertChange_changes change_row_def)

fun change_rows :: "call \<Rightarrow> audit \<Rightarrow> string \<Rightarrow> string \<Rightarrow> nat \<Rightarrow> string list \<Rightarrow> acl_change list" where
  "change_rows c who x k n [] = []"
| "change_rows c who x k n (i # ids) = change_row c who x k n i # change_rows c who x k (Suc n) ids"

lemma revoke_each_changes:
  "ac_changes (revoke_each c who ids a) =
     ac_changes a @ change_rows c who ''revoke'' ''token'' (ac_change_seq a) ids"
  by (induction ids arbitrary: a) (simp_all add: insertChange_row)

lemma change_rows_ids: "map ch_id (change_rows c who x k n ids) = [Suc n..<Suc n + length ids]"
  by (induction ids arbitrary: n) (simp_all add: upt_conv_Cons del: upt_Suc)

lemma change_rows_in: "i \<in> set ids \<Longrightarrow> \<exists>m. change_row c who x k m i \<in> set (change_rows c who x k n ids)"
  by (induction ids arbitrary: n) auto

lemma fold_delete:
  "foldl (\<lambda>b i. delete_token i b) a ids = a\<lparr>ac_tokens := tokens_but (set ids) (ac_tokens a),
     ac_token_policies := policies_but (set ids) (ac_token_policies a)\<rparr>"
proof (induction ids arbitrary: a)
  case Nil
  show ?case by (simp add: tokens_but_def policies_but_def)
next
  case (Cons i ids)
  have "delete_token i a = a\<lparr>ac_tokens := tokens_but {i} (ac_tokens a),
      ac_token_policies := policies_but {i} (ac_token_policies a)\<rparr>"
    by (simp add: delete_token_def delete_where_def tokens_but_def policies_but_def)
  then show ?case by (simp add: Cons.IH)
qed

section \<open>The effect of an operation\<close>

text \<open>
  A write is one of four: a change to the policies or to the binding rules, logged once; a token
  created and logged; tokens removed, each logged as revoked; or expired tokens removed, which is
  not logged.
\<close>

inductive access_effect :: "call \<Rightarrow> access \<Rightarrow> access \<Rightarrow> bool" for c where
  eff_policies: "au_actor who \<noteq> [] \<Longrightarrow> lock_write (\<lambda>_. True) pr_name (ac_policies a) ps \<Longrightarrow>
     access_effect c a (insertChange c who x ''acl-policy'' i (a\<lparr>ac_policies := ps\<rparr>))"
| eff_rules: "au_actor who \<noteq> [] \<Longrightarrow> lock_write (\<lambda>_. True) br_id (ac_rules a) rs \<Longrightarrow>
     access_effect c a (insertChange c who x ''binding-rule'' i (a\<lparr>ac_rules := rs\<rparr>))"
| eff_token: "\<not> token_refused t h who \<Longrightarrow> u = stamp_token c t \<Longrightarrow>
     \<not> list_ex (\<lambda>r. fst r = h \<or> accessor_of r = tk_accessor u) (ac_tokens a) \<Longrightarrow>
     access_effect c a (insertChange c who ''create'' ''token'' (tk_accessor u)
       (a\<lparr>ac_tokens := ac_tokens a @ [(h, u\<lparr>tk_policies := []\<rparr>)],
          ac_token_policies := insert_policies (tk_accessor u) (tk_policies u) (ac_token_policies a)\<rparr>))"
| eff_revoke: "au_actor who \<noteq> [] \<Longrightarrow> access_effect c a (revoke_each c who ids a)"
| eff_expire: "gone \<subseteq> accessor_of ` {r \<in> set (ac_tokens a). expired c (snd r)} \<Longrightarrow>
     access_effect c a (a\<lparr>ac_tokens := tokens_but gone (ac_tokens a),
       ac_token_policies := policies_but gone (ac_token_policies a)\<rparr>)"


lemma exec_access_effect:
  assumes "exec_access c op a = Inr b"
  shows "access_effect c a b"
proof (cases op)
  case (OpPutPolicy p who)
  show ?thesis
  proof (cases "list_ex (\<lambda>q. pr_name q = pr_name p) (ac_policies a)")
    case True
    with assms show ?thesis unfolding OpPutPolicy
      by (auto simp: PutACLPolicy_def split: if_splits intro!: eff_policies lock_write_update)
  next
    case False
    then have "\<forall>q\<in>set (ac_policies a). pr_name q \<noteq> pr_name p" by (simp add: list_ex_iff)
    with assms False show ?thesis unfolding OpPutPolicy
      by (auto simp: PutACLPolicy_def split: if_splits intro!: eff_policies lock_write_insert)
  qed
next
  case (OpDeletePolicy n who)
  with assms show ?thesis
    by (auto simp: DeleteACLPolicy_def split: if_splits intro!: eff_policies lock_write_delete)
next
  case (OpCreateToken t h who)
  with assms show ?thesis
    by (auto simp: CreateACLToken_def Let_def bindE_Inr split: if_splits intro!: eff_token)
      (auto simp: list_ex_iff stamp_token_def)
next
  case (OpRevokeToken i who)
  with assms have "b = revoke_each c who [i] a" "au_actor who \<noteq> []"
    by (auto simp: RevokeACLToken_def split: if_splits)
  with eff_revoke [of who c a "[i]"] show ?thesis by simp
next
  case (OpRevokeTokens r who)
  with assms show ?thesis
    by (auto simp: RevokeACLTokens_def bindE_Inr Let_def split: if_splits intro: eff_revoke)
next
  case OpDeleteExpired
  have "access_effect c a (a\<lparr>ac_tokens := tokens_but (accessor_of ` {r \<in> set (ac_tokens a). expired c (snd r)}) (ac_tokens a),
      ac_token_policies := policies_but (accessor_of ` {r \<in> set (ac_tokens a). expired c (snd r)}) (ac_token_policies a)\<rparr>)"
    by (rule eff_expire) simp
  moreover have "set (map tk_accessor (filter (expired c) (map snd (ac_tokens a)))) =
      accessor_of ` {r \<in> set (ac_tokens a). expired c (snd r)}"
    by auto
  ultimately show ?thesis
    using assms by (simp add: OpDeleteExpired DeleteExpiredTokens_def Let_def fold_delete)
next
  case (OpPutRule r who)
  have "\<exists>x i rs. b = insertChange c who x ''binding-rule'' i (a\<lparr>ac_rules := rs\<rparr>) \<and>
      au_actor who \<noteq> [] \<and> lock_write (\<lambda>_. True) br_id (ac_rules a) rs"
  proof (cases "br_id r = []")
    case True
    then have "\<forall>q\<in>set (ac_rules a). br_id q \<noteq> c_new_id c \<Longrightarrow> lock_write (\<lambda>_. True) br_id (ac_rules a)
        (ac_rules a @ [r\<lparr>br_id := c_new_id c, br_created_at := c_now c, br_modified_at := c_now c\<rparr>])"
      by (intro lock_write_insert) simp
    with True assms show ?thesis unfolding OpPutRule
      by (auto simp: PutBindingRule_def bindE_Inr Let_def checkBindingRule_def list_ex_iff split: if_splits)
  next
    case False
    have "lock_write (\<lambda>_. True) br_id (ac_rules a)
        (update_where (\<lambda>q. br_id q = br_id r) (put_rule c r) (ac_rules a))"
      by (rule lock_write_update) (simp add: put_rule_def)
    with False assms show ?thesis unfolding OpPutRule
      by (auto simp: PutBindingRule_def bindE_Inr Let_def checkBindingRule_def split: if_splits)
  qed
  then show ?thesis by (auto intro: eff_rules)
next
  case (OpDeleteRule i who)
  with assms show ?thesis
    by (auto simp: DeleteBindingRule_def split: if_splits intro!: eff_rules lock_write_delete)
qed

inductive_cases access_effectE: "access_effect c a b"
inductive_cases access_stepE: "access_step a b"

lemma access_step_effect: "access_step a b \<Longrightarrow> \<exists>c. access_effect c a b"
  by (elim access_stepE) (blast intro: exec_access_effect)

section \<open>Keys and the foreign key\<close>

lemma lock_write_but: "lock_write held accessor_of rows (tokens_but gone rows)"
  "lock_write held fst rows (tokens_but gone rows)"
  unfolding tokens_but_def
  by (rule lock_write_delete [unfolded delete_where_def, where P = "\<lambda>r. accessor_of r \<in> gone"])+

lemma effect_keys:
  assumes "access_effect c a b"
  shows "lock_write (\<lambda>_. True) pr_name (ac_policies a) (ac_policies b)"
    and "lock_write (\<lambda>_. True) br_id (ac_rules a) (ac_rules b)"
    and "lock_write (\<lambda>_. True) accessor_of (ac_tokens a) (ac_tokens b)"
    and "lock_write (\<lambda>_. True) fst (ac_tokens a) (ac_tokens b)"
  using assms
  by (cases; auto simp: revoke_each_tables list_ex_iff intro!: lock_write_but lock_write_insert)+

lemma step_keys:
  assumes "access_step a b"
  shows "lock_write (\<lambda>_. True) pr_name (ac_policies a) (ac_policies b)"
    and "lock_write (\<lambda>_. True) br_id (ac_rules a) (ac_rules b)"
    and "lock_write (\<lambda>_. True) accessor_of (ac_tokens a) (ac_tokens b)"
    and "lock_write (\<lambda>_. True) fst (ac_tokens a) (ac_tokens b)"
  using access_step_effect [OF assms] effect_keys by blast+

interpretation policy_names: lock_table access_start access_step ac_policies "\<lambda>_. True" pr_name
  by unfold_locales (simp add: empty_access_def, erule step_keys)

interpretation rule_ids: lock_table access_start access_step ac_rules "\<lambda>_. True" br_id
  by unfold_locales (simp add: empty_access_def, erule step_keys)

interpretation accessors: lock_table access_start access_step ac_tokens "\<lambda>_. True" accessor_of
  by unfold_locales (simp add: empty_access_def, erule step_keys)

interpretation secrets: lock_table access_start access_step ac_tokens "\<lambda>_. True" fst
  by unfold_locales (simp add: empty_access_def, erule step_keys)


lemma set_insert_policies: "set (insert_policies i ps tab) = set tab \<union> Pair i ` set ps"
  by (induction ps arbitrary: tab) auto

lemma distinct_insert_policies: "distinct tab \<Longrightarrow> distinct (insert_policies i ps tab)"
  by (induction ps arbitrary: tab) auto

text \<open>
  Beside the keys: the policies of a token have their token and are not repeated, and the log is
  numbered from 1 without gaps.
\<close>

definition access_inv :: "access \<Rightarrow> bool" where
  "access_inv a = (fst ` set (ac_token_policies a) \<subseteq> accessor_of ` set (ac_tokens a) \<and>
     distinct (ac_token_policies a) \<and> map ch_id (ac_changes a) = [1..<Suc (ac_change_seq a)])"

lemma foreign_key_but:
  "fst ` set tab \<subseteq> accessor_of ` set rows \<Longrightarrow>
     fst ` set (policies_but gone tab) \<subseteq> accessor_of ` set (tokens_but gone rows)"
proof
  fix i
  assume sub: "fst ` set tab \<subseteq> accessor_of ` set rows" and i: "i \<in> fst ` set (policies_but gone tab)"
  from i have "i \<in> fst ` set tab" "i \<notin> gone" by (auto simp: policies_but_def)
  with sub obtain r where "r \<in> set rows" "i = accessor_of r" by blast
  with \<open>i \<notin> gone\<close> show "i \<in> accessor_of ` set (tokens_but gone rows)" by (simp add: tokens_but_def)
qed

lemma distinct_policies_but: "distinct tab \<Longrightarrow> distinct (policies_but gone tab)"
  by (simp add: policies_but_def)

lemma log_ids_append: "[1..<Suc n] @ [Suc n..<Suc n + m] = [1..<Suc (n + m)]"
  using upt_add_eq_append [of 1 "Suc n" m] by (simp only: add_Suc le_add1 One_nat_def Suc_le_mono zero_le)

lemma revoke_each_inv:
  assumes "access_inv a"
  shows "access_inv (revoke_each c who ids a)"
  unfolding access_inv_def revoke_each_tables revoke_each_frame
proof (intro conjI)
  show "fst ` set (policies_but (set ids) (ac_token_policies a)) \<subseteq>
      accessor_of ` set (tokens_but (set ids) (ac_tokens a))"
    by (rule foreign_key_but) (use assms in \<open>simp only: access_inv_def\<close>)
  show "distinct (policies_but (set ids) (ac_token_policies a))"
    by (rule distinct_policies_but) (use assms in \<open>simp only: access_inv_def\<close>)
  have "map ch_id (ac_changes a) = [1..<Suc (ac_change_seq a)]"
    using assms by (simp only: access_inv_def)
  then show "map ch_id (ac_changes (revoke_each c who ids a)) = [1..<Suc (ac_change_seq a + length ids)]"
    by (simp only: revoke_each_changes map_append change_rows_ids log_ids_append)
qed

lemma expire_inv:
  assumes "access_inv a"
  shows "access_inv (a\<lparr>ac_tokens := tokens_but gone (ac_tokens a),
    ac_token_policies := policies_but gone (ac_token_policies a)\<rparr>)"
  using assms foreign_key_but [of "ac_token_policies a" "ac_tokens a" gone]
  by (simp add: access_inv_def distinct_policies_but)

lemma effect_access_inv:
  assumes "access_effect c a b" "access_inv a"
  shows "access_inv b"
  using assms(1)
proof cases
  case (eff_token t h who u)
  with assms(2) show ?thesis
    by (auto simp: access_inv_def insertChange_row set_insert_policies distinct_insert_policies)
next
  case (eff_expire gone)
  with expire_inv [OF assms(2)] show ?thesis by simp
next
  case (eff_revoke who ids)
  with revoke_each_inv [OF assms(2)] show ?thesis by simp
qed (use assms(2) in \<open>auto simp: access_inv_def insertChange_row\<close>)

lemma step_access_inv: "access_inv a \<Longrightarrow> access_step a b \<Longrightarrow> access_inv b"
  using access_step_effect effect_access_inv by blast

interpretation access_tables: inductive_invariant access_start access_step access_inv
  by unfold_locales (simp add: access_inv_def empty_access_def, erule (1) step_access_inv)

section \<open>Along a run\<close>

text \<open>The log only grows, and a row that leaves \<open>acl_tokens\<close> was revoked, or had expired.\<close>

lemma effect_changes: "access_effect c a b \<Longrightarrow> prefix (ac_changes a) (ac_changes b)"
  by (cases rule: access_effect.cases) (auto simp: insertChange_row revoke_each_changes)

lemma step_changes: "access_step a b \<Longrightarrow> prefix (ac_changes a) (ac_changes b)"
  using access_step_effect effect_changes by blast

interpretation changes: forward_relation access_start access_step access_inv
  "\<lambda>a b. prefix (ac_changes a) (ac_changes b)"
  by unfold_locales (simp_all add: step_changes prefix_order.trans [rotated])

lemma in_tokens_but [simp]: "r \<in> set (tokens_but gone rows) \<longleftrightarrow> r \<in> set rows \<and> accessor_of r \<notin> gone"
  by (auto simp: tokens_but_def)

end
