(* ===== verification/AclProperties.thy ===== *)
theory AclProperties
  imports AclSystem
begin

text \<open>
  The properties of the store of access control: which token a secret finds, what a revocation
  takes, what the log of changes holds, and where a revocation falls short.
\<close>

section \<open>The closure of creation\<close>

definition created_by :: "acl_token list \<Rightarrow> (string \<times> string) set" where
  "created_by rows = {(tk_creator_accessor t, tk_accessor t) | t. t \<in> set rows}"

lemma created_ids_iff: "j \<in> set (created_ids rows i) \<longleftrightarrow> (i, j) \<in> created_by rows"
  by (auto simp: created_ids_def created_by_def)

text \<open>
  Between the rounds: everything found or queued comes from the seeds, and what a found token
  created is found or queued.
\<close>

lemma taken_loop_sound:
  "i \<in> set (taken_loop rows found queue) \<Longrightarrow>
     \<exists>s\<in>set found \<union> set queue. (s, i) \<in> (created_by rows)\<^sup>*"
proof (induction rows found queue rule: taken_loop.induct)
  case (2 rows found j queue)
  from "2.IH" "2.prems" obtain s where
    s: "s \<in> set (found @ [j]) \<union> set (queue @ fresh_ids rows found (j # queue) j)"
      "(s, i) \<in> (created_by rows)\<^sup>*" by auto
  show ?case
  proof (cases "s \<in> set (fresh_ids rows found (j # queue) j)")
    case True
    then have "(j, s) \<in> created_by rows" by (auto simp: fresh_ids_def created_ids_iff)
    with s(2) show ?thesis by (auto intro: converse_rtrancl_into_rtrancl)
  next
    case False
    with s show ?thesis by auto
  qed
qed auto

lemma taken_loop_contains: "set found \<union> set queue \<subseteq> set (taken_loop rows found queue)"
proof (induction rows found queue rule: taken_loop.induct)
  case (2 rows found j queue)
  then show ?case by auto
qed simp

lemma taken_loop_closed:
  "(\<And>i j. i \<in> set found \<Longrightarrow> (i, j) \<in> created_by rows \<Longrightarrow> j \<in> set found \<union> set queue) \<Longrightarrow>
     i \<in> set (taken_loop rows found queue) \<Longrightarrow> (i, j) \<in> created_by rows \<Longrightarrow>
     j \<in> set (taken_loop rows found queue)"
proof (induction rows found queue rule: taken_loop.induct)
  case (2 rows found k queue)
  show ?case unfolding taken_loop.simps
  proof (rule "2.IH" [OF _ "2.prems"(2) [unfolded taken_loop.simps] "2.prems"(3)])
    fix x y assume xy: "x \<in> set (found @ [k])" "(x, y) \<in> created_by rows"
    show "y \<in> set (found @ [k]) \<union> set (queue @ fresh_ids rows found (k # queue) k)"
    proof (cases "x = k")
      case True
      with xy(2) show ?thesis by (auto simp: fresh_ids_def created_ids_iff)
    next
      case False
      with xy "2.prems"(1) [of x y] show ?thesis by auto
    qed
  qed
qed simp

lemma taken_closure:
  "set (taken r rows) = {i. \<exists>s\<in>set (seeds r rows). (s, i) \<in> (created_by rows)\<^sup>*}"
proof (intro set_eqI iffI)
  fix i assume "i \<in> set (taken r rows)"
  then show "i \<in> {i. \<exists>s\<in>set (seeds r rows). (s, i) \<in> (created_by rows)\<^sup>*}"
    by (auto simp: taken_def dest!: taken_loop_sound)
next
  fix i assume "i \<in> {i. \<exists>s\<in>set (seeds r rows). (s, i) \<in> (created_by rows)\<^sup>*}"
  then obtain s where s: "s \<in> set (seeds r rows)" "(s, i) \<in> (created_by rows)\<^sup>*" by blast
  from s(2) show "i \<in> set (taken r rows)"
  proof (induction rule: rtrancl_induct)
    case base
    with s(1) show ?case using taken_loop_contains [of "[]"] by (force simp: taken_def)
  next
    case (step j k)
    then show ?case unfolding taken_def by (rule_tac taken_loop_closed) simp_all
  qed
qed

text \<open>
  The recursive query of a revocation ends, and it finds exactly the tokens reached
  from the seeds by creation: the tokens the person or the token created, the ones those created,
  and so on, whether the tokens in between have expired or not.
\<close>

theorem taken_is_closure:
  "set (taken r rows) = {i. \<exists>s\<in>set (seeds r rows). (s, i) \<in> (created_by rows)\<^sup>*}"
  by (rule taken_closure)

section \<open>The token of a secret\<close>

lemma ACLTokenBySecret_Inr:
  "ACLTokenBySecret c h acl a = Inr t \<Longrightarrow>
     \<exists>r\<in>set (ac_tokens a). fst r = h \<and> tk_acl (snd r) = acl \<and> \<not> expired c (snd r) \<and> t = load_policies a (snd r)"
  by (auto simp: ACLTokenBySecret_def split: option.splits if_splits dest: find_SomeD)

lemma ACLTokenBySecret_none: "h \<notin> fst ` set (ac_tokens a) \<Longrightarrow> ACLTokenBySecret c h acl a = Inl ErrNotFound"
  by (auto simp: ACLTokenBySecret_def split: option.splits dest!: find_SomeD)

lemma ACLTokenBySecret_error: "ACLTokenBySecret c h acl a = Inl e \<Longrightarrow> e = ErrNotFound"
  by (auto simp: ACLTokenBySecret_def split: option.splits if_splits)

lemma secret_row:
  assumes "access_stored a" "(h, t) \<in> set (ac_tokens a)"
  shows "find (\<lambda>r. fst r = h) (ac_tokens a) = Some (h, t)"
proof -
  have "distinct (map fst (ac_tokens a))"
    using secrets.inv.reach_inv [OF assms(1)] by (simp add: unique_held_def)
  from find_map_of [OF this assms(2)] show ?thesis by simp
qed

lemma secret_authenticates:
  assumes "access_stored a"
  shows "ACLTokenBySecret c h acl a = Inr t \<longleftrightarrow>
    (\<exists>row. (h, row) \<in> set (ac_tokens a) \<and> tk_acl row = acl \<and> \<not> expired c row \<and>
       t = load_policies a row)"
proof
  assume "ACLTokenBySecret c h acl a = Inr t"
  from ACLTokenBySecret_Inr [OF this] show "\<exists>row. (h, row) \<in> set (ac_tokens a) \<and> tk_acl row = acl \<and>
      \<not> expired c row \<and> t = load_policies a row"
    by (metis prod.collapse)
next
  assume "\<exists>row. (h, row) \<in> set (ac_tokens a) \<and> tk_acl row = acl \<and> \<not> expired c row \<and>
      t = load_policies a row"
  then show "ACLTokenBySecret c h acl a = Inr t"
    by (auto simp: ACLTokenBySecret_def secret_row [OF assms])
qed


text \<open>
  Claim C17. A secret authenticates, in every reachable database, exactly when a token with its
  hash exists that was made in the mode the ACL is in now and has not expired; the answer is that
  token with the names of its policies, sorted and without repeats.
\<close>

theorem authenticates_iff:
  assumes "access_stored a"
  shows "ACLTokenBySecret c h acl a = Inr t \<longleftrightarrow>
    (\<exists>row. (h, row) \<in> set (ac_tokens a) \<and> tk_acl row = acl \<and> \<not> expired c row \<and>
       t = load_policies a row)"
  by (rule secret_authenticates [OF assms])

section \<open>A token from its creation on\<close>

lemma sort_remdups_policies:
  assumes "fst ` set tab \<subseteq> X" "i \<notin> X" "distinct tab"
  shows "sort (map snd (filter (\<lambda>r. fst r = i) (insert_policies i ps tab))) = sort (remdups ps)"
proof (rule sorted_distinct_set_unique)
  have "distinct (insert_policies i ps tab)" by (rule distinct_insert_policies [OF assms(3)])
  then show "distinct (sort (map snd (filter (\<lambda>r. fst r = i) (insert_policies i ps tab))))"
    by (auto simp: distinct_map inj_on_def)
  have "(i, p) \<notin> set tab" for p using assms(1,2) by (force simp: image_subset_iff)
  then show "set (sort (map snd (filter (\<lambda>r. fst r = i) (insert_policies i ps tab)))) = set (sort (remdups ps))"
    by (auto simp: set_insert_policies image_iff)
qed simp_all

lemma created_token_found:
  assumes "access_stored a" "CreateACLToken c t h who a = Inr (b, u)" "\<not> expired c' t"
  shows "ACLTokenBySecret c' h (tk_acl t) b = Inr (stamp_token c t\<lparr>tk_policies := sort (remdups (tk_policies t))\<rparr>)"
proof -
  from assms(2) have new: "\<not> list_ex (\<lambda>r. fst r = h \<or> accessor_of r = c_new_id c) (ac_tokens a)"
    and b: "b = insertChange c who ''create'' ''token'' (c_new_id c)
      (a\<lparr>ac_tokens := ac_tokens a @ [(h, stamp_token c t\<lparr>tk_policies := []\<rparr>)],
         ac_token_policies := insert_policies (c_new_id c) (tk_policies t) (ac_token_policies a)\<rparr>)"
    by (auto simp: CreateACLToken_def Let_def stamp_token_def split: if_splits)
  have "find (\<lambda>r. fst r = h) (ac_tokens a) = None"
    using new by (auto simp: find_None_iff_all list_ex_iff)
  then have "find (\<lambda>r. fst r = h) (ac_tokens b) = Some (h, stamp_token c t\<lparr>tk_policies := []\<rparr>)"
    by (simp add: b find_append)
  moreover have "c_new_id c \<notin> accessor_of ` set (ac_tokens a)"
    using new by (auto simp: list_ex_iff)
  with access_tables.reach_inv [OF assms(1)] have
    "sort (map snd (filter (\<lambda>r. fst r = c_new_id c)
       (insert_policies (c_new_id c) (tk_policies t) (ac_token_policies a)))) = sort (remdups (tk_policies t))"
    by (intro sort_remdups_policies) (auto simp: access_inv_def)
  then have "load_policies b (stamp_token c t\<lparr>tk_policies := []\<rparr>) =
      stamp_token c t\<lparr>tk_policies := sort (remdups (tk_policies t))\<rparr>"
    by (simp add: load_policies_def b stamp_token_def)
  ultimately show ?thesis
    using assms(3) by (simp add: ACLTokenBySecret_def stamp_token_def expired_def)
qed

text \<open>
  A token that was created is found by its secret until it expires, as it was made: the
  name, type, origin, creator and expiry given to it, a new accessor ID, the clock's time, and its
  policies sorted and without repeats.
\<close>

theorem token_round_trip:
  assumes "access_stored a" "CreateACLToken c t h who a = Inr (b, u)" "\<not> expired c' t"
  shows "ACLTokenBySecret c' h (tk_acl t) b = Inr (stamp_token c t\<lparr>tk_policies := sort (remdups (tk_policies t))\<rparr>)"
  by (rule created_token_found [OF assms])

text \<open>What a step adds to the log.\<close>

definition new_changes :: "access \<Rightarrow> access \<Rightarrow> acl_change list" where
  "new_changes a b = drop (length (ac_changes a)) (ac_changes b)"

definition logged :: "string \<Rightarrow> string \<Rightarrow> acl_change list \<Rightarrow> bool" where
  "logged action i es = list_ex (\<lambda>e. ch_action e = action \<and> ch_kind e = ''token'' \<and>
     ch_object e = i \<and> ch_actor e \<noteq> []) es"

lemma new_changes_insert [simp]:
  "ac_changes a' = ac_changes a \<Longrightarrow>
     new_changes a (insertChange c who x k i a') = [change_row c who x k (ac_change_seq a') i]"
  by (simp add: new_changes_def insertChange_row)

lemma new_changes_revoke [simp]:
  "new_changes a (revoke_each c who ids a) = change_rows c who ''revoke'' ''token'' (ac_change_seq a) ids"
  by (simp add: new_changes_def revoke_each_changes)

lemma effect_token_leaves:
  assumes "access_effect c a b" "row \<in> set (ac_tokens a)" "row \<notin> set (ac_tokens b)"
    "unique_held (\<lambda>_. True) accessor_of (ac_tokens a)"
  shows "expired c (snd row) \<or> logged ''revoke'' (accessor_of row) (new_changes a b)"
  using assms(1)
proof cases
  case (eff_revoke who ids)
  with assms(2,3) have "accessor_of row \<in> set ids" by (simp add: revoke_each_tables)
  from change_rows_in [OF this] obtain m where
    "change_row c who ''revoke'' ''token'' m (accessor_of row) \<in>
       set (change_rows c who ''revoke'' ''token'' (ac_change_seq a) ids)" by blast
  then show ?thesis using eff_revoke
    by (auto simp: logged_def list_ex_iff intro!: bexI)
next
  case (eff_expire gone)
  with assms(2,3) obtain r where "r \<in> set (ac_tokens a)" "accessor_of r = accessor_of row" "expired c (snd r)"
    by auto
  moreover from this unique_heldD [OF assms(4) this(1) assms(2)] have "r = row" by simp
  ultimately show ?thesis by simp
qed (use assms(2,3) in auto)

lemma effect_token_enters:
  assumes "access_effect c a b" "row \<in> set (ac_tokens b)" "row \<notin> set (ac_tokens a)"
  shows "logged ''create'' (accessor_of row) (new_changes a b)"
  using assms(1)
proof cases
  case (eff_token t h who u)
  with assms(2,3) have "row = (h, u\<lparr>tk_policies := []\<rparr>)" by auto
  moreover have "au_actor who \<noteq> []" using eff_token by (simp add: token_refused_def)
  ultimately show ?thesis using eff_token by (simp add: logged_def)
qed (use assms(2,3) in \<open>auto simp: revoke_each_tables\<close>)

text \<open>
  The tokens change only by creation, revocation and expiry, and no row is ever edited:
  a row that an operation adds is logged as created and one that it removes had expired or is
  logged as revoked, under the name of who did it.
\<close>

theorem tokens_change_logged:
  assumes "access_stored a" "exec_access c op a = Inr b"
  shows "(row \<in> set (ac_tokens b) - set (ac_tokens a) \<longrightarrow>
            logged ''create'' (accessor_of row) (new_changes a b)) \<and>
    (row \<in> set (ac_tokens a) - set (ac_tokens b) \<longrightarrow>
            expired c (snd row) \<or> logged ''revoke'' (accessor_of row) (new_changes a b))"
  using effect_token_leaves [OF exec_access_effect [OF assms(2)] _ _ accessors.inv.reach_inv [OF assms(1)]]
    effect_token_enters [OF exec_access_effect [OF assms(2)]] by blast



lemma change_rows_meta:
  "e \<in> set (change_rows c who x k n ids) \<Longrightarrow> ch_actor e = au_actor who \<and> ch_time e = c_now c"
  by (induction ids arbitrary: n) auto

lemma change_rows_Nil [simp]: "change_rows c who x k n ids = [] \<longleftrightarrow> ids = []"
  by (cases ids) auto

lemma effect_logged:
  assumes "access_effect c a b"
  shows "(\<forall>e\<in>set (new_changes a b). ch_actor e \<noteq> [] \<and> ch_time e = c_now c) \<and>
    (new_changes a b = [] \<longrightarrow>
       b = a \<or> (\<exists>gone. b = a\<lparr>ac_tokens := tokens_but gone (ac_tokens a),
         ac_token_policies := policies_but gone (ac_token_policies a)\<rparr>))"
  using assms
proof cases
  case (eff_revoke who ids)
  then show ?thesis by (auto dest: change_rows_meta)
next
  case (eff_token t h who u)
  then have "au_actor who \<noteq> []" by (simp add: token_refused_def)
  with eff_token show ?thesis by simp
next
  case (eff_expire gone)
  then have "new_changes a b = []" by (simp add: new_changes_def)
  with eff_expire show ?thesis by auto
qed auto

lemma exec_access_logged:
  assumes "exec_access c op a = Inr b" "op \<noteq> OpDeleteExpired" "new_changes a b = []"
  shows "b = a"
  using assms
  by (cases op)
    (auto simp: PutACLPolicy_def DeleteACLPolicy_def CreateACLToken_def RevokeACLToken_def
      RevokeACLTokens_def PutBindingRule_def DeleteBindingRule_def Let_def bindE_Inr split: if_splits)

text \<open>
  Every operation but the deletion of expired tokens that changes a table of access
  control writes to the log, in the same transaction, when and by whom it was changed; and the log
  is only appended to.
\<close>

theorem access_change_logged:
  assumes "exec_access c op a = Inr b" "op \<noteq> OpDeleteExpired"
  shows "ac_changes b = ac_changes a @ new_changes a b \<and>
    (\<forall>e\<in>set (new_changes a b). ch_actor e \<noteq> [] \<and> ch_time e = c_now c) \<and>
    (new_changes a b = [] \<longrightarrow> b = a)"
proof (intro conjI)
  show "ac_changes b = ac_changes a @ new_changes a b"
    using effect_changes [OF exec_access_effect [OF assms(1)]]
    by (auto simp: new_changes_def prefix_def)
qed (use effect_logged [OF exec_access_effect [OF assms(1)]] exec_access_logged [OF assms] in blast)+

section \<open>Revoked tokens\<close>

text \<open>A token in a later database that was not created since was there before.\<close>

lemma runs_token_old:
  assumes "runs access_step a d" "access_stored a" "row \<in> set (ac_tokens d)"
    "\<not> logged ''create'' (accessor_of row) (new_changes a d)"
  shows "row \<in> set (ac_tokens a)"
  using assms
proof (induction rule: runs.induct)
  case (runs_step a b d)
  obtain c where eff: "access_effect c b d" using access_step_effect [OF runs_step(2)] by blast
  have ab: "prefix (ac_changes a) (ac_changes b)"
    by (rule changes.runs_fwd [OF runs_step(1) access_tables.reach_inv [OF runs_step(4)]])
  moreover have "prefix (ac_changes b) (ac_changes d)" by (rule effect_changes [OF eff])
  ultimately have split: "new_changes a d = new_changes a b @ new_changes b d"
    by (auto simp: new_changes_def prefix_def)
  show ?case
  proof (cases "row \<in> set (ac_tokens b)")
    case True
    then show ?thesis using runs_step(3) [OF runs_step(4) True] runs_step(6)
      by (simp add: split logged_def)
  next
    case False
    from effect_token_enters [OF eff runs_step(5) False] runs_step(6) show ?thesis
      by (simp add: split logged_def)
  qed
qed

lemma load_policies_accessor [simp]: "tk_accessor (load_policies a t) = tk_accessor t"
  by (simp add: load_policies_def)

lemma authenticated_row:
  "ACLTokenBySecret c h acl a = Inr t \<Longrightarrow>
     \<exists>row\<in>set (ac_tokens a). accessor_of row = tk_accessor t \<and> \<not> expired c (snd row)"
  by (drule ACLTokenBySecret_Inr) (metis load_policies_accessor)

lemma revoked_for_good:
  assumes "access_stored a" "RevokeACLToken c i who a = Inr b" "runs access_step b d"
    "\<not> logged ''create'' i (new_changes b d)" "ACLTokenBySecret c' h acl d = Inr t"
  shows "tk_accessor t \<noteq> i"
proof
  assume i: "tk_accessor t = i"
  have step: "access_step a b"
    by (rule access_stepI [where op = "OpRevokeToken i who" and c = c]) (simp add: assms(2))
  from authenticated_row [OF assms(5)] obtain row where
    row: "row \<in> set (ac_tokens d)" "accessor_of row = i" by (auto simp: i)
  have "row \<in> set (ac_tokens b)"
    by (rule runs_token_old [OF assms(3) reach_step [OF assms(1) step] row(1)]) (simp add: row(2) assms(4))
  with row(2) assms(2) show False
    by (auto simp: RevokeACLToken_def delete_token_tables split: if_splits)
qed


text \<open>
  Claim C18. A revoked token never authenticates again: after its revocation, whatever happens
  next, no secret is answered with its accessor ID, unless a token is later created, and logged as
  created, under that same ID.
\<close>

theorem revoked_stays_revoked:
  assumes "access_stored a" "RevokeACLToken c i who a = Inr b" "runs access_step b d"
    "\<not> logged ''create'' i (new_changes b d)" "ACLTokenBySecret c' h acl d = Inr t"
  shows "tk_accessor t \<noteq> i"
  by (rule revoked_for_good [OF assms])

lemma queryTokens_accessors:
  "set (map tk_accessor (queryTokens c P a)) =
     {tk_accessor t | t. t \<in> snd ` set (ac_tokens a) \<and> P t \<and> \<not> expired c t}"
  by (auto simp: queryTokens_def image_iff)

lemma expired_later: "expired c t \<Longrightarrow> c_now c \<le> c_now c' \<Longrightarrow> expired c' t"
  by (auto simp: expired_def split: option.splits)

text \<open>
  Claim C19. A revocation in one action reaches every token it is for: after it, and whatever
  happens next, no session of the person, and no token reached by creation from one the person or
  the token created, authenticates, unless it is later created anew under the same ID.
\<close>

theorem revocation_reaches_all:
  assumes "access_stored a" "RevokeACLTokens c r who a = Inr (b, ids)" "runs access_step b d"
    "t0 \<in> snd ` set (ac_tokens a)"
    "(if sessions_of r \<noteq> [] then tk_origin t0 = OriginLogin \<and> tk_identity t0 = sessions_of r
      else \<exists>s\<in>set (seeds r (map snd (ac_tokens a))).
        (s, tk_accessor t0) \<in> (created_by (map snd (ac_tokens a)))\<^sup>*)"
    "\<not> logged ''create'' (tk_accessor t0) (new_changes b d)"
    "c_now c \<le> c_now c'" "ACLTokenBySecret c' h acl d = Inr t"
  shows "tk_accessor t \<noteq> tk_accessor t0"
proof
  assume i: "tk_accessor t = tk_accessor t0"
  from assms(2) have b: "b = revoke_each c who ids a"
    and ids: "ids = map tk_accessor (queryTokens c (revocation_selects r (map snd (ac_tokens a))) a)"
    by (auto simp: RevokeACLTokens_def TokensToRevoke_def Let_def bindE_Inr split: if_splits)
  have step: "access_step a b"
    by (rule access_stepI [where op = "OpRevokeTokens r who" and c = c]) (simp add: assms(2))
  from authenticated_row [OF assms(8)] obtain row where
    row: "row \<in> set (ac_tokens d)" "accessor_of row = tk_accessor t0" "\<not> expired c' (snd row)"
    by (auto simp: i)
  have "row \<in> set (ac_tokens b)"
    by (rule runs_token_old [OF assms(3) reach_step [OF assms(1) step] row(1)]) (simp add: row(2) assms(6))
  then have old: "row \<in> set (ac_tokens a)" "tk_accessor t0 \<notin> set ids"
    by (simp_all add: b revoke_each_tables row(2))
  obtain row0 where row0: "row0 \<in> set (ac_tokens a)" "snd row0 = t0" using assms(4) by auto
  have "row0 = row"
    by (rule accessors.one_holder [OF assms(1) row0(1) old(1)]) (simp_all add: row0(2) row(2))
  then have "\<not> expired c t0" using row(3) row0(2) expired_later assms(7) by blast
  moreover have "revocation_selects r (map snd (ac_tokens a)) t0"
    using assms(5) by (auto simp: revocation_selects_def taken_closure split: if_splits)
  ultimately have "tk_accessor t0 \<in> set ids"
    unfolding ids queryTokens_accessors using assms(4) by blast
  with old(2) show False by blast
qed

section \<open>A sample of tokens\<close>

text \<open>
  The bootstrap token makes a management token that expires at 100, and that one makes a token
  that never expires.
\<close>

definition at_time :: "time \<Rightarrow> string \<Rightarrow> call" where
  "at_time now i = \<lparr>c_now = now, c_new_id = i, c_accessor = [], c_identity = []\<rparr>"

definition made_by :: "string \<Rightarrow> string \<Rightarrow> time option \<Rightarrow> acl_token" where
  "made_by creator type expires = \<lparr>tk_accessor = [], tk_name = ''t'', tk_type = type, tk_policies = [],
     tk_acl = True, tk_origin = [], tk_identity = [], tk_created_at = 0, tk_expires_at = expires,
     tk_creator_accessor = creator, tk_creator_name = creator, tk_creator_identity = []\<rparr>"

definition by_name :: "string \<Rightarrow> audit" where
  "by_name actor = \<lparr>au_accessor = actor, au_actor = actor, au_identity = []\<rparr>"

definition of_bootstrap :: revocation where
  "of_bootstrap = \<lparr>sessions_of = [], rev_identity = [], rev_accessor = ''bootstrap''\<rparr>"

fun exec_all :: "(call \<times> access_op) list \<Rightarrow> access \<Rightarrow> store_error + access" where
  "exec_all [] a = Inr a"
| "exec_all ((c, op) # ops) a = bindE (exec_access c op a) (exec_all ops)"

definition sample_creations :: "(call \<times> access_op) list" where
  "sample_creations =
     [(at_time 1 ''A'', OpCreateToken (made_by ''bootstrap'' TokenManagement (Some 100)) ''ha'' (by_name ''bootstrap'')),
      (at_time 2 ''B'', OpCreateToken (made_by ''A'' TokenManagement None) ''hb'' (by_name ''t''))]"

lemma exec_all_runs: "exec_all ops a = Inr b \<Longrightarrow> runs access_step a b"
proof (induction ops arbitrary: a)
  case Nil
  then show ?case by (simp add: runs_refl)
next
  case (Cons cop ops)
  obtain c op where cop: "cop = (c, op)" by (cases cop)
  from Cons.prems obtain a' where a': "exec_access c op a = Inr a'" "exec_all ops a' = Inr b"
    by (auto simp: cop bindE_Inr)
  show ?case
    by (rule runs_trans [OF Cons.IH [OF a'(2)]]) (rule runs_single, rule access_stepI, rule a'(1))
qed

lemma exec_all_stored: "exec_all ops empty_access = Inr b \<Longrightarrow> access_stored b"
  by (rule reach_runs [OF reach_init exec_all_runs]) simp

definition tok_A :: acl_token where
  "tok_A = stamp_token (at_time 1 ''A'') (made_by ''bootstrap'' TokenManagement (Some 100))"

definition tok_B :: acl_token where
  "tok_B = stamp_token (at_time 2 ''B'') (made_by ''A'' TokenManagement None)"

lemma tok_simps [simp]:
  "tk_accessor tok_A = ''A''" "tk_accessor tok_B = ''B''" "tk_acl tok_A" "tk_acl tok_B"
  "tk_expires_at tok_A = Some 100" "tk_expires_at tok_B = None" "tk_policies tok_A = []"
  "tk_origin tok_A = OriginCreated" "tk_origin tok_B = OriginCreated"
  "tk_creator_accessor tok_A = ''bootstrap''" "tk_creator_accessor tok_B = ''A''"
  by (simp_all add: tok_A_def tok_B_def stamp_token_def made_by_def at_time_def)

definition sample_access :: access where
  "sample_access = \<lparr>ac_policies = [],
     ac_tokens = [(''ha'', tok_A),
       (''hb'', tok_B)],
     ac_token_policies = [], ac_rules = [],
     ac_changes = [change_row (at_time 1 ''A'') (by_name ''bootstrap'') ''create'' ''token'' 0 ''A'',
       change_row (at_time 2 ''B'') (by_name ''t'') ''create'' ''token'' 1 ''B''],
     ac_change_seq = 2\<rparr>"

lemma sample_access_made: "exec_all sample_creations empty_access = Inr sample_access"
  by (simp add: sample_creations_def empty_access_def CreateACLToken_def token_refused_def made_by_def
      by_name_def stamp_token_def at_time_def insertChange_row sample_access_def change_row_def
      insertChange_def Let_def tok_A_def tok_B_def)

lemma sample_access_stored: "access_stored sample_access"
  by (rule exec_all_stored [OF sample_access_made])

text \<open>
  Where the revocation falls short. While the token in between is there, the revocation of what
  the bootstrap token created takes both. Once it has expired and \<open>DeleteExpiredTokens\<close> has
  deleted its row, nothing links the other one to the bootstrap token: the revocation finds
  nothing, and the token goes on authenticating.
\<close>

lemma sample_tokens:
  "map snd (ac_tokens sample_access) =
     [tok_A,
      tok_B]"
  by (simp add: sample_access_def)

lemma sample_taken: "taken of_bootstrap (map snd (ac_tokens sample_access)) = [''A'', ''B'']"
  unfolding sample_tokens
  by (simp add: taken_def seeds_def of_bootstrap_def fresh_ids_def created_ids_def)

lemma at_time_simps [simp]: "c_now (at_time n i) = n" "c_new_id (at_time n i) = i"
  by (simp_all add: at_time_def)

lemma sample_expired:
  "fst (DeleteExpiredTokens (at_time 200 []) sample_access) = sample_access\<lparr>ac_tokens := [(''hb'', tok_B)]\<rparr>"
  by (simp add: DeleteExpiredTokens_def Let_def fold_delete sample_tokens expired_def
      tokens_but_def policies_but_def sample_access_def)

lemma sample_orphan_seeds: "taken of_bootstrap [tok_B] = []"
  by (simp add: taken_def seeds_def of_bootstrap_def)

lemma revocation_loses_orphans:
  "''B'' \<in> set (taken of_bootstrap (map snd (ac_tokens sample_access))) \<and>
   TokensToRevoke (at_time 200 []) of_bootstrap (fst (DeleteExpiredTokens (at_time 200 []) sample_access)) = Inr [] \<and>
   is_ok (ACLTokenBySecret (at_time 200 []) ''hb'' True (fst (DeleteExpiredTokens (at_time 200 []) sample_access)))"
proof (intro conjI)
  show "''B'' \<in> set (taken of_bootstrap (map snd (ac_tokens sample_access)))"
    by (simp add: sample_taken)
  show "TokensToRevoke (at_time 200 []) of_bootstrap (fst (DeleteExpiredTokens (at_time 200 []) sample_access)) = Inr []"
    unfolding sample_expired
    by (simp add: TokensToRevoke_def revocation_valid_def queryTokens_def revocation_selects_def sample_orphan_seeds)
      (simp add: of_bootstrap_def)
  show "is_ok (ACLTokenBySecret (at_time 200 []) ''hb'' True (fst (DeleteExpiredTokens (at_time 200 []) sample_access)))"
    unfolding sample_expired
    by (simp add: ACLTokenBySecret_def expired_def)
qed

section \<open>Witnesses\<close>

lemma sample_revoke:
  "RevokeACLToken (at_time 60 []) ''B'' (by_name ''admin'') sample_access =
     Inr (insertChange (at_time 60 []) (by_name ''admin'') ''revoke'' ''token'' ''B'' (delete_token ''B'' sample_access))"
  by (simp add: RevokeACLToken_def by_name_def sample_access_def)

text \<open>The state after B was revoked, by itself or as what A created: A still authenticates.\<close>

definition without_B :: access where
  "without_B = insertChange (at_time 60 []) (by_name ''admin'') ''revoke'' ''token'' ''B'' (delete_token ''B'' sample_access)"

lemma A_authenticates: "ACLTokenBySecret (at_time 70 []) ''ha'' True without_B = Inr tok_A"
proof -
  have "ac_tokens without_B = [(''ha'', tok_A)]" "ac_token_policies without_B = []"
    by (simp_all add: without_B_def delete_token_tables sample_access_def tokens_but_def policies_but_def)
  moreover have "tok_A\<lparr>tk_policies := []\<rparr> = tok_A"
    by (simp add: tok_A_def stamp_token_def made_by_def)
  ultimately show ?thesis
    by (simp add: ACLTokenBySecret_def expired_def load_policies_def)
qed

theorem authenticates_iff_witness:
  "ACLTokenBySecret (at_time 5 []) ''hb'' True sample_access = Inr (load_policies sample_access tok_B)"
  unfolding authenticates_iff [OF sample_access_stored]
  by (rule exI [of _ tok_B]) (simp add: sample_access_def expired_def)

theorem token_round_trip_witness:
  "ACLTokenBySecret (at_time 5 []) ''ha'' True
     (fst (projr (CreateACLToken (at_time 1 ''A'') (made_by ''bootstrap'' TokenManagement (Some 100)) ''ha''
        (by_name ''bootstrap'') empty_access))) =
   Inr (tok_A\<lparr>tk_policies := sort (remdups [])\<rparr>)"
proof -
  obtain b u where made: "CreateACLToken (at_time 1 ''A'') (made_by ''bootstrap'' TokenManagement (Some 100)) ''ha''
      (by_name ''bootstrap'') empty_access = Inr (b, u)"
    by (auto simp: CreateACLToken_def token_refused_def made_by_def by_name_def empty_access_def Let_def)
  have "tk_policies (made_by ''bootstrap'' TokenManagement (Some 100)) = []"
    "tk_acl (made_by ''bootstrap'' TokenManagement (Some 100))"
    "\<not> expired (at_time 5 []) (made_by ''bootstrap'' TokenManagement (Some 100))"
    by (simp_all add: made_by_def expired_def)
  with token_round_trip [OF reach_init made, of "at_time 5 []"] show ?thesis
    unfolding made sum.sel fst_conv tok_A_def by simp
qed

theorem tokens_change_logged_witness:
  "logged ''revoke'' ''B'' (new_changes sample_access without_B)"
  using tokens_change_logged [OF sample_access_stored, where op = "OpRevokeToken ''B'' (by_name ''admin'')"
      and c = "at_time 60 []" and row = "(''hb'', tok_B)" and b = without_B]
  by (simp add: sample_revoke without_B_def delete_token_tables)
    (simp add: sample_access_def expired_def)

theorem access_change_logged_witness: "ac_changes without_B \<noteq> ac_changes sample_access"
proof -
  have "exec_access (at_time 60 []) (OpRevokeToken ''B'' (by_name ''admin'')) sample_access = Inr without_B"
    by (simp add: sample_revoke without_B_def)
  from access_change_logged [OF this] show ?thesis by (simp add: without_B_def)
qed

theorem revoked_stays_revoked_witness: "tk_accessor tok_A \<noteq> ''B''"
  by (rule revoked_stays_revoked [OF sample_access_stored sample_revoke [folded without_B_def] runs_refl _
        A_authenticates]) (simp add: new_changes_def logged_def)

definition of_A :: revocation where
  "of_A = \<lparr>sessions_of = [], rev_identity = [], rev_accessor = ''A''\<rparr>"

lemma sample_revoke_all:
  "RevokeACLTokens (at_time 60 []) of_A (by_name ''admin'') sample_access = Inr (without_B, [''B''])"
proof -
  have "taken of_A (map snd (ac_tokens sample_access)) = [''B'']"
    unfolding sample_tokens
    by (simp add: taken_def seeds_def of_A_def fresh_ids_def created_ids_def)
  then have "filter (revocation_selects of_A (map snd (ac_tokens sample_access))) (map snd (ac_tokens sample_access)) = [tok_B]"
    by (simp add: revocation_selects_def of_A_def sample_tokens)
  then have "TokensToRevoke (at_time 60 []) of_A sample_access = Inr [load_policies sample_access tok_B]"
    by (simp add: TokensToRevoke_def revocation_valid_def queryTokens_def expired_def) (simp add: of_A_def)
  then show ?thesis by (simp add: RevokeACLTokens_def by_name_def without_B_def)
qed

theorem revocation_reaches_all_witness: "tk_accessor tok_A \<noteq> tk_accessor tok_B"
proof (rule revocation_reaches_all [OF sample_access_stored sample_revoke_all runs_refl _ _ _ _ A_authenticates])
  show "tok_B \<in> snd ` set (ac_tokens sample_access)" by (simp add: sample_access_def)
  have "''B'' \<in> set (seeds of_A (map snd (ac_tokens sample_access)))"
    unfolding sample_tokens by (simp add: seeds_def of_A_def)
  then show "if sessions_of of_A \<noteq> [] then tk_origin tok_B = OriginLogin \<and> tk_identity tok_B = sessions_of of_A
      else \<exists>s\<in>set (seeds of_A (map snd (ac_tokens sample_access))).
        (s, tk_accessor tok_B) \<in> (created_by (map snd (ac_tokens sample_access)))\<^sup>*"
    by (auto simp: of_A_def)
qed (simp_all add: new_changes_def logged_def)

end
