(* ===== verification/LoginLimit.thy ===== *)
theory LoginLimit
  imports Systems
begin

text \<open>
  The limit on failed logins (\<open>internal/web/login_limit.go\<close>) and the check of a username and a
  password behind it (\<open>BasicAuth.check\<close> of \<open>internal/web/auth_basic.go\<close>).

  The counters are a map and a list: the list holds the keys of the map by the end of their window,
  as the linked list of the code holds pointers to the map's values. A key is the SHA-256 of a
  username; the hash is an argument, and so is the clock of every call. The methods hold a mutex:
  each is one step.
\<close>

section \<open>The counters\<close>

record failure =
  fa_count :: int
  fa_until :: time

record failure_limit =
  fl_max :: int
  fl_window :: duration
  fl_entries :: "string \<rightharpoonup> failure"
  fl_order :: "string list"

text \<open>A nil limit, the one that is off, is \<open>None\<close>.\<close>

type_synonym limit = "failure_limit option"

definition newFailureLimit :: "int \<Rightarrow> duration \<Rightarrow> limit" where
  "newFailureLimit m w = (if m \<le> 0 \<or> w \<le> 0 then None
     else Some \<lparr>fl_max = m, fl_window = w, fl_entries = Map.empty, fl_order = []\<rparr>)"

definition drop_entry :: "string \<Rightarrow> failure_limit \<Rightarrow> failure_limit" where
  "drop_entry k l = l\<lparr>fl_order := remove1 k (fl_order l), fl_entries := (fl_entries l)(k := None)\<rparr>"

text \<open>
  \<open>expire\<close> drops from the front of the list. An element always has its entry (\<open>limit_inv\<close> below);
  the branch without one is not reached.
\<close>

function expire :: "time \<Rightarrow> failure_limit \<Rightarrow> failure_limit" where
  "expire now l = (case fl_order l of [] \<Rightarrow> l
     | k # ks \<Rightarrow> (case fl_entries l k of None \<Rightarrow> l
         | Some f \<Rightarrow> if now < fa_until f then l else expire now (drop_entry k l)))"
  by pat_completeness auto
termination
  by (relation "measure (\<lambda>(now, l). length (fl_order l))") (auto simp: drop_entry_def)

declare expire.simps [simp del]

fun locked :: "(string \<Rightarrow> string) \<Rightarrow> time \<Rightarrow> string \<Rightarrow> limit \<Rightarrow> limit \<times> duration \<times> bool" where
  "locked sha now u None = (None, 0, False)"
| "locked sha now u (Some l) =
     (let l' = expire now l in (case fl_entries l' (sha u) of
        None \<Rightarrow> (Some l', 0, False)
      | Some f \<Rightarrow> if fa_count f < fl_max l' then (Some l', 0, False)
                  else (Some l', fa_until f - now, True)))"

definition birth :: "time \<Rightarrow> string \<Rightarrow> failure_limit \<Rightarrow> failure_limit" where
  "birth now k l = (case fl_entries l k of
       None \<Rightarrow> l\<lparr>fl_order := fl_order l @ [k],
                 fl_entries := (fl_entries l)(k \<mapsto> \<lparr>fa_count = 0, fa_until = now + fl_window l\<rparr>)\<rparr>
     | Some _ \<Rightarrow> l)"

fun fail :: "(string \<Rightarrow> string) \<Rightarrow> time \<Rightarrow> string \<Rightarrow> limit \<Rightarrow> limit \<times> duration \<times> bool" where
  "fail sha now u None = (None, 0, False)"
| "fail sha now u (Some l) =
     (let k = sha u; l' = birth now k (expire now l); f = the (fl_entries l' k);
          f' = f\<lparr>fa_count := fa_count f + 1\<rparr>
      in (Some (l'\<lparr>fl_entries := (fl_entries l')(k \<mapsto> f')\<rparr>),
          fa_until f' - now, fa_count f' = fl_max l'))"

fun clear :: "(string \<Rightarrow> string) \<Rightarrow> string \<Rightarrow> limit \<Rightarrow> limit" where
  "clear sha u None = None"
| "clear sha u (Some l) =
     (case fl_entries l (sha u) of None \<Rightarrow> Some l | Some _ \<Rightarrow> Some (drop_entry (sha u) l))"

text \<open>
  \<open>lockedError.seconds\<close> and \<open>wait\<close>: the time left in whole seconds and minutes, rounded up. The
  code divides in float64; a duration below 2^53 nanoseconds (104 days) is exact there.
\<close>

definition ceil_div :: "int \<Rightarrow> int \<Rightarrow> int" where
  "ceil_div a b = - ((- a) div b)"

definition seconds :: "duration \<Rightarrow> int" where
  "seconds d = ceil_div d second"

definition wait_text :: "duration \<Rightarrow> string" where
  "wait_text d = (let m = ceil_div d (60 * second) in
     if m > 1 then show_nat (nat m) @ '' minutes'' else ''1 minute'')"

section \<open>The check of the credentials\<close>

record person =
  pe_identity :: string
  pe_username :: string
  pe_claim_username :: string
  pe_claim_sub :: string
  pe_claim_groups :: "string list"

record basic_auth =
  ba_users :: "string \<rightharpoonup> string"
  ba_groups :: "string \<rightharpoonup> string list"
  ba_dummy :: string

datatype check_error = Locked duration | InvalidCredentials | Cancelled

text \<open>
  \<open>check\<close>: the clocks of its two looks at the lock and of the count, whether a slot came before the
  request ended, and bcrypt's comparison of a hash with a password are arguments. The third
  component of the answer says whether the comparison ran.
\<close>

definition check ::
  "(string \<Rightarrow> string) \<Rightarrow> (string \<Rightarrow> string \<Rightarrow> bool) \<Rightarrow> basic_auth \<Rightarrow> time \<Rightarrow> bool \<Rightarrow> time \<Rightarrow> time \<Rightarrow>
     string \<Rightarrow> string \<Rightarrow> limit \<Rightarrow> limit \<times> (check_error + person) \<times> bool" where
  "check sha cmp b t1 slot t2 t3 u pw l =
     (case locked sha t1 u l of (l1, d1, is1) \<Rightarrow>
        if is1 then (l1, Inl (Locked d1), False)
        else if \<not> slot then (l1, Inl Cancelled, False)
        else (case locked sha t2 u l1 of (l2, d2, is2) \<Rightarrow>
          if is2 then (l2, Inl (Locked d2), False)
          else
            let known = ba_users b u \<noteq> None;
                hash = (case ba_users b u of None \<Rightarrow> ba_dummy b | Some h \<Rightarrow> h)
            in if \<not> cmp hash pw \<or> \<not> known then (fst (fail sha t3 u l2), Inl InvalidCredentials, True)
               else (clear sha u l2,
                 Inr \<lparr>pe_identity = ''basic:'' @ u, pe_username = u, pe_claim_username = u, pe_claim_sub = [],
                   pe_claim_groups = (case ba_groups b u of None \<Rightarrow> [] | Some g \<Rightarrow> g)\<rparr>, True)))"

section \<open>The invariant\<close>

text \<open>
  At a time: the list holds the keys of the map once each, by the end of their windows, and no
  window ends later than one opened now would.
\<close>

definition until_of :: "failure_limit \<Rightarrow> string \<Rightarrow> time" where
  "until_of l k = fa_until (the (fl_entries l k))"

definition entries_inv :: "time \<Rightarrow> failure_limit \<Rightarrow> bool" where
  "entries_inv now l = (0 < fl_max l \<and> 0 < fl_window l \<and> distinct (fl_order l) \<and>
     dom (fl_entries l) = set (fl_order l) \<and> sorted (map (until_of l) (fl_order l)) \<and>
     (\<forall>k\<in>set (fl_order l). until_of l k \<le> now + fl_window l \<and> 1 \<le> fa_count (the (fl_entries l k))))"

definition limit_inv :: "time \<Rightarrow> limit \<Rightarrow> bool" where
  "limit_inv now l = (case l of None \<Rightarrow> True | Some x \<Rightarrow> entries_inv now x)"

lemma entries_inv_later: "entries_inv now l \<Longrightarrow> now \<le> now' \<Longrightarrow> entries_inv now' l"
  by (fastforce simp: entries_inv_def)

lemma drop_entry_simps [simp]:
  "fl_max (drop_entry k l) = fl_max l" "fl_window (drop_entry k l) = fl_window l"
  "fl_order (drop_entry k l) = remove1 k (fl_order l)"
  "fl_entries (drop_entry k l) = (fl_entries l)(k := None)"
  by (simp_all add: drop_entry_def)

lemma until_of_drop: "j \<noteq> k \<Longrightarrow> until_of (drop_entry k l) j = until_of l j"
  by (simp add: until_of_def)

lemma map_until_drop:
  "distinct ks \<Longrightarrow> map (until_of (drop_entry k l)) (remove1 k ks) = map (until_of l) (remove1 k ks)"
  by (rule map_cong) (auto simp: until_of_drop distinct_remove1_removeAll)

lemma sorted_map_remove1': "sorted (map f xs) \<Longrightarrow> sorted (map f (remove1 k xs))"
  by (induction xs) (auto dest: notin_set_remove1)

lemma drop_entry_inv: "entries_inv now l \<Longrightarrow> entries_inv now (drop_entry k l)"
  by (auto simp: entries_inv_def map_until_drop sorted_map_remove1' until_of_drop)

text \<open>Whether a key is counted at a time, with its count and the end of its window.\<close>

definition live :: "time \<Rightarrow> limit \<Rightarrow> string \<Rightarrow> (int \<times> time) option" where
  "live now l k = (case l of None \<Rightarrow> None | Some x \<Rightarrow> (case fl_entries x k of None \<Rightarrow> None
     | Some f \<Rightarrow> if now < fa_until f then Some (fa_count f, fa_until f) else None))"


lemma expire_spec:
  assumes "entries_inv t l"
  shows "fl_max (expire now l) = fl_max l \<and> fl_window (expire now l) = fl_window l \<and>
    entries_inv t (expire now l) \<and>
    fl_entries (expire now l) =
      (\<lambda>k. case fl_entries l k of None \<Rightarrow> None | Some f \<Rightarrow> if now < fa_until f then Some f else None)"
  using assms
proof (induction now l rule: expire.induct)
  case (1 now l)
  show ?case
  proof (cases "fl_order l")
    case Nil
    with "1.prems" have "fl_entries l = Map.empty" by (simp add: entries_inv_def)
    with Nil "1.prems" show ?thesis by (simp add: expire.simps [of now l] fun_eq_iff)
  next
    case (Cons k ks)
    with "1.prems" obtain f where f: "fl_entries l k = Some f"
      unfolding entries_inv_def by (metis domD list.set_intros(1))
    show ?thesis
    proof (cases "now < fa_until f")
      case True
      have "now < fa_until g" if g: "fl_entries l j = Some g" for j g
      proof -
        have "j \<in> set (k # ks)" using "1.prems" g Cons by (auto simp: entries_inv_def)
        then have "until_of l k \<le> until_of l j" using "1.prems" Cons by (auto simp: entries_inv_def)
        with True f g show ?thesis by (simp add: until_of_def)
      qed
      with True f Cons "1.prems" show ?thesis
        by (auto simp: expire.simps [of now l] fun_eq_iff split: option.splits)
    next
      case False
      have inv: "entries_inv t (drop_entry k l)" by (rule drop_entry_inv [OF "1.prems"])
      have step: "expire now l = expire now (drop_entry k l)"
        using False f Cons by (simp add: expire.simps [of now l])
      from "1.IH" [OF Cons f False inv] show ?thesis
        unfolding step using False f by (auto simp: fun_eq_iff)
    qed
  qed
qed

lemma live_expire: "entries_inv t l \<Longrightarrow> live now (Some (expire now l)) = live now (Some l)"
  by (auto simp: live_def expire_spec fun_eq_iff split: option.splits)

lemma until_of_entry: "until_of (l\<lparr>fl_entries := e\<rparr>) k = fa_until (the (e k))"
  by (simp add: until_of_def)

lemma birth_spec:
    "fl_max (birth now k l) = fl_max l" "fl_window (birth now k l) = fl_window l"
    "fl_entries (birth now k l) = (case fl_entries l k of
       None \<Rightarrow> (fl_entries l)(k \<mapsto> \<lparr>fa_count = 0, fa_until = now + fl_window l\<rparr>) | Some _ \<Rightarrow> fl_entries l)"
    "fl_order (birth now k l) = (case fl_entries l k of None \<Rightarrow> fl_order l @ [k] | Some _ \<Rightarrow> fl_order l)"
  by (simp_all add: birth_def split: option.splits)

text \<open>Counting a failure keeps the invariant.\<close>

lemma count_inv:
  assumes "entries_inv now l"
  shows "entries_inv now (birth now k l\<lparr>fl_entries := (fl_entries (birth now k l))
     (k \<mapsto> (the (fl_entries (birth now k l) k))\<lparr>fa_count := fa_count (the (fl_entries (birth now k l) k)) + 1\<rparr>)\<rparr>)"
proof (cases "fl_entries l k")
  case None
  with assms have k: "k \<notin> set (fl_order l)" by (auto simp: entries_inv_def)
  let ?e = "(fl_entries l)(k \<mapsto> \<lparr>fa_count = 1, fa_until = now + fl_window l\<rparr>)"
  have same: "map (until_of (l\<lparr>fl_order := fl_order l @ [k], fl_entries := ?e\<rparr>)) (fl_order l) = map (until_of l) (fl_order l)"
    using k by (auto simp: until_of_def)
  have "sorted (map (until_of (l\<lparr>fl_order := fl_order l @ [k], fl_entries := ?e\<rparr>)) (fl_order l))"
    unfolding same using assms by (simp add: entries_inv_def)
  with assms None k show ?thesis
    by (auto simp: birth_def entries_inv_def sorted_append) (auto simp: until_of_def)
next
  case (Some f)
  then have un: "until_of (l\<lparr>fl_entries := (fl_entries l)(k \<mapsto> f\<lparr>fa_count := fa_count f + 1\<rparr>)\<rparr>) = until_of l"
    by (auto simp: until_of_def fun_eq_iff)
  have "k \<in> set (fl_order l)" "1 \<le> fa_count f"
    using assms Some by (force simp: entries_inv_def)+
  with assms Some show ?thesis
    by (auto simp: birth_def entries_inv_def un)
qed

section \<open>The methods on what is counted\<close>

lemma limit_inv_later: "limit_inv now l \<Longrightarrow> now \<le> now' \<Longrightarrow> limit_inv now' l"
  by (auto simp: limit_inv_def entries_inv_later split: option.splits)

lemma newFailureLimit_inv: "limit_inv now (newFailureLimit m w)"
  by (simp add: limit_inv_def newFailureLimit_def entries_inv_def)

definition limit_max :: "limit \<Rightarrow> int" where
  "limit_max l = (case l of None \<Rightarrow> 0 | Some x \<Rightarrow> fl_max x)"

definition limit_window :: "limit \<Rightarrow> duration" where
  "limit_window l = (case l of None \<Rightarrow> 0 | Some x \<Rightarrow> fl_window x)"

lemma locked_spec:
  assumes "limit_inv now l"
  shows "limit_inv now (fst (locked sha now u l)) \<and>
    limit_max (fst (locked sha now u l)) = limit_max l \<and>
    limit_window (fst (locked sha now u l)) = limit_window l \<and>
    (fst (locked sha now u l) = None \<longleftrightarrow> l = None) \<and>
    live now (fst (locked sha now u l)) = live now l \<and>
    snd (locked sha now u l) = (case live now l (sha u) of None \<Rightarrow> (0, False)
      | Some (n, e) \<Rightarrow> if n < limit_max l then (0, False) else (e - now, True))"
proof (cases l)
  case None
  then show ?thesis by (simp add: limit_inv_def live_def)
next
  case (Some x)
  with assms have inv: "entries_inv now x" by (simp add: limit_inv_def)
  note e = expire_spec [OF inv, of now]
  have fst: "fst (locked sha now u l) = Some (expire now x)"
    by (simp add: Some Let_def split: option.split)
  show ?thesis
    unfolding fst
    using e live_expire [OF inv, of now]
    by (auto simp: Some limit_inv_def limit_max_def limit_window_def live_def Let_def split: option.splits)
qed

lemma fail_spec:
  fixes sha :: "string \<Rightarrow> string" and u :: string and now :: time and x :: failure_limit
  assumes "limit_inv now (Some x)"
  defines "k \<equiv> sha u"
  defines "new \<equiv> (case live now (Some x) k of None \<Rightarrow> (1, now + fl_window x) | Some (n, e) \<Rightarrow> (n + 1, e))"
  shows "limit_inv now (fst (fail sha now u (Some x))) \<and>
    limit_max (fst (fail sha now u (Some x))) = fl_max x \<and>
    limit_window (fst (fail sha now u (Some x))) = fl_window x \<and>
    fst (fail sha now u (Some x)) \<noteq> None \<and>
    live now (fst (fail sha now u (Some x))) = (live now (Some x))(k \<mapsto> new) \<and>
    snd (fail sha now u (Some x)) = (snd new - now, fst new = fl_max x)"
proof -
  have inv: "entries_inv now x" using assms(1) by (simp add: limit_inv_def)
  let ?y = "expire now x"
  have y: "entries_inv now ?y" "fl_max ?y = fl_max x" "fl_window ?y = fl_window x"
    "fl_entries ?y = (\<lambda>k. case fl_entries x k of None \<Rightarrow> None | Some f \<Rightarrow> if now < fa_until f then Some f else None)"
    using expire_spec [OF inv, of now] by simp_all
  note b = birth_spec [of now k ?y]
  have w: "0 < fl_window x" using inv by (simp add: entries_inv_def)
  have res: "fst (fail sha now u (Some x)) = Some (birth now k ?y\<lparr>fl_entries := (fl_entries (birth now k ?y))
     (k \<mapsto> (the (fl_entries (birth now k ?y) k))\<lparr>fa_count := fa_count (the (fl_entries (birth now k ?y) k)) + 1\<rparr>)\<rparr>)"
    by (simp add: Let_def k_def)
  have live': "live now (fst (fail sha now u (Some x))) = (live now (Some x))(k \<mapsto> new)"
    unfolding res using w
    by (auto simp: live_def b y new_def fun_eq_iff split: option.splits)
  have snd': "snd (fail sha now u (Some x)) = (snd new - now, fst new = fl_max x)"
    using w by (auto simp: Let_def k_def [symmetric] live_def b y new_def split: option.splits)
  show ?thesis
    using live' snd' count_inv [OF y(1), of k] unfolding res
    by (simp add: limit_inv_def limit_max_def limit_window_def b y)
qed

lemma clear_spec:
  assumes "limit_inv now l"
  shows "limit_inv now (clear sha u l) \<and> limit_max (clear sha u l) = limit_max l \<and>
    limit_window (clear sha u l) = limit_window l \<and> (clear sha u l = None \<longleftrightarrow> l = None) \<and>
    live now (clear sha u l) = (live now l)(sha u := None)"
  using assms
  by (cases l) (auto simp: limit_inv_def drop_entry_inv limit_max_def limit_window_def live_def fun_eq_iff
      split: option.splits)


section \<open>The interface of a lock\<close>

text \<open>
  What a login relies on: the three methods, the key of a username, and a view of the counters that
  is exact at the time of a call. A counter is born by the first failure, ends with its window, and
  is changed by no one else's calls.
\<close>

datatype 'u lock_op = Look time 'u | Count time 'u | Forget time 'u

fun op_time :: "'u lock_op \<Rightarrow> time" where
  "op_time (Look t u) = t" | "op_time (Count t u) = t" | "op_time (Forget t u) = t"

fun lock_exec ::
  "(time \<Rightarrow> 'u \<Rightarrow> 's \<Rightarrow> 's \<times> duration \<times> bool) \<Rightarrow> (time \<Rightarrow> 'u \<Rightarrow> 's \<Rightarrow> 's \<times> duration \<times> bool) \<Rightarrow>
     ('u \<Rightarrow> 's \<Rightarrow> 's) \<Rightarrow> 's \<Rightarrow> 'u lock_op \<Rightarrow> 's" where
  "lock_exec look count forget s (Look t u) = fst (look t u s)"
| "lock_exec look count forget s (Count t u) = fst (count t u s)"
| "lock_exec look count forget s (Forget t u) = forget u s"

definition counts :: "('u \<Rightarrow> 'k) \<Rightarrow> 'k \<Rightarrow> 'u lock_op list \<Rightarrow> nat" where
  "counts key k ops = length (filter (\<lambda>x. case x of Count t u \<Rightarrow> key u = k | _ \<Rightarrow> False) ops)"

definition forgets :: "('u \<Rightarrow> 'k) \<Rightarrow> 'k \<Rightarrow> 'u lock_op list \<Rightarrow> bool" where
  "forgets key k ops = list_ex (\<lambda>x. case x of Forget t u \<Rightarrow> key u = k | _ \<Rightarrow> False) ops"

locale login_lock =
  fixes inv :: "time \<Rightarrow> 's \<Rightarrow> bool" and view :: "time \<Rightarrow> 's \<Rightarrow> 'k \<Rightarrow> (int \<times> time) option"
    and look :: "time \<Rightarrow> 'u \<Rightarrow> 's \<Rightarrow> 's \<times> duration \<times> bool"
    and count :: "time \<Rightarrow> 'u \<Rightarrow> 's \<Rightarrow> 's \<times> duration \<times> bool"
    and forget :: "'u \<Rightarrow> 's \<Rightarrow> 's" and key :: "'u \<Rightarrow> 'k" and m :: int and w :: duration
  assumes inv_later: "inv t s \<Longrightarrow> t \<le> t' \<Longrightarrow> inv t' s"
    and view_later: "t \<le> t' \<Longrightarrow> view t' s k = (case view t s k of None \<Rightarrow> None
      | Some (n, e) \<Rightarrow> if t' < e then Some (n, e) else None)"
    and look_keeps: "inv t s \<Longrightarrow> inv t (fst (look t u s)) \<and> view t (fst (look t u s)) = view t s"
    and look_result: "inv t s \<Longrightarrow> snd (look t u s) = (case view t s (key u) of None \<Rightarrow> (0, False)
      | Some (n, e) \<Rightarrow> if n < m then (0, False) else (e - t, True))"
    and count_keeps: "inv t s \<Longrightarrow> inv t (fst (count t u s))"
    and count_view: "inv t s \<Longrightarrow> view t (fst (count t u s)) = (view t s)(key u \<mapsto>
      (case view t s (key u) of None \<Rightarrow> (1, t + w) | Some (n, e) \<Rightarrow> (n + 1, e)))"
    and forget_keeps: "inv t s \<Longrightarrow> inv t (forget u s) \<and> view t (forget u s) = (view t s)(key u := None)"
begin

abbreviation run_from :: "'s \<Rightarrow> 'u lock_op list \<Rightarrow> 's" where
  "run_from \<equiv> foldl (lock_exec look count forget)"

lemma exec_inv: "inv (op_time x) s \<Longrightarrow> inv (op_time x) (lock_exec look count forget s x)"
  by (cases x) (simp_all add: look_keeps count_keeps forget_keeps)

lemma exec_view:
  assumes "inv (op_time x) s" "view (op_time x) s k = Some (n, e)" "\<not> forgets key k [x]"
  shows "view (op_time x) (lock_exec look count forget s x) k = Some (n + int (counts key k [x]), e)"
  using assms by (cases x) (auto simp: look_keeps count_view forget_keeps counts_def forgets_def)

lemma run_view:
  assumes "inv t s" "view t s k = Some (n, e)" "sorted (t # map op_time ops)"
    "\<forall>x\<in>set ops. op_time x < e" "\<not> forgets key k ops" "\<forall>x\<in>set ops. op_time x \<le> t'" "t \<le> t'"
  shows "inv t' (run_from s ops) \<and> view t' (run_from s ops) k =
    (if t' < e then Some (n + int (counts key k ops), e) else None)"
  using assms
proof (induction ops arbitrary: t s n)
  case Nil
  then show ?case using inv_later view_later [of t t' s k] by (simp add: counts_def)
next
  case (Cons x ops)
  have tx: "t \<le> op_time x" using Cons.prems(3) by simp
  have ix: "inv (op_time x) s" by (rule inv_later [OF Cons.prems(1) tx])
  have vx: "view (op_time x) s k = Some (n, e)"
    using view_later [OF tx, of s k] Cons.prems(2,4) by simp
  have v': "view (op_time x) (lock_exec look count forget s x) k = Some (n + int (counts key k [x]), e)"
    using exec_view [OF ix vx] Cons.prems(5) by (simp add: forgets_def)
  have c: "int (counts key k (x # ops)) = int (counts key k [x]) + int (counts key k ops)"
    by (simp add: counts_def)
  have "inv t' (run_from (lock_exec look count forget s x) ops) \<and>
      view t' (run_from (lock_exec look count forget s x) ops) k =
      (if t' < e then Some (n + int (counts key k [x]) + int (counts key k ops), e) else None)"
    by (rule Cons.IH [OF exec_inv [OF ix] v'])
      (use Cons.prems in \<open>auto simp: forgets_def\<close>)
  then show ?case by (simp add: c add.assoc)
qed

lemma lock_after_failures:
  assumes "inv t s" "view t s (key u) = None" "0 < w" "sorted (t # map op_time ops @ [t'])"
    "\<forall>x\<in>set ops. op_time x < t + w" "\<not> forgets key (key u) ops"
  shows "snd (look t' u (run_from s (Count t u # ops))) =
    (if t' < t + w \<and> m \<le> 1 + int (counts key (key u) ops) then (t + w - t', True) else (0, False))"
proof -
  have "view t (fst (count t u s)) (key u) = Some (1, t + w)"
    using assms(1,2) by (simp add: count_view)
  from run_view [OF count_keeps [OF assms(1)] this, of ops t'] assms(3-6)
  have "inv t' (run_from s (Count t u # ops))"
    "view t' (run_from s (Count t u # ops)) (key u) =
      (if t' < t + w then Some (1 + int (counts key (key u) ops), t + w) else None)"
    by (auto simp: sorted_append)
  then show ?thesis by (auto simp: look_result)
qed

end

text \<open>The counters of the code, for a limit that is on.\<close>

definition limit_on :: "int \<Rightarrow> duration \<Rightarrow> time \<Rightarrow> limit \<Rightarrow> bool" where
  "limit_on m w now l = (limit_inv now l \<and> l \<noteq> None \<and> limit_max l = m \<and> limit_window l = w)"

lemma live_later:
  "t \<le> t' \<Longrightarrow> live t' l k = (case live t l k of None \<Rightarrow> None
     | Some (n, e) \<Rightarrow> if t' < e then Some (n, e) else None)"
  by (auto simp: live_def split: option.splits)

interpretation code_lock: login_lock "limit_on m w" live "locked sha" "fail sha" "clear sha" sha m w
  for m w sha
proof (unfold_locales, goal_cases)
  case (1 t s t')
  then show ?case using limit_inv_later by (auto simp: limit_on_def)
next
  case (2 t t' s k)
  then show ?case by (rule live_later)
next
  case (3 t s u)
  then show ?case using locked_spec [of t s sha u] by (auto simp: limit_on_def)
next
  case (4 t s u)
  then show ?case using locked_spec [of t s sha u] by (auto simp: limit_on_def split: option.splits)
next
  case (5 t s u)
  then obtain x where "s = Some x" by (auto simp: limit_on_def)
  with 5 fail_spec [of t x sha u] show ?case
    by (simp add: limit_on_def limit_max_def [of "Some x"] limit_window_def [of "Some x"] del: fail.simps)
next
  case (6 t s u)
  then obtain x where "s = Some x" by (auto simp: limit_on_def)
  with 6 fail_spec [of t x sha u] show ?case
    by (auto simp: limit_on_def limit_window_def [of "Some x"] simp del: fail.simps split: option.splits)
next
  case (7 t s u)
  then show ?case using clear_spec [of t s sha u] by (auto simp: limit_on_def)
qed

text \<open>
  Claim C22. The limit on failed logins locks a username exactly when it should. From the first
  failure of a username that is not being counted, and over any calls about any usernames, none of
  them a success of this one: within the window the username is locked, for what is left of it,
  once it has failed as many times as the limit allows, and not before; after the window it is free.
\<close>

theorem locked_iff_max_failures:
  assumes "limit_on m w t l" "live t l (sha u) = None" "0 < w"
    "sorted (t # map op_time ops @ [t'])" "\<forall>x\<in>set ops. op_time x < t + w"
    "\<not> forgets sha (sha u) ops"
  shows "snd (locked sha t' u (foldl (lock_exec (locked sha) (fail sha) (clear sha)) l (Count t u # ops))) =
    (if t' < t + w \<and> m \<le> 1 + int (counts sha (sha u) ops) then (t + w - t', True) else (0, False))"
  by (rule code_lock.lock_after_failures [OF assms])

theorem locked_iff_max_failures_witness:
  "snd (locked id 9 ''eve'' (foldl (lock_exec (locked id) (fail id) (clear id)) (newFailureLimit 2 10)
     [Count 0 ''eve'', Count 3 ''eve''])) = (1, True)"
  using locked_iff_max_failures [of 2 10 0 "newFailureLimit 2 10" id "''eve''" "[Count 3 ''eve'']" 9]
  by (simp add: limit_on_def newFailureLimit_inv limit_max_def limit_window_def)
    (simp add: newFailureLimit_def live_def counts_def forgets_def)


section \<open>The check\<close>

text \<open>Whether the limit locks a key at a time.\<close>

definition is_locked :: "time \<Rightarrow> limit \<Rightarrow> string \<Rightarrow> bool" where
  "is_locked now l k = (case live now l k of None \<Rightarrow> False | Some (n, e) \<Rightarrow> limit_max l \<le> n)"

lemma locked_flag: "limit_inv now l \<Longrightarrow> snd (snd (locked sha now u l)) = is_locked now l (sha u)"
  using locked_spec [of now l sha u] by (auto simp: is_locked_def split: option.splits)

lemma is_locked_earlier: "is_locked t' l k \<Longrightarrow> t \<le> t' \<Longrightarrow> is_locked t l k"
  by (auto simp: is_locked_def live_later [of t t'] split: option.splits if_splits)

lemma locked_same:
  "limit_inv t l \<Longrightarrow> is_locked t' (fst (locked sha t u l)) k = is_locked t' l k" if "t \<le> t'"
  using locked_spec [of t l sha u] that
  by (auto simp: is_locked_def live_later [OF that, of "fst (locked sha t u l)"] live_later [OF that, of l]
      split: option.splits)

text \<open>
  A check of a username and a password succeeds exactly when the username is known, its
  hash matches the password and the username is not locked when the check starts, and the request
  lasted until its turn. The person it returns is that username with its groups. A locked username
  is refused before any password is compared; an unknown username and a wrong password are
  answered alike.
\<close>

theorem check_decides:
  assumes "limit_inv t1 l" "t1 \<le> t2"
  shows "fst (snd (check sha cmp b t1 slot t2 t3 u pw l)) =
    (if is_locked t1 l (sha u) then Inl (Locked (fst (snd (locked sha t1 u l))))
     else if \<not> slot then Inl Cancelled
     else if (\<exists>h. ba_users b u = Some h \<and> cmp h pw) then
       Inr \<lparr>pe_identity = ''basic:'' @ u, pe_username = u, pe_claim_username = u, pe_claim_sub = [],
         pe_claim_groups = (case ba_groups b u of None \<Rightarrow> [] | Some g \<Rightarrow> g)\<rparr>
     else Inl InvalidCredentials) \<and>
   snd (snd (check sha cmp b t1 slot t2 t3 u pw l)) = (\<not> is_locked t1 l (sha u) \<and> slot)"
proof -
  obtain l1 d1 is1 where r1: "locked sha t1 u l = (l1, d1, is1)" by (cases "locked sha t1 u l") auto
  obtain l2 d2 is2 where r2: "locked sha t2 u l1 = (l2, d2, is2)" by (cases "locked sha t2 u l1") auto
  have is1: "is1 = is_locked t1 l (sha u)" using locked_flag [OF assms(1), of sha u] r1 by simp
  have "limit_inv t2 l1"
    using locked_spec [OF assms(1), of sha u] r1 limit_inv_later assms(2) by auto
  from locked_flag [OF this, of sha u] have is2: "is2 = is_locked t2 l1 (sha u)" using r2 by simp
  have "is_locked t2 l1 (sha u) = is_locked t2 l (sha u)"
    using locked_same [OF assms(2,1), of sha u "sha u"] r1 by simp
  then have "\<not> is1 \<Longrightarrow> \<not> is2" using is1 is2 is_locked_earlier assms(2) by blast
  then show ?thesis
    by (auto simp: check_def r1 r2 is1 [symmetric] Let_def split: option.splits)
qed

definition sample_users :: basic_auth where
  "sample_users = \<lparr>ba_users = [''ann'' \<mapsto> ''h''], ba_groups = Map.empty, ba_dummy = ''d''\<rparr>"

theorem check_decides_witness:
  "is_ok (fst (snd (check id (\<lambda>h pw. h = pw) sample_users 0 True 0 0 ''ann'' ''h'' (newFailureLimit 2 10))))"
  unfolding check_decides [OF newFailureLimit_inv order_refl, THEN conjunct1]
  by (simp add: newFailureLimit_def is_locked_def live_def sample_users_def)

end
