(* ===== verification/Access.thy ===== *)
theory Access
  imports Acl AclProperties LoginLimit DeploymentStore
begin

text \<open>
  Who a request acts as and what that allows (\<open>internal/acl/binding.go\<close>,
  \<open>internal/web/access.go\<close>, \<open>internal/web/login.go\<close> and the token check of
  \<open>internal/web/api.go\<close>): the binding rules of a login, the session token it gets, the subject of
  a bearer token or of the cookies, and the check of each route.

  What is not under \<open>src/\<close> is in the environment: SHA-256 in hexadecimal, the HCL reader, the
  parser and the evaluator of selectors (go-bexpr). A secret is compared in constant time, which
  is equality.
\<close>

section \<open>Binding rules\<close>

record claims =
  cl_username :: string
  cl_sub :: string
  cl_groups :: "string list"

text \<open>The shape of a parsed selector, as far as \<open>checkClaims\<close> reads it.\<close>

datatype selector_expr =
    UnaryExpr selector_expr
  | BinaryExpr selector_expr selector_expr
  | MatchExpr "string list"
  | CollectionExpr "string list"
  | OtherExpr

definition claimPaths :: "string list list" where
  "claimPaths = [[''value'', ''username''], [''value'', ''sub''], [''list'', ''groups'']]"

fun checkClaims :: "selector_expr \<Rightarrow> bool" where
  "checkClaims (UnaryExpr e) = checkClaims e"
| "checkClaims (BinaryExpr e f) = (checkClaims e \<and> checkClaims f)"
| "checkClaims (MatchExpr p) = (p \<in> set claimPaths)"
| "checkClaims (CollectionExpr p) = (p \<in> set claimPaths)"
| "checkClaims OtherExpr = True"

definition ValidSelector ::
  "(string \<Rightarrow> selector_expr option) \<Rightarrow> (string \<Rightarrow> claims \<Rightarrow> string + bool) \<Rightarrow> string \<Rightarrow> bool" where
  "ValidSelector parse eval sel =
     (if trim_space sel = [] then True
      else case parse sel of None \<Rightarrow> False
        | Some e \<Rightarrow> checkClaims e \<and>
            is_ok (eval sel \<lparr>cl_username = ''u'', cl_sub = ''s'', cl_groups = [''g'']\<rparr>))"

record granted =
  gr_management :: bool
  gr_policies :: "string list"

definition granted_any :: "granted \<Rightarrow> bool" where
  "granted_any g = (gr_management g \<or> gr_policies g \<noteq> [])"

text \<open>Whether a rule matches the claims; \<open>None\<close> when its selector cannot be evaluated.\<close>

definition rule_matches :: "(string \<Rightarrow> claims \<Rightarrow> string + bool) \<Rightarrow> claims \<Rightarrow> binding_rule \<Rightarrow> bool option" where
  "rule_matches eval cl r = (if trim_space (br_selector r) = [] then Some True
     else case eval (br_selector r) cl of Inl _ \<Rightarrow> None | Inr ok \<Rightarrow> Some ok)"

text \<open>The loop of \<open>Bind\<close>: what is granted so far, and the IDs of the rules in error.\<close>

fun bind_rules ::
  "(string \<Rightarrow> claims \<Rightarrow> string + bool) \<Rightarrow> string \<Rightarrow> claims \<Rightarrow> binding_rule list \<Rightarrow> granted \<times> string list \<Rightarrow>
     granted \<times> string list" where
  "bind_rules eval m cl [] acc = acc"
| "bind_rules eval m cl (r # rs) (g, errs) =
     (if br_method r \<noteq> m then bind_rules eval m cl rs (g, errs)
      else case rule_matches eval cl r of
          None \<Rightarrow> bind_rules eval m cl rs (g, errs @ [br_id r])
        | Some False \<Rightarrow> bind_rules eval m cl rs (g, errs)
        | Some True \<Rightarrow> bind_rules eval m cl rs
            (if br_type r = BindManagement then g\<lparr>gr_management := True\<rparr>
             else if br_type r = BindPolicy then g\<lparr>gr_policies := gr_policies g @ [br_bind_name r]\<rparr>
             else g, errs))"

definition Bind ::
  "(string \<Rightarrow> claims \<Rightarrow> string + bool) \<Rightarrow> string \<Rightarrow> claims \<Rightarrow> binding_rule list \<Rightarrow> granted \<times> string list" where
  "Bind eval m cl rules =
     (case bind_rules eval m cl rules (\<lparr>gr_management = False, gr_policies = []\<rparr>, []) of
        (g, errs) \<Rightarrow> (g\<lparr>gr_policies := sort_compact (gr_policies g)\<rparr>, errs))"

section \<open>Subjects\<close>

text \<open>The server as far as access goes, and the code outside \<open>src/\<close> it uses.\<close>

record access_env =
  en_acl_on :: bool
  en_bootstrap :: string
  en_method :: string
  en_hash :: "string \<Rightarrow> string"
  en_hcl :: "string \<Rightarrow> string + acl_file"
  en_parse_selector :: "string \<Rightarrow> selector_expr option"
  en_eval :: "string \<Rightarrow> claims \<Rightarrow> string + bool"

record subject =
  su_actor :: string
  su_accessor :: string
  su_identity :: string
  su_token :: "acl_token option"
  su_acl :: acl
  su_session_secret :: string

definition bootstrapAccessorID :: string where
  "bootstrapAccessorID = ''bootstrap''"

text \<open>
  \<open>clientACL\<close>: a name that no longer exists, or whose rules no longer parse, grants nothing.
\<close>

fun client_policies :: "access_env \<Rightarrow> access \<Rightarrow> string list \<Rightarrow> store_error + acl_policy list" where
  "client_policies env a [] = Inr []"
| "client_policies env a (n # ns) =
     (case ACLPolicy n a of
        Inl e \<Rightarrow> if e = ErrNotFound then client_policies env a ns else Inl e
      | Inr p \<Rightarrow> (case acl_parse (en_hcl env) (pr_rules p) of
          Inl _ \<Rightarrow> client_policies env a ns
        | Inr q \<Rightarrow> bindE (client_policies env a ns) (\<lambda>qs. Inr (q # qs))))"

definition clientACL :: "access_env \<Rightarrow> access \<Rightarrow> string list \<Rightarrow> store_error + acl" where
  "clientACL env a names = bindE (client_policies env a names) (\<lambda>ps. Inr (new_acl ps))"

definition tokenSubject :: "access_env \<Rightarrow> call \<Rightarrow> string \<Rightarrow> access \<Rightarrow> store_error + subject" where
  "tokenSubject env c secret a =
     (if en_acl_on env \<and> en_bootstrap env \<noteq> [] \<and> secret = en_bootstrap env then
        Inr \<lparr>su_actor = bootstrapAccessorID, su_accessor = bootstrapAccessorID, su_identity = [],
             su_token = None, su_acl = management_acl, su_session_secret = []\<rparr>
      else bindE (ACLTokenBySecret c (en_hash env secret) (en_acl_on env) a) (\<lambda>t.
        bindE (if \<not> en_acl_on env \<or> tk_type t = TokenManagement then Inr management_acl
               else clientACL env a (tk_policies t)) (\<lambda>x.
          Inr \<lparr>su_actor = tk_name t, su_accessor = tk_accessor t, su_identity = tk_identity t,
               su_token = Some t, su_acl = x, su_session_secret = []\<rparr>)))"

definition auditOf :: "subject \<Rightarrow> audit" where
  "auditOf sub = \<lparr>au_accessor = su_accessor sub, au_actor = su_actor sub, au_identity = su_identity sub\<rparr>"

text \<open>\<open>carries\<close>: whether the subject may read an ACL policy.\<close>

definition carries :: "subject \<Rightarrow> string \<Rightarrow> bool" where
  "carries sub name = (acl_management (su_acl sub) \<or>
     (case su_token sub of None \<Rightarrow> False | Some t \<Rightarrow> name \<in> set (tk_policies t)))"

section \<open>The check of a route\<close>

datatype route_check =
    AnyToken
  | InNamespace capability
  | OnDeployment capability
  | Globally capability
  | CarriesPolicy
  | ManagementOnly

text \<open>
  A request: the values of its path, its Authorization header and its two login cookies. An absent
  value is empty.
\<close>

record request =
  rq_get :: bool
  rq_namespace :: string
  rq_deployment :: string
  rq_name :: string
  rq_authorization :: string
  rq_token_cookie :: string
  rq_session_cookie :: string
  rq_htmx :: bool

definition run_check :: "route_check \<Rightarrow> store \<Rightarrow> request \<Rightarrow> subject \<Rightarrow> store_error + bool" where
  "run_check k s r sub = (case k of
       AnyToken \<Rightarrow> Inr True
     | InNamespace cap \<Rightarrow> Inr (allow (su_acl sub) (rq_namespace r) cap)
     | OnDeployment cap \<Rightarrow> (case GetDeployment (rq_deployment r) s of
           Inl e \<Rightarrow> if e = ErrNotFound then Inr True else Inl e
         | Inr d \<Rightarrow> Inr (allow (su_acl sub) (d_namespace d) cap))
     | Globally cap \<Rightarrow> Inr (allow_global (su_acl sub) cap)
     | CarriesPolicy \<Rightarrow> Inr (carries sub (rq_name r))
     | ManagementOnly \<Rightarrow> Inr (acl_management (su_acl sub)))"

text \<open>How the handlers in front of a route answer: with an error, the login, or not at all.\<close>

datatype 'a answer = Unauthorized | LoginRedirect | HtmxLogin | Forbidden | ServerError | Handled 'a

definition guard :: "route_check \<Rightarrow> store \<Rightarrow> request \<Rightarrow> subject \<Rightarrow> subject answer" where
  "guard k s r sub = (case run_check k s r sub of
       Inl _ \<Rightarrow> ServerError
     | Inr False \<Rightarrow> Forbidden
     | Inr True \<Rightarrow> Handled sub)"

text \<open>\<open>strings.Cut\<close> at the first space, and ASCII lower case for \<open>strings.EqualFold\<close>.\<close>

definition cut_space :: "string \<Rightarrow> string \<times> string" where
  "cut_space s = (takeWhile (\<lambda>x. x \<noteq> CHR '' '') s, drop 1 (dropWhile (\<lambda>x. x \<noteq> CHR '' '') s))"

definition fold_ascii :: "char \<Rightarrow> char" where
  "fold_ascii x = (if between CHR ''A'' CHR ''Z'' x then char_of ((of_char x :: nat) + 32) else x)"

text \<open>
  \<open>requireToken\<close>: the scheme is \<open>Bearer\<close> in any case. (None of the letters of the word has a
  fold outside ASCII.)
\<close>

definition bearer :: "request \<Rightarrow> string option" where
  "bearer r = (case cut_space (rq_authorization r) of (scheme, secret) \<Rightarrow>
     if map fold_ascii scheme \<noteq> ''bearer'' \<or> trim_space secret = [] then None
     else Some (trim_space secret))"

definition requireToken :: "access_env \<Rightarrow> call \<Rightarrow> request \<Rightarrow> access \<Rightarrow> subject answer" where
  "requireToken env c r a = (case bearer r of None \<Rightarrow> Unauthorized
     | Some secret \<Rightarrow> (case tokenSubject env c secret a of
           Inl e \<Rightarrow> if e = ErrNotFound then Unauthorized else ServerError
         | Inr sub \<Rightarrow> Handled sub))"

definition api_route :: "access_env \<Rightarrow> call \<Rightarrow> route_check \<Rightarrow> request \<Rightarrow> store \<Rightarrow> access \<Rightarrow> subject answer" where
  "api_route env c k r s a = (case requireToken env c r a of
     Handled sub \<Rightarrow> guard k s r sub | x \<Rightarrow> x)"

text \<open>\<open>cookieSubject\<close>: the pasted token first, then the session.\<close>

definition cookieSubject :: "access_env \<Rightarrow> call \<Rightarrow> request \<Rightarrow> access \<Rightarrow> store_error + subject" where
  "cookieSubject env c r a =
     (let session = (if rq_session_cookie r = [] then Inl ErrNotFound
            else bindE (tokenSubject env c (rq_session_cookie r) a)
              (\<lambda>sub. Inr (sub\<lparr>su_session_secret := rq_session_cookie r\<rparr>)))
      in if rq_token_cookie r = [] then session
         else case tokenSubject env c (rq_token_cookie r) a of
             Inr sub \<Rightarrow> Inr sub
           | Inl e \<Rightarrow> if e = ErrNotFound then session else Inl e)"

text \<open>
  \<open>require\<close>, after the cross-origin check of net/http: without a login an htmx request is told to
  load the login, a GET (or HEAD) is sent there, and anything else is refused.
\<close>

definition require_login :: "access_env \<Rightarrow> call \<Rightarrow> request \<Rightarrow> access \<Rightarrow> subject answer" where
  "require_login env c r a = (case cookieSubject env c r a of
       Inr sub \<Rightarrow> Handled sub
     | Inl e \<Rightarrow> if e \<noteq> ErrNotFound then ServerError
               else if rq_htmx r then HtmxLogin
               else if rq_get r then LoginRedirect else Unauthorized)"

definition page_route :: "access_env \<Rightarrow> call \<Rightarrow> route_check \<Rightarrow> request \<Rightarrow> store \<Rightarrow> access \<Rightarrow> subject answer" where
  "page_route env c k r s a = (case require_login env c r a of
     Handled sub \<Rightarrow> guard k s r sub | x \<Rightarrow> x)"


section \<open>Logging in and out\<close>

definition sessionTTL :: duration where
  "sessionTTL = 12 * 60 * 60 * second"

datatype login_error = NoBinding | LoginStoreError store_error

text \<open>What the binding rules give a login; with the ACL off every login can do everything.\<close>

definition login_grant :: "access_env \<Rightarrow> person \<Rightarrow> access \<Rightarrow> granted" where
  "login_grant env p a = (if en_acl_on env
     then fst (Bind (en_eval env) (en_method env)
       \<lparr>cl_username = pe_claim_username p, cl_sub = pe_claim_sub p, cl_groups = pe_claim_groups p\<rparr>
       (BindingRules a))
     else \<lparr>gr_management = True, gr_policies = []\<rparr>)"

definition session_token :: "access_env \<Rightarrow> call \<Rightarrow> person \<Rightarrow> granted \<Rightarrow> acl_token" where
  "session_token env c p g = \<lparr>tk_accessor = [], tk_name = pe_username p,
     tk_type = (if gr_management g then TokenManagement else TokenClient),
     tk_policies = (if gr_management g then [] else gr_policies g), tk_acl = en_acl_on env,
     tk_origin = OriginLogin, tk_identity = pe_identity p, tk_created_at = 0,
     tk_expires_at = Some (c_now c + sessionTTL), tk_creator_accessor = [],
     tk_creator_name = pe_username p, tk_creator_identity = pe_identity p\<rparr>"

text \<open>\<open>newLoginSession\<close>, with the new secret as an argument.\<close>

definition newLoginSession ::
  "access_env \<Rightarrow> call \<Rightarrow> string \<Rightarrow> person \<Rightarrow> access \<Rightarrow> access \<times> (login_error + acl_token)" where
  "newLoginSession env c sec p a =
     (let g = login_grant env p a in
      if en_acl_on env \<and> \<not> granted_any g then (a, Inl NoBinding)
      else let a1 = fst (DeleteExpiredTokens c a) in
        (case CreateACLToken c (session_token env c p g) (en_hash env sec)
            \<lparr>au_accessor = [], au_actor = pe_username p, au_identity = pe_identity p\<rparr> a1 of
           Inl e \<Rightarrow> (a1, Inl (LoginStoreError e))
         | Inr (a2, t) \<Rightarrow> (a2, Inr t)))"

text \<open>The login cookies of a browser.\<close>

record cookies =
  ck_token :: string
  ck_session :: string

datatype web_answer = Found | SeeOther | Status nat

text \<open>\<open>Done\<close>: the end of a login in the browser.\<close>

definition Done :: "access_env \<Rightarrow> call \<Rightarrow> string \<Rightarrow> person \<Rightarrow> cookies \<Rightarrow> access \<Rightarrow> access \<times> cookies \<times> web_answer" where
  "Done env c sec p ck a = (case newLoginSession env c sec p a of
       (b, Inl NoBinding) \<Rightarrow> (b, ck, Status 403)
     | (b, Inl (LoginStoreError _)) \<Rightarrow> (b, ck, Status 500)
     | (b, Inr t) \<Rightarrow> (b, \<lparr>ck_token = [], ck_session = sec\<rparr>, Found))"

definition pasteToken :: "access_env \<Rightarrow> call \<Rightarrow> string \<Rightarrow> cookies \<Rightarrow> access \<Rightarrow> cookies \<times> web_answer" where
  "pasteToken env c form ck a = (let pasted = trim_space form in
     (case tokenSubject env c pasted a of
        Inl e \<Rightarrow> if e = ErrNotFound then (ck, Status 401) else (ck, Status 500)
      | Inr sub \<Rightarrow> (\<lparr>ck_token = pasted, ck_session = []\<rparr>, Found)))"

text \<open>\<open>logout\<close>: a session token is revoked, a pasted one only forgotten.\<close>

definition logout :: "access_env \<Rightarrow> call \<Rightarrow> cookies \<Rightarrow> access \<Rightarrow> access \<times> cookies \<times> web_answer" where
  "logout env c ck a =
     (let b = (if ck_session ck = [] then a
        else case tokenSubject env c (ck_session ck) a of
            Inl _ \<Rightarrow> a
          | Inr sub \<Rightarrow> (case su_token sub of None \<Rightarrow> a
              | Some t \<Rightarrow> if tk_origin t \<noteq> OriginLogin then a
                  else (case RevokeACLToken c (su_accessor sub) (auditOf sub) a of
                      Inl _ \<Rightarrow> a | Inr b \<Rightarrow> b)))
      in (b, \<lparr>ck_token = [], ck_session = []\<rparr>, SeeOther))"

section \<open>What the binding rules add up to\<close>

definition binds :: "(string \<Rightarrow> claims \<Rightarrow> string + bool) \<Rightarrow> string \<Rightarrow> claims \<Rightarrow> binding_rule \<Rightarrow> bool" where
  "binds eval m cl r = (br_method r = m \<and> rule_matches eval cl r = Some True)"

lemma bind_rules_grants:
  "(gr_management (fst (bind_rules eval m cl rs (g, errs))) \<longleftrightarrow>
      gr_management g \<or> (\<exists>r\<in>set rs. binds eval m cl r \<and> br_type r = BindManagement)) \<and>
   set (gr_policies (fst (bind_rules eval m cl rs (g, errs)))) =
      set (gr_policies g) \<union> br_bind_name ` {r \<in> set rs. binds eval m cl r \<and> br_type r = BindPolicy} \<and>
   snd (bind_rules eval m cl rs (g, errs)) =
      errs @ map br_id (filter (\<lambda>r. br_method r = m \<and> rule_matches eval cl r = None) rs)"
proof (induction rs arbitrary: g errs)
  case (Cons r rs)
  show ?case
  proof (cases "br_method r = m")
    case True
    show ?thesis
    proof (cases "rule_matches eval cl r")
      case None
      with True show ?thesis by (simp add: Cons.IH binds_def) auto
    next
      case (Some v)
      with True show ?thesis by (cases v) (auto simp: Cons.IH binds_def)
    qed
  next
    case False
    then show ?thesis by (auto simp: Cons.IH binds_def)
  qed
qed simp

lemma sorted_remdups_adj_distinct: "sorted xs \<Longrightarrow> distinct (remdups_adj xs)" for xs :: "'a::linorder list"
proof (induction xs rule: remdups_adj.induct)
  case (3 x y xs)
  then show ?case by (auto simp: sorted_simps)
qed simp_all

text \<open>
  What a login gets is decided by the set of the binding rules of its auth method whose
  selector matches its claims, whatever their order: management if one of them binds it, and the
  policies they name, sorted and without repeats. A rule whose selector cannot be evaluated binds
  nothing and is reported, and the others still apply.
\<close>

theorem Bind_adds_up:
  "(gr_management (fst (Bind eval m cl rules)) \<longleftrightarrow>
      (\<exists>r\<in>set rules. binds eval m cl r \<and> br_type r = BindManagement)) \<and>
   set (gr_policies (fst (Bind eval m cl rules))) =
      br_bind_name ` {r \<in> set rules. binds eval m cl r \<and> br_type r = BindPolicy} \<and>
   sorted (gr_policies (fst (Bind eval m cl rules))) \<and> distinct (gr_policies (fst (Bind eval m cl rules))) \<and>
   snd (Bind eval m cl rules) = map br_id (filter (\<lambda>r. br_method r = m \<and> rule_matches eval cl r = None) rules)"
  using bind_rules_grants [of eval m cl rules "\<lparr>gr_management = False, gr_policies = []\<rparr>" "[]"]
  by (auto simp: Bind_def sort_compact_def sorted_remdups_adj sorted_remdups_adj_distinct split: prod.split)


section \<open>Who a secret stands for\<close>

definition is_bootstrap :: "access_env \<Rightarrow> string \<Rightarrow> bool" where
  "is_bootstrap env secret = (en_acl_on env \<and> en_bootstrap env \<noteq> [] \<and> secret = en_bootstrap env)"

lemma client_policies_total: "\<exists>ps. client_policies env a names = Inr ps"
  by (induction names) (auto simp: ACLPolicy_def split: option.splits sum.splits)

lemma clientACL_total: "\<exists>ps. clientACL env a names = Inr (new_acl ps)"
  using client_policies_total [of env a names] by (auto simp: clientACL_def)

lemma tokenSubject_none:
  "\<not> is_bootstrap env secret \<Longrightarrow> ACLTokenBySecret c (en_hash env secret) (en_acl_on env) a = Inl e \<Longrightarrow>
     tokenSubject env c secret a = Inl ErrNotFound"
  by (auto simp: tokenSubject_def is_bootstrap_def dest: ACLTokenBySecret_error)

text \<open>The access list of a token: everything, or what its policies say.\<close>

definition power_of :: "access_env \<Rightarrow> access \<Rightarrow> acl_token \<Rightarrow> acl" where
  "power_of env a t = (if \<not> en_acl_on env \<or> tk_type t = TokenManagement then management_acl
     else projr (clientACL env a (tk_policies t)))"

lemma tokenSubject_token:
  assumes "\<not> is_bootstrap env secret"
    "ACLTokenBySecret c (en_hash env secret) (en_acl_on env) a = Inr t"
  shows "tokenSubject env c secret a = Inr \<lparr>su_actor = tk_name t, su_accessor = tk_accessor t,
    su_identity = tk_identity t, su_token = Some t, su_acl = power_of env a t, su_session_secret = []\<rparr>"
  using assms clientACL_total [of env a "tk_policies t"]
  by (auto simp: tokenSubject_def is_bootstrap_def power_of_def)

lemma tokenSubject_error: "tokenSubject env c secret a = Inl e \<Longrightarrow> e = ErrNotFound"
  using tokenSubject_token [of env secret c a] tokenSubject_none [of env secret c a]
  by (cases "is_bootstrap env secret"; cases "ACLTokenBySecret c (en_hash env secret) (en_acl_on env) a")
    (auto simp: tokenSubject_def is_bootstrap_def)

lemma tokenSubject_cases:
  assumes "tokenSubject env c secret a = Inr sub"
  obtains "is_bootstrap env secret" "su_acl sub = management_acl" "su_accessor sub = bootstrapAccessorID"
      "su_token sub = None"
  | t where "\<not> is_bootstrap env secret"
      "ACLTokenBySecret c (en_hash env secret) (en_acl_on env) a = Inr t" "su_token sub = Some t"
      "su_accessor sub = tk_accessor t" "su_actor sub = tk_name t" "su_identity sub = tk_identity t"
      "su_acl sub = power_of env a t"
proof (cases "is_bootstrap env secret")
  case True
  with assms that(1) show ?thesis by (simp add: tokenSubject_def is_bootstrap_def) (metis subject.select_convs)
next
  case False
  show ?thesis
  proof (cases "ACLTokenBySecret c (en_hash env secret) (en_acl_on env) a")
    case (Inl e)
    with False assms tokenSubject_none [OF False Inl] show ?thesis by simp
  next
    case (Inr t)
    from tokenSubject_token [OF False Inr] assms have "sub = \<lparr>su_actor = tk_name t, su_accessor = tk_accessor t,
      su_identity = tk_identity t, su_token = Some t, su_acl = power_of env a t, su_session_secret = []\<rparr>" by simp
    with that(2) [OF False Inr] show ?thesis by simp
  qed
qed

lemma policies_loaded_type [simp]:
  "tk_type (load_policies a t) = tk_type t" "tk_acl (load_policies a t) = tk_acl t"
  "tk_origin (load_policies a t) = tk_origin t"
  by (simp_all add: load_policies_def)

text \<open>
  Claim C16. Every request the API serves is authenticated and allowed: its secret is the bootstrap
  token (only with the ACL on), or the secret of a stored token made in the mode the ACL is in now
  and not expired; it acts as that token, with everything allowed only to a management token or
  with the ACL off; and the check of its route holds for it.
\<close>

theorem served_requests_authorized:
  assumes "access_stored a" "api_route env c k r s a = Handled sub"
  shows "run_check k s r sub = Inr True \<and> (\<exists>secret. bearer r = Some secret \<and>
    (is_bootstrap env secret \<and> su_accessor sub = bootstrapAccessorID \<or>
     (\<exists>row. (en_hash env secret, row) \<in> set (ac_tokens a) \<and> tk_acl row = en_acl_on env \<and>
        \<not> expired c row \<and> su_accessor sub = tk_accessor row \<and>
        (acl_management (su_acl sub) \<longleftrightarrow> \<not> en_acl_on env \<or> tk_type row = TokenManagement))))"
proof -
  obtain secret where b: "bearer r = Some secret" and ts: "tokenSubject env c secret a = Inr sub"
    and chk: "run_check k s r sub = Inr True"
    using assms(2) by (auto simp: api_route_def requireToken_def guard_def split: option.splits sum.splits if_splits bool.splits)
  from ts show ?thesis
  proof (cases rule: tokenSubject_cases)
    case 1
    with b chk show ?thesis by blast
  next
    case (2 t)
    obtain ps where "clientACL env a (tk_policies t) = Inr (new_acl ps)" using clientACL_total by blast
    then have "acl_management (su_acl sub) \<longleftrightarrow> \<not> en_acl_on env \<or> tk_type t = TokenManagement"
      using 2 by (simp add: power_of_def management_acl_def new_acl_def)
    moreover from secret_authenticates [OF assms(1)] 2(2) obtain row where
      "(en_hash env secret, row) \<in> set (ac_tokens a)" "tk_acl row = en_acl_on env"
      "\<not> expired c row" "t = load_policies a row" by blast
    ultimately show ?thesis using b chk 2 by auto
  qed
qed


section \<open>A session from the login to its end\<close>

lemma expiry_stored: "access_stored a \<Longrightarrow> access_stored (fst (DeleteExpiredTokens c a))"
  by (rule reach_step, assumption, rule access_stepI [where op = OpDeleteExpired and c = c]) simp

lemma newLoginSession_Inr:
  assumes "newLoginSession env c sec p a = (b, Inr t)"
  shows "CreateACLToken c (session_token env c p (login_grant env p a)) (en_hash env sec)
      \<lparr>au_accessor = [], au_actor = pe_username p, au_identity = pe_identity p\<rparr>
      (fst (DeleteExpiredTokens c a)) = Inr (b, t)"
    and "en_acl_on env \<longrightarrow> granted_any (login_grant env p a)"
  using assms by (auto simp: newLoginSession_def Let_def split: if_splits sum.splits prod.splits)

text \<open>A login, successful or not, is a sequence of operations of the store.\<close>

lemma newLoginSession_stored:
  assumes "access_stored a" "newLoginSession env c sec p a = (b, r)"
  shows "access_stored b"
proof (cases r)
  case (Inl e)
  with assms expiry_stored [OF assms(1), of c] show ?thesis
    by (auto simp: newLoginSession_def Let_def split: if_splits sum.splits prod.splits)
next
  case (Inr t)
  from newLoginSession_Inr(1) [OF assms(2) [unfolded Inr]] show ?thesis
    by (intro reach_step [OF expiry_stored [OF assms(1), of c]] access_stepI [where c = c and op = "OpCreateToken
        (session_token env c p (login_grant env p a)) (en_hash env sec)
        \<lparr>au_accessor = [], au_actor = pe_username p, au_identity = pe_identity p\<rparr>"]) simp
qed

lemma CreateACLToken_out: "CreateACLToken c t h who a = Inr (b, u) \<Longrightarrow> u = stamp_token c t"
  by (auto simp: CreateACLToken_def Let_def split: if_splits)

lemma created_row:
  "CreateACLToken c t h who a = Inr (b, u) \<Longrightarrow>
     find (\<lambda>r. fst r = h) (ac_tokens b) = Some (h, stamp_token c t\<lparr>tk_policies := []\<rparr>)"
  by (auto simp: CreateACLToken_def Let_def find_append list_ex_iff find_None_iff_all
      split: if_splits option.splits dest!: find_SomeD)

lemma session_stands:
  assumes "access_stored a" "newLoginSession env c sec p a = (b, Inr t)" "\<not> is_bootstrap env sec"
  defines "g \<equiv> login_grant env p a"
  shows "if c_now c' < c_now c + sessionTTL
    then tokenSubject env c' sec b = Inr \<lparr>su_actor = pe_username p, su_accessor = c_new_id c,
      su_identity = pe_identity p, su_token = Some (t\<lparr>tk_policies := sort (remdups (tk_policies t))\<rparr>),
      su_acl = (if \<not> en_acl_on env \<or> gr_management g then management_acl
                else projr (clientACL env b (sort (remdups (gr_policies g))))),
      su_session_secret = []\<rparr>
    else tokenSubject env c' sec b = Inl ErrNotFound"
proof -
  note made = newLoginSession_Inr(1) [OF assms(2)]
  have t: "t = stamp_token c (session_token env c p g)"
    unfolding g_def by (rule CreateACLToken_out [OF made])
  have acl: "tk_acl (session_token env c p g) = en_acl_on env" by (simp add: session_token_def)
  show ?thesis
  proof (cases "c_now c' < c_now c + sessionTTL")
    case True
    then have "\<not> expired c' (session_token env c p (login_grant env p a))"
      by (simp add: expired_def session_token_def)
    from created_token_found [OF expiry_stored [OF assms(1)] made this]
    have found: "ACLTokenBySecret c' (en_hash env sec) (en_acl_on env) b =
        Inr (t\<lparr>tk_policies := sort (remdups (tk_policies t))\<rparr>)"
      using acl by (simp add: t g_def stamp_token_def)
    show ?thesis
      using True tokenSubject_token [OF assms(3) found]
      by (simp add: t power_of_def stamp_token_def session_token_def)
  next
    case False
    then have "expired c' (stamp_token c (session_token env c p (login_grant env p a)))"
      by (simp add: expired_def session_token_def stamp_token_def)
    then have "ACLTokenBySecret c' (en_hash env sec) (en_acl_on env) b = Inl ErrNotFound"
      using created_row [OF made] by (simp add: ACLTokenBySecret_def expired_def split: option.splits)
    with False show ?thesis using tokenSubject_none [OF assms(3)] by simp
  qed
qed

text \<open>
  A login gets a session only when the binding rules grant it something (with the ACL off,
  always); the session then stands for that person, with everything if management was granted and
  else with the policies granted, until twelve hours later, and for no one after that.
\<close>

theorem login_session_lasts:
  assumes "access_stored a" "newLoginSession env c sec p a = (b, Inr t)" "\<not> is_bootstrap env sec"
  defines "g \<equiv> login_grant env p a"
  shows "(en_acl_on env \<longrightarrow> granted_any g) \<and> (if c_now c' < c_now c + sessionTTL
    then tokenSubject env c' sec b = Inr \<lparr>su_actor = pe_username p, su_accessor = c_new_id c,
      su_identity = pe_identity p, su_token = Some (t\<lparr>tk_policies := sort (remdups (tk_policies t))\<rparr>),
      su_acl = (if \<not> en_acl_on env \<or> gr_management g then management_acl
                else projr (clientACL env b (sort (remdups (gr_policies g))))),
      su_session_secret = []\<rparr>
    else tokenSubject env c' sec b = Inl ErrNotFound)"
  unfolding g_def using assms(2) session_stands [OF assms(1-3), of c']
  by (auto simp: newLoginSession_def Let_def split: if_splits)

text \<open>
  Logging out ends the session in the store, not only in the browser: after it, and
  whatever happens next but the creation of a token with the very same secret, the secret of the
  session cookie stands for no one.
\<close>

theorem logout_ends_session:
  assumes "access_stored a" "tokenSubject env c (ck_session ck) a = Inr sub" "ck_session ck \<noteq> []"
    "su_token sub = Some t" "tk_origin t = OriginLogin" "su_actor sub \<noteq> []"
    "logout env c ck a = (b, ck', answer)" "runs access_step b d"
    "\<not> logged ''create'' (tk_accessor t) (new_changes b d)" "tokenSubject env c' secret d = Inr sub'"
    "tk_accessor t \<noteq> bootstrapAccessorID"
  shows "su_accessor sub' \<noteq> tk_accessor t"
proof -
  from assms(2) have tok: "su_accessor sub = tk_accessor t"
    "ACLTokenBySecret c (en_hash env (ck_session ck)) (en_acl_on env) a = Inr t"
    by (cases rule: tokenSubject_cases; use assms(4) in simp)+
  from authenticated_row [OF tok(2)] have ex: "list_ex (\<lambda>r. accessor_of r = tk_accessor t) (ac_tokens a)"
    by (auto simp: list_ex_iff)
  obtain b0 where rev: "RevokeACLToken c (tk_accessor t) (auditOf sub) a = Inr b0"
    using assms(6) ex by (simp add: RevokeACLToken_def auditOf_def)
  have b: "b = b0" using assms(2,3,4,5,7) tok(1) rev by (simp add: logout_def Let_def)
  from assms(10) show ?thesis
  proof (cases rule: tokenSubject_cases)
    case 1
    with assms(11) show ?thesis by simp
  next
    case (2 t')
    with revoked_for_good [OF assms(1) rev assms(8,9) [unfolded b]] show ?thesis by simp
  qed
qed

section \<open>Policies as they are now\<close>

lemma client_policies_deleted:
  assumes "DeleteACLPolicy c n who a = Inr b"
  shows "client_policies env b names = client_policies env a (filter (\<lambda>x. x \<noteq> n) names)"
proof -
  have look: "ACLPolicy x b = (if x = n then Inl ErrNotFound else ACLPolicy x a)" for x
  proof -
    have "find (\<lambda>p. pr_name p = x) (filter (\<lambda>p. pr_name p \<noteq> n) ps) =
        (if x = n then None else find (\<lambda>p. pr_name p = x) ps)" for ps :: "policy_row list"
      by (induction ps) auto
    then show ?thesis using assms
      by (auto simp: DeleteACLPolicy_def ACLPolicy_def delete_where_def split: if_splits)
  qed
  show ?thesis by (induction names) (simp_all add: look split: sum.split)
qed

text \<open>
  Deleting an ACL policy takes what it granted from every token that carries it, at
  once: the token stays, with the access list of its other policies. (The name stays on the token:
  a policy created later under it would grant again.)
\<close>

theorem deleted_policy_grants_nothing:
  assumes "DeleteACLPolicy c n who a = Inr b" "tokenSubject env c' secret a = Inr sub"
    "su_token sub = Some t" "en_acl_on env" "tk_type t \<noteq> TokenManagement"
  shows "\<exists>sub'. tokenSubject env c' secret b = Inr sub' \<and> su_token sub' = Some t \<and>
    su_acl sub' = projr (clientACL env a (filter (\<lambda>x. x \<noteq> n) (tk_policies t)))"
proof -
  from assms(2,3) have nb: "\<not> is_bootstrap env secret"
    and found: "ACLTokenBySecret c' (en_hash env secret) (en_acl_on env) a = Inr t"
    by (cases rule: tokenSubject_cases; simp)+
  have "ACLTokenBySecret c' (en_hash env secret) (en_acl_on env) b = Inr t"
    using assms(1) found
    by (auto simp: DeleteACLPolicy_def ACLTokenBySecret_def load_policies_def split: if_splits option.splits)
  from tokenSubject_token [OF nb this] assms(4,5) client_policies_deleted [OF assms(1), of env "tk_policies t"]
  show ?thesis by (simp add: power_of_def clientACL_def)
qed


section \<open>Samples\<close>

definition sample_env :: access_env where
  "sample_env = \<lparr>en_acl_on = True, en_bootstrap = ''root'', en_method = ''basic'',
     en_hash = (\<lambda>x. CHR ''h'' # x), en_hcl = (\<lambda>_. Inr sample_file), en_parse_selector = (\<lambda>_. None),
     en_eval = (\<lambda>_ _. Inr True)\<rparr>"

definition ann :: person where
  "ann = \<lparr>pe_identity = ''basic:ann'', pe_username = ''ann'', pe_claim_username = ''ann'', pe_claim_sub = [],
     pe_claim_groups = []\<rparr>"

definition everyone_manages :: binding_rule where
  "everyone_manages = \<lparr>br_id = [], br_description = [], br_method = ''basic'', br_selector = [],
     br_type = BindManagement, br_bind_name = [], br_created_at = 0, br_modified_at = 0\<rparr>"

definition with_rule :: access where
  "with_rule = insertChange (at_time 1 ''R'') (by_name ''root'') ''create'' ''binding-rule'' ''R''
     (empty_access\<lparr>ac_rules := [everyone_manages\<lparr>br_id := ''R'', br_created_at := 1, br_modified_at := 1\<rparr>]\<rparr>)"

lemma with_rule_stored: "access_stored with_rule"
proof -
  have "exec_access (at_time 1 ''R'') (OpPutRule everyone_manages (by_name ''root'')) empty_access = Inr with_rule"
    by (simp add: PutBindingRule_def checkBindingRule_def everyone_manages_def by_name_def rule_check_def
        empty_access_def BindingRule_def with_rule_def at_time_def)
  then have "exec_all [(at_time 1 ''R'', OpPutRule everyone_manages (by_name ''root''))] empty_access = Inr with_rule"
    by simp
  then show ?thesis by (rule exec_all_stored)
qed

lemma ann_grant: "login_grant sample_env ann with_rule = \<lparr>gr_management = True, gr_policies = []\<rparr>"
  by (simp add: login_grant_def Bind_def sample_env_def with_rule_def BindingRules_def empty_access_def
      everyone_manages_def rule_matches_def sort_compact_def)

definition ann_session :: "access \<times> (login_error + acl_token)" where
  "ann_session = newLoginSession sample_env (at_time 10 ''S'') ''x'' ann with_rule"

lemma ann_logs_in: "\<exists>b. ann_session = (b, Inr (stamp_token (at_time 10 ''S'')
     (session_token sample_env (at_time 10 ''S'') ann \<lparr>gr_management = True, gr_policies = []\<rparr>)))"
  unfolding ann_session_def newLoginSession_def ann_grant Let_def
  by (simp add: granted_any_def DeleteExpiredTokens_def Let_def fold_delete CreateACLToken_def
      token_refused_def session_token_def ann_def with_rule_def empty_access_def tokens_but_def
      policies_but_def stamp_token_def sample_env_def at_time_def)

theorem login_session_lasts_witness:
  "tokenSubject sample_env (at_time (10 + sessionTTL) []) ''x'' (fst ann_session) = Inl ErrNotFound"
proof -
  obtain b t where b: "ann_session = (b, Inr t)" using ann_logs_in by blast
  have "\<not> is_bootstrap sample_env ''x''" by (simp add: is_bootstrap_def sample_env_def)
  from login_session_lasts [OF with_rule_stored b [unfolded ann_session_def] this, of "at_time (10 + sessionTTL) []"]
  show ?thesis by (simp add: b)
qed



theorem logout_ends_session_witness:
  "su_accessor (projr (tokenSubject sample_env (at_time 30 []) ''root'' empty_access)) \<noteq> ''S''"
proof -
  obtain s t where s: "ann_session = (s, Inr t)"
    and t: "t = stamp_token (at_time 10 ''S'') (session_token sample_env (at_time 10 ''S'') ann
      \<lparr>gr_management = True, gr_policies = []\<rparr>)"
    using ann_logs_in by blast
  have nb: "\<not> is_bootstrap sample_env ''x''" by (simp add: is_bootstrap_def sample_env_def)
  have tt: "tk_origin t = OriginLogin" "tk_accessor t = ''S''"
    by (simp_all add: t stamp_token_def session_token_def at_time_def)
  have "\<exists>sub. tokenSubject sample_env (at_time 20 []) ''x'' s = Inr sub \<and> su_actor sub = ''ann'' \<and>
      su_token sub = Some (t\<lparr>tk_policies := sort (remdups (tk_policies t))\<rparr>)"
    using session_stands [OF with_rule_stored s [unfolded ann_session_def] nb, of "at_time 20 []"]
    by (simp add: at_time_def sessionTTL_def ann_def)
  then obtain sub where sub: "tokenSubject sample_env (at_time 20 []) ''x'' s = Inr sub" "su_actor sub = ''ann''"
    "su_token sub = Some (t\<lparr>tk_policies := sort (remdups (tk_policies t))\<rparr>)" by blast
  obtain b ck' answer where out: "logout sample_env (at_time 20 []) \<lparr>ck_token = [], ck_session = ''x''\<rparr> s = (b, ck', answer)"
    by (metis prod.exhaust)
  have boot: "tokenSubject sample_env c ''root'' a = Inr \<lparr>su_actor = bootstrapAccessorID,
      su_accessor = bootstrapAccessorID, su_identity = [], su_token = None, su_acl = management_acl,
      su_session_secret = []\<rparr>" for c a
    by (simp add: tokenSubject_def sample_env_def)
  have stored: "access_stored s"
    by (rule newLoginSession_stored [OF with_rule_stored s [unfolded ann_session_def]])
  have "bootstrapAccessorID \<noteq> tk_accessor (t\<lparr>tk_policies := sort (remdups (tk_policies t))\<rparr>)"
    using logout_ends_session [OF stored _ _ sub(3) _ _ out runs_refl _ boot [of "at_time 30 []" b]] sub(1,2) tt
    by (simp add: new_changes_def logged_def bootstrapAccessorID_def)
  then show ?thesis by (simp add: tt boot)
qed

theorem served_requests_authorized_witness:
  "bearer \<lparr>rq_get = True, rq_namespace = [], rq_deployment = [], rq_name = [], rq_authorization = ''bearer a'',
     rq_token_cookie = [], rq_session_cookie = [], rq_htmx = False\<rparr> \<noteq> None"
proof -
  let ?r = "\<lparr>rq_get = True, rq_namespace = [], rq_deployment = [], rq_name = [], rq_authorization = ''bearer a'',
     rq_token_cookie = [], rq_session_cookie = [], rq_htmx = False\<rparr>"
  have "bearer ?r = Some ''a''" by code_simp
  moreover have "tokenSubject sample_env (at_time 5 []) ''a'' sample_access =
      Inr \<lparr>su_actor = ''t'', su_accessor = ''A'', su_identity = [], su_token = Some tok_A, su_acl = management_acl,
        su_session_secret = []\<rparr>"
    by (simp add: tokenSubject_def sample_env_def ACLTokenBySecret_def sample_access_def expired_def
        load_policies_def) (simp add: tok_A_def stamp_token_def made_by_def)
  ultimately have "api_route sample_env (at_time 5 []) AnyToken ?r empty_store sample_access =
      Handled \<lparr>su_actor = ''t'', su_accessor = ''A'', su_identity = [], su_token = Some tok_A, su_acl = management_acl,
        su_session_secret = []\<rparr>"
    by (simp add: api_route_def requireToken_def guard_def run_check_def)
  from served_requests_authorized [OF sample_access_stored this] show ?thesis by blast
qed


definition tok_C :: acl_token where
  "tok_C = \<lparr>tk_accessor = ''C'', tk_name = ''ci'', tk_type = TokenClient, tk_policies = [''dev''],
     tk_acl = True, tk_origin = OriginCreated, tk_identity = [], tk_created_at = 0, tk_expires_at = None,
     tk_creator_accessor = ''A'', tk_creator_name = ''t'', tk_creator_identity = []\<rparr>"

definition dev_access :: access where
  "dev_access = empty_access\<lparr>ac_policies := [\<lparr>pr_name = ''dev'', pr_description = [], pr_rules = ''r'',
       pr_created_at = 0, pr_modified_at = 0\<rparr>],
     ac_tokens := [(''hc'', tok_C\<lparr>tk_policies := []\<rparr>)], ac_token_policies := [(''C'', ''dev'')]\<rparr>"

theorem deleted_policy_grants_nothing_witness:
  "is_ok (tokenSubject sample_env (at_time 5 []) ''c''
     (projr (DeleteACLPolicy (at_time 4 []) ''dev'' (by_name ''root'') dev_access)))"
proof -
  have "ACLTokenBySecret (at_time 5 []) (en_hash sample_env ''c'') (en_acl_on sample_env) dev_access = Inr tok_C"
    by (simp add: ACLTokenBySecret_def sample_env_def dev_access_def empty_access_def tok_C_def expired_def load_policies_def)
  moreover have nb: "\<not> is_bootstrap sample_env ''c''" by (simp add: is_bootstrap_def sample_env_def)
  ultimately obtain sub where sub: "tokenSubject sample_env (at_time 5 []) ''c'' dev_access = Inr sub"
    "su_token sub = Some tok_C" using tokenSubject_token by (metis subject.select_convs(4))
  obtain b where b: "DeleteACLPolicy (at_time 4 []) ''dev'' (by_name ''root'') dev_access = Inr b"
    by (simp add: DeleteACLPolicy_def by_name_def dev_access_def)
  have "en_acl_on sample_env" "tk_type tok_C \<noteq> TokenManagement" by (simp_all add: sample_env_def tok_C_def)
  from deleted_policy_grants_nothing [OF b sub this] show ?thesis by (auto simp: b)
qed

end
