(* ===== verification/AccessApi.thy ===== *)
theory AccessApi
  imports Access
begin

text \<open>
  The administration of access control over the API (\<open>internal/web/acl.go\<close>, \<open>api_acl.go\<close>, the
  table of routes of \<open>api.go\<close>): the checks in front of the store, the handlers, and the whole call
  of an endpoint, from the bearer token through the check of its route. Bodies arrive decoded,
  \<open>None\<close> standing for one \<open>readBody\<close> refuses; what is logged is left out.
\<close>

section \<open>Checks before the store\<close>

datatype admin_error = InvalidInput | AdminStore store_error

definition maxTokenName :: nat where "maxTokenName = 100"

definition maxRules :: nat where "maxRules = 16384"

definition maxSelector :: nat where "maxSelector = 1024"

definition maxDescription :: nat where "maxDescription = 200"

definition changesShown :: int where "changesShown = 100"

definition authMethods :: "string list" where "authMethods = [''oidc'', ''basic'']"

definition policyName :: "string \<Rightarrow> bool" where
  "policyName n = (n \<noteq> [] \<and> length n \<le> 128 \<and>
     list_all (\<lambda>x. between CHR ''A'' CHR ''Z'' x \<or> between CHR ''a'' CHR ''z'' x \<or>
       between CHR ''0'' CHR ''9'' x \<or> x = CHR ''-'') n)"

definition from_store :: "(store_error + 'a) \<Rightarrow> (admin_error + 'a)" where
  "from_store r = (case r of Inl e \<Rightarrow> Inl (AdminStore e) | Inr x \<Rightarrow> Inr x)"

definition putPolicy :: "access_env \<Rightarrow> call \<Rightarrow> subject \<Rightarrow> policy_row \<Rightarrow> access \<Rightarrow> admin_error + access" where
  "putPolicy env c sub p a =
     (if \<not> policyName (pr_name p) then Inl InvalidInput
      else if trim_space (pr_rules p) = [] then Inl InvalidInput
      else if maxRules < length (pr_rules p) then Inl InvalidInput
      else if \<not> is_ok (acl_parse (en_hcl env) (pr_rules p)) then Inl InvalidInput
      else from_store (PutACLPolicy c p (auditOf sub) a))"

text \<open>An ACL policy that must exist: unknown is the caller's mistake.\<close>

definition policy_exists :: "string \<Rightarrow> access \<Rightarrow> admin_error + unit" where
  "policy_exists n a = (case ACLPolicy n a of Inr _ \<Rightarrow> Inr ()
     | Inl e \<Rightarrow> if e = ErrNotFound then Inl InvalidInput else Inl (AdminStore e))"

definition putBindingRule ::
  "access_env \<Rightarrow> call \<Rightarrow> subject \<Rightarrow> binding_rule \<Rightarrow> access \<Rightarrow> admin_error + (access \<times> binding_rule)" where
  "putBindingRule env c sub r0 a =
     (let r = r0\<lparr>br_description := trim_space (br_description r0), br_selector := trim_space (br_selector r0)\<rparr> in
      if maxDescription < length (br_description r) then Inl InvalidInput
      else if br_method r \<notin> set authMethods then Inl InvalidInput
      else if maxSelector < length (br_selector r) then Inl InvalidInput
      else if \<not> ValidSelector (en_parse_selector env) (en_eval env) (br_selector r) then Inl InvalidInput
      else bindE (if br_type r = BindManagement then
             (if br_bind_name r \<noteq> [] then Inl InvalidInput else Inr ())
           else if br_type r = BindPolicy then policy_exists (br_bind_name r) a
           else Inl InvalidInput)
        (\<lambda>_. from_store (PutBindingRule c r (auditOf sub) a)))"

record new_token =
  nt_name :: string
  nt_type :: string
  nt_policies :: "string list"
  nt_expires_in :: duration

fun policies_exist :: "string list \<Rightarrow> access \<Rightarrow> admin_error + unit" where
  "policies_exist [] a = Inr ()"
| "policies_exist (n # ns) a = bindE (policy_exists n a) (\<lambda>_. policies_exist ns a)"

text \<open>
  \<open>createToken\<close>, with the new secret as an argument; the secret is returned to the caller alone.
\<close>

definition token_for :: "access_env \<Rightarrow> call \<Rightarrow> subject \<Rightarrow> string \<Rightarrow> string \<Rightarrow> new_token \<Rightarrow> acl_token" where
  "token_for env c sub name type nt = \<lparr>tk_accessor = [], tk_name = name, tk_type = type,
     tk_policies = sort_compact (nt_policies nt), tk_acl = en_acl_on env, tk_origin = [], tk_identity = [],
     tk_created_at = 0,
     tk_expires_at = (if 0 < nt_expires_in nt then Some (c_now c + nt_expires_in nt) else None),
     tk_creator_accessor = su_accessor sub, tk_creator_name = su_actor sub,
     tk_creator_identity = su_identity sub\<rparr>"

definition createToken ::
  "access_env \<Rightarrow> call \<Rightarrow> string \<Rightarrow> subject \<Rightarrow> new_token \<Rightarrow> access \<Rightarrow> admin_error + (access \<times> acl_token)" where
  "createToken env c sec sub nt a =
     (let name = trim_space (nt_name nt); type = (if nt_type nt = [] then TokenClient else nt_type nt) in
      if name = [] \<or> maxTokenName < length name then Inl InvalidInput
      else bindE (if type = TokenManagement then (if nt_policies nt \<noteq> [] then Inl InvalidInput else Inr ())
             else if type = TokenClient then policies_exist (nt_policies nt) a
             else Inl InvalidInput)
        (\<lambda>_. if nt_expires_in nt < 0 then Inl InvalidInput
             else from_store (CreateACLToken c (token_for env c sub name type nt) (en_hash env sec)
               (auditOf sub) a)))"

definition revokeTokens ::
  "call \<Rightarrow> subject \<Rightarrow> revocation \<Rightarrow> access \<Rightarrow> admin_error + (access \<times> string list)" where
  "revokeTokens c sub rv a =
     (if \<not> revocation_valid rv then Inl InvalidInput else from_store (RevokeACLTokens c rv (auditOf sub) a))"

section \<open>The routes of the API\<close>

text \<open>
  \<open>apiEndpoints\<close>: the pattern of each route and its check. The handlers of the jobs and the
  deployments are the engine's operations and the lists.
\<close>

definition apiEndpoints :: "bool \<Rightarrow> (string \<times> route_check) list" where
  "apiEndpoints has_trigger =
    [(''GET /api/openapi.json'', AnyToken),
     (''GET /api/jobs'', AnyToken),
     (''GET /api/jobs/{namespace}/{job}'', InNamespace ''read''),
     (''GET /api/deployments'', AnyToken),
     (''GET /api/deployments/{id}'', OnDeployment ''read''),
     (''POST /api/deployments/{id}/approve'', OnDeployment ''approve''),
     (''POST /api/deployments/{id}/reject'', OnDeployment ''approve''),
     (''POST /api/deployments/{id}/promote'', OnDeployment ''promote''),
     (''POST /api/deployments/{id}/retry'', OnDeployment ''retry''),
     (''POST /api/jobs/{namespace}/{job}/pause'', InNamespace ''pause''),
     (''POST /api/jobs/{namespace}/{job}/resume'', InNamespace ''pause''),
     (''POST /api/jobs/{namespace}/{job}/deploy-now'', InNamespace ''deploy-now''),
     (''POST /api/pause'', Globally ''pause''),
     (''POST /api/resume'', Globally ''pause''),
     (''GET /api/backup'', Globally ''backup''),
     (''GET /api/acl/policies'', AnyToken),
     (''GET /api/acl/policies/{name}'', AnyToken),
     (''PUT /api/acl/policies/{name}'', ManagementOnly),
     (''DELETE /api/acl/policies/{name}'', ManagementOnly),
     (''GET /api/acl/binding-rules'', ManagementOnly),
     (''POST /api/acl/binding-rules'', ManagementOnly),
     (''GET /api/acl/binding-rules/{id}'', ManagementOnly),
     (''PUT /api/acl/binding-rules/{id}'', ManagementOnly),
     (''DELETE /api/acl/binding-rules/{id}'', ManagementOnly),
     (''GET /api/acl/tokens'', ManagementOnly),
     (''POST /api/acl/tokens'', ManagementOnly),
     (''GET /api/acl/tokens/{accessor_id}'', ManagementOnly),
     (''DELETE /api/acl/tokens/{accessor_id}'', ManagementOnly),
     (''POST /api/acl/tokens/revoke-sessions'', ManagementOnly),
     (''POST /api/acl/tokens/revoke-created'', ManagementOnly),
     (''GET /api/acl/token/self'', AnyToken),
     (''DELETE /api/acl/token/self'', AnyToken),
     (''GET /api/acl/changes'', ManagementOnly)] @
    (if has_trigger then [(''POST /api/fetch'', Globally ''fetch'')] else [])"


section \<open>The handlers\<close>

record rule_body =
  rb_description :: string
  rb_method :: string
  rb_selector :: string
  rb_type :: string
  rb_name :: string

record token_body =
  tb_name :: string
  tb_type :: string
  tb_policies :: "string list"
  tb_expires_in :: string

datatype acl_request =
    ListPolicies
  | GetPolicy string
  | PutPolicy string "(string \<times> string) option"
  | DeletePolicy string
  | ListRules
  | CreateRule "rule_body option"
  | GetRule string
  | PutRule string "rule_body option"
  | DeleteRule string
  | ListTokens
  | NewToken "token_body option"
  | GetToken string
  | RevokeToken string
  | RevokeSessions "string option"
  | RevokeCreated "(string \<times> string) option"
  | SelfToken
  | RevokeSelf
  | ListChanges

datatype acl_answer =
    Policies "policy_row list"
  | OnePolicy policy_row
  | Rules "binding_rule list"
  | OneRule nat binding_rule
  | Tokens "acl_token list"
  | OneToken acl_token
  | MadeToken acl_token string
  | Revoked "string list"
  | Changes "acl_change list"
  | NoContent
  | ApiError nat

fun api_pattern :: "acl_request \<Rightarrow> string" where
  "api_pattern ListPolicies = ''GET /api/acl/policies''"
| "api_pattern (GetPolicy n) = ''GET /api/acl/policies/{name}''"
| "api_pattern (PutPolicy n b) = ''PUT /api/acl/policies/{name}''"
| "api_pattern (DeletePolicy n) = ''DELETE /api/acl/policies/{name}''"
| "api_pattern ListRules = ''GET /api/acl/binding-rules''"
| "api_pattern (CreateRule b) = ''POST /api/acl/binding-rules''"
| "api_pattern (GetRule i) = ''GET /api/acl/binding-rules/{id}''"
| "api_pattern (PutRule i b) = ''PUT /api/acl/binding-rules/{id}''"
| "api_pattern (DeleteRule i) = ''DELETE /api/acl/binding-rules/{id}''"
| "api_pattern ListTokens = ''GET /api/acl/tokens''"
| "api_pattern (NewToken b) = ''POST /api/acl/tokens''"
| "api_pattern (GetToken i) = ''GET /api/acl/tokens/{accessor_id}''"
| "api_pattern (RevokeToken i) = ''DELETE /api/acl/tokens/{accessor_id}''"
| "api_pattern (RevokeSessions b) = ''POST /api/acl/tokens/revoke-sessions''"
| "api_pattern (RevokeCreated b) = ''POST /api/acl/tokens/revoke-created''"
| "api_pattern SelfToken = ''GET /api/acl/token/self''"
| "api_pattern RevokeSelf = ''DELETE /api/acl/token/self''"
| "api_pattern ListChanges = ''GET /api/acl/changes''"

text \<open>The status of an error: 404 where the handler tells not found apart, and 500 otherwise.\<close>

definition store_status :: "store_error \<Rightarrow> nat" where
  "store_status e = (if e = ErrNotFound then 404 else 500)"

definition admin_status :: "admin_error \<Rightarrow> nat" where
  "admin_status e = (case e of InvalidInput \<Rightarrow> 400 | AdminStore _ \<Rightarrow> 500)"

definition rule_of :: "string \<Rightarrow> rule_body \<Rightarrow> binding_rule" where
  "rule_of i b = \<lparr>br_id = i, br_description = rb_description b, br_method = rb_method b,
     br_selector = rb_selector b, br_type = rb_type b, br_bind_name = rb_name b, br_created_at = 0, br_modified_at = 0\<rparr>"

definition api_put_policy ::
  "access_env \<Rightarrow> call \<Rightarrow> subject \<Rightarrow> string \<Rightarrow> string \<times> string \<Rightarrow> access \<Rightarrow> access \<times> acl_answer" where
  "api_put_policy env c sub n b a =
     (case putPolicy env c sub \<lparr>pr_name = n, pr_description = fst b, pr_rules = snd b, pr_created_at = 0, pr_modified_at = 0\<rparr> a of
        Inl e \<Rightarrow> (a, ApiError (admin_status e))
      | Inr b \<Rightarrow> (case ACLPolicy n b of Inl _ \<Rightarrow> (b, ApiError 500) | Inr p \<Rightarrow> (b, OnePolicy p)))"

definition api_save_rule ::
  "access_env \<Rightarrow> call \<Rightarrow> subject \<Rightarrow> string \<Rightarrow> nat \<Rightarrow> rule_body option \<Rightarrow> access \<Rightarrow> access \<times> acl_answer" where
  "api_save_rule env c sub i status body a = (case body of None \<Rightarrow> (a, ApiError 400)
     | Some b \<Rightarrow> (case putBindingRule env c sub (rule_of i b) a of
         Inl InvalidInput \<Rightarrow> (a, ApiError 400)
       | Inl (AdminStore e) \<Rightarrow> (a, ApiError (store_status e))
       | Inr (b, saved) \<Rightarrow> (b, OneRule status saved)))"

definition api_create_token ::
  "access_env \<Rightarrow> (string \<Rightarrow> duration option) \<Rightarrow> call \<Rightarrow> string \<Rightarrow> subject \<Rightarrow> token_body option \<Rightarrow> access \<Rightarrow>
     access \<times> acl_answer" where
  "api_create_token env dur c sec sub body a = (case body of None \<Rightarrow> (a, ApiError 400)
     | Some b \<Rightarrow>
       (let d = (if tb_expires_in b = [] then Some 0
                 else case dur (tb_expires_in b) of None \<Rightarrow> None | Some d \<Rightarrow> if d \<le> 0 then None else Some d)
        in case d of None \<Rightarrow> (a, ApiError 400)
         | Some d \<Rightarrow> (case createToken env c sec sub \<lparr>nt_name = tb_name b, nt_type = tb_type b,
               nt_policies = tb_policies b, nt_expires_in = d\<rparr> a of
             Inl e \<Rightarrow> (a, ApiError (admin_status e))
           | Inr (b, t) \<Rightarrow> (b, MadeToken t sec))))"

definition api_revoke_tokens :: "call \<Rightarrow> subject \<Rightarrow> revocation \<Rightarrow> access \<Rightarrow> access \<times> acl_answer" where
  "api_revoke_tokens c sub rv a = (case revokeTokens c sub rv a of
       Inl e \<Rightarrow> (a, ApiError (admin_status e))
     | Inr (b, ids) \<Rightarrow> (b, Revoked ids))"

text \<open>An operation that answers with no content.\<close>

definition no_content :: "(store_error + access) \<Rightarrow> access \<Rightarrow> access \<times> acl_answer" where
  "no_content r a = (case r of Inl e \<Rightarrow> (a, ApiError (store_status e)) | Inr b \<Rightarrow> (b, NoContent))"

text \<open>\<open>apiSelfToken\<close> describes the bootstrap token, which has no row.\<close>

definition self_token :: "subject \<Rightarrow> acl_token" where
  "self_token sub = (case su_token sub of Some t \<Rightarrow> t
     | None \<Rightarrow> \<lparr>tk_accessor = su_accessor sub, tk_name = su_actor sub, tk_type = TokenManagement, tk_policies = [],
         tk_acl = True, tk_origin = OriginCreated, tk_identity = [], tk_created_at = 0, tk_expires_at = None,
         tk_creator_accessor = [], tk_creator_name = [], tk_creator_identity = []\<rparr>)"

definition apiListPolicies :: "subject \<Rightarrow> access \<Rightarrow> access \<times> acl_answer" where
  [simp]: "apiListPolicies sub a = (a, Policies (filter (\<lambda>p. carries sub (pr_name p)) (ACLPolicies a)))"

definition apiGetPolicy :: "subject \<Rightarrow> string \<Rightarrow> access \<Rightarrow> access \<times> acl_answer" where
  [simp]: "apiGetPolicy sub n a =
     (if \<not> carries sub n then (a, ApiError 403)
      else case ACLPolicy n a of Inl e \<Rightarrow> (a, ApiError (store_status e)) | Inr p \<Rightarrow> (a, OnePolicy p))"

definition apiDeletePolicy :: "call \<Rightarrow> subject \<Rightarrow> string \<Rightarrow> access \<Rightarrow> access \<times> acl_answer" where
  [simp]: "apiDeletePolicy c sub n a = no_content (DeleteACLPolicy c n (auditOf sub) a) a"

definition apiListBindingRules :: "access \<Rightarrow> access \<times> acl_answer" where
  [simp]: "apiListBindingRules a = (a, Rules (BindingRules a))"

definition apiGetBindingRule :: "string \<Rightarrow> access \<Rightarrow> access \<times> acl_answer" where
  [simp]: "apiGetBindingRule i a =
     (case BindingRule i a of Inl e \<Rightarrow> (a, ApiError (store_status e)) | Inr r \<Rightarrow> (a, OneRule 200 r))"

definition apiDeleteBindingRule :: "call \<Rightarrow> subject \<Rightarrow> string \<Rightarrow> access \<Rightarrow> access \<times> acl_answer" where
  [simp]: "apiDeleteBindingRule c sub i a = no_content (DeleteBindingRule c i (auditOf sub) a) a"

definition apiListTokens :: "call \<Rightarrow> access \<Rightarrow> access \<times> acl_answer" where
  [simp]: "apiListTokens c a = (a, Tokens (ACLTokens c a))"

definition apiGetToken :: "call \<Rightarrow> string \<Rightarrow> access \<Rightarrow> access \<times> acl_answer" where
  [simp]: "apiGetToken c i a =
     (case ACLToken c i a of Inl e \<Rightarrow> (a, ApiError (store_status e)) | Inr t \<Rightarrow> (a, OneToken t))"

definition apiRevokeToken :: "call \<Rightarrow> subject \<Rightarrow> string \<Rightarrow> access \<Rightarrow> access \<times> acl_answer" where
  [simp]: "apiRevokeToken c sub i a = no_content (RevokeACLToken c i (auditOf sub) a) a"

definition apiRevokeSessions :: "call \<Rightarrow> subject \<Rightarrow> string option \<Rightarrow> access \<Rightarrow> access \<times> acl_answer" where
  [simp]: "apiRevokeSessions c sub body a =
     (case body of None \<Rightarrow> (a, ApiError 400)
      | Some who \<Rightarrow> api_revoke_tokens c sub \<lparr>sessions_of = who, rev_identity = [], rev_accessor = []\<rparr> a)"

definition apiRevokeCreated :: "call \<Rightarrow> subject \<Rightarrow> (string \<times> string) option \<Rightarrow> access \<Rightarrow> access \<times> acl_answer" where
  [simp]: "apiRevokeCreated c sub body a =
     (case body of None \<Rightarrow> (a, ApiError 400)
      | Some (who, acc) \<Rightarrow> api_revoke_tokens c sub \<lparr>sessions_of = [], rev_identity = who, rev_accessor = acc\<rparr> a)"

text \<open>The token of a login revokes itself; the bootstrap token cannot be revoked.\<close>

definition apiRevokeSelf :: "call \<Rightarrow> subject \<Rightarrow> access \<Rightarrow> access \<times> acl_answer" where
  [simp]: "apiRevokeSelf c sub a =
     (case su_token sub of None \<Rightarrow> (a, ApiError 400)
      | Some _ \<Rightarrow> (case RevokeACLToken c (su_accessor sub) (auditOf sub) a of
          Inr b \<Rightarrow> (b, NoContent)
        | Inl e \<Rightarrow> if e = ErrNotFound then (a, NoContent) else (a, ApiError 500)))"

definition apiChanges :: "access \<Rightarrow> access \<times> acl_answer" where
  [simp]: "apiChanges a = (a, Changes (ACLChanges changesShown a))"

text \<open>The handler each route of the administration is given.\<close>

fun acl_api ::
  "access_env \<Rightarrow> (string \<Rightarrow> duration option) \<Rightarrow> call \<Rightarrow> string \<Rightarrow> subject \<Rightarrow> acl_request \<Rightarrow> access \<Rightarrow>
     access \<times> acl_answer" where
  "acl_api env dur c sec sub ListPolicies a = apiListPolicies sub a"
| "acl_api env dur c sec sub (GetPolicy n) a = apiGetPolicy sub n a"
| "acl_api env dur c sec sub (PutPolicy n body) a =
     (case body of None \<Rightarrow> (a, ApiError 400) | Some b \<Rightarrow> api_put_policy env c sub n b a)"
| "acl_api env dur c sec sub (DeletePolicy n) a = apiDeletePolicy c sub n a"
| "acl_api env dur c sec sub ListRules a = apiListBindingRules a"
| "acl_api env dur c sec sub (CreateRule body) a = api_save_rule env c sub [] 201 body a"
| "acl_api env dur c sec sub (GetRule i) a = apiGetBindingRule i a"
| "acl_api env dur c sec sub (PutRule i body) a = api_save_rule env c sub i 200 body a"
| "acl_api env dur c sec sub (DeleteRule i) a = apiDeleteBindingRule c sub i a"
| "acl_api env dur c sec sub ListTokens a = apiListTokens c a"
| "acl_api env dur c sec sub (NewToken body) a = api_create_token env dur c sec sub body a"
| "acl_api env dur c sec sub (GetToken i) a = apiGetToken c i a"
| "acl_api env dur c sec sub (RevokeToken i) a = apiRevokeToken c sub i a"
| "acl_api env dur c sec sub (RevokeSessions body) a = apiRevokeSessions c sub body a"
| "acl_api env dur c sec sub (RevokeCreated body) a = apiRevokeCreated c sub body a"
| "acl_api env dur c sec sub SelfToken a = (a, OneToken (self_token sub))"
| "acl_api env dur c sec sub RevokeSelf a = apiRevokeSelf c sub a"
| "acl_api env dur c sec sub ListChanges a = apiChanges a"

text \<open>The whole call of an endpoint.\<close>

definition api_check :: "acl_request \<Rightarrow> route_check" where
  "api_check q = the (map_of (apiEndpoints False) (api_pattern q))"

definition acl_call ::
  "access_env \<Rightarrow> (string \<Rightarrow> duration option) \<Rightarrow> call \<Rightarrow> string \<Rightarrow> request \<Rightarrow> acl_request \<Rightarrow> store \<Rightarrow> access \<Rightarrow>
     access \<times> acl_answer answer" where
  "acl_call env dur c sec r q s a = (case api_route env c (api_check q) r s a of
       Handled sub \<Rightarrow> (case acl_api env dur c sec sub q a of (b, x) \<Rightarrow> (b, Handled x))
     | Unauthorized \<Rightarrow> (a, Unauthorized) | LoginRedirect \<Rightarrow> (a, LoginRedirect) | HtmxLogin \<Rightarrow> (a, HtmxLogin)
     | Forbidden \<Rightarrow> (a, Forbidden) | ServerError \<Rightarrow> (a, ServerError))"


section \<open>Every call is operations of the store\<close>

lemma from_store_Inr [simp]: "from_store r = Inr x \<longleftrightarrow> r = Inr x"
  by (cases r) (simp_all add: from_store_def)

lemma exec_runs: "exec_access c op a = Inr b \<Longrightarrow> runs access_step a b"
  by (rule runs_single, rule access_stepI)

lemma createToken_Inr:
  "createToken env c sec sub nt a = Inr (b, t) \<Longrightarrow>
     CreateACLToken c (token_for env c sub (trim_space (nt_name nt))
       (if nt_type nt = [] then TokenClient else nt_type nt) nt) (en_hash env sec) (auditOf sub) a = Inr (b, t)"
  by (auto simp: createToken_def Let_def bindE_Inr split: if_splits)

lemma api_check_eq:
  "api_check q = (case q of ListPolicies \<Rightarrow> AnyToken | GetPolicy n \<Rightarrow> AnyToken | SelfToken \<Rightarrow> AnyToken
     | RevokeSelf \<Rightarrow> AnyToken | _ \<Rightarrow> ManagementOnly)"
  by (cases q) (simp_all add: api_check_def apiEndpoints_def)

lemma api_route_Handled:
  "api_route env c k r s a = Handled sub \<longleftrightarrow> requireToken env c r a = Handled sub \<and> run_check k s r sub = Inr True"
  by (auto simp: api_route_def guard_def split: answer.splits sum.splits bool.splits)

text \<open>
  What an endpoint stands for, said apart from its handler: the one operation of the store a call may be,
  by whom it is recorded, and what has to hold of the body and of the database. Every other endpoint, and
  a body that does not read, stand for none.
\<close>

definition saved_rule :: "access_env \<Rightarrow> subject \<Rightarrow> string \<Rightarrow> rule_body \<Rightarrow> access \<Rightarrow> access_op \<Rightarrow> bool" where
  "saved_rule env sub i b a op =
     (op = OpPutRule \<lparr>br_id = i, br_description = trim_space (rb_description b), br_method = rb_method b,
        br_selector = trim_space (rb_selector b), br_type = rb_type b, br_bind_name = rb_name b, br_created_at = 0,
        br_modified_at = 0\<rparr> (auditOf sub) \<and>
      length (trim_space (rb_description b)) \<le> 200 \<and> (rb_method b = ''oidc'' \<or> rb_method b = ''basic'') \<and>
      length (trim_space (rb_selector b)) \<le> 1024 \<and>
      ValidSelector (en_parse_selector env) (en_eval env) (trim_space (rb_selector b)) \<and>
      (rb_type b = BindManagement \<and> rb_name b = [] \<or>
       rb_type b = BindPolicy \<and> (\<exists>p. ACLPolicy (rb_name b) a = Inr p)))"

definition minted_token :: "access_env \<Rightarrow> (string \<Rightarrow> duration option) \<Rightarrow> call \<Rightarrow> string \<Rightarrow> subject \<Rightarrow> token_body \<Rightarrow> access \<Rightarrow>
    access_op \<Rightarrow> bool" where
  "minted_token env dur c sec sub b a op =
     (\<exists>d type. (if tb_expires_in b = [] then d = 0 else dur (tb_expires_in b) = Some d \<and> 0 < d) \<and>
        type = (if tb_type b = [] then TokenClient else tb_type b) \<and>
        op = OpCreateToken \<lparr>tk_accessor = [], tk_name = trim_space (tb_name b), tk_type = type,
          tk_policies = sort_compact (tb_policies b), tk_acl = en_acl_on env, tk_origin = [], tk_identity = [],
          tk_created_at = 0, tk_expires_at = (if d = 0 then None else Some (c_now c + d)),
          tk_creator_accessor = su_accessor sub, tk_creator_name = su_actor sub, tk_creator_identity = su_identity sub\<rparr>
          (en_hash env sec) (auditOf sub) \<and>
        trim_space (tb_name b) \<noteq> [] \<and> length (trim_space (tb_name b)) \<le> 100 \<and>
        (type = TokenManagement \<and> tb_policies b = [] \<or>
         type = TokenClient \<and> (\<forall>n\<in>set (tb_policies b). \<exists>p. ACLPolicy n a = Inr p)))"

fun stands_for :: "access_env \<Rightarrow> (string \<Rightarrow> duration option) \<Rightarrow> call \<Rightarrow> string \<Rightarrow> subject \<Rightarrow> acl_request \<Rightarrow> access \<Rightarrow>
    access_op \<Rightarrow> bool" where
  "stands_for env dur c sec sub (PutPolicy n (Some b)) a op =
     (op = OpPutPolicy \<lparr>pr_name = n, pr_description = fst b, pr_rules = snd b, pr_created_at = 0, pr_modified_at = 0\<rparr> (auditOf sub) \<and>
      1 \<le> length n \<and> length n \<le> 128 \<and> (\<forall>x\<in>set n. between CHR ''A'' CHR ''Z'' x \<or> between CHR ''a'' CHR ''z'' x \<or>
        between CHR ''0'' CHR ''9'' x \<or> x = CHR ''-'') \<and>
      trim_space (snd b) \<noteq> [] \<and> length (snd b) \<le> 16384 \<and> (\<exists>p. acl_parse (en_hcl env) (snd b) = Inr p))"
| "stands_for env dur c sec sub (DeletePolicy n) a op = (op = OpDeletePolicy n (auditOf sub))"
| "stands_for env dur c sec sub (CreateRule (Some b)) a op = saved_rule env sub [] b a op"
| "stands_for env dur c sec sub (PutRule i (Some b)) a op = saved_rule env sub i b a op"
| "stands_for env dur c sec sub (DeleteRule i) a op = (op = OpDeleteRule i (auditOf sub))"
| "stands_for env dur c sec sub (NewToken (Some b)) a op = minted_token env dur c sec sub b a op"
| "stands_for env dur c sec sub (RevokeToken i) a op = (op = OpRevokeToken i (auditOf sub))"
| "stands_for env dur c sec sub (RevokeSessions (Some who)) a op =
     (op = OpRevokeTokens \<lparr>sessions_of = who, rev_identity = [], rev_accessor = []\<rparr> (auditOf sub) \<and> who \<noteq> [])"
| "stands_for env dur c sec sub (RevokeCreated (Some b)) a op =
     (op = OpRevokeTokens \<lparr>sessions_of = [], rev_identity = fst b, rev_accessor = snd b\<rparr> (auditOf sub) \<and>
      (fst b = []) \<noteq> (snd b = []))"
| "stands_for env dur c sec sub RevokeSelf a op = (op = OpRevokeToken (su_accessor sub) (auditOf sub) \<and> su_token sub \<noteq> None)"
| "stands_for env dur c sec sub _ a op = False"

text \<open>The database after a call of a handler: the operation it stands for, if there is one and the store takes it.\<close>

definition carried_out :: "call \<Rightarrow> (access_op \<Rightarrow> bool) \<Rightarrow> access \<Rightarrow> access \<Rightarrow> bool" where
  "carried_out c P a b = ((b = a \<or> (\<exists>op. P op \<and> exec_access c op a = Inr b)) \<and>
     (\<forall>op b'. P op \<and> exec_access c op a = Inr b' \<longrightarrow> b = b'))"

lemma carried_out_one:
  assumes "\<And>op. P op \<longleftrightarrow> ok \<and> op = opr" "b = (if ok then (case exec_access c opr a of Inl _ \<Rightarrow> a | Inr b' \<Rightarrow> b') else a)"
  shows "carried_out c P a b"
  using assms by (auto simp: carried_out_def split: sum.splits)

lemma carried_out_none: "(\<And>op. \<not> P op) \<Longrightarrow> carried_out c P a a"
  by (simp add: carried_out_def)

lemma ACLPolicy_error: "ACLPolicy n a = Inl e \<Longrightarrow> e = ErrNotFound"
  by (auto simp: ACLPolicy_def split: option.splits)

lemma policy_exists_eq: "policy_exists n a = (if \<exists>p. ACLPolicy n a = Inr p then Inr () else Inl InvalidInput)"
  using ACLPolicy_error [of n a] by (cases "ACLPolicy n a") (simp_all add: policy_exists_def)

lemma policies_exist_eq:
  "policies_exist ns a = (if \<forall>n\<in>set ns. \<exists>p. ACLPolicy n a = Inr p then Inr () else Inl InvalidInput)"
  by (induction ns) (auto simp: policy_exists_eq)

lemma put_policy_carried:
  "carried_out c (stands_for env dur c sec sub (PutPolicy n (Some b)) a) a (fst (api_put_policy env c sub n b a))"
proof (rule carried_out_one)
  let ?p = "\<lparr>pr_name = n, pr_description = fst b, pr_rules = snd b, pr_created_at = 0, pr_modified_at = 0\<rparr>"
  let ?ok = "policyName n \<and> trim_space (snd b) \<noteq> [] \<and> length (snd b) \<le> maxRules \<and> is_ok (acl_parse (en_hcl env) (snd b))"
  show "stands_for env dur c sec sub (PutPolicy n (Some b)) a op \<longleftrightarrow> ?ok \<and> op = OpPutPolicy ?p (auditOf sub)" for op
    by (cases "acl_parse (en_hcl env) (snd b)") (auto simp: policyName_def maxRules_def list_all_iff Suc_le_eq)
  show "fst (api_put_policy env c sub n b a) =
      (if ?ok then (case exec_access c (OpPutPolicy ?p (auditOf sub)) a of Inl _ \<Rightarrow> a | Inr b' \<Rightarrow> b') else a)"
    by (auto simp: api_put_policy_def putPolicy_def from_store_def split: sum.splits)
qed

lemma save_rule_carried: "carried_out c (saved_rule env sub i b a) a (fst (api_save_rule env c sub i st (Some b) a))"
proof (rule carried_out_one)
  let ?r = "\<lparr>br_id = i, br_description = trim_space (rb_description b), br_method = rb_method b,
    br_selector = trim_space (rb_selector b), br_type = rb_type b, br_bind_name = rb_name b, br_created_at = 0, br_modified_at = 0\<rparr>"
  let ?ok = "length (br_description ?r) \<le> maxDescription \<and> br_method ?r \<in> set authMethods \<and>
    length (br_selector ?r) \<le> maxSelector \<and> ValidSelector (en_parse_selector env) (en_eval env) (br_selector ?r) \<and>
    (br_type ?r = BindManagement \<and> br_bind_name ?r = [] \<or>
     br_type ?r = BindPolicy \<and> (\<exists>p. ACLPolicy (br_bind_name ?r) a = Inr p))"
  show "saved_rule env sub i b a op \<longleftrightarrow> ?ok \<and> op = OpPutRule ?r (auditOf sub)" for op
    by (auto simp: saved_rule_def maxDescription_def maxSelector_def authMethods_def)
  have ne: "BindManagement \<noteq> BindPolicy" by simp
  have "putBindingRule env c sub (rule_of i b) a = (if ?ok then from_store (PutBindingRule c ?r (auditOf sub) a) else Inl InvalidInput)"
    using ne by (simp add: putBindingRule_def rule_of_def Let_def policy_exists_eq not_less [symmetric])
  then show "fst (api_save_rule env c sub i st (Some b) a) =
      (if ?ok then (case exec_access c (OpPutRule ?r (auditOf sub)) a of Inl _ \<Rightarrow> a | Inr b' \<Rightarrow> b') else a)"
    by (cases "PutBindingRule c ?r (auditOf sub) a") (auto simp: api_save_rule_def from_store_def)
qed

lemma create_token_carried:
  "carried_out c (minted_token env dur c sec sub b a) a (fst (api_create_token env dur c sec sub (Some b) a))"
proof -
  let ?d = "if tb_expires_in b = [] then Some 0
    else case dur (tb_expires_in b) of None \<Rightarrow> None | Some d \<Rightarrow> if d \<le> 0 then None else Some d"
  let ?type = "if tb_type b = [] then TokenClient else tb_type b"
  show ?thesis
  proof (cases ?d)
    case None
    then have "\<not> minted_token env dur c sec sub b a op" for op
      by (auto simp: minted_token_def split: if_splits option.splits)
    moreover from None have "fst (api_create_token env dur c sec sub (Some b) a) = a"
      by (simp add: api_create_token_def Let_def)
    ultimately show ?thesis using carried_out_none by metis
  next
    case (Some d)
    let ?t = "\<lparr>tk_accessor = [], tk_name = trim_space (tb_name b), tk_type = ?type,
      tk_policies = sort_compact (tb_policies b), tk_acl = en_acl_on env, tk_origin = [], tk_identity = [],
      tk_created_at = 0, tk_expires_at = (if d = 0 then None else Some (c_now c + d)),
      tk_creator_accessor = su_accessor sub, tk_creator_name = su_actor sub, tk_creator_identity = su_identity sub\<rparr>"
    let ?op = "OpCreateToken ?t (en_hash env sec) (auditOf sub)"
    let ?ok = "trim_space (tb_name b) \<noteq> [] \<and> length (trim_space (tb_name b)) \<le> 100 \<and>
        (?type = TokenManagement \<and> tb_policies b = [] \<or>
         ?type = TokenClient \<and> (\<forall>n\<in>set (tb_policies b). \<exists>p. ACLPolicy n a = Inr p))"
    have d: "0 \<le> d" "d = d' \<longleftrightarrow> (if tb_expires_in b = [] then d' = 0 else dur (tb_expires_in b) = Some d' \<and> 0 < d')" for d'
      using Some by (auto split: if_splits option.splits)
    have ne: "TokenManagement \<noteq> TokenClient" by (simp add: TokenManagement_def TokenClient_def)
    have t: "token_for env c sub (trim_space (tb_name b)) ?type \<lparr>nt_name = tb_name b, nt_type = tb_type b,
        nt_policies = tb_policies b, nt_expires_in = d\<rparr> = ?t"
      using d(1) by (simp add: token_for_def)
    have "createToken env c sec sub \<lparr>nt_name = tb_name b, nt_type = tb_type b, nt_policies = tb_policies b, nt_expires_in = d\<rparr> a =
        (if ?ok then from_store (CreateACLToken c ?t (en_hash env sec) (auditOf sub) a) else Inl InvalidInput)"
      using d(1) ne unfolding createToken_def Let_def new_token.simps t policies_exist_eq maxTokenName_def
      by (auto simp: not_less)
    then have "fst (api_create_token env dur c sec sub (Some b) a) =
        (if ?ok then (case exec_access c ?op a of Inl _ \<Rightarrow> a | Inr b' \<Rightarrow> b') else a)"
      using Some by (cases "CreateACLToken c ?t (en_hash env sec) (auditOf sub) a")
        (auto simp: api_create_token_def Let_def from_store_def)
    moreover have "minted_token env dur c sec sub b a op \<longleftrightarrow> ?ok \<and> op = ?op" for op
      unfolding minted_token_def d(2) [symmetric] by blast
    ultimately show ?thesis by (rule carried_out_one [rotated])
  qed
qed

lemma revoke_carried:
  assumes "\<And>op. P op \<longleftrightarrow> revocation_valid rv \<and> op = OpRevokeTokens rv (auditOf sub)"
  shows "carried_out c P a (fst (api_revoke_tokens c sub rv a))"
proof (rule carried_out_one [OF assms])
  show "fst (api_revoke_tokens c sub rv a) = (if revocation_valid rv
      then (case exec_access c (OpRevokeTokens rv (auditOf sub)) a of Inl _ \<Rightarrow> a | Inr b' \<Rightarrow> b') else a)"
    by (cases "RevokeACLTokens c rv (auditOf sub) a") (auto simp: api_revoke_tokens_def revokeTokens_def from_store_def)
qed

lemma single_carried:
  assumes "\<And>op. P op \<longleftrightarrow> op = opr" "b = (case exec_access c opr a of Inl _ \<Rightarrow> a | Inr b' \<Rightarrow> b')"
  shows "carried_out c P a b"
  by (rule carried_out_one [where ok = True and opr = opr]) (simp_all add: assms)

lemma no_content_fst: "fst (no_content r a) = (case r of Inl _ \<Rightarrow> a | Inr b \<Rightarrow> b)"
  by (simp add: no_content_def split: sum.splits)

lemma acl_api_carried: "carried_out c (stands_for env dur c sec sub q a) a (fst (acl_api env dur c sec sub q a))"
proof (cases q)
  case (PutPolicy n body)
  then show ?thesis using put_policy_carried by (cases body) (simp_all add: carried_out_none)
next
  case (DeletePolicy n)
  show ?thesis unfolding DeletePolicy by (rule single_carried [where opr = "OpDeletePolicy n (auditOf sub)"]) (simp_all add: no_content_fst)
next
  case (CreateRule body)
  show ?thesis
  proof (cases body)
    case (Some b)
    then show ?thesis unfolding CreateRule Some acl_api.simps stands_for.simps by (intro save_rule_carried)
  qed (simp add: CreateRule carried_out_none api_save_rule_def)
next
  case (PutRule i body)
  show ?thesis
  proof (cases body)
    case (Some b)
    then show ?thesis unfolding PutRule Some acl_api.simps stands_for.simps by (intro save_rule_carried)
  qed (simp add: PutRule carried_out_none api_save_rule_def)
next
  case (DeleteRule i)
  show ?thesis unfolding DeleteRule by (rule single_carried [where opr = "OpDeleteRule i (auditOf sub)"]) (simp_all add: no_content_fst)
next
  case (NewToken body)
  show ?thesis
  proof (cases body)
    case (Some b)
    then show ?thesis unfolding NewToken Some acl_api.simps stands_for.simps by (intro create_token_carried)
  qed (simp add: NewToken carried_out_none api_create_token_def)
next
  case (RevokeToken i)
  show ?thesis unfolding RevokeToken by (rule single_carried [where opr = "OpRevokeToken i (auditOf sub)"]) (simp_all add: no_content_fst)
next
  case (RevokeSessions body)
  show ?thesis
  proof (cases body)
    case (Some who)
    let ?rv = "\<lparr>sessions_of = who, rev_identity = [], rev_accessor = []\<rparr>"
    have "carried_out c (stands_for env dur c sec sub q a) a (fst (api_revoke_tokens c sub ?rv a))"
      by (rule revoke_carried) (auto simp: RevokeSessions Some revocation_valid_def)
    then show ?thesis by (simp add: RevokeSessions Some)
  qed (simp add: RevokeSessions carried_out_none)
next
  case (RevokeCreated body)
  show ?thesis
  proof (cases body)
    case (Some b)
    let ?rv = "\<lparr>sessions_of = [], rev_identity = fst b, rev_accessor = snd b\<rparr>"
    have "carried_out c (stands_for env dur c sec sub q a) a (fst (api_revoke_tokens c sub ?rv a))"
      by (rule revoke_carried) (auto simp: RevokeCreated Some revocation_valid_def)
    then show ?thesis by (simp add: RevokeCreated Some split_beta)
  qed (simp add: RevokeCreated carried_out_none)
next
  case RevokeSelf
  show ?thesis
  proof (rule carried_out_one [where ok = "su_token sub \<noteq> None" and opr = "OpRevokeToken (su_accessor sub) (auditOf sub)"])
    show "fst (acl_api env dur c sec sub q a) = (if su_token sub \<noteq> None
        then (case exec_access c (OpRevokeToken (su_accessor sub) (auditOf sub)) a of Inl _ \<Rightarrow> a | Inr b' \<Rightarrow> b') else a)"
      by (auto simp: RevokeSelf split: option.splits sum.splits)
  qed (auto simp: RevokeSelf)
qed (simp_all add: carried_out_none split: sum.splits)

lemma acl_api_runs: "runs access_step a (fst (acl_api env dur c sec sub q a))"
  using acl_api_carried [of c env dur sec sub q a] by (auto simp: carried_out_def intro: runs_refl exec_runs)

lemma apicheck_split: "run_check (api_check q) s r sub = Inr True \<and> stands_for env dur c sec sub q a op \<longleftrightarrow>
    (acl_management (su_acl sub) \<or> q = RevokeSelf) \<and> stands_for env dur c sec sub q a op"
  by (cases q) (auto simp: api_check_eq run_check_def)

text \<open>
  Claim C21. A call of the API on access control is carried out as the one operation of the store its endpoint stands
  for, whoever makes it: it changes the database only by that operation, for a subject whose secret
  authenticates and that may do everything (or a token revoking itself), recorded under its name, with a
  body within the bounds, that parses, and that names policies that exist; and wherever all of that holds
  and the store takes the operation, it is done. What it leaves is a database the store's operations
  reach, with a log that has only grown.
\<close>

theorem acl_call_refines_store:
  assumes "access_stored a"
  shows "(fst (acl_call env dur c sec r q s a) = a \<or>
      (\<exists>sub op. requireToken env c r a = Handled sub \<and> (acl_management (su_acl sub) \<or> q = RevokeSelf) \<and>
        stands_for env dur c sec sub q a op \<and> exec_access c op a = Inr (fst (acl_call env dur c sec r q s a)))) \<and>
    (\<forall>sub op b. requireToken env c r a = Handled sub \<and> (acl_management (su_acl sub) \<or> q = RevokeSelf) \<and>
      stands_for env dur c sec sub q a op \<and> exec_access c op a = Inr b \<longrightarrow> fst (acl_call env dur c sec r q s a) = b) \<and>
    access_stored (fst (acl_call env dur c sec r q s a)) \<and>
    prefix (ac_changes a) (ac_changes (fst (acl_call env dur c sec r q s a)))"
proof -
  let ?b = "fst (acl_call env dur c sec r q s a)"
  have handled: "?b = fst (acl_api env dur c sec sub q a)"
    if "requireToken env c r a = Handled sub" "run_check (api_check q) s r sub = Inr True" for sub
  proof -
    have "api_route env c (api_check q) r s a = Handled sub" using that by (simp only: api_route_Handled)
    then show ?thesis by (simp add: acl_call_def split: prod.split)
  qed
  have left: "?b = a \<or> (\<exists>sub. requireToken env c r a = Handled sub \<and> run_check (api_check q) s r sub = Inr True)"
    by (auto simp: acl_call_def api_route_Handled split: answer.splits prod.splits)
  note carried = acl_api_carried [unfolded carried_out_def, THEN conjunct1] and forced = acl_api_carried [unfolded carried_out_def, THEN conjunct2]
  have once: "?b = a \<or> (\<exists>sub op. requireToken env c r a = Handled sub \<and> (acl_management (su_acl sub) \<or> q = RevokeSelf) \<and>
      stands_for env dur c sec sub q a op \<and> exec_access c op a = Inr ?b)"
    using left carried handled apicheck_split by metis
  moreover have "?b = b" if "requireToken env c r a = Handled sub" "acl_management (su_acl sub) \<or> q = RevokeSelf"
      "stands_for env dur c sec sub q a op" "exec_access c op a = Inr b" for sub op b
    using forced handled [OF that(1)] apicheck_split that(2-4) by metis
  moreover have "runs access_step a ?b"
    using once exec_runs [of c _ a ?b] by (auto intro: runs_refl)
  from reach_runs [OF assms this] changes.runs_fwd [OF this access_tables.reach_inv [OF assms]]
  have "access_stored ?b \<and> prefix (ac_changes a) (ac_changes ?b)" by simp
  ultimately show ?thesis by blast
qed

section \<open>Who changes access control\<close>

text \<open>
  Claim C15. Only a management token (or anyone, with the ACL off) changes access control over the
  API: a call that changes anything was made by a subject that may do everything, or it is a token
  revoking itself, which changes nothing but its own row and the log.
\<close>

theorem only_management_changes_acl:
  assumes "fst (acl_call env dur c sec r q s a) \<noteq> a"
  shows "\<exists>sub. requireToken env c r a = Handled sub \<and>
    (acl_management (su_acl sub) \<or>
     (q = RevokeSelf \<and> fst (acl_call env dur c sec r q s a) =
        insertChange c (auditOf sub) ''revoke'' ''token'' (su_accessor sub) (delete_token (su_accessor sub) a)))"
proof -
  obtain sub where sub: "requireToken env c r a = Handled sub" "run_check (api_check q) s r sub = Inr True"
    and out: "fst (acl_call env dur c sec r q s a) = fst (acl_api env dur c sec sub q a)"
    using assms by (auto simp: acl_call_def api_route_Handled split: answer.splits prod.splits)
  show ?thesis
  proof (cases "api_check q = ManagementOnly")
    case True
    with sub show ?thesis by (auto simp: run_check_def)
  next
    case False
    with assms out have q: "q = RevokeSelf"
      by (cases q) (auto simp: api_check_eq split: sum.splits if_splits)
    with assms out sub(1) show ?thesis
      by (auto simp: RevokeACLToken_def split: option.splits sum.splits if_splits)
  qed
qed

text \<open>
  What a token reads of the ACL policies over the API: exactly the ones it carries, or
  every one for a management token; a policy it does not carry is refused before it is looked up,
  so the answer does not tell whether it exists.
\<close>

theorem policies_read_by_carriers:
  assumes "requireToken env c r a = Handled sub"
  shows "acl_call env dur c sec r (GetPolicy n) s a = (a, Handled
      (if carries sub n then (case ACLPolicy n a of Inl _ \<Rightarrow> ApiError 404 | Inr p \<Rightarrow> OnePolicy p) else ApiError 403)) \<and>
    acl_call env dur c sec r ListPolicies s a =
      (a, Handled (Policies (filter (\<lambda>p. carries sub (pr_name p)) (ACLPolicies a))))"
proof -
  have "api_route env c AnyToken r s a = Handled sub" using assms by (simp add: api_route_Handled run_check_def)
  then show ?thesis
    by (auto simp: acl_call_def api_check_eq ACLPolicy_def store_status_def split: option.splits)
qed


section \<open>Creating a token\<close>

lemma policies_exist_ok: "is_ok (policies_exist ns a) \<longleftrightarrow> (\<forall>n\<in>set ns. is_ok (ACLPolicy n a))"
proof (induction ns)
  case (Cons n ns)
  have "ACLPolicy n a = Inl e \<Longrightarrow> e = ErrNotFound" for e
    by (auto simp: ACLPolicy_def split: option.splits)
  with Cons show ?case by (auto simp: policy_exists_def split: sum.splits)
qed simp

lemma is_ok_iff: "is_ok r \<longleftrightarrow> (\<exists>x. r = Inr x)"
  by (cases r) simp_all

text \<open>
  A token made over the API has a name of 1 to 100 bytes, trimmed, and is either a
  management token without policies or a client token all of whose policies exist; it bears the
  token that asked for it as its creator. Until it expires its secret acts as it: with everything
  for a management token, and for a client token with what its policies allow.
\<close>

theorem minted_token_works:
  assumes "access_stored a" "createToken env c sec sub nt a = Inr (b, t)" "\<not> is_bootstrap env sec"
    "en_acl_on env" "nt_expires_in nt = 0 \<or> c_now c' < c_now c + nt_expires_in nt"
  shows "tk_name t = trim_space (nt_name nt) \<and> 1 \<le> length (tk_name t) \<and> length (tk_name t) \<le> maxTokenName \<and>
    (tk_type t = TokenManagement \<and> nt_policies nt = [] \<or>
     tk_type t = TokenClient \<and> (\<forall>n\<in>set (nt_policies nt). is_ok (ACLPolicy n a))) \<and>
    tk_creator_accessor t = su_accessor sub \<and> 0 \<le> nt_expires_in nt \<and>
    (\<exists>sub'. tokenSubject env c' sec b = Inr sub' \<and> su_accessor sub' = tk_accessor t \<and>
      su_acl sub' = (if tk_type t = TokenManagement then management_acl
        else projr (clientACL env b (sort (remdups (nt_policies nt))))))"
proof -
  note made = createToken_Inr [OF assms(2)]
  let ?t = "token_for env c sub (trim_space (nt_name nt)) (if nt_type nt = [] then TokenClient else nt_type nt) nt"
  have t: "t = stamp_token c ?t" by (rule CreateACLToken_out [OF made])
  from assms(2) have checks: "trim_space (nt_name nt) \<noteq> []" "length (trim_space (nt_name nt)) \<le> maxTokenName"
    "0 \<le> nt_expires_in nt"
    "tk_type ?t = TokenManagement \<and> nt_policies nt = [] \<or>
     tk_type ?t = TokenClient \<and> is_ok (policies_exist (nt_policies nt) a)"
    by (auto simp: createToken_def Let_def bindE_Inr token_for_def is_ok_iff split: if_splits)
  have sorted: "sort (remdups (sort_compact xs)) = sort (remdups xs)" for xs
    by (rule sorted_distinct_set_unique) simp_all
  have "\<not> expired c' ?t" using assms(5) checks(3)
    by (auto simp: expired_def token_for_def)
  from created_token_found [OF assms(1) made this]
  have "ACLTokenBySecret c' (en_hash env sec) (en_acl_on env) b =
      Inr (stamp_token c ?t\<lparr>tk_policies := sort (remdups (nt_policies nt))\<rparr>)"
    by (simp add: token_for_def sorted)
  from tokenSubject_token [OF assms(3) this]
  show ?thesis
    using checks policies_exist_ok assms(4) by (auto simp: t stamp_token_def power_of_def Suc_le_eq token_for_def)
qed

text \<open>A refused request leaves the database as it was.\<close>

lemma api_create_token_refused:
  "snd (api_create_token env dur c sec sub body a) = ApiError n \<Longrightarrow> fst (api_create_token env dur c sec sub body a) = a"
  by (auto simp: api_create_token_def Let_def split: option.splits sum.splits prod.splits if_splits)

section \<open>Samples\<close>

definition bearer_request :: "string \<Rightarrow> request" where
  "bearer_request h = \<lparr>rq_get = True, rq_namespace = [], rq_deployment = [], rq_name = [],
     rq_authorization = h, rq_token_cookie = [], rq_session_cookie = [], rq_htmx = False\<rparr>"

definition as_A :: subject where
  "as_A = \<lparr>su_actor = ''t'', su_accessor = ''A'', su_identity = [], su_token = Some tok_A,
     su_acl = management_acl, su_session_secret = []\<rparr>"

lemma A_requests:
  "requireToken sample_env (at_time 5 []) (bearer_request ''bearer a'') sample_access = Handled as_A"
proof -
  have "bearer (bearer_request ''bearer a'') = Some ''a''" by code_simp
  moreover have "tokenSubject sample_env (at_time 5 []) ''a'' sample_access = Inr as_A"
    by (simp add: tokenSubject_def sample_env_def ACLTokenBySecret_def sample_access_def expired_def
        load_policies_def as_A_def) (simp add: tok_A_def stamp_token_def made_by_def)
  ultimately show ?thesis by (simp add: requireToken_def)
qed

lemma A_revokes_B:
  "acl_call sample_env (\<lambda>_. None) (at_time 5 []) [] (bearer_request ''bearer a'') (RevokeToken ''B'') empty_store sample_access =
     (insertChange (at_time 5 []) (auditOf as_A) ''revoke'' ''token'' ''B'' (delete_token ''B'' sample_access), Handled NoContent)"
proof -
  have "api_route sample_env (at_time 5 []) ManagementOnly (bearer_request ''bearer a'') empty_store sample_access = Handled as_A"
    by (simp add: api_route_Handled A_requests run_check_def as_A_def management_acl_def)
  moreover have "au_actor (auditOf as_A) \<noteq> []" by (simp add: auditOf_def as_A_def)
  moreover have "list_ex (\<lambda>r. accessor_of r = ''B'') (ac_tokens sample_access)" by (simp add: sample_access_def)
  ultimately show ?thesis
    by (simp add: acl_call_def api_check_eq RevokeACLToken_def no_content_def)
qed

theorem acl_call_refines_store_witness:
  "access_stored (insertChange (at_time 5 []) (auditOf as_A) ''revoke'' ''token'' ''B'' (delete_token ''B'' sample_access))"
  using acl_call_refines_store [OF sample_access_stored, of sample_env "\<lambda>_. None" "at_time 5 []" "[]"
      "bearer_request ''bearer a''" "RevokeToken ''B''" empty_store, THEN conjunct2, THEN conjunct2, THEN conjunct1]
  by (simp add: A_revokes_B)

theorem only_management_changes_acl_witness: "acl_management (su_acl as_A)"
proof -
  have "ac_changes (insertChange (at_time 5 []) (auditOf as_A) ''revoke'' ''token'' ''B'' (delete_token ''B'' sample_access))
      \<noteq> ac_changes sample_access" by (simp add: insertChange_row)
  then have "fst (acl_call sample_env (\<lambda>_. None) (at_time 5 []) [] (bearer_request ''bearer a'') (RevokeToken ''B'')
      empty_store sample_access) \<noteq> sample_access" by (auto simp: A_revokes_B)
  from only_management_changes_acl [OF this] show ?thesis by (auto simp: A_requests)
qed

theorem policies_read_by_carriers_witness:
  "acl_call sample_env (\<lambda>_. None) (at_time 5 []) [] (bearer_request ''bearer a'') (GetPolicy ''dev'') empty_store sample_access =
     (sample_access, Handled (ApiError 404))"
  using policies_read_by_carriers [OF A_requests, of "\<lambda>_. None" "[]" "''dev''" empty_store]
  by (simp add: carries_def as_A_def management_acl_def ACLPolicy_def sample_access_def)

lemma A_mints:
  "\<exists>b t. createToken sample_env (at_time 6 ''D'') ''d'' as_A
     \<lparr>nt_name = ''d'', nt_type = TokenManagement, nt_policies = [], nt_expires_in = 0\<rparr> sample_access = Inr (b, t)"
proof -
  have "trim_space ''d'' = ''d''" by code_simp
  then show ?thesis
    by (simp add: createToken_def Let_def maxTokenName_def from_store_def CreateACLToken_def token_refused_def
        token_for_def sort_compact_def auditOf_def as_A_def sample_env_def sample_access_def)
qed

theorem minted_token_works_witness:
  "is_ok (tokenSubject sample_env (at_time 7 []) ''d'' (fst (projr (createToken sample_env (at_time 6 ''D'') ''d'' as_A
     \<lparr>nt_name = ''d'', nt_type = TokenManagement, nt_policies = [], nt_expires_in = 0\<rparr> sample_access))))"
proof -
  obtain b t where made: "createToken sample_env (at_time 6 ''D'') ''d'' as_A
     \<lparr>nt_name = ''d'', nt_type = TokenManagement, nt_policies = [], nt_expires_in = 0\<rparr> sample_access = Inr (b, t)"
    using A_mints by blast
  have "\<not> is_bootstrap sample_env ''d''" "en_acl_on sample_env" by (simp_all add: is_bootstrap_def sample_env_def)
  from minted_token_works [OF sample_access_stored made this, of "at_time 7 []"]
  show ?thesis by (auto simp: made)
qed

end
