(* ===== verification/GoText.thy ===== *)
theory GoText
  imports Prelude
begin

text \<open>
  Text as the web, the notifications and the configuration handle it: the characters of UTF-8, the
  routines of Go's \<open>strings\<close>, \<open>strconv\<close> and \<open>path\<close> they use, and the parts of a URL. The parser of
  URLs is an argument where it is used, a function to a \<open>url\<close>.
\<close>

section \<open>Characters of UTF-8\<close>

text \<open>The number of bytes of the first character of a string, 1 for a byte that is not UTF-8.\<close>

abbreviation byte :: "char \<Rightarrow> nat" where "byte \<equiv> of_char"

definition cont_bytes :: "nat \<Rightarrow> string \<Rightarrow> bool" where
  "cont_bytes n s = (n \<le> length s \<and> list_all (\<lambda>x. 0x80 \<le> byte x \<and> byte x \<le> 0xBF) (take n s))"

fun rune_size :: "string \<Rightarrow> nat" where
  "rune_size [] = 0"
| "rune_size (x # xs) = (let b = byte x; n = (case xs of [] \<Rightarrow> 0 | y # _ \<Rightarrow> byte y) in
     if 0xC2 \<le> b \<and> b \<le> 0xDF \<and> cont_bytes 1 xs then 2
     else if 0xE0 \<le> b \<and> b \<le> 0xEF \<and> cont_bytes 2 xs \<and> (b = 0xE0 \<longrightarrow> 0xA0 \<le> n) \<and> (b = 0xED \<longrightarrow> n \<le> 0x9F) then 3
     else if 0xF0 \<le> b \<and> b \<le> 0xF4 \<and> cont_bytes 3 xs \<and> (b = 0xF0 \<longrightarrow> 0x90 \<le> n) \<and> (b = 0xF4 \<longrightarrow> n \<le> 0x8F) then 4
     else 1)"

lemma rune_size_pos: "0 < rune_size (x # xs)"
  by (simp add: Let_def)

function rune_count :: "string \<Rightarrow> nat" where
  "rune_count s = (if s = [] then 0 else Suc (rune_count (drop (rune_size s) s)))"
  by pat_completeness auto
termination
proof (relation "measure length", simp)
  fix s :: string assume "s \<noteq> []"
  then have "0 < rune_size s" by (cases s) (use rune_size_pos in auto)
  with \<open>s \<noteq> []\<close> show "(drop (rune_size s) s, s) \<in> measure length" by simp
qed

declare rune_count.simps [simp del]

text \<open>
  The conversion to \<open>[]rune\<close>, each character as the bytes the conversion back gives it: U+FFFD for a
  byte that is not UTF-8.
\<close>

definition replacement :: string where
  "replacement = [CHR 0xEF, CHR 0xBF, CHR 0xBD]"

definition first_rune :: "string \<Rightarrow> string" where
  "first_rune s = (if rune_size s = 1 \<and> 0x80 \<le> byte (hd s) then replacement else take (rune_size s) s)"

function runes :: "string \<Rightarrow> string list" where
  "runes s = (if s = [] then [] else first_rune s # runes (drop (rune_size s) s))"
  by pat_completeness auto
termination
proof (relation "measure length", simp)
  fix s :: string assume "s \<noteq> []"
  then have "0 < rune_size s" by (cases s) (use rune_size_pos in auto)
  with \<open>s \<noteq> []\<close> show "(drop (rune_size s) s, s) \<in> measure length" by simp
qed

declare runes.simps [simp del]

lemma runes_Nil [simp]: "runes [] = []"
  by (simp add: runes.simps)

lemma length_runes: "length (runes s) = rune_count s"
proof (induction s rule: runes.induct)
  case (1 s)
  then show ?case by (cases "s = []") (simp_all add: runes.simps [of s] rune_count.simps [of s] rune_count.simps [of "[]"])
qed

text \<open>A well-formed character is its own first character, whatever follows.\<close>

definition good_rune :: "string \<Rightarrow> bool" where
  "good_rune r = (r \<noteq> [] \<and> (\<forall>t. rune_size (r @ t) = length r) \<and> (length r = 1 \<longrightarrow> byte (hd r) < 0x80))"

lemma cont_bytes_append: "n \<le> length s \<Longrightarrow> cont_bytes n (s @ t) = cont_bytes n s"
  by (simp add: cont_bytes_def)

lemma cont_bytes_take: "n \<le> m \<Longrightarrow> cont_bytes n (take m s) = cont_bytes n s"
  by (auto simp: cont_bytes_def min_def)

lemma cont_bytes_Nil [simp]: "cont_bytes n [] = (n = 0)"
  by (simp add: cont_bytes_def)

lemma cont_bytes_prefix: "cont_bytes n xs \<Longrightarrow> n \<le> m \<Longrightarrow> cont_bytes n (take m xs @ t)"
  by (auto simp: cont_bytes_def min_def)

lemma cont_bytes_length: "cont_bytes n s \<Longrightarrow> n \<le> length s"
  by (simp add: cont_bytes_def)

lemma rune_size_length: "rune_size s \<le> length s"
  by (cases s) (auto simp: Let_def dest: cont_bytes_length)

lemma rune_size_cases:
  obtains "rune_size (x # xs) = 1"
  | "rune_size (x # xs) = 2" "0xC2 \<le> byte x" "byte x \<le> 0xDF" "cont_bytes 1 xs"
  | "rune_size (x # xs) = 3" "0xE0 \<le> byte x" "byte x \<le> 0xEF" "cont_bytes 2 xs"
      "byte x = 0xE0 \<longrightarrow> 0xA0 \<le> byte (hd xs)" "byte x = 0xED \<longrightarrow> byte (hd xs) \<le> 0x9F"
  | "rune_size (x # xs) = 4" "0xF0 \<le> byte x" "byte x \<le> 0xF4" "cont_bytes 3 xs"
      "byte x = 0xF0 \<longrightarrow> 0x90 \<le> byte (hd xs)" "byte x = 0xF4 \<longrightarrow> byte (hd xs) \<le> 0x8F"
proof (cases xs)
  case Nil
  then show thesis using that(1) by (simp add: Let_def)
next
  case (Cons y ys)
  have "rune_size (x # xs) = 1 \<or>
      (rune_size (x # xs) = 2 \<and> 0xC2 \<le> byte x \<and> byte x \<le> 0xDF \<and> cont_bytes 1 xs) \<or>
      (rune_size (x # xs) = 3 \<and> 0xE0 \<le> byte x \<and> byte x \<le> 0xEF \<and> cont_bytes 2 xs \<and>
        (byte x = 0xE0 \<longrightarrow> 0xA0 \<le> byte (hd xs)) \<and> (byte x = 0xED \<longrightarrow> byte (hd xs) \<le> 0x9F)) \<or>
      (rune_size (x # xs) = 4 \<and> 0xF0 \<le> byte x \<and> byte x \<le> 0xF4 \<and> cont_bytes 3 xs \<and>
        (byte x = 0xF0 \<longrightarrow> 0x90 \<le> byte (hd xs)) \<and> (byte x = 0xF4 \<longrightarrow> byte (hd xs) \<le> 0x8F))"
    by (simp add: Cons Let_def)
  then show thesis using that by (elim disjE conjE) (simp_all only:)
qed

lemma rune_size_append:
  assumes "rune_size (x # xs) = Suc m" "0 < m"
  shows "rune_size (x # take m xs @ t) = Suc m"
proof (rule rune_size_cases [of x xs])
  assume r: "rune_size (x # xs) = 2" "0xC2 \<le> byte x" "byte x \<le> 0xDF" "cont_bytes 1 xs"
  then have "m = 1" "cont_bytes 1 (take m xs @ t)" using assms
    by (simp_all del: rune_size.simps add: cont_bytes_prefix)
  with r show ?thesis by (simp add: Let_def)
next
  assume r: "rune_size (x # xs) = 3" "0xE0 \<le> byte x" "byte x \<le> 0xEF" "cont_bytes 2 xs"
      "byte x = 0xE0 \<longrightarrow> 0xA0 \<le> byte (hd xs)" "byte x = 0xED \<longrightarrow> byte (hd xs) \<le> 0x9F"
  then have m: "m = 2" "cont_bytes 2 (take m xs @ t)" using assms
    by (simp_all del: rune_size.simps add: cont_bytes_prefix)
  obtain y ys where "xs = y # ys" using r(4) by (cases xs) (auto simp: cont_bytes_def)
  with r m show ?thesis by (simp add: Let_def)
next
  assume r: "rune_size (x # xs) = 4" "0xF0 \<le> byte x" "byte x \<le> 0xF4" "cont_bytes 3 xs"
      "byte x = 0xF0 \<longrightarrow> 0x90 \<le> byte (hd xs)" "byte x = 0xF4 \<longrightarrow> byte (hd xs) \<le> 0x8F"
  then have m: "m = 3" "cont_bytes 3 (take m xs @ t)" using assms
    by (simp_all del: rune_size.simps add: cont_bytes_prefix)
  obtain y ys where "xs = y # ys" using r(4) by (cases xs) (auto simp: cont_bytes_def)
  with r m show ?thesis by (simp add: Let_def)
qed (use assms in simp)

lemma good_first_rune:
  assumes "s \<noteq> []"
  shows "good_rune (first_rune s)"
proof -
  obtain x xs where s: "s = x # xs" using assms by (cases s) auto
  show ?thesis
  proof (cases "rune_size s = 1")
    case True
    show ?thesis
    proof (cases "0x80 \<le> byte x")
      case True
      with \<open>rune_size s = 1\<close> show ?thesis
        by (simp add: s first_rune_def good_rune_def replacement_def Let_def cont_bytes_def del: rune_size.simps)
          (simp add: Let_def cont_bytes_def)
    next
      case False
      with \<open>rune_size s = 1\<close> show ?thesis
        by (simp add: s first_rune_def good_rune_def del: rune_size.simps) (simp add: Let_def)
    qed
  next
    case False
    then obtain m where m: "rune_size s = Suc m" "0 < m"
      using rune_size_pos [of x xs] s by (metis One_nat_def Suc_pred' neq0_conv)
    have "Suc m \<le> length s" using rune_size_length [of s] m by simp
    then show ?thesis
      using rune_size_append [of x xs m] m
      by (auto simp: s first_rune_def good_rune_def simp del: rune_size.simps)
  qed
qed

lemma good_runes: "r \<in> set (runes s) \<Longrightarrow> good_rune r"
proof (induction s rule: runes.induct)
  case (1 s)
  then show ?case using good_first_rune by (cases "s = []") (auto simp: runes.simps [of s])
qed

lemma good_rune_count: "list_all good_rune rs \<Longrightarrow> rune_count (concat rs) = length rs"
proof (induction rs)
  case (Cons r rs)
  then have "rune_size (r @ concat rs) = length r" "r \<noteq> []" by (auto simp: good_rune_def)
  with Cons show ?case by (simp add: rune_count.simps [of "r @ concat rs"])
qed (simp add: rune_count.simps)

text \<open>\<open>truncate\<close> of a text to a number of characters: the ellipsis U+2026 where it cuts.\<close>

definition ellipsis :: string where
  "ellipsis = [CHR 0xE2, CHR 0x80, CHR 0xA6]"

lemma good_ellipsis: "good_rune ellipsis"
  by (simp add: good_rune_def ellipsis_def Let_def cont_bytes_def)

section \<open>Routines of strings and path\<close>

text \<open>\<open>strings.Join\<close>.\<close>

fun join_with :: "string \<Rightarrow> string list \<Rightarrow> string" where
  "join_with sep [] = []"
| "join_with sep [x] = x"
| "join_with sep (x # y # ys) = x @ sep @ join_with sep (y # ys)"

text \<open>\<open>strings.Cut\<close> at the first of one byte: what is before it, what is after, whether it is there.\<close>

definition cut_at :: "char \<Rightarrow> string \<Rightarrow> string \<times> string \<times> bool" where
  "cut_at c s = (takeWhile (\<lambda>x. x \<noteq> c) s, drop 1 (dropWhile (\<lambda>x. x \<noteq> c) s), c \<in> set s)"

text \<open>\<open>strings.TrimSuffix\<close>, \<open>strings.TrimRight\<close> of slashes, \<open>strings.CutPrefix\<close>.\<close>

definition trim_suffix :: "string \<Rightarrow> string \<Rightarrow> string" where
  "trim_suffix x s = (if suffix x s then take (length s - length x) s else s)"

definition trim_slashes :: "string \<Rightarrow> string" where
  "trim_slashes s = rev (dropWhile (\<lambda>x. x = CHR ''/'') (rev s))"

definition cut_prefix :: "string \<Rightarrow> string \<Rightarrow> string option" where
  "cut_prefix x s = (if prefix x s then Some (drop (length x) s) else None)"

text \<open>\<open>strings.NewReplacer\<close> with one byte to each old string: each byte by itself.\<close>

definition replace_bytes :: "(char \<Rightarrow> string option) \<Rightarrow> string \<Rightarrow> string" where
  "replace_bytes f s = concat (map (\<lambda>x. case f x of None \<Rightarrow> [x] | Some y \<Rightarrow> y) s)"

text \<open>
  \<open>path.Clean\<close>: the elements between the slashes, without the empty ones and the dots, and each
  \<open>..\<close> with the element before it; one that has none is kept, except at the root.
\<close>

definition clean_step :: "bool \<Rightarrow> string list \<Rightarrow> string \<Rightarrow> string list" where
  "clean_step rooted done_els e =
     (if e = [] \<or> e = ''.'' then done_els
      else if e = ''..'' then
        (if done_els = [] then (if rooted then [] else [e])
         else if last done_els = ''..'' then done_els @ [e] else butlast done_els)
      else done_els @ [e])"

definition clean_elements :: "string \<Rightarrow> string list" where
  "clean_elements p = foldl (clean_step (p \<noteq> [] \<and> hd p = CHR ''/'')) [] (split_on CHR ''/'' p)"

definition path_clean :: "string \<Rightarrow> string" where
  "path_clean p = (let body = join_with ''/'' (clean_elements p) in
     if p \<noteq> [] \<and> hd p = CHR ''/'' then CHR ''/'' # body else if body = [] then ''.'' else body)"

text \<open>\<open>path.Join\<close> of two elements and \<open>path.Split\<close>.\<close>

definition path_join :: "string \<Rightarrow> string \<Rightarrow> string" where
  "path_join a b = (if a = [] \<and> b = [] then []
     else path_clean (if a = [] then b else if b = [] then a else a @ ''/'' @ b))"

definition path_split :: "string \<Rightarrow> string \<times> string" where
  "path_split p = (rev (dropWhile (\<lambda>x. x \<noteq> CHR ''/'') (rev p)), rev (takeWhile (\<lambda>x. x \<noteq> CHR ''/'') (rev p)))"

text \<open>What the code reads of a parsed URL. A user in it is kept as its text.\<close>

record url =
  ur_scheme :: string
  ur_user :: "string option"
  ur_host :: string
  ur_path :: string
  ur_query :: string
  ur_fragment :: string

text \<open>The parameters of a URL: the first value of each one present.\<close>

type_synonym url_values = "string \<rightharpoonup> string"

definition url_get :: "url_values \<Rightarrow> string \<Rightarrow> string" where
  "url_get v p = (case v p of None \<Rightarrow> [] | Some s \<Rightarrow> s)"

text \<open>\<open>strconv.Atoi\<close> on 64 bits, and \<open>strconv.ParseBool\<close>.\<close>

definition digits_value :: "string \<Rightarrow> nat option" where
  "digits_value ds = (if ds = [] \<or> \<not> list_all (between CHR ''0'' CHR ''9'') ds then None
     else Some (foldl (\<lambda>n c. n * 10 + (of_char c - 48)) 0 ds))"

definition Atoi :: "string \<Rightarrow> int option" where
  "Atoi s = (let neg = (s \<noteq> [] \<and> hd s = CHR ''-''); ds = (if s \<noteq> [] \<and> (hd s = CHR ''-'' \<or> hd s = CHR ''+'') then tl s else s) in
     case digits_value ds of None \<Rightarrow> None
     | Some n \<Rightarrow> if neg then (if n \<le> 2 ^ 63 then Some (- int n) else None)
                 else if n < 2 ^ 63 then Some (int n) else None)"

definition ParseBool :: "string \<Rightarrow> bool option" where
  "ParseBool s = (if s \<in> {''1'', ''t'', ''T'', ''TRUE'', ''true'', ''True''} then Some True
     else if s \<in> {''0'', ''f'', ''F'', ''FALSE'', ''false'', ''False''} then Some False else None)"

text \<open>Splitting what was joined.\<close>

lemma split_on_plain: "c \<notin> set x \<Longrightarrow> split_on c x = [x]"
  by (induction x) auto

lemma split_on_append: "c \<notin> set x \<Longrightarrow> split_on c (x @ c # s) = x # split_on c s"
  by (induction x) auto

lemma split_on_join: "es \<noteq> [] \<Longrightarrow> \<forall>e\<in>set es. c \<notin> set e \<Longrightarrow> split_on c (join_with [c] es) = es"
  by (induction "[c]" es rule: join_with.induct) (auto simp: split_on_plain split_on_append)

end
