(* ===== verification/Listing.thy ===== *)
theory Listing
  imports Acl StoreProperties GoText
begin

text \<open>
  The lists of deployments and jobs (\<open>internal/store/list.go\<close> and the pages of
  \<open>internal/web/list.go\<close>): the filters of a query, a page of the rows it selects, the cursors from a
  page to the ones next to it, and the text of a cursor.

  The full text index of SQLite, and the mappings of Go's \<open>strings\<close> between cases (Unicode tables),
  are in the record \<open>text_env\<close>.
\<close>

section \<open>The filters of a query\<close>

record text_env =
  te_fts :: "string \<Rightarrow> deployment \<Rightarrow> bool"
  te_upper :: "string \<Rightarrow> string"
  te_lower :: "string \<Rightarrow> string"

record position =
  po_created_at :: time
  po_id :: string

definition PositionOf :: "deployment \<Rightarrow> position" where
  "PositionOf d = \<lparr>po_created_at = d_created_at d, po_id = d_id d\<rparr>"

record deployment_query =
  q_read :: scope
  q_search :: string
  q_active :: bool
  q_states :: "dstate list"
  q_namespace :: string
  q_job :: string
  q_repository :: string
  q_decided_by :: string
  q_policy :: "dpolicy option"
  q_since :: "time option"
  q_until :: "time option"
  q_after :: "position option"
  q_newer :: bool
  q_limit :: int

definition MinSearch :: nat where "MinSearch = 3"

text \<open>U+10FFFF, past every character that follows a common start.\<close>

definition max_rune :: string where
  "max_rune = [CHR 0xF4, CHR 0x8F, CHR 0xBF, CHR 0xBF]"

definition search_matches :: "text_env \<Rightarrow> string \<Rightarrow> deployment \<Rightarrow> bool" where
  "search_matches te s d = (te_fts te s d \<or>
     (te_upper te s \<le> d_id d \<and> d_id d < te_upper te s @ max_rune) \<or>
     (te_lower te s \<le> d_commit_sha d \<and> d_commit_sha d < te_lower te s @ max_rune))"

definition eq_filter :: "string \<Rightarrow> string \<Rightarrow> bool" where
  "eq_filter v col = (v = [] \<or> col = v)"

text \<open>\<open>where\<close>: the condition of a row, or the refusal of a search that is too short.\<close>

definition search_short :: "deployment_query \<Rightarrow> bool" where
  "search_short q = (q_search q \<noteq> [] \<and> rune_count (q_search q) < MinSearch)"

definition query_matches :: "text_env \<Rightarrow> deployment_query \<Rightarrow> deployment \<Rightarrow> bool" where
  "query_matches te q d =
     ((scope_all (q_read q) \<or> scope_sql (q_read q) (d_namespace d)) \<and>
      (q_search q = [] \<or> search_matches te (q_search q) d) \<and>
      (q_active q \<longrightarrow> IsActive (d_state d)) \<and>
      (q_states q = [] \<or> d_state d \<in> set (q_states q)) \<and>
      eq_filter (q_namespace q) (d_namespace d) \<and> eq_filter (q_job q) (d_job_id d) \<and>
      eq_filter (q_repository q) (d_repository d) \<and> eq_filter (q_decided_by q) (d_decided_by d) \<and>
      (case q_policy q of None \<Rightarrow> True | Some p \<Rightarrow> d_policy d = p) \<and>
      (case q_since q of None \<Rightarrow> True | Some t \<Rightarrow> ts_key t \<le> ts_key (d_created_at d)) \<and>
      (case q_until q of None \<Rightarrow> True | Some t \<Rightarrow> ts_key (d_created_at d) < ts_key t))"

section \<open>A page\<close>

definition position_key :: "position \<Rightarrow> (int \<times> string) \<times> string" where
  "position_key p = (ts_key (po_created_at p), po_id p)"

lemma position_key_of [simp]: "position_key (PositionOf d) = created_key d"
  by (simp add: position_key_def PositionOf_def created_key_def)

definition backward :: "deployment_query \<Rightarrow> bool" where
  "backward q = (q_newer q \<and> q_after q \<noteq> None)"

definition past_position :: "deployment_query \<Rightarrow> deployment \<Rightarrow> bool" where
  "past_position q d = (case q_after q of None \<Rightarrow> True
     | Some p \<Rightarrow> if q_newer q then position_key p < created_key d else created_key d < position_key p)"

definition ListDeployments ::
  "text_env \<Rightarrow> deployment_query \<Rightarrow> store \<Rightarrow> store_error + deployment list \<times> bool" where
  "ListDeployments te q s =
     (if q_limit q \<le> 0 \<or> search_short q then Inl ErrInvalid
      else
        let asc = sort_key created_key (filter (\<lambda>d. query_matches te q d \<and> past_position q d) (deployments s));
            got = limit_rows (q_limit q + 1) (if backward q then asc else rev asc);
            rows = take (nat (q_limit q)) got
        in Inr (if backward q then rev rows else rows, nat (q_limit q) < length got))"

definition CountDeployments :: "text_env \<Rightarrow> deployment_query \<Rightarrow> int \<Rightarrow> store \<Rightarrow> store_error + nat" where
  "CountDeployments te q up_to s =
     (if search_short q then Inl ErrInvalid
      else Inr (length (limit_rows (up_to + 1) (filter (query_matches te q) (deployments s)))))"

section \<open>Lists by cursor\<close>

text \<open>
  A state \<open>s\<close> gives a list whose rows come strictly one before the other by their keys, where the
  state is well formed: the rows past the key of a row, or before it, are a suffix and a prefix of
  the list.
\<close>

locale cursor_list =
  fixes ok :: "'s \<Rightarrow> bool" and rows :: "'s \<Rightarrow> 'r list" and key :: "'r \<Rightarrow> 'k" and before :: "'k \<Rightarrow> 'k \<Rightarrow> bool"
  assumes ordered: "ok s \<Longrightarrow> sorted_wrt (\<lambda>x y. before (key x) (key y)) (rows s)"
    and before_irrefl: "\<not> before k k"
    and before_trans: "before j k \<Longrightarrow> before k l \<Longrightarrow> before j l"
begin

lemma before_asym: "before j k \<Longrightarrow> \<not> before k j"
  using before_irrefl before_trans by blast

lemma nth_before: "ok s \<Longrightarrow> i < j \<Longrightarrow> j < length (rows s) \<Longrightarrow> before (key (rows s ! i)) (key (rows s ! j))"
  using ordered by (simp add: sorted_wrt_iff_nth_less)

lemma split_at: "i < length (rows s) \<Longrightarrow> rows s = take i (rows s) @ rows s ! i # drop (Suc i) (rows s)"
  by (rule id_take_nth_drop)

lemma past_row:
  assumes "ok s" "i < length (rows s)"
  shows "filter (\<lambda>r. before (key (rows s ! i)) (key r)) (rows s) = drop (Suc i) (rows s)"
proof -
  have "filter (\<lambda>r. before (key (rows s ! i)) (key r)) (take i (rows s)) = []"
    by (rule filter_False) (use assms nth_before before_asym in \<open>auto simp: in_set_conv_nth\<close>)
  moreover have "filter (\<lambda>r. before (key (rows s ! i)) (key r)) (drop (Suc i) (rows s)) = drop (Suc i) (rows s)"
    by (rule filter_True) (use assms nth_before in \<open>auto simp: in_set_conv_nth\<close>)
  ultimately show ?thesis
    by (subst (2) split_at [OF assms(2)]) (simp add: before_irrefl)
qed

lemma before_row:
  assumes "ok s" "i < length (rows s)"
  shows "filter (\<lambda>r. before (key r) (key (rows s ! i))) (rows s) = take i (rows s)"
proof -
  have "filter (\<lambda>r. before (key r) (key (rows s ! i))) (take i (rows s)) = take i (rows s)"
    by (rule filter_True) (use assms nth_before in \<open>auto simp: in_set_conv_nth\<close>)
  moreover have "filter (\<lambda>r. before (key r) (key (rows s ! i))) (drop (Suc i) (rows s)) = []"
    by (rule filter_False) (use assms nth_before before_asym in \<open>auto simp: in_set_conv_nth\<close>)
  ultimately show ?thesis
    by (subst (2) split_at [OF assms(2)]) (simp add: before_irrefl)
qed

end

section \<open>The pages of the dashboard and the API\<close>

record cursor =
  cu_newer :: bool
  cu_pos :: position
  cu_key :: string

record page =
  pg_older :: "cursor option"
  pg_newer :: "cursor option"
  pg_first_newer :: bool

definition no_page :: page where
  "no_page = \<lparr>pg_older = None, pg_newer = None, pg_first_newer = False\<rparr>"

definition at_row :: "bool \<Rightarrow> deployment \<Rightarrow> cursor" where
  "at_row newer d = \<lparr>cu_newer = newer, cu_pos = PositionOf d, cu_key = []\<rparr>"

text \<open>
  \<open>pageDeployments\<close>: the page towards older rows from the cursor \<open>c\<close>, which is also what a newer
  page that reaches the newest row falls back to (with no cursor).
\<close>

definition older_page ::
  "text_env \<Rightarrow> deployment_query \<Rightarrow> cursor option \<Rightarrow> store \<Rightarrow> store_error + deployment list \<times> page" where
  "older_page te dq c s = bindE (ListDeployments te dq s) (\<lambda>(rows, more).
     Inr (rows, \<lparr>pg_older = (if more then Some (at_row False (last rows)) else None),
       pg_newer = (if c \<noteq> None \<and> rows \<noteq> [] then Some (at_row True (hd rows)) else None),
       pg_first_newer = (c \<noteq> None \<and> rows = [])\<rparr>))"

definition pageDeployments ::
  "text_env \<Rightarrow> deployment_query \<Rightarrow> int \<Rightarrow> cursor option \<Rightarrow> store \<Rightarrow> store_error + deployment list \<times> page" where
  "pageDeployments te q0 per_page c s =
     (let q = q0\<lparr>q_limit := per_page\<rparr> in
      case c of
        None \<Rightarrow> older_page te q None s
      | Some cu \<Rightarrow>
          if cu_newer cu then
            bindE (ListDeployments te (q\<lparr>q_after := Some (cu_pos cu), q_newer := True\<rparr>) s) (\<lambda>(rows, more).
              if more then Inr (rows, \<lparr>pg_older = Some (at_row False (last rows)),
                  pg_newer = Some (at_row True (hd rows)), pg_first_newer = False\<rparr>)
              else older_page te (q\<lparr>q_after := None, q_newer := False\<rparr>) None s)
          else older_page te (q\<lparr>q_after := Some (cu_pos cu)\<rparr>) (Some cu) s)"

text \<open>\<open>slices.BinarySearch\<close> in a sorted list: the number of keys below.\<close>

definition search_key :: "string list \<Rightarrow> string \<Rightarrow> nat" where
  "search_key keys k = length (filter (\<lambda>x. x < k) keys)"

definition at_key :: "bool \<Rightarrow> string \<Rightarrow> cursor" where
  "at_key newer k = \<lparr>cu_newer = newer, cu_pos = \<lparr>po_created_at = 0, po_id = []\<rparr>, cu_key = k\<rparr>"

definition keys_from :: "string list \<Rightarrow> cursor option \<Rightarrow> nat" where
  "keys_from keys c = (case c of None \<Rightarrow> 0 | Some cu \<Rightarrow>
     (let i = search_key keys (cu_key cu) in
      if i < length keys \<and> keys ! i = cu_key cu then i + 1 else i))"

definition pageKeys :: "string list \<Rightarrow> nat \<Rightarrow> cursor option \<Rightarrow> nat \<times> nat \<times> page" where
  "pageKeys keys n c0 =
     (let stop = (case c0 of Some cu \<Rightarrow> if cu_newer cu then search_key keys (cu_key cu) else 0 | None \<Rightarrow> 0) in
      if n < stop then (stop - n, stop, \<lparr>pg_older = Some (at_key False (keys ! (stop - 1))),
          pg_newer = Some (at_key True (keys ! (stop - n))), pg_first_newer = False\<rparr>)
      else
        let c = (case c0 of Some cu \<Rightarrow> if cu_newer cu then None else c0 | None \<Rightarrow> None);
            i = keys_from keys c; j = min (i + n) (length keys)
        in (i, j, \<lparr>pg_older = (if j < length keys then Some (at_key False (keys ! (j - 1))) else None),
             pg_newer = (if c \<noteq> None \<and> i < j then Some (at_key True (keys ! i)) else None),
             pg_first_newer = (c \<noteq> None \<and> \<not> i < j)\<rparr>))"

section \<open>A page of the matching rows\<close>

definition matching :: "text_env \<Rightarrow> deployment_query \<Rightarrow> store \<Rightarrow> deployment list" where
  "matching te q s = rev (sort_key created_key (filter (query_matches te q) (deployments s)))"

definition valid_query :: "deployment_query \<Rightarrow> bool" where
  "valid_query q = (\<not> search_short q \<and> q_after q = None \<and> \<not> q_newer q)"

lemma query_matches_position [simp]:
  "query_matches te (q\<lparr>q_after := x\<rparr>) = query_matches te q"
  "query_matches te (q\<lparr>q_newer := y\<rparr>) = query_matches te q"
  "query_matches te (q\<lparr>q_limit := n\<rparr>) = query_matches te q"
  by (simp_all add: query_matches_def fun_eq_iff)

lemma search_short_position [simp]:
  "search_short (q\<lparr>q_after := x\<rparr>) = search_short q" "search_short (q\<lparr>q_newer := y\<rparr>) = search_short q"
  "search_short (q\<lparr>q_limit := n\<rparr>) = search_short q"
  by (simp_all add: search_short_def)

lemma matching_position [simp]:
  "matching te (q\<lparr>q_after := x\<rparr>) = matching te q" "matching te (q\<lparr>q_newer := y\<rparr>) = matching te q"
  "matching te (q\<lparr>q_limit := n\<rparr>) = matching te q"
  by (simp_all add: matching_def fun_eq_iff)

lemma take_limit: "0 < n \<Longrightarrow> take (nat n) (limit_rows (n + 1) xs) = take (nat n) xs"
  "0 < n \<Longrightarrow> (nat n < length (limit_rows (n + 1) xs)) = (nat n < length xs)" for n :: int
  by (auto simp: limit_rows_def nat_add_distrib)

lemma ListDeployments_page:
  assumes "valid_query q" "0 < n"
  shows "ListDeployments te (q\<lparr>q_limit := n\<rparr>) s = Inr (take (nat n) (matching te q s), nat n < length (matching te q s))"
    and "ListDeployments te (q\<lparr>q_limit := n, q_after := Some p\<rparr>) s =
      (let past = filter (\<lambda>d. created_key d < position_key p) (matching te q s)
       in Inr (take (nat n) past, nat n < length past))"
    and "ListDeployments te (q\<lparr>q_limit := n, q_after := Some p, q_newer := True\<rparr>) s =
      (let front = filter (\<lambda>d. position_key p < created_key d) (matching te q s)
       in Inr (drop (length front - nat n) front, nat n < length front))"
  using assms
  by (simp_all add: ListDeployments_def Let_def valid_query_def backward_def past_position_def matching_def
      take_limit rev_take [of _ "sort_key created_key _"] rev_filter [symmetric] filter_sort filter_filter conj_commute)

lemma created_key_inj: "created_key d = created_key e \<Longrightarrow> d_id d = d_id e"
  by (simp add: created_key_def)

lemma distinct_created: "distinct (map d_id ds) \<Longrightarrow> distinct (map created_key (filter P ds))"
  by (induction ds) (auto dest!: created_key_inj)

lemma matching_ordered:
  assumes "distinct (map d_id (deployments s))"
  shows "sorted_wrt (\<lambda>x y. created_key y < created_key x) (matching te q s)"
proof -
  let ?asc = "sort_key created_key (filter (query_matches te q) (deployments s))"
  have "distinct (map created_key ?asc)"
    using distinct_created [OF assms] by (metis (no_types, lifting) distinct_map distinct_sort set_sort)
  moreover have "sorted (map created_key ?asc)" by simp
  ultimately have "sorted_wrt (<) (map created_key ?asc)" by (simp only: strict_sorted_iff)
  then show ?thesis by (simp add: matching_def sorted_wrt_rev sorted_wrt_map)
qed

interpretation by_created: cursor_list "\<lambda>s. distinct (map d_id (deployments s))" "matching te q" created_key "\<lambda>x y. y < x"
  for te q
  by unfold_locales (auto intro: matching_ordered)

interpretation by_name: cursor_list "sorted_wrt (<)" "\<lambda>keys :: string list. keys" id "(<)"
  by unfold_locales (auto simp: sorted_wrt_map)

lemma past_rows:
  assumes "distinct (map d_id (deployments s))" "i < length (matching te q s)"
  shows "filter (\<lambda>d. created_key d < created_key (matching te q s ! i)) (matching te q s) =
      drop (Suc i) (matching te q s)"
    and "filter (\<lambda>d. created_key (matching te q s ! i) < created_key d) (matching te q s) =
      take i (matching te q s)"
  by (rule by_created.past_row [OF assms], rule by_created.before_row [OF assms])

lemma last_take: "0 < n \<Longrightarrow> n < length xs \<Longrightarrow> last (take n xs) = xs ! (n - 1)"
  by (cases "take n xs = []") (auto simp: last_conv_nth)

lemma first_page:
  assumes "valid_query q" "0 < n"
  shows "pageDeployments te q (int n) None s = Inr (take n (matching te q s),
    no_page\<lparr>pg_older := if n < length (matching te q s) then Some (at_row False (matching te q s ! (n - 1))) else None\<rparr>)"
  using assms
  by (auto simp: pageDeployments_def older_page_def ListDeployments_page no_page_def last_take)

lemma next_page:
  assumes "valid_query q" "0 < n" "distinct (map d_id (deployments s))" "i < length (matching te q s)"
  shows "\<exists>pg. pageDeployments te q (int n) (Some (at_row False (matching te q s ! i))) s =
      Inr (take n (drop (Suc i) (matching te q s)), pg) \<and>
    pg_older pg = (if Suc i + n < length (matching te q s)
      then Some (at_row False (matching te q s ! (i + n))) else None)"
  using assms last_take [of n "drop (Suc i) (matching te q s)"]
  by (auto simp: pageDeployments_def older_page_def ListDeployments_page at_row_def past_rows Let_def)

text \<open>Following the older pages from a cursor, at most \<open>k\<close> of them.\<close>

fun older_walk ::
  "nat \<Rightarrow> text_env \<Rightarrow> deployment_query \<Rightarrow> nat \<Rightarrow> cursor option \<Rightarrow> store \<Rightarrow> deployment list list option" where
  "older_walk 0 te q n c s = None"
| "older_walk (Suc k) te q n c s = (case pageDeployments te q (int n) c s of
      Inl _ \<Rightarrow> None
    | Inr (rows, pg) \<Rightarrow> (case pg_older pg of None \<Rightarrow> Some [rows]
        | Some c' \<Rightarrow> map_option (Cons rows) (older_walk k te q n (Some c') s)))"

lemma older_walk_from:
  assumes "valid_query q" "0 < n" "distinct (map d_id (deployments s))"
  shows "i < length (matching te q s) \<Longrightarrow> length (matching te q s) \<le> Suc i + n * k \<Longrightarrow> 0 < k \<Longrightarrow>
    \<exists>ps. older_walk k te q n (Some (at_row False (matching te q s ! i))) s = Some ps \<and>
      concat ps = drop (Suc i) (matching te q s) \<and> (\<forall>p\<in>set ps. length p \<le> n)"
proof (induction k arbitrary: i)
  case (Suc k)
  from next_page [OF assms Suc.prems(1)] obtain pg where
    pg: "pageDeployments te q (int n) (Some (at_row False (matching te q s ! i))) s =
        Inr (take n (drop (Suc i) (matching te q s)), pg)"
      "pg_older pg = (if Suc i + n < length (matching te q s)
         then Some (at_row False (matching te q s ! (i + n))) else None)" by blast
  show ?case
  proof (cases "Suc i + n < length (matching te q s)")
    case False
    with pg show ?thesis by simp
  next
    case True
    have "0 < k" using True Suc.prems(2) by (cases k) auto
    from Suc.IH [OF _ _ this, of "i + n"] True Suc.prems(2) obtain ps where
      "older_walk k te q n (Some (at_row False (matching te q s ! (i + n)))) s = Some ps"
      "concat ps = drop (Suc (i + n)) (matching te q s)" "\<forall>p\<in>set ps. length p \<le> n" by auto
    moreover have "take n (drop (Suc i) (matching te q s)) @ drop (Suc (i + n)) (matching te q s) =
        drop (Suc i) (matching te q s)"
      by (metis add.commute add_Suc append_take_drop_id drop_drop)
    ultimately show ?thesis using pg True by simp
  qed
qed simp

text \<open>The walk from the first page on; its pages put together are \<open>matching\<close>.\<close>

lemma older_walk_all:
  assumes "valid_query q" "0 < n" "distinct (map d_id (deployments s))"
    "length (matching te q s) \<le> n * k" "0 < k"
  shows "\<exists>ps. older_walk k te q n None s = Some ps \<and> concat ps = matching te q s \<and>
    (\<forall>p\<in>set ps. length p \<le> n)"
proof (cases "n < length (matching te q s)")
  case False
  obtain k' where "k = Suc k'" using assms(5) by (cases k) auto
  with False first_page [OF assms(1,2)] show ?thesis by (simp add: no_page_def)
next
  case True
  obtain k' where k: "k = Suc k'" using assms(5) by (cases k) auto
  have "0 < k'" using True assms(4) k by (cases k') auto
  have i: "n - 1 < length (matching te q s)" "length (matching te q s) \<le> Suc (n - 1) + n * k'"
    using True assms(2,4) k by simp_all
  from older_walk_from [OF assms(1-3) i \<open>0 < k'\<close>] assms(2) obtain ps where
    "older_walk k' te q n (Some (at_row False (matching te q s ! (n - 1)))) s = Some ps"
    "concat ps = drop n (matching te q s)" "\<forall>p\<in>set ps. length p \<le> n" by auto
  with True k first_page [OF assms(1,2)] show ?thesis by (simp add: no_page_def)
qed

lemma created_seconds: "created_key y < created_key x \<Longrightarrow> d_created_at y div second \<le> d_created_at x div second"
  using ts_key_seconds [of "d_created_at x" "d_created_at y"] by (fastforce simp: created_key_def)

text \<open>
  Claim C23. Following the cursors from the first page to the older ones enumerates the matching deployments: the walk
  ends, and its pages, none longer than the size asked for, put together are every row the filters select,
  once each, in the order of the stored text of the time each was created and then of its ID: newest
  first as far as the seconds tell. Within one second the texts decide, which is not always the order of
  the times (\<open>created_within_a_second_misordered\<close>).
\<close>

theorem pages_enumerate:
  assumes "valid_query q" "0 < n" "distinct (map d_id (deployments s))"
    "length (filter (query_matches te q) (deployments s)) \<le> n * k" "0 < k"
  shows "\<exists>ps. older_walk k te q n None s = Some ps \<and> (\<forall>p\<in>set ps. length p \<le> n) \<and>
    distinct (concat ps) \<and> set (concat ps) = {d \<in> set (deployments s). query_matches te q d} \<and>
    sorted_wrt (\<lambda>x y. created_key y < created_key x) (concat ps) \<and>
    sorted_wrt (\<lambda>x y. d_created_at y div second \<le> d_created_at x div second) (concat ps)"
proof -
  have "length (matching te q s) \<le> n * k" using assms(4) by (simp add: matching_def)
  from older_walk_all [OF assms(1-3) this assms(5)] obtain ps where
    ps: "older_walk k te q n None s = Some ps" "concat ps = matching te q s" "\<forall>p\<in>set ps. length p \<le> n" by blast
  have keys: "sorted_wrt (\<lambda>x y. created_key y < created_key x) (matching te q s)" by (rule matching_ordered [OF assms(3)])
  then have "sorted_wrt (\<lambda>x y. d_created_at y div second \<le> d_created_at x div second) (matching te q s)"
    by (rule sorted_wrt_mono_rel [rotated]) (rule created_seconds)
  moreover have "distinct (matching te q s)" "set (matching te q s) = {d \<in> set (deployments s). query_matches te q d}"
    using assms(3) by (auto simp: matching_def distinct_map)
  ultimately show ?thesis by (intro exI [of _ ps]) (simp only: ps(1,2) keys, simp add: ps(3))
qed

text \<open>
  The cursor towards newer rows undoes the one towards older ones: from the page that
  starts at row \<open>i\<close> it leads to the page of the \<open>n\<close> rows just before, and to the first page, full,
  when there are no more than that.
\<close>

theorem newer_undoes_older:
  assumes "valid_query q" "0 < n" "distinct (map d_id (deployments s))" "i < length (matching te q s)"
  shows "\<exists>pg. pageDeployments te q (int n) (Some (at_row True (matching te q s ! i))) s =
    Inr (if n < i then take n (drop (i - n) (matching te q s)) else take n (matching te q s), pg)"
proof (cases "n < i")
  case True
  have "drop (i - n) (take i (matching te q s)) = take n (drop (i - n) (matching te q s))"
    using True by (simp add: drop_take)
  with True assms show ?thesis
    by (auto simp: pageDeployments_def ListDeployments_page at_row_def past_rows Let_def)
next
  case False
  have q: "q\<lparr>q_limit := int n, q_after := None, q_newer := False\<rparr> = q\<lparr>q_limit := int n\<rparr>"
    using assms(1) by (simp add: valid_query_def)
  from False assms show ?thesis
    by (auto simp: pageDeployments_def older_page_def ListDeployments_page at_row_def past_rows Let_def q)
qed


section \<open>The pages of a list of keys\<close>

lemma search_key_nth: "sorted_wrt (<) keys \<Longrightarrow> i < length keys \<Longrightarrow> search_key keys (keys ! i) = i"
  using by_name.before_row [of keys i] by (simp add: search_key_def)

lemma search_key_bound: "search_key keys k \<le> length keys"
  by (simp add: search_key_def)

lemma keys_from_nth:
  "sorted_wrt (<) keys \<Longrightarrow> i < length keys \<Longrightarrow> keys_from keys (Some (at_key False (keys ! i))) = Suc i"
  by (simp add: keys_from_def at_key_def search_key_nth)

text \<open>
  The pages of a sorted list of jobs stay within the list and hold at most a page; the
  cursor towards the next ones starts right after the last row, the one towards the previous ones
  ends right before the first, and both work on the keys alone: a cursor whose job is gone keeps
  its place.
\<close>

theorem pageKeys_window:
  assumes "sorted_wrt (<) keys" "0 < n"
  shows "(case pageKeys keys n c of (i, j, pg) \<Rightarrow> i \<le> j \<and> j \<le> length keys \<and> j - i \<le> n \<and>
    (case pg_older pg of None \<Rightarrow> j = length keys | Some c' \<Rightarrow> fst (pageKeys keys n (Some c')) = j) \<and>
    (case pg_newer pg of None \<Rightarrow> True | Some c' \<Rightarrow>
       (if n < i then fst (pageKeys keys n (Some c')) = i - n \<and> fst (snd (pageKeys keys n (Some c'))) = i
        else fst (pageKeys keys n (Some c')) = 0)))"
proof -
  have older: "fst (pageKeys keys n (Some (at_key False (keys ! (j - 1))))) = j" if "0 < j" "j \<le> length keys" for j
    using that keys_from_nth [OF assms(1), of "j - 1"] by (simp add: pageKeys_def Let_def at_key_def)
  have newer: "if n < i then fst (pageKeys keys n (Some (at_key True (keys ! i)))) = i - n \<and>
      fst (snd (pageKeys keys n (Some (at_key True (keys ! i))))) = i
    else fst (pageKeys keys n (Some (at_key True (keys ! i)))) = 0" if "i < length keys" for i
    using that search_key_nth [OF assms(1), of i] by (simp add: pageKeys_def Let_def at_key_def keys_from_def)
  show ?thesis
  proof (cases "\<exists>k. c = Some k \<and> cu_newer k \<and> n < search_key keys (cu_key k)")
    case True
    then obtain k where k: "c = Some k" "cu_newer k" "n < search_key keys (cu_key k)" by blast
    let ?e = "search_key keys (cu_key k)"
    have page: "pageKeys keys n c = (?e - n, ?e, \<lparr>pg_older = Some (at_key False (keys ! (?e - 1))),
        pg_newer = Some (at_key True (keys ! (?e - n))), pg_first_newer = False\<rparr>)"
      using k by (simp add: pageKeys_def Let_def)
    have lt: "?e - n < length keys" using k(3) assms(2) search_key_bound [of keys "cu_key k"] by linarith
    have "0 < ?e" using k(3) by simp
    then show ?thesis
      using k(3) older [of ?e] newer [OF lt] search_key_bound [of keys "cu_key k"]
      by (simp add: page)
  next
    case False
    define c' where "c' = (case c of Some cu \<Rightarrow> if cu_newer cu then None else c | None \<Rightarrow> None)"
    define i where "i = keys_from keys c'"
    define j where "j = min (i + n) (length keys)"
    have page: "pageKeys keys n c = (i, j,
        \<lparr>pg_older = (if j < length keys then Some (at_key False (keys ! (j - 1))) else None),
         pg_newer = (if c' \<noteq> None \<and> i < j then Some (at_key True (keys ! i)) else None),
         pg_first_newer = (c' \<noteq> None \<and> \<not> i < j)\<rparr>)"
      using False by (cases c) (auto simp: pageKeys_def Let_def c'_def i_def j_def)
    have "i \<le> length keys"
      using search_key_bound [of keys] by (auto simp: i_def keys_from_def Let_def Suc_le_eq split: option.splits)
    then have ij: "i \<le> j" "j \<le> length keys" "j - i \<le> n" "j < length keys \<Longrightarrow> 0 < j" "i < j \<Longrightarrow> i < length keys"
      using assms(2) by (auto simp: j_def)
    show ?thesis
      using ij(1-3) older [of j, OF ij(4,2)] newer [of i, OF ij(5)]
      by (auto simp: page)
  qed
qed

section \<open>The text of a cursor\<close>

text \<open>
  Base64 and the layout RFC 3339 with nanoseconds are of Go's library: the functions that write and
  read them are arguments.
\<close>

record cursor_text =
  ct_encode :: "string \<Rightarrow> string"
  ct_decode :: "string \<Rightarrow> string option"
  ct_format :: "time \<Rightarrow> string"
  ct_parse :: "string \<Rightarrow> time option"

datatype list_kind = DeploymentList | JobList

definition cursor_string :: "cursor_text \<Rightarrow> cursor \<Rightarrow> string" where
  "cursor_string ct c = (let dir = (if cu_newer c then CHR ''n'' else CHR ''o'') in
     ct_encode ct (if cu_key c = [] then
         CHR ''d'' # dir # ct_format ct (po_created_at (cu_pos c)) @ [CHR 0x7C] @ po_id (cu_pos c)
       else CHR ''j'' # dir # cu_key c))"

definition cut_bar :: "string \<Rightarrow> (string \<times> string) option" where
  "cut_bar s = (if CHR 0x7C \<in> set s
     then Some (takeWhile (\<lambda>x. x \<noteq> CHR 0x7C) s, tl (dropWhile (\<lambda>x. x \<noteq> CHR 0x7C) s)) else None)"

definition parseCursor :: "cursor_text \<Rightarrow> string \<Rightarrow> list_kind \<Rightarrow> cursor option" where
  "parseCursor ct s kind = (case ct_decode ct s of
       Some (t0 # t1 # rest) \<Rightarrow>
         if rest = [] \<or> (t1 \<noteq> CHR ''n'' \<and> t1 \<noteq> CHR ''o'') then None
         else if t0 = CHR ''j'' \<and> kind = JobList then Some (at_key (t1 = CHR ''n'') rest)
         else if t0 = CHR ''d'' \<and> kind = DeploymentList then
           (case cut_bar rest of None \<Rightarrow> None
            | Some (at, i) \<Rightarrow> (case ct_parse ct at of None \<Rightarrow> None
                | Some t \<Rightarrow> if i = [] then None
                    else Some \<lparr>cu_newer = (t1 = CHR ''n''), cu_pos = \<lparr>po_created_at = t, po_id = i\<rparr>, cu_key = []\<rparr>))
         else None
     | _ \<Rightarrow> None)"

text \<open>What is documented of the two encodings: what was written is read back, and a time has no bar.\<close>

definition encodings_ok :: "cursor_text \<Rightarrow> bool" where
  "encodings_ok ct = ((\<forall>s. ct_decode ct (ct_encode ct s) = Some s) \<and>
     (\<forall>t. ct_parse ct (ct_format ct t) = Some t \<and> CHR 0x7C \<notin> set (ct_format ct t)))"

lemma takeWhile_bar: "CHR 0x7C \<notin> set x \<Longrightarrow> takeWhile (\<lambda>y. y \<noteq> CHR 0x7C) (x @ CHR 0x7C # z) = x"
  "CHR 0x7C \<notin> set x \<Longrightarrow> dropWhile (\<lambda>y. y \<noteq> CHR 0x7C) (x @ CHR 0x7C # z) = CHR 0x7C # z"
  by (induction x) auto

text \<open>
  A cursor given out by a list is read back as it was by that list, and refused by the
  other one.
\<close>

theorem cursor_round_trip:
  assumes "encodings_ok ct" "po_id (cu_pos c) \<noteq> [] \<or> cu_key c \<noteq> []"
  shows "parseCursor ct (cursor_string ct c) (if cu_key c = [] then DeploymentList else JobList) =
      Some (if cu_key c = [] then c else at_key (cu_newer c) (cu_key c)) \<and>
    parseCursor ct (cursor_string ct c) (if cu_key c = [] then JobList else DeploymentList) = None"
proof -
  have enc: "ct_decode ct (ct_encode ct x) = Some x" for x using assms(1) by (simp add: encodings_ok_def)
  have time: "ct_parse ct (ct_format ct t) = Some t" "CHR 0x7C \<notin> set (ct_format ct t)" for t
    using assms(1) by (simp_all add: encodings_ok_def)
  show ?thesis
    using assms(2) by (auto simp: cursor_string_def parseCursor_def enc time Let_def cut_bar_def takeWhile_bar)
qed

section \<open>Rows created within a second of a bound\<close>

text \<open>
  The bounds of a query compare times as text too. A deployment created half a second after
  midnight is at or after midnight, and a query since midnight leaves it out; a query until
  midnight keeps it.
\<close>

definition half_past :: time where "half_past = 500000000"

definition since_query :: "time option \<Rightarrow> time option \<Rightarrow> deployment_query" where
  "since_query since to = \<lparr>q_read = \<lparr>scope_all = True, scope_levels = []\<rparr>, q_search = [], q_active = False,
     q_states = [], q_namespace = [], q_job = [], q_repository = [], q_decided_by = [], q_policy = None,
     q_since = since, q_until = to, q_after = None, q_newer = False, q_limit = 50\<rparr>"

lemma half_second_key: "ts_key half_past < ts_key 0"
proof -
  have "digit_char 0 = CHR ''0''" "digit_char 5 = CHR ''5''"
    by (simp_all add: digit_char_def char_of_def bit_0)
  then show ?thesis
    by (simp add: half_past_def ts_key_def rfc_frac_def frac_digits_def less_char_def)
qed

text \<open>
  The bounds of a list are wrong within a second: the filter on deployments created at or
  after a whole second leaves out the ones created in the rest of that second, and the filter on
  the ones created before it keeps them.
\<close>

theorem bounds_miss_first_second:
  "0 \<le> half_past \<and> \<not> query_matches te (since_query (Some 0) None) (d\<lparr>d_created_at := half_past\<rparr>) \<and>
   query_matches te (since_query None (Some 0)) (d\<lparr>d_created_at := half_past\<rparr>)"
  using half_second_key by (auto simp: query_matches_def since_query_def eq_filter_def half_past_def)


section \<open>Samples\<close>

definition two_rows :: store where
  "two_rows = empty_store\<lparr>deployments := [sample_row\<lparr>d_id := ''01A''\<rparr>, sample_row\<lparr>d_id := ''01B''\<rparr>]\<rparr>"

definition no_text :: text_env where
  "no_text = \<lparr>te_fts = (\<lambda>_ _. False), te_upper = id, te_lower = id\<rparr>"

lemma any_query: "valid_query (since_query None None)" "query_matches te (since_query None None) d"
  by (simp_all add: valid_query_def since_query_def search_short_def query_matches_def eq_filter_def)

lemma two_matching: "length (matching te (since_query None None) two_rows) = 2"
  by (simp add: matching_def any_query two_rows_def)

lemma two_distinct: "distinct (map d_id (deployments two_rows))"
  by (simp add: two_rows_def)

theorem pages_enumerate_witness:
  "\<exists>ps. older_walk 2 no_text (since_query None None) 1 None two_rows = Some ps \<and>
     set (concat ps) = {d \<in> set (deployments two_rows). query_matches no_text (since_query None None) d}"
proof -
  have "length (filter (query_matches no_text (since_query None None)) (deployments two_rows)) \<le> 1 * 2"
    using two_matching [of no_text] by (simp add: matching_def)
  from pages_enumerate [OF any_query(1) _ two_distinct this] show ?thesis by auto
qed

theorem newer_undoes_older_witness:
  "\<exists>pg. pageDeployments no_text (since_query None None) 1
       (Some (at_row True (matching no_text (since_query None None) two_rows ! 1))) two_rows =
     Inr (take 1 (matching no_text (since_query None None) two_rows), pg)"
  using newer_undoes_older [OF any_query(1) _ two_distinct, where n = 1 and i = 1 and te = no_text]
  by (simp add: two_matching)

theorem pageKeys_window_witness:
  "fst (snd (pageKeys [''a/x'', ''b/y'', ''c/z''] 2 None)) \<le> 3"
  using pageKeys_window [of "[''a/x'', ''b/y'', ''c/z'']" 2 None]
  by (auto simp: less_char_def split: prod.splits)

definition sample_text :: cursor_text where
  "sample_text = \<lparr>ct_encode = id, ct_decode = Some,
     ct_format = (\<lambda>t. if t < 0 then CHR ''-'' # replicate (nat (- t)) CHR ''i'' else replicate (nat t) CHR ''i''),
     ct_parse = (\<lambda>s. case s of [] \<Rightarrow> Some 0 | x # xs \<Rightarrow>
       if x = CHR ''-'' then Some (- int (length xs)) else Some (int (length s)))\<rparr>"

theorem cursor_round_trip_witness:
  "parseCursor sample_text (cursor_string sample_text (at_key True ''ns/job'')) JobList = Some (at_key True ''ns/job'')"
proof -
  have "ct_parse sample_text (ct_format sample_text t) = Some t" for t
    by (cases "nat t") (auto simp: sample_text_def)
  then have "encodings_ok sample_text"
    by (auto simp: encodings_ok_def) (auto simp: sample_text_def set_replicate_conv_if split: if_splits)
  from cursor_round_trip [OF this, of "at_key True ''ns/job''"] show ?thesis by (simp add: at_key_def)
qed

end
