(* ===== verification/NomadDiff.thy ===== *)
theory NomadDiff
  imports Nomad GoText
begin

text \<open>
  The diff of a plan (\<open>internal/nomadx/diff.go\<close>): what Nomad marks as edited without a change is
  taken out of it, and the summary above it counts its changes. A nil entry of a list is \<open>None\<close>.
\<close>

section \<open>Edits without a change\<close>

definition anyChanged :: "field_diff option list \<Rightarrow> bool" where
  "anyChanged fs = list_ex (\<lambda>f. case f of None \<Rightarrow> False | Some x \<Rightarrow> fd_type x \<noteq> ''None'') fs"

definition settle :: "string \<Rightarrow> bool \<Rightarrow> string" where
  "settle ty changed = (if ty = ''Edited'' \<and> \<not> changed then ''None'' else ty)"

definition present :: "'a option list \<Rightarrow> 'a list" where
  "present xs = map the (filter (\<lambda>x. x \<noteq> None) xs)"

abbreviation any_change :: "object_diff list \<Rightarrow> bool" where
  "any_change objs \<equiv> list_ex (\<lambda>x. od_type x \<noteq> ''None'') objs"

text \<open>
  One turn of the loop of \<open>keepChangedObjects\<close>, after the objects inside: nothing where the object
  is dropped. \<open>kept\<close> are the objects a loop leaves.
\<close>

primrec keep_object :: "object_diff \<Rightarrow> object_diff option" where
  "keep_object (ObjectDiff ty name fs os) =
     (let inside = present (map (\<lambda>r. case r of None \<Rightarrow> None | Some x \<Rightarrow> x) (map (map_option keep_object) os)) in
      if ty = ''Edited'' \<and> \<not> any_change inside \<and> \<not> anyChanged fs then None
      else Some (ObjectDiff ty name fs (map Some inside)))"

definition kept :: "object_diff option list \<Rightarrow> object_diff list" where
  "kept os = present (map (\<lambda>r. case r of None \<Rightarrow> None | Some x \<Rightarrow> keep_object x) os)"

definition keepChangedObjects :: "object_diff option list \<Rightarrow> object_diff option list \<times> bool" where
  "keepChangedObjects os = (map Some (kept os), any_change (kept os))"

definition settle_task :: "task_diff \<Rightarrow> task_diff" where
  "settle_task t = (case keepChangedObjects (td_objects t) of (os, changed) \<Rightarrow>
     t\<lparr>td_objects := os, td_type := settle (td_type t) (changed \<or> anyChanged (td_fields t))\<rparr>)"

definition settle_group :: "group_diff \<Rightarrow> group_diff" where
  "settle_group g = (case keepChangedObjects (gd_objects g) of (os, changed) \<Rightarrow>
     let tasks = map (map_option settle_task) (gd_tasks g) in
     g\<lparr>gd_objects := os, gd_tasks := tasks, gd_type := settle (gd_type g)
        (changed \<or> anyChanged (gd_fields g) \<or> list_ex (\<lambda>t. td_type t \<noteq> ''None'') (present tasks))\<rparr>)"

definition dropEmptyEdits :: "job_diff \<Rightarrow> job_diff" where
  "dropEmptyEdits d = (case keepChangedObjects (jd_objects d) of (os, changed) \<Rightarrow>
     let groups = map (map_option settle_group) (jd_groups d) in
     d\<lparr>jd_objects := os, jd_groups := groups, jd_type := settle (jd_type d)
        (changed \<or> anyChanged (jd_fields d) \<or> list_ex (\<lambda>g. gd_type g \<noteq> ''None'') (present groups))\<rparr>)"

section \<open>The summary\<close>

record diff_place =
  dp_kind :: string
  dp_name :: string
  dp_type :: string
  dp_changes :: nat

record diff_summary =
  ds_added :: nat
  ds_edited :: nat
  ds_deleted :: nat
  ds_places :: "diff_place list"

definition Total :: "diff_summary \<Rightarrow> nat" where
  "Total s = ds_added s + ds_edited s + ds_deleted s"

text \<open>The counts of the fields of a level: added, edited, deleted.\<close>

type_synonym counts = "nat \<times> nat \<times> nat"

fun add_counts :: "counts \<Rightarrow> counts \<Rightarrow> counts" where
  "add_counts (a, b, c) (x, y, z) = (a + x, b + y, c + z)"

fun total_of :: "counts \<Rightarrow> nat" where
  "total_of (a, b, c) = a + b + c"

fun count_fields :: "field_diff option list \<Rightarrow> counts" where
  "count_fields [] = (0, 0, 0)"
| "count_fields (None # fs) = count_fields fs"
| "count_fields (Some f # fs) = add_counts
     (if fd_type f = ''Added'' then (1, 0, 0) else if fd_type f = ''Edited'' then (0, 1, 0)
      else if fd_type f = ''Deleted'' then (0, 0, 1) else (0, 0, 0)) (count_fields fs)"

primrec count_object :: "object_diff \<Rightarrow> counts" where
  "count_object (ObjectDiff ty name fs os) = add_counts (count_fields fs)
     (foldr add_counts (map (\<lambda>r. case r of None \<Rightarrow> (0, 0, 0) | Some n \<Rightarrow> n) (map (map_option count_object) os)) (0, 0, 0))"

text \<open>\<open>count\<close>: what a level and the objects below it add to the summary.\<close>

definition count_level :: "field_diff option list \<Rightarrow> object_diff option list \<Rightarrow> counts" where
  "count_level fs os = add_counts (count_fields fs)
     (foldr add_counts (map (\<lambda>r. case r of None \<Rightarrow> (0, 0, 0) | Some x \<Rightarrow> count_object x) os) (0, 0, 0))"

definition counted :: "diff_summary \<Rightarrow> counts \<Rightarrow> diff_summary" where
  "counted s n = (case n of (a, b, c) \<Rightarrow> s\<lparr>ds_added := ds_added s + a, ds_edited := ds_edited s + b,
     ds_deleted := ds_deleted s + c\<rparr>)"

definition place :: "bool \<Rightarrow> diff_place \<Rightarrow> diff_summary \<Rightarrow> diff_summary" where
  "place listed p s = (if listed then s\<lparr>ds_places := ds_places s @ [p]\<rparr> else s)"

definition whole :: "string \<Rightarrow> bool" where
  "whole ty = (ty = ''Added'' \<or> ty = ''Deleted'')"

definition sum_task :: "string \<Rightarrow> task_diff \<Rightarrow> diff_summary \<Rightarrow> diff_summary" where
  "sum_task gname t s = (let n = count_level (td_fields t) (td_objects t) in
     place (0 < total_of n \<or> whole (td_type t))
       \<lparr>dp_kind = ''task'', dp_name = gname @ ''/'' @ td_name t, dp_type = td_type t, dp_changes = total_of n\<rparr>
       (counted s n))"

definition sum_group :: "group_diff \<Rightarrow> diff_summary \<Rightarrow> diff_summary" where
  "sum_group g s = (let n = count_level (gd_fields g) (gd_objects g) in
     fold (sum_task (gd_name g)) (present (gd_tasks g))
       (place (0 < total_of n \<or> whole (gd_type g))
         \<lparr>dp_kind = ''group'', dp_name = gd_name g, dp_type = gd_type g, dp_changes = total_of n\<rparr>
         (counted s n)))"

definition no_changes :: diff_summary where
  "no_changes = \<lparr>ds_added = 0, ds_edited = 0, ds_deleted = 0, ds_places = []\<rparr>"

definition Summarize :: "job_diff option \<Rightarrow> diff_summary" where
  "Summarize p = (case p of None \<Rightarrow> no_changes
     | Some d \<Rightarrow> (let n = count_level (jd_fields d) (jd_objects d) in
         fold sum_group (present (jd_groups d))
           (place (0 < total_of n)
             \<lparr>dp_kind = ''job'', dp_name = [], dp_type = jd_type d, dp_changes = total_of n\<rparr>
             (counted no_changes n))))"

definition plural :: "nat \<Rightarrow> string \<Rightarrow> string" where
  "plural n noun = (if n = 1 then ''1 '' @ noun else show_nat n @ '' '' @ noun @ ''s'')"

definition of_kind :: "string \<Rightarrow> diff_summary \<Rightarrow> nat" where
  "of_kind k s = length (filter (\<lambda>p. dp_kind p = k) (ds_places s))"

definition summary_line :: "diff_summary \<Rightarrow> string" where
  "summary_line s = (let parts = (if 0 < of_kind ''job'' s then [''job''] else []) @
       (if 0 < of_kind ''group'' s then [plural (of_kind ''group'' s) ''group''] else []) @
       (if 0 < of_kind ''task'' s then [plural (of_kind ''task'' s) ''task''] else [])
     in if parts = [] then [] else join_with '', '' parts @ '' changed'')"

section \<open>What a diff shows\<close>

lemma present_Nil [simp]: "present [] = []"
  by (simp add: present_def)

lemma present_Cons [simp]: "present (x # xs) = (case x of None \<Rightarrow> present xs | Some y \<Rightarrow> y # present xs)"
  by (simp add: present_def split: option.splits)

lemma present_Some [simp]: "present (map Some xs) = xs"
  by (induction xs) simp_all

lemma set_present: "x \<in> set (present xs) \<longleftrightarrow> Some x \<in> set xs"
  by (induction xs) (auto split: option.splits)

lemma present_map: "present (map (map_option f) xs) = map f (present xs)"
  by (induction xs) (auto split: option.splits)

lemma keep_object_eq:
  "keep_object (ObjectDiff ty name fs os) =
     (if ty = ''Edited'' \<and> \<not> any_change (kept os) \<and> \<not> anyChanged fs then None
      else Some (ObjectDiff ty name fs (map Some (kept os))))"
proof -
  have "map (\<lambda>r. case r of None \<Rightarrow> None | Some x \<Rightarrow> x) (map (map_option keep_object) os) =
      map (\<lambda>r. case r of None \<Rightarrow> None | Some x \<Rightarrow> keep_object x) os"
    by (induction os) (auto split: option.splits)
  then show ?thesis unfolding keep_object.simps kept_def Let_def by (simp only:)
qed

declare keep_object.simps [simp del]

lemma kept_Nil [simp]: "kept [] = []"
  by (simp add: kept_def)

lemma kept_Cons [simp]:
  "kept (r # os) = (case r of None \<Rightarrow> kept os
     | Some x \<Rightarrow> (case keep_object x of None \<Rightarrow> kept os | Some y \<Rightarrow> y # kept os))"
  by (simp add: kept_def split: option.splits)

text \<open>
  A part shows a change if it is marked otherwise than edited or none, or is marked edited and a
  field or a part directly in it shows one.
\<close>

primrec shows_object :: "object_diff \<Rightarrow> bool" where
  "shows_object (ObjectDiff ty name fs os) =
     (if ty = ''Edited'' then anyChanged fs \<or>
        list_ex (\<lambda>r. case r of None \<Rightarrow> False | Some b \<Rightarrow> b) (map (map_option shows_object) os)
      else ty \<noteq> ''None'')"

definition shows_part :: "string \<Rightarrow> field_diff option list \<Rightarrow> object_diff option list \<Rightarrow> bool \<Rightarrow> bool" where
  "shows_part ty fs os below =
     (if ty = ''Edited'' then anyChanged fs \<or> list_ex shows_object (present os) \<or> below else ty \<noteq> ''None'')"

definition shows_task :: "task_diff \<Rightarrow> bool" where
  "shows_task t = shows_part (td_type t) (td_fields t) (td_objects t) False"

definition shows_group :: "group_diff \<Rightarrow> bool" where
  "shows_group g = shows_part (gd_type g) (gd_fields g) (gd_objects g) (list_ex shows_task (present (gd_tasks g)))"

definition shows_diff :: "job_diff \<Rightarrow> bool" where
  "shows_diff d = shows_part (jd_type d) (jd_fields d) (jd_objects d) (list_ex shows_group (present (jd_groups d)))"

lemma keep_object_type: "keep_object x = Some y \<Longrightarrow> od_type y = od_type x"
  by (cases x) (auto simp: keep_object_eq split: if_splits)

lemma keep_object_shows:
  "shows_object x \<longleftrightarrow> (case keep_object x of None \<Rightarrow> False | Some y \<Rightarrow> od_type y \<noteq> ''None'')"
proof (induction x)
  case (ObjectDiff ty name fs os)
  have "any_change (kept os) = list_ex (\<lambda>r. case r of None \<Rightarrow> False | Some b \<Rightarrow> b) (map (map_option shows_object) os)"
    using ObjectDiff.IH by (induction os) (auto split: option.splits)
  then show ?case by (auto simp: keep_object_eq)
qed

lemma any_change_kept: "any_change (kept os) = list_ex shows_object (present os)"
  by (induction os) (auto simp: keep_object_shows split: option.splits)

lemma settle_shows: "settle ty changed \<noteq> ''None'' \<longleftrightarrow> (if ty = ''Edited'' then changed else ty \<noteq> ''None'')"
  by (simp add: settle_def)

lemma settle_task_shows: "td_type (settle_task t) \<noteq> ''None'' \<longleftrightarrow> shows_task t"
  by (auto simp: settle_task_def keepChangedObjects_def shows_task_def shows_part_def settle_shows any_change_kept)

lemma list_ex_images:
  "list_ex (\<lambda>t. td_type t \<noteq> ''None'') (map settle_task ts) = list_ex shows_task ts"
  by (simp add: list_ex_iff settle_task_shows)

lemma settle_group_shows: "gd_type (settle_group g) \<noteq> ''None'' \<longleftrightarrow> shows_group g"
  by (auto simp: settle_group_def keepChangedObjects_def shows_group_def shows_part_def settle_shows any_change_kept
      Let_def present_map list_ex_images)

lemma list_ex_groups:
  "list_ex (\<lambda>g. gd_type g \<noteq> ''None'') (map settle_group gs) = list_ex shows_group gs"
  by (simp add: list_ex_iff settle_group_shows)

lemma dropEmptyEdits_shows: "jd_type (dropEmptyEdits d) \<noteq> ''None'' \<longleftrightarrow> shows_diff d"
  by (auto simp: dropEmptyEdits_def keepChangedObjects_def shows_diff_def shows_part_def settle_shows any_change_kept
      Let_def present_map list_ex_groups)

section \<open>A diff that is dropped once is dropped for good\<close>

lemma kept_once_more:
  "\<forall>x y. Some x \<in> set os \<longrightarrow> keep_object x = Some y \<longrightarrow> keep_object y = Some y \<Longrightarrow>
    kept (map Some (kept os)) = kept os"
  by (induction os) (auto split: option.splits)

lemma keep_object_again: "keep_object x = Some y \<Longrightarrow> keep_object y = Some y"
proof (induction x arbitrary: y)
  case (ObjectDiff ty name fs os)
  have "kept (map Some (kept os)) = kept os"
    by (rule kept_once_more) (auto dest: ObjectDiff.IH)
  with ObjectDiff.prems show ?case by (auto simp: keep_object_eq split: if_splits)
qed

lemma kept_again [simp]: "kept (map Some (kept os)) = kept os"
  by (rule kept_once_more) (auto dest: keep_object_again)

lemma settle_again [simp]: "settle (settle ty c) c = settle ty c"
  by (simp add: settle_def)

lemma settle_task_again [simp]: "settle_task (settle_task t) = settle_task t"
  by (simp add: settle_task_def keepChangedObjects_def)

lemma settle_group_again [simp]: "settle_group (settle_group g) = settle_group g"
  by (simp add: settle_group_def keepChangedObjects_def Let_def option.map_comp o_def)

lemma dropEmptyEdits_again: "dropEmptyEdits (dropEmptyEdits d) = dropEmptyEdits d"
  by (simp add: dropEmptyEdits_def keepChangedObjects_def Let_def option.map_comp o_def)


section \<open>Counting before and after\<close>

lemma add_counts_assoc: "add_counts (add_counts x y) z = add_counts x (add_counts y z)"
  by (cases x; cases y; cases z) simp

lemma add_counts_zero [simp]: "add_counts (0, 0, 0) x = x" "add_counts x (0, 0, 0) = x"
  by (cases x; simp)+

lemma total_add [simp]: "total_of (add_counts x y) = total_of x + total_of y"
  by (cases x; cases y) simp

lemma total_zero: "total_of x = 0 \<longleftrightarrow> x = (0, 0, 0)"
  by (cases x) auto

definition count_objects :: "object_diff option list \<Rightarrow> counts" where
  "count_objects os = foldr add_counts (map (\<lambda>r. case r of None \<Rightarrow> (0, 0, 0) | Some x \<Rightarrow> count_object x) os) (0, 0, 0)"

lemma count_objects_simps [simp]:
  "count_objects [] = (0, 0, 0)"
  "count_objects (r # os) = (case r of None \<Rightarrow> count_objects os | Some x \<Rightarrow> add_counts (count_object x) (count_objects os))"
  by (simp_all add: count_objects_def split: option.splits)

lemma count_object_eq: "count_object (ObjectDiff ty name fs os) = add_counts (count_fields fs) (count_objects os)"
proof -
  have "map (\<lambda>r. case r of None \<Rightarrow> (0, 0, 0) | Some n \<Rightarrow> n) (map (map_option count_object) os) =
      map (\<lambda>r. case r of None \<Rightarrow> (0, 0, 0) | Some x \<Rightarrow> count_object x) os"
    by (induction os) (auto split: option.splits)
  then show ?thesis unfolding count_object.simps count_objects_def by (simp only:)
qed

declare count_object.simps [simp del]

lemma count_level_eq: "count_level fs os = add_counts (count_fields fs) (count_objects os)"
  by (simp add: count_level_def count_objects_def)

lemma unchanged_count: "\<not> anyChanged fs \<Longrightarrow> count_fields fs = (0, 0, 0)"
  by (induction fs rule: count_fields.induct) (auto simp: anyChanged_def)

text \<open>What Nomad keeps to: an object it marks as not changed has no changed field in it.\<close>

primrec consistent :: "object_diff \<Rightarrow> bool" where
  "consistent (ObjectDiff ty name fs os) =
     ((ty = ''None'' \<longrightarrow> count_fields fs = (0, 0, 0) \<and> count_objects os = (0, 0, 0)) \<and>
      list_all (\<lambda>r. case r of None \<Rightarrow> True | Some b \<Rightarrow> b) (map (map_option consistent) os))"

lemma consistent_eq: "consistent (ObjectDiff ty name fs os) \<longleftrightarrow>
    (ty = ''None'' \<longrightarrow> count_fields fs = (0, 0, 0) \<and> count_objects os = (0, 0, 0)) \<and> list_all consistent (present os)"
proof -
  have "list_all (\<lambda>r. case r of None \<Rightarrow> True | Some b \<Rightarrow> b) (map (map_option consistent) os) =
      list_all consistent (present os)"
    by (induction os) (auto split: option.splits)
  then show ?thesis by (simp only: consistent.simps)
qed

declare consistent.simps [simp del]

lemma none_counts_nothing: "consistent x \<Longrightarrow> od_type x = ''None'' \<Longrightarrow> count_object x = (0, 0, 0)"
  by (cases x) (simp add: count_object_eq consistent_eq)

definition count_kept :: "object_diff \<Rightarrow> bool" where
  "count_kept x = (case keep_object x of None \<Rightarrow> count_object x = (0, 0, 0)
     | Some y \<Rightarrow> count_object y = count_object x \<and> (od_type y = ''None'' \<longrightarrow> count_object y = (0, 0, 0)))"

lemma count_keptD:
  "count_kept x \<Longrightarrow> keep_object x = None \<Longrightarrow> count_object x = (0, 0, 0)"
  "count_kept x \<Longrightarrow> keep_object x = Some y \<Longrightarrow> count_object y = count_object x"
  "count_kept x \<Longrightarrow> keep_object x = Some y \<Longrightarrow> od_type y = ''None'' \<Longrightarrow> count_object x = (0, 0, 0)"
  by (auto simp: count_kept_def)

lemma count_kept_objects:
  "list_all count_kept (present os) \<Longrightarrow> count_objects (map Some (kept os)) = count_objects os \<and>
     (\<not> any_change (kept os) \<longrightarrow> count_objects os = (0, 0, 0))"
  by (induction os) (auto simp: count_keptD split: option.splits)

lemma keep_object_count: "consistent x \<Longrightarrow> count_kept x"
proof (induction x)
  case (ObjectDiff ty name fs os)
  have "list_all count_kept (present os)"
    using ObjectDiff.IH ObjectDiff.prems by (auto simp: list_all_iff set_present consistent_eq)
  note count_kept_objects [OF this]
  moreover have "ty = ''None'' \<Longrightarrow> count_fields fs = (0, 0, 0) \<and> count_objects os = (0, 0, 0)"
    using ObjectDiff.prems by (simp add: consistent_eq)
  ultimately show ?case
    by (auto simp: count_kept_def keep_object_eq count_object_eq unchanged_count)
qed

lemma keep_level_count:
  assumes "list_all consistent (present os)"
  shows "count_level fs (map Some (kept os)) = count_level fs os"
    and "0 < total_of (count_level fs os) \<Longrightarrow> any_change (kept os) \<or> anyChanged fs"
proof -
  have "list_all count_kept (present os)"
    using assms by (auto simp: list_all_iff keep_object_count)
  note count_kept_objects [OF this]
  then show "count_level fs (map Some (kept os)) = count_level fs os"
    and "0 < total_of (count_level fs os) \<Longrightarrow> any_change (kept os) \<or> anyChanged fs"
    using unchanged_count [of fs] by (auto simp: count_level_eq)
qed

lemma settle_whole [simp]: "whole (settle ty c) = whole ty" "whole ty \<or> c \<Longrightarrow> settle ty c = ty"
  by (auto simp: settle_def whole_def)

definition consistent_task :: "task_diff \<Rightarrow> bool" where
  "consistent_task t = list_all consistent (present (td_objects t))"

definition consistent_group :: "group_diff \<Rightarrow> bool" where
  "consistent_group g = (list_all consistent (present (gd_objects g)) \<and> list_all consistent_task (present (gd_tasks g)))"

definition consistent_diff :: "job_diff \<Rightarrow> bool" where
  "consistent_diff d = (list_all consistent (present (jd_objects d)) \<and> list_all consistent_group (present (jd_groups d)))"

lemma place_same:
  "(l \<Longrightarrow> p = q) \<Longrightarrow> place l p s = place l q s"
  by (simp add: place_def)

lemma sum_task_settled: "consistent_task t \<Longrightarrow> sum_task n (settle_task t) s = sum_task n t s"
  using keep_level_count(2) [of "td_objects t" "td_fields t"]
  by (auto simp: consistent_task_def sum_task_def settle_task_def keepChangedObjects_def Let_def keep_level_count(1)
      intro!: place_same)

lemma sum_tasks_settled:
  "list_all consistent_task ts \<Longrightarrow> fold (sum_task n) (map settle_task ts) s = fold (sum_task n) ts s"
  by (induction ts arbitrary: s) (simp_all add: sum_task_settled)

lemma sum_group_settled:
  assumes "consistent_group g"
  shows "sum_group (settle_group g) s = sum_group g s"
proof -
  have same: "gd_name (settle_group g) = gd_name g" "gd_fields (settle_group g) = gd_fields g"
    "gd_objects (settle_group g) = map Some (kept (gd_objects g))"
    "present (gd_tasks (settle_group g)) = map settle_task (present (gd_tasks g))"
    by (simp_all add: settle_group_def keepChangedObjects_def Let_def present_map)
  have level: "list_all consistent (present (gd_objects g))" using assms by (simp add: consistent_group_def)
  have type: "whole (gd_type (settle_group g)) = whole (gd_type g)"
    "0 < total_of (count_level (gd_fields g) (gd_objects g)) \<or> whole (gd_type g) \<Longrightarrow> gd_type (settle_group g) = gd_type g"
    using keep_level_count(2) [OF level, of "gd_fields g"]
    by (auto simp: settle_group_def keepChangedObjects_def Let_def)
  have "list_all consistent_task (present (gd_tasks g))" using assms by (simp add: consistent_group_def)
  then show ?thesis
    unfolding sum_group_def Let_def same keep_level_count(1) [OF level]
    by (simp add: sum_tasks_settled type(1) place_def) (metis type(2))
qed

lemma sum_groups_settled:
  "list_all consistent_group gs \<Longrightarrow> fold sum_group (map settle_group gs) s = fold sum_group gs s"
  by (induction gs arbitrary: s) (simp_all add: sum_group_settled)

lemma Summarize_settled:
  assumes "consistent_diff d"
  shows "Summarize (Some (dropEmptyEdits d)) = Summarize (Some d)"
proof -
  have same: "jd_fields (dropEmptyEdits d) = jd_fields d"
    "jd_objects (dropEmptyEdits d) = map Some (kept (jd_objects d))"
    "present (jd_groups (dropEmptyEdits d)) = map settle_group (present (jd_groups d))"
    by (simp_all add: dropEmptyEdits_def keepChangedObjects_def Let_def present_map)
  have level: "list_all consistent (present (jd_objects d))" using assms by (simp add: consistent_diff_def)
  have type: "0 < total_of (count_level (jd_fields d) (jd_objects d)) \<Longrightarrow> jd_type (dropEmptyEdits d) = jd_type d"
    using keep_level_count(2) [OF level, of "jd_fields d"]
    by (auto simp: dropEmptyEdits_def keepChangedObjects_def Let_def)
  have "list_all consistent_group (present (jd_groups d))" using assms by (simp add: consistent_diff_def)
  then show ?thesis
    by (simp add: Summarize_def Let_def same keep_level_count(1) [OF level] sum_groups_settled place_def type)
qed

section \<open>The summary adds up\<close>

definition changes_of :: "diff_summary \<Rightarrow> nat" where
  "changes_of s = sum_list (map dp_changes (ds_places s))"

lemma Total_counted [simp]: "Total (counted s n) = Total s + total_of n" "ds_places (counted s n) = ds_places s"
  by (cases n; simp add: Total_def counted_def)+

lemma Total_place [simp]: "Total (place l p s) = Total s"
  by (simp add: Total_def place_def)

lemma changes_place [simp]: "changes_of (place l p s) = changes_of s + (if l then dp_changes p else 0)"
  by (simp add: changes_of_def place_def)

lemma changes_counted [simp]: "changes_of (counted s n) = changes_of s"
  by (simp add: changes_of_def)

lemma sum_task_adds: "Total s = changes_of s \<Longrightarrow> Total (sum_task n t s) = changes_of (sum_task n t s)"
  by (auto simp: sum_task_def Let_def)

lemma fold_keeps: "(\<And>x s. P s \<Longrightarrow> P (f x s)) \<Longrightarrow> P s \<Longrightarrow> P (fold f xs s)"
  by (induction xs arbitrary: s) simp_all

text \<open>What holds of a summary all along the walk: the changes of the places add up, and their kinds.\<close>

definition summed :: "diff_summary \<Rightarrow> bool" where
  "summed s = (Total s = changes_of s \<and> list_all (\<lambda>p. dp_kind p \<in> {''job'', ''group'', ''task''}) (ds_places s))"

lemma places_place [simp]: "ds_places (place l p s) = ds_places s @ (if l then [p] else [])"
  by (simp add: place_def)

lemma summed_place:
  "summed s \<Longrightarrow> dp_changes p = total_of n \<Longrightarrow> dp_kind p \<in> {''job'', ''group'', ''task''} \<Longrightarrow>
    0 < total_of n \<longrightarrow> l \<Longrightarrow> summed (place l p (counted s n))"
  by (auto simp: summed_def)

lemma summed_task: "summed s \<Longrightarrow> summed (sum_task n t s)"
  unfolding sum_task_def Let_def by (rule summed_place) auto

lemma summed_group: "summed s \<Longrightarrow> summed (sum_group g s)"
  unfolding sum_group_def Let_def by (rule fold_keeps [where P = summed], erule summed_task, rule summed_place) auto

lemma summed_Summarize: "summed (Summarize p)"
proof (cases p)
  case (Some d)
  have start: "summed no_changes" by (simp add: summed_def no_changes_def Total_def changes_of_def)
  show ?thesis
    unfolding Summarize_def Let_def Some option.case
    by (rule fold_keeps [where P = summed], erule summed_group, rule summed_place [OF start]) auto
qed (simp add: Summarize_def summed_def no_changes_def Total_def changes_of_def)

lemma join_with_Nil [simp]: "join_with sep (x # xs) = [] \<longleftrightarrow> x = [] \<and> (xs = [] \<or> sep = [] \<and> join_with sep xs = [])"
  by (cases xs) simp_all

lemma summary_line_empty: "summed s \<Longrightarrow> summary_line s = [] \<longleftrightarrow> ds_places s = []"
  by (cases "ds_places s") (auto simp: summary_line_def summed_def of_kind_def Let_def)

section \<open>What the dashboard shows of a plan\<close>

text \<open>
  Claim C29. Clearing a plan's diff of empty edits makes its type tell drift: a job counts as changed
  exactly when a part of it, at any depth, shows a change in its own right or in a field. Clearing
  it again changes nothing.
\<close>

theorem drift_iff_shown:
  "plan_drift (Some (dropEmptyEdits d)) = shows_diff d \<and> dropEmptyEdits (dropEmptyEdits d) = dropEmptyEdits d"
  by (simp add: plan_drift_def dropEmptyEdits_shows dropEmptyEdits_again)

text \<open>
  The summary above a diff is unchanged by clearing the empty edits, where a part Nomad
  marks as unchanged has no changed field in it: what the clearing takes out counted nothing.
\<close>

theorem summary_survives_clearing:
  assumes "consistent_diff d"
  shows "Summarize (Some (dropEmptyEdits d)) = Summarize (Some d) \<and>
    summary_line (Summarize (Some (dropEmptyEdits d))) = summary_line (Summarize (Some d))"
  by (simp add: Summarize_settled [OF assms])

text \<open>
  The summary of a diff adds up: the changes listed place by place are all the fields
  added, edited and deleted, and its line is empty exactly when no place is listed.
\<close>

theorem summary_adds_up:
  "sum_list (map dp_changes (ds_places (Summarize p))) = Total (Summarize p) \<and>
   (summary_line (Summarize p) = [] \<longleftrightarrow> ds_places (Summarize p) = [])"
  using summed_Summarize [of p] summary_line_empty [OF summed_Summarize, of p]
  by (simp add: summed_def changes_of_def)

section \<open>Samples\<close>

text \<open>A job whose scaling Nomad marks as edited without showing how, and one edited count beside it.\<close>

definition field :: "string \<Rightarrow> string \<Rightarrow> field_diff option" where
  "field ty name = Some \<lparr>fd_type = ty, fd_name = name, fd_old = ''1'', fd_new = ''2'', fd_annotations = []\<rparr>"

definition scaling_only :: job_diff where
  "scaling_only = \<lparr>jd_type = ''Edited'', jd_id = ''api'', jd_fields = [], jd_objects = [], jd_groups =
     [Some \<lparr>gd_type = ''Edited'', gd_name = ''web'', gd_fields = [field ''None'' ''Count''],
       gd_objects = [Some (ObjectDiff ''Edited'' ''Scaling'' [] [])], gd_tasks = [], gd_updates = []\<rparr>]\<rparr>"

lemma scaling_is_no_drift: "\<not> plan_drift (Some (dropEmptyEdits scaling_only))"
  by (simp add: plan_drift_def dropEmptyEdits_shows shows_diff_def shows_group_def shows_part_def scaling_only_def
      anyChanged_def field_def)

theorem summary_survives_clearing_witness:
  "Summarize (Some (dropEmptyEdits scaling_only)) = Summarize (Some scaling_only)"
proof -
  have "consistent_diff scaling_only"
    by (simp add: consistent_diff_def consistent_group_def scaling_only_def consistent_eq)
  from summary_survives_clearing [OF this] show ?thesis by blast
qed

end
