(* ===== verification/NomadClient.thy ===== *)
theory NomadClient
  imports NomadDiff
begin

text \<open>
  The calls of the Nomad client (\<open>internal/nomadx/client.go\<close>). What Nomad answers to a request is an
  argument of each call, a function of what the request names: the namespace first. The model says
  what is sent, how an error of Nomad is told apart, and what is made of an answer.
\<close>

section \<open>Errors\<close>

text \<open>An error of Nomad's client: the HTTP status of the answer, if there was one, and its text.\<close>

record http_error =
  he_status :: "nat option"
  he_text :: string

definition casConflictMarker :: string where
  "casConflictMarker = ''Enforcing job modify index''"

definition isCASConflict :: "http_error \<Rightarrow> bool" where
  "isCASConflict e = sublist casConflictMarker (he_text e)"

definition isNotFound :: "http_error \<Rightarrow> bool" where
  "isNotFound e = (he_status e = Some 404)"

definition isRefused :: "http_error \<Rightarrow> bool" where
  "isRefused e = (case he_status e of None \<Rightarrow> False | Some n \<Rightarrow> 400 \<le> n \<and> n < 500)"

definition errNoNamespace :: string where
  "errNoNamespace = ''no namespace given''"

text \<open>\<open>query\<close> and \<open>write\<close>: no request is made without a namespace.\<close>

definition in_namespace :: "string \<Rightarrow> (string \<Rightarrow> http_error + 'a) \<Rightarrow> string \<Rightarrow>
    (http_error \<Rightarrow> nomad_error) \<Rightarrow> nomad_error + 'a" where
  "in_namespace ns ask what told =
     (if ns = [] then Inl (NomadFailure (what @ errNoNamespace))
      else case ask ns of Inl e \<Rightarrow> Inl (told e) | Inr x \<Rightarrow> Inr x)"

abbreviation failed_call :: "string \<Rightarrow> http_error \<Rightarrow> nomad_error" where
  "failed_call what e \<equiv> NomadFailure (what @ he_text e)"

definition not_found_or :: "string \<Rightarrow> string \<Rightarrow> http_error \<Rightarrow> nomad_error" where
  "not_found_or named what e = (if isNotFound e then JobNotFound (named @ '': job not found'') else failed_call what e)"

definition nomad_deref :: "string option \<Rightarrow> string" where
  "nomad_deref s = (case s of None \<Rightarrow> ''<nil>'' | Some x \<Rightarrow> x)"

definition jobNamespace :: "job \<Rightarrow> string" where
  "jobNamespace j = (case j_namespace j of None \<Rightarrow> [] | Some ns \<Rightarrow> ns)"

section \<open>Jobs\<close>

text \<open>The error of a context that is over already comes before anything else.\<close>

definition ParseHCL :: "string option \<Rightarrow> string \<Rightarrow> (string \<Rightarrow> http_error + 'j) \<Rightarrow> nomad_error + 'j" where
  "ParseHCL over ns parse_call = (case over of Some e \<Rightarrow> Inl (NomadFailure e)
     | None \<Rightarrow> in_namespace ns parse_call [] (failed_call ''parse job: ''))"

definition Job :: "string \<Rightarrow> string \<Rightarrow> (string \<Rightarrow> string \<Rightarrow> http_error + 'j) \<Rightarrow> nomad_error + 'j" where
  "Job ns i info = in_namespace ns (\<lambda>ns. info ns i) (''get job '' @ i @ '': '')
     (not_found_or (''job '' @ i) (''get job '' @ i @ '': ''))"

definition Plan :: "job \<Rightarrow> (string \<Rightarrow> job \<Rightarrow> http_error + job_diff option) \<Rightarrow> nomad_error + plan" where
  "Plan j plan_call = (let what = ''plan job '' @ nomad_deref (j_id j) @ '': '' in
     bindE (in_namespace (jobNamespace j) (\<lambda>ns. plan_call ns j) what (failed_call what))
       (\<lambda>d. Inr (map_option dropEmptyEdits d)))"

text \<open>What a register asks of Nomad: always with the check of the index.\<close>

record register_request =
  rq_job :: job
  rq_enforce :: bool
  rq_index :: nat
  rq_preserve :: bool
  rq_submission :: "submission option"

definition RegisterCAS :: "job \<Rightarrow> nat \<Rightarrow> bool \<Rightarrow> submission option \<Rightarrow>
    (string \<Rightarrow> register_request \<Rightarrow> http_error + register_result) \<Rightarrow> nomad_error + register_result" where
  "RegisterCAS j idx preserve sub register = (let named = ''register job '' @ nomad_deref (j_id j) in
     in_namespace (jobNamespace j)
       (\<lambda>ns. register ns \<lparr>rq_job = j, rq_enforce = True, rq_index = idx, rq_preserve = preserve, rq_submission = sub\<rparr>)
       (named @ '': '')
       (\<lambda>e. if isCASConflict e then CASConflict (named @ '' at index '' @ show_nat idx @
              '': job modify index conflict: '' @ he_text e)
            else failed_call (named @ '': '') e))"

definition ListJobs :: "string \<Rightarrow> (string \<Rightarrow> http_error + job_stub list) \<Rightarrow> nomad_error + job_stub list" where
  "ListJobs ns list_call = bindE (in_namespace ns list_call ''list jobs: '' (failed_call ''list jobs: ''))
     (\<lambda>js. Inr (sort_key st_id js))"

definition Dispatch :: "string \<Rightarrow> string \<Rightarrow> (string \<times> string) list \<Rightarrow> string \<Rightarrow>
    (string \<Rightarrow> string \<Rightarrow> (string \<times> string) list \<Rightarrow> string \<Rightarrow> http_error + string \<times> string) \<Rightarrow>
    nomad_error + string \<times> string" where
  "Dispatch ns parent meta token dispatch_call = (let what = ''dispatch job '' @ parent @ '': '' in
     in_namespace ns (\<lambda>ns. dispatch_call ns parent meta token) what
       (\<lambda>e. if isRefused e then DispatchRefused (what @ ''dispatch refused: '' @ he_text e) else failed_call what e))"

definition StopJob :: "string \<Rightarrow> string \<Rightarrow> (string \<Rightarrow> string \<Rightarrow> http_error + unit) \<Rightarrow> nomad_error + unit" where
  "StopJob ns i stop = (let what = ''stop job '' @ i @ '': '' in
     if ns = [] then Inl (NomadFailure (what @ errNoNamespace))
     else case stop ns i of Inr _ \<Rightarrow> Inr ()
       | Inl e \<Rightarrow> if isNotFound e then Inr () else Inl (failed_call what e))"

definition PromoteDeployment :: "string \<Rightarrow> string \<Rightarrow> (string \<Rightarrow> string \<Rightarrow> http_error + unit) \<Rightarrow> nomad_error + unit" where
  "PromoteDeployment ns i promote = (let what = ''promote deployment '' @ i @ '': '' in
     in_namespace ns (\<lambda>ns. promote ns i) what (failed_call what))"

text \<open>An empty answer, or one without an ID, is no Nomad deployment.\<close>

definition LatestNomadDeployment :: "string \<Rightarrow> string \<Rightarrow>
    (string \<Rightarrow> string \<Rightarrow> http_error + nomad_deployment option) \<Rightarrow> nomad_error + nomad_deployment option" where
  "LatestNomadDeployment ns i latest = (let named = ''latest deployment of job '' @ i in
     bindE (in_namespace ns (\<lambda>ns. latest ns i) (named @ '': '') (not_found_or named (named @ '': '')))
       (\<lambda>d. Inr (case d of None \<Rightarrow> None | Some x \<Rightarrow> if nd_id x = [] then None else Some x)))"

section \<open>Allocations\<close>

record task_event =
  te_type :: string
  te_message :: string

record task_state =
  ts_failed :: bool
  ts_events :: "task_event list"

record alloc_stub =
  as_alloc :: alloc
  as_description :: string
  as_tasks :: "(string \<times> task_state option) list"

text \<open>
  The names Nomad gives to the types of events that tell a cause are constants of its package, as are
  the ends of an evaluation: \<open>causes\<close> and \<open>ends\<close> below. The loop of \<open>failureEvent\<close> goes downwards
  from the last index; \<open>n\<close> events are left.
\<close>

fun failure_loop :: "string list \<Rightarrow> nat \<Rightarrow> task_event list \<Rightarrow> task_event" where
  "failure_loop causes 0 evs = evs ! (length evs - 1)"
| "failure_loop causes (Suc n) evs =
     (if te_type (evs ! n) \<in> set causes then evs ! n else failure_loop causes n evs)"

definition failureEvent :: "string list \<Rightarrow> task_event list \<Rightarrow> task_event" where
  "failureEvent causes evs = failure_loop causes (length evs) evs"

definition task_reason :: "string list \<Rightarrow> string \<Rightarrow> task_state option \<Rightarrow> string list" where
  "task_reason causes name st = (case st of None \<Rightarrow> []
     | Some ts \<Rightarrow> if \<not> ts_failed ts \<or> ts_events ts = [] then []
         else let ev = failureEvent causes (ts_events ts)
           in [''task '' @ name @ '': '' @ (if te_message ev = [] then te_type ev else te_message ev)])"

definition alloc_failure :: "string list \<Rightarrow> alloc_stub \<Rightarrow> string" where
  "alloc_failure causes a = join_with ''; ''
     ((if (al_client_status (as_alloc a) = ''failed'' \<or> al_client_status (as_alloc a) = ''lost'') \<and> as_description a \<noteq> []
       then [as_description a] else []) @
      concat (map (\<lambda>(name, st). task_reason causes name st) (sort_key fst (as_tasks a))))"

definition Allocations :: "string list \<Rightarrow> string \<Rightarrow> string \<Rightarrow> (string \<Rightarrow> string \<Rightarrow> http_error + alloc_stub list) \<Rightarrow>
    nomad_error + alloc list" where
  "Allocations causes ns i allocs =
     bindE (in_namespace ns (\<lambda>ns. allocs ns i) (''list allocations of job '' @ i @ '': '')
         (not_found_or (''allocations of job '' @ i) (''list allocations of job '' @ i @ '': '')))
       (\<lambda>stubs. Inr (map (\<lambda>a. (as_alloc a)\<lparr>al_failure := alloc_failure causes a\<rparr>) stubs))"

section \<open>Evaluations\<close>

record eval_metric =
  em_nodes_exhausted :: int
  em_dimensions :: "(string \<times> int) list"

record evaluation =
  ev_status :: string
  ev_failed :: "(string \<times> eval_metric option) list"

definition evaluations :: "string \<Rightarrow> string \<Rightarrow> (string \<Rightarrow> string \<Rightarrow> http_error + evaluation list) \<Rightarrow>
    nomad_error + evaluation list" where
  "evaluations ns i evals = in_namespace ns (\<lambda>ns. evals ns i) (''list evaluations of job '' @ i @ '': '')
     (not_found_or (''evaluations of job '' @ i) (''list evaluations of job '' @ i @ '': ''))"

definition finished_eval :: "string list \<Rightarrow> evaluation \<Rightarrow> bool" where
  "finished_eval ends e = (ev_status e \<in> set ends)"

definition UnfinishedEvaluation :: "string list \<Rightarrow> string \<Rightarrow> string \<Rightarrow> (string \<Rightarrow> string \<Rightarrow> http_error + evaluation list) \<Rightarrow>
    nomad_error + bool" where
  "UnfinishedEvaluation ends ns i evals = bindE (evaluations ns i evals)
     (\<lambda>es. Inr (list_ex (\<lambda>e. \<not> finished_eval ends e) es))"

text \<open>The metric of each group: the one of the last evaluation in the list that is blocked and has one.\<close>

fun note_metrics :: "(string \<times> eval_metric option) list \<Rightarrow> (string \<rightharpoonup> eval_metric) \<Rightarrow> (string \<rightharpoonup> eval_metric)" where
  "note_metrics [] m = m"
| "note_metrics ((g, x) # xs) m = note_metrics xs (case x of None \<Rightarrow> m
     | Some y \<Rightarrow> if 0 < em_nodes_exhausted y then m(g \<mapsto> y) else m)"

fun blocked_metrics :: "evaluation list \<Rightarrow> (string \<rightharpoonup> eval_metric) \<Rightarrow> (string \<rightharpoonup> eval_metric)" where
  "blocked_metrics [] m = m"
| "blocked_metrics (e # es) m =
     blocked_metrics es (if ev_status e = ''blocked'' then note_metrics (ev_failed e) m else m)"

definition show_intg :: "int \<Rightarrow> string" where
  "show_intg n = (if n < 0 then CHR ''-'' # show_nat (nat (- n)) else show_nat (nat n))"

definition noRoomMessage :: "eval_metric \<Rightarrow> string" where
  "noRoomMessage m = ''no room on '' @ show_intg (em_nodes_exhausted m) @ '' '' @
     (if em_nodes_exhausted m = 1 then ''node'' else ''nodes'') @
     (if em_dimensions m = [] then [] else '' ('' @ join_with '', '' (sort (map fst (em_dimensions m))) @ '')'')"

text \<open>The groups that appear in an evaluation, sorted and once each.\<close>

definition groups_named :: "evaluation list \<Rightarrow> string list" where
  "groups_named es = sort (remdups (concat (map (\<lambda>e. map fst (ev_failed e)) es)))"

definition NoRoom :: "string \<Rightarrow> string \<Rightarrow> (string \<Rightarrow> string \<Rightarrow> http_error + evaluation list) \<Rightarrow> nomad_error + string" where
  "NoRoom ns i evals = bindE (evaluations ns i evals) (\<lambda>es.
     let m = blocked_metrics es Map.empty; groups = filter (\<lambda>g. m g \<noteq> None) (groups_named es) in
     Inr (join_with ''; '' (map (\<lambda>g.
       (if 1 < length groups then ''group '' @ go_quote g @ '': '' else []) @ noRoomMessage (the (m g))) groups)))"

section \<open>The child of a dispatch\<close>

text \<open>
  The loop of \<open>FindDispatched\<close> over the listed children. A child is its job's idempotency token.
\<close>

fun find_child :: "string \<Rightarrow> string \<Rightarrow> string \<Rightarrow> (string \<Rightarrow> string \<Rightarrow> http_error + string option) \<Rightarrow> job_stub list \<Rightarrow>
    nomad_error + string" where
  "find_child ns parent token info [] = Inr []"
| "find_child ns parent token info (s # ss) =
     (if st_parent s \<noteq> parent then find_child ns parent token info ss
      else case Job ns (st_id s) info of
          Inl e \<Rightarrow> if is_not_found e then find_child ns parent token info ss else Inl e
        | Inr t \<Rightarrow> if t = Some token then Inr (st_id s) else find_child ns parent token info ss)"

definition FindDispatched :: "string \<Rightarrow> string \<Rightarrow> string \<Rightarrow> (string \<Rightarrow> string \<Rightarrow> http_error + job_stub list) \<Rightarrow>
    (string \<Rightarrow> string \<Rightarrow> http_error + string option) \<Rightarrow> nomad_error + string" where
  "FindDispatched ns parent token list_call info =
     (let what = ''list children of job '' @ parent @ '': '' in
      bindE (in_namespace ns (\<lambda>ns. list_call ns (parent @ ''/dispatch-'')) what (failed_call what))
        (find_child ns parent token info))"

section \<open>What the calls promise\<close>

lemma in_namespace_cases:
  "in_namespace ns ask what told = Inr x \<longleftrightarrow> ns \<noteq> [] \<and> ask ns = Inr x"
  "in_namespace ns ask what told = Inl e \<longleftrightarrow>
     (ns = [] \<and> e = NomadFailure (what @ errNoNamespace)) \<or> (ns \<noteq> [] \<and> (\<exists>h. ask ns = Inl h \<and> e = told h))"
  by (auto simp: in_namespace_def split: sum.splits)

text \<open>
  A register is always checked against the index, in the job's own namespace: it succeeds
  exactly when Nomad accepts the request with the check on, is answered as a conflict exactly when
  Nomad's error says the index did not match, and is never sent for a job without a namespace.
\<close>

theorem register_is_checked:
  "(RegisterCAS j idx preserve sub register = Inr r \<longleftrightarrow> jobNamespace j \<noteq> [] \<and>
     register (jobNamespace j) \<lparr>rq_job = j, rq_enforce = True, rq_index = idx, rq_preserve = preserve, rq_submission = sub\<rparr> = Inr r) \<and>
   ((\<exists>m. RegisterCAS j idx preserve sub register = Inl (CASConflict m)) \<longleftrightarrow> jobNamespace j \<noteq> [] \<and>
     (\<exists>e. register (jobNamespace j) \<lparr>rq_job = j, rq_enforce = True, rq_index = idx, rq_preserve = preserve, rq_submission = sub\<rparr> = Inl e \<and>
       sublist casConflictMarker (he_text e)))"
  by (auto simp: RegisterCAS_def Let_def in_namespace_cases isCASConflict_def)

lemma failure_loop_spec:
  "n \<le> length evs \<Longrightarrow> failure_loop causes n evs =
     (let cs = filter (\<lambda>ev. te_type ev \<in> set causes) (take n evs) in
      if cs = [] then evs ! (length evs - 1) else last cs)"
  by (induction n) (simp_all add: take_Suc_conv_app_nth Let_def)

lemma failureEvent_spec:
  "evs \<noteq> [] \<Longrightarrow> failureEvent causes evs =
     (let cs = filter (\<lambda>ev. te_type ev \<in> set causes) evs in if cs = [] then last evs else last cs)"
  using failure_loop_spec [of "length evs" evs causes] by (simp add: failureEvent_def last_conv_nth Let_def)

text \<open>The children that carry the token, among those of the parent Nomad still has.\<close>

definition carries_token :: "string \<Rightarrow> string \<Rightarrow> string \<Rightarrow> (string \<Rightarrow> string \<Rightarrow> http_error + string option) \<Rightarrow> job_stub \<Rightarrow> bool" where
  "carries_token ns parent token info s = (st_parent s = parent \<and> info ns (st_id s) = Inr (Some token))"

definition unreadable :: "string \<Rightarrow> string \<Rightarrow> (string \<Rightarrow> string \<Rightarrow> http_error + string option) \<Rightarrow> job_stub \<Rightarrow> bool" where
  "unreadable ns parent info s = (st_parent s = parent \<and> (\<exists>e. info ns (st_id s) = Inl e \<and> \<not> isNotFound e))"

lemma find_child_skips:
  "ns \<noteq> [] \<Longrightarrow> \<not> carries_token ns parent token info s \<Longrightarrow> \<not> unreadable ns parent info s \<Longrightarrow>
    find_child ns parent token info (s # ss) = find_child ns parent token info ss"
  by (auto simp: Job_def in_namespace_def not_found_or_def is_not_found_def carries_token_def unreadable_def
      split: sum.splits)

lemma find_child_stops:
  "ns \<noteq> [] \<Longrightarrow> carries_token ns parent token info s \<Longrightarrow> find_child ns parent token info (s # ss) = Inr (st_id s)"
  "ns \<noteq> [] \<Longrightarrow> unreadable ns parent info s \<Longrightarrow> \<not> is_ok (find_child ns parent token info (s # ss))"
  by (auto simp: Job_def in_namespace_def not_found_or_def is_not_found_def carries_token_def unreadable_def
      split: sum.splits)

lemma find_child_spec:
  "ns \<noteq> [] \<Longrightarrow> is_ok (find_child ns parent token info ss) \<Longrightarrow> find_child ns parent token info ss =
     Inr (case find (carries_token ns parent token info) ss of None \<Rightarrow> [] | Some s \<Rightarrow> st_id s)"
proof (induction ss)
  case (Cons s ss)
  consider (here) "carries_token ns parent token info s" | (bad) "unreadable ns parent info s"
    | (on) "\<not> carries_token ns parent token info s" "\<not> unreadable ns parent info s" by blast
  then show ?case
  proof cases
    case here
    then show ?thesis by (simp only: find_child_stops(1) [OF Cons.prems(1)] find.simps if_True option.case)
  next
    case bad
    with find_child_stops(2) [OF Cons.prems(1) bad] Cons.prems(2) show ?thesis by blast
  next
    case on
    with Cons.IH [OF Cons.prems(1)] Cons.prems(2) show ?thesis
      by (simp only: find_child_skips [OF Cons.prems(1) on] find.simps if_False simp_thms)
  qed
qed simp

text \<open>
  A resumed run finds its child or nothing: where the lookup succeeds, it answers the first
  child Nomad lists under the parent that carries the run's token, and the empty ID exactly when
  none of those that can be read carries it. A child that is gone by the time it is read is passed
  over; any other failure to read one is an error, never an absent child.
\<close>

theorem find_dispatched_complete:
  assumes "ns \<noteq> []" "list_call ns (parent @ ''/dispatch-'') = Inr ss" "\<forall>s\<in>set ss. st_id s \<noteq> []"
    "FindDispatched ns parent token list_call info = Inr i"
  shows "(i = [] \<longleftrightarrow> \<not> list_ex (carries_token ns parent token info) ss) \<and>
    (i \<noteq> [] \<longrightarrow> (\<exists>s. find (carries_token ns parent token info) ss = Some s \<and> i = st_id s))"
proof -
  from assms have "find_child ns parent token info ss = Inr i"
    by (simp add: FindDispatched_def Let_def in_namespace_def)
  with find_child_spec [OF assms(1), of parent token info ss]
  have "i = (case find (carries_token ns parent token info) ss of None \<Rightarrow> [] | Some s \<Rightarrow> st_id s)" by simp
  then show ?thesis
    using assms(3) find_SomeD [of "carries_token ns parent token info" ss]
    by (auto simp: find_None_iff_all list_ex_iff split: option.splits)
qed


section \<open>No room\<close>

definition exhausts :: "evaluation \<Rightarrow> string \<Rightarrow> bool" where
  "exhausts e g = (ev_status e = ''blocked'' \<and> (\<exists>y. (g, Some y) \<in> set (ev_failed e) \<and> 0 < em_nodes_exhausted y))"

lemma note_metrics_none:
  "note_metrics xs m g = None \<longleftrightarrow> m g = None \<and> \<not> (\<exists>y. (g, Some y) \<in> set xs \<and> 0 < em_nodes_exhausted y)"
proof (induction xs arbitrary: m)
  case (Cons p xs)
  obtain h x where p: "p = (h, x)" by (cases p)
  show ?case
    unfolding p note_metrics.simps Cons.IH by (cases x) auto
qed simp

lemma blocked_metrics_none:
  "blocked_metrics es m g = None \<longleftrightarrow> m g = None \<and> \<not> (\<exists>e\<in>set es. exhausts e g)"
proof (induction es arbitrary: m)
  case (Cons e es)
  show ?case
    unfolding blocked_metrics.simps Cons.IH by (auto simp: note_metrics_none exhausts_def)
qed simp

lemma groups_named_set: "set (groups_named es) = (\<Union>e\<in>set es. fst ` set (ev_failed e))"
  by (auto simp: groups_named_def)

lemma exhausts_named: "e \<in> set es \<Longrightarrow> exhausts e g \<Longrightarrow> g \<in> set (groups_named es)"
  by (force simp: groups_named_set exhausts_def)

lemma join_with_empty: "sep \<noteq> [] \<Longrightarrow> (\<And>x. x \<in> set xs \<Longrightarrow> x \<noteq> []) \<Longrightarrow> join_with sep xs = [] \<longleftrightarrow> xs = []"
  by (cases xs) auto

text \<open>
  The reason a job is not placed is given exactly when Nomad says so: the message is empty
  if and only if no blocked evaluation of the job ran out of nodes for one of its groups.
\<close>

theorem no_room_only_when_blocked:
  assumes "evaluations ns i evals = Inr es"
  shows "\<exists>msg. NoRoom ns i evals = Inr msg \<and> (msg = [] \<longleftrightarrow> \<not> (\<exists>e\<in>set es. \<exists>g. exhausts e g))"
proof -
  let ?m = "blocked_metrics es Map.empty"
  let ?gs = "filter (\<lambda>g. ?m g \<noteq> None) (groups_named es)"
  have "?gs = [] \<longleftrightarrow> \<not> (\<exists>e\<in>set es. \<exists>g. exhausts e g)"
    using exhausts_named [of _ es] by (simp add: filter_empty_conv blocked_metrics_none) blast
  moreover have "join_with ''; '' (map (\<lambda>g. (if 1 < length ?gs then ''group '' @ go_quote g @ '': '' else []) @
      noRoomMessage (the (?m g))) ?gs) = [] \<longleftrightarrow> ?gs = []"
    by (subst join_with_empty) (auto simp: noRoomMessage_def)
  ultimately show ?thesis
    using assms by (simp add: NoRoom_def Let_def)
qed

section \<open>Samples\<close>

definition listed_child :: job_stub where
  "listed_child = \<lparr>st_id = ''h/dispatch-1'', st_parent = ''h'', st_stop = False, st_meta = []\<rparr>"

definition gone_child :: job_stub where
  "gone_child = listed_child\<lparr>st_id := ''h/dispatch-0''\<rparr>"

definition sample_info :: "string \<Rightarrow> string \<Rightarrow> http_error + string option" where
  "sample_info ns i = (if i = ''h/dispatch-0'' then Inl \<lparr>he_status = Some 404, he_text = ''job not found''\<rparr>
     else Inr (Some ''run-1''))"

theorem find_dispatched_complete_witness:
  "FindDispatched ''ns'' ''h'' ''run-1'' (\<lambda>_ _. Inr [gone_child, listed_child]) sample_info = Inr ''h/dispatch-1'' \<and>
   find (carries_token ''ns'' ''h'' ''run-1'' sample_info) [gone_child, listed_child] = Some listed_child"
proof -
  have run: "FindDispatched ''ns'' ''h'' ''run-1'' (\<lambda>_ _. Inr [gone_child, listed_child]) sample_info = Inr ''h/dispatch-1''"
    by (simp add: FindDispatched_def Let_def in_namespace_def Job_def sample_info_def gone_child_def listed_child_def
        not_found_or_def isNotFound_def is_not_found_def)
  from find_dispatched_complete [OF _ _ _ run]
  have "\<exists>s. find (carries_token ''ns'' ''h'' ''run-1'' sample_info) [gone_child, listed_child] = Some s \<and>
      ''h/dispatch-1'' = st_id s"
    by (auto simp: gone_child_def listed_child_def)
  then show ?thesis
    using run by (auto simp: gone_child_def listed_child_def split: if_splits)
qed

definition blocked_eval :: evaluation where
  "blocked_eval = \<lparr>ev_status = ''blocked'', ev_failed =
     [(''web'', Some \<lparr>em_nodes_exhausted = 1, em_dimensions = [(''memory'', 1)]\<rparr>)]\<rparr>"

theorem no_room_only_when_blocked_witness:
  "\<exists>msg. NoRoom ''ns'' ''api'' (\<lambda>_ _. Inr [blocked_eval]) = Inr msg \<and> msg \<noteq> []"
proof -
  have "evaluations ''ns'' ''api'' (\<lambda>_ _. Inr [blocked_eval]) = Inr [blocked_eval]"
    by (simp add: evaluations_def in_namespace_def)
  from no_room_only_when_blocked [OF this] show ?thesis
    by (auto simp: exhausts_def blocked_eval_def)
qed


end
