(* ===== verification/DeployApi.thy ===== *)
theory DeployApi
  imports AccessApi EngineProperties
begin

text \<open>
  The actions on jobs and deployments (\<open>internal/web/api.go\<close>, and the dashboard's \<open>actions.go\<close> and
  \<open>pages.go\<close>): the handlers around the operations of the engine, the status each of its errors is
  answered with, and the whole call of a route, from the token or the login through the check of the
  route to the engine.

  A body or a form arrives decoded, \<open>None\<close> standing for a body \<open>readBody\<close> refuses. The store the
  check of the route reads and the engine the handler acts on are two arguments: other requests and
  the engine's own steps run in between.
\<close>

section \<open>What an action is given\<close>

text \<open>
  \<open>xe_view i notice E\<close> is the status \<open>deploymentView\<close> answers with when it makes the page of deployment \<open>i\<close>
  with a notice on it: 200 when it can, the status of its error otherwise. \<open>DeployPages\<close> models that page and
  gives this status (\<open>view_status\<close>).
\<close>

record deploy_env =
  xe_libs :: libs
  xe_opts :: opts
  xe_call :: call
  xe_bad :: "nat \<Rightarrow> bool"
  xe_apply :: apply_env
  xe_detect :: detect_env
  xe_snaps :: "snapshot list"
  xe_view :: "string \<Rightarrow> string \<Rightarrow> engine \<Rightarrow> nat"

text \<open>
  The context of the request: \<open>guard\<close> puts the accessor ID and the identity of the subject in it, and
  the actor, \<open>UserFrom\<close>, is the name of the subject.
\<close>

definition acting :: "subject \<Rightarrow> call \<Rightarrow> call" where
  "acting sub c = c\<lparr>c_accessor := su_accessor sub, c_identity := su_identity sub\<rparr>"

definition UserFrom :: "subject \<Rightarrow> string" where
  "UserFrom sub = su_actor sub"

datatype deploy_request =
    ApproveReq "string option"
  | RejectReq
  | PromoteReq
  | RetryReq
  | PauseReq string "string option"
  | ResumeReq string
  | DeployNowReq string "string option"
  | PauseAllReq "string option"
  | ResumeAllReq
  | FetchReq

text \<open>The operation of the engine behind each action; the deployment and the namespace are of the path.\<close>

definition act_approve :: "deploy_env \<Rightarrow> subject \<Rightarrow> request \<Rightarrow> string \<Rightarrow> engine \<Rightarrow> unit outcome" where
  "act_approve x sub r hash E =
     Approve (xe_libs x) (acting sub (xe_call x)) (xe_bad x) (rq_deployment r) hash (UserFrom sub) E"

definition act_reject :: "deploy_env \<Rightarrow> subject \<Rightarrow> request \<Rightarrow> engine \<Rightarrow> unit outcome" where
  "act_reject x sub r E = Reject (acting sub (xe_call x)) (xe_bad x) (rq_deployment r) (UserFrom sub) E"

definition act_promote :: "deploy_env \<Rightarrow> subject \<Rightarrow> request \<Rightarrow> engine \<Rightarrow> unit outcome" where
  "act_promote x sub r E = Promote (xe_libs x) (xe_opts x) (acting sub (xe_call x)) (xe_apply x)
     (rq_deployment r) (UserFrom sub) E"

definition act_retry :: "deploy_env \<Rightarrow> subject \<Rightarrow> request \<Rightarrow> engine \<Rightarrow> string outcome" where
  "act_retry x sub r E = Retry (xe_libs x) (xe_opts x) (acting sub (xe_call x)) (xe_detect x) (xe_snaps x)
     (rq_deployment r) (UserFrom sub) E"

definition act_pause :: "deploy_env \<Rightarrow> subject \<Rightarrow> request \<Rightarrow> string \<Rightarrow> string \<Rightarrow> engine \<Rightarrow> unit outcome" where
  "act_pause x sub r job reason E = Pause (xe_opts x) (acting sub (xe_call x)) (xe_bad x 0, xe_bad x 1)
     (rq_namespace r) job (UserFrom sub) reason E"

definition act_resume :: "deploy_env \<Rightarrow> subject \<Rightarrow> request \<Rightarrow> string \<Rightarrow> engine \<Rightarrow> unit outcome" where
  "act_resume x sub r job E = Resume (xe_opts x) (acting sub (xe_call x)) (xe_bad x 0)
     (rq_namespace r) job (UserFrom sub) E"

definition act_deploy_now :: "deploy_env \<Rightarrow> subject \<Rightarrow> request \<Rightarrow> string \<Rightarrow> string \<Rightarrow> engine \<Rightarrow> string outcome" where
  "act_deploy_now x sub r job hash E = DeployNow (xe_libs x) (xe_opts x) (acting sub (xe_call x)) (xe_detect x)
     (xe_snaps x) (rq_namespace r) job hash (UserFrom sub) E"

definition act_pause_all :: "deploy_env \<Rightarrow> subject \<Rightarrow> string \<Rightarrow> engine \<Rightarrow> unit outcome" where
  "act_pause_all x sub reason E = PauseAllJobs (acting sub (xe_call x)) (xe_bad x 0, xe_bad x 1) (UserFrom sub) reason E"

definition act_resume_all :: "deploy_env \<Rightarrow> subject \<Rightarrow> engine \<Rightarrow> unit outcome" where
  "act_resume_all x sub E = ResumeAllJobs (acting sub (xe_call x)) (xe_bad x 0) (UserFrom sub) E"

section \<open>The handlers of the API\<close>

datatype deploy_answer = NoBody | DeploymentID string | Started | Problem nat

text \<open>\<open>apiSpecHash\<close>: the spec hash of the body, required.\<close>

definition apiSpecHash :: "string option \<Rightarrow> deploy_answer + string" where
  "apiSpecHash body = (case body of None \<Rightarrow> Inl (Problem 400)
     | Some h \<Rightarrow> if h = [] then Inl (Problem 400) else Inr h)"

definition reply :: "(engine_error + 'a) \<times> engine \<Rightarrow> ('a \<Rightarrow> deploy_answer) \<Rightarrow> (engine_error \<Rightarrow> nat) \<Rightarrow>
    engine \<times> deploy_answer" where
  "reply res ok status = (case res of (Inr v, E) \<Rightarrow> (E, ok v) | (Inl e, E) \<Rightarrow> (E, Problem (status e)))"

definition apiDecided :: "engine_error \<Rightarrow> nat" where
  "apiDecided e = (case e of StoreError se \<Rightarrow> store_status se
     | StaleApproval \<Rightarrow> 409 | NotInRepo \<Rightarrow> 409 | NomadError _ \<Rightarrow> 409 | Paused _ \<Rightarrow> 409 | _ \<Rightarrow> 500)"

definition apiApprove :: "deploy_env \<Rightarrow> subject \<Rightarrow> request \<Rightarrow> string option \<Rightarrow> engine \<Rightarrow> engine \<times> deploy_answer" where
  "apiApprove x sub r body E = (case apiSpecHash body of Inl a \<Rightarrow> (E, a)
     | Inr hash \<Rightarrow> reply (act_approve x sub r hash E) (\<lambda>_. NoBody) apiDecided)"

definition apiReject :: "deploy_env \<Rightarrow> subject \<Rightarrow> request \<Rightarrow> engine \<Rightarrow> engine \<times> deploy_answer" where
  "apiReject x sub r E = reply (act_reject x sub r E) (\<lambda>_. NoBody) apiDecided"

definition apiPromote :: "deploy_env \<Rightarrow> subject \<Rightarrow> request \<Rightarrow> engine \<Rightarrow> engine \<times> deploy_answer" where
  "apiPromote x sub r E = reply (act_promote x sub r E) (\<lambda>_. NoBody)
     (\<lambda>e. case e of StoreError se \<Rightarrow> store_status se | NotWaitingForPromotion \<Rightarrow> 409 | _ \<Rightarrow> 500)"

definition apiRetry :: "deploy_env \<Rightarrow> subject \<Rightarrow> request \<Rightarrow> engine \<Rightarrow> engine \<times> deploy_answer" where
  "apiRetry x sub r E = reply (act_retry x sub r E) DeploymentID
     (\<lambda>e. case e of StoreError se \<Rightarrow> if se = ErrAlreadyRetried then 409 else store_status se
        | NotRetryable \<Rightarrow> 409 | _ \<Rightarrow> 500)"

definition apiPause :: "deploy_env \<Rightarrow> subject \<Rightarrow> request \<Rightarrow> string \<Rightarrow> string option \<Rightarrow> engine \<Rightarrow> engine \<times> deploy_answer" where
  "apiPause x sub r job body E = (case body of None \<Rightarrow> (E, Problem 400)
     | Some reason \<Rightarrow> reply (act_pause x sub r job reason E) (\<lambda>_. NoBody)
         (\<lambda>e. case e of NotPausable \<Rightarrow> 404 | PauseNoteTooLong \<Rightarrow> 400
            | StoreError se \<Rightarrow> if se = ErrAlreadyPaused then 409 else 500 | _ \<Rightarrow> 500))"

definition apiResume :: "deploy_env \<Rightarrow> subject \<Rightarrow> request \<Rightarrow> string \<Rightarrow> engine \<Rightarrow> engine \<times> deploy_answer" where
  "apiResume x sub r job E = reply (act_resume x sub r job E) (\<lambda>_. NoBody)
     (\<lambda>e. case e of NotPausable \<Rightarrow> 404
        | StoreError se \<Rightarrow> if se = ErrNotPaused then 409 else store_status se | _ \<Rightarrow> 500)"

definition apiPauseAll :: "deploy_env \<Rightarrow> subject \<Rightarrow> string option \<Rightarrow> engine \<Rightarrow> engine \<times> deploy_answer" where
  "apiPauseAll x sub body E = (case body of None \<Rightarrow> (E, Problem 400)
     | Some reason \<Rightarrow> reply (act_pause_all x sub reason E) (\<lambda>_. NoBody)
         (\<lambda>e. case e of PauseNoteTooLong \<Rightarrow> 400
            | StoreError se \<Rightarrow> if se = ErrAlreadyPaused then 409 else 500 | _ \<Rightarrow> 500))"

definition apiResumeAll :: "deploy_env \<Rightarrow> subject \<Rightarrow> engine \<Rightarrow> engine \<times> deploy_answer" where
  "apiResumeAll x sub E = reply (act_resume_all x sub E) (\<lambda>_. NoBody)
     (\<lambda>e. case e of StoreError se \<Rightarrow> if se = ErrNotPaused then 409 else 500 | _ \<Rightarrow> 500)"

definition apiDeployNow :: "deploy_env \<Rightarrow> subject \<Rightarrow> request \<Rightarrow> string \<Rightarrow> string option \<Rightarrow> engine \<Rightarrow> engine \<times> deploy_answer" where
  "apiDeployNow x sub r job body E = (case apiSpecHash body of Inl a \<Rightarrow> (E, a)
     | Inr hash \<Rightarrow> reply (act_deploy_now x sub r job hash E) DeploymentID
         (\<lambda>e. case e of StoreError se \<Rightarrow> store_status se | NotDeployable \<Rightarrow> 409 | _ \<Rightarrow> 500))"

text \<open>The poll of git is asked for and runs on its own.\<close>

definition apiFetch :: "engine \<Rightarrow> engine \<times> deploy_answer" where
  "apiFetch E = (E, Started)"

fun deploy_api :: "deploy_env \<Rightarrow> subject \<Rightarrow> request \<Rightarrow> deploy_request \<Rightarrow> engine \<Rightarrow> engine \<times> deploy_answer" where
  "deploy_api x sub r (ApproveReq body) E = apiApprove x sub r body E"
| "deploy_api x sub r RejectReq E = apiReject x sub r E"
| "deploy_api x sub r PromoteReq E = apiPromote x sub r E"
| "deploy_api x sub r RetryReq E = apiRetry x sub r E"
| "deploy_api x sub r (PauseReq job body) E = apiPause x sub r job body E"
| "deploy_api x sub r (ResumeReq job) E = apiResume x sub r job E"
| "deploy_api x sub r (DeployNowReq job body) E = apiDeployNow x sub r job body E"
| "deploy_api x sub r (PauseAllReq body) E = apiPauseAll x sub body E"
| "deploy_api x sub r ResumeAllReq E = apiResumeAll x sub E"
| "deploy_api x sub r FetchReq E = apiFetch E"

section \<open>The handlers of the dashboard\<close>

text \<open>
  A form's missing field is the empty string. \<open>SeeOther\<close> is the redirect to a page, the others pages
  of an error; 409 on an approval is the deployment's own page with a notice. Every handler but \<open>fetchNow\<close>
  first asks \<open>UserFrom\<close> who acts, which knows nobody of an empty name.
\<close>

record form =
  fo_spec_hash :: string
  fo_reason :: string
  fo_back :: string

definition logged_in :: "subject \<Rightarrow> engine \<Rightarrow> engine \<times> web_answer \<Rightarrow> engine \<times> web_answer" where
  "logged_in sub E go = (if UserFrom sub = [] then (E, Status 401) else go)"

definition page_reply :: "(engine_error + 'a) \<times> engine \<Rightarrow> (engine_error \<Rightarrow> nat) \<Rightarrow> engine \<times> web_answer" where
  "page_reply res status = (case res of (Inr _, E) \<Rightarrow> (E, SeeOther) | (Inl e, E) \<Rightarrow> (E, Status (status e)))"

text \<open>What the page of the deployment is shown again for, with the notice on it.\<close>

definition decide_notice :: "engine_error \<Rightarrow> string option" where
  "decide_notice e = (case e of
       StaleApproval \<Rightarrow> Some ''The spec changed since this page loaded: review the new diff before deciding.''
     | NotInRepo \<Rightarrow> Some (''This job is not in the repository as nops last read it (removed, refused by its repository's jobs, or its file does not parse): there is nothing to approve until it is back. You can still reject it.'')
     | NomadError _ \<Rightarrow> Some ''The last cycle couldn't read or plan this job in Nomad: approve it once a cycle can. You can still reject it.''
     | Paused _ \<Rightarrow> Some ''This job is paused: resume it to approve. You can still reject it.''
     | _ \<Rightarrow> None)"

definition decide :: "deploy_env \<Rightarrow> subject \<Rightarrow> request \<Rightarrow> bool \<Rightarrow> form \<Rightarrow> engine \<Rightarrow> engine \<times> web_answer" where
  "decide x sub r approve f E = logged_in sub E
     (case (if approve then act_approve x sub r (fo_spec_hash f) E else act_reject x sub r E) of
        (Inr _, E') \<Rightarrow> (E', SeeOther)
      | (Inl e, E') \<Rightarrow> (E', Status (case decide_notice e of
            Some notice \<Rightarrow> (let n = xe_view x (rq_deployment r) notice E' in if n = 200 then 409 else n)
          | None \<Rightarrow> (case e of StoreError se \<Rightarrow> store_status se | _ \<Rightarrow> 500))))"

definition page_retry :: "deploy_env \<Rightarrow> subject \<Rightarrow> request \<Rightarrow> engine \<Rightarrow> engine \<times> web_answer" where
  "page_retry x sub r E = logged_in sub E (page_reply (act_retry x sub r E)
     (\<lambda>e. case e of StoreError se \<Rightarrow> if se = ErrAlreadyRetried then 409 else store_status se
        | NotRetryable \<Rightarrow> 409 | _ \<Rightarrow> 500))"

definition page_pause :: "deploy_env \<Rightarrow> subject \<Rightarrow> request \<Rightarrow> string \<Rightarrow> form \<Rightarrow> engine \<Rightarrow> engine \<times> web_answer" where
  "page_pause x sub r job f E = logged_in sub E (page_reply (act_pause x sub r job (fo_reason f) E)
     (\<lambda>e. case e of NotPausable \<Rightarrow> 404 | StoreError se \<Rightarrow> if se = ErrAlreadyPaused then 409 else 500
        | PauseNoteTooLong \<Rightarrow> 400 | _ \<Rightarrow> 500))"

definition page_resume :: "deploy_env \<Rightarrow> subject \<Rightarrow> request \<Rightarrow> string \<Rightarrow> engine \<Rightarrow> engine \<times> web_answer" where
  "page_resume x sub r job E = logged_in sub E (page_reply (act_resume x sub r job E)
     (\<lambda>e. case e of StoreError se \<Rightarrow> if se = ErrNotPaused then 409 else store_status se | _ \<Rightarrow> 500))"

definition page_pause_all :: "deploy_env \<Rightarrow> subject \<Rightarrow> form \<Rightarrow> engine \<Rightarrow> engine \<times> web_answer" where
  "page_pause_all x sub f E = logged_in sub E (page_reply (act_pause_all x sub (fo_reason f) E)
     (\<lambda>e. case e of StoreError se \<Rightarrow> if se = ErrAlreadyPaused then 409 else 500 | PauseNoteTooLong \<Rightarrow> 400 | _ \<Rightarrow> 500))"

definition page_resume_all :: "deploy_env \<Rightarrow> subject \<Rightarrow> engine \<Rightarrow> engine \<times> web_answer" where
  "page_resume_all x sub E = logged_in sub E (page_reply (act_resume_all x sub E)
     (\<lambda>e. case e of StoreError se \<Rightarrow> if se = ErrNotPaused then 409 else 500 | _ \<Rightarrow> 500))"

definition page_deploy_now :: "deploy_env \<Rightarrow> subject \<Rightarrow> request \<Rightarrow> string \<Rightarrow> form \<Rightarrow> engine \<Rightarrow> engine \<times> web_answer" where
  "page_deploy_now x sub r job f E = logged_in sub E (page_reply (act_deploy_now x sub r job (fo_spec_hash f) E)
     (\<lambda>e. case e of StoreError se \<Rightarrow> store_status se | NotDeployable \<Rightarrow> 409 | _ \<Rightarrow> 500))"

definition page_promote :: "deploy_env \<Rightarrow> subject \<Rightarrow> request \<Rightarrow> engine \<Rightarrow> engine \<times> web_answer" where
  "page_promote x sub r E = logged_in sub E (page_reply (act_promote x sub r E)
     (\<lambda>e. case e of StoreError se \<Rightarrow> store_status se | NotWaitingForPromotion \<Rightarrow> 409 | _ \<Rightarrow> 500))"

definition fetchNow :: "engine \<Rightarrow> engine \<times> web_answer" where
  "fetchNow E = (E, SeeOther)"

fun deploy_page :: "deploy_env \<Rightarrow> subject \<Rightarrow> request \<Rightarrow> form \<Rightarrow> deploy_request \<Rightarrow> engine \<Rightarrow> engine \<times> web_answer" where
  "deploy_page x sub r f (ApproveReq _) E = decide x sub r True f E"
| "deploy_page x sub r f RejectReq E = decide x sub r False f E"
| "deploy_page x sub r f PromoteReq E = page_promote x sub r E"
| "deploy_page x sub r f RetryReq E = page_retry x sub r E"
| "deploy_page x sub r f (PauseReq job _) E = page_pause x sub r job f E"
| "deploy_page x sub r f (ResumeReq job) E = page_resume x sub r job E"
| "deploy_page x sub r f (DeployNowReq job _) E = page_deploy_now x sub r job f E"
| "deploy_page x sub r f (PauseAllReq _) E = page_pause_all x sub f E"
| "deploy_page x sub r f ResumeAllReq E = page_resume_all x sub E"
| "deploy_page x sub r f FetchReq E = fetchNow E"

section \<open>Routes\<close>

text \<open>\<open>pageRoutes\<close>: the routes of the dashboard behind a login, with their checks.\<close>

definition pageRoutes :: "bool \<Rightarrow> (string \<times> route_check) list" where
  "pageRoutes has_trigger =
    [(''GET /{$}'', AnyToken),
     (''GET /repositories'', AnyToken),
     (''GET /jobs'', AnyToken),
     (''GET /jobs/{namespace}/{job}'', InNamespace ''read''),
     (''GET /history'', AnyToken),
     (''GET /drift'', AnyToken),
     (''GET /deployments/{id}'', OnDeployment ''read''),
     (''GET /deployments/{id}/status'', OnDeployment ''read''),
     (''POST /deployments/{id}/approve'', OnDeployment ''approve''),
     (''POST /deployments/{id}/reject'', OnDeployment ''approve''),
     (''POST /deployments/{id}/promote'', OnDeployment ''promote''),
     (''POST /deployments/{id}/retry'', OnDeployment ''retry''),
     (''POST /jobs/{namespace}/{job}/pause'', InNamespace ''pause''),
     (''POST /jobs/{namespace}/{job}/resume'', InNamespace ''pause''),
     (''POST /jobs/{namespace}/{job}/deploy-now'', InNamespace ''deploy-now''),
     (''POST /pause'', Globally ''pause''),
     (''POST /resume'', Globally ''pause''),
     (''GET /admin'', AnyToken),
     (''GET /admin/backup'', Globally ''backup''),
     (''POST /admin/backup'', Globally ''backup''),
     (''GET /admin/tokens'', ManagementOnly),
     (''GET /admin/tokens/new'', ManagementOnly),
     (''GET /admin/policies'', ManagementOnly),
     (''GET /admin/policies/new'', ManagementOnly),
     (''GET /admin/policies/{name}/edit'', ManagementOnly),
     (''GET /admin/policies/{name}/view'', CarriesPolicy),
     (''GET /admin/binding-rules'', ManagementOnly),
     (''GET /admin/binding-rules/new'', ManagementOnly),
     (''GET /admin/changes'', ManagementOnly),
     (''POST /admin/policies'', ManagementOnly),
     (''POST /admin/policies/{name}/delete'', ManagementOnly),
     (''POST /admin/tokens'', ManagementOnly),
     (''POST /admin/tokens/{accessor}/revoke'', ManagementOnly),
     (''POST /admin/tokens/revoke'', ManagementOnly),
     (''GET /admin/binding-rules/{id}/edit'', ManagementOnly),
     (''POST /admin/binding-rules'', ManagementOnly),
     (''POST /admin/binding-rules/{id}/delete'', ManagementOnly)] @
    (if has_trigger then [(''POST /fetch'', Globally ''fetch'')] else [])"

text \<open>The path of an action, below \<open>/api\<close> for the API.\<close>

fun action_path :: "deploy_request \<Rightarrow> string" where
  "action_path (ApproveReq _) = ''/deployments/{id}/approve''"
| "action_path RejectReq = ''/deployments/{id}/reject''"
| "action_path PromoteReq = ''/deployments/{id}/promote''"
| "action_path RetryReq = ''/deployments/{id}/retry''"
| "action_path (PauseReq _ _) = ''/jobs/{namespace}/{job}/pause''"
| "action_path (ResumeReq _) = ''/jobs/{namespace}/{job}/resume''"
| "action_path (DeployNowReq _ _) = ''/jobs/{namespace}/{job}/deploy-now''"
| "action_path (PauseAllReq _) = ''/pause''"
| "action_path ResumeAllReq = ''/resume''"
| "action_path FetchReq = ''/fetch''"

definition deploy_check :: "deploy_request \<Rightarrow> route_check" where
  "deploy_check q = the (map_of (apiEndpoints True) (''POST /api'' @ action_path q))"

definition page_check :: "deploy_request \<Rightarrow> route_check" where
  "page_check q = the (map_of (pageRoutes True) (''POST '' @ action_path q))"

definition behind :: "subject answer \<Rightarrow> (subject \<Rightarrow> engine \<times> 'a) \<Rightarrow> engine \<Rightarrow> engine \<times> 'a answer" where
  "behind g handler E = (case g of
       Handled sub \<Rightarrow> (case handler sub of (E', x) \<Rightarrow> (E', Handled x))
     | Unauthorized \<Rightarrow> (E, Unauthorized) | LoginRedirect \<Rightarrow> (E, LoginRedirect) | HtmxLogin \<Rightarrow> (E, HtmxLogin)
     | Forbidden \<Rightarrow> (E, Forbidden) | ServerError \<Rightarrow> (E, ServerError))"

text \<open>The whole call: the check of the route on the store \<open>s\<close>, then the handler on the engine.\<close>

definition deploy_call :: "access_env \<Rightarrow> deploy_env \<Rightarrow> request \<Rightarrow> deploy_request \<Rightarrow> store \<Rightarrow> access \<Rightarrow> engine \<Rightarrow>
    engine \<times> deploy_answer answer" where
  "deploy_call env x r q s a E = behind (api_route env (xe_call x) (deploy_check q) r s a)
     (\<lambda>sub. deploy_api x sub r q E) E"

definition page_call :: "access_env \<Rightarrow> deploy_env \<Rightarrow> request \<Rightarrow> form \<Rightarrow> deploy_request \<Rightarrow> store \<Rightarrow> access \<Rightarrow> engine \<Rightarrow>
    engine \<times> web_answer answer" where
  "page_call env x r f q s a E = behind (page_route env (xe_call x) (page_check q) r s a)
     (\<lambda>sub. deploy_page x sub r f q E) E"

section \<open>A refused action changes nothing\<close>

lemma Approve_refused: "Approve L c bad i hash actor E = (Inl e, E') \<Longrightarrow> E' = E"
  by (auto simp: Approve_def split: if_splits sum.splits option.splits)

lemma Reject_refused: "Reject c bad i actor E = (Inl e, E') \<Longrightarrow> E' = E"
  by (auto simp: Reject_def split: if_splits sum.splits)

lemma Promote_refused: "Promote L cf c env i actor E = (Inl e, E') \<Longrightarrow> E' = E \<or> (\<exists>n. e = NomadCall n)"
  by (auto simp: Promote_def Let_def split: if_splits sum.splits option.splits prod.splits)

lemma Retry_refused: "Retry L cf c env snaps i actor E = (Inl e, E') \<Longrightarrow> E' = E"
  by (auto simp: Retry_def split: if_splits sum.splits prod.splits option.splits)

lemma Pause_refused: "Pause cf c bad ns job actor note E = (Inl e, E') \<Longrightarrow> E' = E"
  by (auto simp: Pause_def Let_def split: if_splits sum.splits)

lemma Resume_refused: "Resume cf c bad ns job actor E = (Inl e, E') \<Longrightarrow> E' = E"
  by (auto simp: Resume_def split: if_splits sum.splits)

lemma PauseAll_refused: "PauseAllJobs c bad actor note E = (Inl e, E') \<Longrightarrow> E' = E"
  by (auto simp: PauseAllJobs_def Let_def split: if_splits sum.splits)

lemma ResumeAll_refused: "ResumeAllJobs c bad actor E = (Inl e, E') \<Longrightarrow> E' = E"
  by (auto simp: ResumeAllJobs_def split: if_splits sum.splits)

lemma DeployNow_refused: "DeployNow L cf c env snaps ns job hash actor E = (Inl e, E') \<Longrightarrow> E' = E"
  by (auto simp: DeployNow_def Let_def split: if_splits sum.splits prod.splits option.splits)

lemmas refused_ops = Approve_refused Reject_refused Promote_refused Retry_refused Pause_refused Resume_refused
  PauseAll_refused ResumeAll_refused DeployNow_refused

lemmas act_defs = act_approve_def act_reject_def act_promote_def act_retry_def act_pause_def act_resume_def
  act_pause_all_def act_resume_all_def act_deploy_now_def

lemmas api_defs = apiApprove_def apiReject_def apiPromote_def apiRetry_def apiPause_def apiResume_def
  apiPauseAll_def apiResumeAll_def apiDeployNow_def apiFetch_def

lemma reply_problem:
  "reply res ok status = (E', Problem n) \<Longrightarrow> (\<And>v. ok v \<noteq> Problem n) \<Longrightarrow> \<exists>e. res = (Inl e, E') \<and> status e = n"
  by (cases res) (auto simp: reply_def split: sum.splits)

text \<open>
  Claim C26. An action the API refuses changed nothing: an answer of 400, 404 or 409 leaves the
  engine, its database included, exactly as it was, and asked nothing of Nomad. Only an answer of
  500 may have been preceded by a change.
\<close>

theorem refusals_change_nothing:
  assumes "deploy_api x sub r q E = (E', Problem n)" "n \<noteq> 500"
  shows "E' = E"
  using assms
  by (cases q) (auto simp: api_defs act_defs apiSpecHash_def store_status_def split: option.splits if_splits
      dest!: reply_problem dest: refused_ops)

section \<open>The dashboard and the API\<close>

text \<open>The same input: a body with what the form says, and the hashes the API requires.\<close>

fun same_input :: "deploy_request \<Rightarrow> form \<Rightarrow> bool" where
  "same_input (ApproveReq body) f = (body = Some (fo_spec_hash f) \<and> fo_spec_hash f \<noteq> [])"
| "same_input (DeployNowReq _ body) f = (body = Some (fo_spec_hash f) \<and> fo_spec_hash f \<noteq> [])"
| "same_input (PauseReq _ body) f = (body = Some (fo_reason f))"
| "same_input (PauseAllReq body) f = (body = Some (fo_reason f))"
| "same_input _ f = True"

definition same_status :: "web_answer \<Rightarrow> deploy_answer \<Rightarrow> bool" where
  "same_status p a = (case p of Status n \<Rightarrow> a = Problem n | SeeOther \<Rightarrow> (\<forall>n. a \<noteq> Problem n) | Found \<Rightarrow> False)"

lemma Resume_not_NotPausable: "Resume cf c bad ns job actor E \<noteq> (Inl NotPausable, E')"
  by (auto simp: Resume_def split: if_splits sum.splits)

lemma page_reply_as_reply:
  assumes "\<And>e E'. res = (Inl e, E') \<Longrightarrow> st e = st' e" "\<And>v n. ok v \<noteq> Problem n"
  shows "fst (page_reply res st) = fst (reply res ok st') \<and> same_status (snd (page_reply res st)) (snd (reply res ok st'))"
  using assms by (cases res) (auto simp: page_reply_def reply_def same_status_def split: sum.splits)

lemma action_checks: "deploy_check q = page_check q"
  by (cases q) (simp_all add: deploy_check_def page_check_def apiEndpoints_def pageRoutes_def)

lemma nobody_acts:
  assumes "UserFrom sub = []" "q \<noteq> FetchReq" "same_input q f"
  shows "deploy_page x sub r f q E = (E, Status 401)" "deploy_api x sub r q E = (E, Problem 500)"
proof -
  show "deploy_page x sub r f q E = (E, Status 401)"
    using assms(1,2) by (cases q) (simp_all add: decide_def page_retry_def page_pause_def page_resume_def page_pause_all_def
        page_resume_all_def page_deploy_now_def page_promote_def logged_in_def)
  show "deploy_api x sub r q E = (E, Problem 500)"
    using assms by (cases q) (simp_all add: api_defs act_defs apiSpecHash_def reply_def UserFrom_def apiDecided_def Approve_def
        Reject_def Promote_def Retry_def Pause_def Resume_def PauseAllJobs_def ResumeAllJobs_def DeployNow_def Let_def)
qed

text \<open>The answer of a decision on the dashboard beside the one of the API.\<close>

definition shown_conflict :: "deploy_env \<Rightarrow> request \<Rightarrow> engine \<Rightarrow> web_answer \<Rightarrow> deploy_answer \<Rightarrow> bool" where
  "shown_conflict x r E p a = (a = Problem 409 \<and>
     (\<exists>notice. p = Status (xe_view x (rq_deployment r) notice E) \<and> xe_view x (rq_deployment r) notice E \<noteq> 200))"

lemma decide_as_reply:
  assumes "UserFrom sub \<noteq> []" "\<And>v n. ok v \<noteq> Problem n" "\<And>e E'. res = (Inl e, E') \<Longrightarrow> E' = E"
    "res = (if approve then act_approve x sub r (fo_spec_hash f) E else act_reject x sub r E)"
  shows "fst (decide x sub r approve f E) = fst (reply res ok apiDecided) \<and>
    (same_status (snd (decide x sub r approve f E)) (snd (reply res ok apiDecided)) \<or>
     shown_conflict x r E (snd (decide x sub r approve f E)) (snd (reply res ok apiDecided)))"
proof (cases res)
  case (Pair out E')
  show ?thesis
  proof (cases out)
    case (Inl e)
    have E': "E' = E" using assms(3) Pair Inl by simp
    have d: "decide x sub r approve f E = (E, Status (case decide_notice e of
            Some notice \<Rightarrow> (let n = xe_view x (rq_deployment r) notice E in if n = 200 then 409 else n)
          | None \<Rightarrow> (case e of StoreError se \<Rightarrow> store_status se | _ \<Rightarrow> 500)))"
      using assms(1) by (simp add: decide_def logged_in_def assms(4) [symmetric] Pair Inl E')
    have a: "reply res ok apiDecided = (E, Problem (apiDecided e))" by (simp add: reply_def Pair Inl E')
    show ?thesis unfolding d a
      by (cases e) (auto simp: decide_notice_def apiDecided_def same_status_def shown_conflict_def Let_def)
  next
    case (Inr v)
    have "decide x sub r approve f E = (E', SeeOther)"
      using assms(1) by (simp add: decide_def logged_in_def assms(4) [symmetric] Pair Inr)
    with assms(2) show ?thesis by (simp add: reply_def Pair Inr same_status_def)
  qed
qed

lemma action_as_api:
  assumes "same_input q f" "UserFrom sub \<noteq> []" "\<nexists>body. q = ApproveReq body" "q \<noteq> RejectReq"
  shows "fst (deploy_page x sub r f q E) = fst (deploy_api x sub r q E) \<and>
    same_status (snd (deploy_page x sub r f q E)) (snd (deploy_api x sub r q E))"
proof (cases q)
  case FetchReq
  then show ?thesis by (simp add: fetchNow_def apiFetch_def same_status_def)
next
  case (ResumeReq job)
  show ?thesis
    unfolding ResumeReq deploy_page.simps deploy_api.simps page_resume_def apiResume_def logged_in_def if_not_P [OF assms(2)]
    by (intro page_reply_as_reply) (auto simp: act_resume_def Resume_not_NotPausable split: engine_error.splits)
qed (use assms in \<open>simp_all only: deploy_page.simps deploy_api.simps page_retry_def page_pause_def
    page_pause_all_def page_resume_all_def page_deploy_now_def page_promote_def api_defs apiSpecHash_def logged_in_def
    same_input.simps option.case sum.case if_False if_True refl\<close>,
    ((rule page_reply_as_reply; simp split: engine_error.splits) | simp)+)

text \<open>
  Claim C27. The dashboard acts as the API does: an action has the same check on both, on the same input it leaves the
  same engine, and it is answered alike, with the same status where it is refused. Two answers differ. A
  subject of an empty name is told to log in (401) where the API answers 500, and neither does anything. And
  a decision that comes too late (409 over the API) is answered with the page of the deployment, by the
  status of the error when that page cannot be made.
\<close>

theorem dashboard_acts_as_api:
  assumes "same_input q f"
  shows "page_check q = deploy_check q \<and>
    fst (deploy_page x sub r f q E) = fst (deploy_api x sub r q E) \<and>
    (if UserFrom sub = [] \<and> q \<noteq> FetchReq
     then deploy_page x sub r f q E = (E, Status 401) \<and> deploy_api x sub r q E = (E, Problem 500)
     else same_status (snd (deploy_page x sub r f q E)) (snd (deploy_api x sub r q E)) \<or>
       ((\<exists>body. q = ApproveReq body) \<or> q = RejectReq) \<and>
       shown_conflict x r E (snd (deploy_page x sub r f q E)) (snd (deploy_api x sub r q E)))"
proof (cases "UserFrom sub = [] \<and> q \<noteq> FetchReq")
  case True
  with nobody_acts [of sub q f x r E] assms show ?thesis by (simp add: action_checks)
next
  case False
  show ?thesis
  proof (cases "q = FetchReq")
    case True
    then show ?thesis by (simp add: fetchNow_def apiFetch_def same_status_def action_checks)
  next
    case other: False
    with False have actor: "UserFrom sub \<noteq> []" by simp
    let ?same = "fst (deploy_page x sub r f q E) = fst (deploy_api x sub r q E) \<and>
      (same_status (snd (deploy_page x sub r f q E)) (snd (deploy_api x sub r q E)) \<or>
       ((\<exists>body. q = ApproveReq body) \<or> q = RejectReq) \<and>
       shown_conflict x r E (snd (deploy_page x sub r f q E)) (snd (deploy_api x sub r q E)))"
    have ?same
    proof (cases q)
      case (ApproveReq body)
      with assms have body: "body = Some (fo_spec_hash f)" "fo_spec_hash f \<noteq> []" by simp_all
      have "act_approve x sub r (fo_spec_hash f) E = (Inl e, E') \<Longrightarrow> E' = E" for e E'
        by (auto simp: act_approve_def dest: Approve_refused)
      with decide_as_reply [OF actor, of "\<lambda>_. NoBody" "act_approve x sub r (fo_spec_hash f) E" E True x r f] show ?thesis
        by (simp add: ApproveReq body apiApprove_def apiSpecHash_def)
    next
      case RejectReq
      have "act_reject x sub r E = (Inl e, E') \<Longrightarrow> E' = E" for e E'
        by (auto simp: act_reject_def dest: Reject_refused)
      with decide_as_reply [OF actor, of "\<lambda>_. NoBody" "act_reject x sub r E" E False x r f] show ?thesis
        by (simp add: RejectReq apiReject_def)
    next
      case FetchReq
      with other show ?thesis by simp
    qed (use action_as_api [OF assms actor, of x r E] in simp_all)
    with False show ?thesis by (simp only: action_checks if_False simp_thms)
  qed
qed


section \<open>Who may act\<close>

text \<open>What an action demands of the subject: a capability on the namespace of the path or of the deployment.\<close>

definition capability_of :: "deploy_request \<Rightarrow> capability" where
  "capability_of q = (case q of ApproveReq _ \<Rightarrow> ''approve'' | RejectReq \<Rightarrow> ''approve'' | PromoteReq \<Rightarrow> ''promote''
     | RetryReq \<Rightarrow> ''retry'' | PauseReq _ _ \<Rightarrow> ''pause'' | ResumeReq _ \<Rightarrow> ''pause'' | DeployNowReq _ _ \<Rightarrow> ''deploy-now''
     | PauseAllReq _ \<Rightarrow> ''pause'' | ResumeAllReq \<Rightarrow> ''pause'' | FetchReq \<Rightarrow> ''fetch'')"

definition on_deployment :: "deploy_request \<Rightarrow> bool" where
  "on_deployment q = (case q of ApproveReq _ \<Rightarrow> True | RejectReq \<Rightarrow> True | PromoteReq \<Rightarrow> True | RetryReq \<Rightarrow> True | _ \<Rightarrow> False)"

definition on_every_job :: "deploy_request \<Rightarrow> bool" where
  "on_every_job q = (case q of PauseAllReq _ \<Rightarrow> True | ResumeAllReq \<Rightarrow> True | FetchReq \<Rightarrow> True | _ \<Rightarrow> False)"

lemma deploy_check_eq: "deploy_check q = (if on_deployment q then OnDeployment (capability_of q)
    else if on_every_job q then Globally (capability_of q) else InNamespace (capability_of q))"
  by (cases q) (simp_all add: deploy_check_def apiEndpoints_def on_deployment_def on_every_job_def capability_of_def)

text \<open>An action on a deployment that does not exist does nothing.\<close>

lemma db_NotFound: "GetDeployment i s = Inl e \<Longrightarrow> db failing (GetDeployment i s) = Inr d \<Longrightarrow> False"
  by (simp add: db_def split: if_splits)

lemma absent_deployment:
  assumes "GetDeployment (rq_deployment r) (en_store E) = Inl e" "on_deployment q"
  shows "fst (deploy_api x sub r q E) = E"
  using assms
  by (cases q) (auto simp: on_deployment_def api_defs act_defs apiSpecHash_def reply_def Approve_def Reject_def Promote_def
      Retry_def db_def split: option.splits if_splits)

lemma later_namespace:
  assumes "reach store_start store_step s" "runs store_step s t" "GetDeployment i s = Inr d"
  obtains d' where "GetDeployment i t = Inr d'" "d_namespace d' = d_namespace d"
proof -
  from GetDeployment_row [OF assms(3)] have d: "d \<in> set (deployments s)" "d_id d = i" by simp_all
  have "follows s t" by (rule history.runs_fwd [OF assms(2) audit.reach_inv [OF assms(1)]])
  with d obtain d' where d': "d' \<in> set (deployments t)" "frozen_part d' = frozen_part d"
    by (auto simp: follows_def row_follows_def)
  have "d_id d' = i" using d(2) frozen_part_keys(1) [OF d'(2)] by simp
  moreover from d'(1) this obtain r where r: "GetDeployment i t = Inr r"
    by (cases "find (has_id i) (deployments t)") (auto simp: GetDeployment_def has_id_def find_None_iff)
  moreover have "r = d'"
    using ids.one_holder [OF reach_runs [OF assms(1,2)]] GetDeployment_row [OF r] d'(1) \<open>d_id d' = i\<close> by blast
  ultimately show thesis using that frozen_part_keys(2) [OF d'(2)] by blast
qed

lemma behind_Handled: "behind g handler E = (E', y) \<Longrightarrow> E' \<noteq> E \<Longrightarrow>
    \<exists>sub a. g = Handled sub \<and> handler sub = (E', a) \<and> y = Handled a"
  by (auto simp: behind_def split: answer.splits prod.splits)

lemma route_served: "api_route env c k r s a = Handled sub \<Longrightarrow>
    requireToken env c r a = Handled sub \<and> run_check k s r sub = Inr True"
  by (auto simp: api_route_def guard_def split: answer.splits sum.splits bool.splits)

text \<open>What the check of its route found the subject allowed to, as the action needs it.\<close>

definition may_act :: "subject \<Rightarrow> deploy_request \<Rightarrow> request \<Rightarrow> store \<Rightarrow> store \<Rightarrow> bool" where
  "may_act sub q r s t = (if on_deployment q then GetDeployment (rq_deployment r) s = Inl ErrNotFound \<or>
       (\<exists>d. GetDeployment (rq_deployment r) t = Inr d \<and> allow (su_acl sub) (d_namespace d) (capability_of q))
     else if on_every_job q then allow_global (su_acl sub) (capability_of q)
     else allow (su_acl sub) (rq_namespace r) (capability_of q))"

lemma checked_may_act:
  assumes "run_check (deploy_check q) s r sub = Inr True"
    and "reach store_start store_step s" "runs store_step s t"
  shows "may_act sub q r s t"
proof (cases "on_deployment q")
  case True
  show ?thesis
  proof (cases "GetDeployment (rq_deployment r) s")
    case (Inl e)
    with assms(1) True show ?thesis by (auto simp: may_act_def deploy_check_eq run_check_def split: if_splits)
  next
    case (Inr d)
    from later_namespace [OF assms(2,3) Inr] obtain d' where
      "GetDeployment (rq_deployment r) t = Inr d'" "d_namespace d' = d_namespace d" .
    with assms(1) True Inr show ?thesis by (simp add: may_act_def deploy_check_eq run_check_def)
  qed
next
  case False
  with assms(1) show ?thesis by (simp add: may_act_def deploy_check_eq run_check_def split: if_splits)
qed

lemma page_route_served: "page_route env c k r s a = Handled sub \<Longrightarrow>
    require_login env c r a = Handled sub \<and> run_check k s r sub = Inr True"
  by (auto simp: page_route_def guard_def split: answer.splits sum.splits bool.splits)

text \<open>
  Claim C24. No one acts without the capability: where a call of the API, or a form of the dashboard,
  changed anything, it was made with a token, or under a login, that was valid at that moment, whose
  access list holds the capability of the action: on the namespace of the deployment as it is when
  the action takes place, on the namespace of the path, or, for what concerns every job, globally.
  (The check of a deployment that does not exist yet passes; nobody knows its ID then.)
\<close>

theorem acting_needs_capability:
  assumes "reach store_start store_step s" "runs store_step s (en_store E)"
  shows "(fst (deploy_call env x r q s a E) \<noteq> E \<longrightarrow>
      (\<exists>sub. requireToken env (xe_call x) r a = Handled sub \<and> may_act sub q r s (en_store E))) \<and>
    (fst (page_call env x r f q s a E) \<noteq> E \<longrightarrow>
      (\<exists>sub. require_login env (xe_call x) r a = Handled sub \<and> may_act sub q r s (en_store E)))"
proof (intro conjI impI)
  assume "fst (deploy_call env x r q s a E) \<noteq> E"
  then obtain sub where "api_route env (xe_call x) (deploy_check q) r s a = Handled sub"
    using behind_Handled [of "api_route env (xe_call x) (deploy_check q) r s a"] unfolding deploy_call_def
    by (metis prod.collapse)
  from route_served [OF this] show "\<exists>sub. requireToken env (xe_call x) r a = Handled sub \<and> may_act sub q r s (en_store E)"
    using checked_may_act [OF _ assms] by blast
next
  assume "fst (page_call env x r f q s a E) \<noteq> E"
  then obtain sub where "page_route env (xe_call x) (page_check q) r s a = Handled sub"
    using behind_Handled [of "page_route env (xe_call x) (page_check q) r s a"] unfolding page_call_def
    by (metis prod.collapse)
  from page_route_served [OF this] show "\<exists>sub. require_login env (xe_call x) r a = Handled sub \<and> may_act sub q r s (en_store E)"
    using checked_may_act [OF _ assms] by (auto simp: action_checks)
qed

lemma Approve_accepted:
  "Approve L c bad i hash actor E = (Inr v, E') \<Longrightarrow> actor \<noteq> [] \<and>
    (\<exists>d j s. GetDeployment i (en_store E) = Inr d \<and> d_state d = PendingApproval \<and> d_spec_hash d = hash \<and>
       Transition c i (nextAfterDecision L d j) \<lparr>t_from = Some PendingApproval, t_actor = actor, t_message = ''approved'',
         t_error = [], t_applied_index = 0, t_eval_id = [], t_decided_by = actor\<rparr> (en_store E) = Inr s \<and>
       E' = E\<lparr>en_store := s\<rparr>)"
  by (auto simp: Approve_def db_Inr split: if_splits sum.splits option.splits)

lemma find_updated:
  "(\<And>d. d_id (f d) = d_id d) \<Longrightarrow> find (has_id i) (update_where P f ds) =
    map_option (\<lambda>d. if P d then f d else d) (find (has_id i) ds)"
  by (induction ds) (auto simp: update_where_def has_id_def)

lemma transition_row_id [simp]: "d_id (transition_row c to_st t d) = d_id d"
  by (simp add: transition_row_def)

lemma Transition_read_back:
  assumes "Transition c i to_st t s = Inr s'" "GetDeployment i s = Inr d" "t_from t = Some (d_state d)"
  shows "GetDeployment i s' = Inr (transition_row c to_st t d) \<and>
    (\<exists>e. events s' = events s @ [e] \<and> e_actor e = t_actor t \<and> e_accessor_id e = c_accessor c)"
proof -
  from assms(2) have f: "find (has_id i) (deployments s) = Some d"
    by (simp add: GetDeployment_def split: option.splits)
  then have "d_id d = i" by (auto dest: find_SomeD simp: has_id_def)
  with f assms(1,3) show ?thesis
    by (auto simp: Transition_def GetDeployment_def find_updated in_state_def insertEvent_def split: if_splits)
qed

lemma nextAfterDecision_moves: "nextAfterDecision L d j \<noteq> PendingApproval"
  by (simp add: nextAfterDecision_def)

text \<open>
  Claim C25. An approval over the API is the decision of who made it: the deployment was pending, the
  token was allowed to approve in its namespace and named the spec that is stored, and the row then
  bears the name of that token as who decided, as the event of the move does, with the token's
  accessor ID.
\<close>

theorem approval_is_authorized:
  assumes "deploy_call env x r (ApproveReq body) s a E = (E', Handled NoBody)" "s = en_store E"
  shows "\<exists>sub d d'. requireToken env (xe_call x) r a = Handled sub \<and> GetDeployment (rq_deployment r) s = Inr d \<and>
    d_state d = PendingApproval \<and> body = Some (d_spec_hash d) \<and> allow (su_acl sub) (d_namespace d) ''approve'' \<and>
    GetDeployment (rq_deployment r) (en_store E') = Inr d' \<and> d_state d' \<noteq> PendingApproval \<and>
    d_decided_by d' = su_actor sub \<and>
    (\<exists>e. events (en_store E') = events s @ [e] \<and> e_actor e = su_actor sub \<and> e_accessor_id e = su_accessor sub)"
proof -
  have "deploy_api x sub r (ApproveReq body) E = (E', NoBody) \<Longrightarrow> \<exists>h v. body = Some h \<and>
      Approve (xe_libs x) (acting sub (xe_call x)) (xe_bad x) (rq_deployment r) h (su_actor sub) E = (Inr v, E')" for sub
    by (cases body) (auto simp: apiApprove_def apiSpecHash_def act_approve_def reply_def UserFrom_def
        split: if_splits prod.splits sum.splits)
  moreover from assms(1) obtain sub where g: "api_route env (xe_call x) (deploy_check (ApproveReq body)) r s a = Handled sub"
    "deploy_api x sub r (ApproveReq body) E = (E', NoBody)"
    by (auto simp: deploy_call_def behind_def simp del: deploy_api.simps split: answer.splits prod.splits)
  ultimately obtain h v where h: "body = Some h"
    "Approve (xe_libs x) (acting sub (xe_call x)) (xe_bad x) (rq_deployment r) h (su_actor sub) E = (Inr v, E')" by blast
  from Approve_accepted [OF h(2)] obtain d j s' where
    d: "GetDeployment (rq_deployment r) (en_store E) = Inr d" "d_state d = PendingApproval" "d_spec_hash d = h"
    and t: "Transition (acting sub (xe_call x)) (rq_deployment r) (nextAfterDecision (xe_libs x) d j)
        \<lparr>t_from = Some PendingApproval, t_actor = su_actor sub, t_message = ''approved'', t_error = [],
          t_applied_index = 0, t_eval_id = [], t_decided_by = su_actor sub\<rparr> (en_store E) = Inr s'"
    and E': "E' = E\<lparr>en_store := s'\<rparr>" and actor: "su_actor sub \<noteq> []" by blast
  have "run_check (deploy_check (ApproveReq body)) s r sub = Inr True" using route_served [OF g(1)] by simp
  then have "allow (su_acl sub) (d_namespace d) ''approve''"
    using d(1) assms(2) by (simp add: deploy_check_eq on_deployment_def capability_of_def run_check_def)
  moreover from Transition_read_back [OF t d(1)] d(2) have
    "GetDeployment (rq_deployment r) s' = Inr (transition_row (acting sub (xe_call x)) (nextAfterDecision (xe_libs x) d j)
        \<lparr>t_from = Some PendingApproval, t_actor = su_actor sub, t_message = ''approved'', t_error = [],
          t_applied_index = 0, t_eval_id = [], t_decided_by = su_actor sub\<rparr> d)"
    "\<exists>e. events s' = events s @ [e] \<and> e_actor e = su_actor sub \<and> e_accessor_id e = su_accessor sub"
    using assms(2) by (simp_all add: acting_def)
  ultimately show ?thesis
    using d h(1) E' actor assms(2) route_served [OF g(1)] nextAfterDecision_moves
    by (auto simp: transition_row_def keep_if_empty_def)
qed


section \<open>Samples\<close>

text \<open>The job of the sample repository under approval, with its deployment waiting for it.\<close>

definition pending_new :: new_deployment where
  "pending_new = detected_new\<lparr>n_policy := PolApproval, n_state := Some PendingApproval\<rparr>"

definition pending_row :: deployment where
  "pending_row = new_row sample_call pending_new"

definition pending_store :: store where
  "pending_store = log_birth sample_call pending_new (empty_store\<lparr>deployments := [pending_row]\<rparr>)"

definition pending_engine :: engine where
  "pending_engine = new_engine\<lparr>en_store := pending_store,
     en_observations := (\<lambda>_. Some (base_observation sample_detect sample_file Map.empty [] None None))\<rparr>"

definition sample_deploy :: deploy_env where
  "sample_deploy = \<lparr>xe_libs = sample_libs, xe_opts = sample_opts, xe_call = at_time 5 [], xe_bad = (\<lambda>_. False),
     xe_apply = sample_apply, xe_detect = sample_detect, xe_snaps = [], xe_view = (\<lambda>_ _ _. 200)\<rparr>"

definition on_pending :: request where
  "on_pending = (bearer_request ''bearer a'')\<lparr>rq_deployment := ''01A''\<rparr>"

lemma pending_created: "CreateDeployment sample_call pending_new empty_store = Inr (pending_store, pending_row)"
  by (simp add: CreateDeployment_def pending_store_def pending_row_def create_refused_def pending_new_def detected_new_def
      born_state_def empty_store_def)

lemma pending_rows: "deployments pending_store = [pending_row]" "d_id pending_row = ''01A''"
  "d_state pending_row = PendingApproval" "d_namespace pending_row = ''default''" "d_job_id pending_row = ''api''"
  "d_spec_hash pending_row = ''{}''" "job_pauses pending_store = []" "nops_pauses pending_store = []"
  by (simp_all add: pending_store_def pending_row_def new_row_def pending_new_def detected_new_def born_state_def
      sample_call_def log_birth_def empty_store_def insertEvent_def Let_def)

lemma pending_reached: "reach store_start store_step pending_store"
  by (rule reach.reach_step [OF reach.reach_init], simp, rule store_step.intros [where op = "OpCreate pending_new" and c = sample_call])
    (simp add: pending_created)

lemma A_on_pending: "requireToken Access.sample_env (xe_call sample_deploy) on_pending sample_access = Handled as_A"
  using A_requests by (simp add: requireToken_def bearer_def on_pending_def sample_deploy_def bearer_request_def)

lemma A_approves: "\<exists>E'. deploy_call Access.sample_env sample_deploy on_pending (ApproveReq (Some ''{}'')) pending_store sample_access
    pending_engine = (E', Handled NoBody) \<and> E' \<noteq> pending_engine"
proof -
  let ?c = "acting as_A (at_time 5 [])"
  let ?t = "\<lparr>t_from = Some PendingApproval, t_actor = ''t'', t_message = ''approved'', t_error = [],
          t_applied_index = 0, t_eval_id = [], t_decided_by = ''t''\<rparr>"
  have g: "GetDeployment ''01A'' pending_store = Inr pending_row"
    by (simp add: GetDeployment_def pending_rows has_id_def)
  have nxt: "nextAfterDecision sample_libs pending_row sample_spec = Applying"
    by (simp add: nextAfterDecision_def sample_spec_meta sample_cfg)
  have pause: "pauseOf (False, False) ''default'' ''api'' pending_store = Inr None"
    by (simp add: pauseOf_None pending_rows)
  obtain s where s: "Transition ?c ''01A'' Applying ?t pending_store = Inr s"
    by (simp add: Transition_def canTransition_def allowed_def pending_rows in_state_def)
  have "Approve sample_libs ?c (\<lambda>_. False) ''01A'' ''{}'' ''t'' pending_engine = (Inr (), pending_engine\<lparr>en_store := s\<rparr>)"
    by (simp add: Approve_def db_def pending_engine_def g pending_rows pause sample_parsed nxt s base_observation_def Let_def)
  moreover have "api_route Access.sample_env (at_time 5 []) (deploy_check (ApproveReq (Some ''{}''))) on_pending pending_store
      sample_access = Handled as_A"
    using A_on_pending
    by (simp add: api_route_def deploy_check_eq on_deployment_def guard_def run_check_def on_pending_def g allow_def
        as_A_def management_acl_def sample_deploy_def)
  moreover have "events s \<noteq> events pending_store"
    using s by (auto simp: Transition_def insertEvent_def split: if_splits)
  then have "en_store (pending_engine\<lparr>en_store := s\<rparr>) \<noteq> en_store pending_engine"
    by (auto simp: pending_engine_def)
  then have "pending_engine\<lparr>en_store := s\<rparr> \<noteq> pending_engine" by metis
  moreover have "su_actor as_A = ''t''" "rq_deployment on_pending = ''01A''" "xe_call sample_deploy = at_time 5 []"
    "xe_libs sample_deploy = sample_libs" "xe_bad sample_deploy = (\<lambda>_. False)"
    by (simp_all add: as_A_def on_pending_def sample_deploy_def)
  ultimately show ?thesis
    by (simp add: deploy_call_def behind_def apiApprove_def apiSpecHash_def act_approve_def reply_def UserFrom_def)
qed

theorem approval_is_authorized_witness:
  "\<exists>E' d'. fst (deploy_call Access.sample_env sample_deploy on_pending (ApproveReq (Some ''{}'')) pending_store sample_access
     pending_engine) = E' \<and> GetDeployment ''01A'' (en_store E') = Inr d' \<and> d_decided_by d' = ''t''"
proof -
  obtain E' where c: "deploy_call Access.sample_env sample_deploy on_pending (ApproveReq (Some ''{}'')) pending_store sample_access
      pending_engine = (E', Handled NoBody)" using A_approves by blast
  have "pending_store = en_store pending_engine" by (simp add: pending_engine_def)
  from approval_is_authorized [OF c this] show ?thesis
    using c A_on_pending by (auto simp: on_pending_def as_A_def)
qed

theorem acting_needs_capability_witness: "allow (su_acl as_A) ''default'' ''approve''"
proof -
  obtain E' where c: "deploy_call Access.sample_env sample_deploy on_pending (ApproveReq (Some ''{}'')) pending_store sample_access
      pending_engine = (E', Handled NoBody)" "E' \<noteq> pending_engine" using A_approves by blast
  have "runs store_step pending_store (en_store pending_engine)" by (simp add: pending_engine_def runs_refl)
  from acting_needs_capability [OF pending_reached this, of Access.sample_env sample_deploy on_pending "ApproveReq (Some ''{}'')" sample_access]
  have "may_act as_A (ApproveReq (Some ''{}'')) on_pending pending_store (en_store pending_engine)"
    using c A_on_pending by auto
  then show ?thesis
    by (simp add: may_act_def on_deployment_def capability_of_def on_pending_def pending_engine_def GetDeployment_def
        pending_rows has_id_def)
qed

text \<open>An approval of a spec that is not the stored one.\<close>

lemma A_approves_stale: "deploy_api sample_deploy as_A on_pending (ApproveReq (Some ''x'')) pending_engine =
    (pending_engine, Problem 409)"
  by (simp add: apiApprove_def apiSpecHash_def act_approve_def reply_def Approve_def UserFrom_def as_A_def db_def
      sample_deploy_def on_pending_def pending_engine_def GetDeployment_def pending_rows has_id_def apiDecided_def)

theorem refusals_change_nothing_witness:
  "fst (deploy_api sample_deploy as_A on_pending (ApproveReq (Some ''x'')) pending_engine) = pending_engine"
  using refusals_change_nothing [OF A_approves_stale] by (simp add: A_approves_stale del: deploy_api.simps)

theorem dashboard_acts_as_api_witness:
  "snd (deploy_page sample_deploy as_A on_pending \<lparr>fo_spec_hash = ''x'', fo_reason = [], fo_back = []\<rparr>
     (ApproveReq (Some ''x'')) pending_engine) = Status 409"
proof -
  have "xe_view sample_deploy i notice E = 200" for i notice E by (simp add: sample_deploy_def)
  moreover have "UserFrom as_A \<noteq> []" by (simp add: UserFrom_def as_A_def)
  ultimately show ?thesis
    using dashboard_acts_as_api [of "ApproveReq (Some ''x'')" "\<lparr>fo_spec_hash = ''x'', fo_reason = [], fo_back = []\<rparr>"
        sample_deploy as_A on_pending pending_engine] A_approves_stale
    by (auto simp: same_status_def shown_conflict_def simp del: deploy_page.simps deploy_api.simps split: web_answer.splits)
qed


end
