(* ===== verification/JobLists.thy ===== *)
theory JobLists
  imports DeployApi Listing
begin

text \<open>
  What the dashboard and the API show of jobs and deployments (\<open>internal/web/jobs.go\<close>, the
  parameters of \<open>internal/web/list.go\<close>, the reads of \<open>internal/web/api.go\<close>): the sync state of a job,
  the rows of the list of jobs with its filters and counts, the parameters of a list and the answers of
  the API's reads.

  The engine's observations come as the sorted list \<open>Observations\<close> returns. The readers of dates and
  times of Go's \<open>time\<close> package and the mapping to lower case are arguments.
\<close>

section \<open>The sync state of a job\<close>

datatype sync_key = SyncInvalid | SyncNomad | SyncPaused | SyncBlocked | SyncOrphan | SyncPending
  | SyncDeploying | SyncHeld | SyncDrift | SyncInSync

definition syncOrder :: "sync_key list" where
  "syncOrder = [SyncInvalid, SyncNomad, SyncPaused, SyncBlocked, SyncOrphan, SyncPending, SyncDeploying, SyncHeld,
     SyncDrift, SyncInSync]"

definition sync_string :: "sync_key \<Rightarrow> string" where
  "sync_string k = (case k of SyncInvalid \<Rightarrow> ''invalid'' | SyncNomad \<Rightarrow> ''nomad-error'' | SyncPaused \<Rightarrow> ''paused''
     | SyncBlocked \<Rightarrow> ''blocked'' | SyncOrphan \<Rightarrow> ''orphan'' | SyncPending \<Rightarrow> ''pending''
     | SyncDeploying \<Rightarrow> ''deploying'' | SyncHeld \<Rightarrow> ''held'' | SyncDrift \<Rightarrow> ''drift'' | SyncInSync \<Rightarrow> ''sync'')"

definition sync_valid :: "string \<Rightarrow> bool" where
  "sync_valid s = list_ex (\<lambda>k. sync_string k = s) syncOrder"

definition sync_label :: "sync_key \<Rightarrow> string" where
  "sync_label k = (case k of SyncInvalid \<Rightarrow> ''Invalid meta'' | SyncNomad \<Rightarrow> ''Nomad error'' | SyncPaused \<Rightarrow> ''Paused''
     | SyncBlocked \<Rightarrow> ''Blocked'' | SyncOrphan \<Rightarrow> ''Not in git'' | SyncPending \<Rightarrow> ''Awaiting approval''
     | SyncDeploying \<Rightarrow> ''Deploying'' | SyncHeld \<Rightarrow> ''Held'' | SyncDrift \<Rightarrow> ''Drift'' | SyncInSync \<Rightarrow> ''In sync'')"

definition sync_class :: "sync_key \<Rightarrow> string" where
  "sync_class k = (case k of SyncInvalid \<Rightarrow> ''state-failed'' | SyncNomad \<Rightarrow> ''state-failed'' | SyncBlocked \<Rightarrow> ''state-failed''
     | SyncPending \<Rightarrow> ''state-pending'' | SyncDrift \<Rightarrow> ''state-pending'' | SyncOrphan \<Rightarrow> ''state-pending''
     | SyncPaused \<Rightarrow> ''state-pending'' | SyncHeld \<Rightarrow> ''state-pending'' | SyncDeploying \<Rightarrow> ''state-running''
     | SyncInSync \<Rightarrow> ''state-success'')"

definition invalid_meta :: "observation \<Rightarrow> bool" where
  "invalid_meta ob = list_ex (\<lambda>i. issue_severity i = SevError) (ob_issues ob)"

definition jobSync :: "observation \<Rightarrow> deployment option \<Rightarrow> sync_key" where
  "jobSync ob latest =
     (if invalid_meta ob then SyncInvalid
      else if ob_nomad_error ob \<noteq> [] then SyncNomad
      else if (case ob_hold ob of None \<Rightarrow> False | Some h \<Rightarrow> ho_kind h = HoldPaused) then SyncPaused
      else if ob_blocked_by ob \<noteq> [] then SyncBlocked
      else case (case latest of None \<Rightarrow> None | Some d \<Rightarrow>
            (case d_state d of PendingApproval \<Rightarrow> Some SyncPending | Detected \<Rightarrow> Some SyncDeploying
             | PreHook \<Rightarrow> Some SyncDeploying | Applying \<Rightarrow> Some SyncDeploying | PostHook \<Rightarrow> Some SyncDeploying
             | _ \<Rightarrow> None)) of
          Some k \<Rightarrow> k
        | None \<Rightarrow> if ob_hold ob \<noteq> None \<and> ob_drift ob then SyncHeld
                  else if ob_drift ob then SyncDrift else SyncInSync)"

section \<open>The parameters of a list\<close>

definition perPages :: "int list" where "perPages = [25, 50, 100]"

definition defaultPerPage :: int where "defaultPerPage = 50"

definition maxCount :: int where "maxCount = 1000"

definition deploymentStates :: "dstate list" where
  "deploymentStates = [Detected, PendingApproval, PreHook, Applying, PostHook, Completed, Failed, Rejected, Superseded]"

record list_query =
  lq_per_page :: int
  lq_per_page_set :: bool
  lq_cursor :: "cursor option"
  lq_search :: string
  lq_state :: string
  lq_namespace :: string
  lq_job :: string
  lq_repository :: string
  lq_policy :: string
  lq_decided_by :: string
  lq_since :: "time option"
  lq_until :: "time option"
  lq_warnings :: bool

definition paramsOf :: "list_kind \<Rightarrow> string list" where
  "paramsOf k = (case k of DeploymentList \<Rightarrow> [''job'', ''decided_by'', ''since'', ''until''] | JobList \<Rightarrow> [''warnings''])"

definition other_list :: "list_kind \<Rightarrow> list_kind" where
  "other_list k = (case k of DeploymentList \<Rightarrow> JobList | JobList \<Rightarrow> DeploymentList)"

text \<open>The readers of a date (the start of a UTC day) and of a time with its zone.\<close>

record bound_env =
  be_date :: "string \<Rightarrow> time option"
  be_time :: "string \<Rightarrow> time option"

definition day :: duration where "day = 24 * 60 * 60 * second"

definition parseBound :: "bound_env \<Rightarrow> string \<Rightarrow> bool \<Rightarrow> string + time option" where
  "parseBound be s until =
     (if s = [] then Inr None
      else case be_date be s of
          Some d \<Rightarrow> Inr (Some (if until then d + day else d))
        | None \<Rightarrow> (case be_time be s of
            Some t \<Rightarrow> Inr (Some t)
          | None \<Rightarrow> Inl (go_quote s @ '' is not a date (2026-10-01) or an RFC 3339 time'')))"

text \<open>The checks of \<open>parseList\<close>, in its order.\<close>

definition parse_per_page :: "url_values \<Rightarrow> string + (int \<times> bool)" where
  "parse_per_page v = (let s = url_get v ''per_page'' in
     if s = [] then Inr (defaultPerPage, False)
     else case Atoi s of
         Some n \<Rightarrow> if n \<in> set perPages then Inr (n, True) else Inl ''per_page is 25, 50 or 100''
       | None \<Rightarrow> Inl ''per_page is 25, 50 or 100'')"

definition parse_cursor :: "cursor_text \<Rightarrow> url_values \<Rightarrow> list_kind \<Rightarrow> string + cursor option" where
  "parse_cursor ct v kind = (let t = url_get v ''next_token'' in
     if t = [] then Inr None
     else case parseCursor ct t kind of None \<Rightarrow> Inl ''next_token is not one this list gave'' | Some c \<Rightarrow> Inr (Some c))"

definition parse_search :: "url_values \<Rightarrow> list_kind \<Rightarrow> string + string" where
  "parse_search v kind = (let s = trim_space (url_get v ''q'') in
     if kind = DeploymentList \<and> s \<noteq> [] \<and> rune_count s < MinSearch
     then Inl (''q needs at least '' @ show_nat MinSearch @ '' characters'') else Inr s)"

definition parse_state :: "url_values \<Rightarrow> list_kind \<Rightarrow> string + string" where
  "parse_state v kind = (let s = url_get v ''state'' in
     if s = [] then Inr s
     else if kind = DeploymentList then
       (if s \<noteq> ''active'' \<and> s \<notin> set (map state_str deploymentStates)
        then Inl (''state '' @ go_quote s @ '' is not active or a state of a deployment'') else Inr s)
     else if \<not> sync_valid s then Inl (''state '' @ go_quote s @ '' is not a sync state'') else Inr s)"

definition parse_list_policy :: "url_values \<Rightarrow> string + string" where
  "parse_list_policy v = (let s = url_get v ''policy'' in
     if s \<in> {[], ''auto'', ''approval'', ''none''} then Inr s
     else Inl (''policy '' @ go_quote s @ '' is not auto, approval or none''))"

definition parse_warnings :: "url_values \<Rightarrow> string + bool" where
  "parse_warnings v = (let s = url_get v ''warnings'' in
     if s = [] then Inr False else case ParseBool s of Some b \<Rightarrow> Inr b | None \<Rightarrow> Inl ''warnings is true or false'')"

definition prefixed :: "string \<Rightarrow> string + 'a \<Rightarrow> string + 'a" where
  "prefixed p r = (case r of Inl m \<Rightarrow> Inl (p @ m) | Inr x \<Rightarrow> Inr x)"

definition parseList :: "cursor_text \<Rightarrow> bound_env \<Rightarrow> url_values \<Rightarrow> list_kind \<Rightarrow> string + list_query" where
  "parseList ct be v kind =
     (case find (\<lambda>p. v p \<noteq> None) (paramsOf (other_list kind)) of
        Some p \<Rightarrow> Inl (p @ '' does not filter this list'')
      | None \<Rightarrow> bindE (parse_per_page v) (\<lambda>(n, given). bindE (parse_cursor ct v kind) (\<lambda>c.
          bindE (parse_search v kind) (\<lambda>q. bindE (parse_state v kind) (\<lambda>st. bindE (parse_list_policy v) (\<lambda>pol.
          bindE (prefixed ''since: '' (parseBound be (url_get v ''since'') False)) (\<lambda>since.
          bindE (prefixed ''until: '' (parseBound be (url_get v ''until'') True)) (\<lambda>until.
          bindE (parse_warnings v) (\<lambda>w.
            Inr \<lparr>lq_per_page = n, lq_per_page_set = given, lq_cursor = c, lq_search = q, lq_state = st,
              lq_namespace = url_get v ''namespace'', lq_job = url_get v ''job'', lq_repository = url_get v ''repository'',
              lq_policy = pol, lq_decided_by = url_get v ''decided_by'', lq_since = since, lq_until = until,
              lq_warnings = w\<rparr>)))))))))"

definition policy_of_text :: "string \<Rightarrow> dpolicy option" where
  "policy_of_text s = (if s = [] then None else if s = ''auto'' then Some PolAuto
     else if s = ''approval'' then Some PolApproval else Some (PolOther s))"

text \<open>\<open>deployments\<close>: the query of the store, for the reader's scope. A state checked by \<open>parseList\<close> is one of the list.\<close>

definition query_of :: "list_query \<Rightarrow> scope \<Rightarrow> deployment_query" where
  "query_of q read = \<lparr>q_read = read, q_search = lq_search q, q_active = (lq_state q = ''active''),
     q_states = (if lq_state q = [] \<or> lq_state q = ''active'' then []
       else filter (\<lambda>st. state_str st = lq_state q) deploymentStates),
     q_namespace = lq_namespace q, q_job = lq_job q, q_repository = lq_repository q, q_decided_by = lq_decided_by q,
     q_policy = policy_of_text (lq_policy q), q_since = lq_since q, q_until = lq_until q,
     q_after = None, q_newer = False, q_limit = 0\<rparr>"

section \<open>The list of jobs\<close>

definition list_key :: "string \<Rightarrow> string \<Rightarrow> string" where
  "list_key ns job = ns @ ''/'' @ job"

text \<open>\<open>readable\<close>, \<open>observations\<close> and \<open>orphans\<close> keep what is in a namespace the subject can read.\<close>

definition can_read :: "subject \<Rightarrow> string \<Rightarrow> bool" where
  "can_read sub ns = allow (su_acl sub) ns ''read''"

definition latestByJob :: "subject \<Rightarrow> store \<Rightarrow> string \<rightharpoonup> deployment" where
  "latestByJob sub s = map_of (rev (map (\<lambda>d. (list_key (d_namespace d) (d_job_id d), d))
     (filter (\<lambda>d. can_read sub (d_namespace d)) (LatestPerJob s))))"

datatype listed_job = Watched observation | Orphaned orphan

record job_entry =
  je_key :: string
  je_job :: listed_job
  je_latest :: "deployment option"
  je_sync :: sync_key
  je_namespace :: string
  je_job_id :: string
  je_repository :: string
  je_file :: string
  je_policy :: string
  je_warnings :: nat

definition mpolicy_str :: "mpolicy \<Rightarrow> string" where
  "mpolicy_str p = (case p of PAuto \<Rightarrow> ''auto'' | PApproval \<Rightarrow> ''approval'' | PNone \<Rightarrow> ''none'')"

definition watched_entry :: "(string \<rightharpoonup> deployment) \<Rightarrow> observation \<Rightarrow> job_entry" where
  "watched_entry latest ob = (let k = list_key (ob_namespace ob) (ob_job_id ob) in
     \<lparr>je_key = k, je_job = Watched ob, je_latest = latest k, je_sync = jobSync ob (latest k),
      je_namespace = ob_namespace ob, je_job_id = ob_job_id ob, je_repository = ob_repository ob, je_file = ob_file_path ob,
      je_policy = mpolicy_str (ob_policy ob),
      je_warnings = length (filter (\<lambda>i. issue_severity i \<noteq> SevError) (ob_issues ob))\<rparr>)"

definition orphan_entry :: "(string \<rightharpoonup> deployment) \<Rightarrow> orphan \<Rightarrow> job_entry" where
  "orphan_entry latest x = (let k = list_key (or_namespace x) (or_job_id x) in
     \<lparr>je_key = k, je_job = Orphaned x, je_latest = latest k, je_sync = SyncOrphan,
      je_namespace = or_namespace x, je_job_id = or_job_id x,
      je_repository = (case latest k of None \<Rightarrow> [] | Some d \<Rightarrow> d_repository d), je_file = [],
      je_policy = dpolicy_str (or_policy x), je_warnings = 0\<rparr>)"

definition jobEntries :: "subject \<Rightarrow> observation list \<Rightarrow> orphan list \<Rightarrow> store \<Rightarrow> job_entry list" where
  "jobEntries sub obs orphans s = (let latest = latestByJob sub s in sort_key je_key
     (map (watched_entry latest) (filter (\<lambda>ob. can_read sub (ob_namespace ob)) obs) @
      map (orphan_entry latest) (filter (\<lambda>x. can_read sub (or_namespace x)) orphans)))"

definition search_hit :: "(string \<Rightarrow> string) \<Rightarrow> string \<Rightarrow> job_entry \<Rightarrow> bool" where
  "search_hit lower s e = (let needle = lower s in
     sublist needle (lower (je_job_id e)) \<or> sublist needle (lower (je_namespace e)) \<or> sublist needle (lower (je_file e)))"

definition entry_matches :: "(string \<Rightarrow> string) \<Rightarrow> job_entry \<Rightarrow> list_query \<Rightarrow> bool \<Rightarrow> bool" where
  "entry_matches lower e q with_state =
     ((lq_search q = [] \<or> search_hit lower (lq_search q) e) \<and>
      (\<not> with_state \<or> lq_state q = [] \<or> lq_state q = sync_string (je_sync e)) \<and>
      (lq_namespace q = [] \<or> lq_namespace q = je_namespace e) \<and>
      (lq_repository q = [] \<or> lq_repository q = je_repository e) \<and>
      (lq_policy q = [] \<or> lq_policy q = je_policy e) \<and>
      (\<not> lq_warnings q \<or> 0 < je_warnings e))"

text \<open>The loop of \<open>pageJobs\<close>: the rows that match, in order, and the counts of each sync state.\<close>

fun scan_jobs :: "(string \<Rightarrow> string) \<Rightarrow> list_query \<Rightarrow> job_entry list \<Rightarrow> job_entry list \<times> (sync_key \<Rightarrow> nat) \<Rightarrow>
    job_entry list \<times> (sync_key \<Rightarrow> nat)" where
  "scan_jobs lower q [] acc = acc"
| "scan_jobs lower q (e # es) (rows, tally) =
     (if \<not> entry_matches lower e q False then scan_jobs lower q es (rows, tally)
      else scan_jobs lower q es
        (if lq_state q = [] \<or> lq_state q = sync_string (je_sync e) then rows @ [e] else rows,
         tally(je_sync e := Suc (tally (je_sync e)))))"

definition pageJobs :: "(string \<Rightarrow> string) \<Rightarrow> job_entry list \<Rightarrow> list_query \<Rightarrow>
    job_entry list \<times> page \<times> (sync_key \<Rightarrow> nat)" where
  "pageJobs lower entries q = (case scan_jobs lower q entries ([], \<lambda>_. 0) of (matched, tally) \<Rightarrow>
     case pageKeys (map je_key matched) (nat (lq_per_page q)) (lq_cursor q) of (i, j, p) \<Rightarrow>
       (take (j - i) (drop i matched), p, tally))"

section \<open>The reads of the API\<close>

text \<open>\<open>apiDeployment\<close>: a deployment without its spec, source and variables.\<close>

record api_deployment =
  ad_id :: string
  ad_namespace :: string
  ad_job :: string
  ad_state :: string
  ad_policy :: string
  ad_spec_hash :: string
  ad_repository :: string
  ad_commit :: "string \<times> string \<times> string"
  ad_error :: string
  ad_decided_by :: string
  ad_decided_at :: "time option"
  ad_retry_of :: string
  ad_created_at :: time
  ad_updated_at :: time

definition deploymentOf :: "deployment \<Rightarrow> api_deployment" where
  "deploymentOf d = \<lparr>ad_id = d_id d, ad_namespace = d_namespace d, ad_job = d_job_id d, ad_state = state_str (d_state d),
     ad_policy = dpolicy_str (d_policy d), ad_spec_hash = d_spec_hash d, ad_repository = d_repository d,
     ad_commit = (d_commit_sha d, d_commit_subject d, d_commit_author d), ad_error = d_error d,
     ad_decided_by = d_decided_by d, ad_decided_at = d_decided_at d, ad_retry_of = d_retry_of d,
     ad_created_at = d_created_at d, ad_updated_at = d_updated_at d\<rparr>"

record api_hold =
  ah_kind :: hold_kind
  ah_reason :: string
  ah_by :: string
  ah_since :: "time option"

record api_job =
  aj_namespace :: string
  aj_job :: string
  aj_policy :: string
  aj_sync :: string
  aj_drift :: bool
  aj_nomad_error :: string
  aj_spec_hash :: string
  aj_blocked_by :: string
  aj_hold :: "api_hold option"
  aj_last :: "api_deployment option"

definition jobOf :: "observation \<Rightarrow> deployment option \<Rightarrow> api_job" where
  "jobOf ob latest = \<lparr>aj_namespace = ob_namespace ob, aj_job = ob_job_id ob, aj_policy = mpolicy_str (ob_policy ob),
     aj_sync = sync_string (jobSync ob latest), aj_drift = ob_drift ob, aj_nomad_error = ob_nomad_error ob,
     aj_spec_hash = ob_spec_hash ob, aj_blocked_by = ob_blocked_by ob,
     aj_hold = map_option (\<lambda>h. \<lparr>ah_kind = ho_kind h, ah_reason = ho_reason h, ah_by = ho_by h, ah_since = ho_since h\<rparr>)
       (ob_hold ob), aj_last = map_option deploymentOf latest\<rparr>"

definition orphanJob :: "orphan \<Rightarrow> deployment option \<Rightarrow> api_job" where
  "orphanJob x latest = \<lparr>aj_namespace = or_namespace x, aj_job = or_job_id x, aj_policy = dpolicy_str (or_policy x),
     aj_sync = sync_string SyncOrphan, aj_drift = False, aj_nomad_error = [], aj_spec_hash = [], aj_blocked_by = [],
     aj_hold = None, aj_last = map_option deploymentOf latest\<rparr>"

definition entry_job :: "job_entry \<Rightarrow> api_job" where
  "entry_job e = (case je_job e of Watched ob \<Rightarrow> jobOf ob (je_latest e) | Orphaned x \<Rightarrow> orphanJob x (je_latest e))"

record job_detail =
  jt_job :: api_job
  jt_repository :: string
  jt_file :: string
  jt_diff :: string
  jt_issues :: "issue list"
  jt_deployments :: "api_deployment list"

record deployment_detail =
  dt_deployment :: api_deployment
  dt_diff :: string
  dt_events :: "event list"
  dt_runs :: "(string \<times> string \<times> hook_state \<times> string \<times> time \<times> time option) list"

datatype read_answer =
    Jobs "api_job list" string
  | Deployments "api_deployment list" string
  | JobDetail job_detail
  | DeploymentDetail deployment_detail
  | ReadError nat

text \<open>What the reads use of libraries: lower case and the full text index, the text of a cursor, the dates, whether a text is JSON.\<close>

record read_env =
  rd_text :: text_env
  rd_cursor :: cursor_text
  rd_bound :: bound_env
  rd_json :: "string \<Rightarrow> bool"

definition nextToken :: "cursor_text \<Rightarrow> cursor option \<Rightarrow> string" where
  "nextToken ct c = (case c of None \<Rightarrow> [] | Some x \<Rightarrow> cursor_string ct x)"

definition apiListJobs :: "read_env \<Rightarrow> subject \<Rightarrow> url_values \<Rightarrow> observation list \<Rightarrow> orphan list \<Rightarrow> store \<Rightarrow> read_answer" where
  "apiListJobs rd sub v obs orphans s = (case parseList (rd_cursor rd) (rd_bound rd) v JobList of
       Inl _ \<Rightarrow> ReadError 400
     | Inr q \<Rightarrow> (case pageJobs (te_lower (rd_text rd)) (jobEntries sub obs orphans s) q of (rows, p, _) \<Rightarrow>
         Jobs (map entry_job rows) (nextToken (rd_cursor rd) (pg_older p))))"

definition apiListDeployments :: "read_env \<Rightarrow> subject \<Rightarrow> url_values \<Rightarrow> store \<Rightarrow> read_answer" where
  "apiListDeployments rd sub v s = (case parseList (rd_cursor rd) (rd_bound rd) v DeploymentList of
       Inl _ \<Rightarrow> ReadError 400
     | Inr q \<Rightarrow> (case pageDeployments (rd_text rd) (query_of q (scope_of (su_acl sub) ''read'')) (lq_per_page q) (lq_cursor q) s of
         Inl _ \<Rightarrow> ReadError 500
       | Inr (rows, p) \<Rightarrow> Deployments (map deploymentOf rows) (nextToken (rd_cursor rd) (pg_older p))))"

definition jobHistoryLimit :: int where "jobHistoryLimit = 50"

definition watched_detail :: "observation \<Rightarrow> deployment list \<Rightarrow> job_detail" where
  "watched_detail ob deps = \<lparr>jt_job = jobOf ob (if deps = [] then None else Some (hd deps)), jt_repository = ob_repository ob,
     jt_file = ob_file_path ob, jt_diff = ob_plan_diff ob, jt_issues = ob_issues ob, jt_deployments = map deploymentOf deps\<rparr>"

definition bare_detail :: "api_job \<Rightarrow> deployment list \<Rightarrow> job_detail" where
  "bare_detail j deps = \<lparr>jt_job = j, jt_repository = [], jt_file = [], jt_diff = [], jt_issues = [],
     jt_deployments = map deploymentOf deps\<rparr>"

definition past_job :: "string \<Rightarrow> string \<Rightarrow> deployment \<Rightarrow> api_job" where
  "past_job ns job d = \<lparr>aj_namespace = ns, aj_job = job, aj_policy = dpolicy_str (d_policy d), aj_sync = [], aj_drift = False,
     aj_nomad_error = [], aj_spec_hash = [], aj_blocked_by = [], aj_hold = None, aj_last = Some (deploymentOf d)\<rparr>"

definition apiGetJob :: "read_env \<Rightarrow> string \<Rightarrow> string \<Rightarrow> observation list \<Rightarrow> orphan list \<Rightarrow> store \<Rightarrow> read_answer" where
  "apiGetJob rd ns job obs orphans s =
     (let deps = ListByJob ns job jobHistoryLimit s in
      case find (\<lambda>ob. ob_namespace ob = ns \<and> ob_job_id ob = job) obs of
        Some ob \<Rightarrow> if ob_plan_diff ob \<noteq> [] \<and> \<not> rd_json rd (ob_plan_diff ob) then ReadError 500
                   else JobDetail (watched_detail ob deps)
      | None \<Rightarrow> (case find (\<lambda>x. or_namespace x = ns \<and> or_job_id x = job) orphans of
            Some x \<Rightarrow> JobDetail (bare_detail (orphanJob x (if deps = [] then None else Some (hd deps))) deps)
          | None \<Rightarrow> if deps = [] then ReadError 404 else JobDetail (bare_detail (past_job ns job (hd deps)) deps)))"

definition apiGetDeployment :: "read_env \<Rightarrow> string \<Rightarrow> store \<Rightarrow> read_answer" where
  "apiGetDeployment rd i s = (case GetDeployment i s of
       Inl e \<Rightarrow> ReadError (store_status e)
     | Inr d \<Rightarrow> if d_plan_diff d \<noteq> [] \<and> \<not> rd_json rd (d_plan_diff d) then ReadError 500
         else DeploymentDetail \<lparr>dt_deployment = deploymentOf d, dt_diff = d_plan_diff d, dt_events = Events i s,
           dt_runs = map (\<lambda>r. (r_phase r, r_hook_job_id r, r_state r, r_error r, r_started_at r, r_finished_at r))
             (ListHookRuns i s)\<rparr>)"

section \<open>Filters and their counts\<close>

lemma sync_string_inj: "sync_string j = sync_string k \<longleftrightarrow> j = k"
  by (cases j; cases k) (simp_all add: sync_string_def)

lemma matches_with_state:
  "entry_matches lower e q True \<longleftrightarrow> entry_matches lower e q False \<and> (lq_state q = [] \<or> lq_state q = sync_string (je_sync e))"
  by (auto simp: entry_matches_def)

lemma scan_jobs_eq:
  "scan_jobs lower q es (rows, tally) = (rows @ filter (\<lambda>e. entry_matches lower e q True) es,
     \<lambda>k. tally k + length (filter (\<lambda>e. entry_matches lower e q False \<and> je_sync e = k) es))"
  by (induction es arbitrary: rows tally) (auto simp: matches_with_state fun_eq_iff)

lemma sum_by_sync: "sum_list (map (\<lambda>k. length (filter (\<lambda>e. P e \<and> je_sync e = k) es)) syncOrder) = length (filter P es)"
proof (induction es)
  case (Cons e es)
  then show ?case by (cases "je_sync e") (simp_all add: syncOrder_def)
qed (simp add: syncOrder_def)

text \<open>
  The numbers on the filters of the Jobs page are true: the count of a sync state is the
  number of jobs the list shows, over all its pages, when that state is chosen, the counts add up to
  the jobs it shows without a choice, and a page shows only jobs that pass every filter.
\<close>

theorem job_counts_are_rows:
  "case pageJobs lower entries q of (rows, p, tally) \<Rightarrow>
     set rows \<subseteq> {e \<in> set entries. entry_matches lower e q True} \<and>
     sum_list (map tally syncOrder) = length (filter (\<lambda>e. entry_matches lower e (q\<lparr>lq_state := []\<rparr>) True) entries) \<and>
     tally k = length (filter (\<lambda>e. entry_matches lower e (q\<lparr>lq_state := sync_string k\<rparr>) True) entries)"
proof -
  have state: "entry_matches lower e (q\<lparr>lq_state := st\<rparr>) False = entry_matches lower e q False" for e st
    by (simp add: entry_matches_def)
  have "sync_string k \<noteq> []" by (cases k) (simp_all add: sync_string_def)
  then show ?thesis
    using sum_by_sync [of "\<lambda>e. entry_matches lower e q False" entries]
    by (auto simp: pageJobs_def scan_jobs_eq matches_with_state state sync_string_inj eq_commute [of k]
        dest!: in_set_takeD in_set_dropD split: prod.splits)
qed


section \<open>Deploy now and the state it is offered in\<close>

text \<open>
  The button to deploy a held job now is offered in exactly the state the list calls held:
  \<open>DeployNowable\<close> holds of a job and its latest deployment exactly when the job's sync state is held,
  for a job whose meta has no error (with one the list says so instead).
\<close>

theorem held_iff_deploy_now: "jobSync ob latest = SyncHeld \<longleftrightarrow> DeployNowable ob latest \<and> \<not> invalid_meta ob"
proof (cases "ob_hold ob")
  case (Some h)
  then show ?thesis
    by (cases "ho_kind h"; cases latest)
      (auto simp: jobSync_def DeployNowable_def IsActive_def split: option.splits dstate.splits if_splits)
qed (auto simp: jobSync_def DeployNowable_def split: option.splits dstate.splits if_splits)

section \<open>Parsed parameters\<close>

lemma parseList_fields:
  assumes "parseList ct be v kind = Inr q"
  shows "lq_per_page q \<in> set perPages" "kind = DeploymentList \<Longrightarrow> lq_search q = [] \<or> MinSearch \<le> rune_count (lq_search q)"
    "kind = DeploymentList \<Longrightarrow> lq_state q = [] \<or> lq_state q = ''active'' \<or> lq_state q \<in> set (map state_str deploymentStates)"
    "kind = JobList \<Longrightarrow> lq_state q = [] \<or> sync_valid (lq_state q)"
    "lq_policy q \<in> {[], ''auto'', ''approval'', ''none''}"
    "parse_cursor ct v kind = Inr (lq_cursor q)"
proof -
  from assms obtain n b c s st pol since until w where
    p: "parse_per_page v = Inr (n, b)" "parse_cursor ct v kind = Inr c" "parse_search v kind = Inr s"
      "parse_state v kind = Inr st" "parse_list_policy v = Inr pol"
    and q: "lq_per_page q = n" "lq_cursor q = c" "lq_search q = s" "lq_state q = st" "lq_policy q = pol"
    by (auto simp: parseList_def bindE_Inr split: option.splits)
  show "lq_per_page q \<in> set perPages"
    using p(1) q by (auto simp: parse_per_page_def Let_def perPages_def defaultPerPage_def split: if_splits option.splits)
  show "kind = DeploymentList \<Longrightarrow> lq_search q = [] \<or> MinSearch \<le> rune_count (lq_search q)"
    using p(3) q by (auto simp: parse_search_def Let_def split: if_splits)
  show "kind = DeploymentList \<Longrightarrow> lq_state q = [] \<or> lq_state q = ''active'' \<or> lq_state q \<in> set (map state_str deploymentStates)"
    "kind = JobList \<Longrightarrow> lq_state q = [] \<or> sync_valid (lq_state q)"
    using p(4) q by (auto simp: parse_state_def Let_def split: if_splits)
  show "lq_policy q \<in> {[], ''auto'', ''approval'', ''none''}"
    using p(5) q by (auto simp: parse_list_policy_def Let_def split: if_splits)
  show "parse_cursor ct v kind = Inr (lq_cursor q)" using p(2) q by simp
qed

lemma query_of_valid:
  assumes "parseList ct be v DeploymentList = Inr q"
  shows "valid_query (query_of q read)" "0 < lq_per_page q"
  using parseList_fields [OF assms]
  by (auto simp: valid_query_def query_of_def search_short_def perPages_def)

lemma state_str_inj: "state_str a = state_str b \<longleftrightarrow> a = b"
  by (cases a; cases b) (simp_all add: state_str_def)

text \<open>The rows of a page are rows the query matches.\<close>

lemma ListDeployments_rows:
  assumes "ListDeployments te q s = Inr (rows, m)" "d \<in> set rows"
  shows "d \<in> set (deployments s) \<and> query_matches te q d"
proof -
  have in_limit: "x \<in> set (limit_rows n xs) \<Longrightarrow> x \<in> set xs" for n and x :: deployment and xs
    by (auto simp: limit_rows_def dest: in_set_takeD split: if_splits)
  from assms show ?thesis
    by (auto simp: ListDeployments_def Let_def dest!: in_set_takeD in_limit split: if_splits)
qed

lemma older_page_rows:
  "older_page te q c s = Inr (rows, p) \<Longrightarrow> \<exists>m. ListDeployments te q s = Inr (rows, m)"
  by (auto simp: older_page_def bindE_Inr)

lemma pageDeployments_rows:
  assumes "pageDeployments te q n c s = Inr (rows, p)" "d \<in> set rows"
  shows "d \<in> set (deployments s) \<and> query_matches te q d"
  using assms ListDeployments_rows
  by (auto simp: pageDeployments_def Let_def bindE_Inr split: option.splits if_splits dest!: older_page_rows
      dest: ListDeployments_rows)

lemma ListDeployments_total: "0 < q_limit q \<Longrightarrow> \<not> search_short q \<Longrightarrow> \<exists>rows m. ListDeployments te q s = Inr (rows, m)"
  by (simp add: ListDeployments_def Let_def)

lemma pageDeployments_total:
  assumes "valid_query q" "0 < n"
  shows "is_ok (pageDeployments te q n c s)"
proof -
  have older: "is_ok (older_page te q' c s)" if l: "0 < q_limit q'" "\<not> search_short q'" for q' c
  proof -
    from ListDeployments_total [OF l] obtain rows m where "ListDeployments te q' s = Inr (rows, m)" by blast
    then show ?thesis by (simp add: older_page_def)
  qed
  show ?thesis
  proof (cases c)
    case None
    then show ?thesis using assms by (simp add: pageDeployments_def older valid_query_def Let_def)
  next
    case (Some cu)
    obtain rows m where "ListDeployments te (q\<lparr>q_limit := n, q_after := Some (cu_pos cu), q_newer := True\<rparr>) s = Inr (rows, m)"
      using ListDeployments_total [of "q\<lparr>q_limit := n, q_after := Some (cu_pos cu), q_newer := True\<rparr>" te s] assms
      by (auto simp: valid_query_def)
    with Some assms show ?thesis by (simp add: pageDeployments_def older valid_query_def Let_def)
  qed
qed

section \<open>What a list shows\<close>

text \<open>The subject of a request has an access list of parsed policies, or everything.\<close>

lemma client_policies_parsed:
  "client_policies env a names = Inr ps \<Longrightarrow> p \<in> set ps \<Longrightarrow> \<exists>rules. acl_parse (en_hcl env) rules = Inr p"
  by (induction names arbitrary: ps) (auto simp: bindE_Inr split: sum.splits if_splits)

lemma served_acl:
  assumes "requireToken env c r a = Handled sub"
  shows "acl_management (su_acl sub) \<or> (\<forall>p\<in>set (acl_policies (su_acl sub)). \<exists>rules. acl_parse (en_hcl env) rules = Inr p)"
proof -
  from assms obtain secret where "tokenSubject env c secret a = Inr sub"
    by (auto simp: requireToken_def split: option.splits sum.splits if_splits)
  then show ?thesis
    by (auto simp: tokenSubject_def bindE_Inr clientACL_def new_acl_def management_acl_def
        dest: client_policies_parsed split: if_splits)
qed

lemma scope_read:
  assumes "requireToken env c r a = Handled sub" "CHR ''/'' \<notin> set ns"
    and "scope_all (scope_of (su_acl sub) cap) \<or> scope_sql (scope_of (su_acl sub) cap) ns"
  shows "allow (su_acl sub) ns cap"
proof (cases "acl_management (su_acl sub)")
  case True
  then show ?thesis by (simp add: allow_def)
next
  case False
  with served_acl [OF assms(1)] have "\<forall>p\<in>set (acl_policies (su_acl sub)). \<exists>rules. acl_parse (en_hcl env) rules = Inr p" by simp
  then have eq: "scope_sql (scope_of (su_acl sub) cap) ns = allow (su_acl sub) ns cap"
    using assms(2) by (rule scope_sql_allow)
  have "\<not> scope_all (scope_of (su_acl sub) cap)" using False by (simp add: scope_of_def Let_def)
  with assms(3) eq show ?thesis by blast
qed

lemma jobEntries_readable:
  assumes "e \<in> set (jobEntries sub obs orphans s)"
  shows "can_read sub (je_namespace e) \<and> aj_namespace (entry_job e) = je_namespace e \<and>
    (\<forall>d. je_latest e = Some d \<longrightarrow> can_read sub (d_namespace d))"
proof -
  have "can_read sub (d_namespace d)" if "latestByJob sub s k = Some d" for k d
    using that by (auto simp: latestByJob_def dest!: map_of_SomeD)
  with assms show ?thesis
    by (auto simp: jobEntries_def Let_def watched_entry_def orphan_entry_def entry_job_def jobOf_def orphanJob_def)
qed

text \<open>
  A list over the API shows nothing of a namespace its reader may not read: every job and
  every deployment in it, and the latest deployment shown beside a job, is in a namespace where the
  token of the request is allowed to read. (Nomad's names of namespaces have no slash.)
\<close>

theorem lists_show_only_readable:
  assumes "requireToken env c r a = Handled sub" "\<forall>d\<in>set (deployments s). CHR ''/'' \<notin> set (d_namespace d)"
  shows "(case apiListDeployments rd sub v s of Deployments ds _ \<Rightarrow>
       (\<forall>d\<in>set ds. allow (su_acl sub) (ad_namespace d) ''read'') | _ \<Rightarrow> True) \<and>
    (case apiListJobs rd sub v obs orphans s of Jobs js _ \<Rightarrow>
       (\<forall>j\<in>set js. allow (su_acl sub) (aj_namespace j) ''read'' \<and>
          (\<forall>d. aj_last j = Some d \<longrightarrow> allow (su_acl sub) (ad_namespace d) ''read'')) | _ \<Rightarrow> True)"
proof
  show "case apiListDeployments rd sub v s of Deployments ds _ \<Rightarrow>
       (\<forall>d\<in>set ds. allow (su_acl sub) (ad_namespace d) ''read'') | _ \<Rightarrow> True"
  proof (cases "apiListDeployments rd sub v s")
    case (Deployments ds t)
    then obtain q rows p where page: "pageDeployments (rd_text rd) (query_of q (scope_of (su_acl sub) ''read''))
        (lq_per_page q) (lq_cursor q) s = Inr (rows, p)" "ds = map deploymentOf rows"
      by (auto simp: apiListDeployments_def split: sum.splits prod.splits)
    have "allow (su_acl sub) (d_namespace d) ''read''" if "d \<in> set rows" for d
    proof -
      from pageDeployments_rows [OF page(1) that] have d: "d \<in> set (deployments s)"
        "query_matches (rd_text rd) (query_of q (scope_of (su_acl sub) ''read'')) d" by simp_all
      then have "scope_all (scope_of (su_acl sub) ''read'') \<or> scope_sql (scope_of (su_acl sub) ''read'') (d_namespace d)"
        by (simp add: query_matches_def query_of_def)
      from scope_read [OF assms(1) _ this] d(1) assms(2) show ?thesis by blast
    qed
    with page(2) Deployments show ?thesis by (auto simp: deploymentOf_def)
  qed simp_all
  show "case apiListJobs rd sub v obs orphans s of Jobs js _ \<Rightarrow>
       (\<forall>j\<in>set js. allow (su_acl sub) (aj_namespace j) ''read'' \<and>
          (\<forall>d. aj_last j = Some d \<longrightarrow> allow (su_acl sub) (ad_namespace d) ''read'')) | _ \<Rightarrow> True"
  proof (cases "apiListJobs rd sub v obs orphans s")
    case (Jobs js t)
    then obtain q rows p ty where page: "pageJobs (te_lower (rd_text rd)) (jobEntries sub obs orphans s) q = (rows, p, ty)"
        "js = map entry_job rows"
      by (auto simp: apiListJobs_def split: sum.splits prod.splits)
    have "set rows \<subseteq> set (jobEntries sub obs orphans s)"
      using page(1) by (auto simp: pageJobs_def scan_jobs_eq dest!: in_set_takeD in_set_dropD split: prod.splits)
    moreover have "aj_last (entry_job e) = map_option deploymentOf (je_latest e)" for e
      by (simp add: entry_job_def jobOf_def orphanJob_def split: listed_job.split)
    ultimately show ?thesis
      using page(2) Jobs jobEntries_readable by (fastforce simp: can_read_def deploymentOf_def)
  qed simp_all
qed

lemma limit_length: "0 \<le> n \<Longrightarrow> length (limit_rows n xs) \<le> nat n"
  by (simp add: limit_rows_def)

lemma ListDeployments_length: "ListDeployments te q s = Inr (rows, m) \<Longrightarrow> length rows \<le> nat (q_limit q)"
  by (auto simp: ListDeployments_def Let_def split: if_splits)

lemma pageDeployments_length: "pageDeployments te q n c s = Inr (rows, p) \<Longrightarrow> length rows \<le> nat n"
  by (auto simp: pageDeployments_def Let_def bindE_Inr split: option.splits if_splits dest!: older_page_rows
      ListDeployments_length)

text \<open>
  The parameters of a list are checked before the database is read: a request for the
  deployments is refused as the caller's mistake exactly when they do not parse, otherwise it is
  always answered, never with an error of the server, and with at most a hundred rows.
\<close>

theorem list_parameters_suffice:
  "(apiListDeployments rd sub v s = ReadError 400 \<longleftrightarrow>
      \<not> is_ok (parseList (rd_cursor rd) (rd_bound rd) v DeploymentList)) \<and>
   (apiListDeployments rd sub v s = ReadError 400 \<or>
      (\<exists>ds t. apiListDeployments rd sub v s = Deployments ds t \<and> length ds \<le> 100))"
proof (cases "parseList (rd_cursor rd) (rd_bound rd) v DeploymentList")
  case (Inr q)
  let ?page = "pageDeployments (rd_text rd) (query_of q (scope_of (su_acl sub) ''read'')) (lq_per_page q) (lq_cursor q) s"
  have "is_ok ?page" by (rule pageDeployments_total [OF query_of_valid [OF Inr]])
  then obtain rows p where page: "?page = Inr (rows, p)"
    by (cases ?page) auto
  have "lq_per_page q \<le> 100" using parseList_fields(1) [OF Inr] by (auto simp: perPages_def)
  with pageDeployments_length [OF page] have "length rows \<le> 100" by linarith
  with Inr page show ?thesis by (simp add: apiListDeployments_def)
qed (simp add: apiListDeployments_def)



section \<open>What a list leaks\<close>

lemma filter_through: "(\<And>d. d \<in> set xs \<Longrightarrow> Q d \<Longrightarrow> R d) \<Longrightarrow> filter Q xs = filter Q (filter R xs)"
  by (auto intro: filter_cong simp: filter_filter)

lemma same_filter:
  "filter R xs = filter R ys \<Longrightarrow> (\<And>d. d \<in> set xs \<union> set ys \<Longrightarrow> Q d \<Longrightarrow> R d) \<Longrightarrow> filter Q xs = filter Q ys"
  using filter_through [of xs Q R] filter_through [of ys Q R] by simp

text \<open>Two databases are the same to a reader when the rows in the namespaces it can read are.\<close>

definition same_readable :: "subject \<Rightarrow> store \<Rightarrow> store \<Rightarrow> bool" where
  "same_readable sub s t = (filter (\<lambda>d. can_read sub (d_namespace d)) (deployments s) =
     filter (\<lambda>d. can_read sub (d_namespace d)) (deployments t))"

lemma same_latest:
  assumes "same_readable sub s t"
  shows "latestByJob sub s = latestByJob sub t"
proof -
  let ?R = "\<lambda>d. can_read sub (d_namespace d)"
  have jobs: "filter (of_job ns j) (deployments s) = filter (of_job ns j) (deployments t)" if "can_read sub ns" for ns j
    by (rule same_filter [OF assms [unfolded same_readable_def]]) (use that in \<open>auto simp: of_job_def\<close>)
  define N :: "store \<Rightarrow> deployment \<Rightarrow> bool" where "N u d = (map_option d_id (newest (filter (of_job (d_namespace d) (d_job_id d)) (deployments u))) = Some (d_id d))" for u d
  have NN: "?R d \<Longrightarrow> N s d = N t d" for d by (simp add: N_def jobs)
  have "filter (\<lambda>d. N s d \<and> ?R d) (deployments s) = filter (\<lambda>d. N t d \<and> ?R d) (deployments s)"
    by (rule filter_cong) (auto simp: NN)
  also have "\<dots> = filter (\<lambda>d. N t d \<and> ?R d) (deployments t)"
    by (rule same_filter [OF assms [unfolded same_readable_def]]) simp
  finally have "filter ?R (LatestPerJob s) = filter ?R (LatestPerJob t)"
    by (simp add: LatestPerJob_def N_def filter_sort conj_commute)
  then show ?thesis by (simp add: latestByJob_def)
qed

lemma scope_readable:
  assumes "requireToken env c r a = Handled sub" "CHR ''/'' \<notin> set (d_namespace d)"
    "query_matches te (query_of q (scope_of (su_acl sub) ''read'')) d"
  shows "can_read sub (d_namespace d)"
  using scope_read [OF assms(1,2)] assms(3) by (auto simp: query_matches_def query_of_def can_read_def)

lemma ListDeployments_same:
  assumes "filter (query_matches te q) (deployments s) = filter (query_matches te q) (deployments t)"
  shows "ListDeployments te q s = ListDeployments te q t"
proof -
  have "filter (\<lambda>d. query_matches te q d \<and> past_position q d) (deployments s) =
      filter (\<lambda>d. query_matches te q d \<and> past_position q d) (deployments t)"
    by (rule same_filter [OF assms]) simp
  then show ?thesis by (simp add: ListDeployments_def)
qed

lemma pageDeployments_same:
  assumes "filter (query_matches te q) (deployments s) = filter (query_matches te q) (deployments t)"
  shows "pageDeployments te q n c s = pageDeployments te q n c t"
proof -
  have same: "ListDeployments te q' s = ListDeployments te q' t" if "query_matches te q' = query_matches te q" for q'
    by (rule ListDeployments_same) (simp only: assms that)
  have older: "older_page te q' c' s = older_page te q' c' t" if "query_matches te q' = query_matches te q" for q' c'
    by (simp only: older_page_def same [OF that])
  have upd: "query_matches te (q\<lparr>q_limit := l\<rparr>) = query_matches te q"
    "query_matches te (q\<lparr>q_limit := l, q_after := x, q_newer := b\<rparr>) = query_matches te q"
    "query_matches te (q\<lparr>q_limit := l, q_after := x\<rparr>) = query_matches te q" for l x b
    by (rule ext, simp)+
  show ?thesis
  proof (cases c)
    case None
    then show ?thesis by (simp add: pageDeployments_def Let_def older [OF upd(1)])
  next
    case (Some cu)
    then show ?thesis by (simp add: pageDeployments_def Let_def same [OF upd(2)] older [OF upd(2)] older [OF upd(3)] cong: if_cong)
  qed
qed

text \<open>
  Claim C28. A list over the API tells a token nothing of what it may not read: two states of the
  program that agree on the deployments, the jobs and the orphans of the namespaces the token reads
  give it the same lists, whatever filters and pages it asks for, whatever else they hold.
\<close>

theorem lists_leak_nothing:
  assumes "requireToken env c r a = Handled sub"
    and "\<forall>d\<in>set (deployments s) \<union> set (deployments t). CHR ''/'' \<notin> set (d_namespace d)"
    and "same_readable sub s t"
    and "filter (\<lambda>ob. can_read sub (ob_namespace ob)) obs = filter (\<lambda>ob. can_read sub (ob_namespace ob)) obs'"
    and "filter (\<lambda>x. can_read sub (or_namespace x)) orphans = filter (\<lambda>x. can_read sub (or_namespace x)) orphans'"
  shows "apiListDeployments rd sub v s = apiListDeployments rd sub v t \<and>
    apiListJobs rd sub v obs orphans s = apiListJobs rd sub v obs' orphans' t"
proof
  have "filter (query_matches te (query_of q (scope_of (su_acl sub) ''read''))) (deployments s) =
      filter (query_matches te (query_of q (scope_of (su_acl sub) ''read''))) (deployments t)" for te q
    by (rule same_filter [OF assms(3) [unfolded same_readable_def]]) (use assms(1,2) scope_readable in blast)
  from pageDeployments_same [OF this] show "apiListDeployments rd sub v s = apiListDeployments rd sub v t"
    by (simp add: apiListDeployments_def split: sum.split)
  have "jobEntries sub obs orphans s = jobEntries sub obs' orphans' t"
    by (simp add: jobEntries_def Let_def assms(4,5) same_latest [OF assms(3)])
  then show "apiListJobs rd sub v obs orphans s = apiListJobs rd sub v obs' orphans' t"
    by (simp only: apiListJobs_def)
qed

section \<open>Samples\<close>

text \<open>A client token whose policy was deleted reads nothing.\<close>

definition bare_access :: access where
  "bare_access = dev_access\<lparr>ac_policies := []\<rparr>"

definition as_C :: subject where
  "as_C = \<lparr>su_actor = ''ci'', su_accessor = ''C'', su_identity = [], su_token = Some tok_C,
     su_acl = new_acl [], su_session_secret = []\<rparr>"

lemma C_requests: "requireToken Access.sample_env (at_time 5 []) (bearer_request ''bearer c'') bare_access = Handled as_C"
proof -
  have "bearer (bearer_request ''bearer c'') = Some ''c''" by code_simp
  moreover have "tokenSubject Access.sample_env (at_time 5 []) ''c'' bare_access = Inr as_C"
    by (simp add: tokenSubject_def Access.sample_env_def ACLTokenBySecret_def bare_access_def dev_access_def empty_access_def
        tok_C_def expired_def load_policies_def as_C_def clientACL_def ACLPolicy_def)
  ultimately show ?thesis by (simp add: requireToken_def)
qed

lemma C_reads_nothing: "\<not> can_read as_C ns"
  by (simp add: can_read_def as_C_def allow_def new_acl_def acl_rules_def)

definition sample_read :: read_env where
  "sample_read = \<lparr>rd_text = no_text, rd_cursor = sample_text, rd_bound = \<lparr>be_date = (\<lambda>_. None), be_time = (\<lambda>_. None)\<rparr>,
     rd_json = (\<lambda>_. True)\<rparr>"

theorem lists_leak_nothing_witness:
  "apiListDeployments sample_read as_C Map.empty pending_store = apiListDeployments sample_read as_C Map.empty empty_store"
  using lists_leak_nothing [OF C_requests, of pending_store empty_store "[]" "[]" "[]" "[]" sample_read Map.empty]
  by (simp add: same_readable_def C_reads_nothing pending_rows empty_store_def)

theorem lists_show_only_readable_witness:
  "case apiListDeployments sample_read as_A Map.empty pending_store of Deployments ds _ \<Rightarrow>
     (\<forall>d\<in>set ds. allow (su_acl as_A) (ad_namespace d) ''read'') | _ \<Rightarrow> True"
  using lists_show_only_readable [OF A_requests, of pending_store sample_read Map.empty "[]" "[]"]
  by (simp add: pending_rows)

end
