(* ===== verification/Utf8.thy ===== *)
theory Utf8
  imports GoText
begin

text \<open>
  Texts in UTF-8 cut between characters: where a text may be split so that both parts are UTF-8.
\<close>

text \<open>\<open>utf8.RuneStart\<close>.\<close>

definition rune_start :: "char \<Rightarrow> bool" where
  "rune_start c = (\<not> (0x80 \<le> byte c \<and> byte c \<le> 0xBF))"

text \<open>A text in UTF-8: every byte is of a character.\<close>

definition utf8 :: "string \<Rightarrow> bool" where
  "utf8 s = (concat (runes s) = s)"

text \<open>The bytes of a character after its first are no starts of one.\<close>

lemma cont_bytes_not_start: "cont_bytes n xs \<Longrightarrow> i < n \<Longrightarrow> \<not> rune_start (xs ! i)"
  by (auto simp: cont_bytes_def rune_start_def list_all_length)

lemma rune_inner:
  assumes "0 < i" "i < rune_size s"
  shows "\<not> rune_start (s ! i)"
proof (cases s)
  case (Cons x xs)
  obtain j where i: "i = Suc j" using assms(1) by (cases i) auto
  have inner: "cont_bytes n xs \<Longrightarrow> j < n \<Longrightarrow> \<not> rune_start (s ! i)" for n
    using cont_bytes_not_start [of n xs j] by (simp add: Cons i)
  show ?thesis
    by (rule rune_size_cases [of x xs]; use assms inner in \<open>simp add: Cons i del: rune_size.simps\<close>)
qed (use assms in simp)

lemma first_rune_of_utf8:
  assumes "utf8 s" "s \<noteq> []"
  shows "first_rune s = take (rune_size s) s" "utf8 (drop (rune_size s) s)"
proof -
  have c: "first_rune s @ concat (runes (drop (rune_size s) s)) = s"
    using assms by (simp add: utf8_def runes.simps [of s])
  show f: "first_rune s = take (rune_size s) s"
  proof (rule ccontr)
    assume "first_rune s \<noteq> take (rune_size s) s"
    then have "first_rune s = replacement" "rune_size s = 1" by (auto simp: first_rune_def split: if_splits)
    moreover from this c have "s = replacement @ concat (runes (drop 1 s))" by simp
    then have "rune_size s = 3" by (metis good_first_rune good_rune_def assms(2) \<open>first_rune s = replacement\<close>
        length_Cons list.size(3) numeral_3_eq_3 replacement_def)
    ultimately show False by simp
  qed
  have "take (rune_size s) s @ concat (runes (drop (rune_size s) s)) = take (rune_size s) s @ drop (rune_size s) s"
    using c by (simp add: f)
  then show "utf8 (drop (rune_size s) s)" unfolding utf8_def by (simp only: append_same_eq same_append_eq)
qed

text \<open>In UTF-8 a start of a character, or the end, splits the text in two.\<close>

lemma utf8_split:
  "utf8 s \<Longrightarrow> k < length s \<Longrightarrow> rune_start (s ! k) \<Longrightarrow> utf8 (take k s)"
proof (induction s arbitrary: k rule: runes.induct)
  case (1 s)
  show ?case
  proof (cases "s = [] \<or> k = 0")
    case True
    then show ?thesis by (auto simp: utf8_def)
  next
    case False
    let ?n = "rune_size s"
    note f = first_rune_of_utf8 [OF "1.prems"(1)]
    have nk: "?n \<le> k" using rune_inner [of k s] "1.prems"(3) False by force
    have n: "0 < ?n" "?n \<le> length s" using False rune_size_pos rune_size_length [of s] by (cases s; auto)+
    have "utf8 (take (k - ?n) (drop ?n s))"
      using "1.IH" [of "k - ?n"] "1.prems" False f(2) nk by simp
    moreover have s: "take k s = take ?n s @ take (k - ?n) (drop ?n s)"
      using nk by (metis le_add_diff_inverse take_add)
    moreover have good: "good_rune (take ?n s)" using good_first_rune [of s] f(1) False by simp
    then have "rune_size (take k s) = ?n" using s n by (auto simp: good_rune_def)
    moreover have "first_rune (take k s) = take ?n s"
      using f(1) False nk n good s
      by (auto simp: first_rune_def calculation(3) hd_append good_rune_def split: if_splits)
    moreover have "drop ?n (take k s) = take (k - ?n) (drop ?n s)" by (simp add: drop_take)
    ultimately show ?thesis
      using False n by (simp add: utf8_def runes.simps [of "take k s"] flip: s)
  qed
qed

lemma utf8_append: "utf8 s \<Longrightarrow> utf8 t \<Longrightarrow> utf8 (s @ t)"
proof (induction s rule: runes.induct)
  case (1 s)
  show ?case
  proof (cases "s = []")
    case False
    let ?n = "rune_size s"
    note f = first_rune_of_utf8 [OF "1.prems"(1) False]
    have n: "0 < ?n" "?n \<le> length s" using False rune_size_pos rune_size_length [of s] by (cases s; auto)+
    have good: "good_rune (take ?n s)" using good_first_rune [of s] f(1) False by simp
    have split: "s @ t = take ?n s @ (drop ?n s @ t)" by simp
    have size: "rune_size (s @ t) = ?n" using good n by (subst split) (simp add: good_rune_def)
    have "first_rune (s @ t) = take ?n s"
      using good n size False by (auto simp: first_rune_def good_rune_def hd_append)
    moreover have "drop ?n (s @ t) = drop ?n s @ t" using n by simp
    ultimately show ?thesis
      using "1.IH" [OF False f(2) "1.prems"(2)] False size
      by (simp add: utf8_def runes.simps [of "s @ t"])
  qed (use 1 in simp)
qed

lemma utf8_ellipsis: "utf8 ellipsis"
  by (simp add: utf8_def runes.simps [of "_ # _"] first_rune_def ellipsis_def Let_def cont_bytes_def)

end
