(* ===== verification/Notify.thy ===== *)
theory Notify
  imports NomadDiff EngineState Utf8
begin

text \<open>
  The notifications (\<open>internal/notify\<close>, with \<open>internal/nomadx/links.go\<close> and \<open>ParseDiff\<close>): the event made
  of a deployment or of a pause, the title, lead, facts and links every adapter shows, the request of
  each adapter, and the delivery to all of them.

  A body in JSON is its tree; the encoder, the decoder of a diff and the text of a time are in the
  record \<open>notify_env\<close>. What a request meets is an argument of the delivery. The texts are bytes, so
  the characters outside ASCII are spelled out.
\<close>

section \<open>Events\<close>

record notice =
  ne_event :: string
  ne_deployment :: string
  ne_job :: string
  ne_namespace :: string
  ne_state :: string
  ne_waiting :: string
  ne_phase :: string
  ne_policy :: string
  ne_approved_by :: string
  ne_error :: string
  ne_repository :: string
  ne_commit :: string
  ne_subject :: string
  ne_author :: string
  ne_commit_url :: string
  ne_url :: string
  ne_nomad_url :: string
  ne_retry_of :: string
  ne_deployed_now_by :: string
  ne_changes :: string
  ne_actor :: string
  ne_reason :: string
  ne_time :: time
  ne_logo :: string

definition EventDeployment :: string where "EventDeployment = ''deployment''"

definition EventPaused :: string where "EventPaused = ''paused''"

definition EventResumed :: string where "EventResumed = ''resumed''"

definition pauseEvent :: "notice \<Rightarrow> bool" where
  "pauseEvent e = (ne_event e = EventPaused \<or> ne_event e = EventResumed)"

definition WaitingCanaryPromotion :: string where
  "WaitingCanaryPromotion = ''canary_promotion''"

section \<open>The parts of a message\<close>

definition leadMax :: nat where "leadMax = 200"

definition phaseLabels :: "string \<rightharpoonup> string" where
  "phaseLabels = [''detection'' \<mapsto> ''detection'', ''pre'' \<mapsto> ''the pre-hook'', ''apply'' \<mapsto> ''the apply'',
     ''post'' \<mapsto> ''the post-hook'']"

definition emoji :: "notice \<Rightarrow> string" where
  "emoji e =
     (if ne_event e = EventPaused then [CHR 0xE2, CHR 0x8F, CHR 0xB8]
      else if ne_event e = EventResumed then [CHR 0xE2, CHR 0x96, CHR 0xB6, CHR 0xEF, CHR 0xB8, CHR 0x8F]
      else if ne_waiting e = WaitingCanaryPromotion then [CHR 0xF0, CHR 0x9F, CHR 0x90, CHR 0xA4]
      else if ne_state e = state_str PendingApproval then [CHR 0xE2, CHR 0x8F, CHR 0xB3]
      else if ne_state e = state_str Failed then [CHR 0xE2, CHR 0x9D, CHR 0x8C]
      else if ne_state e = state_str Completed then [CHR 0xE2, CHR 0x9C, CHR 0x85]
      else [])"

definition headline :: "notice \<Rightarrow> string" where
  "headline e =
     (if ne_event e = EventPaused then ''Nops paused''
      else if ne_event e = EventResumed then ''Nops resumed''
      else if ne_waiting e = WaitingCanaryPromotion then ne_job e @ '' canaries need promotion''
      else if ne_state e = state_str PendingApproval then ne_job e @ '' needs approval''
      else if ne_state e = state_str Failed then
        (case phaseLabels (ne_phase e) of Some label \<Rightarrow> ne_job e @ '' failed in '' @ label | None \<Rightarrow> ne_job e @ '' failed'')
      else if ne_state e = state_str Completed then ne_job e @ '' completed''
      else ne_job e @ '' '' @ ne_state e)"

definition title :: "notice \<Rightarrow> string" where
  "title e = (if emoji e \<noteq> [] then emoji e @ '' '' @ headline e else headline e)"

text \<open>The middle dot between the parts of a line.\<close>

definition mid_dot :: string where
  "mid_dot = [CHR '' '', CHR 0xC2, CHR 0xB7, CHR '' '']"

definition commitLead :: "notice \<Rightarrow> string" where
  "commitLead e = join_with mid_dot (filter (\<lambda>p. p \<noteq> []) [ne_subject e, ne_author e])"

definition shortCommit :: "string \<Rightarrow> string" where
  "shortCommit sha = (if 12 < length sha then take 12 sha else sha)"

definition truncate_runes :: "string \<Rightarrow> nat \<Rightarrow> string" where
  "truncate_runes s n = (let r = runes s in if length r \<le> n then s else concat (take (n - 1) r) @ ellipsis)"

definition lead :: "notice \<Rightarrow> string" where
  "lead e =
     (if ne_event e = EventPaused then
        (if ne_reason e \<noteq> [] then truncate_runes (ne_reason e) leadMax else ''no job is deployed until it is resumed'')
      else if ne_event e = EventResumed then ''jobs are planned again from git''
      else if ne_waiting e = WaitingCanaryPromotion then ''promote them in Nomad''
      else if ne_state e = state_str Failed then
        truncate_runes (trim_space (fst (cut_at (CHR 0x0A) (trim_space (ne_error e))))) leadMax
      else if ne_state e = state_str PendingApproval \<or> ne_state e = state_str Completed then
        (if commitLead e \<noteq> [] then truncate_runes (commitLead e) leadMax else shortCommit (ne_commit e))
      else [])"

definition commitDetail :: "notice \<Rightarrow> string" where
  "commitDetail e = (if commitLead e \<noteq> lead e then commitLead e else [])"

definition orDash :: "string \<Rightarrow> string" where
  "orDash s = (if s = [] then ''-'' else s)"

definition facts :: "notice \<Rightarrow> (string \<times> string) list" where
  "facts e = (if pauseEvent e then [(''By'', orDash (ne_actor e))]
     else (''Namespace'', orDash (ne_namespace e)) # filter (\<lambda>f. snd f \<noteq> [])
       [(''Policy'', ne_policy e), (''Approved by'', ne_approved_by e), (''Retry of'', ne_retry_of e),
        (''Deployed now by'', ne_deployed_now_by e)])"

definition links :: "notice \<Rightarrow> (string \<times> string) list" where
  "links e = filter (\<lambda>l. snd l \<noteq> [])
     [(''Open in Nops'', ne_url e), (''Commit'', ne_commit_url e), (''Open in Nomad'', ne_nomad_url e)]"

text \<open>A line feed.\<close>

definition newline :: string where
  "newline = [CHR 0x0A]"

definition notice_text :: "notice \<Rightarrow> bool \<Rightarrow> string" where
  "notice_text e with_links = join_with newline
     ((if lead e \<noteq> [] then [lead e] else []) @
      (if pauseEvent e then []
       else [''Commit: '' @ orDash (shortCommit (ne_commit e)) @
         (if commitDetail e \<noteq> [] then '' '' @ commitDetail e else [])]) @
      [join_with mid_dot (map (\<lambda>(n, v). n @ '': '' @ v) (facts e))] @
      (if ne_error e \<noteq> [] \<and> ne_error e \<noteq> lead e then [''Error: '' @ ne_error e] else []) @
      (if ne_changes e \<noteq> [] then [ne_changes e] else []) @
      (if with_links then map (\<lambda>(n, u). n @ '': '' @ u) (links e) else []))"

text \<open>\<open>truncateBytes\<close>: the cut moves back to the first byte of a character.\<close>

fun cut_back :: "string \<Rightarrow> nat \<Rightarrow> nat" where
  "cut_back s 0 = 0"
| "cut_back s (Suc n) = (if rune_start (s ! Suc n) then Suc n else cut_back s n)"

definition truncate_bytes :: "string \<Rightarrow> nat \<Rightarrow> string" where
  "truncate_bytes s n = (if length s \<le> n then s else take (cut_back s (n - length ellipsis)) s @ ellipsis)"

definition logoURL :: "string \<Rightarrow> string" where
  "logoURL public = (if public = [] then [] else public @ ''/static/logo-192x192.png'')"


section \<open>Requests\<close>

datatype json =
    JString string
  | JNumber int
  | JBool bool
  | JArray "json list"
  | JObject "(string \<times> json) list"

datatype body = JsonBody json | TextBody string

record http_request =
  hr_body :: body
  hr_type :: string
  hr_header :: "(string \<times> string) list"

text \<open>What the formats use of libraries: the encoder, which may refuse, and the text of a time.\<close>

record notify_env =
  nv_marshal_error :: "json \<Rightarrow> string option"
  nv_time :: "time \<Rightarrow> string"
  nv_diff :: "string \<Rightarrow> string + job_diff option"
  nv_commit_url :: "(string \<Rightarrow> string \<Rightarrow> string) option"

definition jsonRequest :: "notify_env \<Rightarrow> json \<Rightarrow> (string \<times> string) list \<Rightarrow> string + http_request" where
  "jsonRequest nv j h = (case nv_marshal_error nv j of Some m \<Rightarrow> Inl m
     | None \<Rightarrow> Inr \<lparr>hr_body = JsonBody j, hr_type = ''application/json'', hr_header = h\<rparr>)"

definition bearer_header :: "string \<Rightarrow> (string \<times> string) list" where
  "bearer_header token = (if token \<noteq> [] then [(''Authorization'', ''Bearer '' @ token)] else [])"

definition omitempty :: "string \<Rightarrow> string \<Rightarrow> (string \<times> json) list" where
  "omitempty k v = (if v = [] then [] else [(k, JString v)])"

text \<open>The body of the generic webhook is the event itself, with its tags.\<close>

definition event_json :: "notify_env \<Rightarrow> notice \<Rightarrow> json" where
  "event_json nv e = JObject
     ([(''event'', JString (ne_event e)), (''deployment_id'', JString (ne_deployment e)), (''job'', JString (ne_job e)),
       (''namespace'', JString (ne_namespace e)), (''state'', JString (ne_state e))] @
      omitempty ''waiting'' (ne_waiting e) @ omitempty ''phase'' (ne_phase e) @ omitempty ''policy'' (ne_policy e) @
      omitempty ''approved_by'' (ne_approved_by e) @ [(''error'', JString (ne_error e))] @
      omitempty ''repository'' (ne_repository e) @ [(''commit'', JString (ne_commit e))] @
      omitempty ''commit_subject'' (ne_subject e) @ omitempty ''commit_author'' (ne_author e) @
      omitempty ''commit_url'' (ne_commit_url e) @ [(''url'', JString (ne_url e))] @
      omitempty ''nomad_url'' (ne_nomad_url e) @ omitempty ''retry_of'' (ne_retry_of e) @
      omitempty ''deployed_now_by'' (ne_deployed_now_by e) @ omitempty ''changes'' (ne_changes e) @
      omitempty ''actor'' (ne_actor e) @ omitempty ''reason'' (ne_reason e) @
      [(''time'', JString (nv_time nv (ne_time e)))])"

definition webhook :: "notify_env \<Rightarrow> string \<Rightarrow> notice \<Rightarrow> string + http_request" where
  "webhook nv token e = jsonRequest nv (event_json nv e) (bearer_header token)"

section \<open>Discord\<close>

definition discordContentMax :: nat where "discordContentMax = 2000"
definition discordTitleMax :: nat where "discordTitleMax = 256"
definition discordDescriptionMax :: nat where "discordDescriptionMax = 4096"
definition discordFieldMax :: nat where "discordFieldMax = 1024"
definition colorFailed :: int where "colorFailed = 0xD03030"
definition colorPending :: int where "colorPending = 0xE0A000"
definition colorCompleted :: int where "colorCompleted = 0x1A7F37"

definition discord_color :: "notice \<Rightarrow> int" where
  "discord_color e = (if ne_event e = EventResumed \<or> ne_state e = state_str Completed then colorCompleted
     else if ne_state e = state_str Failed then colorFailed else colorPending)"

text \<open>A byte of Markdown is kept from its meaning by a backslash.\<close>

definition discord_special :: "char list" where
  "discord_special = [CHR 0x5C, CHR ''*'', CHR ''_'', CHR ''~'', CHR 0x60, CHR ''|'', CHR ''>'', CHR ''['', CHR '']'']"

definition discordEscape :: "string \<Rightarrow> string" where
  "discordEscape s = replace_bytes (\<lambda>c. if c \<in> set discord_special then Some [CHR 0x5C, c] else None) s"

text \<open>The name, the value and whether it is inline.\<close>

type_synonym discord_field = "string \<times> string \<times> bool"

definition quoted_commit :: "notice \<Rightarrow> string" where
  "quoted_commit e = CHR 0x60 # orDash (shortCommit (ne_commit e)) @ [CHR 0x60]"

definition discord_commit :: "notice \<Rightarrow> string" where
  "discord_commit e = (let sha = quoted_commit e;
       linked = (if ne_commit_url e \<noteq> [] then ''['' @ sha @ '']('' @ ne_commit_url e @ '')'' else sha)
     in truncate_runes (trim_space (linked @ '' '' @ discordEscape (commitLead e))) discordFieldMax)"

definition discord_fields :: "notice \<Rightarrow> discord_field list" where
  "discord_fields e =
     (if pauseEvent e then [] else [(''Commit'', discord_commit e, False)]) @
     map (\<lambda>(n, v). (n, truncate_runes (discordEscape v) discordFieldMax, True)) (facts e) @
     (if ne_changes e \<noteq> [] then [(''Changes'', ne_changes e, False)] else []) @
     (if links e \<noteq> [] then [(''Links'',
        truncate_runes (join_with mid_dot (map (\<lambda>(n, u). ''['' @ n @ '']('' @ u @ '')'') (links e))) discordFieldMax, False)]
      else [])"

definition discord_content :: "notice \<Rightarrow> string" where
  "discord_content e = truncate_runes (title e @ (if lead e \<noteq> [] then newline @ lead e else [])) discordContentMax"

definition discord_title :: "notice \<Rightarrow> string" where
  "discord_title e = truncate_runes (title e) discordTitleMax"

definition discord_description :: "notice \<Rightarrow> string" where
  "discord_description e = truncate_runes (ne_error e) discordDescriptionMax"

definition discord_embed :: "notify_env \<Rightarrow> notice \<Rightarrow> json" where
  "discord_embed nv e = JObject
     ([(''title'', JString (discord_title e))] @ omitempty ''description'' (discord_description e) @
      omitempty ''url'' (ne_url e) @
      [(''color'', JNumber (discord_color e)),
       (''fields'', JArray (map (\<lambda>(n, v, i). JObject [(''name'', JString n), (''value'', JString v), (''inline'', JBool i)])
          (discord_fields e))),
       (''timestamp'', JString (nv_time nv (ne_time e)))])"

definition discord :: "notify_env \<Rightarrow> notice \<Rightarrow> string + http_request" where
  "discord nv e = jsonRequest nv (JObject
     ([(''username'', JString ''Nops'')] @ omitempty ''avatar_url'' (ne_logo e) @
      [(''content'', JString (discord_content e)), (''allowed_mentions'', JObject [(''parse'', JArray [])]),
       (''embeds'', JArray [discord_embed nv e])])) []"

section \<open>Slack\<close>

definition slackHeaderMax :: nat where "slackHeaderMax = 150"
definition slackSectionMax :: nat where "slackSectionMax = 3000"

definition slack_entity :: "char \<Rightarrow> string option" where
  "slack_entity c = (if c = CHR 0x26 then Some ''&amp;'' else if c = CHR ''<'' then Some ''&lt;''
     else if c = CHR ''>'' then Some ''&gt;'' else None)"

definition slackEscape :: "string \<Rightarrow> string" where
  "slackEscape s = replace_bytes slack_entity s"

text \<open>The lines of a quotation.\<close>

definition quote_lines :: "string \<Rightarrow> string" where
  "quote_lines s = CHR ''>'' # replace_bytes (\<lambda>c. if c = CHR 0x0A then Some [CHR 0x0A, CHR ''>''] else None) s"

definition mrkdwn :: "string \<Rightarrow> json" where
  "mrkdwn s = JObject [(''type'', JString ''mrkdwn''), (''text'', JString s)]"

text \<open>A block of Slack, its texts before the JSON around them.\<close>

datatype slack_block = Header string | Section string | Facts string | Buttons "(string \<times> string) list"

definition slack_section :: "string \<Rightarrow> slack_block" where
  "slack_section s = Section (truncate_runes s slackSectionMax)"

definition slack_sha :: "notice \<Rightarrow> string" where
  "slack_sha e = (let sha = CHR 0x60 # slackEscape (orDash (shortCommit (ne_commit e))) @ [CHR 0x60] in
     if ne_commit_url e \<noteq> [] then ''<'' @ ne_commit_url e @ ''|'' @ sha @ ''>'' else sha)"

definition slack_facts :: "notice \<Rightarrow> string" where
  "slack_facts e = join_with mid_dot (map (\<lambda>(n, v). n @ '': '' @ slackEscape v) (facts e))"

definition slack_blocks :: "notice \<Rightarrow> slack_block list" where
  "slack_blocks e = [Header (truncate_runes (title e) slackHeaderMax)] @
     (if pauseEvent e then [] else [slack_section (trim_space (slack_sha e @ '' '' @ slackEscape (commitLead e)))]) @
     [Facts (slack_facts e)] @
     (if ne_error e \<noteq> [] then [slack_section (quote_lines (truncate_runes (slackEscape (ne_error e)) (slackSectionMax - 1)))] else []) @
     (if ne_changes e \<noteq> [] then [slack_section (slackEscape (ne_changes e))] else []) @
     (if links e \<noteq> [] then [Buttons (links e)] else [])"

fun block_json :: "slack_block \<Rightarrow> json" where
  "block_json (Header t) = JObject [(''type'', JString ''header''),
     (''text'', JObject [(''type'', JString ''plain_text''), (''text'', JString t), (''emoji'', JBool True)])]"
| "block_json (Section t) = JObject [(''type'', JString ''section''), (''text'', mrkdwn t)]"
| "block_json (Facts t) = JObject [(''type'', JString ''context''), (''elements'', JArray [mrkdwn t])]"
| "block_json (Buttons ls) = JObject [(''type'', JString ''actions''), (''elements'', JArray (map (\<lambda>(n, u).
     JObject [(''type'', JString ''button''), (''text'', JObject [(''type'', JString ''plain_text''), (''text'', JString n)]),
       (''url'', JString u)]) ls))]"

definition slack_text :: "notice \<Rightarrow> string" where
  "slack_text e = ''*'' @ slackEscape (title e) @ ''*'' @
     (if lead e \<noteq> [] then newline @ slackEscape (lead e) else []) @
     (if pauseEvent e then []
      else newline @ ''Commit: '' @ slack_sha e @ (if commitDetail e \<noteq> [] then '' '' @ slackEscape (commitDetail e) else [])) @
     newline @ slack_facts e @
     (if ne_error e \<noteq> [] \<and> ne_error e \<noteq> lead e then newline @ quote_lines (slackEscape (ne_error e)) else []) @
     (if ne_changes e \<noteq> [] then newline @ slackEscape (ne_changes e) else []) @
     (if links e \<noteq> [] then newline @ join_with mid_dot (map (\<lambda>(n, u). ''<'' @ u @ ''|'' @ n @ ''>'') (links e)) else [])"

definition slack :: "notify_env \<Rightarrow> notice \<Rightarrow> string + http_request" where
  "slack nv e = jsonRequest nv
     (JObject [(''text'', JString (slack_text e)), (''blocks'', JArray (map block_json (slack_blocks e)))]) []"

section \<open>ntfy and Gotify\<close>

definition ntfyMessageMax :: nat where "ntfyMessageMax = 4096"

definition ntfyTag :: "notice \<Rightarrow> string" where
  "ntfyTag e =
     (if ne_event e = EventPaused then ''pause_button''
      else if ne_event e = EventResumed then ''arrow_forward''
      else if ne_waiting e = WaitingCanaryPromotion then ''baby_chick''
      else if ne_state e = state_str Failed then ''x''
      else if ne_state e = state_str Completed then ''white_check_mark''
      else ''hourglass_flowing_sand'')"

definition ntfy :: "string \<Rightarrow> notice \<Rightarrow> string + http_request" where
  "ntfy token e = Inr \<lparr>hr_body = TextBody (truncate_bytes (notice_text e False) ntfyMessageMax),
     hr_type = ''text/plain; charset=utf-8'',
     hr_header = [(''Title'', headline e), (''Tags'', ntfyTag e),
         (''Priority'', if ne_state e = state_str Failed then ''4'' else if ne_state e = state_str Completed then ''2'' else ''3'')] @
       (if ne_url e \<noteq> [] then [(''Click'', ne_url e)] else []) @
       (if ne_logo e \<noteq> [] then [(''Icon'', ne_logo e)] else []) @
       (if links e \<noteq> [] then [(''Actions'', join_with ''; '' (map (\<lambda>(n, u). ''view, '' @ n @ '', '' @ u) (links e)))] else []) @
       bearer_header token\<rparr>"

definition gotify :: "notify_env \<Rightarrow> string \<Rightarrow> notice \<Rightarrow> string + http_request" where
  "gotify nv token e = jsonRequest nv (JObject
     ([(''title'', JString (title e)), (''message'', JString (notice_text e True)),
       (''priority'', JNumber (if ne_state e = state_str Failed then 8 else if ne_state e = state_str Completed then 2 else 5))] @
      (if ne_url e \<noteq> [] then [(''extras'', JObject [(''client::notification'',
         JObject [(''click'', JObject [(''url'', JString (ne_url e))])])])] else [])))
     [(''X-Gotify-Key'', token)]"

section \<open>The notifier\<close>

record endpoint =
  ep_url :: string
  ep_token :: string

record notify_options =
  no_webhook :: endpoint
  no_discord :: endpoint
  no_slack :: endpoint
  no_ntfy :: endpoint
  no_gotify :: endpoint
  no_public_url :: string
  no_nomad_ui :: string

text \<open>A sender counts its failures in 64 bits.\<close>

record sender =
  sd_name :: string
  sd_url :: string
  sd_format :: "notice \<Rightarrow> string + http_request"
  sd_failed :: nat

record notifier =
  nt_senders :: "sender list"
  nt_public_url :: string
  nt_nomad_ui :: string

definition add_sender :: "string \<Rightarrow> string \<Rightarrow> (notice \<Rightarrow> string + http_request) \<Rightarrow> sender list" where
  "add_sender name url format = (if url = [] then []
     else [\<lparr>sd_name = name, sd_url = url, sd_format = format, sd_failed = 0\<rparr>])"

definition new_notifier :: "notify_env \<Rightarrow> notify_options \<Rightarrow> notifier" where
  "new_notifier nv o' = \<lparr>nt_senders =
       add_sender ''webhook'' (ep_url (no_webhook o')) (webhook nv (ep_token (no_webhook o'))) @
       add_sender ''discord'' (ep_url (no_discord o')) (discord nv) @
       add_sender ''slack'' (ep_url (no_slack o')) (slack nv) @
       add_sender ''ntfy'' (ep_url (no_ntfy o')) (ntfy (ep_token (no_ntfy o'))) @
       (if ep_url (no_gotify o') = [] then []
        else add_sender ''gotify'' (trim_slashes (ep_url (no_gotify o')) @ ''/message'') (gotify nv (ep_token (no_gotify o')))),
     nt_public_url = trim_slashes (no_public_url o'), nt_nomad_ui = trim_slashes (no_nomad_ui o')\<rparr>"

text \<open>What a request meets: an address that is none, an error of the call, or the status of an answer.\<close>

datatype post_result = BadURL | CallFailed string | Answered nat string

definition send :: "(sender \<Rightarrow> http_request \<Rightarrow> post_result) \<Rightarrow> sender \<Rightarrow> notice \<Rightarrow> string option" where
  "send post sd e = (case sd_format sd e of
       Inl m \<Rightarrow> Some (''build request: '' @ m)
     | Inr r \<Rightarrow> (case post sd r of
           BadURL \<Rightarrow> Some ''build request: invalid URL''
         | CallFailed m \<Rightarrow> Some (''send: '' @ m)
         | Answered n status \<Rightarrow> if n < 200 \<or> 299 < n then Some (''answered '' @ status) else None))"

fun deliver :: "(sender \<Rightarrow> http_request \<Rightarrow> post_result) \<Rightarrow> notice \<Rightarrow> sender list \<Rightarrow> sender list" where
  "deliver post e [] = []"
| "deliver post e (sd # sds) =
     (case send post sd e of None \<Rightarrow> sd | Some _ \<Rightarrow> sd\<lparr>sd_failed := (sd_failed sd + 1) mod 2 ^ 64\<rparr>) # deliver post e sds"

definition Failures :: "notifier \<Rightarrow> (string \<times> nat) list" where
  "Failures n = map (\<lambda>sd. (sd_name sd, sd_failed sd)) (nt_senders n)"

text \<open>\<open>url.PathEscape\<close>.\<close>

definition path_safe :: "char \<Rightarrow> bool" where
  "path_safe c = (between CHR ''a'' CHR ''z'' c \<or> between CHR ''A'' CHR ''Z'' c \<or> between CHR ''0'' CHR ''9'' c \<or>
     c \<in> set ''-_.~$&+:=@'')"

definition upper_hex :: "nat \<Rightarrow> char" where
  "upper_hex d = (if d < 10 then char_of (48 + d) else char_of (55 + d))"

definition path_escape :: "string \<Rightarrow> string" where
  "path_escape s = replace_bytes (\<lambda>c. if path_safe c then None
     else Some [CHR ''%'', upper_hex (byte c div 16), upper_hex (byte c mod 16)]) s"

definition UIJobURL :: "string \<Rightarrow> string \<Rightarrow> string \<Rightarrow> string" where
  "UIJobURL ui ns job = (if ui = [] then [] else ui @ ''/ui/jobs/'' @ path_escape job @ ''@'' @ path_escape ns)"

definition ParseDiff :: "notify_env \<Rightarrow> string \<Rightarrow> string + job_diff option" where
  "ParseDiff nv raw = (if raw = [] then Inr None else case nv_diff nv raw of Inl m \<Rightarrow> Inl (''parse plan diff: '' @ m) | Inr d \<Rightarrow> Inr d)"

definition changes :: "notify_env \<Rightarrow> deployment \<Rightarrow> string" where
  "changes nv d = (case ParseDiff nv (d_plan_diff d) of Inl _ \<Rightarrow> [] | Inr p \<Rightarrow> summary_line (Summarize p))"

definition notice_of :: "notify_env \<Rightarrow> notifier \<Rightarrow> deployment \<Rightarrow> string \<Rightarrow> notice" where
  "notice_of nv n d phase = \<lparr>ne_event = EventDeployment, ne_deployment = d_id d, ne_job = d_job_id d,
     ne_namespace = d_namespace d, ne_state = state_str (d_state d),
     ne_waiting = (if d_state d = Applying \<and> d_promotion_wait_since d \<noteq> None \<and> d_promoted_at d = None
       then WaitingCanaryPromotion else []),
     ne_phase = phase, ne_policy = dpolicy_str (d_policy d), ne_approved_by = d_decided_by d, ne_error = d_error d,
     ne_repository = d_repository d, ne_commit = d_commit_sha d, ne_subject = d_commit_subject d,
     ne_author = d_commit_author d,
     ne_commit_url = (case nv_commit_url nv of None \<Rightarrow> [] | Some f \<Rightarrow> f (d_repository d) (d_commit_sha d)),
     ne_url = (if nt_public_url n = [] then [] else nt_public_url n @ ''/deployments/'' @ path_escape (d_id d)),
     ne_nomad_url = UIJobURL (nt_nomad_ui n) (d_namespace d) (d_job_id d), ne_retry_of = d_retry_of d,
     ne_deployed_now_by = d_window_lifted_by d,
     ne_changes = (if d_state d = PendingApproval then changes nv d else []),
     ne_actor = [], ne_reason = [], ne_time = d_updated_at d, ne_logo = logoURL (nt_public_url n)\<rparr>"

definition notice_of_pause :: "notifier \<Rightarrow> time \<Rightarrow> bool \<Rightarrow> string \<Rightarrow> string \<Rightarrow> notice" where
  "notice_of_pause n now resumed actor reason = \<lparr>ne_event = (if resumed then EventResumed else EventPaused),
     ne_deployment = [], ne_job = [], ne_namespace = [], ne_state = [], ne_waiting = [], ne_phase = [], ne_policy = [],
     ne_approved_by = [], ne_error = [], ne_repository = [], ne_commit = [], ne_subject = [], ne_author = [],
     ne_commit_url = [], ne_url = [], ne_nomad_url = [], ne_retry_of = [], ne_deployed_now_by = [], ne_changes = [],
     ne_actor = actor, ne_reason = reason, ne_time = now, ne_logo = logoURL (nt_public_url n)\<rparr>"

text \<open>\<open>Notify\<close> and \<open>NotifyPause\<close>; nothing is built without an adapter.\<close>

definition notify_deployment :: "notify_env \<Rightarrow> (sender \<Rightarrow> http_request \<Rightarrow> post_result) \<Rightarrow> deployment \<Rightarrow> string \<Rightarrow>
    notifier \<Rightarrow> notifier" where
  "notify_deployment nv post d phase n = (if nt_senders n = [] then n
     else n\<lparr>nt_senders := deliver post (notice_of nv n d phase) (nt_senders n)\<rparr>)"

definition notify_pause :: "(sender \<Rightarrow> http_request \<Rightarrow> post_result) \<Rightarrow> time \<Rightarrow> bool \<Rightarrow> string \<Rightarrow> string \<Rightarrow>
    notifier \<Rightarrow> notifier" where
  "notify_pause post now resumed actor reason n = (if nt_senders n = [] then n
     else n\<lparr>nt_senders := deliver post (notice_of_pause n now resumed actor reason) (nt_senders n)\<rparr>)"


section \<open>Deliveries\<close>

definition counts_failure :: "(sender \<Rightarrow> http_request \<Rightarrow> post_result) \<Rightarrow> notice \<Rightarrow> sender \<Rightarrow> sender" where
  "counts_failure post e sd = sd\<lparr>sd_failed := (if send post sd e = None then sd_failed sd else (sd_failed sd + 1) mod 2 ^ 64)\<rparr>"

lemma deliver_map: "deliver post e sds = map (counts_failure post e) sds"
  by (induction sds) (auto simp: counts_failure_def split: option.splits)

text \<open>
  A failed delivery never keeps another adapter from being tried, nor a notification from
  the next one: whatever becomes of the requests, every configured adapter is sent the event of the
  deployment, in the configured order, with the body it would be sent alone; its count of failures
  goes up exactly when its own delivery failed, and nothing else of the notifier changes.
\<close>

theorem deliveries_independent:
  "notify_deployment nv post d phase n =
     n\<lparr>nt_senders := map (counts_failure post (notice_of nv n d phase)) (nt_senders n)\<rparr> \<and>
   map (\<lambda>sd. (sd_name sd, sd_url sd, sd_format sd)) (nt_senders (notify_deployment nv post d phase n)) =
     map (\<lambda>sd. (sd_name sd, sd_url sd, sd_format sd)) (nt_senders n) \<and>
   Failures (notify_deployment nv post d phase n) =
     map (\<lambda>sd. (sd_name sd, if send post sd (notice_of nv n d phase) = None then sd_failed sd
       else (sd_failed sd + 1) mod 2 ^ 64)) (nt_senders n)"
  by (simp add: notify_deployment_def deliver_map counts_failure_def Failures_def o_def)

section \<open>Sizes\<close>

lemma rune_count_truncate: "0 < n \<Longrightarrow> rune_count (truncate_runes s n) \<le> n"
proof (cases "length (runes s) \<le> n")
  case True
  then show ?thesis by (simp add: truncate_runes_def Let_def length_runes)
next
  case False
  assume "0 < n"
  have "list_all good_rune (take (n - 1) (runes s) @ [ellipsis])"
    by (auto simp: list_all_iff good_ellipsis dest!: in_set_takeD good_runes)
  then have "rune_count (concat (take (n - 1) (runes s) @ [ellipsis])) = length (take (n - 1) (runes s) @ [ellipsis])"
    by (rule good_rune_count)
  with False \<open>0 < n\<close> show ?thesis by (simp add: truncate_runes_def Let_def)
qed

lemma length_cut_back: "cut_back s n \<le> n"
  by (induction s n rule: cut_back.induct) auto

lemma length_truncate_bytes: "3 \<le> n \<Longrightarrow> length (truncate_bytes s n) \<le> n"
  using length_cut_back [of s "n - length ellipsis"]
  by (auto simp: truncate_bytes_def ellipsis_def)

lemma utf8_cut_back:
  assumes "utf8 s" "n < length s"
  shows "utf8 (take (cut_back s n) s)"
  using assms
proof (induction s n rule: cut_back.induct)
  case (2 s n)
  then show ?case using utf8_split [of s "Suc n"] by simp
qed (simp add: utf8_def)

lemma utf8_truncate_bytes: "utf8 s \<Longrightarrow> utf8 (truncate_bytes s n)"
  by (auto simp: truncate_bytes_def ellipsis_def [symmetric] intro!: utf8_append utf8_cut_back utf8_ellipsis)

text \<open>
  What is sent fits what its receiver takes: on Discord the content, the title, the
  description and every field but the changes, on Slack the header and every section, and the message
  of ntfy, whatever the deployment holds. A message of ntfy cut short is still UTF-8.
\<close>

theorem messages_fit:
  "rune_count (discord_content e) \<le> 2000 \<and> rune_count (discord_title e) \<le> 256 \<and>
   rune_count (discord_description e) \<le> 4096 \<and>
   (\<forall>(n, v, i)\<in>set (discord_fields e). n = ''Changes'' \<or> rune_count v \<le> 1024) \<and>
   (\<forall>b\<in>set (slack_blocks e). case b of Header t \<Rightarrow> rune_count t \<le> 150 | Section t \<Rightarrow> rune_count t \<le> 3000 | _ \<Rightarrow> True) \<and>
   length (truncate_bytes (notice_text e False) ntfyMessageMax) \<le> 4096 \<and>
   (utf8 (notice_text e False) \<longrightarrow> utf8 (truncate_bytes (notice_text e False) ntfyMessageMax))"
proof (intro conjI)
  show "rune_count (discord_content e) \<le> 2000"
    using rune_count_truncate [of 2000] by (simp add: discord_content_def discordContentMax_def)
  show "rune_count (discord_title e) \<le> 256"
    using rune_count_truncate [of 256] by (simp add: discord_title_def discordTitleMax_def)
  show "rune_count (discord_description e) \<le> 4096"
    using rune_count_truncate [of 4096] by (simp add: discord_description_def discordDescriptionMax_def)
  have f: "rune_count (truncate_runes s discordFieldMax) \<le> 1024" for s
    using rune_count_truncate [of 1024] by (simp add: discordFieldMax_def)
  then show "\<forall>(n, v, i)\<in>set (discord_fields e). n = ''Changes'' \<or> rune_count v \<le> 1024"
    by (auto simp: discord_fields_def discord_commit_def Let_def split: if_splits)
  have sec: "rune_count (truncate_runes s slackSectionMax) \<le> 3000" for s
    using rune_count_truncate [of 3000] by (simp add: slackSectionMax_def)
  have "rune_count (truncate_runes (title e) slackHeaderMax) \<le> 150"
    using rune_count_truncate [of 150] by (simp add: slackHeaderMax_def)
  with sec show "\<forall>b\<in>set (slack_blocks e). case b of Header t \<Rightarrow> rune_count t \<le> 150 | Section t \<Rightarrow> rune_count t \<le> 3000
      | _ \<Rightarrow> True"
    by (auto simp: slack_blocks_def slack_section_def split: if_splits)
  show "length (truncate_bytes (notice_text e False) ntfyMessageMax) \<le> 4096"
    using length_truncate_bytes [of 4096] by (simp add: ntfyMessageMax_def)
qed (simp add: utf8_truncate_bytes)

section \<open>Escapes\<close>

text \<open>What Slack shows of a text: its three entities are the characters they stand for.\<close>

fun slack_reads :: "string \<Rightarrow> string" where
  "slack_reads [] = []"
| "slack_reads (c # s) =
     (if c = CHR 0x26 then
        (if prefix ''amp;'' s then CHR 0x26 # slack_reads (drop 4 s)
         else if prefix ''lt;'' s then CHR ''<'' # slack_reads (drop 3 s)
         else if prefix ''gt;'' s then CHR ''>'' # slack_reads (drop 3 s)
         else c # slack_reads s)
      else c # slack_reads s)"

text \<open>
  A text of the repository or of Nomad cannot make a link, a mention or a quotation in
  Slack: the escaped text holds neither bracket, and Slack shows it as it was.
\<close>

theorem slack_escape_round_trip:
  "slack_reads (slackEscape s) = s \<and> CHR ''<'' \<notin> set (slackEscape s) \<and> CHR ''>'' \<notin> set (slackEscape s)"
  by (induction s) (simp_all add: slackEscape_def replace_bytes_def slack_entity_def)


section \<open>Samples\<close>

definition sample_notify :: notify_env where
  "sample_notify = \<lparr>nv_marshal_error = (\<lambda>_. None), nv_time = (\<lambda>_. []), nv_diff = (\<lambda>_. Inr None), nv_commit_url = None\<rparr>"

definition no_endpoint :: endpoint where
  "no_endpoint = \<lparr>ep_url = [], ep_token = []\<rparr>"

definition sample_notifier :: notifier where
  "sample_notifier = new_notifier sample_notify \<lparr>no_webhook = no_endpoint, no_discord = no_endpoint, no_slack = no_endpoint,
     no_ntfy = \<lparr>ep_url = ''https://ntfy/nops'', ep_token = []\<rparr>, no_gotify = no_endpoint, no_public_url = [], no_nomad_ui = []\<rparr>"

definition failed_notice :: notice where
  "failed_notice = (notice_of_pause sample_notifier 0 False [] [])\<lparr>ne_event := EventDeployment, ne_job := ''api'',
     ne_state := state_str Failed, ne_phase := ''pre'', ne_error := replicate 5000 (CHR ''x'')\<rparr>"

lemma failed_notice_title: "title failed_notice = [CHR 0xE2, CHR 0x9D, CHR 0x8C] @ '' api failed in the pre-hook''"
  by (simp add: failed_notice_def title_def emoji_def headline_def notice_of_pause_def EventDeployment_def EventPaused_def
      EventResumed_def WaitingCanaryPromotion_def state_str_def phaseLabels_def)

theorem messages_fit_witness:
  "length (ne_error failed_notice) = 5000 \<and> rune_count (discord_description failed_notice) \<le> 4096 \<and>
   length (truncate_bytes (notice_text failed_notice False) ntfyMessageMax) \<le> 4096"
  using messages_fit [of failed_notice] by (simp add: failed_notice_def)

end
