(* ===== verification/GitWatch.thy ===== *)
theory GitWatch
  imports Detect GoText
begin

text \<open>
  The repositories (\<open>internal/gitwatch\<close>): the snapshot read from a clone, the polls of a watcher, and
  a group of watchers with the signal they share.

  Git itself is an argument of each poll: what the remote lists, and what a clone holds down to the
  walk over its tree, every part of which may fail. A goroutine is a sequence of steps: the lock of a
  watcher is held for one step, and the signal is sent in a step of its own. The parser of URLs and
  the printer of one are arguments too.
\<close>

section \<open>Job files\<close>

definition jobSuffixes :: "string list" where
  "jobSuffixes = [''.nomad.hcl'', ''.nomad'']"

definition varsSuffix :: string where "varsSuffix = ''.vars.hcl''"

definition jobName :: "string \<Rightarrow> string option" where
  "jobName base = (case find (\<lambda>x. suffix x base) jobSuffixes of None \<Rightarrow> None | Some x \<Rightarrow> Some (trim_suffix x base))"

record watch_options =
  wo_name :: string
  wo_url :: string
  wo_branch :: string
  wo_path :: string
  wo_username :: string
  wo_token :: string

definition repoPath :: "watch_options \<Rightarrow> string \<Rightarrow> string" where
  "repoPath w name = (if wo_path w = [] then name else path_join (wo_path w) name)"

record git_file = job_file +
  gf_vars_path :: string

text \<open>
  A step of the walk: a file of the tree with its content, if it can be read, or the error the walk
  ends with.
\<close>

type_synonym walk = "(string + string \<times> (string + string)) list"

text \<open>
  The loop of \<open>collect\<close>: the job files with the key of each one (its directory and its name without
  the extension), and the vars files by key.
\<close>

fun collect_loop :: "watch_options \<Rightarrow> walk \<Rightarrow> (git_file \<times> string) list \<Rightarrow> (string \<rightharpoonup> string \<times> string) \<Rightarrow>
    string + (git_file \<times> string) list \<times> (string \<rightharpoonup> string \<times> string)" where
  "collect_loop w [] jobs vars = Inr (jobs, vars)"
| "collect_loop w (Inl m # fs) jobs vars = Inl (''walk tree: '' @ m)"
| "collect_loop w (Inr (name, contents) # fs) jobs vars = (case path_split name of (dir, base) \<Rightarrow>
     if suffix varsSuffix base then
       (case contents of Inl m \<Rightarrow> Inl (''read '' @ repoPath w name @ '': '' @ m)
        | Inr x \<Rightarrow> collect_loop w fs jobs (vars(dir @ trim_suffix varsSuffix base \<mapsto> (repoPath w name, x))))
     else (case jobName base of None \<Rightarrow> collect_loop w fs jobs vars
        | Some n \<Rightarrow> (case contents of Inl m \<Rightarrow> Inl (''read '' @ repoPath w name @ '': '' @ m)
            | Inr x \<Rightarrow> collect_loop w fs
                (jobs @ [(\<lparr>fl_path = repoPath w name, fl_content = x, fl_vars = [], gf_vars_path = []\<rparr>, dir @ n)]) vars)))"

definition with_vars :: "(string \<rightharpoonup> string \<times> string) \<Rightarrow> git_file \<times> string \<Rightarrow> git_file" where
  "with_vars vars j = (case j of (f, key) \<Rightarrow> (case vars key of None \<Rightarrow> f
     | Some (p, x) \<Rightarrow> f\<lparr>gf_vars_path := p, fl_vars := x\<rparr>))"

definition collect :: "watch_options \<Rightarrow> walk \<Rightarrow> string + git_file list" where
  "collect w walk = bindE (collect_loop w walk [] Map.empty)
     (\<lambda>(jobs, vars). Inr (sort_key fl_path (map (with_vars vars) jobs)))"

section \<open>A clone\<close>

record git_snapshot =
  gs_repository :: string
  gs_commit :: string
  gs_subject :: string
  gs_author :: string
  gs_committed_at :: time
  gs_files :: "git_file list"

record git_commit =
  gc_message :: string
  gc_author :: string
  gc_when :: time
  gc_tree :: "string + (string \<Rightarrow> string + walk)"

text \<open>The head of a clone and the commit it names; the tree of a commit gives a subtree by its path, the root by the empty one.\<close>

record git_clone =
  gk_head :: "string + string"
  gk_commit :: "string \<Rightarrow> string + git_commit"

definition commit_subject :: "string \<Rightarrow> string" where
  "commit_subject msg = trim_space (fst (cut_at (CHR 0x0A) (trim_space msg)))"

definition wrapE :: "string \<Rightarrow> string + 'a \<Rightarrow> string + 'a" where
  "wrapE p r = (case r of Inl m \<Rightarrow> Inl (p @ m) | Inr x \<Rightarrow> Inr x)"

definition git_fetch :: "watch_options \<Rightarrow> string + git_clone \<Rightarrow> string + git_snapshot" where
  "git_fetch w clone =
     bindE (wrapE ''clone: '' clone) (\<lambda>g.
     bindE (wrapE ''resolve HEAD: '' (gk_head g)) (\<lambda>h.
     bindE (wrapE (''read commit '' @ h @ '': '') (gk_commit g h)) (\<lambda>c.
     bindE (wrapE (''read tree of commit '' @ h @ '': '') (gc_tree c)) (\<lambda>tree.
     bindE (if wo_path w = [] then tree [] else wrapE (''path '' @ go_quote (wo_path w) @ '': '') (tree (wo_path w))) (\<lambda>walk.
     bindE (collect w walk) (\<lambda>files.
       Inr \<lparr>gs_repository = wo_name w, gs_commit = h, gs_subject = commit_subject (gc_message c),
         gs_author = gc_author c, gs_committed_at = gc_when c, gs_files = files\<rparr>))))))"

text \<open>What the engine reads of a snapshot.\<close>

definition engine_snapshot :: "git_snapshot \<Rightarrow> snapshot" where
  "engine_snapshot s = \<lparr>sn_repository = gs_repository s, sn_commit = gs_commit s, sn_subject = gs_subject s,
     sn_author = gs_author s,
     sn_files = map (\<lambda>f. \<lparr>fl_path = fl_path f, fl_content = fl_content f, fl_vars = fl_vars f\<rparr>) (gs_files s)\<rparr>"

section \<open>Polls\<close>

record git_status =
  st_checked_at :: "time option"
  st_error :: string
  st_error_at :: "time option"

text \<open>
  A watcher: its snapshot and status behind the lock, whether a trigger waits, and whether a poll is
  between its write of a new snapshot and the signal of it.
\<close>

record watcher =
  wt_opts :: watch_options
  wt_snap :: git_snapshot
  wt_status :: git_status
  wt_trigger :: bool
  wt_signals :: bool

text \<open>What a poll meets: the references of the remote by name, the clone, and the clock.\<close>

record poll_env =
  pl_refs :: "string + (string \<times> string) list"
  pl_clone :: "string + git_clone"
  pl_now :: time

definition remoteHead :: "watch_options \<Rightarrow> poll_env \<Rightarrow> string + string" where
  "remoteHead w p = bindE (pl_refs p) (\<lambda>refs.
     case find (\<lambda>r. fst r = ''refs/heads/'' @ wo_branch w) refs of Some r \<Rightarrow> Inr (snd r)
     | None \<Rightarrow> Inl (''branch '' @ go_quote (wo_branch w) @ '' not found on the remote''))"

definition no_snapshot :: git_snapshot where
  "no_snapshot = \<lparr>gs_repository = [], gs_commit = [], gs_subject = [], gs_author = [], gs_committed_at = 0, gs_files = []\<rparr>"

definition new_watcher :: "watch_options \<Rightarrow> watcher" where
  "new_watcher w = \<lparr>wt_opts = w, wt_snap = no_snapshot,
     wt_status = \<lparr>st_checked_at = None, st_error = [], st_error_at = None\<rparr>, wt_trigger = False, wt_signals = False\<rparr>"

definition checked :: "time \<Rightarrow> watcher \<Rightarrow> watcher" where
  "checked now w = w\<lparr>wt_status := \<lparr>st_checked_at = Some now, st_error = [], st_error_at = None\<rparr>\<rparr>"

definition poll_failed :: "time \<Rightarrow> string \<Rightarrow> watcher \<Rightarrow> watcher" where
  "poll_failed now m w = w\<lparr>wt_status := (wt_status w)\<lparr>st_error := m, st_error_at := Some now\<rparr>\<rparr>"

definition adopt :: "time \<Rightarrow> git_snapshot \<Rightarrow> watcher \<Rightarrow> watcher" where
  "adopt now s w = (checked now w)\<lparr>wt_snap := s\<rparr>"

definition start_watcher :: "poll_env \<Rightarrow> watcher \<Rightarrow> string + watcher" where
  "start_watcher p w = bindE (wrapE (''gitwatch: initial clone of repository '' @ go_quote (wo_name (wt_opts w)) @ '': '')
     (git_fetch (wt_opts w) (pl_clone p))) (\<lambda>s. Inr (adopt (pl_now p) s w))"

text \<open>\<open>poll\<close>, up to the signal, which \<open>wt_signals\<close> says is still to be sent.\<close>

definition poll :: "poll_env \<Rightarrow> watcher \<Rightarrow> watcher" where
  "poll p w = (case remoteHead (wt_opts w) p of
       Inl m \<Rightarrow> poll_failed (pl_now p) m w
     | Inr h \<Rightarrow> if h = gs_commit (wt_snap w) then checked (pl_now p) w
         else (case git_fetch (wt_opts w) (pl_clone p) of
             Inl m \<Rightarrow> poll_failed (pl_now p) m w
           | Inr s \<Rightarrow> (adopt (pl_now p) s w)\<lparr>wt_signals := True\<rparr>))"

section \<open>Addresses\<close>

text \<open>The parser of URLs and the printer of one.\<close>

record url_env =
  ue_parse :: "string \<Rightarrow> url option"
  ue_print :: "url \<Rightarrow> string"

definition commit_url :: "url_env \<Rightarrow> string \<Rightarrow> string \<Rightarrow> string" where
  "commit_url ue repo sha = (case ue_parse ue repo of None \<Rightarrow> []
     | Some u \<Rightarrow> if (ur_scheme u \<noteq> ''https'' \<and> ur_scheme u \<noteq> ''http'') \<or> ur_host u = [] \<or> sha = [] then []
         else ue_print ue (u\<lparr>ur_user := None, ur_query := [], ur_fragment := [],
           ur_path := trim_suffix ''.git'' (trim_suffix ''/'' (ur_path u)) @ ''/commit/'' @ sha\<rparr>))"

definition after_last_at :: "string \<Rightarrow> string" where
  "after_last_at s = rev (takeWhile (\<lambda>c. c \<noteq> CHR 0x40) (rev s))"

definition StripCredentials :: "url_env \<Rightarrow> string \<Rightarrow> string" where
  "StripCredentials ue repo = (case ue_parse ue repo of
       None \<Rightarrow> after_last_at repo
     | Some u \<Rightarrow> if ur_scheme u = [] then after_last_at repo else ue_print ue (u\<lparr>ur_user := None\<rparr>))"

definition git_auth :: "watch_options \<Rightarrow> (string \<times> string) option" where
  "git_auth w = (if wo_token w = [] then None else Some (wo_username w, wo_token w))"


section \<open>A group and its reader\<close>

text \<open>
  The watchers, the signal they share, and the detection loop: \<open>gg_seen\<close> are the snapshots it read
  last, one after the other, and \<open>gg_reading\<close> the next one to read while a cycle reads them.
\<close>

record git_group =
  gg_watchers :: "watcher list"
  gg_changed :: bool
  gg_seen :: "git_snapshot list"
  gg_reading :: "nat option"

definition Trigger :: "git_group \<Rightarrow> git_group" where
  "Trigger g = g\<lparr>gg_watchers := map (\<lambda>w. w\<lparr>wt_trigger := True\<rparr>) (gg_watchers g)\<rparr>"

definition Snapshots :: "git_group \<Rightarrow> git_snapshot list" where
  "Snapshots g = map wt_snap (gg_watchers g)"

record repo_view =
  rv_name :: string
  rv_url :: string
  rv_snapshot :: git_snapshot
  rv_status :: git_status

definition Repositories :: "url_env \<Rightarrow> git_group \<Rightarrow> repo_view list" where
  "Repositories ue g = map (\<lambda>w. \<lparr>rv_name = wo_name (wt_opts w), rv_url = StripCredentials ue (wo_url (wt_opts w)),
     rv_snapshot = wt_snap w, rv_status = wt_status w\<rparr>) (gg_watchers g)"

definition group_commit_url :: "url_env \<Rightarrow> string \<Rightarrow> string \<Rightarrow> git_group \<Rightarrow> string" where
  "group_commit_url ue repo sha g = (case find (\<lambda>w. wo_name (wt_opts w) = repo) (gg_watchers g) of
     None \<Rightarrow> [] | Some w \<Rightarrow> commit_url ue (wo_url (wt_opts w)) sha)"

text \<open>\<open>Start\<close>: the clones in order, the first failure being the end. The detection loop begins with a cycle.\<close>

fun start_all :: "poll_env list \<Rightarrow> watcher list \<Rightarrow> string + watcher list" where
  "start_all (p # ps) (w # ws) = bindE (start_watcher p w) (\<lambda>w'. bindE (start_all ps ws) (\<lambda>ws'. Inr (w' # ws')))"
| "start_all _ _ = Inr []"

definition group_started :: "git_group \<Rightarrow> bool" where
  "group_started g = ((\<exists>ps os. length ps = length os \<and> start_all ps (map new_watcher os) = Inr (gg_watchers g)) \<and>
     \<not> gg_changed g \<and> length (gg_seen g) = length (gg_watchers g) \<and> gg_reading g = Some 0)"

definition at_watcher :: "nat \<Rightarrow> (watcher \<Rightarrow> watcher) \<Rightarrow> git_group \<Rightarrow> git_group" where
  "at_watcher i f g = g\<lparr>gg_watchers := (gg_watchers g)[i := f (gg_watchers g ! i)]\<rparr>"

text \<open>
  A watcher polls on its tick or on a trigger, one poll after the other; a poll with a new commit
  signals it (\<open>Group.Run\<close>). The detection loop (\<open>RunDetection\<close> of \<open>internal/engine/engine.go\<close>) starts a
  cycle on its own tick or on the signal, and reads the snapshots one by one.
\<close>

inductive group_step :: "git_group \<Rightarrow> git_group \<Rightarrow> bool" where
  step_trigger: "group_step g (Trigger g)"
| step_poll: "i < length (gg_watchers g) \<Longrightarrow> \<not> wt_signals (gg_watchers g ! i) \<Longrightarrow>
    group_step g (at_watcher i (\<lambda>w. poll p (w\<lparr>wt_trigger := t\<rparr>)) g)"
| step_signal: "i < length (gg_watchers g) \<Longrightarrow> wt_signals (gg_watchers g ! i) \<Longrightarrow>
    group_step g ((at_watcher i (\<lambda>w. w\<lparr>wt_signals := False\<rparr>) g)\<lparr>gg_changed := True\<rparr>)"
| step_tick: "gg_reading g = None \<Longrightarrow> group_step g (g\<lparr>gg_reading := Some 0\<rparr>)"
| step_changed: "gg_reading g = None \<Longrightarrow> gg_changed g \<Longrightarrow> group_step g (g\<lparr>gg_changed := False, gg_reading := Some 0\<rparr>)"
| step_read: "gg_reading g = Some k \<Longrightarrow> k < length (gg_watchers g) \<Longrightarrow>
    group_step g (g\<lparr>gg_seen := (gg_seen g)[k := wt_snap (gg_watchers g ! k)], gg_reading := Some (Suc k)\<rparr>)"
| step_done: "gg_reading g = Some k \<Longrightarrow> k = length (gg_watchers g) \<Longrightarrow> group_step g (g\<lparr>gg_reading := None\<rparr>)"

inductive_cases group_stepE: "group_step g h"

text \<open>What a poll does to a watcher, by its outcome.\<close>

lemma poll_cases:
  obtains m where "poll p w = poll_failed (pl_now p) m w"
  | "poll p w = checked (pl_now p) w"
  | s where "git_fetch (wt_opts w) (pl_clone p) = Inr s" "poll p w = (adopt (pl_now p) s w)\<lparr>wt_signals := True\<rparr>"
proof (cases "remoteHead (wt_opts w) p")
  case (Inl m)
  then show thesis using that(1) by (simp add: poll_def)
next
  case (Inr h)
  show thesis
  proof (cases "h = gs_commit (wt_snap w)")
    case True
    then show thesis using that(2) Inr by (simp add: poll_def)
  next
    case False
    then show thesis using that(1,3) Inr by (cases "git_fetch (wt_opts w) (pl_clone p)") (auto simp: poll_def)
  qed
qed

lemma watcher_frames [simp]:
  "wt_snap (poll_failed now m w) = wt_snap w" "wt_opts (poll_failed now m w) = wt_opts w"
  "wt_signals (poll_failed now m w) = wt_signals w" "wt_snap (checked now w) = wt_snap w"
  "wt_opts (checked now w) = wt_opts w" "wt_signals (checked now w) = wt_signals w"
  "wt_snap (adopt now s w) = s" "wt_opts (adopt now s w) = wt_opts w" "wt_signals (adopt now s w) = wt_signals w"
  by (simp_all add: poll_failed_def checked_def adopt_def)

lemma poll_opts [simp]: "wt_opts (poll p w) = wt_opts w"
  by (rule poll_cases [of p w]) auto

lemma poll_snap: "wt_snap (poll p w) \<noteq> wt_snap w \<Longrightarrow> wt_signals (poll p w)"
  by (rule poll_cases [of p w]) auto

lemma poll_signals: "wt_signals w \<Longrightarrow> wt_signals (poll p w)"
  by (rule poll_cases [of p w]) auto

text \<open>Whatever the detection loop has not seen is announced, waiting to be, or still to be read.\<close>

definition announced :: "git_group \<Rightarrow> bool" where
  "announced g = (length (gg_seen g) = length (gg_watchers g) \<and> (\<forall>i<length (gg_watchers g).
     gg_seen g ! i = wt_snap (gg_watchers g ! i) \<or> gg_changed g \<or> wt_signals (gg_watchers g ! i) \<or>
     (\<exists>k. gg_reading g = Some k \<and> k \<le> i)))"

text \<open>Every snapshot is a whole one: read from a clone without an error.\<close>

definition fetched :: "watcher \<Rightarrow> bool" where
  "fetched w = (\<exists>clone. git_fetch (wt_opts w) clone = Inr (wt_snap w))"

definition all_fetched :: "git_group \<Rightarrow> bool" where
  "all_fetched g = (\<forall>w\<in>set (gg_watchers g). fetched w)"

lemma start_all_fetched: "start_all ps ws = Inr ws' \<Longrightarrow> length ps = length ws \<Longrightarrow> \<forall>w\<in>set ws'. fetched w"
proof (induction ps ws arbitrary: ws' rule: start_all.induct)
  case (1 p ps w ws)
  then obtain w1 ws1 where w: "start_watcher p w = Inr w1" "start_all ps ws = Inr ws1" "ws' = w1 # ws1"
    by (auto simp: bindE_Inr)
  have "fetched w1" using w(1) by (auto simp: start_watcher_def bindE_Inr wrapE_def fetched_def split: sum.splits)
  with 1 w show ?case by auto
qed simp_all

lemma poll_fetched: "fetched w \<Longrightarrow> fetched (poll p w)"
  by (rule poll_cases [of p w]) (auto simp: fetched_def)

lemma all_fetched_at: "all_fetched g \<Longrightarrow> fetched (f (gg_watchers g ! i)) \<Longrightarrow> all_fetched (at_watcher i f g)"
  by (auto simp: all_fetched_def at_watcher_def dest: set_update_subset_insert [THEN subsetD])

interpretation group_fetched: inductive_invariant group_started group_step all_fetched
proof
  fix g assume "group_started g"
  then show "all_fetched g" using start_all_fetched by (fastforce simp: group_started_def all_fetched_def)
next
  fix g h assume fg: "all_fetched g" and "group_step g h"
  then show "all_fetched h"
  proof (elim group_stepE)
    fix i p t
    assume i: "i < length (gg_watchers g)" and h: "h = at_watcher i (\<lambda>w. poll p (w\<lparr>wt_trigger := t\<rparr>)) g"
    have "fetched (poll p ((gg_watchers g ! i)\<lparr>wt_trigger := t\<rparr>))"
      by (rule poll_fetched) (use fg i in \<open>auto simp: all_fetched_def fetched_def\<close>)
    with fg show "all_fetched h" by (simp add: h all_fetched_at)
  next
    fix i
    assume i: "i < length (gg_watchers g)" and h: "h = (at_watcher i (\<lambda>w. w\<lparr>wt_signals := False\<rparr>) g)\<lparr>gg_changed := True\<rparr>"
    have "fetched ((gg_watchers g ! i)\<lparr>wt_signals := False\<rparr>)"
      using fg i by (auto simp: all_fetched_def fetched_def)
    with fg show "all_fetched h" using all_fetched_at [of g "\<lambda>w. w\<lparr>wt_signals := False\<rparr>" i] by (simp add: h all_fetched_def)
  qed (auto simp: Trigger_def all_fetched_def fetched_def)
qed

interpretation group_announced: inductive_invariant group_started group_step announced
proof
  fix g assume "group_started g"
  then show "announced g" by (auto simp: group_started_def announced_def)
next
  fix g h assume "announced g" "group_step g h"
  then show "announced h"
  proof (elim group_stepE)
    fix i p t
    assume i: "i < length (gg_watchers g)" and h: "h = at_watcher i (\<lambda>w. poll p (w\<lparr>wt_trigger := t\<rparr>)) g" and a: "announced g"
    let ?w = "gg_watchers g ! i"
    have "wt_snap (poll p (?w\<lparr>wt_trigger := t\<rparr>)) = wt_snap ?w \<or> wt_signals (poll p (?w\<lparr>wt_trigger := t\<rparr>))"
      using poll_snap [of p "?w\<lparr>wt_trigger := t\<rparr>"] by auto
    moreover have "wt_signals ?w \<Longrightarrow> wt_signals (poll p (?w\<lparr>wt_trigger := t\<rparr>))"
      using poll_signals [of "?w\<lparr>wt_trigger := t\<rparr>" p] by simp
    ultimately show "announced h"
      using a i unfolding h announced_def at_watcher_def by (auto simp: nth_list_update)
  next
    fix k
    assume "announced g" "gg_reading g = Some k" "k < length (gg_watchers g)"
      "h = g\<lparr>gg_seen := (gg_seen g)[k := wt_snap (gg_watchers g ! k)], gg_reading := Some (Suc k)\<rparr>"
    then show "announced h"
      unfolding announced_def by (auto simp: nth_list_update Suc_le_eq le_less)
  qed (auto simp: announced_def Trigger_def at_watcher_def nth_list_update)
qed

text \<open>
  Claim C37. No commit is missed: in every order of polls, triggers, signals and reads, whenever no
  signal is waiting or about to be sent and no cycle is reading, the detection loop has read the very
  snapshots the watchers hold; and a snapshot is always a whole one, read without an error from one
  clone, however many polls failed since.
\<close>

theorem no_commit_missed:
  assumes "reach group_started group_step g"
    and "\<not> gg_changed g" "gg_reading g = None" "\<forall>w\<in>set (gg_watchers g). \<not> wt_signals w"
  shows "gg_seen g = Snapshots g \<and> (\<forall>w\<in>set (gg_watchers g). \<exists>clone. git_fetch (wt_opts w) clone = Inr (wt_snap w))"
proof -
  from group_announced.reach_inv [OF assms(1)] assms(2-4) have "gg_seen g = Snapshots g"
    by (intro nth_equalityI) (auto simp: announced_def Snapshots_def)
  moreover from group_fetched.reach_inv [OF assms(1)] have "\<forall>w\<in>set (gg_watchers g). \<exists>clone. git_fetch (wt_opts w) clone = Inr (wt_snap w)"
    by (simp add: all_fetched_def fetched_def)
  ultimately show ?thesis by simp
qed


section \<open>Jobs and their vars files\<close>

lemma path_split_append: "path_split name = (dir, base) \<Longrightarrow> name = dir @ base"
  by (auto simp: path_split_def simp flip: rev_append)

lemma path_split_suffix:
  assumes "CHR ''/'' \<notin> set x"
  shows "path_split (k @ x) = (fst (path_split k), snd (path_split k) @ x)"
  using assms by (simp add: path_split_def takeWhile_append dropWhile_append)

lemma varsSuffix_plain: "CHR ''/'' \<notin> set varsSuffix"
  by (simp add: varsSuffix_def)

lemma trim_suffix_append [simp]: "trim_suffix x (y @ x) = y"
  by (simp add: trim_suffix_def suffix_def)

text \<open>The vars file of a key is the file with the key and the ending for its name.\<close>

lemma vars_key:
  assumes "path_split name = (dir, base)"
  shows "suffix varsSuffix base \<and> dir @ trim_suffix varsSuffix base = k \<longleftrightarrow> name = k @ varsSuffix"
proof
  assume "suffix varsSuffix base \<and> dir @ trim_suffix varsSuffix base = k"
  then show "name = k @ varsSuffix"
    using path_split_append [OF assms] by (auto elim!: suffixE)
next
  assume "name = k @ varsSuffix"
  with assms show "suffix varsSuffix base \<and> dir @ trim_suffix varsSuffix base = k"
    using path_split_suffix [OF varsSuffix_plain, of k] path_split_append [of k]
    by (cases "path_split k") (auto simp: suffix_def)
qed

text \<open>The files of the tree, the key of a job file, and the entry a job file becomes.\<close>

definition tree_file :: "walk \<Rightarrow> string \<Rightarrow> string \<Rightarrow> bool" where
  "tree_file walk name x = (Inr (name, Inr x) \<in> set walk)"

definition job_file_key :: "string \<Rightarrow> string option" where
  "job_file_key name = (case path_split name of (dir, base) \<Rightarrow>
     if suffix varsSuffix base then None else map_option ((@) dir) (jobName base))"

definition tree_names :: "walk \<Rightarrow> string list" where
  "tree_names walk = concat (map (\<lambda>s. case s of Inl _ \<Rightarrow> [] | Inr (name, _) \<Rightarrow> [name]) walk)"

lemma tree_file_name: "tree_file walk name x \<Longrightarrow> name \<in> set (tree_names walk)"
  by (force simp: tree_file_def tree_names_def)

lemma tree_file_Cons:
  "tree_file (Inr (name, contents) # fs) n x \<longleftrightarrow> (n = name \<and> contents = Inr x) \<or> tree_file fs n x"
  by (auto simp: tree_file_def)

lemma collect_loop_jobs:
  "collect_loop w walk jobs vars = Inr (jobs', vars') \<Longrightarrow>
     set jobs' = set jobs \<union> {(\<lparr>fl_path = repoPath w name, fl_content = x, fl_vars = [], gf_vars_path = []\<rparr>, key) | name x key.
       tree_file walk name x \<and> job_file_key name = Some key}"
proof (induction w walk jobs vars arbitrary: jobs' vars' rule: collect_loop.induct)
  case (3 w name contents fs jobs vars)
  obtain dir base where sp: "path_split name = (dir, base)" by (cases "path_split name")
  have jk: "job_file_key name = (if suffix varsSuffix base then None else map_option ((@) dir) (jobName base))"
    by (simp add: job_file_key_def sp)
  show ?case
  proof (cases "suffix varsSuffix base")
    case True
    then obtain y where y: "contents = Inr y" using "3.prems" sp by (cases contents) auto
    have "collect_loop w fs jobs (vars(dir @ trim_suffix varsSuffix base \<mapsto> (repoPath w name, y))) = Inr (jobs', vars')"
      using "3.prems" sp True y by simp
    from "3.IH"(1) [OF sp [symmetric] True y this] show ?thesis by (auto simp: tree_file_Cons jk True)
  next
    case False
    show ?thesis
    proof (cases "jobName base")
      case None
      have "collect_loop w fs jobs vars = Inr (jobs', vars')" using "3.prems" sp False None by simp
      from "3.IH"(2) [OF sp [symmetric] False None this] show ?thesis by (auto simp: tree_file_Cons jk False None)
    next
      case (Some n)
      then obtain y where y: "contents = Inr y" using "3.prems" sp False by (cases contents) auto
      have "collect_loop w fs (jobs @ [(\<lparr>fl_path = repoPath w name, fl_content = y, fl_vars = [], gf_vars_path = []\<rparr>, dir @ n)])
          vars = Inr (jobs', vars')"
        using "3.prems" sp False Some y by simp
      moreover have "job_file_key name = Some (dir @ n)" by (simp add: jk False Some)
      ultimately show ?thesis
        using "3.IH"(3) [OF sp [symmetric] False Some y] by (fastforce simp: tree_file_Cons y)
    qed
  qed
qed (auto simp: tree_file_def)

lemma collect_loop_vars:
  "collect_loop w walk jobs vars = Inr (jobs', vars') \<Longrightarrow> distinct (tree_names walk) \<Longrightarrow>
     (tree_file walk (k @ varsSuffix) x \<longrightarrow> vars' k = Some (repoPath w (k @ varsSuffix), x)) \<and>
     ((\<forall>x. \<not> tree_file walk (k @ varsSuffix) x) \<longrightarrow> vars' k = vars k)"
proof (induction w walk jobs vars arbitrary: jobs' vars' x rule: collect_loop.induct)
  case (3 w name contents fs jobs vars)
  obtain dir base where sp: "path_split name = (dir, base)" by (cases "path_split name")
  have new: "name \<notin> set (tree_names fs)" and dist: "distinct (tree_names fs)"
    using "3.prems"(2) by (auto simp: tree_names_def)
  have other: "tree_file fs name y \<Longrightarrow> False" for y using new tree_file_name by blast
  show ?case
  proof (cases "suffix varsSuffix base")
    case True
    then obtain y where y: "contents = Inr y" using "3.prems"(1) sp by (cases contents) auto
    let ?v = "vars(dir @ trim_suffix varsSuffix base \<mapsto> (repoPath w name, y))"
    have "collect_loop w fs jobs ?v = Inr (jobs', vars')" using "3.prems"(1) sp True y by simp
    from "3.IH"(1) [OF sp [symmetric] True y this dist]
    have ih: "tree_file fs (k @ varsSuffix) x \<longrightarrow> vars' k = Some (repoPath w (k @ varsSuffix), x)"
      "(\<forall>x. \<not> tree_file fs (k @ varsSuffix) x) \<longrightarrow> vars' k = ?v k" for x by blast+
    show ?thesis
    proof (cases "name = k @ varsSuffix")
      case here: True
      then have "vars' k = Some (repoPath w (k @ varsSuffix), y)"
        using ih(2) other vars_key [OF sp, of k] by auto
      with here y other show ?thesis by (auto simp: tree_file_def)
    next
      case False
      then have "dir @ trim_suffix varsSuffix base \<noteq> k" using vars_key [OF sp, of k] True by blast
      with False ih show ?thesis by (auto simp: tree_file_def)
    qed
  next
    case False
    have "name \<noteq> k @ varsSuffix" using vars_key [OF sp, of k] False by blast
    with False 3 sp dist show ?thesis
      by (cases "jobName base") (auto simp: tree_file_def split: sum.splits)
  qed
qed (auto simp: tree_file_def)

lemma with_vars_some: "vars key = Some (p, y) \<Longrightarrow> with_vars vars (f, key) = f\<lparr>gf_vars_path := p, fl_vars := y\<rparr>"
  by (simp add: with_vars_def)

text \<open>
  What a clone is read as: its files are the job files of the tree with their contents, in
  the order of their paths, and a job file has the contents of the one file beside it that has its
  name and ends in \<open>.vars.hcl\<close>, or none. (The names in a tree are distinct.)
\<close>

theorem collect_pairs:
  assumes "collect w walk = Inr files" "distinct (tree_names walk)"
  shows "sorted (map fl_path files) \<and> (\<forall>f. f \<in> set files \<longleftrightarrow>
    (\<exists>name key. tree_file walk name (fl_content f) \<and> job_file_key name = Some key \<and> fl_path f = repoPath w name \<and>
      (if \<exists>y. tree_file walk (key @ varsSuffix) y
       then tree_file walk (key @ varsSuffix) (fl_vars f) \<and> gf_vars_path f = repoPath w (key @ varsSuffix)
       else fl_vars f = [] \<and> gf_vars_path f = [])))"
proof -
  obtain jobs vars where run: "collect_loop w walk [] Map.empty = Inr (jobs, vars)"
    and files: "files = sort_key fl_path (map (with_vars vars) jobs)"
    using assms(1) by (auto simp: collect_def bindE_Inr)
  note jobs = collect_loop_jobs [OF run, simplified]
  have vars: "vars key = (if \<exists>y. tree_file walk (key @ varsSuffix) y
      then Some (repoPath w (key @ varsSuffix), SOME y. tree_file walk (key @ varsSuffix) y) else None)" for key
    using collect_loop_vars [OF run assms(2), of key] by (auto intro: someI)
  have one: "tree_file walk (key @ varsSuffix) y \<Longrightarrow> (SOME y. tree_file walk (key @ varsSuffix) y) = y" for key y
    using collect_loop_vars [OF run assms(2), of key] by (metis option.inject prod.inject someI)
  have uniq: "tree_file walk (key @ varsSuffix) y \<Longrightarrow> tree_file walk (key @ varsSuffix) z \<Longrightarrow> y = z" for key y z
    using one [of key y] one [of key z] by simp
  have entry: "f = with_vars vars (\<lparr>fl_path = repoPath w name, fl_content = x, fl_vars = [], gf_vars_path = []\<rparr>, key) \<longleftrightarrow>
      fl_path f = repoPath w name \<and> fl_content f = x \<and>
      (if \<exists>y. tree_file walk (key @ varsSuffix) y
       then tree_file walk (key @ varsSuffix) (fl_vars f) \<and> gf_vars_path f = repoPath w (key @ varsSuffix)
       else fl_vars f = [] \<and> gf_vars_path f = [])" for f name x key
    by (cases f) (auto simp: with_vars_def vars one dest: uniq)
  have "f \<in> set files \<longleftrightarrow> (\<exists>name x key. tree_file walk name x \<and> job_file_key name = Some key \<and>
      f = with_vars vars (\<lparr>fl_path = repoPath w name, fl_content = x, fl_vars = [], gf_vars_path = []\<rparr>, key))" for f
    by (auto simp: files jobs)
  then have "f \<in> set files \<longleftrightarrow> (\<exists>name key. tree_file walk name (fl_content f) \<and> job_file_key name = Some key \<and>
      fl_path f = repoPath w name \<and>
      (if \<exists>y. tree_file walk (key @ varsSuffix) y
       then tree_file walk (key @ varsSuffix) (fl_vars f) \<and> gf_vars_path f = repoPath w (key @ varsSuffix)
       else fl_vars f = [] \<and> gf_vars_path f = []))" for f
    unfolding entry by blast
  then show ?thesis by (simp add: files)
qed

section \<open>Credentials\<close>

text \<open>
  What is logged and linked of a repository's address does not depend on the user in it, and an
  address the parser refuses is cut behind its last @.
\<close>

lemma credentials_dropped:
  assumes "ue_parse ue a = Some u" "ue_parse ue b = Some (u\<lparr>ur_user := x\<rparr>)" "ur_scheme u \<noteq> []"
  shows "StripCredentials ue a = StripCredentials ue b \<and> commit_url ue a sha = commit_url ue b sha"
  using assms by (simp add: StripCredentials_def commit_url_def)

lemma no_at_after_last: "CHR 0x40 \<notin> set (after_last_at s)"
  by (auto simp: after_last_at_def dest: set_takeWhileD)

section \<open>Samples\<close>

definition sample_watch :: watch_options where
  "sample_watch = \<lparr>wo_name = ''r'', wo_url = [], wo_branch = ''main'', wo_path = [], wo_username = [], wo_token = []\<rparr>"

definition sample_walk :: walk where
  "sample_walk = [Inr (''a/api.nomad.hcl'', Inr ''job''), Inr (''a/api.vars.hcl'', Inr ''vars''), Inr (''README'', Inr [])]"

definition sample_clone :: git_clone where
  "sample_clone = \<lparr>gk_head = Inr ''c0'', gk_commit = (\<lambda>_. Inr \<lparr>gc_message = ''first'', gc_author = ''ann'', gc_when = 0,
     gc_tree = Inr (\<lambda>_. Inr sample_walk)\<rparr>)\<rparr>"

lemma sample_collect: "collect sample_watch sample_walk =
    Inr [\<lparr>fl_path = ''a/api.nomad.hcl'', fl_content = ''job'', fl_vars = ''vars'', gf_vars_path = ''a/api.vars.hcl''\<rparr>]"
  by code_simp

theorem collect_pairs_witness:
  "\<exists>name key. tree_file sample_walk name ''job'' \<and> job_file_key name = Some key \<and>
     tree_file sample_walk (key @ varsSuffix) ''vars''"
proof -
  have "distinct (tree_names sample_walk)" by code_simp
  from collect_pairs [OF sample_collect this, THEN conjunct2, THEN spec,
      of "\<lparr>fl_path = ''a/api.nomad.hcl'', fl_content = ''job'', fl_vars = ''vars'', gf_vars_path = ''a/api.vars.hcl''\<rparr>"]
  obtain name key where k: "tree_file sample_walk name ''job''" "job_file_key name = Some key"
    "if \<exists>y. tree_file sample_walk (key @ varsSuffix) y then tree_file sample_walk (key @ varsSuffix) ''vars'' \<and>
       ''a/api.vars.hcl'' = repoPath sample_watch (key @ varsSuffix) else ''vars'' = [] \<and> ''a/api.vars.hcl'' = []"
    by (simp only: list.set insert_iff empty_iff simp_thms git_file.select_convs job_file.select_convs) blast
  from k(3) have "tree_file sample_walk (key @ varsSuffix) ''vars''" by (simp split: if_splits)
  with k(1,2) show ?thesis by blast
qed

definition sample_poll :: poll_env where
  "sample_poll = \<lparr>pl_refs = Inr [], pl_clone = Inr sample_clone, pl_now = 1\<rparr>"

definition sample_watcher :: watcher where
  "sample_watcher = projr (start_watcher sample_poll (new_watcher sample_watch))"

definition sample_group :: git_group where
  "sample_group = \<lparr>gg_watchers = [sample_watcher], gg_changed = False, gg_seen = [no_snapshot], gg_reading = Some 0\<rparr>"

lemma sample_starts: "start_all [sample_poll] (map new_watcher [sample_watch]) = Inr [sample_watcher]"
  using sample_collect
  by (simp add: sample_watcher_def start_watcher_def sample_poll_def sample_clone_def git_fetch_def wrapE_def
      new_watcher_def sample_watch_def)

lemma sample_watcher_quiet: "\<not> wt_signals sample_watcher"
proof -
  from sample_starts obtain x where "sample_watcher = adopt 1 x (new_watcher sample_watch)"
    by (auto simp: start_watcher_def bindE_Inr sample_poll_def wrapE_def new_watcher_def split: sum.splits intro: that [OF sym])
  then have "wt_signals sample_watcher = wt_signals (new_watcher sample_watch)" by (metis watcher_frames(9))
  then show ?thesis by (simp add: new_watcher_def)
qed

theorem no_commit_missed_witness:
  "\<exists>g. gg_seen g = Snapshots g \<and> Snapshots g = [wt_snap sample_watcher]"
proof -
  let ?r = "sample_group\<lparr>gg_seen := [wt_snap sample_watcher], gg_reading := Some 1\<rparr>"
  have "group_started sample_group"
    using sample_starts by (auto simp: group_started_def sample_group_def intro!: exI [of _ "[sample_poll]"] exI [of _ "[sample_watch]"])
  then have "reach group_started group_step sample_group" by (rule reach_init)
  moreover have "group_step sample_group ?r"
    using step_read [of sample_group 0] by (simp add: sample_group_def)
  moreover have "group_step ?r (?r\<lparr>gg_reading := None\<rparr>)"
    by (rule step_done [of _ 1]) (simp_all add: sample_group_def)
  ultimately have "reach group_started group_step (?r\<lparr>gg_reading := None\<rparr>)"
    by (blast intro: reach_step)
  from no_commit_missed [OF this] show ?thesis
    by (intro exI [of _ "?r\<lparr>gg_reading := None\<rparr>"]) (simp add: sample_group_def sample_watcher_quiet Snapshots_def)
qed

end
