(* ===== verification/LoginFlow.thy ===== *)
theory LoginFlow
  imports Access Utf8
begin

text \<open>
  The ways to log in (\<open>internal/web/auth_basic.go\<close>, \<open>auth.go\<close>, \<open>cli_login.go\<close> and the redirects of
  \<open>login.go\<close>): the files of users and groups, the redirect after a login, OpenID Connect, and the
  login of the command line with its one-time codes.

  What bufio's scanner reads of a file are its lines and the error it ends with, if any. The parser
  of URLs, bcrypt, the provider and its tokens, the cookie's seal and the random values are arguments.
\<close>

section \<open>The files of users and groups\<close>

text \<open>\<open>strings.Fields\<close>: the words between runs of white space.\<close>

function fields_from :: "string \<Rightarrow> string \<Rightarrow> string list" where
  "fields_from word s = (if s = [] then (if word = [] then [] else [word])
     else case find (\<lambda>w. w \<noteq> [] \<and> prefix w s) white of
         Some w \<Rightarrow> (if word = [] then [] else [word]) @ fields_from [] (drop (length w) s)
       | None \<Rightarrow> fields_from (word @ [hd s]) (tl s))"
  by pat_completeness auto
termination
proof (relation "measure (\<lambda>(word, s). length s)", simp)
  fix word s w :: string
  assume "find (\<lambda>w. w \<noteq> [] \<and> prefix w s) white = Some w"
  then have "w \<noteq> []" "prefix w s" by (auto simp: find_Some_iff)
  then show "(([], drop (length w) s), word, s) \<in> measure (\<lambda>(word, s). length s)" by (auto simp: prefix_def)
next
  fix word s :: string
  assume "s \<noteq> []"
  then show "((word @ [hd s], tl s), word, s) \<in> measure (\<lambda>(word, s). length s)" by (cases s) auto
qed

declare fields_from.simps [simp del]

definition skipped_line :: "string \<Rightarrow> bool" where
  "skipped_line line = (line = [] \<or> prefix ''#'' line)"

definition at_line :: "string \<Rightarrow> nat \<Rightarrow> string \<Rightarrow> string" where
  "at_line path n msg = path @ '':'' @ show_nat n @ '': '' @ msg"

text \<open>The loop of \<open>parseUsersFile\<close>; \<open>cost\<close> is bcrypt's error on a text that is not a hash.\<close>

fun users_loop :: "(string \<Rightarrow> string option) \<Rightarrow> string \<Rightarrow> nat \<Rightarrow> string list \<Rightarrow> (string \<rightharpoonup> string) \<Rightarrow> string + (string \<rightharpoonup> string)" where
  "users_loop cost path n [] users = Inr users"
| "users_loop cost path n (l # ls) users =
     (let line = trim_space l in
      if skipped_line line then users_loop cost path (Suc n) ls users
      else case cut_at (CHR '':'') line of (name, hash, found) \<Rightarrow>
        if \<not> found \<or> name = [] \<or> hash = [] then Inl (at_line path n ''expected \"username:bcrypt-hash\"'')
        else case cost hash of
            Some m \<Rightarrow> Inl (at_line path n (name @ '': not a bcrypt hash: '' @ m))
          | None \<Rightarrow> if users name \<noteq> None then Inl (at_line path n (name @ '': duplicate user''))
              else users_loop cost path (Suc n) ls (users(name \<mapsto> hash)))"

text \<open>A file as the scanner reads it, or the error of opening it.\<close>

type_synonym text_file = "string + string list \<times> string option"

definition parseUsersFile :: "(string \<Rightarrow> string option) \<Rightarrow> string \<Rightarrow> text_file \<Rightarrow> string + (string \<rightharpoonup> string)" where
  "parseUsersFile cost path f = bindE f (\<lambda>(lines, failed). bindE (users_loop cost path 1 lines Map.empty) (\<lambda>users.
     case failed of Some m \<Rightarrow> Inl m | None \<Rightarrow> Inr users))"

fun members_loop :: "string \<Rightarrow> nat \<Rightarrow> string \<Rightarrow> string list \<Rightarrow> (string \<rightharpoonup> string) \<Rightarrow> (string \<Rightarrow> string list) \<Rightarrow>
    string + (string \<Rightarrow> string list)" where
  "members_loop path n gname [] users groups = Inr groups"
| "members_loop path n gname (m # ms) users groups =
     (if users m = None then Inl (at_line path n (m @ '': member of '' @ gname @ '' is not in the users file''))
      else members_loop path n gname ms users (groups(m := groups m @ [gname])))"

fun groups_loop :: "string \<Rightarrow> nat \<Rightarrow> string list \<Rightarrow> (string \<rightharpoonup> string) \<Rightarrow> (string \<Rightarrow> string list) \<Rightarrow> string + (string \<Rightarrow> string list)" where
  "groups_loop path n [] users groups = Inr groups"
| "groups_loop path n (l # ls) users groups =
     (let line = trim_space l in
      if skipped_line line then groups_loop path (Suc n) ls users groups
      else case cut_at (CHR '':'') line of (g, rest, found) \<Rightarrow>
        let gname = trim_space g; members = fields_from [] rest in
        if \<not> found \<or> gname = [] \<or> members = [] then Inl (at_line path n ''expected \"group: user1 user2\"'')
        else bindE (members_loop path n gname members users groups) (groups_loop path (Suc n) ls users))"

definition parseGroupsFile :: "string \<Rightarrow> text_file \<Rightarrow> (string \<rightharpoonup> string) \<Rightarrow> string + (string \<rightharpoonup> string list)" where
  "parseGroupsFile path f users = bindE f (\<lambda>(lines, failed). bindE (groups_loop path 1 lines users (\<lambda>_. [])) (\<lambda>groups.
     case failed of Some m \<Rightarrow> Inl m
     | None \<Rightarrow> Inr (\<lambda>u. if groups u = [] then None else Some (remdups_adj (sort (groups u))))))"

text \<open>\<open>NewBasicAuth\<close>; without a users file, or without a user in it, there is no login.\<close>

definition NewBasicAuth :: "(string \<Rightarrow> string option) \<Rightarrow> string \<Rightarrow> text_file \<Rightarrow> string \<Rightarrow> text_file \<Rightarrow> string + string \<Rightarrow>
    string + basic_auth" where
  "NewBasicAuth cost upath ufile gpath gfile dummy =
     (if upath = [] then Inl ''web: UsersFile is required''
      else case parseUsersFile cost upath ufile of
          Inl m \<Rightarrow> Inl (''web: '' @ m)
        | Inr users \<Rightarrow>
            if users = Map.empty then Inl (''web: '' @ upath @ '' holds no user'')
            else case (if gpath = [] then Inr Map.empty else parseGroupsFile gpath gfile users) of
                Inl m \<Rightarrow> Inl (''web: '' @ m)
              | Inr groups \<Rightarrow> (case dummy of Inl m \<Rightarrow> Inl (''web: '' @ m)
                  | Inr d \<Rightarrow> Inr \<lparr>ba_users = users, ba_groups = groups, ba_dummy = d\<rparr>))"

section \<open>The redirect after a login\<close>

definition safeNext :: "(string \<Rightarrow> url option) \<Rightarrow> string \<Rightarrow> string" where
  "safeNext parse next =
     (if \<not> prefix ''/'' next \<or> prefix ''//'' next \<or> prefix [CHR ''/'', CHR 0x5C] next then ''/''
      else if list_ex (\<lambda>c. c < CHR 0x20 \<or> c = CHR 0x7F \<or> c = CHR 0x5C) next then ''/''
      else case parse next of None \<Rightarrow> ''/'' | Some u \<Rightarrow> if ur_scheme u \<noteq> [] \<or> ur_host u \<noteq> [] then ''/'' else next)"

text \<open>The page of an htmx request: what its headers say, and the path and the query of the browser's URL, escaped.\<close>

record htmx_request =
  hx_boosted :: bool
  hx_get :: bool
  hx_uri :: string
  hx_current :: "(string \<times> string) option"

definition htmxNext :: "(string \<Rightarrow> url option) \<Rightarrow> string \<Rightarrow> htmx_request \<Rightarrow> string" where
  "htmxNext parse base r =
     (if hx_boosted r \<and> hx_get r then hx_uri r
      else case hx_current r of None \<Rightarrow> ''/''
        | Some (path, query) \<Rightarrow>
            (case (if base = [] then Some path else case cut_prefix base path of None \<Rightarrow> None
                | Some rest \<Rightarrow> if rest \<noteq> [] \<and> hd rest \<noteq> CHR ''/'' then None else Some rest) of
               None \<Rightarrow> ''/''
             | Some p \<Rightarrow> safeNext parse ((if p = [] then ''/'' else p) @ (if query = [] then [] else ''?'' @ query))))"

section \<open>The one-time codes of the command line\<close>

definition cliCodeTTL :: duration where "cliCodeTTL = 60 * second"

record cli_login =
  cli_port :: int
  cli_state :: string
  cli_challenge :: string

definition url_safe_char :: "char \<Rightarrow> bool" where
  "url_safe_char c = (between CHR ''a'' CHR ''z'' c \<or> between CHR ''A'' CHR ''Z'' c \<or> between CHR ''0'' CHR ''9'' c \<or>
     c = CHR ''-'' \<or> c = CHR ''_'')"

definition urlSafe :: "string \<Rightarrow> nat \<Rightarrow> nat \<Rightarrow> bool" where
  "urlSafe s low high = (low \<le> length s \<and> length s \<le> high \<and> list_all url_safe_char s)"

definition parseCLILogin :: "url_values \<Rightarrow> string + cli_login option" where
  "parseCLILogin q =
     (if q ''cli_port'' = None \<and> q ''cli_state'' = None \<and> q ''cli_challenge'' = None then Inr None
      else case Atoi (url_get q ''cli_port'') of
          None \<Rightarrow> Inl ''cli_port is not a port''
        | Some port \<Rightarrow> if port < 1 \<or> 65535 < port then Inl ''cli_port is not a port''
            else if \<not> urlSafe (url_get q ''cli_state'') 16 128 then Inl ''cli_state is not 16 to 128 URL-safe characters''
            else if \<not> urlSafe (url_get q ''cli_challenge'') 43 43 then Inl ''cli_challenge is not an S256 challenge''
            else Inr (Some \<lparr>cli_port = port, cli_state = url_get q ''cli_state'', cli_challenge = url_get q ''cli_challenge''\<rparr>))"

record cli_session =
  cs_secret :: string
  cs_expires_at :: "time option"

record cli_code =
  cc_session :: cli_session
  cc_challenge :: string
  cc_expires :: time

type_synonym cli_codes = "string \<rightharpoonup> cli_code"

definition put_code :: "string \<Rightarrow> cli_code \<Rightarrow> time \<Rightarrow> cli_codes \<Rightarrow> cli_codes" where
  "put_code code v now m = (\<lambda>k. case m k of None \<Rightarrow> None | Some x \<Rightarrow> if cc_expires x < now then None else Some x)(code \<mapsto> v)"

definition take_code :: "string \<Rightarrow> time \<Rightarrow> cli_codes \<Rightarrow> cli_codes \<times> cli_code option" where
  "take_code code now m = (m(code := None), case m code of None \<Rightarrow> None
     | Some v \<Rightarrow> if cc_expires v < now then None else Some v)"

datatype cli_answer = CliSession cli_session | CliError nat

definition CLIToken :: "access_env \<Rightarrow> call \<Rightarrow> string \<Rightarrow> person \<Rightarrow> access \<Rightarrow> access \<times> cli_answer" where
  "CLIToken env c sec p a = (case newLoginSession env c sec p a of
       (b, Inl NoBinding) \<Rightarrow> (b, CliError 403)
     | (b, Inl (LoginStoreError _)) \<Rightarrow> (b, CliError 500)
     | (b, Inr t) \<Rightarrow> (b, CliSession \<lparr>cs_secret = sec, cs_expires_at = tk_expires_at t\<rparr>))"

text \<open>The address the browser is sent back to: a port of the loopback, and the query.\<close>

record loopback =
  lb_port :: int
  lb_query :: "(string \<times> string) list"

definition CLIRedirect :: "access_env \<Rightarrow> call \<Rightarrow> string \<Rightarrow> string \<Rightarrow> person \<Rightarrow> cli_login \<Rightarrow> access \<times> cli_codes \<Rightarrow>
    (access \<times> cli_codes) \<times> loopback" where
  "CLIRedirect env c sec code p cl s = (case s of (a, m) \<Rightarrow>
     let back = (\<lambda>kv. \<lparr>lb_port = cli_port cl, lb_query = [(''state'', cli_state cl), kv]\<rparr>) in
     (case newLoginSession env c sec p a of
        (b, Inl NoBinding) \<Rightarrow> ((b, m), back (''error'', ''no_binding''))
      | (b, Inl (LoginStoreError _)) \<Rightarrow> ((b, m), back (''error'', ''server_error''))
      | (b, Inr t) \<Rightarrow> ((b, put_code code \<lparr>cc_session = \<lparr>cs_secret = sec, cs_expires_at = tk_expires_at t\<rparr>,
            cc_challenge = cli_challenge cl, cc_expires = c_now c + cliCodeTTL\<rparr> (c_now c) m), back (''code'', code))))"

text \<open>\<open>cliToken\<close>: a body that does not read is answered before the code is looked at.\<close>

definition cliToken :: "(string \<Rightarrow> string) \<Rightarrow> time \<Rightarrow> (string \<times> string) option \<Rightarrow> cli_codes \<Rightarrow> cli_codes \<times> cli_answer" where
  "cliToken s256 now body m = (case body of None \<Rightarrow> (m, CliError 400)
     | Some (code, verifier) \<Rightarrow> (case take_code code now m of (m', v) \<Rightarrow>
         (case v of None \<Rightarrow> (m', CliError 400)
          | Some x \<Rightarrow> if s256 verifier \<noteq> cc_challenge x then (m', CliError 400) else (m', CliSession (cc_session x)))))"

section \<open>A login with a username and a password\<close>

text \<open>
  \<open>login\<close> and \<open>cliLogin\<close>: the form or the body, if it reads, and the check of \<open>LoginLimit\<close> with its
  clocks, its slot, the hash of usernames and bcrypt. A request that ended while it waited gets no answer.
\<close>

record password_env =
  pw_sha :: "string \<Rightarrow> string"
  pw_compare :: "string \<Rightarrow> string \<Rightarrow> bool"
  pw_users :: basic_auth
  pw_first :: time
  pw_slot :: bool
  pw_second :: time
  pw_last :: time

definition password_check :: "password_env \<Rightarrow> string \<Rightarrow> string \<Rightarrow> limit \<Rightarrow> limit \<times> (check_error + person) \<times> bool" where
  "password_check e u pw l = check (pw_sha e) (pw_compare e) (pw_users e) (pw_first e) (pw_slot e) (pw_second e) (pw_last e) u pw l"

definition basic_login :: "access_env \<Rightarrow> call \<Rightarrow> string \<Rightarrow> password_env \<Rightarrow> (string \<times> string) option \<Rightarrow> cookies \<Rightarrow>
    limit \<times> access \<Rightarrow> (limit \<times> access) \<times> cookies \<times> web_answer option" where
  "basic_login env c sec e form ck s = (case s of (l, a) \<Rightarrow> (case form of None \<Rightarrow> ((l, a), ck, Some (Status 400))
     | Some (u, pw) \<Rightarrow> (case password_check e u pw l of (l', r, _) \<Rightarrow> (case r of
           Inl (Locked _) \<Rightarrow> ((l', a), ck, Some (Status 429))
         | Inl InvalidCredentials \<Rightarrow> ((l', a), ck, Some (Status 401))
         | Inl Cancelled \<Rightarrow> ((l', a), ck, None)
         | Inr p \<Rightarrow> (case Done env c sec p ck a of (b, ck', answer) \<Rightarrow> ((l', b), ck', Some answer))))))"

definition basic_cli_login :: "access_env \<Rightarrow> call \<Rightarrow> string \<Rightarrow> password_env \<Rightarrow> (string \<times> string) option \<Rightarrow>
    limit \<times> access \<Rightarrow> (limit \<times> access) \<times> cli_answer option" where
  "basic_cli_login env c sec e body s = (case s of (l, a) \<Rightarrow> (case body of None \<Rightarrow> ((l, a), Some (CliError 400))
     | Some (u, pw) \<Rightarrow> (case password_check e u pw l of (l', r, _) \<Rightarrow> (case r of
           Inl (Locked _) \<Rightarrow> ((l', a), Some (CliError 429))
         | Inl InvalidCredentials \<Rightarrow> ((l', a), Some (CliError 401))
         | Inl Cancelled \<Rightarrow> ((l', a), None)
         | Inr p \<Rightarrow> (case CLIToken env c sec p a of (b, answer) \<Rightarrow> ((l', b), Some answer))))))"

section \<open>OpenID Connect\<close>

record oidc_user =
  ou_subject :: string
  ou_preferred :: string
  ou_email :: string
  ou_groups :: "string list"

definition oidc_actor :: "oidc_user \<Rightarrow> string" where
  "oidc_actor u = (if ou_preferred u \<noteq> [] then ou_preferred u else if ou_email u \<noteq> [] then ou_email u else ou_subject u)"

record oidc_claims =
  oc_preferred :: string
  oc_email :: string
  oc_verified :: "bool option"
  oc_groups :: "string list"

definition merge_claims :: "oidc_claims \<Rightarrow> oidc_user \<Rightarrow> oidc_user" where
  "merge_claims c u = u\<lparr>
     ou_preferred := (if ou_preferred u = [] then oc_preferred c else ou_preferred u),
     ou_email := (if ou_email u = [] \<and> oc_verified c \<noteq> Some False then oc_email c else ou_email u),
     ou_groups := (if ou_groups u = [] then oc_groups c else ou_groups u)\<rparr>"

text \<open>
  An ID token the provider's verifier accepted, and the answer of the userinfo endpoint, if there is
  one: its subject and its claims. Claims may fail to decode.
\<close>

record id_token =
  it_subject :: string
  it_nonce :: string
  it_claims :: "string + oidc_claims"

type_synonym userinfo = "(string + string \<times> (string + oidc_claims)) option"

definition identify :: "id_token \<Rightarrow> userinfo \<Rightarrow> string + oidc_user" where
  "identify t info = (case it_claims t of Inl m \<Rightarrow> Inl (''decode ID token claims: '' @ m)
     | Inr c \<Rightarrow>
       let u = merge_claims c \<lparr>ou_subject = it_subject t, ou_preferred = [], ou_email = [], ou_groups = []\<rparr> in
       if ou_groups u = [] \<or> (ou_preferred u = [] \<and> ou_email u = []) then
         (case info of None \<Rightarrow> Inr u
          | Some (Inl m) \<Rightarrow> Inl (''userinfo: '' @ m)
          | Some (Inr (sub, ic)) \<Rightarrow>
              if sub \<noteq> it_subject t then Inl ''userinfo is about another subject than the ID token''
              else (case ic of Inl m \<Rightarrow> Inl (''decode userinfo claims: '' @ m) | Inr x \<Rightarrow> Inr (merge_claims x u)))
       else Inr u)"

definition loginTTL :: duration where "loginTTL = 10 * 60 * second"

record login_state =
  ls_state :: string
  ls_nonce :: string
  ls_verifier :: string
  ls_next :: string
  ls_expires :: int
  ls_cli :: "cli_login option"

text \<open>A time as \<open>Time.Unix\<close> gives it: whole seconds, rounded down.\<close>

definition unix :: "time \<Rightarrow> int" where "unix t = t div second"

text \<open>The random values of a new login: state, nonce, verifier.\<close>

type_synonym login_random = "string \<times> string \<times> string"

datatype start_answer = StartError nat | ToProvider string string string

text \<open>
  \<open>start\<close>: the cookie it seals, if any, and the answer: the provider's page gets the state, the
  challenge of the verifier and the nonce. \<open>reached\<close> says whether the provider answers, \<open>sealed\<close>
  whether the cookie could be made.
\<close>

definition oidc_start :: "(string \<Rightarrow> url option) \<Rightarrow> (string \<Rightarrow> string) \<Rightarrow> bool \<Rightarrow> bool \<Rightarrow> time \<Rightarrow> login_random \<Rightarrow> url_values \<Rightarrow>
    login_state option \<times> start_answer" where
  "oidc_start parse s256 reached sealed now rnd q = (case parseCLILogin q of
       Inl _ \<Rightarrow> (None, StartError 400)
     | Inr cli \<Rightarrow> if \<not> reached then (None, StartError 503)
         else if \<not> sealed then (None, StartError 500)
         else (case rnd of (st, nonce, verifier) \<Rightarrow>
           (Some \<lparr>ls_state = st, ls_nonce = nonce, ls_verifier = verifier, ls_next = safeNext parse (url_get q ''next''),
              ls_expires = unix (now + loginTTL), ls_cli = cli\<rparr>, ToProvider st (s256 verifier) nonce)))"

text \<open>What a callback meets at the provider: whether it answers, the exchange of a code, the verifier of ID tokens, the userinfo.\<close>

record provider =
  pv_issuer :: string
  pv_reached :: bool
  pv_exchange :: "string \<Rightarrow> string \<Rightarrow> string + string"
  pv_verify :: "string \<Rightarrow> string + id_token"
  pv_userinfo :: userinfo

datatype callback_answer =
    CallbackError nat
  | LoggedIn person string
  | LoggedInCLI person cli_login

definition oidc_person :: "string \<Rightarrow> oidc_user \<Rightarrow> person" where
  "oidc_person issuer u = \<lparr>pe_identity = ''oidc:'' @ issuer @ ''#'' @ ou_subject u, pe_username = oidc_actor u,
     pe_claim_username = oidc_actor u, pe_claim_sub = ou_subject u, pe_claim_groups = ou_groups u\<rparr>"

text \<open>\<open>callback\<close>, with the state its cookie opens to, if it does. The cookie is cleared in every case.\<close>

definition oidc_callback :: "provider \<Rightarrow> time \<Rightarrow> login_state option \<Rightarrow> url_values \<Rightarrow> callback_answer" where
  "oidc_callback pv now cookie q = (case cookie of None \<Rightarrow> CallbackError 400
     | Some st \<Rightarrow>
       if ls_expires st < unix now then CallbackError 400
       else if url_get q ''error'' \<noteq> [] then CallbackError 403
       else if url_get q ''state'' \<noteq> ls_state st \<or> url_get q ''code'' = [] then CallbackError 400
       else if \<not> pv_reached pv then CallbackError 503
       else case pv_exchange pv (url_get q ''code'') (ls_verifier st) of Inl _ \<Rightarrow> CallbackError 401
         | Inr raw \<Rightarrow> if raw = [] then CallbackError 401
             else case pv_verify pv raw of Inl _ \<Rightarrow> CallbackError 401
               | Inr t \<Rightarrow> if it_nonce t \<noteq> ls_nonce st then CallbackError 401
                   else case identify t (pv_userinfo pv) of Inl _ \<Rightarrow> CallbackError 401
                     | Inr u \<Rightarrow> (case ls_cli st of None \<Rightarrow> LoggedIn (oidc_person (pv_issuer pv) u) (ls_next st)
                         | Some cl \<Rightarrow> LoggedInCLI (oidc_person (pv_issuer pv) u) cl))"


section \<open>Users and groups\<close>

lemma members_loop_known:
  "members_loop path n g ms users groups = Inr groups' \<Longrightarrow> (\<forall>u. groups u \<noteq> [] \<longrightarrow> users u \<noteq> None) \<Longrightarrow>
     \<forall>u. groups' u \<noteq> [] \<longrightarrow> users u \<noteq> None"
proof (induction ms arbitrary: groups)
  case (Cons m ms)
  from Cons.prems(1) have "users m \<noteq> None" and run: "members_loop path n g ms users (groups(m := groups m @ [g])) = Inr groups'"
    by (simp_all only: members_loop.simps sum.distinct not_False_eq_True split: if_split_asm)
  with Cons.prems(2) show ?case by (intro Cons.IH [OF run]) simp
qed simp

lemma groups_loop_known:
  "groups_loop path n ls users groups = Inr groups' \<Longrightarrow> (\<forall>u. groups u \<noteq> [] \<longrightarrow> users u \<noteq> None) \<Longrightarrow>
     \<forall>u. groups' u \<noteq> [] \<longrightarrow> users u \<noteq> None"
proof (induction ls arbitrary: n groups)
  case (Cons l ls)
  show ?case
  proof (cases "skipped_line (trim_space l)")
    case True
    with Cons show ?thesis by (simp add: Let_def)
  next
    case False
    obtain g rest found where cut: "cut_at (CHR '':'') (trim_space l) = (g, rest, found)"
      by (cases "cut_at (CHR '':'') (trim_space l)")
    have "bindE (members_loop path n (trim_space g) (fields_from [] rest) users groups) (groups_loop path (Suc n) ls users) = Inr groups'"
      using Cons.prems(1) by (simp only: groups_loop.simps Let_def False cut prod.case if_False sum.distinct split: if_split_asm)
    then obtain gs where "members_loop path n (trim_space g) (fields_from [] rest) users groups = Inr gs"
      "groups_loop path (Suc n) ls users gs = Inr groups'" unfolding bindE_Inr by blast
    from Cons.IH [OF this(2) members_loop_known [OF this(1) Cons.prems(2)]] show ?thesis .
  qed
qed simp

definition good_user :: "(string \<Rightarrow> string option) \<Rightarrow> string \<Rightarrow> string \<Rightarrow> bool" where
  "good_user cost u h = (u \<noteq> [] \<and> CHR '':'' \<notin> set u \<and> h \<noteq> [] \<and> cost h = None)"

lemma cut_at_before: "cut_at c s = (a, b, found) \<Longrightarrow> c \<notin> set a"
  by (auto simp: cut_at_def dest: set_takeWhileD split: if_splits)

lemma users_loop_good:
  "users_loop cost path n ls users = Inr users' \<Longrightarrow> (\<forall>u h. users u = Some h \<longrightarrow> good_user cost u h) \<Longrightarrow>
     \<forall>u h. users' u = Some h \<longrightarrow> good_user cost u h"
proof (induction ls arbitrary: n users)
  case (Cons l ls)
  show ?case
  proof (cases "skipped_line (trim_space l)")
    case True
    have "users_loop cost path (Suc n) ls users = Inr users'"
      using Cons.prems(1) by (simp only: users_loop.simps Let_def True if_True)
    from Cons.IH [OF this Cons.prems(2)] show ?thesis .
  next
    case False
    obtain name hash found where cut: "cut_at (CHR '':'') (trim_space l) = (name, hash, found)"
      by (cases "cut_at (CHR '':'') (trim_space l)")
    have run: "users_loop cost path (Suc n) ls (users(name \<mapsto> hash)) = Inr users'" and new: "name \<noteq> []" "hash \<noteq> []" "cost hash = None"
      using Cons.prems(1) by (simp_all only: users_loop.simps Let_def False cut prod.case if_False sum.distinct option.distinct
          de_Morgan_disj simp_thms split: if_split_asm option.split_asm)
    have "CHR '':'' \<notin> set name" by (rule cut_at_before [OF cut])
    with new have "good_user cost name hash" by (simp add: good_user_def)
    with Cons.prems(2) show ?thesis by (intro Cons.IH [OF run]) simp
  qed
qed simp

text \<open>
  The local users and groups a start accepts are sound: there is a user, every username is
  a name without a colon with a hash bcrypt reads, every member of a group is a user, and the groups
  of a user are sorted and named once.
\<close>

theorem basic_auth_sound:
  assumes "NewBasicAuth cost upath ufile gpath gfile dummy = Inr b"
  shows "ba_users b \<noteq> Map.empty \<and> (\<forall>u h. ba_users b u = Some h \<longrightarrow> good_user cost u h) \<and>
    dom (ba_groups b) \<subseteq> dom (ba_users b) \<and>
    (\<forall>u gs. ba_groups b u = Some gs \<longrightarrow> gs \<noteq> [] \<and> sorted gs \<and> distinct gs)"
proof -
  from assms obtain users groups d where u: "parseUsersFile cost upath ufile = Inr users" "users \<noteq> Map.empty"
    and g: "(if gpath = [] then Inr Map.empty else parseGroupsFile gpath gfile users) = Inr groups"
    and b: "b = \<lparr>ba_users = users, ba_groups = groups, ba_dummy = d\<rparr>"
    by (auto simp: NewBasicAuth_def split: if_splits sum.splits)
  from u(1) have "\<forall>u h. users u = Some h \<longrightarrow> good_user cost u h"
    by (auto simp: parseUsersFile_def bindE_Inr split: option.splits dest!: users_loop_good)
  moreover have "dom groups \<subseteq> dom users \<and> (\<forall>u gs. groups u = Some gs \<longrightarrow> gs \<noteq> [] \<and> sorted gs \<and> distinct gs)"
  proof (cases "gpath = []")
    case False
    then obtain f where f: "\<forall>u. f u \<noteq> [] \<longrightarrow> users u \<noteq> None"
      and gr: "groups = (\<lambda>u. if f u = [] then None else Some (remdups_adj (sort (f u))))"
      using g by (auto simp: parseGroupsFile_def bindE_Inr split: option.splits dest!: groups_loop_known)
    have "distinct (remdups_adj (sort xs))" for xs :: "string list"
      using sorted_remdups_adj_distinct [of "sort xs"] by simp
    moreover have "sort xs = [] \<longleftrightarrow> xs = []" for xs :: "string list" by (rule sort_key_Nil_iff)
    ultimately show ?thesis using f by (auto simp: gr dom_def split: if_splits)
  qed (use g in auto)
  ultimately show ?thesis using u(2) by (simp add: b)
qed

section \<open>Staying on the site\<close>

text \<open>How a browser reads the start of an address: without tabs and line ends, a backslash as a slash.\<close>

definition browser_reads :: "string \<Rightarrow> string" where
  "browser_reads s = map (\<lambda>c. if c = CHR 0x5C then CHR ''/'' else c)
     (filter (\<lambda>c. c \<noteq> CHR 0x09 \<and> c \<noteq> CHR 0x0A \<and> c \<noteq> CHR 0x0D) s)"

lemma safeNext_cases: "safeNext parse s = ''/'' \<or> (safeNext parse s = s \<and> prefix ''/'' s \<and> \<not> prefix ''//'' s \<and>
    list_all (\<lambda>c. \<not> c < CHR 0x20 \<and> c \<noteq> CHR 0x7F \<and> c \<noteq> CHR 0x5C) s)"
  by (auto simp: safeNext_def list_ex_iff list_all_iff split: option.splits if_splits)

lemma browser_reads_plain: "list_all (\<lambda>c. \<not> c < CHR 0x20 \<and> c \<noteq> CHR 0x7F \<and> c \<noteq> CHR 0x5C) s \<Longrightarrow> browser_reads s = s"
  by (induction s) (auto simp: browser_reads_def less_char_def)

text \<open>
  Claim C36. The redirect after a login stays on the site, whatever the request asked for: it is a
  path, and a browser, which drops tabs and line ends and takes a backslash for a slash, still reads
  a path and no other host.
\<close>

theorem safe_next_stays:
  "prefix ''/'' (safeNext parse s) \<and> prefix ''/'' (browser_reads (safeNext parse s)) \<and>
   \<not> prefix ''//'' (browser_reads (safeNext parse s))"
  using safeNext_cases [of parse s] browser_reads_plain [of s]
  by (auto simp: browser_reads_def)

section \<open>Who knows the password\<close>

lemma password_check_proved:
  assumes "password_check e u pw l = (l', Inr p, cmpd)"
  shows "\<exists>h. ba_users (pw_users e) u = Some h \<and> pw_compare e h pw \<and> pe_identity p = ''basic:'' @ u \<and> pe_username p = u \<and>
    pe_claim_groups p = (case ba_groups (pw_users e) u of None \<Rightarrow> [] | Some g \<Rightarrow> g)"
  using assms by (auto simp: password_check_def check_def Let_def split: prod.splits if_split_asm option.splits)

text \<open>
  A password login gives a session, in the browser or in the terminal, and changes the tokens only
  for a username of the users file whose hash matches the password, and the session is that
  username's, with its groups of the groups file.
\<close>

theorem password_login_proved:
  assumes "basic_login env c sec e (Some (u, pw)) ck (l, a) = ((l', b), ck', answer) \<and> (answer = Some Found \<or> b \<noteq> a \<or> ck' \<noteq> ck) \<or>
    basic_cli_login env c sec e (Some (u, pw)) (l, a) = ((l', b), got) \<and> (b \<noteq> a \<or> (\<exists>x. got = Some (CliSession x)))"
  shows "\<exists>h p. ba_users (pw_users e) u = Some h \<and> pw_compare e h pw \<and> pe_identity p = ''basic:'' @ u \<and> pe_username p = u \<and>
    pe_claim_groups p = (case ba_groups (pw_users e) u of None \<Rightarrow> [] | Some g \<Rightarrow> g) \<and>
    b = fst (newLoginSession env c sec p a)"
proof -
  obtain l1 r cmpd where r: "password_check e u pw l = (l1, r, cmpd)" by (cases "password_check e u pw l")
  from assms obtain p where p: "r = Inr p" "b = fst (Done env c sec p ck a) \<or> b = fst (CLIToken env c sec p a)"
    by (auto simp: basic_login_def basic_cli_login_def r split: prod.splits sum.splits check_error.splits)
  have "fst (Done env c sec p ck a) = fst (newLoginSession env c sec p a)" "fst (CLIToken env c sec p a) = fst (newLoginSession env c sec p a)"
    by (auto simp: Done_def CLIToken_def split: prod.splits sum.splits login_error.splits)
  with p password_check_proved [OF r [unfolded p(1)]] show ?thesis by auto
qed

section \<open>The exchange of a code\<close>

text \<open>What happened: a code issued at a time for a session, and a session given for a code and a verifier.\<close>

datatype cli_event = Issued string time cli_code | Exchanged string string time cli_session

fun exchange_of :: "string \<Rightarrow> cli_event \<Rightarrow> bool" where
  "exchange_of code (Issued _ _ _) = False"
| "exchange_of code (Exchanged k _ _ _) = (k = code)"

text \<open>
  Logins and exchanges in any order, and any other change of the tokens. A new code is a new random
  value: it was never issued before.
\<close>

inductive code_step :: "(string \<Rightarrow> string) \<Rightarrow> (access \<times> cli_codes) \<times> cli_event list \<Rightarrow>
    (access \<times> cli_codes) \<times> cli_event list \<Rightarrow> bool" for s256 where
  code_refused: "CLIRedirect env c sec code p cl (a, m) = ((b, m'), lb) \<Longrightarrow> (''code'', code) \<notin> set (lb_query lb) \<Longrightarrow>
    code_step s256 ((a, m), es) ((b, m'), es)"
| code_issued: "CLIRedirect env c sec code p cl (a, m) = ((b, m'), lb) \<Longrightarrow> (''code'', code) \<in> set (lb_query lb) \<Longrightarrow>
    m' code = Some v \<Longrightarrow> (\<forall>t v. Issued code t v \<notin> set es) \<Longrightarrow>
    code_step s256 ((a, m), es) ((b, m'), es @ [Issued code (c_now c) v])"
| code_failed: "cliToken s256 now body m = (m', CliError n) \<Longrightarrow> code_step s256 ((a, m), es) ((a, m'), es)"
| code_exchanged: "cliToken s256 now (Some (code, verifier)) m = (m', CliSession s) \<Longrightarrow>
    code_step s256 ((a, m), es) ((a, m'), es @ [Exchanged code verifier now s])"
| code_other: "code_step s256 ((a, m), es) ((b, m), es)"

inductive_cases code_stepE: "code_step s256 s t"

definition no_codes :: "(access \<times> cli_codes) \<times> cli_event list \<Rightarrow> bool" where
  "no_codes s = (snd (fst s) = Map.empty \<and> snd s = [])"

definition codes_sound :: "(string \<Rightarrow> string) \<Rightarrow> (access \<times> cli_codes) \<times> cli_event list \<Rightarrow> bool" where
  "codes_sound s256 s = (case s of ((a, m), es) \<Rightarrow>
     (\<forall>code v. m code = Some v \<longrightarrow> (\<exists>t. Issued code t v \<in> set es) \<and> filter (exchange_of code) es = []) \<and>
     (\<forall>code t v. Issued code t v \<in> set es \<longrightarrow> cc_expires v = t + cliCodeTTL) \<and>
     (\<forall>code ver now x. Exchanged code ver now x \<in> set es \<longrightarrow>
        (\<exists>t v. Issued code t v \<in> set es \<and> x = cc_session v \<and> s256 ver = cc_challenge v \<and> now \<le> cc_expires v)) \<and>
     (\<forall>code. length (filter (exchange_of code) es) \<le> 1))"

lemma put_code_old: "put_code code v now m k = Some x \<Longrightarrow> k \<noteq> code \<Longrightarrow> m k = Some x"
  by (auto simp: put_code_def split: option.splits if_splits)

lemma CLIRedirect_codes:
  assumes "CLIRedirect env c sec code p cl (a, m) = ((b, m'), lb)"
  shows "(m' = m \<and> (\<exists>e. lb_query lb = [(''state'', cli_state cl), (''error'', e)])) \<or>
    (\<exists>v. m' = put_code code v (c_now c) m \<and> cc_expires v = c_now c + cliCodeTTL \<and> cc_challenge v = cli_challenge cl \<and>
       lb_query lb = [(''state'', cli_state cl), (''code'', code)])"
  using assms by (auto simp: CLIRedirect_def Let_def split: prod.splits sum.splits login_error.splits)

lemma cliToken_session:
  assumes "cliToken s256 now (Some (code, verifier)) m = (m', CliSession s)"
  obtains v where "m code = Some v" "now \<le> cc_expires v" "s256 verifier = cc_challenge v" "s = cc_session v" "m' = m(code := None)"
  using assms by (auto simp: cliToken_def take_code_def split: option.splits if_splits)

lemma cliToken_shrinks: "cliToken s256 now body m = (m', r) \<Longrightarrow> m' k = Some v \<Longrightarrow> m k = Some v"
  by (auto simp: cliToken_def take_code_def split: option.splits prod.splits if_splits)

lemma exchange_filter: "(\<forall>t ver x. Exchanged code ver t x \<notin> set es) \<Longrightarrow> filter (exchange_of code) es = []"
  by (induction es) (auto elim!: exchange_of.elims)

lemma codes_sound_issued:
  assumes inv: "codes_sound s256 ((a, m), es)" and new: "\<forall>t v. Issued code t v \<notin> set es"
    and exp: "cc_expires v = now + cliCodeTTL"
  shows "codes_sound s256 ((b, put_code code v now m), es @ [Issued code now v])"
proof -
  have "filter (exchange_of code) es = []"
    by (rule exchange_filter) (use inv new in \<open>unfold codes_sound_def prod.case, blast\<close>)
  moreover have "put_code code v now m k = (if k = code then Some v else put_code code v now m k)" for k
    by (simp add: put_code_def)
  ultimately have "\<forall>k x. put_code code v now m k = Some x \<longrightarrow>
      (\<exists>t. Issued k t x \<in> set (es @ [Issued code now v])) \<and> filter (exchange_of k) (es @ [Issued code now v]) = []"
    using inv put_code_old [of code v now m] unfolding codes_sound_def prod.case
    by (metis (no_types, lifting) UnCI append_Nil2 exchange_of.simps(1) filter.simps filter_append list.set_intros(1) option.inject set_append)
  moreover have "\<exists>t w. Issued k t w \<in> set (es @ [Issued code now v]) \<and> x = cc_session w \<and> s256 ver = cc_challenge w \<and>
      u \<le> cc_expires w" if "Exchanged k ver u x \<in> set es" for k ver u x
    using inv that unfolding codes_sound_def prod.case set_append by blast
  ultimately show ?thesis using inv exp unfolding codes_sound_def prod.case by simp
qed

lemma codes_sound_exchanged:
  assumes inv: "codes_sound s256 ((a, m), es)" and v: "m code = Some v" "now \<le> cc_expires v"
    "s256 verifier = cc_challenge v" "x = cc_session v"
  shows "codes_sound s256 ((b, m(code := None)), es @ [Exchanged code verifier now x])"
proof -
  from inv v(1) obtain t where t: "Issued code t v \<in> set es" and no: "filter (exchange_of code) es = []"
    unfolding codes_sound_def by blast
  have "length (filter (exchange_of k) (es @ [Exchanged code verifier now x])) \<le> 1" for k
    using inv no unfolding codes_sound_def prod.case by (cases "k = code") simp_all
  moreover have "\<forall>k u. (m(code := None)) k = Some u \<longrightarrow> (\<exists>t. Issued k t u \<in> set (es @ [Exchanged code verifier now x])) \<and>
      filter (exchange_of k) (es @ [Exchanged code verifier now x]) = []"
    using inv unfolding codes_sound_def prod.case by simp
  moreover have "\<exists>t u. Issued code t u \<in> set es \<and> x = cc_session u \<and> s256 verifier = cc_challenge u \<and> now \<le> cc_expires u"
    using t v by blast
  ultimately show ?thesis using inv unfolding codes_sound_def prod.case by auto
qed

interpretation codes: inductive_invariant no_codes "code_step s256" "codes_sound s256"
proof
  fix s assume "no_codes s"
  then show "codes_sound s256 s" by (auto simp: no_codes_def codes_sound_def)
next
  fix s t assume inv: "codes_sound s256 s" and step: "code_step s256 s t"
  from step show "codes_sound s256 t"
  proof cases
    case (code_refused env c sec code p cl a m b m' lb es)
    from CLIRedirect_codes [OF code_refused(3)] code_refused(4) have "m' = m" by auto
    with inv show ?thesis unfolding code_refused(1,2) by (simp add: codes_sound_def)
  next
    case (code_issued env c sec code p cl a m b m' lb v es)
    from CLIRedirect_codes [OF code_issued(3)] code_issued(4,5) have "m' = put_code code v (c_now c) m"
      and "cc_expires v = c_now c + cliCodeTTL" by (auto simp: put_code_def)
    with inv code_issued(6) show ?thesis unfolding code_issued(1,2) by (auto intro!: codes_sound_issued)
  next
    case (code_failed now body m m' n a es)
    with inv cliToken_shrinks [OF code_failed(3)] show ?thesis
      unfolding code_failed(1,2) by (simp add: codes_sound_def)
  next
    case (code_exchanged now code verifier m m' x a es)
    from code_exchanged(3) obtain v where "m code = Some v" "now \<le> cc_expires v" "s256 verifier = cc_challenge v"
      "x = cc_session v" "m' = m(code := None)" by (rule cliToken_session)
    with inv show ?thesis unfolding code_exchanged(1,2) by (simp only: codes_sound_exchanged)
  next
    case (code_other a m es b)
    with inv show ?thesis by (simp add: codes_sound_def)
  qed
qed

text \<open>
  Claim C34. A login code of the command line is worth one session, once: over any order of logins and
  attempts, whoever makes them, a code is exchanged at most once, for the session it was issued for,
  by who knows the verifier of the challenge that login began with, and within a minute of being
  issued. (Codes are random: none is issued twice.)
\<close>

theorem code_exchanged_once:
  assumes "reach no_codes (code_step s256) ((a, m), es)"
  shows "length (filter (exchange_of code) es) \<le> 1 \<and>
    (Exchanged code verifier now x \<in> set es \<longrightarrow> (\<exists>t v. Issued code t v \<in> set es \<and> x = cc_session v \<and>
       s256 verifier = cc_challenge v \<and> now \<le> t + cliCodeTTL))"
  using codes.reach_inv [OF assms] unfolding codes_sound_def by fastforce

section \<open>Who the provider says\<close>

lemma identify_subject: "identify t info = Inr u \<Longrightarrow> ou_subject u = it_subject t"
  by (auto simp: identify_def Let_def merge_claims_def split: sum.splits if_splits option.splits prod.splits)

text \<open>
  Claim C35. A login over OpenID Connect is of the person the provider named to this browser: it ends
  only with the sealed state of a login begun here at most ten minutes before and the same state in
  the answer, with an ID token got for the answer's code with that login's verifier, accepted by the
  provider's verifier and bearing that login's nonce, and the identity is the issuer and the subject
  of that ID token, whatever the userinfo says.
\<close>

theorem oidc_login_proved:
  assumes "oidc_callback pv now cookie q = LoggedIn p nxt \<or> oidc_callback pv now cookie q = LoggedInCLI p cl"
  shows "\<exists>st raw t. cookie = Some st \<and> unix now \<le> ls_expires st \<and> url_get q ''state'' = ls_state st \<and>
    pv_exchange pv (url_get q ''code'') (ls_verifier st) = Inr raw \<and> pv_verify pv raw = Inr t \<and>
    it_nonce t = ls_nonce st \<and> pe_identity p = ''oidc:'' @ pv_issuer pv @ ''#'' @ it_subject t \<and>
    pe_claim_sub p = it_subject t"
proof (cases cookie)
  case (Some st)
  with assms obtain raw t u where
    "\<not> ls_expires st < unix now" "url_get q ''state'' = ls_state st"
    "pv_exchange pv (url_get q ''code'') (ls_verifier st) = Inr raw" "pv_verify pv raw = Inr t"
    "it_nonce t = ls_nonce st" and u: "identify t (pv_userinfo pv) = Inr u" "p = oidc_person (pv_issuer pv) u"
    by (auto simp: oidc_callback_def split: if_splits sum.splits option.splits)
  with Some show ?thesis using identify_subject [OF u(1)] by (auto simp: oidc_person_def)
qed (use assms in \<open>simp add: oidc_callback_def\<close>)

text \<open>An address the provider says is not verified is never the name of a login.\<close>

theorem unverified_email_unused:
  assumes "it_claims t = Inr c" "oc_verified c = Some False" "info = None" "identify t info = Inr u"
  shows "ou_email u = [] \<and> (oc_preferred c = [] \<longrightarrow> oidc_actor u = it_subject t)"
  using assms by (auto simp: identify_def Let_def merge_claims_def oidc_actor_def split: if_splits)


section \<open>Examples\<close>

definition sample_back :: cli_login where
  "sample_back = \<lparr>cli_port = 4000, cli_state = ''0123456789abcdef'', cli_challenge = ''sv''\<rparr>"

definition sample_code :: cli_code where
  "sample_code = \<lparr>cc_session = \<lparr>cs_secret = ''x'', cs_expires_at = tk_expires_at (projr (snd ann_session))\<rparr>,
     cc_challenge = ''sv'', cc_expires = 10 + cliCodeTTL\<rparr>"

lemma sample_issue:
  "CLIRedirect Access.sample_env (at_time 10 ''S'') ''x'' ''k'' ann sample_back (with_rule, Map.empty) =
     ((fst ann_session, [''k'' \<mapsto> sample_code]), \<lparr>lb_port = 4000, lb_query = [(''state'', ''0123456789abcdef''), (''code'', ''k'')]\<rparr>)"
proof -
  obtain b t where b: "ann_session = (b, Inr t)" using ann_logs_in by blast
  show ?thesis unfolding CLIRedirect_def Let_def prod.case ann_session_def [symmetric] b
    by (simp add: sample_back_def sample_code_def put_code_def at_time_def b)
qed

lemma sample_exchange:
  "cliToken (\<lambda>s. CHR ''s'' # s) 20 (Some (''k'', ''v'')) [''k'' \<mapsto> sample_code] = (Map.empty, CliSession (cc_session sample_code))"
  by (simp add: cliToken_def take_code_def sample_code_def cliCodeTTL_def)

theorem code_exchanged_once_witness:
  "\<exists>t v. Issued ''k'' t v \<in> set [Issued ''k'' 10 sample_code, Exchanged ''k'' ''v'' 20 (cc_session sample_code)] \<and> 20 \<le> t + cliCodeTTL"
proof -
  define h where "h = (\<lambda>s :: string. CHR ''s'' # s)"
  have start: "reach no_codes (code_step h) ((with_rule, Map.empty), [])"
    by (rule reach_init) (simp add: no_codes_def)
  have "code_step h ((with_rule, Map.empty), []) ((fst ann_session, [''k'' \<mapsto> sample_code]), [] @ [Issued ''k'' (c_now (at_time 10 ''S'')) sample_code])"
    by (rule code_issued [OF sample_issue]) simp_all
  then have "code_step h ((with_rule, Map.empty), []) ((fst ann_session, [''k'' \<mapsto> sample_code]), [Issued ''k'' 10 sample_code])"
    by (simp only: append_Nil at_time_def call.simps)
  with start have one: "reach no_codes (code_step h) ((fst ann_session, [''k'' \<mapsto> sample_code]), [Issued ''k'' 10 sample_code])"
    by (rule reach_step)
  have "code_step h ((fst ann_session, [''k'' \<mapsto> sample_code]), [Issued ''k'' 10 sample_code])
      ((fst ann_session, Map.empty), [Issued ''k'' 10 sample_code] @ [Exchanged ''k'' ''v'' 20 (cc_session sample_code)])"
    by (rule code_exchanged [OF sample_exchange [folded h_def]])
  with one have "reach no_codes (code_step h) ((fst ann_session, Map.empty),
      [Issued ''k'' 10 sample_code] @ [Exchanged ''k'' ''v'' 20 (cc_session sample_code)])"
    by (rule reach_step)
  from code_exchanged_once [OF this, of "''k''" "''v''" 20 "cc_session sample_code"] show ?thesis
    unfolding append.simps by (metis list.set_intros(1) list.set_intros(2))
qed

text \<open>A file of one user and a group of it.\<close>

theorem basic_auth_sound_witness:
  "dom (ba_groups \<lparr>ba_users = [''ada'' \<mapsto> ''h1''], ba_groups = [''ada'' \<mapsto> [''ops'']], ba_dummy = ''d''\<rparr>) \<subseteq> {''ada''}"
proof -
  have trims: "trim_space ''ada:h1'' = ''ada:h1''" "trim_space ''ops: ada'' = ''ops: ada''" "trim_space ''ops'' = ''ops''"
    "fields_from [] '' ada'' = [''ada'']" by code_simp+
  have "NewBasicAuth (\<lambda>_. None) ''u'' (Inr ([''ada:h1''], None)) ''g'' (Inr ([''ops: ada''], None)) (Inr ''d'') =
      Inr \<lparr>ba_users = [''ada'' \<mapsto> ''h1''], ba_groups = [''ada'' \<mapsto> [''ops'']], ba_dummy = ''d''\<rparr>"
    by (simp add: NewBasicAuth_def parseUsersFile_def parseGroupsFile_def Let_def trims skipped_line_def cut_at_def fun_eq_iff)
  from basic_auth_sound [OF this] show ?thesis by simp
qed

definition sample_provider :: provider where
  "sample_provider = \<lparr>pv_issuer = ''idp'', pv_reached = True, pv_exchange = (\<lambda>code v. if code = ''c'' \<and> v = ''ver'' then Inr ''raw'' else Inl ''no''),
     pv_verify = (\<lambda>raw. if raw = ''raw'' then Inr \<lparr>it_subject = ''u1'', it_nonce = ''n'',
       it_claims = Inr \<lparr>oc_preferred = ''ada'', oc_email = [], oc_verified = None, oc_groups = [''ops'']\<rparr>\<rparr> else Inl ''no''),
     pv_userinfo = None\<rparr>"

definition sample_login :: login_state where
  "sample_login = \<lparr>ls_state = ''s'', ls_nonce = ''n'', ls_verifier = ''ver'', ls_next = ''/jobs'', ls_expires = 600, ls_cli = None\<rparr>"

theorem oidc_login_proved_witness:
  "\<exists>st. Some sample_login = Some st \<and> unix (30 * second) \<le> ls_expires st"
proof -
  have "oidc_callback sample_provider (30 * second) (Some sample_login) [''state'' \<mapsto> ''s'', ''code'' \<mapsto> ''c''] =
      LoggedIn (oidc_person ''idp'' \<lparr>ou_subject = ''u1'', ou_preferred = ''ada'', ou_email = [], ou_groups = [''ops'']\<rparr>) ''/jobs''"
    by (simp add: oidc_callback_def sample_login_def sample_provider_def url_get_def unix_def identify_def Let_def merge_claims_def)
  from oidc_login_proved [OF disjI1 [OF this]] show ?thesis by blast
qed

end
