(* ===== verification/Settings.thy ===== *)
theory Settings
  imports GoText Glob
begin

text \<open>
  How one setting is read (\<open>internal/config/config.go\<close>): durations, URLs, lists, files, paths inside
  the repository, addresses, log levels, and the patterns of the jobs of a repository. An error is
  its message. What reads files, URLs, durations and time zones is in \<open>config_env\<close>.
\<close>

text \<open>What a start reads: the parser of URLs, the files, the time zones, the parser of durations.\<close>

record config_env =
  ce_url :: "string \<Rightarrow> string + url"
  ce_read :: "string \<Rightarrow> string + string"
  ce_open :: "string \<Rightarrow> string + bool" \<comment> \<open>whether it is a directory\<close>
  ce_duration :: "string \<Rightarrow> string + duration"
  ce_zone :: "string \<Rightarrow> string option" \<comment> \<open>the error of loading it\<close>

definition required :: "string \<Rightarrow> string + string" where
  "required v = (if v = [] then Inl ''required'' else Inr v)"

definition gitPath :: "string \<Rightarrow> string + string" where
  "gitPath v = (if v = [] then Inr []
     else let clean = path_clean v in
       if clean = ''.'' then Inr []
       else if prefix ''/'' clean \<or> clean = ''..'' \<or> prefix ''../'' clean
         then Inl (go_quote v @ '' must be a relative path inside the repository'')
       else Inr clean)"

definition csvList :: "string \<Rightarrow> string list" where
  "csvList v = filter (\<lambda>x. x \<noteq> []) (map trim_space (split_on CHR '','' v))"

definition namespaceList :: "string \<Rightarrow> string + string list" where
  "namespaceList v = (let out = foldl (\<lambda>out ns. if ns \<in> set out then out else out @ [ns]) [] (csvList v) in
     if out = [] then Inl ''required'' else Inr out)"

definition positiveDuration :: "config_env \<Rightarrow> string \<Rightarrow> string + duration" where
  "positiveDuration ce v = bindE (ce_duration ce v) (\<lambda>d.
     if d \<le> 0 then Inl (''duration '' @ go_quote v @ '' must be positive'') else Inr d)"

definition nonNegativeDuration :: "config_env \<Rightarrow> string \<Rightarrow> string + duration" where
  "nonNegativeDuration ce v = bindE (ce_duration ce v) (\<lambda>d.
     if d < 0 then Inl (''duration '' @ go_quote v @ '' must not be negative'') else Inr d)"

definition httpURL :: "config_env \<Rightarrow> string \<Rightarrow> string + string" where
  "httpURL ce v = bindE (ce_url ce v) (\<lambda>u.
     if (ur_scheme u \<noteq> ''http'' \<and> ur_scheme u \<noteq> ''https'') \<or> ur_host u = []
     then Inl (go_quote v @ '' is not an http:// or https:// URL with a host'') else Inr v)"

definition timeZone :: "config_env \<Rightarrow> string \<Rightarrow> string + string" where
  "timeZone ce v =
     (if v = [] \<or> v = ''Local'' then Inl (go_quote v @ '' is not an IANA time zone name (Europe/Rome, America/New_York, UTC)'')
      else case ce_zone ce v of
          Some m \<Rightarrow> Inl (''unknown time zone '' @ go_quote v @ '' (want an IANA name such as Europe/Rome or UTC): '' @ m)
        | None \<Rightarrow> Inr v)"

definition optionalURL :: "config_env \<Rightarrow> string \<Rightarrow> string + string" where
  "optionalURL ce v = (if v = [] then Inr [] else map_sum id trim_slashes (httpURL ce v))"

definition readableFile :: "config_env \<Rightarrow> string \<Rightarrow> string + string" where
  "readableFile ce p = (if p = [] then Inr []
     else bindE (ce_open ce p) (\<lambda>dir. if dir then Inl (p @ '' is a directory'') else Inr p))"

definition secretFile :: "config_env \<Rightarrow> string \<Rightarrow> string + string" where
  "secretFile ce p = (if p = [] then Inr []
     else bindE (ce_read ce p) (\<lambda>s. if trim_space s = [] then Inl (p @ '' is empty'') else Inr (trim_space s)))"

definition urlFile :: "config_env \<Rightarrow> string \<Rightarrow> string + string" where
  "urlFile ce p = (case secretFile ce p of Inl m \<Rightarrow> Inl m
     | Inr v \<Rightarrow> if v = [] then Inr []
         else if is_ok (httpURL ce v) then Inr v
         else Inl (p @ '' does not hold an http:// or https:// URL with a host''))"

definition parse_bool :: "string \<Rightarrow> string + bool" where
  "parse_bool v = (case ParseBool v of
     None \<Rightarrow> Inl (''strconv.ParseBool: parsing '' @ go_quote v @ '': invalid syntax'') | Some b \<Rightarrow> Inr b)"

section \<open>Log levels\<close>

text \<open>
  \<open>strings.ToUpper\<close> as a comparison with an ASCII name sees it: the dotless i and the long s have
  upper cases in ASCII, every other character outside ASCII has one outside it and stays.
\<close>

fun to_upper :: "string \<Rightarrow> string" where
  "to_upper [] = []"
| "to_upper [c] = [if between CHR ''a'' CHR ''z'' c then char_of (byte c - 32) else c]"
| "to_upper (c # d # s) =
     (if c = CHR 0xC4 \<and> d = CHR 0xB1 then CHR ''I'' # to_upper s
      else if c = CHR 0xC5 \<and> d = CHR 0xBF then CHR ''S'' # to_upper s
      else (if between CHR ''a'' CHR ''z'' c then char_of (byte c - 32) else c) # to_upper (d # s))"

definition atoi :: "string \<Rightarrow> string + int" where
  "atoi s = (case Atoi s of Some n \<Rightarrow> Inr n
     | None \<Rightarrow> Inl (''strconv.Atoi: parsing '' @ go_quote s @ '': '' @
         (if digits_value (if s \<noteq> [] \<and> hd s \<in> {CHR ''-'', CHR ''+''} then tl s else s) = None
          then ''invalid syntax'' else ''value out of range'')))"

text \<open>The parse of \<open>slog.Level\<close>: a name, and a number after it to add.\<close>

definition parse_level :: "string \<Rightarrow> string + int" where
  "parse_level s = (let sign = (\<lambda>c. c = CHR ''+'' \<or> c = CHR ''-'');
       name = takeWhile (\<lambda>c. \<not> sign c) s; rest = dropWhile (\<lambda>c. \<not> sign c) s;
       err = (\<lambda>m. Inl (''slog: level string '' @ go_quote s @ '': '' @ m)) in
     (case (if rest = [] then Inr 0 else atoi rest) of Inl m \<Rightarrow> err m
      | Inr k \<Rightarrow>
        if to_upper name = ''DEBUG'' then Inr (wrap64 (-4 + k))
        else if to_upper name = ''INFO'' then Inr k
        else if to_upper name = ''WARN'' then Inr (wrap64 (4 + k))
        else if to_upper name = ''ERROR'' then Inr (wrap64 (8 + k))
        else err ''unknown name''))"

section \<open>Addresses\<close>

text \<open>A text at its last colon: what is before it and what is after.\<close>

definition last_colon :: "string \<Rightarrow> string \<times> string" where
  "last_colon s = (rev (drop 1 (dropWhile (\<lambda>c. c \<noteq> CHR '':'') (rev s))), rev (takeWhile (\<lambda>c. c \<noteq> CHR '':'') (rev s)))"

definition addr_error :: "string \<Rightarrow> string \<Rightarrow> string" where
  "addr_error addr why = (if addr = [] then why else ''address '' @ addr @ '': '' @ why)"

definition SplitHostPort :: "string \<Rightarrow> string + string \<times> string" where
  "SplitHostPort s = (case last_colon s of (host, port) \<Rightarrow>
     let fail = (\<lambda>why. Inl (addr_error s why));
       ends = (\<lambda>h i j. if CHR ''['' \<in> set (drop i s) then fail ''unexpected '[' in address''
         else if CHR 0x5D \<in> set (drop j s) then fail ''unexpected ']' in address'' else Inr (h, port)) in
     if CHR '':'' \<notin> set s then fail ''missing port in address''
     else if hd s = CHR ''['' then
       (if CHR 0x5D \<notin> set s then fail ''missing ']' in address''
        else let inside = takeWhile (\<lambda>c. c \<noteq> CHR 0x5D) (tl s); k = length inside + 2 in
          if k = length s then fail ''missing port in address''
          else if k \<noteq> length host then
            fail (if s ! k = CHR '':'' then ''too many colons in address'' else ''missing port in address'')
          else ends inside 1 k)
     else if CHR '':'' \<in> set host then fail ''too many colons in address''
     else ends host 0 0)"

definition JoinHostPort :: "string \<Rightarrow> string \<Rightarrow> string" where
  "JoinHostPort host port = (if CHR '':'' \<in> set host then ''['' @ host @ [CHR 0x5D, CHR '':''] @ port else host @ '':'' @ port)"

definition publicURLDefault :: "string \<Rightarrow> bool \<Rightarrow> string" where
  "publicURLDefault addr tls = (case SplitHostPort addr of Inl _ \<Rightarrow> []
     | Inr (host, port) \<Rightarrow> (if tls then ''https'' else ''http'') @ ''://'' @
         JoinHostPort (if host \<in> {[], ''0.0.0.0'', ''::''} then ''localhost'' else host) port)"

definition basePathOf :: "config_env \<Rightarrow> string \<Rightarrow> string" where
  "basePathOf ce s = (case ce_url ce s of Inl _ \<Rightarrow> []
     | Inr u \<Rightarrow> let p = path_clean (ur_path u) in if p = ''.'' \<or> p = ''/'' then [] else p)"

section \<open>The jobs of a repository\<close>

definition api_DefaultNamespace :: string where "api_DefaultNamespace = ''default''"

text \<open>One entry of the list: the pattern with its namespace. A pattern \<open>path.Match\<close> refuses has no tokens.\<close>

definition job_pattern :: "string list \<Rightarrow> string \<Rightarrow> string + string" where
  "job_pattern namespaces entry =
     (let p = (if CHR ''/'' \<in> set entry then entry else api_DefaultNamespace @ ''/'' @ entry) in
      case cut_at (CHR ''/'') p of (ns, i, _) \<Rightarrow>
        if ns = [] \<or> i = [] then Inl (go_quote entry @ '' must be <namespace>/<job ID>'')
        else if glob_toks p = None then Inl (go_quote entry @ '': syntax error in pattern'')
        else if \<not> list_ex (path_match ns) namespaces then
          Inl (go_quote entry @ '' matches no managed namespace ('' @ join_with '', '' namespaces @ '')'')
        else Inr p)"

fun job_patterns_loop :: "string list \<Rightarrow> string list \<Rightarrow> string + string list" where
  "job_patterns_loop namespaces [] = Inr []"
| "job_patterns_loop namespaces (p # ps) =
     bindE (job_pattern namespaces p) (\<lambda>q. bindE (job_patterns_loop namespaces ps) (\<lambda>qs. Inr (q # qs)))"

definition jobPatterns :: "string list \<Rightarrow> string list \<Rightarrow> string + string list" where
  "jobPatterns ps namespaces = (if ps = [] then Inl ''is empty: remove the block to stop reading the repository''
     else job_patterns_loop namespaces ps)"

end
