(* ===== verification/Secret.thy ===== *)
theory Secret
  imports GoText
begin

text \<open>
  The secrets Nops makes (\<open>internal/secret/secret.go\<close>): a prefix and 32 random bytes in the URL alphabet
  of base64, without padding. The random bytes are an argument.
\<close>

section \<open>Base64\<close>

text \<open>\<open>base64.RawURLEncoding\<close>: three bytes to four characters; the decoder skips line breaks and ignores the bits left over.\<close>

definition b64_alphabet :: string where
  "b64_alphabet = ''ABCDEFGHIJKLMNOPQRSTUVWXYZabcdefghijklmnopqrstuvwxyz0123456789-_''"

definition b64_char :: "nat \<Rightarrow> char" where
  "b64_char n = b64_alphabet ! n"

definition b64_value :: "char \<Rightarrow> nat option" where
  "b64_value c = (if c \<in> set b64_alphabet then Some (length (takeWhile (\<lambda>x. x \<noteq> c) b64_alphabet)) else None)"

fun b64_encode :: "string \<Rightarrow> string" where
  "b64_encode [] = []"
| "b64_encode [a] = [b64_char (byte a div 4), b64_char (byte a mod 4 * 16)]"
| "b64_encode [a, b] = [b64_char (byte a div 4), b64_char (byte a mod 4 * 16 + byte b div 16), b64_char (byte b mod 16 * 4)]"
| "b64_encode (a # b # c # r) =
     [b64_char (byte a div 4), b64_char (byte a mod 4 * 16 + byte b div 16),
      b64_char (byte b mod 16 * 4 + byte c div 64), b64_char (byte c mod 64)] @ b64_encode r"

fun b64_bytes :: "nat list \<Rightarrow> string option" where
  "b64_bytes [] = Some []"
| "b64_bytes [w] = None"
| "b64_bytes [w, x] = Some [char_of (w * 4 + x div 16)]"
| "b64_bytes [w, x, y] = Some [char_of (w * 4 + x div 16), char_of (x mod 16 * 16 + y div 4)]"
| "b64_bytes (w # x # y # z # r) = map_option
     (\<lambda>s. [char_of (w * 4 + x div 16), char_of (x mod 16 * 16 + y div 4), char_of (y mod 4 * 64 + z)] @ s) (b64_bytes r)"

definition b64_decode :: "string \<Rightarrow> string option" where
  "b64_decode s = (let vs = map b64_value (filter (\<lambda>c. c \<noteq> CHR 0x0A \<and> c \<noteq> CHR 0x0D) s) in
     if None \<in> set vs then None else b64_bytes (map the vs))"

section \<open>Secrets\<close>

definition Prefix :: string where "Prefix = ''nops_''"

text \<open>\<open>New\<close>, with the bytes it draws.\<close>

definition secret_of :: "string \<Rightarrow> string" where
  "secret_of b = Prefix @ b64_encode b"

definition Valid :: "string \<Rightarrow> bool" where
  "Valid s = (case cut_prefix Prefix s of None \<Rightarrow> False
     | Some rest \<Rightarrow> (case b64_decode rest of None \<Rightarrow> False | Some b \<Rightarrow> length b = 32 \<and> b64_encode b = rest))"

section \<open>What decodes what was encoded\<close>

lemma b64_alphabet_facts: "length b64_alphabet = 64" "distinct b64_alphabet"
  "CHR 0x0A \<notin> set b64_alphabet" "CHR 0x0D \<notin> set b64_alphabet"
  by (simp_all add: b64_alphabet_def)

lemma takeWhile_nth: "distinct xs \<Longrightarrow> n < length xs \<Longrightarrow> length (takeWhile (\<lambda>x. x \<noteq> xs ! n) xs) = n"
proof (induction xs arbitrary: n)
  case (Cons x xs)
  then show ?case by (cases n) auto
qed simp

lemma b64_char: "n < 64 \<Longrightarrow> b64_value (b64_char n) = Some n \<and> b64_char n \<noteq> CHR 0x0A \<and> b64_char n \<noteq> CHR 0x0D"
proof -
  assume n: "n < 64"
  then have "b64_char n \<in> set b64_alphabet" by (simp add: b64_char_def b64_alphabet_facts(1))
  moreover have "length (takeWhile (\<lambda>x. x \<noteq> b64_char n) b64_alphabet) = n"
    using n unfolding b64_char_def by (simp add: takeWhile_nth b64_alphabet_facts)
  ultimately show ?thesis using b64_alphabet_facts(3,4) by (auto simp: b64_value_def)
qed

lemma two_digits: fixes q r k :: nat shows "r < k \<Longrightarrow> (q * k + r) div k = q" "r < k \<Longrightarrow> (q * k + r) mod k = r"
  by simp_all

lemma byte_digits: "byte a div 4 < 64" "byte a div 16 < 16" "byte a div 64 < 4" "byte a div 16 div 16 = 0" "byte a div 64 div 4 = 0"
proof -
  have "byte a < 256" by (rule nat_of_char_less_256)
  then show "byte a div 4 < 64" "byte a div 16 < 16" "byte a div 64 < 4" "byte a div 16 div 16 = 0" "byte a div 64 div 4 = 0"
    by linarith+
qed

lemma byte_parts: "byte a div k * k + byte a mod k = byte a"
  by (rule div_mult_mod_eq)

text \<open>A text is encoded as characters of the alphabet whose values give it back.\<close>

lemma b64_groups: "\<exists>ns. b64_encode s = map b64_char ns \<and> (\<forall>n\<in>set ns. n < 64) \<and> b64_bytes ns = Some s"
proof (induction s rule: b64_encode.induct)
  case (2 a)
  have "byte a mod 4 * 16 < 64" by linarith
  then show ?case using byte_digits [of a] byte_parts [of a 4]
    by (intro exI [of _ "[byte a div 4, byte a mod 4 * 16]"]) simp
next
  case (3 a b)
  have "byte a mod 4 * 16 + byte b div 16 < 64" "byte b mod 16 * 4 < 64" using byte_digits(2) [of b] by linarith+
  then show ?case using byte_digits [of a] byte_digits [of b] byte_parts [of a 4] byte_parts [of b 16]
    by (intro exI [of _ "[byte a div 4, byte a mod 4 * 16 + byte b div 16, byte b mod 16 * 4]"])
      (simp add: two_digits [where k = 16])
next
  case (4 a b c r)
  then obtain ns where ns: "b64_encode r = map b64_char ns" "\<forall>n\<in>set ns. n < 64" "b64_bytes ns = Some r" by blast
  have "byte a mod 4 * 16 + byte b div 16 < 64" "byte b mod 16 * 4 + byte c div 64 < 64"
    using byte_digits(2) [of b] byte_digits(3) [of c] by linarith+
  then show ?case
    using ns byte_digits [of a] byte_digits [of b] byte_digits [of c] byte_parts [of a 4] byte_parts [of b 16] byte_parts [of c 64]
    by (intro exI [of _ "[byte a div 4, byte a mod 4 * 16 + byte b div 16, byte b mod 16 * 4 + byte c div 64, byte c mod 64] @ ns"])
      (simp add: two_digits [where k = 16] two_digits [where k = 4])
qed simp

lemma b64_round_trip: "b64_decode (b64_encode s) = Some s"
proof -
  obtain ns where ns: "b64_encode s = map b64_char ns" "\<forall>n\<in>set ns. n < 64" "b64_bytes ns = Some s"
    using b64_groups by blast
  from ns(2) have "filter (\<lambda>c. c \<noteq> CHR 0x0A \<and> c \<noteq> CHR 0x0D) (map b64_char ns) = map b64_char ns"
    using b64_char by (auto simp: filter_id_conv)
  moreover have "map b64_value (map b64_char ns) = map Some ns" using ns(2) b64_char by simp
  ultimately show ?thesis using ns(1,3) by (auto simp: b64_decode_def Let_def map_idI)
qed

text \<open>
  \<open>Valid\<close> accepts exactly what \<open>New\<close> makes: a text is a valid secret when, and only when,
  some 32 bytes give it, and different bytes give different secrets.
\<close>

theorem valid_iff_made:
  "(Valid s \<longleftrightarrow> (\<exists>b. length b = 32 \<and> s = secret_of b)) \<and> (secret_of a = secret_of b \<longleftrightarrow> a = b)"
proof -
  have "secret_of a = secret_of b \<longleftrightarrow> a = b"
    using b64_round_trip by (metis option.inject same_append_eq secret_of_def)
  moreover have "Valid s \<longleftrightarrow> (\<exists>b. length b = 32 \<and> s = secret_of b)"
    using b64_round_trip
    by (auto simp: Valid_def secret_of_def cut_prefix_def prefix_def split: option.splits)
  ultimately show ?thesis by blast
qed

end
