(* ===== verification/Config.thy ===== *)
theory Config
  imports Settings Secret
begin

text \<open>
  The configuration of a start (\<open>internal/config/config.go\<close>): the flags, the variables, the \<open>-config\<close> file,
  and the checks across them. Field \<open>X\<close> of the code's \<open>Config\<close> is \<open>co_X\<close> here. A file of \<open>-config\<close> is what
  its HCL decodes to (an argument), and a time zone is its name.
\<close>

section \<open>The configuration\<close>

record repository =
  rp_name :: string
  rp_url :: string
  rp_branch :: string
  rp_path :: string
  rp_username :: string
  rp_token_file :: string
  rp_token :: string
  rp_timeout :: duration
  rp_jobs :: "string list option"

record config =
  co_NomadAddr :: string
  co_NomadUIURL :: string
  co_NomadNamespaces :: "string list"
  co_NomadTokenFile :: string
  co_NomadToken :: string
  co_NomadCACert :: string
  co_NomadClientCert :: string
  co_NomadClientKey :: string
  co_NomadTLSSkipVerify :: bool
  co_NomadTimeout :: duration
  co_GitURL :: string
  co_GitBranch :: string
  co_GitPath :: string
  co_GitUsername :: string
  co_GitTokenFile :: string
  co_GitToken :: string
  co_GitTimeout :: duration
  co_ConfigFile :: string
  co_Repositories :: "repository list"
  co_DBPath :: string
  co_ListenAddr :: string
  co_ReadHeaderTimeout :: duration
  co_ReadTimeout :: duration
  co_WriteTimeout :: duration
  co_IdleTimeout :: duration
  co_TLSCertFile :: string
  co_TLSKeyFile :: string
  co_LoginMaxFailures :: int
  co_LoginFailureWindow :: duration
  co_AuthMode :: string
  co_OIDCIssuerURL :: string
  co_OIDCClientID :: string
  co_OIDCClientSecretFile :: string
  co_OIDCClientSecret :: string
  co_UsersFile :: string
  co_GroupsFile :: string
  co_WebhookSecretFile :: string
  co_WebhookSecret :: string
  co_ACL :: bool
  co_ACLBootstrapTokenFile :: string
  co_ACLBootstrapToken :: string
  co_NotifyWebhookURLFile :: string
  co_NotifyWebhookURL :: string
  co_NotifyWebhookTokenFile :: string
  co_NotifyWebhookToken :: string
  co_NotifyDiscordURLFile :: string
  co_NotifyDiscordURL :: string
  co_NotifySlackURLFile :: string
  co_NotifySlackURL :: string
  co_NotifyNtfyURL :: string
  co_NotifyNtfyTokenFile :: string
  co_NotifyNtfyToken :: string
  co_NotifyGotifyURL :: string
  co_NotifyGotifyTokenFile :: string
  co_NotifyGotifyToken :: string
  co_NotifyTimeout :: duration
  co_PublicURL :: string
  co_BasePath :: string
  co_GitPollInterval :: duration
  co_DriftInterval :: duration
  co_EngineInterval :: duration
  co_HookPollInterval :: duration
  co_ApplyTimeout :: duration
  co_SyncWindowLocation :: "string option"
  co_LogLevel :: int

definition DefaultRepository :: string where "DefaultRepository = ''default''"

definition defaultRepositoryTimeout :: duration where "defaultRepositoryTimeout = 120 * second"

text \<open>What \<open>Load\<close> starts from.\<close>

definition initial_config :: config where
  "initial_config = \<lparr>
     co_NomadAddr = [], co_NomadUIURL = [], co_NomadNamespaces = [], co_NomadTokenFile = [], co_NomadToken = [],
     co_NomadCACert = [], co_NomadClientCert = [], co_NomadClientKey = [], co_NomadTLSSkipVerify = False,
     co_NomadTimeout = 30 * second, co_GitURL = [], co_GitBranch = [], co_GitPath = [], co_GitUsername = [],
     co_GitTokenFile = [], co_GitToken = [], co_GitTimeout = 0, co_ConfigFile = [], co_Repositories = [], co_DBPath =
     [], co_ListenAddr = [], co_ReadHeaderTimeout = 10 * second, co_ReadTimeout = 60 * second, co_WriteTimeout = 60 *
     second, co_IdleTimeout = 120 * second, co_TLSCertFile = [], co_TLSKeyFile = [], co_LoginMaxFailures = 10,
     co_LoginFailureWindow = 900 * second, co_AuthMode = [], co_OIDCIssuerURL = [], co_OIDCClientID = [],
     co_OIDCClientSecretFile = [], co_OIDCClientSecret = [], co_UsersFile = [], co_GroupsFile = [],
     co_WebhookSecretFile = [], co_WebhookSecret = [], co_ACL = False, co_ACLBootstrapTokenFile = [],
     co_ACLBootstrapToken = [], co_NotifyWebhookURLFile = [], co_NotifyWebhookURL = [], co_NotifyWebhookTokenFile =
     [], co_NotifyWebhookToken = [], co_NotifyDiscordURLFile = [], co_NotifyDiscordURL = [], co_NotifySlackURLFile =
     [], co_NotifySlackURL = [], co_NotifyNtfyURL = [], co_NotifyNtfyTokenFile = [], co_NotifyNtfyToken = [],
     co_NotifyGotifyURL = [], co_NotifyGotifyTokenFile = [], co_NotifyGotifyToken = [], co_NotifyTimeout = 0,
     co_PublicURL = [], co_BasePath = [], co_GitPollInterval = 0, co_DriftInterval = 0, co_EngineInterval = 0,
     co_HookPollInterval = 0, co_ApplyTimeout = 0, co_SyncWindowLocation = None, co_LogLevel = 0\<rparr>"

section \<open>The options\<close>

text \<open>
  An option of a flag and a variable. Its setter changes the configuration and may fail; Go's
  assignment of a result and an error leaves the zero value where it failed.
\<close>

record option_spec =
  op_name :: string
  op_def :: string
  op_boolean :: bool
  op_set :: "config \<Rightarrow> string \<Rightarrow> config \<times> string option"

type_synonym 'a update = "('a \<Rightarrow> 'a) \<Rightarrow> config \<Rightarrow> config"

definition assign :: "'a \<Rightarrow> 'a update \<Rightarrow> (string \<Rightarrow> string + 'a) \<Rightarrow> config \<Rightarrow> string \<Rightarrow> config \<times> string option" where
  "assign zero upd f c v = (case f v of Inl m \<Rightarrow> (upd (\<lambda>_. zero) c, Some m) | Inr x \<Rightarrow> (upd (\<lambda>_. x) c, None))"

definition keep :: "string update \<Rightarrow> config \<Rightarrow> string \<Rightarrow> config \<times> string option" where
  "keep upd c v = (upd (\<lambda>_. v) c, None)"

definition assign_file :: "string update \<Rightarrow> string update \<Rightarrow> (string \<Rightarrow> string + string) \<Rightarrow> config \<Rightarrow> string \<Rightarrow> config \<times> string option" where
  "assign_file updf updv f c v = assign [] updv f (updf (\<lambda>_. v) c) v"

definition set_listen_addr :: "config \<Rightarrow> string \<Rightarrow> config \<times> string option" where
  "set_listen_addr c v = (case SplitHostPort v of
     Inl m \<Rightarrow> (c, Some (''invalid address '' @ go_quote v @ '': '' @ m)) | Inr _ \<Rightarrow> (c\<lparr>co_ListenAddr := v\<rparr>, None))"

definition set_auth_mode :: "config \<Rightarrow> string \<Rightarrow> config \<times> string option" where
  "set_auth_mode c v = (if v = [] then (c, Some ''required'')
     else if v \<in> {''oidc'', ''basic''} then (c\<lparr>co_AuthMode := v\<rparr>, None)
     else (c, Some (''must be \"oidc\" or \"basic\", not '' @ go_quote v)))"

definition set_issuer :: "config_env \<Rightarrow> config \<Rightarrow> string \<Rightarrow> config \<times> string option" where
  "set_issuer ce c v = (if v = [] then (c, None) else assign [] co_OIDCIssuerURL_update (httpURL ce) c v)"

definition set_zone :: "config_env \<Rightarrow> config \<Rightarrow> string \<Rightarrow> config \<times> string option" where
  "set_zone ce = assign None co_SyncWindowLocation_update (\<lambda>v. map_sum id Some (timeZone ce v))"

definition set_level :: "config \<Rightarrow> string \<Rightarrow> config \<times> string option" where
  "set_level c v = (case parse_level v of Inl m \<Rightarrow> (c, Some m) | Inr l \<Rightarrow> (c\<lparr>co_LogLevel := l\<rparr>, None))"

abbreviation "opt n d f \<equiv> \<lparr>op_name = n, op_def = d, op_boolean = False, op_set = f\<rparr>"
abbreviation "switch n d f \<equiv> \<lparr>op_name = n, op_def = d, op_boolean = True, op_set = f\<rparr>"

definition options :: "config_env \<Rightarrow> option_spec list" where
  "options ce =
    [opt ''nomad-addr'' ''http://127.0.0.1:4646'' (assign [] co_NomadAddr_update (httpURL ce)),
     opt ''nomad-ui-url'' '''' (assign [] co_NomadUIURL_update (optionalURL ce)),
     opt ''nomad-namespaces'' ''default'' (assign [] co_NomadNamespaces_update namespaceList),
     opt ''nomad-token-file'' '''' (assign_file co_NomadTokenFile_update co_NomadToken_update (secretFile ce)),
     opt ''nomad-ca-cert'' '''' (assign [] co_NomadCACert_update (readableFile ce)),
     opt ''nomad-client-cert'' '''' (assign [] co_NomadClientCert_update (readableFile ce)),
     opt ''nomad-client-key'' '''' (assign [] co_NomadClientKey_update (readableFile ce)),
     switch ''nomad-tls-skip-verify'' ''false'' (assign False co_NomadTLSSkipVerify_update parse_bool),
     opt ''config'' '''' (assign [] co_ConfigFile_update (readableFile ce)),
     opt ''git-url'' '''' (keep co_GitURL_update),
     opt ''git-branch'' ''main'' (assign [] co_GitBranch_update required),
     opt ''git-path'' '''' (assign [] co_GitPath_update gitPath),
     opt ''git-username'' ''git'' (keep co_GitUsername_update),
     opt ''git-token-file'' '''' (assign_file co_GitTokenFile_update co_GitToken_update (secretFile ce)),
     opt ''git-timeout'' ''2m'' (assign 0 co_GitTimeout_update (positiveDuration ce)),
     opt ''db-path'' ''nops.db'' (assign [] co_DBPath_update required),
     opt ''listen-addr'' '':8080'' set_listen_addr,
     opt ''auth-mode'' '''' set_auth_mode,
     opt ''oidc-issuer-url'' '''' (set_issuer ce),
     opt ''oidc-client-id'' '''' (keep co_OIDCClientID_update),
     opt ''oidc-client-secret-file'' '''' (assign_file co_OIDCClientSecretFile_update co_OIDCClientSecret_update (secretFile ce)),
     opt ''users-file'' '''' (assign [] co_UsersFile_update (readableFile ce)),
     opt ''groups-file'' '''' (assign [] co_GroupsFile_update (readableFile ce)),
     opt ''webhook-secret-file'' '''' (assign_file co_WebhookSecretFile_update co_WebhookSecret_update (secretFile ce)),
     switch ''acl'' ''false'' (assign False co_ACL_update parse_bool),
     opt ''acl-bootstrap-token-file'' '''' (assign_file co_ACLBootstrapTokenFile_update co_ACLBootstrapToken_update (secretFile ce)),
     opt ''notify-webhook-url-file'' '''' (assign_file co_NotifyWebhookURLFile_update co_NotifyWebhookURL_update (urlFile ce)),
     opt ''notify-webhook-token-file'' '''' (assign_file co_NotifyWebhookTokenFile_update co_NotifyWebhookToken_update (secretFile ce)),
     opt ''notify-discord-url-file'' '''' (assign_file co_NotifyDiscordURLFile_update co_NotifyDiscordURL_update (urlFile ce)),
     opt ''notify-slack-url-file'' '''' (assign_file co_NotifySlackURLFile_update co_NotifySlackURL_update (urlFile ce)),
     opt ''notify-ntfy-url'' '''' (assign [] co_NotifyNtfyURL_update (optionalURL ce)),
     opt ''notify-ntfy-token-file'' '''' (assign_file co_NotifyNtfyTokenFile_update co_NotifyNtfyToken_update (secretFile ce)),
     opt ''notify-gotify-url'' '''' (assign [] co_NotifyGotifyURL_update (optionalURL ce)),
     opt ''notify-gotify-token-file'' '''' (assign_file co_NotifyGotifyTokenFile_update co_NotifyGotifyToken_update (secretFile ce)),
     opt ''notify-timeout'' ''10s'' (assign 0 co_NotifyTimeout_update (positiveDuration ce)),
     opt ''public-url'' '''' (assign [] co_PublicURL_update (optionalURL ce)),
     opt ''git-poll-interval'' ''1m'' (assign 0 co_GitPollInterval_update (positiveDuration ce)),
     opt ''drift-interval'' ''5m'' (assign 0 co_DriftInterval_update (positiveDuration ce)),
     opt ''engine-interval'' ''5s'' (assign 0 co_EngineInterval_update (positiveDuration ce)),
     opt ''hook-poll-interval'' ''5s'' (assign 0 co_HookPollInterval_update (positiveDuration ce)),
     opt ''apply-timeout'' ''10m'' (assign 0 co_ApplyTimeout_update (positiveDuration ce)),
     opt ''sync-window-time-zone'' ''UTC'' (set_zone ce),
     opt ''log-level'' ''info'' set_level]"

text \<open>The variable of an option, and the options that are gone: their names, what replaces them, the variable of their value.\<close>

definition upper_char :: "char \<Rightarrow> char" where
  "upper_char c = (if c = CHR ''-'' then CHR ''_'' else if between CHR ''a'' CHR ''z'' c then char_of (byte c - 32) else c)"

definition env_name :: "string \<Rightarrow> string" where
  "env_name name = ''NOPS_'' @ map upper_char name"

record removed_option =
  ro_name :: string
  ro_replaced_by :: string
  ro_value_env :: string

definition removedOptions :: "removed_option list" where
  "removedOptions =
    [\<lparr>ro_name = ''oidc-allowed-users'', ro_replaced_by = ''limit who can log in at the identity provider, or with binding rules and -acl (docs/acl.md#binding-rules)'', ro_value_env = []\<rparr>,
     \<lparr>ro_name = ''oidc-allowed-groups'', ro_replaced_by = ''limit who can log in at the identity provider, or with binding rules and -acl (docs/acl.md#binding-rules)'', ro_value_env = []\<rparr>,
     \<lparr>ro_name = ''metrics-token-file'', ro_replaced_by = ''give Prometheus a token with the metrics capability (docs/metrics.md#scraping)'', ro_value_env = ''NOPS_METRICS_TOKEN''\<rparr>]"

section \<open>The flags\<close>

datatype load_error = ErrHelp | FlagError string | Unexpected string | Rejected "string list"

text \<open>\<open>FlagSet.Parse\<close>: the flags with their last values, and the arguments after them. \<open>formal\<close> says which flags there are, and which are boolean.\<close>

fun parse_flags :: "(string \<Rightarrow> bool option) \<Rightarrow> string list \<Rightarrow> (string \<rightharpoonup> string) \<Rightarrow> load_error + (string \<rightharpoonup> string) \<times> string list" where
  "parse_flags formal [] vals = Inr (vals, [])"
| "parse_flags formal (s # args) vals =
     (if length s < 2 \<or> hd s \<noteq> CHR ''-'' then Inr (vals, s # args)
      else if s = ''--'' then Inr (vals, args)
      else let n = (if prefix ''--'' s then drop 2 s else drop 1 s) in
        if n = [] \<or> hd n = CHR ''-'' \<or> hd n = CHR ''='' then Inl (FlagError (''bad flag syntax: '' @ s))
        else case cut_at (CHR ''='') n of (name, v, given) \<Rightarrow>
          (case formal name of
             None \<Rightarrow> Inl (if name = ''help'' \<or> name = ''h'' then ErrHelp
                 else FlagError (''flag provided but not defined: -'' @ name))
           | Some True \<Rightarrow> parse_flags formal args (vals(name \<mapsto> if given then v else ''true''))
           | Some False \<Rightarrow>
               if given then parse_flags formal args (vals(name \<mapsto> v))
               else (case args of [] \<Rightarrow> Inl (FlagError (''flag needs an argument: -'' @ name))
                 | a # rest \<Rightarrow> parse_flags formal rest (vals(name \<mapsto> a)))))"

definition formal_flags :: "config_env \<Rightarrow> string \<Rightarrow> bool option" where
  "formal_flags ce name = (case find (\<lambda>o'. op_name o' = name) (options ce) of
     Some o' \<Rightarrow> Some (op_boolean o')
   | None \<Rightarrow> if name \<in> ro_name ` set removedOptions then Some False else None)"

section \<open>The file\<close>

record file_auth =
  fa_name :: string
  fa_type :: string
  fa_max_failures :: "int option"
  fa_failure_window :: "string option"

record file_tls =
  ft_cert :: string
  ft_key :: string

record file_listen =
  fl_read_header_timeout :: "string option"
  fl_read_timeout :: "string option"
  fl_write_timeout :: "string option"
  fl_idle_timeout :: "string option"
  fl_tls :: "file_tls option"

record file_repository =
  fr_name :: string
  fr_url :: string
  fr_branch :: "string option"
  fr_path :: string
  fr_username :: "string option"
  fr_token_file :: string
  fr_jobs :: "string list option"
  fr_timeout :: "string option"

text \<open>The timeout of the \<open>nomad\<close> block is optional in an optional block.\<close>

record file_config =
  fc_repositories :: "file_repository list"
  fc_listen :: "file_listen option"
  fc_nomad :: "string option option"
  fc_auth :: "file_auth list"

text \<open>\<open>hcl\<close> parses and decodes the file of a name.\<close>

definition readConfigFile :: "(string \<Rightarrow> string + file_config) \<Rightarrow> string \<Rightarrow> string + file_config option" where
  "readConfigFile hcl file = (if file = [] then Inr None
     else case hcl file of Inl m \<Rightarrow> Inl (''-config: '' @ m) | Inr f \<Rightarrow> Inr (Some f))"

definition repositoryName :: "string \<Rightarrow> bool" where
  "repositoryName s = (s \<noteq> [] \<and> list_all (\<lambda>c. between CHR ''A'' CHR ''Z'' c \<or> between CHR ''a'' CHR ''z'' c \<or>
     between CHR ''0'' CHR ''9'' c \<or> c = CHR ''_'' \<or> c = CHR ''-'') s)"

text \<open>One repository block: all its errors, or the repository.\<close>

definition repository_of :: "config_env \<Rightarrow> string \<Rightarrow> string list \<Rightarrow> file_repository \<Rightarrow> string list + repository" where
  "repository_of ce file namespaces b =
     (let block = (\<lambda>m. ''-config '' @ file @ '': repository '' @ go_quote (fr_name b) @ '': '' @ m);
        url = required (fr_url b);
        branch = (case fr_branch b of None \<Rightarrow> Inr ''main'' | Some v \<Rightarrow> required v);
        path = gitPath (fr_path b);
        tok = secretFile ce (fr_token_file b);
        jobs = (case fr_jobs b of None \<Rightarrow> Inr None | Some l \<Rightarrow> map_sum id Some (jobPatterns l namespaces));
        timeout = (case fr_timeout b of None \<Rightarrow> Inr defaultRepositoryTimeout | Some v \<Rightarrow> positiveDuration ce v);
        fail = (\<lambda>attr m. block (attr @ '': '' @ m));
        errs = (if repositoryName (fr_name b) then [] else [block ''the name may hold only letters, digits, - and _'']) @
          case_sum (\<lambda>m. [fail ''url'' m]) (\<lambda>_. []) url @
          case_sum (\<lambda>m. [fail ''branch'' m]) (\<lambda>_. []) branch @
          case_sum (\<lambda>m. [fail ''path'' m]) (\<lambda>_. []) path @
          case_sum (\<lambda>m. [fail ''token_file'' m]) (\<lambda>_. []) tok @
          case_sum (\<lambda>m. [fail ''jobs'' m]) (\<lambda>_. []) jobs @
          case_sum (\<lambda>m. [fail ''timeout'' m]) (\<lambda>_. []) timeout in
      if errs \<noteq> [] then Inl errs
      else Inr \<lparr>rp_name = fr_name b, rp_url = projr url, rp_branch = projr branch, rp_path = projr path,
        rp_username = (case fr_username b of None \<Rightarrow> ''git'' | Some u \<Rightarrow> u), rp_token_file = fr_token_file b,
        rp_token = projr tok, rp_timeout = projr timeout, rp_jobs = projr jobs\<rparr>)"

definition repositoriesOf :: "config_env \<Rightarrow> file_config \<Rightarrow> string \<Rightarrow> string list \<Rightarrow> repository list \<times> string list" where
  "repositoriesOf ce fc file namespaces =
     (let rs = map (repository_of ce file namespaces) (fc_repositories fc) in
      (List.map_filter (case_sum (\<lambda>_. None) Some) rs, concat (map (case_sum id (\<lambda>_. [])) rs)))"

fun twice_errors :: "config \<Rightarrow> string set \<Rightarrow> repository list \<Rightarrow> string list" where
  "twice_errors c seen [] = []"
| "twice_errors c seen (r # rs) =
     (if rp_name r \<notin> seen then []
      else if rp_name r = DefaultRepository \<and> co_GitURL c \<noteq> [] then
        [''-config '' @ co_ConfigFile c @ '': repository '' @ go_quote (rp_name r) @ '' is the one of -git-url: set one or the other'']
      else [''-config '' @ co_ConfigFile c @ '': repository '' @ go_quote (rp_name r) @ '' is declared twice'']) @
     twice_errors c (insert (rp_name r) seen) rs"

definition git_repository :: "config \<Rightarrow> repository" where
  "git_repository c = \<lparr>rp_name = DefaultRepository, rp_url = co_GitURL c, rp_branch = co_GitBranch c, rp_path = co_GitPath c,
     rp_username = co_GitUsername c, rp_token_file = co_GitTokenFile c, rp_token = co_GitToken c,
     rp_timeout = co_GitTimeout c, rp_jobs = None\<rparr>"

definition git_options :: "string list" where
  "git_options = [''git-branch'', ''git-path'', ''git-username'', ''git-token-file'', ''git-timeout'']"

definition loadRepositories :: "config_env \<Rightarrow> (string \<Rightarrow> bool) \<Rightarrow> string + file_config option \<Rightarrow> config \<Rightarrow> config \<times> string list" where
  "loadRepositories ce explicit file c =
     (let mine = (if co_GitURL c \<noteq> [] then [git_repository c] else []);
        stray = (if co_GitURL c \<noteq> [] then []
          else map (\<lambda>n. ''-'' @ n @ '' is set without -git-url'') (filter explicit git_options) @
            (if co_GitToken c \<noteq> [] \<and> \<not> explicit ''git-token-file'' then [''NOPS_GIT_TOKEN is set without -git-url''] else []));
        unread = (case file of Inl m \<Rightarrow> [m] | Inr _ \<Rightarrow> []);
        read = (case file of Inr (Some fc) \<Rightarrow> repositoriesOf ce fc (co_ConfigFile c) (co_NomadNamespaces c) | _ \<Rightarrow> ([], []));
        repos = co_Repositories c @ mine @ fst read;
        errs = stray @ unread @ snd read @ twice_errors c {} repos in
      (c\<lparr>co_Repositories := repos\<rparr>,
       if repos = [] \<and> errs = [] then [''-git-url or a repository block in -config is required''] else errs))"

text \<open>One attribute of the \<open>listen\<close> block: its timeout if it is given, and one of its two files.\<close>

definition listen_timeout :: "config_env \<Rightarrow> string \<Rightarrow> string option \<Rightarrow> duration update \<Rightarrow> config \<times> string list \<Rightarrow> config \<times> string list" where
  "listen_timeout ce name v upd s = (case s of (c, errs) \<Rightarrow> (case v of None \<Rightarrow> s
     | Some x \<Rightarrow> (case positiveDuration ce x of
          Inl m \<Rightarrow> (c, errs @ [''-config '' @ co_ConfigFile c @ '': listen: '' @ name @ '': '' @ m])
        | Inr d \<Rightarrow> (upd (\<lambda>_. d) c, errs))))"

definition tls_file :: "config_env \<Rightarrow> string \<Rightarrow> string \<Rightarrow> string update \<Rightarrow> config \<times> string list \<Rightarrow> config \<times> string list" where
  "tls_file ce name v upd s = (case s of (c, errs) \<Rightarrow>
     let fail = (\<lambda>m. (c, errs @ [''-config '' @ co_ConfigFile c @ '': listen: tls: '' @ name @ '': '' @ m])) in
     if v = [] then fail ''required''
     else case readableFile ce v of Inl m \<Rightarrow> fail m | Inr f \<Rightarrow> (upd (\<lambda>_. f) c, errs))"

definition loadListen :: "config_env \<Rightarrow> file_config option \<Rightarrow> config \<Rightarrow> config \<times> string list" where
  "loadListen ce fc c = (case Option.bind fc fc_listen of None \<Rightarrow> (c, [])
     | Some l \<Rightarrow>
       let timed = (listen_timeout ce ''idle_timeout'' (fl_idle_timeout l) co_IdleTimeout_update \<circ>
           listen_timeout ce ''write_timeout'' (fl_write_timeout l) co_WriteTimeout_update \<circ>
           listen_timeout ce ''read_timeout'' (fl_read_timeout l) co_ReadTimeout_update \<circ>
           listen_timeout ce ''read_header_timeout'' (fl_read_header_timeout l) co_ReadHeaderTimeout_update) (c, []) in
       (case fl_tls l of None \<Rightarrow> timed
        | Some t \<Rightarrow> tls_file ce ''key_file'' (ft_key t) co_TLSKeyFile_update
            (tls_file ce ''cert_file'' (ft_cert t) co_TLSCertFile_update timed)))"

definition loadNomad :: "config_env \<Rightarrow> file_config option \<Rightarrow> config \<Rightarrow> config \<times> string list" where
  "loadNomad ce fc c = (case fc of
     Some f \<Rightarrow> (case fc_nomad f of Some (Some v) \<Rightarrow> (case positiveDuration ce v of
           Inl m \<Rightarrow> (c, [''-config '' @ co_ConfigFile c @ '': nomad: timeout: '' @ m])
         | Inr d \<Rightarrow> (c\<lparr>co_NomadTimeout := d\<rparr>, [])) | _ \<Rightarrow> (c, []))
   | None \<Rightarrow> (c, []))"

definition show_number :: "int \<Rightarrow> string" where
  "show_number n = (if n < 0 then ''-'' @ show_nat (nat (- n)) else show_nat (nat n))"

definition loadAuth :: "config_env \<Rightarrow> file_config option \<Rightarrow> config \<Rightarrow> config \<times> string list" where
  "loadAuth ce fc c =
     (let fail = (\<lambda>m. (c, [''-config '' @ co_ConfigFile c @ '': auth: '' @ m])) in
      case (case fc of None \<Rightarrow> [] | Some f \<Rightarrow> fc_auth f) of [] \<Rightarrow> (c, [])
      | b # others \<Rightarrow>
        if others \<noteq> [] then fail ''only one auth block is allowed''
        else if fa_name b \<noteq> ''basic'' then fail (''the label is '' @ go_quote (fa_name b) @ '', only \"basic\" is known'')
        else if fa_type b \<noteq> ''basic'' then fail (''type: is '' @ go_quote (fa_type b) @ '', only \"basic\" is known'')
        else if co_AuthMode c \<noteq> ''basic'' then fail ''the \"basic\" block is only used with -auth-mode=basic''
        else let (c1, e1) = (case fa_max_failures b of None \<Rightarrow> (c, [])
              | Some n \<Rightarrow> if n < 0 then (c, [''-config '' @ co_ConfigFile c @ '': auth: max_failures: '' @ show_number n @ '' must not be negative''])
                  else (c\<lparr>co_LoginMaxFailures := n\<rparr>, [])) in
          (case fa_failure_window b of None \<Rightarrow> (c1, e1)
           | Some v \<Rightarrow> (case nonNegativeDuration ce v of
               Inl m \<Rightarrow> (c1, e1 @ [''-config '' @ co_ConfigFile c @ '': auth: failure_window: '' @ m])
             | Inr d \<Rightarrow> (c1\<lparr>co_LoginFailureWindow := d\<rparr>, e1))))"

section \<open>The secrets of the environment\<close>

record secret_value =
  sv_env :: string
  sv_url :: bool
  sv_get :: "config \<Rightarrow> string"
  sv_set :: "string update"

abbreviation "secret_env e u g f \<equiv> \<lparr>sv_env = e, sv_url = u, sv_get = g, sv_set = f\<rparr>"

definition secretValues :: "secret_value list" where
  "secretValues =
    [secret_env ''NOPS_OIDC_CLIENT_SECRET'' False co_OIDCClientSecret co_OIDCClientSecret_update,
     secret_env ''NOPS_GIT_TOKEN'' False co_GitToken co_GitToken_update,
     secret_env ''NOPS_NOMAD_TOKEN'' False co_NomadToken co_NomadToken_update,
     secret_env ''NOPS_WEBHOOK_SECRET'' False co_WebhookSecret co_WebhookSecret_update,
     secret_env ''NOPS_ACL_BOOTSTRAP_TOKEN'' False co_ACLBootstrapToken co_ACLBootstrapToken_update,
     secret_env ''NOPS_NOTIFY_WEBHOOK_URL'' True co_NotifyWebhookURL co_NotifyWebhookURL_update,
     secret_env ''NOPS_NOTIFY_WEBHOOK_TOKEN'' False co_NotifyWebhookToken co_NotifyWebhookToken_update,
     secret_env ''NOPS_NOTIFY_DISCORD_URL'' True co_NotifyDiscordURL co_NotifyDiscordURL_update,
     secret_env ''NOPS_NOTIFY_SLACK_URL'' True co_NotifySlackURL co_NotifySlackURL_update,
     secret_env ''NOPS_NOTIFY_NTFY_TOKEN'' False co_NotifyNtfyToken co_NotifyNtfyToken_update,
     secret_env ''NOPS_NOTIFY_GOTIFY_TOKEN'' False co_NotifyGotifyToken co_NotifyGotifyToken_update]"

definition secret_step :: "config_env \<Rightarrow> (string \<Rightarrow> string) \<Rightarrow> config \<times> string list \<Rightarrow> secret_value \<Rightarrow> config \<times> string list" where
  "secret_step ce getenv s sv = (case s of (c, errs) \<Rightarrow>
     let raw = getenv (sv_env sv); v = trim_space raw in
     if sv_get sv c \<noteq> [] \<or> raw = [] then (c, errs)
     else if v = [] then (c, errs @ [sv_env sv @ '': is empty''])
     else if sv_url sv \<and> \<not> is_ok (httpURL ce v) then
       (c, errs @ [sv_env sv @ '': does not hold an http:// or https:// URL with a host''])
     else (sv_set sv (\<lambda>_. v) c, errs))"

definition resolveSecretValues :: "config_env \<Rightarrow> (string \<Rightarrow> string) \<Rightarrow> config \<Rightarrow> config \<times> string list" where
  "resolveSecretValues ce getenv c = foldl (secret_step ce getenv) (c, []) secretValues"

section \<open>The checks across options, and the load\<close>

definition lower_ascii :: "string \<Rightarrow> string" where
  "lower_ascii = map (\<lambda>c. if between CHR ''A'' CHR ''Z'' c then char_of (byte c + 32) else c)"

definition repository_errors :: "config \<Rightarrow> repository \<Rightarrow> string list" where
  "repository_errors c r =
     (if rp_token r = [] then []
      else let own = (rp_name r \<noteq> DefaultRepository \<or> co_GitURL c = []);
          url = (if own then ''url in repository '' @ go_quote (rp_name r) else ''-git-url'');
          username = (if own then ''username in repository '' @ go_quote (rp_name r) else ''-git-username'') in
        (if rp_url r \<noteq> [] \<and> \<not> prefix ''https://'' (lower_ascii (rp_url r))
         then [''a git token needs an https:// '' @ url @ '', got '' @ go_quote (rp_url r)] else []) @
        (if rp_username r = [] then [''a git token needs a non-empty '' @ username] else []))"

definition notify_errors :: "config \<Rightarrow> string list" where
  "notify_errors c = concat (map (\<lambda>(tok, url, name, urlOpt).
       if tok \<noteq> [] \<and> url = [] then [''a '' @ name @ '' token is set without a '' @ name @ '' URL ('' @ urlOpt @ '')''] else [])
     [(co_NotifyWebhookToken c, co_NotifyWebhookURL c, ''webhook'', ''-notify-webhook-url-file''),
      (co_NotifyNtfyToken c, co_NotifyNtfyURL c, ''ntfy'', ''-notify-ntfy-url''),
      (co_NotifyGotifyToken c, co_NotifyGotifyURL c, ''gotify'', ''-notify-gotify-url'')]) @
   (if co_NotifyGotifyURL c \<noteq> [] \<and> co_NotifyGotifyToken c = []
    then [''a gotify URL needs a token (-notify-gotify-token-file or NOPS_NOTIFY_GOTIFY_TOKEN)''] else [])"

definition auth_errors :: "config \<Rightarrow> string list" where
  "auth_errors c =
     (if co_AuthMode c = ''oidc'' then
        (if co_OIDCIssuerURL c = [] then [''-oidc-issuer-url is required with -auth-mode=oidc''] else []) @
        (if co_OIDCClientID c = [] then [''-oidc-client-id is required with -auth-mode=oidc''] else []) @
        (if co_OIDCClientSecret c = [] then [''the OIDC client secret is required with -auth-mode=oidc (-oidc-client-secret-file or NOPS_OIDC_CLIENT_SECRET)''] else []) @
        (if co_UsersFile c \<noteq> [] then [''-users-file is only used with -auth-mode=basic''] else []) @
        (if co_GroupsFile c \<noteq> [] then [''-groups-file is only used with -auth-mode=basic''] else [])
      else if co_AuthMode c = ''basic'' then
        (if co_UsersFile c = [] then [''-users-file is required with -auth-mode=basic''] else []) @
        (if co_OIDCIssuerURL c \<noteq> [] \<or> co_OIDCClientID c \<noteq> [] \<or> co_OIDCClientSecret c \<noteq> []
         then [''the -oidc-* options are only used with -auth-mode=oidc''] else [])
      else [])"

definition acl_errors :: "config \<Rightarrow> string list" where
  "acl_errors c =
     (if co_ACL c \<and> co_ACLBootstrapToken c = []
      then [''-acl needs a bootstrap token (-acl-bootstrap-token-file or NOPS_ACL_BOOTSTRAP_TOKEN), made by \"nops secret generate\"'']
      else if \<not> co_ACL c \<and> co_ACLBootstrapToken c \<noteq> [] then [''a bootstrap token is set without -acl'']
      else if co_ACL c \<and> \<not> Valid (co_ACLBootstrapToken c) then [''the bootstrap token is not a secret made by \"nops secret generate\"'']
      else [])"

definition config_check :: "config_env \<Rightarrow> config \<Rightarrow> config \<times> string list" where
  "config_check ce c0 =
     (let c1 = (if co_PublicURL c0 = [] then c0\<lparr>co_PublicURL := publicURLDefault (co_ListenAddr c0) (co_TLSCertFile c0 \<noteq> [])\<rparr> else c0);
        c = c1\<lparr>co_BasePath := basePathOf ce (co_PublicURL c1)\<rparr> in
      (c, concat (map (repository_errors c) (co_Repositories c)) @ notify_errors c @ auth_errors c @ acl_errors c @
        (if (co_NomadClientCert c = []) \<noteq> (co_NomadClientKey c = [])
         then [''-nomad-client-cert and -nomad-client-key must be set together''] else [])))"

text \<open>Where the value of an option comes from, and the step of an option.\<close>

datatype origin = FromFlag | FromEnv | FromDefault

definition option_origin :: "(string \<rightharpoonup> string) \<Rightarrow> (string \<Rightarrow> string) \<Rightarrow> string \<Rightarrow> origin" where
  "option_origin vals getenv name = (if vals name \<noteq> None then FromFlag
     else if getenv (env_name name) \<noteq> [] then FromEnv else FromDefault)"

definition option_value :: "(string \<rightharpoonup> string) \<Rightarrow> (string \<Rightarrow> string) \<Rightarrow> option_spec \<Rightarrow> string" where
  "option_value vals getenv spec = (case option_origin vals getenv (op_name spec) of
     FromFlag \<Rightarrow> the (vals (op_name spec)) | FromEnv \<Rightarrow> getenv (env_name (op_name spec)) | FromDefault \<Rightarrow> op_def spec)"

definition option_source :: "(string \<rightharpoonup> string) \<Rightarrow> (string \<Rightarrow> string) \<Rightarrow> string \<Rightarrow> string" where
  "option_source vals getenv name = (case option_origin vals getenv name of
     FromFlag \<Rightarrow> ''flag -'' @ name | FromEnv \<Rightarrow> env_name name | FromDefault \<Rightarrow> ''-'' @ name @ '' / '' @ env_name name)"

definition option_step :: "(string \<rightharpoonup> string) \<Rightarrow> (string \<Rightarrow> string) \<Rightarrow> config \<times> string list \<Rightarrow> option_spec \<Rightarrow> config \<times> string list" where
  "option_step vals getenv s spec = (case s of (c, errs) \<Rightarrow>
     (case op_set spec c (option_value vals getenv spec) of (c', failed) \<Rightarrow>
       (c', errs @ (case failed of None \<Rightarrow> [] | Some m \<Rightarrow> [option_source vals getenv (op_name spec) @ '': '' @ m]))))"

definition removed_errors :: "(string \<rightharpoonup> string) \<Rightarrow> (string \<Rightarrow> string) \<Rightarrow> string list" where
  "removed_errors vals getenv =
     concat (map (\<lambda>r. if vals (ro_name r) \<noteq> None then [''flag -'' @ ro_name r @ '' was removed: '' @ ro_replaced_by r]
         else if getenv (env_name (ro_name r)) \<noteq> [] then [env_name (ro_name r) @ '' was removed: '' @ ro_replaced_by r]
         else if ro_value_env r \<noteq> [] \<and> getenv (ro_value_env r) \<noteq> [] then [ro_value_env r @ '' was removed: '' @ ro_replaced_by r]
         else []) removedOptions) @
     (if getenv ''NOPS_NOMAD_NAMESPACE'' \<noteq> []
      then [''NOPS_NOMAD_NAMESPACE was replaced by NOPS_NOMAD_NAMESPACES (a comma-separated list)''] else [])"

text \<open>What \<open>Load\<close> does once the flags are read: every stage in order, with every error it finds.\<close>

definition load_stages :: "config_env \<Rightarrow> (string \<Rightarrow> string + file_config) \<Rightarrow> (string \<Rightarrow> string) \<Rightarrow> (string \<rightharpoonup> string) \<Rightarrow>
    config \<times> string list" where
  "load_stages ce hcl getenv vals =
     (let (c1, e1) = foldl (option_step vals getenv) (initial_config, []) (options ce);
        (c2, e2) = resolveSecretValues ce getenv c1;
        file = readConfigFile hcl (co_ConfigFile c2);
        fc = (case file of Inl _ \<Rightarrow> None | Inr f \<Rightarrow> f);
        explicit = (\<lambda>n. option_origin vals getenv n \<noteq> FromDefault);
        (c3, e3) = loadRepositories ce explicit file c2;
        (c4, e4) = loadListen ce fc c3;
        (c5, e5) = loadNomad ce fc c4;
        (c6, e6) = loadAuth ce fc c5;
        (c7, e7) = config_check ce c6 in
      (c7, e1 @ removed_errors vals getenv @ e2 @ e3 @ e4 @ e5 @ e6 @ e7))"

definition Load :: "config_env \<Rightarrow> (string \<Rightarrow> string + file_config) \<Rightarrow> (string \<Rightarrow> string) \<Rightarrow> string list \<Rightarrow> load_error + config" where
  "Load ce hcl getenv args = bindE (parse_flags (formal_flags ce) args Map.empty) (\<lambda>(vals, rest).
     case rest of a # _ \<Rightarrow> Inl (Unexpected a)
     | [] \<Rightarrow> (case load_stages ce hcl getenv vals of (c, errs) \<Rightarrow> if errs = [] then Inr c else Inl (Rejected errs)))"

text \<open>\<open>Config.Nomad\<close>: what the Nomad client gets, and nothing from the process's own variables.\<close>

record nomad_client_config =
  nc_address :: string
  nc_secret_id :: string
  nc_ca_cert :: string
  nc_client_cert :: string
  nc_client_key :: string
  nc_insecure :: bool

definition nomad_config :: "config \<Rightarrow> nomad_client_config" where
  "nomad_config c = \<lparr>nc_address = co_NomadAddr c, nc_secret_id = co_NomadToken c, nc_ca_cert = co_NomadCACert c,
     nc_client_cert = co_NomadClientCert c, nc_client_key = co_NomadClientKey c, nc_insecure = co_NomadTLSSkipVerify c\<rparr>"

end
