(* ===== verification/SettingsProperties.thy ===== *)
theory SettingsProperties
  imports Settings
begin

text \<open>What the readers of single settings promise: paths stay inside the repository, addresses split as they were joined.\<close>

section \<open>Paths\<close>

definition plain_element :: "string \<Rightarrow> bool" where
  "plain_element e = (e \<noteq> [] \<and> e \<noteq> ''.'' \<and> e \<noteq> ''..'' \<and> CHR ''/'' \<notin> set e)"

text \<open>A cleaned path climbs first and goes down after; from the root it never climbs.\<close>

definition climbs_first :: "bool \<Rightarrow> string list \<Rightarrow> bool" where
  "climbs_first rooted es = (\<exists>k ds. es = replicate k ''..'' @ ds \<and> list_all plain_element ds \<and> (rooted \<longrightarrow> k = 0))"

lemma clean_step_climbs:
  assumes "climbs_first rooted es" "CHR ''/'' \<notin> set e"
  shows "climbs_first rooted (clean_step rooted es e)"
proof -
  from assms(1) obtain k ds where es: "es = replicate k ''..'' @ ds" "list_all plain_element ds" "rooted \<longrightarrow> k = 0"
    unfolding climbs_first_def by blast
  consider "e = [] \<or> e = ''.''" | "e = ''..''" "ds = []" | "e = ''..''" "ds \<noteq> []" | "plain_element e"
    using assms(2) by (auto simp: plain_element_def)
  then show ?thesis
  proof cases
    case 1
    with assms(1) show ?thesis by (auto simp: clean_step_def)
  next
    case 2
    then have "clean_step rooted es e = (if rooted then [] else replicate (Suc k) ''..'')"
      using es by (cases k) (auto simp: clean_step_def replicate_append_same)
    then show ?thesis unfolding climbs_first_def
      by (intro exI [of _ "if rooted then 0 else Suc k"] exI [of _ "[]"]) simp
  next
    case 3
    then have "last es = last ds" "last ds \<noteq> ''..''" "es \<noteq> []" using es(1,2)
      by (auto simp: list_all_iff plain_element_def dest: last_in_set)
    with 3 es show ?thesis unfolding climbs_first_def
      by (intro exI [of _ k] exI [of _ "butlast ds"])
        (auto simp: clean_step_def butlast_append list_all_iff dest: in_set_butlastD)
  next
    case 4
    then have "clean_step rooted es e = replicate k ''..'' @ ds @ [e]"
      using es(1) by (simp add: clean_step_def plain_element_def)
    with 4 es show ?thesis unfolding climbs_first_def by (intro exI [of _ k] exI [of _ "ds @ [e]"]) simp
  qed
qed

lemma clean_elements_climb: "climbs_first (p \<noteq> [] \<and> hd p = CHR ''/'') (clean_elements p)"
proof -
  have "climbs_first r es \<Longrightarrow> \<forall>e\<in>set xs. CHR ''/'' \<notin> set e \<Longrightarrow> climbs_first r (foldl (clean_step r) es xs)" for r es xs
    by (induction xs arbitrary: es) (auto intro: clean_step_climbs)
  moreover have "climbs_first r []" for r by (simp add: climbs_first_def)
  ultimately show ?thesis unfolding clean_elements_def using split_on_no_sep by blast
qed

text \<open>A path that stays where it is joined: plain elements only.\<close>

definition stays_inside :: "string \<Rightarrow> bool" where
  "stays_inside p = (p = [] \<or> list_all plain_element (split_on CHR ''/'' p))"

lemma gitPath_inside: "gitPath v = Inr p \<Longrightarrow> stays_inside p"
proof -
  assume v: "gitPath v = Inr p"
  show ?thesis
  proof (cases "p = []")
    case False
    with v have p: "v \<noteq> []" "p = path_clean v" "\<not> prefix ''/'' p" "p \<noteq> ''..''" "\<not> prefix ''../'' p" "p \<noteq> ''.''"
      by (auto simp: gitPath_def Let_def split: if_splits)
    let ?rooted = "v \<noteq> [] \<and> hd v = CHR ''/''"
    have "\<not> ?rooted" using p(2,3) by (auto simp: path_clean_def Let_def)
    with p(2,6) False have join: "p = join_with ''/'' (clean_elements v)" "clean_elements v \<noteq> []"
      by (auto simp: path_clean_def Let_def split: if_splits)
    obtain k ds where es: "clean_elements v = replicate k ''..'' @ ds" "list_all plain_element ds"
      using clean_elements_climb [of v] unfolding climbs_first_def by blast
    have "k = 0"
    proof (rule ccontr)
      assume "k \<noteq> 0"
      then obtain rest where "clean_elements v = ''..'' # rest" using es(1) by (cases k) auto
      with join p(4,5) show False by (cases rest) auto
    qed
    with es join have "list_all plain_element (clean_elements v)" by simp
    with join show ?thesis
      by (simp add: stays_inside_def split_on_join list_all_iff plain_element_def)
  qed (simp add: stays_inside_def)
qed

section \<open>Addresses\<close>

lemma up_to_first: "c \<notin> set xs \<Longrightarrow> takeWhile (\<lambda>x. x \<noteq> c) (xs @ c # ys) = xs"
    "c \<notin> set xs \<Longrightarrow> dropWhile (\<lambda>x. x \<noteq> c) (xs @ c # ys) = c # ys"
  by (induction xs) auto

lemma last_colon_join: "CHR '':'' \<notin> set port \<Longrightarrow> last_colon (host @ CHR '':'' # port) = (host, port)"
by (simp add: last_colon_def up_to_first)

text \<open>
  An address joined of a host and a port splits into them again, an IPv6 host in its
  brackets included; the host must hold no bracket and the port no colon and no bracket.
\<close>

theorem split_joined_address:
  assumes "CHR ''['' \<notin> set host" "CHR 0x5D \<notin> set host" "CHR '':'' \<notin> set port" "CHR ''['' \<notin> set port" "CHR 0x5D \<notin> set port"
  shows "SplitHostPort (JoinHostPort host port) = Inr (host, port)"
proof (cases "CHR '':'' \<in> set host")
  case True
  let ?s = "CHR ''['' # host @ [CHR 0x5D]"
  have "JoinHostPort host port = ?s @ CHR '':'' # port" using True by (simp add: JoinHostPort_def)
  moreover have "last_colon (?s @ CHR '':'' # port) = (?s, port)" using assms(3) by (rule last_colon_join)
  moreover have "takeWhile (\<lambda>c. c \<noteq> CHR 0x5D) (host @ CHR 0x5D # CHR '':'' # port) = host"
    using assms(2) by (rule up_to_first)
  ultimately show ?thesis using assms by (simp add: SplitHostPort_def Let_def)
next
  case False
  have "JoinHostPort host port = host @ CHR '':'' # port" using False by (simp add: JoinHostPort_def)
  moreover have "last_colon (host @ CHR '':'' # port) = (host, port)" using assms(3) by (rule last_colon_join)
  moreover have "hd (host @ CHR '':'' # port) \<noteq> CHR ''[''" using assms(1) by (cases host) auto
  ultimately show ?thesis using assms False by (simp add: SplitHostPort_def Let_def)
qed

theorem split_joined_address_witness:
  "SplitHostPort ''[::1]:8080'' = Inr (''::1'', ''8080'')"
  using split_joined_address [of "''::1''" "''8080''"] by (simp add: JoinHostPort_def)

end
