(* ===== verification/ConfigProperties.thy ===== *)
theory ConfigProperties
  imports Config SettingsProperties
begin

text \<open>
  What a start may rely on once its configuration is loaded, where each setting comes from, and that
  every wrong setting is reported.
\<close>

section \<open>The fields a setter writes\<close>

named_theorems setter_simps \<open>what a setter does to the configuration\<close>

lemma fst_assign [setter_simps]: "fst (assign z upd f c v) = upd (\<lambda>_. case f v of Inl _ \<Rightarrow> z | Inr x \<Rightarrow> x) c"
  by (simp add: assign_def split: sum.splits)

lemma snd_assign: "snd (assign z upd f c v) = (case f v of Inl m \<Rightarrow> Some m | Inr _ \<Rightarrow> None)"
  by (simp add: assign_def split: sum.splits)

lemma fst_keep [setter_simps]: "fst (keep upd c v) = upd (\<lambda>_. v) c"
  by (simp add: keep_def)

lemma fst_assign_file [setter_simps]:
  "fst (assign_file updf updv f c v) = updv (\<lambda>_. case f v of Inl _ \<Rightarrow> [] | Inr x \<Rightarrow> x) (updf (\<lambda>_. v) c)"
  by (simp add: assign_file_def fst_assign)

lemma fst_set_listen_addr [setter_simps]:
  "fst (set_listen_addr c v) = c\<lparr>co_ListenAddr := (case SplitHostPort v of Inl _ \<Rightarrow> co_ListenAddr c | Inr _ \<Rightarrow> v)\<rparr>"
  by (simp add: set_listen_addr_def split: sum.splits)

lemma fst_set_auth_mode [setter_simps]:
  "fst (set_auth_mode c v) = c\<lparr>co_AuthMode := (if v \<in> {''oidc'', ''basic''} then v else co_AuthMode c)\<rparr>"
  by (simp add: set_auth_mode_def)

lemma fst_set_issuer [setter_simps]:
  "fst (set_issuer ce c v) = c\<lparr>co_OIDCIssuerURL := (if v = [] then co_OIDCIssuerURL c
     else case httpURL ce v of Inl _ \<Rightarrow> [] | Inr x \<Rightarrow> x)\<rparr>"
  by (simp add: set_issuer_def fst_assign)

lemma fst_set_zone [setter_simps]:
  "fst (set_zone ce c v) = c\<lparr>co_SyncWindowLocation := (case timeZone ce v of Inl _ \<Rightarrow> None | Inr x \<Rightarrow> Some x)\<rparr>"
  by (simp add: set_zone_def fst_assign split: sum.splits)

lemma fst_set_level [setter_simps]:
  "fst (set_level c v) = c\<lparr>co_LogLevel := (case parse_level v of Inl _ \<Rightarrow> co_LogLevel c | Inr l \<Rightarrow> l)\<rparr>"
  by (simp add: set_level_def split: sum.splits)

section \<open>The run of the options\<close>

lemma option_names_distinct: "distinct (map op_name (options ce))"
  by (simp add: options_def)

lemma options_run_errors: "\<exists>more_errs. snd (foldl (option_step vals getenv) s opts) = snd s @ more_errs"
proof (induction opts arbitrary: s)
  case (Cons p ps)
  have "\<exists>x. snd (option_step vals getenv s p) = snd s @ x"
    by (cases s) (simp add: option_step_def split: prod.splits)
  with Cons.IH [of "option_step vals getenv s p"] show ?case by auto
qed simp

lemma options_run_other:
  assumes "\<forall>p\<in>set opts. \<forall>d v. sel (fst (op_set p d v)) = sel d"
  shows "sel (fst (foldl (option_step vals getenv) s opts)) = sel (fst s)"
  using assms
proof (induction opts arbitrary: s)
  case (Cons p ps)
  have "sel (fst (option_step vals getenv s p)) = sel (fst s)"
    using Cons.prems by (cases s) (simp add: option_step_def case_prod_beta)
  with Cons show ?case by simp
qed simp

text \<open>A field that one option writes has in the end what that option's setter made of its value.\<close>

lemma options_field:
  assumes run: "foldl (option_step vals getenv) (c0, []) opts = (c, [])" and spec: "spec \<in> set opts" "distinct (map op_name opts)"
    and other: "\<forall>p\<in>set opts. op_name p \<noteq> op_name spec \<longrightarrow> (\<forall>d v. sel (fst (op_set p d v)) = sel d)"
  obtains d where "snd (op_set spec d (option_value vals getenv spec)) = None"
    "sel c = sel (fst (op_set spec d (option_value vals getenv spec)))"
proof -
  from spec(1) obtain xs ys where opts: "opts = xs @ spec # ys" by (meson split_list)
  define s where "s = foldl (option_step vals getenv) (c0, []) xs"
  define t where "t = option_step vals getenv s spec"
  have end_run: "foldl (option_step vals getenv) t ys = (c, [])" using run by (simp add: opts s_def t_def)
  have "sel (fst (foldl (option_step vals getenv) t ys)) = sel (fst t)"
    by (rule options_run_other) (use other spec(2) in \<open>auto simp: opts image_iff\<close>)
  with end_run have "sel c = sel (fst t)" by simp
  moreover have "snd t = []" using options_run_errors [of vals getenv t ys] end_run by auto
  ultimately show thesis
    by (intro that [of "fst s"]) (auto simp: t_def option_step_def split: prod.splits option.splits)
qed

lemma options_untouched:
  assumes "foldl (option_step vals getenv) (c0, []) (options ce) = (c, e)"
    "\<forall>p\<in>set (options ce). \<forall>d v. sel (fst (op_set p d v)) = sel d"
  shows "sel c = sel c0"
  using options_run_other [OF assms(2), of vals getenv "(c0, [])"] assms(1) by simp

text \<open>An option whose reader gives the value of one field.\<close>

lemma assign_option:
  assumes "foldl (option_step vals getenv) (c0, []) (options ce) = (c, [])"
    and "opt n d (assign z upd f) \<in> set (options ce)"
    and "\<forall>p\<in>set (options ce). op_name p \<noteq> n \<longrightarrow> (\<forall>d v. sel (fst (op_set p d v)) = sel d)"
    and "\<And>x d. sel (upd (\<lambda>_. x) d) = x"
  shows "f (option_value vals getenv (opt n d (assign z upd f))) = Inr (sel c)"
proof -
  let ?spec = "opt n d (assign z upd f)"
  have "op_name ?spec = n" by simp
  then obtain d' where "snd (op_set ?spec d' (option_value vals getenv ?spec)) = None"
    "sel c = sel (fst (op_set ?spec d' (option_value vals getenv ?spec)))"
    using options_field [OF assms(1,2) option_names_distinct, of sel] assms(3) by metis
  then show ?thesis using assms(4) by (auto simp: snd_assign fst_assign split: sum.splits)
qed

lemma positive_option:
  assumes "foldl (option_step vals getenv) (c0, []) (options ce) = (c, [])"
    and "opt n d (assign 0 upd (positiveDuration ce)) \<in> set (options ce)"
    and "\<forall>p\<in>set (options ce). op_name p \<noteq> n \<longrightarrow> (\<forall>d v. sel (fst (op_set p d v)) = sel d)"
    and "\<And>x d. sel (upd (\<lambda>_. x) d) = x"
  shows "(0 :: int) < sel c"
  using assign_option [OF assms]
  by (auto simp: positiveDuration_def bindE_Inr split: if_splits)

definition intervals_positive :: "config \<Rightarrow> bool" where
  "intervals_positive c = (0 < co_GitTimeout c \<and> 0 < co_NotifyTimeout c \<and> 0 < co_GitPollInterval c \<and> 0 < co_DriftInterval c \<and>
     0 < co_EngineInterval c \<and> 0 < co_HookPollInterval c \<and> 0 < co_ApplyTimeout c)"

lemma options_intervals:
  assumes run: "foldl (option_step vals getenv) (c0, []) (options ce) = (c, [])"
  shows "intervals_positive c"
  unfolding intervals_positive_def
proof (intro conjI)
  show "0 < co_GitTimeout c"
    by (rule positive_option [OF run, where n = "''git-timeout''" and d = "''2m''" and upd = co_GitTimeout_update and sel = co_GitTimeout])
      (simp_all add: options_def setter_simps)
  show "0 < co_NotifyTimeout c"
    by (rule positive_option [OF run, where n = "''notify-timeout''" and d = "''10s''" and upd = co_NotifyTimeout_update and sel = co_NotifyTimeout])
      (simp_all add: options_def setter_simps)
  show "0 < co_GitPollInterval c"
    by (rule positive_option [OF run, where n = "''git-poll-interval''" and d = "''1m''" and upd = co_GitPollInterval_update and sel = co_GitPollInterval])
      (simp_all add: options_def setter_simps)
  show "0 < co_DriftInterval c"
    by (rule positive_option [OF run, where n = "''drift-interval''" and d = "''5m''" and upd = co_DriftInterval_update and sel = co_DriftInterval])
      (simp_all add: options_def setter_simps)
  show "0 < co_EngineInterval c"
    by (rule positive_option [OF run, where n = "''engine-interval''" and d = "''5s''" and upd = co_EngineInterval_update and sel = co_EngineInterval])
      (simp_all add: options_def setter_simps)
  show "0 < co_HookPollInterval c"
    by (rule positive_option [OF run, where n = "''hook-poll-interval''" and d = "''5s''" and upd = co_HookPollInterval_update and sel = co_HookPollInterval])
      (simp_all add: options_def setter_simps)
  show "0 < co_ApplyTimeout c"
    by (rule positive_option [OF run, where n = "''apply-timeout''" and d = "''10m''" and upd = co_ApplyTimeout_update and sel = co_ApplyTimeout])
      (simp_all add: options_def setter_simps)
qed


section \<open>The stages of a load\<close>

lemma load_stagesE:
  assumes "load_stages ce hcl getenv vals = (c, [])"
  obtains c1 c2 c3 c4 c5 c6 fc where
    "foldl (option_step vals getenv) (initial_config, []) (options ce) = (c1, [])"
    "resolveSecretValues ce getenv c1 = (c2, [])" "removed_errors vals getenv = []"
    "loadRepositories ce (\<lambda>n. option_origin vals getenv n \<noteq> FromDefault) (Inr fc) c2 = (c3, [])"
    "loadListen ce fc c3 = (c4, [])" "loadNomad ce fc c4 = (c5, [])" "loadAuth ce fc c5 = (c6, [])" "config_check ce c6 = (c, [])"
proof -
  obtain c1 e1 where s1: "foldl (option_step vals getenv) (initial_config, []) (options ce) = (c1, e1)" by fastforce
  obtain c2 e2 where s2: "resolveSecretValues ce getenv c1 = (c2, e2)" by fastforce
  define src where "src = readConfigFile hcl (co_ConfigFile c2)"
  obtain c3 e3 where s3: "loadRepositories ce (\<lambda>n. option_origin vals getenv n \<noteq> FromDefault) src c2 = (c3, e3)" by fastforce
  define fc where "fc = (case src of Inl _ \<Rightarrow> None | Inr f \<Rightarrow> f)"
  obtain c4 e4 where s4: "loadListen ce fc c3 = (c4, e4)" by fastforce
  obtain c5 e5 where s5: "loadNomad ce fc c4 = (c5, e5)" by fastforce
  obtain c6 e6 where s6: "loadAuth ce fc c5 = (c6, e6)" by fastforce
  obtain c7 e7 where s7: "config_check ce c6 = (c7, e7)" by fastforce
  have "load_stages ce hcl getenv vals = (c7, e1 @ removed_errors vals getenv @ e2 @ e3 @ e4 @ e5 @ e6 @ e7)"
    unfolding load_stages_def Let_def s1 prod.case s2 src_def [symmetric] s3 fc_def [symmetric] s4 s5 s6 s7 by (rule refl)
  with assms have errs: "c7 = c" "e1 = []" "removed_errors vals getenv = []" "e2 = []" "e3 = []" "e4 = []" "e5 = []" "e6 = []" "e7 = []"
    by simp_all
  have "src = Inr fc"
  proof (cases src)
    case (Inl m)
    with s3 errs show ?thesis by (auto simp: loadRepositories_def Let_def split: if_splits)
  qed (simp add: fc_def)
  with s1 s2 s3 s4 s5 s6 s7 errs show thesis by (intro that [of c1 c2 fc c3 c4 c5 c6]) simp_all
qed

lemma secrets_untouched:
  assumes "\<forall>sv\<in>set secretValues. \<forall>v d. sel (sv_set sv (\<lambda>_. v) d) = sel d"
  shows "sel (fst (resolveSecretValues ce getenv c)) = sel c"
proof -
  have "\<forall>sv\<in>set svs. \<forall>v d. sel (sv_set sv (\<lambda>_. v) d) = sel d \<Longrightarrow>
      sel (fst (foldl (secret_step ce getenv) s svs)) = sel (fst s)" for svs s
    by (induction svs arbitrary: s) (auto simp: secret_step_def Let_def case_prod_beta)
  from this [OF assms, of "(c, [])"] show ?thesis by (simp add: resolveSecretValues_def)
qed

section \<open>The repositories\<close>

definition readable_repository :: "repository \<Rightarrow> bool" where
  "readable_repository r = (rp_url r \<noteq> [] \<and> rp_branch r \<noteq> [] \<and> stays_inside (rp_path r) \<and> 0 < rp_timeout r)"

lemma required_Inr: "required v = Inr x \<Longrightarrow> x = v \<and> v \<noteq> []"
  by (auto simp: required_def split: if_splits)

lemma positiveDuration_Inr: "positiveDuration ce v = Inr d \<Longrightarrow> 0 < d"
  by (auto simp: positiveDuration_def bindE_Inr split: if_splits)

lemma case_sum_Nil: "case_sum (\<lambda>m. [f m]) (\<lambda>_. []) x = [] \<longleftrightarrow> (\<exists>y. x = Inr y)"
  by (cases x) auto

lemma repository_of_readable:
  assumes "repository_of ce file namespaces b = Inr r"
  shows "readable_repository r"
proof -
  define branch where "branch = (case fr_branch b of None \<Rightarrow> Inr ''main'' | Some v \<Rightarrow> required v)"
  define timeout where "timeout = (case fr_timeout b of None \<Rightarrow> Inr defaultRepositoryTimeout | Some v \<Rightarrow> positiveDuration ce v)"
  from assms obtain u br p tm where r: "rp_url r = projr (required (fr_url b))" "rp_branch r = projr branch"
      "rp_path r = projr (gitPath (fr_path b))" "rp_timeout r = projr timeout"
    and ok: "required (fr_url b) = Inr u" "branch = Inr br" "gitPath (fr_path b) = Inr p" "timeout = Inr tm"
    unfolding repository_of_def Let_def branch_def [symmetric] timeout_def [symmetric]
    by (auto simp: case_sum_Nil split: if_split_asm)
  have "br \<noteq> []" using ok(2) by (auto simp: branch_def dest: required_Inr split: option.splits)
  moreover have "0 < tm" using ok(4)
    by (auto simp: timeout_def defaultRepositoryTimeout_def dest: positiveDuration_Inr split: option.splits)
  ultimately show ?thesis using r ok gitPath_inside [OF ok(3)] required_Inr [OF ok(1)]
    by (simp add: readable_repository_def)
qed

lemma repositoriesOf_readable: "r \<in> set (fst (repositoriesOf ce fc file namespaces)) \<Longrightarrow> readable_repository r"
  by (auto simp: repositoriesOf_def Let_def List.map_filter_def split: sum.splits dest: repository_of_readable)

lemma twice_errors_none: "twice_errors c seen rs = [] \<longleftrightarrow> distinct (map rp_name rs) \<and> seen \<inter> rp_name ` set rs = {}"
  by (induction rs arbitrary: seen) auto

lemma loadRepositories_readable:
  assumes "loadRepositories ce explicit (Inr fc) c = (c', [])" "co_Repositories c = []"
    "co_GitURL c \<noteq> [] \<Longrightarrow> readable_repository (git_repository c)"
  shows "co_Repositories c' \<noteq> [] \<and> distinct (map rp_name (co_Repositories c')) \<and> list_all readable_repository (co_Repositories c') \<and>
    c'\<lparr>co_Repositories := []\<rparr> = c"
proof -
  define found where "found = (case fc of None \<Rightarrow> ([], []) | Some f \<Rightarrow> repositoriesOf ce f (co_ConfigFile c) (co_NomadNamespaces c))"
  define repos where "repos = (if co_GitURL c \<noteq> [] then [git_repository c] else []) @ fst found"
  have found: "(case Inr fc of Inl m \<Rightarrow> ([], []) | Inr None \<Rightarrow> ([], []) | Inr (Some f) \<Rightarrow>
      repositoriesOf ce f (co_ConfigFile c) (co_NomadNamespaces c)) = found" by (simp add: found_def)
  from assms(1,2) have c': "c' = c\<lparr>co_Repositories := repos\<rparr>" "repos \<noteq> []" "twice_errors c {} repos = []"
    unfolding loadRepositories_def Let_def found repos_def by (auto split: if_split_asm)
  have "list_all readable_repository repos"
    using assms(3) by (auto simp: repos_def found_def list_all_iff dest: repositoriesOf_readable split: option.splits)
  moreover have "c\<lparr>co_Repositories := []\<rparr> = c" using assms(2) by (cases c) simp
  ultimately show ?thesis using c' by (simp add: twice_errors_none)
qed


section \<open>The timeouts and limits of the file\<close>

definition limits_ok :: "config \<Rightarrow> bool" where
  "limits_ok c = (0 < co_NomadTimeout c \<and> 0 < co_ReadHeaderTimeout c \<and> 0 < co_ReadTimeout c \<and> 0 < co_WriteTimeout c \<and>
     0 < co_IdleTimeout c \<and> 0 \<le> co_LoginMaxFailures c \<and> 0 \<le> co_LoginFailureWindow c)"

text \<open>What the blocks of the file leave as the options set it, and the login of people.\<close>

definition set_by_options :: "config \<Rightarrow> (string \<times> string \<times> string \<times> string list \<times> string) \<times> bool" where
  "set_by_options c = ((co_GitURL c, co_GitBranch c, co_GitPath c, co_NomadNamespaces c, co_AuthMode c), intervals_positive c)"

lemma listen_timeout_ok:
  assumes "\<And>d c. 0 < d \<Longrightarrow> limits_ok c \<Longrightarrow> limits_ok (upd (\<lambda>_. d) c)" "limits_ok (fst s)"
  shows "limits_ok (fst (listen_timeout ce name v upd s))"
  using assms by (auto simp: listen_timeout_def dest: positiveDuration_Inr split: prod.splits option.splits sum.splits)

lemma listen_timeout_keeps:
  assumes "\<And>d c. sel (upd (\<lambda>_. d) c) = sel c"
  shows "sel (fst (listen_timeout ce name v upd s)) = sel (fst s)"
  using assms by (auto simp: listen_timeout_def split: prod.splits option.splits sum.splits)

lemma tls_file_keeps:
  assumes "\<And>x c. sel (upd (\<lambda>_. x) c) = sel c"
  shows "sel (fst (tls_file ce name v upd s)) = sel (fst s)"
  using assms by (auto simp: tls_file_def Let_def split: prod.splits sum.splits)

lemma limits_update:
  "0 < d \<Longrightarrow> limits_ok c \<Longrightarrow> limits_ok (c\<lparr>co_ReadHeaderTimeout := d\<rparr>)" "0 < d \<Longrightarrow> limits_ok c \<Longrightarrow> limits_ok (c\<lparr>co_ReadTimeout := d\<rparr>)"
  "0 < d \<Longrightarrow> limits_ok c \<Longrightarrow> limits_ok (c\<lparr>co_WriteTimeout := d\<rparr>)" "0 < d \<Longrightarrow> limits_ok c \<Longrightarrow> limits_ok (c\<lparr>co_IdleTimeout := d\<rparr>)"
  "limits_ok (c\<lparr>co_TLSCertFile := x\<rparr>) = limits_ok c" "limits_ok (c\<lparr>co_TLSKeyFile := x\<rparr>) = limits_ok c"
  by (simp_all add: limits_ok_def)

lemma loadListen_ok:
  assumes "limits_ok c"
  shows "limits_ok (fst (loadListen ce fc c))"
proof (cases "Option.bind fc fc_listen")
  case (Some l)
  let ?t1 = "listen_timeout ce ''read_header_timeout'' (fl_read_header_timeout l) co_ReadHeaderTimeout_update (c, [])"
  let ?t2 = "listen_timeout ce ''read_timeout'' (fl_read_timeout l) co_ReadTimeout_update ?t1"
  let ?t3 = "listen_timeout ce ''write_timeout'' (fl_write_timeout l) co_WriteTimeout_update ?t2"
  let ?t4 = "listen_timeout ce ''idle_timeout'' (fl_idle_timeout l) co_IdleTimeout_update ?t3"
  have "limits_ok (fst ?t1)" by (rule listen_timeout_ok) (simp_all add: limits_update assms)
  then have "limits_ok (fst ?t2)" by (rule listen_timeout_ok [rotated]) (rule limits_update)
  then have "limits_ok (fst ?t3)" by (rule listen_timeout_ok [rotated]) (rule limits_update)
  then have "limits_ok (fst ?t4)" by (rule listen_timeout_ok [rotated]) (rule limits_update)
  then show ?thesis
    by (simp add: loadListen_def Some Let_def tls_file_keeps [where sel = limits_ok] limits_update split: option.splits)
qed (simp add: loadListen_def assms)

lemma loadListen_keeps:
  assumes "\<And>d c. sel (co_ReadHeaderTimeout_update d c) = sel c" "\<And>d c. sel (co_ReadTimeout_update d c) = sel c"
    "\<And>d c. sel (co_WriteTimeout_update d c) = sel c" "\<And>d c. sel (co_IdleTimeout_update d c) = sel c"
    "\<And>d c. sel (co_TLSCertFile_update d c) = sel c" "\<And>d c. sel (co_TLSKeyFile_update d c) = sel c"
  shows "sel (fst (loadListen ce fc c)) = sel c"
  using assms by (simp add: loadListen_def Let_def listen_timeout_keeps tls_file_keeps split: option.splits)

lemma loadNomad_ok: "limits_ok c \<Longrightarrow> limits_ok (fst (loadNomad ce fc c))"
  by (auto simp: loadNomad_def limits_ok_def dest: positiveDuration_Inr split: option.splits sum.splits)

lemma loadNomad_keeps:
  assumes "\<And>d c. sel (co_NomadTimeout_update d c) = sel c"
  shows "sel (fst (loadNomad ce fc c)) = sel c"
  using assms by (simp add: loadNomad_def split: option.splits sum.splits)

lemma nonNegativeDuration_Inr: "nonNegativeDuration ce v = Inr d \<Longrightarrow> 0 \<le> d"
  by (auto simp: nonNegativeDuration_def bindE_Inr split: if_splits)

lemma loadAuth_ok: "limits_ok c \<Longrightarrow> limits_ok (fst (loadAuth ce fc c))"
  unfolding loadAuth_def Let_def
  by (auto simp: limits_ok_def dest: nonNegativeDuration_Inr split: option.split list.split sum.split)

lemma loadAuth_keeps:
  assumes "\<And>d c. sel (co_LoginMaxFailures_update d c) = sel c" "\<And>d c. sel (co_LoginFailureWindow_update d c) = sel c"
  shows "sel (fst (loadAuth ce fc c)) = sel c"
  unfolding loadAuth_def Let_def using assms by (auto split: option.split list.split sum.split)

section \<open>What a loaded configuration is\<close>

definition safe_repository :: "repository \<Rightarrow> bool" where
  "safe_repository r = (readable_repository r \<and> (rp_token r \<noteq> [] \<longrightarrow> prefix ''https://'' (lower_ascii (rp_url r)) \<and> rp_username r \<noteq> []))"

definition one_login :: "config \<Rightarrow> bool" where
  "one_login c = (if co_AuthMode c = ''oidc'' then co_OIDCIssuerURL c \<noteq> [] \<and> co_OIDCClientID c \<noteq> [] \<and> co_OIDCClientSecret c \<noteq> [] \<and>
       co_UsersFile c = [] \<and> co_GroupsFile c = []
     else co_AuthMode c = ''basic'' \<and> co_UsersFile c \<noteq> [] \<and> co_OIDCIssuerURL c = [] \<and> co_OIDCClientID c = [] \<and> co_OIDCClientSecret c = [])"

definition safe_config :: "config \<Rightarrow> bool" where
  "safe_config c = (co_Repositories c \<noteq> [] \<and> distinct (map rp_name (co_Repositories c)) \<and> list_all safe_repository (co_Repositories c) \<and>
     co_NomadNamespaces c \<noteq> [] \<and> distinct (co_NomadNamespaces c) \<and> intervals_positive c \<and> limits_ok c \<and> one_login c \<and>
     (if co_ACL c then Valid (co_ACLBootstrapToken c) else co_ACLBootstrapToken c = []) \<and>
     (co_NomadClientCert c = [] \<longleftrightarrow> co_NomadClientKey c = []) \<and>
     (co_NotifyWebhookToken c \<noteq> [] \<longrightarrow> co_NotifyWebhookURL c \<noteq> []) \<and> (co_NotifyNtfyToken c \<noteq> [] \<longrightarrow> co_NotifyNtfyURL c \<noteq> []) \<and>
     (co_NotifyGotifyToken c = [] \<longleftrightarrow> co_NotifyGotifyURL c = []))"

text \<open>The checks across options, each without an error.\<close>

lemma repository_errors_none:
  "repository_errors c r = [] \<Longrightarrow> rp_url r \<noteq> [] \<Longrightarrow> rp_token r \<noteq> [] \<Longrightarrow>
     prefix ''https://'' (lower_ascii (rp_url r)) \<and> rp_username r \<noteq> []"
  by (auto simp: repository_errors_def Let_def split: if_split_asm)

lemma notify_errors_none:
  "notify_errors c = [] \<Longrightarrow> (co_NotifyWebhookToken c \<noteq> [] \<longrightarrow> co_NotifyWebhookURL c \<noteq> []) \<and>
     (co_NotifyNtfyToken c \<noteq> [] \<longrightarrow> co_NotifyNtfyURL c \<noteq> []) \<and> (co_NotifyGotifyToken c = [] \<longleftrightarrow> co_NotifyGotifyURL c = [])"
  by (auto simp: notify_errors_def split: if_split_asm)

lemma auth_errors_none: "auth_errors c = [] \<Longrightarrow> co_AuthMode c \<in> {''oidc'', ''basic''} \<Longrightarrow> one_login c"
  by (auto simp: auth_errors_def one_login_def split: if_split_asm)

lemma acl_errors_none:
  "acl_errors c = [] \<Longrightarrow> (if co_ACL c then Valid (co_ACLBootstrapToken c) else co_ACLBootstrapToken c = [])"
  by (auto simp: acl_errors_def split: if_split_asm)

lemma check_keeps:
  assumes "\<And>x d. sel (co_PublicURL_update x d) = sel d" "\<And>x d. sel (co_BasePath_update x d) = sel d"
  shows "sel (fst (config_check ce c)) = sel c"
  using assms by (simp add: config_check_def Let_def)

lemma check_none:
  assumes "config_check ce c = (d, [])"
  shows "(\<forall>r\<in>set (co_Repositories d). repository_errors d r = []) \<and> notify_errors d = [] \<and> auth_errors d = [] \<and> acl_errors d = [] \<and>
    (co_NomadClientCert d = [] \<longleftrightarrow> co_NomadClientKey d = [])"
proof -
  define e where "e = co_BasePath_update (\<lambda>_. basePathOf ce (co_PublicURL (if co_PublicURL c = []
      then c\<lparr>co_PublicURL := publicURLDefault (co_ListenAddr c) (co_TLSCertFile c \<noteq> [])\<rparr> else c)))
    (if co_PublicURL c = [] then c\<lparr>co_PublicURL := publicURLDefault (co_ListenAddr c) (co_TLSCertFile c \<noteq> [])\<rparr> else c)"
  from assms have "d = e" "concat (map (repository_errors e) (co_Repositories c)) = []" "notify_errors e = []" "auth_errors e = []"
    "acl_errors e = []" "(co_NomadClientCert c = []) = (co_NomadClientKey c = [])"
    unfolding config_check_def Let_def e_def [symmetric] by (auto simp: e_def split: if_split_asm)
  then show ?thesis by (auto simp: e_def)
qed


section \<open>The options a load rests on\<close>

lemma namespaceList_Inr: "namespaceList v = Inr out \<Longrightarrow> out \<noteq> [] \<and> distinct out"
proof -
  have "distinct out0 \<Longrightarrow> distinct (foldl (\<lambda>out ns. if ns \<in> set out then out else out @ [ns]) out0 xs)" for out0 xs :: "string list"
    by (induction xs arbitrary: out0) auto
  then show "namespaceList v = Inr out \<Longrightarrow> out \<noteq> [] \<and> distinct out"
    by (auto simp: namespaceList_def Let_def split: if_split_asm)
qed

lemma options_set:
  assumes run: "foldl (option_step vals getenv) (initial_config, []) (options ce) = (c, [])"
  shows "co_GitBranch c \<noteq> []" "stays_inside (co_GitPath c)" "co_NomadNamespaces c \<noteq> []" "distinct (co_NomadNamespaces c)"
    "co_AuthMode c \<in> {''oidc'', ''basic''}" "co_Repositories c = []" "limits_ok c"
proof -
  have "required (option_value vals getenv (opt ''git-branch'' ''main'' (assign [] co_GitBranch_update required))) = Inr (co_GitBranch c)"
    by (rule assign_option [OF run]) (simp_all add: options_def setter_simps)
  then show "co_GitBranch c \<noteq> []" by (auto dest: required_Inr)
  have "gitPath (option_value vals getenv (opt ''git-path'' '''' (assign [] co_GitPath_update gitPath))) = Inr (co_GitPath c)"
    by (rule assign_option [OF run]) (simp_all add: options_def setter_simps)
  then show "stays_inside (co_GitPath c)" by (rule gitPath_inside)
  have "namespaceList (option_value vals getenv (opt ''nomad-namespaces'' ''default'' (assign [] co_NomadNamespaces_update namespaceList)))
      = Inr (co_NomadNamespaces c)"
    by (rule assign_option [OF run]) (simp_all add: options_def setter_simps)
  then show "co_NomadNamespaces c \<noteq> []" "distinct (co_NomadNamespaces c)" by (simp_all add: namespaceList_Inr)
  obtain d where "snd (set_auth_mode d (option_value vals getenv (opt ''auth-mode'' '''' set_auth_mode))) = None"
    "co_AuthMode c = co_AuthMode (fst (set_auth_mode d (option_value vals getenv (opt ''auth-mode'' '''' set_auth_mode))))"
    by (rule options_field [OF run _ option_names_distinct, where sel = co_AuthMode and spec = "opt ''auth-mode'' '''' set_auth_mode"])
      (simp_all add: options_def setter_simps)
  then show "co_AuthMode c \<in> {''oidc'', ''basic''}" by (auto simp: set_auth_mode_def split: if_split_asm)
  have "co_Repositories c = co_Repositories initial_config"
    by (rule options_untouched [OF run]) (simp add: options_def setter_simps)
  then show "co_Repositories c = []" by (simp add: initial_config_def)
  have "limits_ok c = limits_ok initial_config"
    by (rule options_untouched [OF run]) (simp add: options_def setter_simps limits_ok_def)
  then show "limits_ok c" by (simp add: initial_config_def limits_ok_def)
qed

text \<open>What no later stage changes.\<close>

definition settled :: "config \<Rightarrow> (string \<times> string \<times> string list \<times> string) \<times> bool" where
  "settled c = ((co_GitBranch c, co_GitPath c, co_NomadNamespaces c, co_AuthMode c), intervals_positive c)"

lemma settled_secrets: "settled (fst (resolveSecretValues ce getenv c)) = settled c"
  "co_Repositories (fst (resolveSecretValues ce getenv c)) = co_Repositories c"
  "limits_ok (fst (resolveSecretValues ce getenv c)) = limits_ok c"
  "co_GitTimeout (fst (resolveSecretValues ce getenv c)) = co_GitTimeout c"
  by (rule secrets_untouched, simp add: secretValues_def settled_def intervals_positive_def limits_ok_def)+

lemma settled_file:
  "settled (fst (loadListen ce fc c)) = settled c" "co_Repositories (fst (loadListen ce fc c)) = co_Repositories c"
  "settled (fst (loadNomad ce fc c)) = settled c" "co_Repositories (fst (loadNomad ce fc c)) = co_Repositories c"
  "settled (fst (loadAuth ce fc c)) = settled c" "co_Repositories (fst (loadAuth ce fc c)) = co_Repositories c"
  "settled (fst (config_check ce c)) = settled c" "co_Repositories (fst (config_check ce c)) = co_Repositories c"
  "limits_ok (fst (config_check ce c)) = limits_ok c"
  by (simp_all add: loadListen_keeps loadNomad_keeps loadAuth_keeps check_keeps settled_def intervals_positive_def limits_ok_def)

lemma Load_Inr:
  assumes "Load ce hcl getenv args = Inr c"
  obtains vals where "parse_flags (formal_flags ce) args Map.empty = Inr (vals, [])" "load_stages ce hcl getenv vals = (c, [])"
proof -
  from assms obtain vals rest where p: "parse_flags (formal_flags ce) args Map.empty = Inr (vals, rest)"
    and r: "(case rest of a # _ \<Rightarrow> Inl (Unexpected a)
      | [] \<Rightarrow> (case load_stages ce hcl getenv vals of (c, errs) \<Rightarrow> if errs = [] then Inr c else Inl (Rejected errs))) = Inr c"
    by (auto simp: Load_def bindE_Inr)
  from r have "rest = []" by (cases rest) auto
  with p r that show thesis by (auto split: prod.splits if_split_asm)
qed

text \<open>
  Claim C30. A start never runs on a configuration that is not safe: a load that succeeds gives at
  least one repository and no name twice; each has a URL, a branch, a path that stays inside it and
  a deadline, and its token, if any, goes out over https only and with a username; the namespaces
  are there and distinct, every interval and timeout is positive; there is one way to log in, wholly
  set; with the ACL on the bootstrap token is a secret that Nops made, and without it there is none;
  and no token is set for a notification that goes nowhere.
\<close>

theorem loaded_config_safe:
  assumes "Load ce hcl getenv args = Inr c"
  shows "safe_config c"
proof -
  from assms obtain vals where "load_stages ce hcl getenv vals = (c, [])" by (rule Load_Inr)
  then obtain c1 c2 c3 c4 c5 c6 fc where s1: "foldl (option_step vals getenv) (initial_config, []) (options ce) = (c1, [])"
    and s2: "resolveSecretValues ce getenv c1 = (c2, [])"
    and s3: "loadRepositories ce (\<lambda>n. option_origin vals getenv n \<noteq> FromDefault) (Inr fc) c2 = (c3, [])"
    and s4: "loadListen ce fc c3 = (c4, [])" and s5: "loadNomad ce fc c4 = (c5, [])" and s6: "loadAuth ce fc c5 = (c6, [])"
    and s7: "config_check ce c6 = (c, [])" by (rule load_stagesE)
  note o1 = options_set [OF s1] options_intervals [OF s1]
  have two: "settled c2 = settled c1" "co_Repositories c2 = []" "limits_ok c2" "0 < co_GitTimeout c2"
    using settled_secrets [of ce getenv c1] s2 o1 by (simp_all add: intervals_positive_def)
  have three: "co_Repositories c3 \<noteq> []" "distinct (map rp_name (co_Repositories c3))" "list_all readable_repository (co_Repositories c3)"
      "c3\<lparr>co_Repositories := []\<rparr> = c2"
    using loadRepositories_readable [OF s3 two(2)] two o1
    by (simp_all add: readable_repository_def git_repository_def settled_def)
  have "settled c3 = settled c2" "limits_ok c3 = limits_ok c2"
    using three(4) by (auto simp: settled_def intervals_positive_def limits_ok_def)
  with two have three': "settled c3 = settled c1" "limits_ok c3" by simp_all
  from loadListen_ok [OF this(2), of ce fc] settled_file(1,2) [of ce fc c3] s4 three'
  have "settled c4 = settled c1" "co_Repositories c4 = co_Repositories c3" "limits_ok c4" by simp_all
  with loadNomad_ok [OF this(3), of ce fc] settled_file(3,4) [of ce fc c4] s5
  have "settled c5 = settled c1" "co_Repositories c5 = co_Repositories c3" "limits_ok c5" by simp_all
  with loadAuth_ok [OF this(3), of ce fc] settled_file(5,6) [of ce fc c5] s6
  have "settled c6 = settled c1" "co_Repositories c6 = co_Repositories c3" "limits_ok c6" by simp_all
  with settled_file(7-9) [of ce c6] s7
  have last: "settled c = settled c1" "co_Repositories c = co_Repositories c3" "limits_ok c" by simp_all
  note none = check_none [OF s7]
  have "list_all safe_repository (co_Repositories c)"
    using none three(3) last(2) repository_errors_none by (auto simp: list_all_iff safe_repository_def readable_repository_def)
  moreover have "co_AuthMode c \<in> {''oidc'', ''basic''}" "co_NomadNamespaces c \<noteq> []" "distinct (co_NomadNamespaces c)" "intervals_positive c"
    using last(1) o1 by (simp_all add: settled_def)
  ultimately show ?thesis
    using none three last notify_errors_none [of c] auth_errors_none [of c] acl_errors_none [of c]
    unfolding safe_config_def by auto
qed


section \<open>Every wrong setting is reported\<close>

lemma option_error_pure: "spec \<in> set (options ce) \<Longrightarrow> snd (op_set spec c v) = snd (op_set spec d v)"
proof -
  assume "spec \<in> set (options ce)"
  moreover have "\<forall>p\<in>set (options ce). snd (op_set p c v) = snd (op_set p d v)"
    by (simp add: options_def snd_assign keep_def assign_file_def set_listen_addr_def set_auth_mode_def set_issuer_def
        set_zone_def set_level_def split: sum.split)
  ultimately show ?thesis by blast
qed

lemma option_error_kept:
  assumes "spec \<in> set opts" "set opts \<subseteq> set (options ce)" "snd (op_set spec initial_config (option_value vals getenv spec)) = Some m"
  shows "option_source vals getenv (op_name spec) @ '': '' @ m \<in> set (snd (foldl (option_step vals getenv) s opts))"
  using assms
proof (induction opts arbitrary: s)
  case (Cons p ps)
  let ?t = "option_step vals getenv s p"
  obtain rest where rest: "snd (foldl (option_step vals getenv) ?t ps) = snd ?t @ rest" using options_run_errors by blast
  show ?case
  proof (cases "spec = p")
    case True
    have "snd (op_set p (fst s) (option_value vals getenv p)) = Some m"
      using Cons.prems True option_error_pure [of p ce] by (metis list.set_intros(1) subset_iff)
    then have "option_source vals getenv (op_name p) @ '': '' @ m \<in> set (snd ?t)"
      by (cases s) (auto simp: option_step_def split: prod.splits)
    with rest True show ?thesis by simp
  next
    case False
    with Cons show ?thesis by simp
  qed
qed simp

text \<open>
  Claim C31. Every option that does not read is reported: whatever else is wrong, a start with it is
  refused, and the errors name the flag, the variable or the default the value came from, with what
  is wrong with it.
\<close>

theorem wrong_option_reported:
  assumes "parse_flags (formal_flags ce) args Map.empty = Inr (vals, [])" "spec \<in> set (options ce)"
    "snd (op_set spec initial_config (option_value vals getenv spec)) = Some m"
  shows "\<exists>errs. Load ce hcl getenv args = Inl (Rejected errs) \<and> option_source vals getenv (op_name spec) @ '': '' @ m \<in> set errs"
proof -
  obtain c1 e1 where run: "foldl (option_step vals getenv) (initial_config, []) (options ce) = (c1, e1)" by fastforce
  then have e1: "option_source vals getenv (op_name spec) @ '': '' @ m \<in> set e1"
    using option_error_kept [OF assms(2) subset_refl assms(3), of "(initial_config, [])"] by simp
  obtain c7 others where "load_stages ce hcl getenv vals = (c7, e1 @ others)"
    unfolding load_stages_def Let_def run by (auto simp: case_prod_beta)
  with e1 assms(1) show ?thesis by (auto simp: Load_def)
qed

section \<open>A flag wins over the variable\<close>

text \<open>No two settings read the same variable.\<close>

definition option_names :: "string list" where
  "option_names = [
     ''nomad-addr'', ''nomad-ui-url'', ''nomad-namespaces'', ''nomad-token-file'', ''nomad-ca-cert'',
     ''nomad-client-cert'', ''nomad-client-key'', ''nomad-tls-skip-verify'', ''config'', ''git-url'',
     ''git-branch'', ''git-path'', ''git-username'', ''git-token-file'', ''git-timeout'', ''db-path'',
     ''listen-addr'', ''auth-mode'', ''oidc-issuer-url'', ''oidc-client-id'', ''oidc-client-secret-file'',
     ''users-file'', ''groups-file'', ''webhook-secret-file'', ''acl'', ''acl-bootstrap-token-file'',
     ''notify-webhook-url-file'', ''notify-webhook-token-file'', ''notify-discord-url-file'',
     ''notify-slack-url-file'', ''notify-ntfy-url'', ''notify-ntfy-token-file'', ''notify-gotify-url'',
     ''notify-gotify-token-file'', ''notify-timeout'', ''public-url'', ''git-poll-interval'', ''drift-interval'',
     ''engine-interval'', ''hook-poll-interval'', ''apply-timeout'', ''sync-window-time-zone'', ''log-level'']"

lemma option_names: "map op_name (options ce) = option_names"
  by (simp add: options_def option_names_def)

text \<open>The names whose variables hold something else: removed options and plain secrets.\<close>

definition other_names :: "string list" where
  "other_names = [
     ''oidc-allowed-users'', ''oidc-allowed-groups'', ''metrics-token-file'', ''metrics-token'',
     ''nomad-namespace'', ''oidc-client-secret'', ''git-token'', ''nomad-token'', ''webhook-secret'',
     ''acl-bootstrap-token'', ''notify-webhook-url'', ''notify-webhook-token'', ''notify-discord-url'',
     ''notify-slack-url'', ''notify-ntfy-token'', ''notify-gotify-token'']"

lemma other_names:
  "map env_name other_names = map env_name (map ro_name removedOptions) @ [''NOPS_METRICS_TOKEN'', ''NOPS_NOMAD_NAMESPACE''] @ map sv_env secretValues"
  by code_simp

text \<open>A name without capitals and underscores is found again from its variable.\<close>

definition lower_back :: "char \<Rightarrow> char" where
  "lower_back c = (if c = CHR ''_'' then CHR ''-'' else if between CHR ''A'' CHR ''Z'' c then char_of (byte c + 32) else c)"

definition plain_name :: "string \<Rightarrow> bool" where
  "plain_name s = list_all (\<lambda>c. c \<noteq> CHR ''_'' \<and> \<not> between CHR ''A'' CHR ''Z'' c) s"

lemma upper_back: "c \<noteq> CHR ''_'' \<Longrightarrow> \<not> between CHR ''A'' CHR ''Z'' c \<Longrightarrow> lower_back (upper_char c) = c"
proof -
  have "\<forall>c. c \<noteq> CHR ''_'' \<and> \<not> between CHR ''A'' CHR ''Z'' c \<longrightarrow> lower_back (upper_char c) = c" by code_simp
  then show "c \<noteq> CHR ''_'' \<Longrightarrow> \<not> between CHR ''A'' CHR ''Z'' c \<Longrightarrow> lower_back (upper_char c) = c" by blast
qed

lemma env_name_inj: "plain_name m \<Longrightarrow> plain_name n \<Longrightarrow> env_name m = env_name n \<longleftrightarrow> m = n"
proof -
  have "map lower_back (map upper_char s) = s" if "plain_name s" for s
    using that by (induction s) (auto simp: plain_name_def upper_back)
  then show "plain_name m \<Longrightarrow> plain_name n \<Longrightarrow> env_name m = env_name n \<longleftrightarrow> m = n"
    by (metis env_name_def same_append_eq)
qed

lemma plain_names: "list_all plain_name (option_names @ other_names)"
  by code_simp

lemma names_distinct: "distinct (option_names @ other_names)"
  by (simp add: option_names_def other_names_def)

lemma variables_distinct: "distinct (map env_name (option_names @ other_names))"
proof -
  have "inj_on env_name (set (option_names @ other_names))"
    using plain_names by (auto simp: inj_on_def list_all_iff env_name_inj)
  then show ?thesis using names_distinct by (simp only: distinct_map)
qed

lemma variables_apart:
  assumes "n \<in> op_name ` set (options ce)"
  shows "m \<in> op_name ` set (options ce) \<Longrightarrow> env_name m = env_name n \<Longrightarrow> m = n"
    and "env_name n \<notin> set (map env_name other_names)"
proof -
  have names: "op_name ` set (options ce) = set option_names" using option_names [of ce] by (metis set_map)
  show "m \<in> op_name ` set (options ce) \<Longrightarrow> env_name m = env_name n \<Longrightarrow> m = n"
    using plain_names assms unfolding names by (auto simp: list_all_iff env_name_inj)
  show "env_name n \<notin> set (map env_name other_names)"
    using variables_distinct assms unfolding names map_append distinct_append by auto
qed

lemma variables_apart_all:
  assumes "n \<in> op_name ` set (options ce)"
  shows "r \<in> set removedOptions \<Longrightarrow> env_name (ro_name r) \<noteq> env_name n" "env_name n \<noteq> ''NOPS_METRICS_TOKEN''"
    "env_name n \<noteq> ''NOPS_NOMAD_NAMESPACE''" "sv \<in> set secretValues \<Longrightarrow> sv_env sv \<noteq> env_name n"
proof -
  note apart = variables_apart(2) [OF assms, unfolded other_names set_append set_map]
  show "env_name n \<noteq> ''NOPS_METRICS_TOKEN''" "env_name n \<noteq> ''NOPS_NOMAD_NAMESPACE''" using apart by auto
  show "r \<in> set removedOptions \<Longrightarrow> env_name (ro_name r) \<noteq> env_name n" "sv \<in> set secretValues \<Longrightarrow> sv_env sv \<noteq> env_name n"
    using apart by (metis UnI1 UnI2 imageI)+
qed

lemma flag_origin:
  assumes "n \<in> op_name ` set (options ce)" "vals n = Some x" "m \<in> op_name ` set (options ce)"
  shows "option_origin vals (getenv(env_name n := v)) m = option_origin vals getenv m"
  using assms variables_apart(1) [OF assms(1,3)] by (auto simp: option_origin_def)

lemma loadRepositories_explicit:
  assumes "\<forall>n\<in>set git_options. ex n = ex' n"
  shows "loadRepositories ce ex src c = loadRepositories ce ex' src c"
proof -
  have "filter ex git_options = filter ex' git_options" "ex ''git-token-file'' = ex' ''git-token-file''"
    using assms by (auto simp: git_options_def)
  then show ?thesis by (simp add: loadRepositories_def)
qed

lemma git_options_known: "set git_options \<subseteq> op_name ` set (options ce)"
proof -
  have "set git_options \<subseteq> set option_names" by (simp add: git_options_def option_names_def)
  then show ?thesis using option_names [of ce] by (metis set_map)
qed

lemma removed_errors_cong:
  assumes "\<And>r. r \<in> set removedOptions \<Longrightarrow> g (env_name (ro_name r)) = h (env_name (ro_name r))"
    "g ''NOPS_METRICS_TOKEN'' = h ''NOPS_METRICS_TOKEN''" "g ''NOPS_NOMAD_NAMESPACE'' = h ''NOPS_NOMAD_NAMESPACE''"
  shows "removed_errors vals g = removed_errors vals h"
proof -
  have "ro_value_env r \<in> {[], ''NOPS_METRICS_TOKEN''}" if "r \<in> set removedOptions" for r
    using that by (auto simp: removedOptions_def)
  then have "g (ro_value_env r) = h (ro_value_env r)" if "r \<in> set removedOptions" "ro_value_env r \<noteq> []" for r
    using that assms(2) by fastforce
  with assms show ?thesis unfolding removed_errors_def
    by (intro arg_cong2 [where f = append] arg_cong [where f = concat] map_cong) (simp_all cong: conj_cong)
qed

text \<open>
  A flag wins over its variable: with the flag on the command line, whatever the variable
  holds, valid or not, the load is the same.
\<close>

theorem flag_hides_variable:
  assumes "parse_flags (formal_flags ce) args Map.empty = Inr (vals, rest)" "n \<in> op_name ` set (options ce)" "vals n = Some x"
  shows "Load ce hcl (getenv(env_name n := v)) args = Load ce hcl getenv args"
proof -
  let ?g = "getenv(env_name n := v)"
  note apart = variables_apart(1) [OF assms(2)] variables_apart_all [OF assms(2)] and origin = flag_origin [where vals = vals and n = n and x = x, OF assms(2,3)]
  have "option_step vals ?g s p = option_step vals getenv s p" if "p \<in> set (options ce)" for s p
  proof -
    have p: "op_name p \<in> op_name ` set (options ce)" using that by simp
    have "option_value vals ?g p = option_value vals getenv p"
      using origin [OF p] apart(1) [OF p] assms(3) by (auto simp: option_value_def option_origin_def split: origin.splits)
    moreover have "option_source vals ?g (op_name p) = option_source vals getenv (op_name p)"
      using origin [OF p] by (simp add: option_source_def)
    ultimately show ?thesis unfolding option_step_def by (simp only:)
  qed
  then have run: "foldl (option_step vals ?g) s (options ce) = foldl (option_step vals getenv) s (options ce)" for s
    by (intro foldl_cong) simp_all
  have removed: "removed_errors vals ?g = removed_errors vals getenv" by (rule removed_errors_cong) (use apart in auto)
  have "secret_step ce ?g s sv = secret_step ce getenv s sv" if "sv \<in> set secretValues" for s sv
    using apart(5) [OF that] by (simp add: secret_step_def)
  then have secrets: "resolveSecretValues ce ?g c = resolveSecretValues ce getenv c" for c
    unfolding resolveSecretValues_def by (intro foldl_cong) simp_all
  have repos: "loadRepositories ce (\<lambda>m. option_origin vals ?g m \<noteq> FromDefault) src c =
      loadRepositories ce (\<lambda>m. option_origin vals getenv m \<noteq> FromDefault) src c" for src c
    by (intro loadRepositories_explicit ballI) (simp add: origin [OF subsetD [OF git_options_known]])
  have "load_stages ce hcl ?g vals = load_stages ce hcl getenv vals"
    unfolding load_stages_def Let_def run removed secrets repos by (rule refl)
  with assms(1) show ?thesis by (simp add: Load_def)
qed


section \<open>Examples\<close>

definition sample_start :: config_env where
  "sample_start = \<lparr>ce_url = (\<lambda>s. if prefix ''http'' s then Inr \<lparr>ur_scheme = (if prefix ''https'' s then ''https'' else ''http''), ur_user = None,
       ur_host = ''h'', ur_path = [], ur_query = [], ur_fragment = []\<rparr> else Inl ''no URL''),
     ce_read = (\<lambda>p. Inl ''no such file''), ce_open = (\<lambda>p. Inr False), ce_duration = (\<lambda>s. if s = [] then Inl ''invalid'' else Inr second),
     ce_zone = (\<lambda>z. None)\<rparr>"

definition sample_args :: "string list" where
  "sample_args = [''-auth-mode=basic'', ''--users-file'', ''users'', ''-git-url=https://h/jobs.git'']"

definition sample_vals :: "string \<rightharpoonup> string" where
  "sample_vals = [''auth-mode'' \<mapsto> ''basic'', ''users-file'' \<mapsto> ''users'', ''git-url'' \<mapsto> ''https://h/jobs.git'']"

lemma sample_flags: "parse_flags (formal_flags sample_start) sample_args Map.empty = Inr (sample_vals, [])"
  by (simp add: sample_args_def sample_vals_def formal_flags_def options_def cut_at_def)

theorem loaded_config_safe_witness:
  "\<exists>c. Load sample_start (\<lambda>_. Inl ''no file'') (\<lambda>_. []) sample_args = Inr c \<and> safe_config c"
proof -
  have "is_ok (Load sample_start (\<lambda>_. Inl ''no file'') (\<lambda>_. []) sample_args)" by code_simp
  then obtain c where "Load sample_start (\<lambda>_. Inl ''no file'') (\<lambda>_. []) sample_args = Inr c"
    by (auto simp: is_ok_def split: sum.splits)
  with loaded_config_safe [OF this] show ?thesis by blast
qed

theorem flag_hides_variable_witness:
  "Load sample_start (\<lambda>_. Inl ''no file'') ((\<lambda>_. [])(env_name ''users-file'' := ''other'')) sample_args =
   Load sample_start (\<lambda>_. Inl ''no file'') (\<lambda>_. []) sample_args"
proof (rule flag_hides_variable [OF sample_flags])
  have "''users-file'' \<in> set option_names" by (simp add: option_names_def)
  then show "''users-file'' \<in> op_name ` set (options sample_start)" using option_names by (metis set_map)
  show "sample_vals ''users-file'' = Some ''users''" by (simp add: sample_vals_def)
qed

theorem wrong_option_reported_witness:
  "\<exists>errs. Load sample_start (\<lambda>_. Inl ''no file'') (\<lambda>k. if k = ''NOPS_NOMAD_ADDR'' then ''nomad'' else []) sample_args = Inl (Rejected errs) \<and>
     ''NOPS_NOMAD_ADDR: no URL'' \<in> set errs"
proof -
  let ?env = "\<lambda>k :: string. if k = ''NOPS_NOMAD_ADDR'' then ''nomad'' else []"
  let ?spec = "opt ''nomad-addr'' ''http://127.0.0.1:4646'' (assign [] co_NomadAddr_update (httpURL sample_start))"
  have env: "env_name ''nomad-addr'' = ''NOPS_NOMAD_ADDR''" by code_simp
  then have origin: "option_origin sample_vals ?env ''nomad-addr'' = FromEnv"
    by (simp add: option_origin_def sample_vals_def)
  have "?spec \<in> set (options sample_start)" by (simp add: options_def)
  moreover have "snd (op_set ?spec initial_config (option_value sample_vals ?env ?spec)) = Some ''no URL''"
    using origin env by (simp add: option_value_def snd_assign httpURL_def sample_start_def)
  ultimately show ?thesis
    using wrong_option_reported [OF sample_flags, of ?spec ?env "''no URL''" "\<lambda>_. Inl ''no file''"] origin env
    by (simp add: option_source_def)
qed

end
