(* ===== verification/PageParts.thy ===== *)
theory PageParts
  imports JobLists Notify
begin

text \<open>
  What every page of the dashboard is made of (\<open>internal/web/render.go\<close>, \<open>diff.go\<close>, \<open>nomadlinks.go\<close> and
  the links of \<open>list.go\<close>): moments and durations as a person reads them, the frame of a page, the card
  of a deployment, the labels of the states, and the links of a list with its filters and pages.

  A page is the data its handler gives the template. Templates turn it into HTML and decide nothing;
  they are not modelled.
\<close>

section \<open>Dates\<close>

text \<open>
  Go's \<open>Time.Format\<close> in UTC, for the layouts the pages use. \<open>civil\<close> gives the year, month and day of
  a day counted from 1970-01-01, in the years from 0 on.
\<close>

definition civil :: "int \<Rightarrow> int \<times> int \<times> int" where
  "civil z0 =
     (let z = z0 + 719468; era = z div 146097; doe = z mod 146097;
          yoe = (doe - doe div 1460 + doe div 36524 - doe div 146096) div 365;
          doy = doe - (365 * yoe + yoe div 4 - yoe div 100);
          mp = (5 * doy + 2) div 153;
          m = (if mp < 10 then mp + 3 else mp - 9)
      in (yoe + era * 400 + (if m \<le> 2 then 1 else 0), m, doy - (153 * mp + 2) div 5 + 1))"

definition pad :: "nat \<Rightarrow> int \<Rightarrow> string" where
  "pad n x = (let s = show_nat (nat x) in replicate (n - length s) (CHR ''0'') @ s)"

definition whole_day :: duration where "whole_day = 24 * 60 * 60 * second"

definition date_text :: "time \<Rightarrow> string" where
  "date_text t = (case civil (t div whole_day) of (y, m, d) \<Rightarrow> pad 4 y @ ''-'' @ pad 2 m @ ''-'' @ pad 2 d)"

definition clock_text :: "time \<Rightarrow> string" where
  "clock_text t = (let s = (t mod whole_day) div second in
     pad 2 (s div 3600) @ '':'' @ pad 2 (s div 60 mod 60) @ '':'' @ pad 2 (s mod 60))"

definition formatTime :: "time \<Rightarrow> string" where
  "formatTime t = date_text t @ '' '' @ clock_text t @ '' UTC''"

definition iso_text :: "time \<Rightarrow> string" where
  "iso_text t = date_text t @ ''T'' @ clock_text t @ ''Z''"

definition weekday_name :: "int \<Rightarrow> string" where
  "weekday_name n = [''Sun'', ''Mon'', ''Tue'', ''Wed'', ''Thu'', ''Fri'', ''Sat''] ! nat ((n + 4) mod 7)"

definition month_name :: "int \<Rightarrow> string" where
  "month_name m = [''Jan'', ''Feb'', ''Mar'', ''Apr'', ''May'', ''Jun'', ''Jul'', ''Aug'', ''Sep'', ''Oct'', ''Nov'', ''Dec''] ! nat (m - 1)"

definition day_text :: "time \<Rightarrow> string" where
  "day_text t = (case civil (t div whole_day) of (y, m, d) \<Rightarrow>
     weekday_name (t div whole_day) @ '', '' @ show_nat (nat d) @ '' '' @ month_name m @ '' '' @ pad 4 y)"

lemma civil_samples:
  "civil 0 = (1970, 1, 1)" "civil 19782 = (2024, 2, 29)" "civil 19783 = (2024, 3, 1)" "civil 20723 = (2026, 9, 27)"
  by code_simp+

section \<open>Moments\<close>

text \<open>\<open>Time.Sub\<close> saturates at the largest and smallest duration.\<close>

definition time_sub :: "time \<Rightarrow> time \<Rightarrow> duration" where
  "time_sub t u = max (- (2 ^ 63)) (min (2 ^ 63 - 1) (t - u))"

record time_view =
  tv_rel :: string
  tv_full :: string
  tv_iso :: string

definition no_moment :: time_view where
  "no_moment = \<lparr>tv_rel = [], tv_full = [], tv_iso = []\<rparr>"

abbreviation minute :: duration where "minute \<equiv> 60 * second"

abbreviation hour :: duration where "hour \<equiv> 60 * minute"

definition relative :: "time \<Rightarrow> time \<Rightarrow> string" where
  "relative now t = (let d = time_sub now t in
     if d < minute then ''just now''
     else if d < hour then show_nat (nat (d div minute)) @ ''m ago''
     else if d < whole_day then show_nat (nat (d div hour)) @ ''h ago''
     else if d < 30 * whole_day then show_nat (nat (d div whole_day)) @ ''d ago''
     else date_text t)"

text \<open>\<open>when\<close>; \<open>None\<close> is the zero time.\<close>

definition when_view :: "time \<Rightarrow> time option \<Rightarrow> time_view" where
  "when_view now t = (case t of None \<Rightarrow> no_moment
     | Some t \<Rightarrow> \<lparr>tv_rel = relative now t, tv_full = formatTime t, tv_iso = iso_text t\<rparr>)"

definition until_view :: "time \<Rightarrow> time option \<Rightarrow> time_view" where
  "until_view now t = (case t of None \<Rightarrow> no_moment
     | Some u \<Rightarrow> (let d = time_sub u now in
         if d \<le> 0 then when_view now (Some u)
         else \<lparr>tv_rel = (if d < minute then ''in under a minute''
                 else if d < hour then ''in '' @ show_nat (nat (d div minute)) @ ''m''
                 else if d < whole_day then ''in '' @ show_nat (nat (d div hour)) @ ''h''
                 else ''in '' @ show_nat (nat (d div whole_day)) @ ''d''),
               tv_full = formatTime u, tv_iso = iso_text u\<rparr>))"

text \<open>Go's \<open>Duration.String\<close>, and \<open>duration\<close> on top of it.\<close>

definition trim_zeros :: "string \<Rightarrow> string" where
  "trim_zeros s = rev (dropWhile (\<lambda>c. c = CHR ''0'') (rev s))"

definition fraction_text :: "nat \<Rightarrow> nat \<Rightarrow> string" where
  "fraction_text n digits = (let s = show_nat n; f = trim_zeros (replicate (digits - length s) (CHR ''0'') @ s)
     in if f = [] then [] else ''.'' @ f)"

definition micro :: string where "micro = [CHR 0xC2, CHR 0xB5, CHR ''s'']"

definition unsigned_duration :: "nat \<Rightarrow> string" where
  "unsigned_duration n =
     (if n = 0 then ''0s''
      else if n < 1000 then show_nat n @ ''ns''
      else if n < 1000000 then show_nat (n div 1000) @ fraction_text (n mod 1000) 3 @ micro
      else if n < 1000000000 then show_nat (n div 1000000) @ fraction_text (n mod 1000000) 6 @ ''ms''
      else (let s = n div 1000000000; secs = show_nat (s mod 60) @ fraction_text (n mod 1000000000) 9 @ ''s'' in
        if s < 60 then secs
        else if s < 3600 then show_nat (s div 60) @ ''m'' @ secs
        else show_nat (s div 3600) @ ''h'' @ show_nat (s div 60 mod 60) @ ''m'' @ secs))"

definition duration_string :: "duration \<Rightarrow> string" where
  "duration_string d = (if d < 0 then ''-'' @ unsigned_duration (nat (- d)) else unsigned_duration (nat d))"

definition duration_text :: "duration \<Rightarrow> string" where
  "duration_text d =
     (let s = duration_string d;
          s = (if suffix ''m0s'' s then trim_suffix s ''0s'' else s)
      in if suffix ''h0m'' s then trim_suffix s ''0m'' else s)"

section \<open>The frame of a page\<close>

text \<open>
  The server as the pages read it: its base path, its clock, its version, the base of the Nomad UI, the
  address of a commit, and how a plan diff reads as JSON.
\<close>

record page_server =
  srv_base :: string
  srv_now :: time
  srv_version :: string
  srv_nomad_ui :: string
  srv_commit_url :: "(string \<Rightarrow> string \<Rightarrow> string) option"
  srv_diff :: "string \<Rightarrow> string + job_diff option"

definition nomadJobURL :: "page_server \<Rightarrow> string \<Rightarrow> string \<Rightarrow> string" where
  "nomadJobURL srv ns job = UIJobURL (srv_nomad_ui srv) ns job"

definition nomadDeploymentsURL :: "page_server \<Rightarrow> string \<Rightarrow> string \<Rightarrow> string" where
  "nomadDeploymentsURL srv ns job = (let u = nomadJobURL srv ns job in if u \<noteq> [] then u @ ''/deployments'' else [])"

definition jobPath :: "page_server \<Rightarrow> string \<Rightarrow> string \<Rightarrow> string" where
  "jobPath srv ns job = srv_base srv @ ''/jobs/'' @ path_escape ns @ ''/'' @ path_escape job"

definition deploymentPath :: "page_server \<Rightarrow> string \<Rightarrow> string" where
  "deploymentPath srv i = srv_base srv @ ''/deployments/'' @ path_escape i"

definition retryPath :: "page_server \<Rightarrow> string \<Rightarrow> string" where
  "retryPath srv i = deploymentPath srv i @ ''/retry''"

text \<open>\<open>baseData\<close>; the pause of every job is the banner of each page.\<close>

record pause_banner =
  pb_by :: string
  pb_note :: string
  pb_since :: time_view
  pb_resume :: string

record base_data =
  bd_actor :: string
  bd_nav :: string
  bd_self :: string
  bd_base :: string
  bd_version :: string
  bd_paused :: "pause_banner option"

definition base_of :: "page_server \<Rightarrow> subject \<Rightarrow> string \<Rightarrow> hold option \<Rightarrow> string \<Rightarrow> base_data" where
  "base_of srv sub uri every nav = \<lparr>bd_actor = UserFrom sub, bd_nav = nav, bd_self = srv_base srv @ uri,
     bd_base = srv_base srv, bd_version = srv_version srv,
     bd_paused = map_option (\<lambda>h. \<lparr>pb_by = ho_by h, pb_note = ho_note h, pb_since = when_view (srv_now srv) (ho_since h),
       pb_resume = (if allow_global (su_acl sub) ''pause'' then srv_base srv @ ''/resume'' else [])\<rparr>) every\<rparr>"

text \<open>What a handler answers: a page with its status, the page of an error, or a redirect.\<close>

datatype 'a page_answer = Shown nat 'a | ErrorPage nat string | Moved nat string

section \<open>Labels\<close>

fun stateLabel :: "dstate \<Rightarrow> string" where
  "stateLabel Detected = ''Detected''"
| "stateLabel PendingApproval = ''Pending approval''"
| "stateLabel PreHook = ''Running pre-hook''"
| "stateLabel Applying = ''Applying''"
| "stateLabel PostHook = ''Running post-hook''"
| "stateLabel Completed = ''Completed''"
| "stateLabel Failed = ''Failed''"
| "stateLabel Rejected = ''Rejected''"
| "stateLabel Superseded = ''Superseded''"

definition stateClass :: "dstate \<Rightarrow> string" where
  "stateClass st = (case st of Detected \<Rightarrow> ''state-pending'' | PendingApproval \<Rightarrow> ''state-pending''
     | PreHook \<Rightarrow> ''state-running'' | Applying \<Rightarrow> ''state-running'' | PostHook \<Rightarrow> ''state-running''
     | Completed \<Rightarrow> ''state-success'' | Failed \<Rightarrow> ''state-failed'' | _ \<Rightarrow> ''state-muted'')"

definition isTerminal :: "dstate \<Rightarrow> bool" where
  "isTerminal st = (st \<in> {Completed, Failed, Rejected, Superseded})"

definition hookStateLabel :: "hook_state \<Rightarrow> string" where
  "hookStateLabel st = (case st of HookDispatching \<Rightarrow> ''Dispatching'' | HookRunning \<Rightarrow> ''Running''
     | HookSucceeded \<Rightarrow> ''Succeeded'' | HookFailed \<Rightarrow> ''Failed'' | HookTimedOut \<Rightarrow> ''Timed out'')"

definition hookStateClass :: "hook_state \<Rightarrow> string" where
  "hookStateClass st = (case st of HookDispatching \<Rightarrow> ''state-running'' | HookRunning \<Rightarrow> ''state-running''
     | HookSucceeded \<Rightarrow> ''state-success'' | HookFailed \<Rightarrow> ''state-failed'' | HookTimedOut \<Rightarrow> ''state-failed'')"

definition nomadClass :: "string \<Rightarrow> string" where
  "nomadClass st =
     (if st \<in> set [''running'', ''pending'', ''blocked'', ''unblocking''] then ''state-running''
      else if st \<in> set [''successful'', ''complete''] then ''state-success''
      else if st \<in> set [''failed'', ''cancelled'', ''lost''] then ''state-failed''
      else ''state-pending'')"

definition short_text :: "nat \<Rightarrow> string \<Rightarrow> string" where
  "short_text n s = (if length s \<le> n then s else take n s)"

definition short_sha :: "string \<Rightarrow> string" where
  "short_sha sha = (if length sha \<le> 7 then sha else take 7 sha)"

section \<open>The query of a URL\<close>

text \<open>
  \<open>url.Values\<close> as a list of pairs, the values of a parameter in their order, and its text as
  \<open>Values.Encode\<close> writes it and \<open>url.ParseQuery\<close> reads it: a pair that does not decode is left out.
\<close>

type_synonym url_query = "(string \<times> string) list"

definition query_safe :: "char \<Rightarrow> bool" where
  "query_safe c = (between CHR ''a'' CHR ''z'' c \<or> between CHR ''A'' CHR ''Z'' c \<or> between CHR ''0'' CHR ''9'' c \<or>
     c \<in> set ''-_.~'')"

definition query_escape :: "string \<Rightarrow> string" where
  "query_escape s = replace_bytes (\<lambda>c. if query_safe c then None else if c = CHR '' '' then Some ''+''
     else Some [CHR ''%'', upper_hex (byte c div 16), upper_hex (byte c mod 16)]) s"

definition hex_value :: "char \<Rightarrow> nat option" where
  "hex_value c = (if between CHR ''0'' CHR ''9'' c then Some (byte c - 48)
     else if between CHR ''a'' CHR ''f'' c then Some (byte c - 87)
     else if between CHR ''A'' CHR ''F'' c then Some (byte c - 55) else None)"

fun query_unescape :: "string \<Rightarrow> string option" where
  "query_unescape [] = Some []"
| "query_unescape (c # s) =
     (if c = CHR ''%'' then (case s of
          x # y # t \<Rightarrow> (case (hex_value x, hex_value y) of
              (Some a, Some b) \<Rightarrow> map_option (Cons (char_of (16 * a + b))) (query_unescape t)
            | _ \<Rightarrow> None)
        | _ \<Rightarrow> None)
      else map_option (Cons (if c = CHR ''+'' then CHR '' '' else c)) (query_unescape s))"

definition parse_pair :: "string \<Rightarrow> (string \<times> string) list" where
  "parse_pair p = (if p = [] \<or> CHR '';'' \<in> set p then []
     else case cut_at CHR ''='' p of (k, v, _) \<Rightarrow>
       (case (query_unescape k, query_unescape v) of (Some k, Some v) \<Rightarrow> [(k, v)] | _ \<Rightarrow> []))"

definition ParseQuery :: "string \<Rightarrow> url_query" where
  "ParseQuery s = concat (map parse_pair (split_on CHR ''&'' s))"

definition encode_query :: "url_query \<Rightarrow> string" where
  "encode_query q = join_with ''&'' (map (\<lambda>(k, v). query_escape k @ ''='' @ query_escape v) (sort_key fst q))"

section \<open>The links of a list\<close>

text \<open>One parameter changed, \<open>Del\<close> for an empty value and \<open>Set\<close> otherwise.\<close>

definition set_param :: "string \<times> string \<Rightarrow> url_query \<Rightarrow> url_query" where
  "set_param p q = (let others = filter (\<lambda>r. fst r \<noteq> fst p) q in if snd p = [] then others else others @ [p])"

definition listLink :: "page_server \<Rightarrow> string \<Rightarrow> url_query \<Rightarrow> (string \<times> string) list \<Rightarrow> string" where
  "listLink srv path q changed =
     (let v = fold set_param changed (set_param (''next_token'', []) q); enc = encode_query v
      in srv_base srv @ path @ (if enc \<noteq> [] then ''?'' @ enc else []))"

record filter_link =
  fl_key :: string
  fl_label :: string
  fl_href :: string
  fl_count :: string
  fl_active :: bool

record menu_view =
  mv_label :: string
  mv_chosen :: string
  mv_items :: "(string \<times> string \<times> bool) list"

record list_view =
  lv_query :: list_query
  lv_path :: string
  lv_live :: string
  lv_placeholder :: string
  lv_keep :: "(string \<times> string) list"
  lv_menus :: "menu_view list"
  lv_sizes :: "(int \<times> string \<times> bool) list"
  lv_newer :: string
  lv_older :: string
  lv_newer_label :: string
  lv_older_label :: string
  lv_error :: string

fun first_values :: "url_query \<Rightarrow> url_query" where
  "first_values [] = []"
| "first_values (p # q) = p # first_values (filter (\<lambda>r. fst r \<noteq> fst p) q)"

definition size_text :: "int \<Rightarrow> string" where
  "size_text n = show_nat (nat n)"

definition list_view_of :: "page_server \<Rightarrow> cursor_text \<Rightarrow> string \<Rightarrow> url_query \<Rightarrow> list_query \<Rightarrow> page \<Rightarrow> string \<Rightarrow> string \<Rightarrow> list_view" where
  "list_view_of srv ct path q lq p region hint =
     (let older = (case pg_older p of None \<Rightarrow> [] | Some c \<Rightarrow> listLink srv path q [(''next_token'', cursor_string ct c)]);
          newer = (case pg_newer p of Some c \<Rightarrow> listLink srv path q [(''next_token'', cursor_string ct c)]
            | None \<Rightarrow> if pg_first_newer p then listLink srv path q [] else [])
      in \<lparr>lv_query = lq, lv_path = srv_base srv @ path, lv_live = region, lv_placeholder = hint,
        lv_keep = sort_key fst (filter (\<lambda>(k, v). k \<noteq> ''q'' \<and> k \<noteq> ''next_token'' \<and> v \<noteq> []) (first_values q)),
        lv_menus = [],
        lv_sizes = (if newer \<noteq> [] \<or> older \<noteq> [] \<or> lq_per_page lq \<noteq> defaultPerPage
          then map (\<lambda>n. (n, listLink srv path q [(''per_page'', size_text n)], n = lq_per_page lq)) perPages else []),
        lv_newer = newer, lv_older = older, lv_newer_label = ''Newer'', lv_older_label = ''Older'', lv_error = []\<rparr>)"

definition menu_of :: "page_server \<Rightarrow> string \<Rightarrow> url_query \<Rightarrow> string \<Rightarrow> string \<Rightarrow> string list \<Rightarrow> string \<Rightarrow> menu_view list" where
  "menu_of srv path q label name vals chosen = (if vals = [] then []
     else [\<lparr>mv_label = label, mv_chosen = chosen,
       mv_items = (''Any'', listLink srv path q [(name, [])], chosen = []) #
         map (\<lambda>v. (v, listLink srv path q [(name, v)], v = chosen)) vals\<rparr>])"

definition countLabel :: "int \<Rightarrow> string" where
  "countLabel n = (if maxCount < n then size_text maxCount @ ''+'' else size_text n)"

definition repositoryNames :: "string list \<Rightarrow> string list" where
  "repositoryNames repos = (if length repos < 2 then [] else repos)"

text \<open>
  \<open>dashboardList\<close>, with the cookie of the size: the parameters, or what is wrong with them, and the
  cookie set with its path.
\<close>

definition dashboardList :: "page_server \<Rightarrow> read_env \<Rightarrow> url_query \<Rightarrow> string \<Rightarrow> list_kind \<Rightarrow>
    (string + list_query) \<times> (string \<times> string) option" where
  "dashboardList srv rd q cookie kind = (case parseList (rd_cursor rd) (rd_bound rd) (map_of q) kind of
       Inl m \<Rightarrow> (Inl m, None)
     | Inr lq \<Rightarrow>
         if lq_per_page_set lq
         then (Inr lq, Some (size_text (lq_per_page lq), if srv_base srv = [] then ''/'' else srv_base srv))
         else (case Atoi cookie of
             Some n \<Rightarrow> if n \<in> set perPages then (Inr (lq\<lparr>lq_per_page := n\<rparr>), None) else (Inr lq, None)
           | None \<Rightarrow> (Inr lq, None)))"

section \<open>Links keep the other parameters\<close>

lemma hex_value_upper: "d < 16 \<Longrightarrow> hex_value (upper_hex d) = Some d"
proof -
  assume "d < 16"
  then have "d \<in> set [0..<16]" by simp
  moreover have "\<forall>d\<in>set [0..<16]. hex_value (upper_hex d) = Some d" by code_simp
  ultimately show ?thesis by blast
qed

lemma byte_split: "char_of (16 * (byte c div 16) + byte c mod 16) = c"
  by simp

lemma byte_nibbles: "byte c div 16 < 16" "byte c mod 16 < 16"
proof -
  have "byte c mod 256 < 16 * 16" by simp
  then show "byte c div 16 < 16" by (simp only: of_char_mod_256 less_mult_imp_div_less)
qed simp

lemma query_unescape_escape: "query_unescape (query_escape s) = Some s"
proof (induction s)
  case (Cons c s)
  have "byte c div 16 < 16" "byte c mod 16 < 16" by (rule byte_nibbles)+
  then have enc: "query_unescape (CHR ''%'' # upper_hex (byte c div 16) # upper_hex (byte c mod 16) # t) =
      map_option (Cons c) (query_unescape t)" for t
    by (simp add: hex_value_upper byte_split del: mult_div_mod_eq)
  show ?case
  proof (cases "query_safe c")
    case True
    then have "c \<noteq> CHR ''%''" "c \<noteq> CHR ''+''" by (auto simp: query_safe_def)
    with True Cons show ?thesis by (simp add: query_escape_def replace_bytes_def)
  next
    case False
    with enc Cons show ?thesis by (cases "c = CHR '' ''") (simp_all add: query_escape_def replace_bytes_def)
  qed
qed (simp add: query_escape_def replace_bytes_def)

lemma upper_hex_plain: "d < 16 \<Longrightarrow> upper_hex d \<notin> {CHR ''&'', CHR ''='', CHR '';'', CHR ''#''}"
proof -
  assume "d < 16"
  then have "d \<in> set [0..<16]" by simp
  moreover have "\<forall>d\<in>set [0..<16]. upper_hex d \<notin> {CHR ''&'', CHR ''='', CHR '';'', CHR ''#''}" by code_simp
  ultimately show ?thesis by blast
qed

definition query_mark :: "char \<Rightarrow> bool" where
  "query_mark c = (c \<in> {CHR ''&'', CHR ''='', CHR '';'', CHR ''#''})"

definition escaped_byte :: "char \<Rightarrow> string" where
  "escaped_byte c = (if query_safe c then [c] else if c = CHR '' '' then ''+''
     else [CHR ''%'', upper_hex (byte c div 16), upper_hex (byte c mod 16)])"

lemma query_escape_bytes: "query_escape s = concat (map escaped_byte s)"
  unfolding query_escape_def replace_bytes_def
  by (rule arg_cong [where f = concat], rule map_cong [OF refl]) (simp add: escaped_byte_def)

lemma escaped_byte_plain: "x \<in> set (escaped_byte c) \<Longrightarrow> \<not> query_mark x"
proof -
  assume x: "x \<in> set (escaped_byte c)"
  have hex: "\<not> query_mark (upper_hex (byte c div 16))" "\<not> query_mark (upper_hex (byte c mod 16))"
    unfolding query_mark_def by (rule upper_hex_plain, rule byte_nibbles)+
  have "query_safe y \<Longrightarrow> \<not> query_mark y" for y by (auto simp: query_safe_def query_mark_def)
  moreover have "\<not> query_mark CHR ''%''" "\<not> query_mark CHR ''+''" by (simp_all add: query_mark_def)
  moreover have "x \<in> (if query_safe c then {c} else if c = CHR '' '' then {CHR ''+''}
      else {CHR ''%'', upper_hex (byte c div 16), upper_hex (byte c mod 16)})"
    using x unfolding escaped_byte_def by (simp only: list.set split: if_split_asm) simp_all
  ultimately show ?thesis using hex by (metis empty_iff insert_iff)
qed

lemma query_escape_plain: "x \<in> set (query_escape s) \<Longrightarrow> x \<notin> {CHR ''&'', CHR ''='', CHR '';'', CHR ''#''}"
  unfolding query_escape_bytes query_mark_def [symmetric] using escaped_byte_plain by auto

lemma cut_at_join: "c \<notin> set k \<Longrightarrow> cut_at c (k @ c # v) = (k, v, True)"
  by (induction k) (auto simp: cut_at_def)

lemma parse_pair_escaped: "parse_pair (query_escape k @ ''='' @ query_escape v) = [(k, v)]"
proof -
  have "CHR ''='' \<notin> set (query_escape k)" "CHR '';'' \<notin> set (query_escape k)" "CHR '';'' \<notin> set (query_escape v)"
    using query_escape_plain by blast+
  then show ?thesis by (simp add: parse_pair_def cut_at_join query_unescape_escape)
qed

lemma ParseQuery_encode: "ParseQuery (encode_query q) = sort_key fst q"
proof -
  let ?f = "\<lambda>(k, v). query_escape k @ ''='' @ query_escape v"
  let ?ps = "sort_key fst q"
  have one: "concat (map parse_pair (map ?f ps)) = ps" for ps :: url_query
    by (induction ps) (auto simp del: append.append_Cons append.append_Nil simp add: parse_pair_escaped split: prod.split)
  show ?thesis
  proof (cases "?ps = []")
    case False
    have "\<forall>e\<in>set (map ?f ?ps). CHR ''&'' \<notin> set e" using query_escape_plain by fastforce
    with False have "split_on CHR ''&'' (encode_query q) = map ?f ?ps"
      unfolding encode_query_def by (intro split_on_join) simp_all
    then show ?thesis by (simp only: ParseQuery_def one)
  qed (simp add: ParseQuery_def encode_query_def parse_pair_def)
qed

lemma map_of_filter_key: "map_of q k = map_of (filter (\<lambda>p. fst p = k) q) k"
  by (induction q) auto

lemma map_of_sorted: "map_of (sort_key fst q) = map_of q"
proof
  fix k
  have "map_of (sort_key fst q) k = map_of (filter (\<lambda>p. fst p = k) (sort_key fst q)) k" by (rule map_of_filter_key)
  also have "filter (\<lambda>p. fst p = k) (sort_key fst q) = filter (\<lambda>p. fst p = k) q" by (rule sort_key_stable)
  also have "map_of \<dots> k = map_of q k" by (rule map_of_filter_key [symmetric])
  finally show "map_of (sort_key fst q) k = map_of q k" .
qed

lemma map_of_set_param:
  "map_of (set_param p q) = (map_of q)(fst p := if snd p = [] then None else Some (snd p))"
proof -
  have "map_of (filter (\<lambda>r. fst r \<noteq> fst p) q) = (map_of q)(fst p := None)"
    by (induction q) (auto simp: fun_eq_iff)
  then show ?thesis by (cases p) (auto simp: set_param_def Let_def map_add_def fun_eq_iff split: option.splits)
qed

lemma encode_query_no_fragment: "CHR ''#'' \<notin> set (encode_query q)"
proof -
  have join: "CHR ''#'' \<notin> set (join_with ''&'' es)" if "\<forall>e\<in>set es. CHR ''#'' \<notin> set e" for es
    using that by (induction "''&''" es rule: join_with.induct) auto
  show ?thesis unfolding encode_query_def by (rule join) (use query_escape_plain in fastforce)
qed

text \<open>
  What reads a link, a browser and then the server: the fragment after a \<open>#\<close> stays with the browser, the
  query is what follows the first \<open>?\<close>, and the path before it is percent-decoded. Nothing is read of a link
  that does not begin with a single slash (another host, or a relative one) or has a dot segment, which a
  browser resolves, or a byte no path of a URL has, which a browser rewrites or drops.
\<close>

fun path_unescape :: "string \<Rightarrow> string option" where
  "path_unescape [] = Some []"
| "path_unescape (c # s) =
     (if c = CHR ''%'' then (case s of
          x # y # t \<Rightarrow> (case (hex_value x, hex_value y) of
              (Some a, Some b) \<Rightarrow> map_option (Cons (char_of (16 * a + b))) (path_unescape t)
            | _ \<Rightarrow> None)
        | _ \<Rightarrow> None)
      else map_option (Cons c) (path_unescape s))"

definition path_byte :: "char \<Rightarrow> bool" where
  "path_byte c = (query_safe c \<or> c \<in> set ''/!$&()*+,;=:@%'' \<or> byte c = 39)"

definition absolute_path :: "string \<Rightarrow> bool" where
  "absolute_path p = (prefix ''/'' p \<and> \<not> prefix ''//'' p \<and> list_all path_byte p \<and>
     (\<forall>e\<in>set (split_on CHR ''/'' p). e \<noteq> ''.'' \<and> e \<noteq> ''..''))"

definition read_link :: "string \<Rightarrow> (string \<times> url_query) option" where
  "read_link l = (case cut_at CHR ''#'' l of (l, _, _) \<Rightarrow> case cut_at CHR ''?'' l of (p, q, _) \<Rightarrow>
     if absolute_path p then map_option (\<lambda>p. (p, ParseQuery q)) (path_unescape p) else None)"

text \<open>A path that needs no escape.\<close>

definition plain_path :: "string \<Rightarrow> bool" where
  "plain_path p = (absolute_path p \<and> CHR ''%'' \<notin> set p)"

lemma path_unescape_plain: "CHR ''%'' \<notin> set p \<Longrightarrow> path_unescape p = Some p"
  by (induction p) auto

lemma plain_path_marks: "plain_path p \<Longrightarrow> CHR ''?'' \<notin> set p \<and> CHR ''#'' \<notin> set p"
proof -
  have "\<not> path_byte CHR ''?''" "\<not> path_byte CHR ''#''" by code_simp+
  then show "plain_path p \<Longrightarrow> ?thesis" unfolding plain_path_def absolute_path_def list_all_iff by metis
qed

lemma cut_at_none: "c \<notin> set s \<Longrightarrow> cut_at c s = (s, [], False)"
  by (induction s) (auto simp: cut_at_def)

lemma read_plain_link:
  assumes "plain_path p" "CHR ''#'' \<notin> set enc"
  shows "read_link (p @ (if enc = [] then [] else ''?'' @ enc)) = Some (p, ParseQuery enc)"
proof -
  have "CHR ''?'' \<notin> set p" "CHR ''#'' \<notin> set p" using plain_path_marks [OF assms(1)] by simp_all
  with assms show ?thesis
    by (simp add: read_link_def cut_at_none cut_at_join plain_path_def path_unescape_plain)
qed

text \<open>
  Claim C40. A link of a list (of a filter, a menu, a size of the page, the pages next to it), on a page whose
  path needs no escape, is read as the same path, and the query the server reads of it is the one of this
  page with that parameter changed and no cursor but the one it sets: the search and the other filters stay
  as they are, whatever bytes they hold. Of a path that needs an escape this is not so
  (\<open>job_link_loses_escape\<close>).
\<close>

theorem list_link_changes_one:
  assumes "plain_path (srv_base srv @ path)"
  shows "\<exists>qs. read_link (listLink srv path q [(k, v)]) = Some (srv_base srv @ path, qs) \<and>
     map_of qs = (map_of q)(''next_token'' := None, k := if v = [] then None else Some v)"
proof -
  let ?v = "set_param (k, v) (set_param (''next_token'', []) q)"
  have "listLink srv path q [(k, v)] =
      (srv_base srv @ path) @ (if encode_query ?v = [] then [] else ''?'' @ encode_query ?v)"
    by (simp add: listLink_def Let_def)
  then have "read_link (listLink srv path q [(k, v)]) = Some (srv_base srv @ path, sort_key fst ?v)"
    by (simp only: read_plain_link [OF assms encode_query_no_fragment] ParseQuery_encode)
  then show ?thesis by (simp add: map_of_sorted map_of_set_param)
qed

definition link_server :: page_server where
  "link_server = \<lparr>srv_base = ''/nops'', srv_now = 0, srv_version = ''1'', srv_nomad_ui = [], srv_commit_url = None,
     srv_diff = (\<lambda>_. Inr None)\<rparr>"

text \<open>The search for \<open>a&b=#?\<close> in the deployments of the job \<open>api\<close>, then those that failed.\<close>

theorem list_link_changes_one_witness:
  "\<exists>qs. read_link (listLink link_server ''/jobs/default/api'' [(''q'', ''a&b=#?''), (''next_token'', ''x'')] [(''state'', ''failed'')]) =
       Some (''/nops/jobs/default/api'', qs) \<and>
     map_of qs ''q'' = Some ''a&b=#?'' \<and> map_of qs ''next_token'' = None \<and> map_of qs ''state'' = Some ''failed''"
proof -
  have "plain_path (srv_base link_server @ ''/jobs/default/api'')" by code_simp
  from list_link_changes_one [OF this, of "[(''q'', ''a&b=#?''), (''next_token'', ''x'')]" "''state''" "''failed''"]
  show ?thesis by (auto simp: link_server_def)
qed

text \<open>
  The page of a job whose ID holds a slash or a question mark: its own path escapes it (\<open>jobPath\<close>), and its
  route matches the escaped path, but the links of its list (filters, pages, search) are built on the decoded
  path of the request and are read as another path, or with another query.
\<close>

lemma job_link_loses_escape:
  "jobPath srv ''default'' ''a/b'' = srv_base srv @ ''/jobs/default/a%2Fb''"
  "listLink srv ''/jobs/default/a/b'' [] [(''state'', ''failed'')] = srv_base srv @ ''/jobs/default/a/b?state=failed''"
  "read_link (listLink link_server ''/jobs/default/a?b'' [] [(''state'', ''failed'')]) =
     Some (''/nops/jobs/default/a'', [(''b?state'', ''failed'')])"
proof -
  have "path_escape ''default'' = ''default''" "path_escape ''a/b'' = ''a%2Fb''" by code_simp+
  then show "jobPath srv ''default'' ''a/b'' = srv_base srv @ ''/jobs/default/a%2Fb''" by (simp add: jobPath_def)
  have "encode_query [(''state'', ''failed'')] = ''state=failed''" by code_simp
  then show "listLink srv ''/jobs/default/a/b'' [] [(''state'', ''failed'')] = srv_base srv @ ''/jobs/default/a/b?state=failed''"
    by (simp add: listLink_def Let_def set_param_def)
qed code_simp

end
