(* ===== verification/Panel.thy ===== *)
theory Panel
  imports PageParts
begin

text \<open>
  The Nomad panel of the Job and Deployment pages (\<open>internal/web/nomadpanel.go\<close>): what Nomad answers about
  a job made into the numbers the panel shows, and the cache that bounds how often Nomad is asked. A
  call of \<open>nomadPanel\<close> holds the lock of the cache throughout, so calls are a sequence.
\<close>

section \<open>What Nomad answers\<close>

text \<open>The fields of allocations and Nomad deployments only the panel reads. A group's state may be a nil pointer.\<close>

record panel_alloc = alloc +
  pa_task_group :: string
  pa_healthy :: "bool option"
  pa_canary :: bool

record group_state = canary_state +
  gs_unhealthy_allocs :: int
  gs_placed_allocs :: int
  gs_desired_total :: int
  gs_require_progress_by :: "time option"

record panel_deployment =
  pd_id :: string
  pd_job_modify_index :: nat
  pd_status :: string
  pd_status_description :: string
  pd_groups :: "(string \<times> group_state option) list"

record nomad_answers =
  na_job :: "nomad_error + job"
  na_allocs :: "nomad_error + panel_alloc list"
  na_deployment :: "nomad_error + panel_deployment option"

section \<open>The view\<close>

definition panelTTL :: duration where "panelTTL = 4 * second"

record group_view =
  gv_name :: string
  gv_desired :: int
  gv_running :: nat
  gv_pending :: nat
  gv_complete :: nat
  gv_failed :: nat
  gv_lost :: nat
  gv_healthy :: nat
  gv_canaries :: nat

record deployment_group_view =
  dg_name :: string
  dg_healthy :: int
  dg_unhealthy :: int
  dg_placed :: int
  dg_desired :: int
  dg_desired_canaries :: int
  dg_placed_canaries :: nat
  dg_promoted :: bool
  dg_progress_by :: "time option"
  dg_progress :: time_view

record nomad_deployment_view =
  ndv_id :: string
  ndv_status :: string
  ndv_description :: string
  ndv_job_modify_index :: nat
  ndv_groups :: "deployment_group_view list"

record nomad_view =
  nv_err :: string
  nv_missing :: bool
  nv_status :: string
  nv_type :: string
  nv_version :: nat
  nv_groups :: "group_view list"
  nv_deployment :: "nomad_deployment_view option"
  nv_applied_index :: nat
  nv_deployments_url :: string

definition empty_view :: nomad_view where
  "empty_view = \<lparr>nv_err = [], nv_missing = False, nv_status = [], nv_type = [], nv_version = 0, nv_groups = [],
     nv_deployment = None, nv_applied_index = 0, nv_deployments_url = []\<rparr>"

definition ShortID :: "nomad_deployment_view \<Rightarrow> string" where
  "ShortID v = (if 8 < length (ndv_id v) then take 8 (ndv_id v) else ndv_id v)"

definition Tracks :: "nomad_deployment_view option \<Rightarrow> nat \<Rightarrow> bool" where
  "Tracks v idx = (case v of None \<Rightarrow> False | Some n \<Rightarrow> idx \<noteq> 0 \<and> ndv_job_modify_index n = idx)"

definition Tracked :: "nomad_view \<Rightarrow> bool" where
  "Tracked v = Tracks (nv_deployment v) (nv_applied_index v)"

definition Another :: "nomad_view \<Rightarrow> bool" where
  "Another v = (nv_applied_index v \<noteq> 0 \<and> nv_deployment v \<noteq> None \<and> \<not> Tracked v)"

section \<open>Reading Nomad\<close>

definition new_group :: "task_group \<Rightarrow> group_view list" where
  "new_group g = (case g_name g of None \<Rightarrow> []
     | Some n \<Rightarrow> [\<lparr>gv_name = n, gv_desired = (case g_count g of None \<Rightarrow> 0 | Some k \<Rightarrow> k), gv_running = 0, gv_pending = 0,
         gv_complete = 0, gv_failed = 0, gv_lost = 0, gv_healthy = 0, gv_canaries = 0\<rparr>])"

definition job_group_views :: "job \<Rightarrow> group_view list" where
  "job_group_views j = concat (map (\<lambda>g. case g of None \<Rightarrow> [] | Some g \<Rightarrow> new_group g) (j_groups j))"

definition count_status :: "panel_alloc \<Rightarrow> group_view \<Rightarrow> group_view" where
  "count_status a g = (let st = al_client_status a in
     if st = ''running'' then g\<lparr>gv_running := Suc (gv_running g)\<rparr>
     else if st = ''pending'' then g\<lparr>gv_pending := Suc (gv_pending g)\<rparr>
     else if st = ''complete'' then g\<lparr>gv_complete := Suc (gv_complete g)\<rparr>
     else if st = ''failed'' then g\<lparr>gv_failed := Suc (gv_failed g)\<rparr>
     else if st = ''lost'' then g\<lparr>gv_lost := Suc (gv_lost g)\<rparr> else g)"

definition count_alloc :: "panel_alloc \<Rightarrow> group_view \<Rightarrow> group_view" where
  "count_alloc a g0 = (let g1 = count_status a g0;
       g2 = (if pa_healthy a = Some True then g1\<lparr>gv_healthy := Suc (gv_healthy g1)\<rparr> else g1)
     in if pa_canary a then g2\<lparr>gv_canaries := Suc (gv_canaries g2)\<rparr> else g2)"

text \<open>The map of the groups by name holds the last one of a name.\<close>

fun in_last :: "string \<Rightarrow> (group_view \<Rightarrow> group_view) \<Rightarrow> group_view list \<Rightarrow> group_view list" where
  "in_last n f [] = []"
| "in_last n f (g # gs) =
     (if gv_name g = n \<and> n \<notin> gv_name ` set gs then f g # gs else g # in_last n f gs)"

definition tally_alloc :: "nat \<Rightarrow> panel_alloc \<Rightarrow> group_view list \<Rightarrow> group_view list" where
  "tally_alloc version a gs =
     (if al_job_version a \<noteq> version then gs else in_last (pa_task_group a) (count_alloc a) gs)"

definition deployment_group :: "string \<times> group_state option \<Rightarrow> deployment_group_view list" where
  "deployment_group p = (case snd p of None \<Rightarrow> []
     | Some st \<Rightarrow> [\<lparr>dg_name = fst p, dg_healthy = cs_healthy_allocs st, dg_unhealthy = gs_unhealthy_allocs st,
         dg_placed = gs_placed_allocs st, dg_desired = gs_desired_total st, dg_desired_canaries = cs_desired_canaries st,
         dg_placed_canaries = cs_placed_canaries st, dg_promoted = cs_promoted st,
         dg_progress_by = gs_require_progress_by st, dg_progress = no_moment\<rparr>])"

definition deployment_view_of :: "panel_deployment \<Rightarrow> nomad_deployment_view" where
  "deployment_view_of p = \<lparr>ndv_id = pd_id p, ndv_status = pd_status p, ndv_description = pd_status_description p,
     ndv_job_modify_index = pd_job_modify_index p, ndv_groups = concat (map deployment_group (sort_key fst (pd_groups p)))\<rparr>"

definition panel_failed :: "string \<Rightarrow> nomad_error \<Rightarrow> nomad_view" where
  "panel_failed what e = empty_view\<lparr>nv_err := ''Nomad did not answer ('' @ what @ ''): '' @ err_text e\<rparr>"

definition readNomad :: "nomad_answers \<Rightarrow> nomad_view" where
  "readNomad na = (case na_job na of
       Inl e \<Rightarrow> if is_not_found e then empty_view\<lparr>nv_missing := True\<rparr> else panel_failed ''job'' e
     | Inr j \<Rightarrow> (case na_allocs na of Inl e \<Rightarrow> panel_failed ''allocations'' e
         | Inr allocs \<Rightarrow> (case na_deployment na of Inl e \<Rightarrow> panel_failed ''deployment'' e
             | Inr dep \<Rightarrow> (let version = derefUint64 (j_version j) in empty_view\<lparr>nv_version := version,
                 nv_status := (case j_status j of None \<Rightarrow> [] | Some s \<Rightarrow> s),
                 nv_type := (case j_type j of None \<Rightarrow> [] | Some s \<Rightarrow> s),
                 nv_groups := fold (tally_alloc version) allocs (job_group_views j),
                 nv_deployment := map_option deployment_view_of dep\<rparr>))))"

section \<open>The cache\<close>

type_synonym panel_cache = "string \<rightharpoonup> time \<times> nomad_view"

definition shown_deployment :: "time \<Rightarrow> nomad_deployment_view \<Rightarrow> nomad_deployment_view" where
  "shown_deployment now v = v\<lparr>ndv_groups := map (\<lambda>g. g\<lparr>dg_progress := until_view now (dg_progress_by g)\<rparr>) (ndv_groups v)\<rparr>"

definition shown_panel :: "page_server \<Rightarrow> string \<Rightarrow> string \<Rightarrow> nat \<Rightarrow> nomad_view \<Rightarrow> nomad_view" where
  "shown_panel srv ns job idx v = v\<lparr>nv_applied_index := idx, nv_deployments_url := nomadDeploymentsURL srv ns job,
     nv_deployment := map_option (shown_deployment (srv_now srv)) (nv_deployment v)\<rparr>"

definition panel_fresh :: "time \<Rightarrow> string \<Rightarrow> panel_cache \<Rightarrow> bool" where
  "panel_fresh now k cache = (case cache k of None \<Rightarrow> False
     | Some (at, v) \<Rightarrow> \<not> (time_sub now at \<ge> panelTTL \<or> now < at))"

text \<open>
  \<open>nomadPanel\<close>: the panel, the cache after it, and whether Nomad was asked; \<open>None\<close> for the answers is a
  dashboard without a Nomad.
\<close>

definition nomadPanel :: "page_server \<Rightarrow> nomad_answers option \<Rightarrow> string \<Rightarrow> string \<Rightarrow> nat \<Rightarrow> panel_cache \<Rightarrow>
    nomad_view option \<times> panel_cache \<times> bool" where
  "nomadPanel srv nomad ns job idx cache = (case nomad of None \<Rightarrow> (None, cache, False)
     | Some na \<Rightarrow> (let k = list_key ns job; asks = (\<not> panel_fresh (srv_now srv) k cache);
         cache' = (if asks then cache(k \<mapsto> (srv_now srv, readNomad na)) else cache)
       in (Some (shown_panel srv ns job idx (snd (the (cache' k)))), cache', asks)))"

text \<open>
  \<open>dropPanelOf\<close>, after a promotion: the panel of the job of the deployment is forgotten. Without a Nomad, or
  when the row cannot be read (\<open>bad\<close> when SQLite fails), nothing is.
\<close>

definition dropPanelOf :: "bool \<Rightarrow> bool \<Rightarrow> string \<Rightarrow> store \<Rightarrow> panel_cache \<Rightarrow> panel_cache" where
  "dropPanelOf has_nomad bad i s cache = (if \<not> has_nomad then cache
     else case db bad (GetDeployment i s) of
         Inl _ \<Rightarrow> cache
       | Inr d \<Rightarrow> cache(list_key (d_namespace d) (d_job_id d) := None))"

text \<open>The two handlers that call it, of the dashboard and of the API, with the cache they leave.\<close>

definition promotePage :: "deploy_env \<Rightarrow> subject \<Rightarrow> request \<Rightarrow> bool \<Rightarrow> bool \<Rightarrow> engine \<Rightarrow> panel_cache \<Rightarrow>
    (engine \<times> web_answer) \<times> panel_cache" where
  "promotePage x sub r has_nomad bad E cache = (case page_promote x sub r E of
     (E', y) \<Rightarrow> ((E', y), if y = SeeOther then dropPanelOf has_nomad bad (rq_deployment r) (en_store E') cache else cache))"

definition promoteApi :: "deploy_env \<Rightarrow> subject \<Rightarrow> request \<Rightarrow> bool \<Rightarrow> bool \<Rightarrow> engine \<Rightarrow> panel_cache \<Rightarrow>
    (engine \<times> deploy_answer) \<times> panel_cache" where
  "promoteApi x sub r has_nomad bad E cache = (case apiPromote x sub r E of
     (E', y) \<Rightarrow> ((E', y), if y = NoBody then dropPanelOf has_nomad bad (rq_deployment r) (en_store E') cache else cache))"

section \<open>Nomad is asked once in the time a panel is kept\<close>

text \<open>
  What happens to the cache: a page polls the panel of a job, or a promotion forgets the panel of a
  deployment's job. The log says when Nomad was asked, for which job, and which panels were forgotten.
\<close>

record panel_call =
  pc_server :: page_server
  pc_answers :: nomad_answers
  pc_namespace :: string
  pc_job :: string
  pc_index :: nat

datatype panel_event = Poll panel_call | Promotion bool string store

datatype panel_log = Asked time string | Forgot string

definition pc_key :: "panel_call \<Rightarrow> string" where
  "pc_key p = list_key (pc_namespace p) (pc_job p)"

definition pc_now :: "panel_call \<Rightarrow> time" where
  "pc_now p = srv_now (pc_server p)"

definition forgets :: "bool \<Rightarrow> string \<Rightarrow> store \<Rightarrow> panel_log list" where
  "forgets bad i s = (case db bad (GetDeployment i s) of Inl _ \<Rightarrow> []
     | Inr d \<Rightarrow> [Forgot (list_key (d_namespace d) (d_job_id d))])"

fun panel_run :: "panel_event list \<Rightarrow> panel_cache \<Rightarrow> panel_log list" where
  "panel_run [] cache = []"
| "panel_run (Poll p # ps) cache =
     (case nomadPanel (pc_server p) (Some (pc_answers p)) (pc_namespace p) (pc_job p) (pc_index p) cache of
        (_, cache', asked) \<Rightarrow> (if asked then [Asked (pc_now p) (pc_key p)] else []) @ panel_run ps cache')"
| "panel_run (Promotion bad i s # ps) cache = forgets bad i s @ panel_run ps (dropPanelOf True bad i s cache)"

text \<open>The times of the polls, in their order.\<close>

fun poll_times :: "panel_event list \<Rightarrow> time list" where
  "poll_times [] = []"
| "poll_times (Poll p # ps) = pc_now p # poll_times ps"
| "poll_times (Promotion _ _ _ # ps) = poll_times ps"

lemma nomadPanel_cache:
  "nomadPanel srv (Some na) ns job idx cache = (x, cache', asked) \<Longrightarrow>
     asked = (\<not> panel_fresh (srv_now srv) (list_key ns job) cache) \<and>
     cache' = (if asked then cache(list_key ns job \<mapsto> (srv_now srv, readNomad na)) else cache)"
  by (auto simp: nomadPanel_def Let_def)

lemma not_fresh_since: "cache k = Some (at, v) \<Longrightarrow> at \<le> now \<Longrightarrow> \<not> panel_fresh now k cache \<Longrightarrow> at + panelTTL \<le> now"
  by (auto simp: panel_fresh_def time_sub_def panelTTL_def)

text \<open>An entry of the cache keeps Nomad from being asked until it is old or forgotten.\<close>

lemma ask_after_kept:
  "panel_run ps cache = ys @ Asked t k # zs \<Longrightarrow> Forgot k \<notin> set ys \<Longrightarrow> cache k = Some (at, v) \<Longrightarrow>
     \<forall>u\<in>set (poll_times ps). at \<le> u \<Longrightarrow> sorted (poll_times ps) \<Longrightarrow> at + panelTTL \<le> t"
proof (induction ps arbitrary: cache ys at v)
  case (Cons e ps)
  show ?case
  proof (cases e)
    case (Promotion bad i s)
    have kept: "dropPanelOf True bad i s cache k = cache k \<or> forgets bad i s = [Forgot k]"
      by (auto simp: dropPanelOf_def forgets_def split: sum.splits)
    from Cons.prems(1) Promotion have run: "forgets bad i s @ panel_run ps (dropPanelOf True bad i s cache) = ys @ Asked t k # zs" by simp
    have "\<exists>ys'. ys = forgets bad i s @ ys' \<and> panel_run ps (dropPanelOf True bad i s cache) = ys' @ Asked t k # zs"
      using run by (cases ys) (auto simp: forgets_def split: sum.splits)
    then obtain ys' where ys: "ys = forgets bad i s @ ys'" "panel_run ps (dropPanelOf True bad i s cache) = ys' @ Asked t k # zs" by blast
    with Cons.prems(2) kept have "dropPanelOf True bad i s cache k = Some (at, v)" "Forgot k \<notin> set ys'"
      using Cons.prems(3) by auto
    from Cons.IH [OF ys(2) this(2,1)] Cons.prems(4,5) Promotion show ?thesis by simp
  next
    case (Poll p)
    obtain x cache' asked where call: "nomadPanel (pc_server p) (Some (pc_answers p)) (pc_namespace p) (pc_job p) (pc_index p) cache
        = (x, cache', asked)" by (metis prod_cases3)
    note made = nomadPanel_cache [OF call, folded pc_now_def pc_key_def]
    have order: "sorted (poll_times ps)" "\<forall>u\<in>set (poll_times ps). pc_now p \<le> u" "at \<le> pc_now p"
      "\<forall>u\<in>set (poll_times ps). at \<le> u"
      using Cons.prems(4,5) Poll by auto
    from Cons.prems(1) Poll call have run: "(if asked then [Asked (pc_now p) (pc_key p)] else []) @ panel_run ps cache' = ys @ Asked t k # zs"
      by simp
    show ?thesis
    proof (cases "asked \<and> ys = []")
      case True
      with run have "t = pc_now p" "k = pc_key p" by simp_all
      with True made Cons.prems(3) order(3) not_fresh_since show ?thesis by blast
    next
      case False
      then obtain ys' where ys': "panel_run ps cache' = ys' @ Asked t k # zs" "set ys' \<subseteq> set ys"
        using run by (cases asked; cases ys) auto
      with Cons.prems(2) have later: "Forgot k \<notin> set ys'" by blast
      show ?thesis
      proof (cases "asked \<and> k = pc_key p")
        case True
        with made have "cache' k = Some (pc_now p, readNomad (pc_answers p))" by simp
        from Cons.IH [OF ys'(1) later this order(2,1)] order(3) show ?thesis by simp
      next
        case False
        with made Cons.prems(3) have "cache' k = Some (at, v)" by auto
        from Cons.IH [OF ys'(1) later this order(4,1)] show ?thesis .
      qed
    qed
  qed
qed simp

text \<open>
  Claim C32. However many pages poll the panel of a job, from whatever state of the cache, and whatever promotions come
  in between: two times Nomad is asked about that job are four seconds apart, errors included, unless a
  promotion of a deployment of the job forgot its panel in between, as long as the clock of the polls does
  not go backwards.
\<close>

theorem panel_asks_rarely:
  assumes "sorted (poll_times ps)"
  shows "\<forall>xs t k ys u zs. panel_run ps cache = xs @ Asked t k # ys @ Asked u k # zs \<and> Forgot k \<notin> set ys \<longrightarrow>
    t + 4 * second \<le> u"
proof -
  have "t + panelTTL \<le> u"
    if "panel_run ps cache = xs @ Asked t k # ys @ Asked u k # zs" "Forgot k \<notin> set ys" for xs t k ys u zs
    using that(1) assms
  proof (induction ps arbitrary: cache xs)
    case (Cons e ps)
    show ?case
    proof (cases e)
      case (Promotion bad i s)
      from Cons.prems(1) Promotion have
        "forgets bad i s @ panel_run ps (dropPanelOf True bad i s cache) = xs @ Asked t k # ys @ Asked u k # zs" by simp
      then have "\<exists>xs'. panel_run ps (dropPanelOf True bad i s cache) = xs' @ Asked t k # ys @ Asked u k # zs"
        by (cases xs) (auto simp: forgets_def split: sum.splits)
      with Cons.IH Cons.prems(2) Promotion show ?thesis by auto
    next
      case (Poll p)
      obtain x cache' asked where call: "nomadPanel (pc_server p) (Some (pc_answers p)) (pc_namespace p) (pc_job p) (pc_index p)
          cache = (x, cache', asked)" by (metis prod_cases3)
      note made = nomadPanel_cache [OF call, folded pc_now_def pc_key_def]
      have order: "sorted (poll_times ps)" "\<forall>u\<in>set (poll_times ps). pc_now p \<le> u" using Cons.prems(2) Poll by auto
      from Cons.prems(1) Poll call have run:
        "(if asked then [Asked (pc_now p) (pc_key p)] else []) @ panel_run ps cache' = xs @ Asked t k # ys @ Asked u k # zs" by simp
      show ?thesis
      proof (cases "asked \<and> xs = []")
        case True
        with run have t: "t = pc_now p" "k = pc_key p" "panel_run ps cache' = ys @ Asked u k # zs" by simp_all
        with made True have "cache' k = Some (pc_now p, readNomad (pc_answers p))" by simp
        from ask_after_kept [OF t(3) that(2) this order(2,1)] t(1) show ?thesis by simp
      next
        case False
        then obtain xs' where "panel_run ps cache' = xs' @ Asked t k # ys @ Asked u k # zs"
          using run by (cases asked; cases xs) auto
        from Cons.IH [OF this order(1)] show ?thesis .
      qed
    qed
  qed simp
  then show ?thesis by (simp add: panelTTL_def)
qed

section \<open>The counts of the groups\<close>

definition alloc_count :: "(panel_alloc \<Rightarrow> bool) \<Rightarrow> nat \<Rightarrow> string \<Rightarrow> panel_alloc list \<Rightarrow> nat" where
  "alloc_count P version n allocs = length (filter (\<lambda>a. al_job_version a = version \<and> pa_task_group a = n \<and> P a) allocs)"

definition counted_group :: "nat \<Rightarrow> panel_alloc list \<Rightarrow> group_view \<Rightarrow> group_view" where
  "counted_group version allocs g = (let n = alloc_count (\<lambda>a. al_client_status a = ''running'') version (gv_name g) allocs in
     g\<lparr>gv_running := gv_running g + n,
       gv_pending := gv_pending g + alloc_count (\<lambda>a. al_client_status a = ''pending'') version (gv_name g) allocs,
       gv_complete := gv_complete g + alloc_count (\<lambda>a. al_client_status a = ''complete'') version (gv_name g) allocs,
       gv_failed := gv_failed g + alloc_count (\<lambda>a. al_client_status a = ''failed'') version (gv_name g) allocs,
       gv_lost := gv_lost g + alloc_count (\<lambda>a. al_client_status a = ''lost'') version (gv_name g) allocs,
       gv_healthy := gv_healthy g + alloc_count (\<lambda>a. pa_healthy a = Some True) version (gv_name g) allocs,
       gv_canaries := gv_canaries g + alloc_count pa_canary version (gv_name g) allocs\<rparr>)"

lemma count_alloc_name [simp]: "gv_name (count_alloc a g) = gv_name g"
  by (simp add: count_alloc_def count_status_def Let_def)

lemma in_last_distinct:
  "distinct (map gv_name gs) \<Longrightarrow> in_last n f gs = map (\<lambda>g. if gv_name g = n then f g else g) gs"
proof (induction gs)
  case (Cons g gs)
  have "map (\<lambda>h. if gv_name h = n then f h else h) gs = gs" if "gv_name g = n"
  proof (rule map_idI)
    fix h
    assume "h \<in> set gs"
    then have "gv_name h \<noteq> n" using Cons.prems that by (metis distinct.simps(2) imageI list.set_map list.simps(9))
    then show "(if gv_name h = n then f h else h) = h" by simp
  qed
  with Cons show ?case by auto
qed simp

definition tally_group :: "nat \<Rightarrow> panel_alloc \<Rightarrow> group_view \<Rightarrow> group_view" where
  "tally_group version a g = (if al_job_version a = version \<and> pa_task_group a = gv_name g then count_alloc a g else g)"

lemma tally_group_name [simp]: "gv_name (tally_group version a g) = gv_name g"
  by (simp add: tally_group_def)

lemma tally_alloc_map:
  "distinct (map gv_name gs) \<Longrightarrow> tally_alloc version a gs = map (tally_group version a) gs"
proof -
  assume d: "distinct (map gv_name gs)"
  show ?thesis
  proof (cases "al_job_version a = version")
    case True
    with in_last_distinct [OF d] show ?thesis by (auto simp: tally_alloc_def tally_group_def)
  qed (simp add: tally_alloc_def tally_group_def map_idI)
qed

lemma fold_tally_map:
  "distinct (map gv_name gs) \<Longrightarrow> fold (tally_alloc version) allocs gs = map (fold (tally_group version) allocs) gs"
proof (induction allocs arbitrary: gs)
  case (Cons a allocs)
  have "map gv_name (map (tally_group version a) gs) = map gv_name gs" by simp
  with Cons.prems have "distinct (map gv_name (map (tally_group version a) gs))" by (simp only:)
  from Cons.IH [OF this] Cons.prems show ?case by (simp add: tally_alloc_map)
qed simp

lemma alloc_count_Cons: "alloc_count P version n (a # allocs) =
    (if al_job_version a = version \<and> pa_task_group a = n \<and> P a then 1 else 0) + alloc_count P version n allocs"
  by (simp add: alloc_count_def)

lemma alloc_count_Nil: "alloc_count P version n [] = 0"
  by (simp add: alloc_count_def)

lemma counted_group_step: "counted_group version allocs (tally_group version a g) = counted_group version (a # allocs) g"
  by (simp add: counted_group_def tally_group_def count_alloc_def count_status_def Let_def alloc_count_Cons)

lemma fold_tally_counts: "fold (tally_group version) allocs g = counted_group version allocs g"
proof (induction allocs arbitrary: g)
  case Nil
  then show ?case by (simp add: counted_group_def alloc_count_Nil Let_def)
next
  case (Cons a allocs)
  then show ?case by (simp only: fold_simps counted_group_step)
qed

text \<open>
  The numbers of the panel are plain counts: for each task group of the live job, in its order, how many
  allocations of the live version Nomad gives each status, marks healthy and places as canaries;
  allocations of older versions and of groups the job no longer has count nowhere.
\<close>

theorem panel_counts_live_version:
  assumes "na_job na = Inr j" "na_allocs na = Inr allocs" "na_deployment na = Inr dep"
    and "distinct (map gv_name (job_group_views j))"
  shows "nv_groups (readNomad na) = map (counted_group (derefUint64 (j_version j)) allocs) (job_group_views j) \<and>
    nv_err (readNomad na) = [] \<and> \<not> nv_missing (readNomad na)"
  using assms by (simp add: readNomad_def Let_def empty_view_def fold_tally_map fold_tally_counts)

definition sample_panel_server :: page_server where
  "sample_panel_server = \<lparr>srv_base = [], srv_now = 0, srv_version = [], srv_nomad_ui = [], srv_commit_url = None,
     srv_diff = (\<lambda>_. Inr None)\<rparr>"

definition running_alloc :: panel_alloc where
  "running_alloc = \<lparr>al_id = ''x'', al_job_version = 0, al_client_status = ''running'', al_desired_status = ''run'',
     al_failure = [], al_next = [], al_followup = [], pa_task_group = ''web'', pa_healthy = Some True, pa_canary = False\<rparr>"

definition sample_answers :: nomad_answers where
  "sample_answers = \<lparr>na_job = Inr sample_job, na_allocs = Inr [running_alloc], na_deployment = Inr None\<rparr>"

theorem panel_counts_live_version_witness: "map gv_running (nv_groups (readNomad sample_answers)) = [1]"
proof -
  have g: "job_group_views sample_job = [\<lparr>gv_name = ''web'', gv_desired = 2, gv_running = 0, gv_pending = 0,
      gv_complete = 0, gv_failed = 0, gv_lost = 0, gv_healthy = 0, gv_canaries = 0\<rparr>]" by code_simp
  have "derefUint64 (j_version sample_job) = 0" by code_simp
  with panel_counts_live_version [of sample_answers sample_job "[running_alloc]" None] g show ?thesis
    by (simp add: sample_answers_def counted_group_def alloc_count_def running_alloc_def Let_def)
qed

definition poll_at :: "time \<Rightarrow> panel_call" where
  "poll_at t = \<lparr>pc_server = sample_panel_server\<lparr>srv_now := t\<rparr>, pc_answers = sample_answers, pc_namespace = ''default'',
     pc_job = ''api'', pc_index = 0\<rparr>"

theorem panel_asks_rarely_witness:
  "\<exists>t u. panel_run [Poll (poll_at 0), Poll (poll_at (3 * second)), Promotion True ''01A'' empty_store, Poll (poll_at (5 * second))]
     Map.empty = [Asked t (pc_key (poll_at 0)), Asked u (pc_key (poll_at 0))] \<and> t + 4 * second \<le> u"
proof -
  let ?ps = "[Poll (poll_at 0), Poll (poll_at (3 * second)), Promotion True ''01A'' empty_store, Poll (poll_at (5 * second))]"
  have log: "panel_run ?ps Map.empty = [Asked 0 (pc_key (poll_at 0)), Asked (5 * second) (pc_key (poll_at 0))]"
    by (simp add: nomadPanel_def Let_def panel_fresh_def time_sub_def panelTTL_def pc_now_def pc_key_def poll_at_def
        sample_panel_server_def dropPanelOf_def forgets_def db_def)
  have "sorted (poll_times ?ps)" by (simp add: pc_now_def poll_at_def sample_panel_server_def)
  from panel_asks_rarely [OF this, of Map.empty] log have "0 + 4 * second \<le> 5 * second"
    by (metis append_Nil empty_iff empty_set)
  with log show ?thesis by auto
qed

end
