(* ===== verification/AdminPages.thy ===== *)
theory AdminPages
  imports PageParts
begin

text \<open>
  The Administration pages (\<open>internal/web/admin.go\<close>): the token of the request, the lists of tokens, ACL
  policies, binding rules and changes, the forms that change them and the pages that show what a
  revocation or a deletion would take before it does. The forms end in the operations of \<open>AccessApi\<close>. The
  text of what is wrong with a form is left out: a page says only that its form came back.
\<close>

section \<open>What the pages show\<close>

record expiry_choice =
  ex_key :: string
  ex_label :: string
  ex_days :: nat

definition expiryChoices :: "expiry_choice list" where
  "expiryChoices = [\<lparr>ex_key = ''7'', ex_label = ''7 days'', ex_days = 7\<rparr>, \<lparr>ex_key = ''30'', ex_label = ''30 days'', ex_days = 30\<rparr>,
     \<lparr>ex_key = ''90'', ex_label = ''90 days'', ex_days = 90\<rparr>, \<lparr>ex_key = ''365'', ex_label = ''365 days'', ex_days = 365\<rparr>,
     \<lparr>ex_key = ''never'', ex_label = ''Never'', ex_days = 0\<rparr>]"

definition defaultExpiry :: string where "defaultExpiry = ''90''"

record self_view =
  sf_name :: string
  sf_kind :: string
  sf_session :: bool
  sf_accessor :: string
  sf_policies :: "string list"
  sf_created :: time_view
  sf_expires :: time_view
  sf_creator :: string

record token_row = self_view +
  tr_identity :: string
  tr_creator_identity :: string
  tr_creator_accessor :: string
  tr_current :: bool

record revoke_view =
  rw_revocation :: revocation
  rw_accessor :: string
  rw_tokens :: "token_row list"
  rw_current :: bool

definition no_revocation :: revocation where
  "no_revocation = \<lparr>sessions_of = [], rev_identity = [], rev_accessor = []\<rparr>"

definition revocationOf :: "url_values \<Rightarrow> revocation" where
  "revocationOf v = \<lparr>sessions_of = url_get v ''sessions_of'', rev_identity = url_get v ''creator_identity'',
     rev_accessor = url_get v ''creator''\<rparr>"

record policy_view_row =
  pv_name :: string
  pv_description :: string
  pv_modified :: time_view

record rule_row =
  rl_id :: string
  rl_description :: string
  rl_method :: string
  rl_selector :: string
  rl_binds :: string
  rl_modified :: time_view

text \<open>\<open>ruleForm\<close>: a binding rule as its form holds it, the two fields of its binding in one.\<close>

record rule_form =
  rf_id :: string
  rf_description :: string
  rf_method :: string
  rf_selector :: string
  rf_bind :: string
  rf_existing :: bool

definition ruleFormOf :: "binding_rule \<Rightarrow> rule_form" where
  "ruleFormOf b = \<lparr>rf_id = br_id b, rf_description = br_description b, rf_method = br_method b, rf_selector = br_selector b,
     rf_bind = (if br_type b = BindPolicy then ''policy:'' @ br_bind_name b else br_type b), rf_existing = True\<rparr>"

definition form_binding :: "rule_form \<Rightarrow> binding_rule" where
  "form_binding f =
     (let b = \<lparr>br_id = rf_id f, br_description = rf_description f, br_method = rf_method f, br_selector = rf_selector f,
            br_type = BindManagement, br_bind_name = [], br_created_at = 0, br_modified_at = 0\<rparr>
      in case cut_prefix ''policy:'' (rf_bind f) of
          Some name \<Rightarrow> b\<lparr>br_type := BindPolicy, br_bind_name := name\<rparr>
        | None \<Rightarrow> if rf_bind f \<noteq> BindManagement then b\<lparr>br_type := rf_bind f\<rparr> else b)"

record change_view_row =
  cg_when :: time_view
  cg_actor :: string
  cg_accessor :: string
  cg_identity :: string
  cg_action :: string
  cg_kind :: string
  cg_object :: string

record policy_form =
  pf_name :: string
  pf_description :: string
  pf_rules :: string
  pf_existing :: bool

record token_form =
  tf_name :: string
  tf_type :: string
  tf_expires :: string

record admin_base =
  ab_base :: base_data
  ab_acl_on :: bool
  ab_manage :: bool
  ab_can_backup :: bool
  ab_section :: string

record tokens_data =
  td_tokens :: "token_row list"
  td_sessions :: bool
  td_created_n :: nat
  td_sessions_n :: nat
  td_revoke :: "revoke_view option"
  td_made :: "(string \<times> string) option"

text \<open>The pages, each with its data; a \<open>bool\<close> at the end says that the form came back with an error.\<close>

datatype admin_data =
    SelfData self_view string
  | TokensData tokens_data
  | TokenFormData token_form "(policy_view_row \<times> bool) list" bool
  | PoliciesData "policy_view_row list"
  | PolicyData policy_form bool bool
  | PolicyViewData policy_row
  | RulesData "rule_row list"
  | RuleData rule_form bool "policy_view_row list" bool
  | ChangesData "change_view_row list"

text \<open>
  A request of the pages: its URL, the pairs of its query and of its body, whether the body could be read,
  whether it is a GET, and the pause of every job, which each page tells.
\<close>

record admin_request_data =
  aq_uri :: string
  aq_query :: url_query
  aq_post :: url_query
  aq_form_ok :: bool
  aq_get :: bool
  aq_every :: "hold option"

text \<open>\<open>FormValue\<close>: a field of the body before one of the query.\<close>

definition FormValue :: "admin_request_data \<Rightarrow> string \<Rightarrow> string" where
  "FormValue r k = url_get (map_of (aq_post r @ aq_query r)) k"

definition adminBase :: "access_env \<Rightarrow> page_server \<Rightarrow> subject \<Rightarrow> admin_request_data \<Rightarrow> string \<Rightarrow> admin_base" where
  "adminBase env srv sub r sect = \<lparr>ab_base = base_of srv sub (aq_uri r) (aq_every r) ''admin'', ab_acl_on = en_acl_on env,
     ab_manage = acl_management (su_acl sub), ab_can_backup = allow_global (su_acl sub) ''backup'', ab_section = sect\<rparr>"

definition em_dash :: string where "em_dash = [CHR 0xE2, CHR 0x80, CHR 0x94]"

definition tokenView :: "time \<Rightarrow> acl_token \<Rightarrow> self_view" where
  "tokenView now t = \<lparr>sf_name = tk_name t, sf_kind = tk_type t, sf_session = (tk_origin t = OriginLogin),
     sf_accessor = tk_accessor t, sf_policies = tk_policies t, sf_created = when_view now (Some (tk_created_at t)),
     sf_expires = until_view now (tk_expires_at t),
     sf_creator = (if tk_creator_name t = [] then em_dash else tk_creator_name t)\<rparr>"

definition selfOf :: "time \<Rightarrow> subject \<Rightarrow> self_view" where
  "selfOf now sub =
     (let v = \<lparr>sf_name = su_actor sub, sf_kind = ''login'', sf_session = False, sf_accessor = [], sf_policies = [],
            sf_created = no_moment, sf_expires = no_moment, sf_creator = []\<rparr>
      in case su_token sub of
          Some t \<Rightarrow> tokenView now t
        | None \<Rightarrow> if su_accessor sub \<noteq> []
            then v\<lparr>sf_kind := TokenManagement, sf_accessor := su_accessor sub, sf_creator := ''the configuration''\<rparr> else v)"

definition tokenRow :: "time \<Rightarrow> string \<Rightarrow> acl_token \<Rightarrow> token_row" where
  "tokenRow now self t = self_view.extend (tokenView now t) \<lparr>tr_identity = tk_identity t,
     tr_creator_identity = tk_creator_identity t, tr_creator_accessor = tk_creator_accessor t,
     tr_current = (tk_accessor t = self)\<rparr>"

definition policyRows :: "time \<Rightarrow> access \<Rightarrow> policy_view_row list" where
  "policyRows now a = map (\<lambda>p. \<lparr>pv_name = pr_name p, pv_description = pr_description p,
     pv_modified = when_view now (Some (pr_modified_at p))\<rparr>) (ACLPolicies a)"

section \<open>The reads\<close>

text \<open>
  \<open>tokensView\<close>: the list, and what the query says to confirm the revocation of, if anything. It revokes
  nothing.
\<close>

definition tokens_listed :: "time \<Rightarrow> call \<Rightarrow> subject \<Rightarrow> url_values \<Rightarrow> access \<Rightarrow> tokens_data" where
  "tokens_listed now c sub v a =
     (let tokens = ACLTokens c a; sessions = (url_get v ''sessions'' = ''1'')
      in \<lparr>td_tokens = map (tokenRow now (su_accessor sub)) (filter (\<lambda>t. (tk_origin t = OriginLogin) = sessions) tokens),
        td_sessions = sessions,
        td_created_n = length (filter (\<lambda>t. tk_origin t \<noteq> OriginLogin) tokens),
        td_sessions_n = length (filter (\<lambda>t. tk_origin t = OriginLogin) tokens),
        td_revoke = None, td_made = None\<rparr>)"

definition to_confirm :: "time \<Rightarrow> call \<Rightarrow> subject \<Rightarrow> url_values \<Rightarrow> access \<Rightarrow> admin_error + revoke_view option" where
  "to_confirm now c sub v a =
     (let rv = revocationOf v; acc = url_get v ''revoke''; rows = map (tokenRow now (su_accessor sub))
      in if acc \<noteq> [] \<and> rv \<noteq> no_revocation then Inl InvalidInput
         else if acc \<noteq> [] then (case find (\<lambda>t. tk_accessor t = acc) (ACLTokens c a) of
             None \<Rightarrow> Inl (AdminStore ErrNotFound)
           | Some t \<Rightarrow> Inr (Some \<lparr>rw_revocation = no_revocation, rw_accessor = acc, rw_tokens = rows [t],
               rw_current = list_ex tr_current (rows [t])\<rparr>))
         else if rv \<noteq> no_revocation then
           (if \<not> revocation_valid rv then Inl InvalidInput
            else case TokensToRevoke c rv a of
                Inl e \<Rightarrow> Inl (AdminStore e)
              | Inr ts \<Rightarrow> Inr (Some \<lparr>rw_revocation = rv, rw_accessor = [], rw_tokens = rows ts,
                  rw_current = list_ex tr_current (rows ts)\<rparr>))
         else Inr None)"

definition tokensView :: "time \<Rightarrow> call \<Rightarrow> subject \<Rightarrow> url_values \<Rightarrow> access \<Rightarrow> admin_error + tokens_data" where
  "tokensView now c sub v a = bindE (to_confirm now c sub v a)
     (\<lambda>rw. Inr ((tokens_listed now c sub v a)\<lparr>td_revoke := rw\<rparr>))"

type_synonym admin_answer = "(admin_base \<times> admin_data) page_answer"

definition something_wrong :: string where "something_wrong = ''Something went wrong''"

definition shown_in :: "access_env \<Rightarrow> page_server \<Rightarrow> subject \<Rightarrow> admin_request_data \<Rightarrow> string \<Rightarrow> nat \<Rightarrow> admin_data \<Rightarrow> admin_answer" where
  "shown_in env srv sub r sect status x = Shown status (adminBase env srv sub r sect, x)"

definition adminPage :: "access_env \<Rightarrow> page_server \<Rightarrow> subject \<Rightarrow> admin_request_data \<Rightarrow> admin_answer" where
  "adminPage env srv sub r = shown_in env srv sub r ''self'' 200 (SelfData (selfOf (srv_now srv) sub) (su_session_secret sub))"

definition tokensPage :: "access_env \<Rightarrow> page_server \<Rightarrow> call \<Rightarrow> subject \<Rightarrow> admin_request_data \<Rightarrow> access \<Rightarrow> admin_answer" where
  "tokensPage env srv c sub r a = (case tokensView (srv_now srv) c sub (map_of (aq_query r)) a of
       Inl InvalidInput \<Rightarrow> ErrorPage 400 ''Check what to revoke''
     | Inl (AdminStore e) \<Rightarrow> if e = ErrNotFound then ErrorPage 404 ''This token does not exist: someone revoked it already.''
         else ErrorPage 500 something_wrong
     | Inr x \<Rightarrow> shown_in env srv sub r ''tokens'' 200 (TokensData x))"

definition tokenFormPage :: "access_env \<Rightarrow> page_server \<Rightarrow> subject \<Rightarrow> admin_request_data \<Rightarrow> nat \<Rightarrow> token_form \<Rightarrow> string list \<Rightarrow>
    bool \<Rightarrow> access \<Rightarrow> admin_answer" where
  "tokenFormPage env srv sub r status f policies wrong a = shown_in env srv sub r ''tokens'' status
     (TokenFormData f (map (\<lambda>p. (p, pv_name p \<in> set policies)) (policyRows (srv_now srv) a)) wrong)"

definition newTokenPage :: "access_env \<Rightarrow> page_server \<Rightarrow> subject \<Rightarrow> admin_request_data \<Rightarrow> access \<Rightarrow> admin_answer" where
  "newTokenPage env srv sub r a = tokenFormPage env srv sub r 200
     \<lparr>tf_name = [], tf_type = TokenClient, tf_expires = defaultExpiry\<rparr> [] False a"

definition policiesPage :: "access_env \<Rightarrow> page_server \<Rightarrow> subject \<Rightarrow> admin_request_data \<Rightarrow> access \<Rightarrow> admin_answer" where
  "policiesPage env srv sub r a = shown_in env srv sub r ''policies'' 200 (PoliciesData (policyRows (srv_now srv) a))"

definition rulesPage :: "access_env \<Rightarrow> page_server \<Rightarrow> subject \<Rightarrow> admin_request_data \<Rightarrow> access \<Rightarrow> admin_answer" where
  "rulesPage env srv sub r a = shown_in env srv sub r ''rules'' 200
     (RulesData (map (\<lambda>b. \<lparr>rl_id = br_id b, rl_description = br_description b, rl_method = br_method b,
       rl_selector = br_selector b,
       rl_binds = (if br_type b = BindPolicy then ''ACL policy '' @ br_bind_name b else ''management''),
       rl_modified = when_view (srv_now srv) (Some (br_modified_at b))\<rparr>) (BindingRules a)))"

definition changesPage :: "access_env \<Rightarrow> page_server \<Rightarrow> subject \<Rightarrow> admin_request_data \<Rightarrow> access \<Rightarrow> admin_answer" where
  "changesPage env srv sub r a = shown_in env srv sub r ''changes'' 200
     (ChangesData (map (\<lambda>h. \<lparr>cg_when = when_view (srv_now srv) (Some (ch_time h)), cg_actor = ch_actor h,
       cg_accessor = ch_accessor h, cg_identity = ch_identity h, cg_action = ch_action h, cg_kind = ch_kind h,
       cg_object = ch_object h\<rparr>) (ACLChanges changesShown a)))"

definition asks_delete :: "admin_request_data \<Rightarrow> bool" where
  "asks_delete r = (url_get (map_of (aq_query r)) ''delete'' = ''1'')"

definition newPolicyPage :: "access_env \<Rightarrow> page_server \<Rightarrow> subject \<Rightarrow> admin_request_data \<Rightarrow> admin_answer" where
  "newPolicyPage env srv sub r = shown_in env srv sub r ''policies'' 200
     (PolicyData \<lparr>pf_name = [], pf_description = [], pf_rules = [], pf_existing = False\<rparr> False False)"

definition read_policy :: "string \<Rightarrow> access \<Rightarrow> (policy_row \<Rightarrow> admin_answer) \<Rightarrow> admin_answer" where
  "read_policy n a f = (case ACLPolicy n a of
       Inl e \<Rightarrow> if e = ErrNotFound then ErrorPage 404 ''This ACL policy does not exist.'' else ErrorPage 500 something_wrong
     | Inr p \<Rightarrow> f p)"

definition policyPage :: "access_env \<Rightarrow> page_server \<Rightarrow> subject \<Rightarrow> admin_request_data \<Rightarrow> string \<Rightarrow> access \<Rightarrow> admin_answer" where
  "policyPage env srv sub r n a = read_policy n a (\<lambda>p. shown_in env srv sub r ''policies'' 200
     (PolicyData \<lparr>pf_name = pr_name p, pf_description = pr_description p, pf_rules = pr_rules p, pf_existing = True\<rparr>
       False (asks_delete r)))"

definition policyView :: "access_env \<Rightarrow> page_server \<Rightarrow> subject \<Rightarrow> admin_request_data \<Rightarrow> string \<Rightarrow> access \<Rightarrow> admin_answer" where
  "policyView env srv sub r n a = read_policy n a (\<lambda>p. shown_in env srv sub r
     (if acl_management (su_acl sub) then ''policies'' else ''self'') 200 (PolicyViewData p))"

definition ruleFormPage :: "access_env \<Rightarrow> page_server \<Rightarrow> subject \<Rightarrow> admin_request_data \<Rightarrow> nat \<Rightarrow> rule_form \<Rightarrow> bool \<Rightarrow> access \<Rightarrow>
    admin_answer" where
  "ruleFormPage env srv sub r status f wrong a = shown_in env srv sub r ''rules'' status
     (RuleData f wrong (policyRows (srv_now srv) a) (rf_existing f \<and> aq_get r \<and> asks_delete r))"

definition newRulePage :: "access_env \<Rightarrow> page_server \<Rightarrow> subject \<Rightarrow> admin_request_data \<Rightarrow> access \<Rightarrow> admin_answer" where
  "newRulePage env srv sub r a = ruleFormPage env srv sub r 200 \<lparr>rf_id = [], rf_description = [], rf_method = en_method env,
     rf_selector = [], rf_bind = BindManagement, rf_existing = False\<rparr> False a"

definition bindingRulePage :: "access_env \<Rightarrow> page_server \<Rightarrow> subject \<Rightarrow> admin_request_data \<Rightarrow> string \<Rightarrow> access \<Rightarrow> admin_answer" where
  "bindingRulePage env srv sub r i a = (case BindingRule i a of
       Inl e \<Rightarrow> if e = ErrNotFound then ErrorPage 404 ''This binding rule does not exist.'' else ErrorPage 500 something_wrong
     | Inr b \<Rightarrow> ruleFormPage env srv sub r 200 (ruleFormOf b) False a)"

section \<open>The forms\<close>

definition to_admin :: "page_server \<Rightarrow> string \<Rightarrow> admin_answer" where
  "to_admin srv path = Moved 303 (srv_base srv @ ''/admin/'' @ path)"

definition savePolicy :: "access_env \<Rightarrow> page_server \<Rightarrow> call \<Rightarrow> subject \<Rightarrow> admin_request_data \<Rightarrow> access \<Rightarrow> access \<times> admin_answer" where
  "savePolicy env srv c sub r a =
     (let f = \<lparr>pf_name = trim_space (FormValue r ''name''), pf_description = trim_space (FormValue r ''description''),
            pf_rules = FormValue r ''rules'', pf_existing = (FormValue r ''existing'' = ''true'')\<rparr>
      in case putPolicy env c sub \<lparr>pr_name = pf_name f, pr_description = pf_description f, pr_rules = pf_rules f,
             pr_created_at = 0, pr_modified_at = 0\<rparr> a of
          Inl InvalidInput \<Rightarrow> (a, shown_in env srv sub r ''policies'' 400 (PolicyData f True False))
        | Inl (AdminStore _) \<Rightarrow> (a, ErrorPage 500 something_wrong)
        | Inr b \<Rightarrow> (b, to_admin srv ''policies''))"

text \<open>A deletion or a revocation that was confirmed: done, gone already, or failed.\<close>

definition confirmed :: "page_server \<Rightarrow> string \<Rightarrow> string \<Rightarrow> store_error + access \<Rightarrow> access \<Rightarrow> access \<times> admin_answer" where
  "confirmed srv path gone res a = (case res of
       Inr b \<Rightarrow> (b, to_admin srv path)
     | Inl e \<Rightarrow> (a, if e = ErrNotFound then ErrorPage 404 gone else ErrorPage 500 something_wrong))"

definition deletePolicy :: "page_server \<Rightarrow> call \<Rightarrow> subject \<Rightarrow> string \<Rightarrow> access \<Rightarrow> access \<times> admin_answer" where
  "deletePolicy srv c sub n a = confirmed srv ''policies'' ''This ACL policy does not exist: someone deleted it already.''
     (DeleteACLPolicy c n (auditOf sub) a) a"

definition saveBindingRule :: "access_env \<Rightarrow> page_server \<Rightarrow> call \<Rightarrow> subject \<Rightarrow> admin_request_data \<Rightarrow> access \<Rightarrow> access \<times> admin_answer" where
  "saveBindingRule env srv c sub r a =
     (let f = \<lparr>rf_id = FormValue r ''id'', rf_description = FormValue r ''description'', rf_method = FormValue r ''auth_method'',
            rf_selector = FormValue r ''selector'', rf_bind = FormValue r ''bind'', rf_existing = (FormValue r ''id'' \<noteq> [])\<rparr>
      in case putBindingRule env c sub (form_binding f) a of
          Inl InvalidInput \<Rightarrow> (a, ruleFormPage env srv sub r 400 f True a)
        | Inl (AdminStore e) \<Rightarrow> (a, if e = ErrNotFound then ErrorPage 404 ''This binding rule does not exist: someone deleted it.''
            else ErrorPage 500 something_wrong)
        | Inr (b, _) \<Rightarrow> (b, to_admin srv ''binding-rules''))"

definition deleteBindingRule :: "page_server \<Rightarrow> call \<Rightarrow> subject \<Rightarrow> string \<Rightarrow> access \<Rightarrow> access \<times> admin_answer" where
  "deleteBindingRule srv c sub i a = confirmed srv ''binding-rules''
     ''This binding rule does not exist: someone deleted it already.'' (DeleteBindingRule c i (auditOf sub) a) a"

definition createTokenForm :: "access_env \<Rightarrow> page_server \<Rightarrow> call \<Rightarrow> string \<Rightarrow> subject \<Rightarrow> admin_request_data \<Rightarrow> access \<Rightarrow>
    access \<times> admin_answer" where
  "createTokenForm env srv c sec sub r a =
     (if \<not> aq_form_ok r then (a, ErrorPage 400 ''Check the form'')
      else let v = map_of (aq_post r);
          f = \<lparr>tf_name = url_get v ''name'', tf_type = url_get v ''type'', tf_expires = url_get v ''expires''\<rparr>;
          policies = map snd (filter (\<lambda>p. fst p = ''policy'') (aq_post r))
        in case find (\<lambda>x. ex_key x = tf_expires f) expiryChoices of
            None \<Rightarrow> (a, tokenFormPage env srv sub r 400 f policies True a)
          | Some x \<Rightarrow> (case createToken env c sec sub \<lparr>nt_name = tf_name f, nt_type = tf_type f, nt_policies = policies,
                nt_expires_in = int (ex_days x) * 24 * hour\<rparr> a of
              Inl InvalidInput \<Rightarrow> (a, tokenFormPage env srv sub r 400 f policies True a)
            | Inl (AdminStore _) \<Rightarrow> (a, ErrorPage 500 something_wrong)
            | Inr (b, t) \<Rightarrow> (b, case tokensView (srv_now srv) c sub (map_of (aq_query r)) b of
                Inl _ \<Rightarrow> ErrorPage 500 something_wrong
              | Inr x \<Rightarrow> shown_in env srv sub r ''tokens'' 200 (TokensData (x\<lparr>td_made := Some (tk_name t, sec)\<rparr>)))))"

definition revokeTokenForm :: "page_server \<Rightarrow> call \<Rightarrow> subject \<Rightarrow> string \<Rightarrow> access \<Rightarrow> access \<times> admin_answer" where
  "revokeTokenForm srv c sub i a = confirmed srv ''tokens'' ''This token does not exist: someone revoked it already.''
     (RevokeACLToken c i (auditOf sub) a) a"

definition revokeTokensForm :: "page_server \<Rightarrow> call \<Rightarrow> subject \<Rightarrow> admin_request_data \<Rightarrow> access \<Rightarrow> access \<times> admin_answer" where
  "revokeTokensForm srv c sub r a =
     (if \<not> aq_form_ok r then (a, ErrorPage 400 ''Check the form'')
      else case revokeTokens c sub (revocationOf (map_of (aq_post r))) a of
          Inl InvalidInput \<Rightarrow> (a, ErrorPage 400 ''Check what to revoke'')
        | Inl (AdminStore _) \<Rightarrow> (a, ErrorPage 500 something_wrong)
        | Inr (b, _) \<Rightarrow> (b, to_admin srv ''tokens''))"

section \<open>The routes\<close>

datatype admin_page =
    SelfPage | TokensPage | NewTokenPage | PoliciesPage | NewPolicyPage | EditPolicyPage string | ViewPolicyPage string
  | RulesPage | NewRulePage | EditRulePage string | ChangesPage
  | SavePolicy | DropPolicy string | CreateToken | RevokeOne string | RevokeMany | SaveRule | DropRule string

fun admin_pattern :: "admin_page \<Rightarrow> string" where
  "admin_pattern SelfPage = ''GET /admin''"
| "admin_pattern TokensPage = ''GET /admin/tokens''"
| "admin_pattern NewTokenPage = ''GET /admin/tokens/new''"
| "admin_pattern PoliciesPage = ''GET /admin/policies''"
| "admin_pattern NewPolicyPage = ''GET /admin/policies/new''"
| "admin_pattern (EditPolicyPage _) = ''GET /admin/policies/{name}/edit''"
| "admin_pattern (ViewPolicyPage _) = ''GET /admin/policies/{name}/view''"
| "admin_pattern RulesPage = ''GET /admin/binding-rules''"
| "admin_pattern NewRulePage = ''GET /admin/binding-rules/new''"
| "admin_pattern (EditRulePage _) = ''GET /admin/binding-rules/{id}/edit''"
| "admin_pattern ChangesPage = ''GET /admin/changes''"
| "admin_pattern SavePolicy = ''POST /admin/policies''"
| "admin_pattern (DropPolicy _) = ''POST /admin/policies/{name}/delete''"
| "admin_pattern CreateToken = ''POST /admin/tokens''"
| "admin_pattern (RevokeOne _) = ''POST /admin/tokens/{accessor}/revoke''"
| "admin_pattern RevokeMany = ''POST /admin/tokens/revoke''"
| "admin_pattern SaveRule = ''POST /admin/binding-rules''"
| "admin_pattern (DropRule _) = ''POST /admin/binding-rules/{id}/delete''"

definition admin_check :: "admin_page \<Rightarrow> route_check" where
  "admin_check p = the (map_of (pageRoutes False) (admin_pattern p))"

fun admin_handler :: "access_env \<Rightarrow> page_server \<Rightarrow> call \<Rightarrow> string \<Rightarrow> subject \<Rightarrow> admin_request_data \<Rightarrow> admin_page \<Rightarrow> access \<Rightarrow>
    access \<times> admin_answer" where
  "admin_handler env srv c sec sub r SelfPage a = (a, adminPage env srv sub r)"
| "admin_handler env srv c sec sub r TokensPage a = (a, tokensPage env srv c sub r a)"
| "admin_handler env srv c sec sub r NewTokenPage a = (a, newTokenPage env srv sub r a)"
| "admin_handler env srv c sec sub r PoliciesPage a = (a, policiesPage env srv sub r a)"
| "admin_handler env srv c sec sub r NewPolicyPage a = (a, newPolicyPage env srv sub r)"
| "admin_handler env srv c sec sub r (EditPolicyPage n) a = (a, policyPage env srv sub r n a)"
| "admin_handler env srv c sec sub r (ViewPolicyPage n) a = (a, policyView env srv sub r n a)"
| "admin_handler env srv c sec sub r RulesPage a = (a, rulesPage env srv sub r a)"
| "admin_handler env srv c sec sub r NewRulePage a = (a, newRulePage env srv sub r a)"
| "admin_handler env srv c sec sub r (EditRulePage i) a = (a, bindingRulePage env srv sub r i a)"
| "admin_handler env srv c sec sub r ChangesPage a = (a, changesPage env srv sub r a)"
| "admin_handler env srv c sec sub r SavePolicy a = savePolicy env srv c sub r a"
| "admin_handler env srv c sec sub r (DropPolicy n) a = deletePolicy srv c sub n a"
| "admin_handler env srv c sec sub r CreateToken a = createTokenForm env srv c sec sub r a"
| "admin_handler env srv c sec sub r (RevokeOne i) a = revokeTokenForm srv c sub i a"
| "admin_handler env srv c sec sub r RevokeMany a = revokeTokensForm srv c sub r a"
| "admin_handler env srv c sec sub r SaveRule a = saveBindingRule env srv c sub r a"
| "admin_handler env srv c sec sub r (DropRule i) a = deleteBindingRule srv c sub i a"

text \<open>The whole call: the login and the check of the route, then the page.\<close>

definition admin_call :: "access_env \<Rightarrow> page_server \<Rightarrow> call \<Rightarrow> string \<Rightarrow> request \<Rightarrow> admin_request_data \<Rightarrow> admin_page \<Rightarrow> store \<Rightarrow>
    access \<Rightarrow> access \<times> admin_answer answer" where
  "admin_call env srv c sec q r p s a = (case page_route env c (admin_check p) q s a of
       Handled sub \<Rightarrow> (case admin_handler env srv c sec sub r p a of (b, x) \<Rightarrow> (b, Handled x))
     | Unauthorized \<Rightarrow> (a, Unauthorized) | LoginRedirect \<Rightarrow> (a, LoginRedirect) | HtmxLogin \<Rightarrow> (a, HtmxLogin)
     | Forbidden \<Rightarrow> (a, Forbidden) | ServerError \<Rightarrow> (a, ServerError))"

section \<open>What is confirmed is what goes\<close>

lemma tokenRow_simps [simp]:
  "sf_accessor (tokenRow now self t) = tk_accessor t" "tr_current (tokenRow now self t) = (tk_accessor t = self)"
  by (simp_all add: tokenRow_def tokenView_def self_view.extend_def)

lemma rows_accessors: "map sf_accessor (map (tokenRow now self) ts) = map tk_accessor ts"
  by simp

lemma rows_current: "list_ex tr_current (map (tokenRow now self) ts) \<longleftrightarrow> self \<in> set (map tk_accessor ts)"
  by (induction ts) auto

text \<open>What confirming a revocation does: the redirect to the list, and exactly the rows of \<open>ids\<close> gone.\<close>

definition revokes_exactly :: "page_server \<Rightarrow> string list \<Rightarrow> access \<Rightarrow> access \<times> admin_answer \<Rightarrow> bool" where
  "revokes_exactly srv ids a out = (snd out = to_admin srv ''tokens'' \<and>
     ac_tokens (fst out) = filter (\<lambda>t. accessor_of t \<notin> set ids) (ac_tokens a))"

lemma listed_token: "find (\<lambda>t. tk_accessor t = i) (ACLTokens c a) = Some t \<Longrightarrow>
    tk_accessor t = i \<and> list_ex (\<lambda>r. accessor_of r = i) (ac_tokens a)"
proof -
  assume f: "find (\<lambda>t. tk_accessor t = i) (ACLTokens c a) = Some t"
  then have "t \<in> set (ACLTokens c a)" "tk_accessor t = i" by (auto simp: find_Some_iff)
  then have "i \<in> set (map tk_accessor (queryTokens c (\<lambda>_. True) a))" by (auto simp: ACLTokens_def)
  with \<open>tk_accessor t = i\<close> show ?thesis unfolding queryTokens_accessors by (force simp: list_ex_iff)
qed

lemma revoke_one_exactly:
  assumes "su_actor sub \<noteq> []" "list_ex (\<lambda>r. accessor_of r = i) (ac_tokens a)"
  shows "revokes_exactly srv [i] a (revokeTokenForm srv c sub i a)"
  using assms by (simp add: revokes_exactly_def revokeTokenForm_def confirmed_def RevokeACLToken_def auditOf_def
      delete_token_tables tokens_but_def)

lemma revoke_many_exactly:
  assumes "su_actor sub \<noteq> []" "revocation_valid rv" "TokensToRevoke c rv a = Inr ts" "aq_form_ok r"
    "revocationOf (map_of (aq_post r)) = rv"
  shows "revokes_exactly srv (map tk_accessor ts) a (revokeTokensForm srv c sub r a)"
proof -
  have "revokeTokens c sub rv a = Inr (revoke_each c (auditOf sub) (map tk_accessor ts) a, map tk_accessor ts)"
    using assms(1-3) by (simp add: revokeTokens_def RevokeACLTokens_def from_store_def Let_def auditOf_def)
  then show ?thesis using assms(4,5)
    by (simp add: revokes_exactly_def revokeTokensForm_def revoke_each_tables tokens_but_def)
qed

text \<open>
  Claim C20. A revocation goes through a page that shows what goes. Whatever that page lists, of one token or of
  every session of a person or every token somebody created, is exactly what confirming it deletes, as
  long as nothing happened in between, and the page says so when the token of whoever confirms is among
  them.
\<close>

theorem revocation_shown_is_revoked:
  assumes "tokensView now c sub v a = Inr x" "td_revoke x = Some rw" "su_actor sub \<noteq> []"
  shows "(rw_current rw \<longleftrightarrow> su_accessor sub \<in> set (map sf_accessor (rw_tokens rw))) \<and>
    (if rw_accessor rw \<noteq> [] then map sf_accessor (rw_tokens rw) = [rw_accessor rw] \<and>
       revokes_exactly srv (map sf_accessor (rw_tokens rw)) a (revokeTokenForm srv c sub (rw_accessor rw) a)
     else \<forall>r. aq_form_ok r \<and> revocationOf (map_of (aq_post r)) = rw_revocation rw \<longrightarrow>
       revokes_exactly srv (map sf_accessor (rw_tokens rw)) a (revokeTokensForm srv c sub r a))"
proof -
  from assms(1,2) have rw: "to_confirm now c sub v a = Inr (Some rw)"
    by (auto simp: tokensView_def bindE_Inr)
  show ?thesis
  proof (cases "url_get v ''revoke'' = []")
    case False
    with rw obtain t where t: "find (\<lambda>t. tk_accessor t = url_get v ''revoke'') (ACLTokens c a) = Some t"
      "rw = \<lparr>rw_revocation = no_revocation, rw_accessor = url_get v ''revoke'',
         rw_tokens = map (tokenRow now (su_accessor sub)) [t],
         rw_current = list_ex tr_current (map (tokenRow now (su_accessor sub)) [t])\<rparr>"
      unfolding to_confirm_def Let_def by (auto split: if_split_asm option.split_asm)
    from listed_token [OF t(1)] revoke_one_exactly [OF assms(3)] False show ?thesis
      by (auto simp: t(2))
  next
    case True
    with rw obtain ts where ts: "revocation_valid (revocationOf v)" "TokensToRevoke c (revocationOf v) a = Inr ts"
      "rw = \<lparr>rw_revocation = revocationOf v, rw_accessor = [], rw_tokens = map (tokenRow now (su_accessor sub)) ts,
         rw_current = list_ex tr_current (map (tokenRow now (su_accessor sub)) ts)\<rparr>"
      unfolding to_confirm_def Let_def by (auto split: if_split_asm sum.split_asm)
    from revoke_many_exactly [OF assms(3) ts(1,2)] show ?thesis
      by (simp only: ts(3) revoke_view.simps rows_accessors rows_current) simp
  qed
qed

section \<open>The forms act as the API\<close>

lemma form_binding_of: "br_type b = BindManagement \<and> br_bind_name b = [] \<or> br_type b = BindPolicy \<Longrightarrow>
    form_binding (ruleFormOf b) = b\<lparr>br_created_at := 0, br_modified_at := 0\<rparr>"
proof -
  have "cut_prefix ''policy:'' BindManagement = None" by code_simp
  moreover have "cut_prefix ''policy:'' (''policy:'' @ n) = Some n" for n by (simp add: cut_prefix_def)
  moreover have "BindManagement \<noteq> BindPolicy" by code_simp
  moreover have "''policy:'' @ n \<noteq> BindManagement" for n by (simp add: BindManagement_def)
  ultimately show "br_type b = BindManagement \<and> br_bind_name b = [] \<or> br_type b = BindPolicy \<Longrightarrow> ?thesis"
    by (cases b) (auto simp: form_binding_def ruleFormOf_def Let_def simp del: append.append_Cons)
qed

text \<open>The request of the API a form stands for; none for a form that cannot be read or whose expiry is not a choice.\<close>

definition expiry_text :: "nat \<Rightarrow> string" where
  "expiry_text days = (if days = 0 then [] else show_nat (days * 24) @ ''h'')"

definition rule_body_of :: "binding_rule \<Rightarrow> rule_body" where
  "rule_body_of b = \<lparr>rb_description = br_description b, rb_method = br_method b, rb_selector = br_selector b,
     rb_type = br_type b, rb_name = br_bind_name b\<rparr>"

definition form_rule :: "admin_request_data \<Rightarrow> binding_rule" where
  "form_rule r = form_binding \<lparr>rf_id = FormValue r ''id'', rf_description = FormValue r ''description'',
     rf_method = FormValue r ''auth_method'', rf_selector = FormValue r ''selector'', rf_bind = FormValue r ''bind'',
     rf_existing = (FormValue r ''id'' \<noteq> [])\<rparr>"

definition form_token :: "admin_request_data \<Rightarrow> token_body option" where
  "form_token r = (let v = map_of (aq_post r) in
     map_option (\<lambda>x. \<lparr>tb_name = url_get v ''name'', tb_type = url_get v ''type'',
         tb_policies = map snd (filter (\<lambda>p. fst p = ''policy'') (aq_post r)), tb_expires_in = expiry_text (ex_days x)\<rparr>)
       (find (\<lambda>x. ex_key x = url_get v ''expires'') expiryChoices))"

definition form_revocation :: "revocation \<Rightarrow> acl_request option" where
  "form_revocation rv = (if \<not> revocation_valid rv then None
     else if sessions_of rv \<noteq> [] then Some (RevokeSessions (Some (sessions_of rv)))
     else Some (RevokeCreated (Some (rev_identity rv, rev_accessor rv))))"

definition api_of_form :: "admin_request_data \<Rightarrow> admin_page \<Rightarrow> acl_request option" where
  "api_of_form r p = (case p of
       SavePolicy \<Rightarrow> Some (PutPolicy (trim_space (FormValue r ''name''))
         (Some (trim_space (FormValue r ''description''), FormValue r ''rules'')))
     | DropPolicy n \<Rightarrow> Some (DeletePolicy n)
     | SaveRule \<Rightarrow> (let b = form_rule r in if br_id b = [] then Some (CreateRule (Some (rule_body_of b)))
         else Some (PutRule (br_id b) (Some (rule_body_of b))))
     | DropRule i \<Rightarrow> Some (DeleteRule i)
     | CreateToken \<Rightarrow> if aq_form_ok r then map_option (\<lambda>b. NewToken (Some b)) (form_token r) else None
     | RevokeOne i \<Rightarrow> Some (RevokeToken i)
     | RevokeMany \<Rightarrow> if aq_form_ok r then form_revocation (revocationOf (map_of (aq_post r))) else None
     | _ \<Rightarrow> None)"

text \<open>What is documented of \<open>time.ParseDuration\<close> on whole hours.\<close>

definition reads_hours :: "(string \<Rightarrow> duration option) \<Rightarrow> bool" where
  "reads_hours dur = (\<forall>x\<in>set expiryChoices. ex_days x \<noteq> 0 \<longrightarrow>
     dur (expiry_text (ex_days x)) = Some (int (ex_days x) * 24 * hour))"

lemma confirmed_fst: "fst (confirmed srv path gone res a) = fst (no_content res a)"
  by (simp add: confirmed_def no_content_def split: sum.split)

lemma savePolicy_api: "fst (savePolicy env srv c sub r a) =
    fst (api_put_policy env c sub (trim_space (FormValue r ''name''))
      (trim_space (FormValue r ''description''), FormValue r ''rules'') a)"
  by (simp add: savePolicy_def api_put_policy_def Let_def split: sum.split admin_error.split)

lemma form_rule_fields: "rule_of (br_id (form_rule r)) (rule_body_of (form_rule r)) = form_rule r"
  by (simp add: form_rule_def form_binding_def Let_def rule_of_def rule_body_of_def split: option.split)

lemma saveBindingRule_api: "fst (saveBindingRule env srv c sub r a) =
    fst (api_save_rule env c sub (br_id (form_rule r)) st (Some (rule_body_of (form_rule r))) a)"
  unfolding api_save_rule_def option.case form_rule_fields unfolding saveBindingRule_def Let_def form_rule_def
  by (simp add: split_beta split: sum.split admin_error.split)

lemma form_revocation_api:
  assumes "revocation_valid rv"
  shows "\<exists>q. form_revocation rv = Some q \<and> acl_api env dur c sec sub q a = api_revoke_tokens c sub rv a"
  using assms by (cases rv) (auto simp: form_revocation_def revocation_valid_def split: if_splits)

lemma createTokenForm_api:
  assumes "reads_hours dur" "aq_form_ok r" "form_token r = Some b"
  shows "fst (createTokenForm env srv c sec sub r a) = fst (api_create_token env dur c sec sub (Some b) a)"
proof -
  let ?v = "map_of (aq_post r)"
  from assms(3) obtain x where x: "find (\<lambda>x. ex_key x = url_get ?v ''expires'') expiryChoices = Some x"
    and b: "b = \<lparr>tb_name = url_get ?v ''name'', tb_type = url_get ?v ''type'',
      tb_policies = map snd (filter (\<lambda>p. fst p = ''policy'') (aq_post r)), tb_expires_in = expiry_text (ex_days x)\<rparr>"
    by (auto simp: form_token_def Let_def)
  from x have "x \<in> set expiryChoices" by (auto simp: find_Some_iff)
  with assms(1) have hours: "ex_days x \<noteq> 0 \<Longrightarrow> dur (expiry_text (ex_days x)) = Some (int (ex_days x) * 24 * hour)"
    "ex_days x \<noteq> 0 \<Longrightarrow> expiry_text (ex_days x) \<noteq> []" by (auto simp: reads_hours_def expiry_text_def)
  have d: "(if tb_expires_in b = [] then Some 0
      else case dur (tb_expires_in b) of None \<Rightarrow> None | Some d \<Rightarrow> if d \<le> 0 then None else Some d)
    = Some (int (ex_days x) * 24 * hour)"
    by (cases "ex_days x = 0") (simp_all add: hours b, simp add: expiry_text_def)
  show ?thesis
    unfolding api_create_token_def option.case d Let_def
    by (simp add: createTokenForm_def assms(2) x Let_def b split_beta split: sum.split admin_error.split)
qed

text \<open>
  Claim C33. A form of the Administration pages changes access control exactly as the call of the API it stands for
  does, for the same person on the same database: the pages check nothing less than the API, and a form
  that stands for none changes nothing.
\<close>

theorem admin_forms_act_as_api:
  assumes "reads_hours dur"
  shows "fst (admin_handler env srv c sec sub r p a) =
    (case api_of_form r p of None \<Rightarrow> a | Some q \<Rightarrow> fst (acl_api env dur c sec sub q a))"
proof (cases p)
  case SaveRule
  with saveBindingRule_api [of env srv c sub r a 201] saveBindingRule_api [of env srv c sub r a 200] show ?thesis
    by (simp add: api_of_form_def Let_def)
next
  case CreateToken
  show ?thesis
  proof (cases "aq_form_ok r")
    case True
    show ?thesis
    proof (cases "form_token r")
      case None
      with True CreateToken show ?thesis
        by (auto simp: api_of_form_def createTokenForm_def form_token_def Let_def)
    next
      case (Some b)
      with True CreateToken createTokenForm_api [OF assms True Some] show ?thesis by (simp add: api_of_form_def)
    qed
  qed (simp add: CreateToken api_of_form_def createTokenForm_def)
next
  case RevokeMany
  let ?rv = "revocationOf (map_of (aq_post r))"
  have same: "fst (revokeTokensForm srv c sub r a) = fst (api_revoke_tokens c sub ?rv a)" if "aq_form_ok r"
    using that by (simp add: revokeTokensForm_def api_revoke_tokens_def split_beta split: sum.split admin_error.split)
  show ?thesis
  proof (cases "aq_form_ok r \<and> revocation_valid ?rv")
    case True
    then obtain q where "form_revocation ?rv = Some q" "acl_api env dur c sec sub q a = api_revoke_tokens c sub ?rv a"
      using form_revocation_api by blast
    with True same RevokeMany show ?thesis by (simp add: api_of_form_def)
  next
    case False
    then show ?thesis using RevokeMany
      by (auto simp: api_of_form_def form_revocation_def revokeTokensForm_def revokeTokens_def)
  qed
qed (simp_all add: api_of_form_def savePolicy_api deletePolicy_def deleteBindingRule_def revokeTokenForm_def confirmed_fst)

text \<open>
  Only a management token (or anyone, with the ACL off) changes access control from the pages: every form
  is behind that check, and a page that only shows changes nothing. What a form leaves is a database the
  store's own operations reach.
\<close>

lemma admin_check_forms: "api_of_form r p \<noteq> None \<Longrightarrow> admin_check p = ManagementOnly"
  by (cases p) (simp_all add: api_of_form_def admin_check_def pageRoutes_def)

theorem only_management_changes_acl_by_page:
  assumes "fst (admin_call env srv c sec q r p s a) \<noteq> a" "reads_hours dur" "access_stored a"
  shows "\<exists>sub. require_login env c q a = Handled sub \<and> acl_management (su_acl sub) \<and>
    access_stored (fst (admin_call env srv c sec q r p s a))"
proof -
  from assms(1) obtain sub where sub: "page_route env c (admin_check p) q s a = Handled sub"
    and out: "fst (admin_call env srv c sec q r p s a) = fst (admin_handler env srv c sec sub r p a)"
    by (auto simp: admin_call_def split: answer.splits prod.splits)
  have login: "require_login env c q a = Handled sub" "run_check (admin_check p) s q sub = Inr True"
    using sub by (auto simp: page_route_def guard_def split: answer.splits sum.splits bool.splits)
  note made = admin_forms_act_as_api [OF assms(2), of env srv c sec sub r p a]
  with assms(1) out obtain f where f: "api_of_form r p = Some f" "fst (admin_handler env srv c sec sub r p a) =
      fst (acl_api env dur c sec sub f a)" by (cases "api_of_form r p") auto
  from f(1) have "admin_check p = ManagementOnly" by (intro admin_check_forms) auto
  with login have "acl_management (su_acl sub)" by (simp add: run_check_def)
  moreover have "access_stored (fst (acl_api env dur c sec sub f a))"
    by (rule reach_runs [OF assms(3) acl_api_runs])
  ultimately show ?thesis using login(1) by (simp add: out f(2))
qed

section \<open>Samples\<close>

definition admin_server :: page_server where
  "admin_server = \<lparr>srv_base = [], srv_now = 5, srv_version = [], srv_nomad_ui = [], srv_commit_url = None,
     srv_diff = (\<lambda>_. Inr None)\<rparr>"

definition admin_form :: admin_request_data where
  "admin_form = \<lparr>aq_uri = ''/admin/tokens'', aq_query = [], aq_post = [], aq_form_ok = True, aq_get = False, aq_every = None\<rparr>"

lemma B_listed: "\<exists>t. find (\<lambda>t. tk_accessor t = ''B'') (ACLTokens (at_time 5 []) sample_access) = Some t"
proof -
  have "''B'' \<in> set (map tk_accessor (queryTokens (at_time 5 []) (\<lambda>_. True) sample_access))"
    unfolding queryTokens_accessors
    by (rule CollectI, rule exI [of _ tok_B]) (simp add: sample_access_def expired_def)
  then have "find (\<lambda>t. tk_accessor t = ''B'') (ACLTokens (at_time 5 []) sample_access) \<noteq> None"
    by (auto simp: find_None_iff ACLTokens_def)
  then show ?thesis by simp
qed

theorem revocation_shown_is_revoked_witness:
  "\<exists>x rw. tokensView 5 (at_time 5 []) as_A [''revoke'' \<mapsto> ''B''] sample_access = Inr x \<and> td_revoke x = Some rw \<and>
     revokes_exactly admin_server [''B''] sample_access
       (revokeTokenForm admin_server (at_time 5 []) as_A ''B'' sample_access)"
proof -
  obtain t where t: "find (\<lambda>t. tk_accessor t = ''B'') (ACLTokens (at_time 5 []) sample_access) = Some t"
    using B_listed by blast
  let ?v = "[''revoke'' \<mapsto> ''B'']"
  have "revocationOf ?v = no_revocation" by (simp add: revocationOf_def no_revocation_def url_get_def)
  with t have "to_confirm 5 (at_time 5 []) as_A ?v sample_access = Inr (Some \<lparr>rw_revocation = no_revocation,
      rw_accessor = ''B'', rw_tokens = map (tokenRow 5 (su_accessor as_A)) [t],
      rw_current = list_ex tr_current (map (tokenRow 5 (su_accessor as_A)) [t])\<rparr>)"
    by (simp add: to_confirm_def Let_def url_get_def)
  then obtain x rw where x: "tokensView 5 (at_time 5 []) as_A ?v sample_access = Inr x" "td_revoke x = Some rw"
    "rw_accessor rw = ''B''" by (simp add: tokensView_def)
  have "su_actor as_A \<noteq> []" by (simp add: as_A_def)
  from revocation_shown_is_revoked [OF x(1,2) this, of admin_server] x show ?thesis by auto
qed

definition hours_only :: "string \<Rightarrow> duration option" where
  "hours_only = map_of [(''168h'', 168 * hour), (''720h'', 720 * hour), (''2160h'', 2160 * hour), (''8760h'', 8760 * hour)]"

lemma digit_chars: "digit_char 0 = CHR ''0''" "digit_char 1 = CHR ''1''" "digit_char 2 = CHR ''2''"
    "digit_char 6 = CHR ''6''" "digit_char 7 = CHR ''7''" "digit_char 8 = CHR ''8''"
  by code_simp+

lemma hours_only_reads: "reads_hours hours_only"
proof -
  have "expiry_text 7 = ''168h''" "expiry_text 30 = ''720h''" "expiry_text 90 = ''2160h''" "expiry_text 365 = ''8760h''"
    by (simp_all add: expiry_text_def show_nat.simps digit_chars flip: One_nat_def)
  then show ?thesis by (simp add: reads_hours_def expiryChoices_def hours_only_def)
qed

theorem admin_forms_act_as_api_witness:
  "fst (admin_handler Access.sample_env admin_server (at_time 5 []) [] as_A admin_form (RevokeOne ''B'') sample_access) =
     insertChange (at_time 5 []) (auditOf as_A) ''revoke'' ''token'' ''B'' (delete_token ''B'' sample_access)"
proof -
  have "au_actor (auditOf as_A) \<noteq> []" by (simp add: auditOf_def as_A_def)
  moreover have "list_ex (\<lambda>r. accessor_of r = ''B'') (ac_tokens sample_access)" by (simp add: sample_access_def)
  ultimately show ?thesis
    using admin_forms_act_as_api [OF hours_only_reads, of Access.sample_env admin_server "at_time 5 []" "[]" as_A admin_form
      "RevokeOne ''B''" sample_access]
    by (simp add: api_of_form_def no_content_def RevokeACLToken_def)
qed

definition pasted_A :: request where
  "pasted_A = (bearer_request [])\<lparr>rq_token_cookie := ''a''\<rparr>"

lemma A_logged_in: "require_login Access.sample_env (at_time 5 []) pasted_A sample_access = Handled as_A"
proof -
  have "tokenSubject Access.sample_env (at_time 5 []) ''a'' sample_access = Inr as_A"
    by (simp add: tokenSubject_def Access.sample_env_def ACLTokenBySecret_def sample_access_def expired_def
        load_policies_def as_A_def) (simp add: tok_A_def stamp_token_def made_by_def)
  then have "cookieSubject Access.sample_env (at_time 5 []) pasted_A sample_access = Inr as_A"
    by (simp add: cookieSubject_def pasted_A_def bearer_request_def Let_def)
  then show ?thesis by (simp add: require_login_def)
qed

theorem only_management_changes_acl_by_page_witness: "acl_management (su_acl as_A)"
proof -
  have "admin_check (RevokeOne ''B'') = ManagementOnly" by (simp add: admin_check_def pageRoutes_def)
  then have "page_route Access.sample_env (at_time 5 []) (admin_check (RevokeOne ''B'')) pasted_A empty_store sample_access = Handled as_A"
    by (simp add: page_route_def A_logged_in guard_def run_check_def as_A_def management_acl_def)
  moreover have "au_actor (auditOf as_A) \<noteq> []" by (simp add: auditOf_def as_A_def)
  moreover have "list_ex (\<lambda>r. accessor_of r = ''B'') (ac_tokens sample_access)" by (simp add: sample_access_def)
  ultimately have out: "fst (admin_call Access.sample_env admin_server (at_time 5 []) [] pasted_A admin_form (RevokeOne ''B'') empty_store
      sample_access) = insertChange (at_time 5 []) (auditOf as_A) ''revoke'' ''token'' ''B'' (delete_token ''B'' sample_access)"
    by (simp add: admin_call_def revokeTokenForm_def confirmed_def RevokeACLToken_def)
  have "ac_changes (insertChange (at_time 5 []) (auditOf as_A) ''revoke'' ''token'' ''B'' (delete_token ''B'' sample_access))
      \<noteq> ac_changes sample_access" by (simp add: insertChange_row)
  with out have "fst (admin_call Access.sample_env admin_server (at_time 5 []) [] pasted_A admin_form (RevokeOne ''B'') empty_store
      sample_access) \<noteq> sample_access" by auto
  from only_management_changes_acl_by_page [OF this hours_only_reads sample_access_stored] A_logged_in show ?thesis by auto
qed

end
