(* ===== verification/Webhook.thy ===== *)
theory Webhook
  imports PageParts
begin

text \<open>
  The webhook of the git forges (\<open>internal/web/webhook.go\<close>) and the frame of the HTTP server around every
  route (\<open>server.go\<close>): the checks of its options, the base path, the security headers, the routes that
  need no login. HMAC-SHA256 is a parameter, of the secret and the body.
\<close>

section \<open>The signature\<close>

text \<open>Go's \<open>hex.DecodeString\<close>.\<close>

fun hex_decode :: "string \<Rightarrow> string option" where
  "hex_decode [] = Some []"
| "hex_decode [c] = None"
| "hex_decode (x # y # s) = (case (hex_value x, hex_value y) of
     (Some a, Some b) \<Rightarrow> map_option (Cons (char_of (16 * a + b))) (hex_decode s) | _ \<Rightarrow> None)"

definition webhookMaxBody :: nat where "webhookMaxBody = 2 ^ 20"

definition verifyHMACSHA256 :: "(string \<Rightarrow> string \<Rightarrow> string) \<Rightarrow> string \<Rightarrow> string \<Rightarrow> string \<Rightarrow> string \<Rightarrow> bool" where
  "verifyHMACSHA256 hmac header pre body secret =
     (let sig = (if pre = [] then Some header
        else if length header \<le> length pre \<or> take (length pre) header \<noteq> pre then None
        else Some (drop (length pre) header))
      in case sig of None \<Rightarrow> False
        | Some h \<Rightarrow> (case hex_decode h of None \<Rightarrow> False | Some want \<Rightarrow> want = hmac secret body))"

section \<open>The handler\<close>

text \<open>A missing header is the empty string; \<open>wh_broken\<close> says that the body could not be read to its end.\<close>

record webhook_request =
  wh_body :: string
  wh_broken :: bool
  wh_gitlab_token :: string
  wh_hub_signature :: string
  wh_gitea_signature :: string

text \<open>The status, and whether the watchers were asked for a poll out of turn.\<close>

definition webhookAccepted :: "nat \<times> bool" where "webhookAccepted = (202, True)"

definition webhookRejected :: "nat \<times> bool" where "webhookRejected = (401, False)"

definition webhook_call :: "(string \<Rightarrow> string \<Rightarrow> string) \<Rightarrow> string \<Rightarrow> webhook_request \<Rightarrow> nat \<times> bool" where
  "webhook_call hmac secret w =
     (if wh_broken w \<or> webhookMaxBody < length (wh_body w) then (400, False)
      else if wh_gitlab_token w \<noteq> [] then
        (if wh_gitlab_token w \<noteq> secret then webhookRejected else webhookAccepted)
      else if wh_hub_signature w \<noteq> [] then
        (if \<not> verifyHMACSHA256 hmac (wh_hub_signature w) ''sha256='' (wh_body w) secret then webhookRejected else webhookAccepted)
      else if wh_gitea_signature w \<noteq> [] then
        (if \<not> verifyHMACSHA256 hmac (wh_gitea_signature w) [] (wh_body w) secret then webhookRejected else webhookAccepted)
      else (401, False))"

text \<open>The route is served when there is a secret.\<close>

definition webhook_route :: "(string \<Rightarrow> string \<Rightarrow> string) \<Rightarrow> string \<Rightarrow> webhook_request \<Rightarrow> nat \<times> bool" where
  "webhook_route hmac secret w = (if secret = [] then (404, False) else webhook_call hmac secret w)"

section \<open>The server\<close>

text \<open>\<open>Options\<close>, as \<open>newServer\<close> checks them: which dependencies are given, and the settings.\<close>

record server_options =
  so_auth :: bool
  so_store :: bool
  so_engine :: bool
  so_git :: bool
  so_access :: bool
  so_log :: bool
  so_acl :: bool
  so_bootstrap :: string
  so_webhook_secret :: string
  so_trigger :: bool
  so_metrics :: bool
  so_tls :: bool
  so_base_path :: string

definition server_problem :: "server_options \<Rightarrow> string option" where
  "server_problem o' =
     (if \<not> (so_auth o' \<and> so_store o' \<and> so_engine o' \<and> so_git o' \<and> so_access o' \<and> so_log o')
      then Some ''web: Auth, Store, Engine, Git, Access and Log are required''
      else if so_acl o' \<and> so_bootstrap o' = [] then Some ''web: BootstrapToken is required when ACL is on''
      else if so_webhook_secret o' \<noteq> [] \<and> \<not> so_trigger o' then Some ''web: Trigger is required when WebhookSecret is set''
      else None)"

text \<open>The base path: the path the routes see, \<open>None\<close> for a 404.\<close>

definition routed_path :: "server_options \<Rightarrow> string \<Rightarrow> string option" where
  "routed_path o' path =
     (if so_base_path o' = [] then Some path
      else if path = ''/healthz'' \<or> (so_metrics o' \<and> path = ''/metrics'') then Some path
      else cut_prefix (so_base_path o') path)"

definition content_policy :: string where
  "content_policy = ''default-src 'self'; base-uri 'none'; frame-ancestors 'none'; '' @
     ''form-action 'self'; script-src 'self'; style-src 'self'; font-src 'self'; img-src '' @ [CHR 0x27] @ ''self'' @ [CHR 0x27]"

definition securityHeaders :: "bool \<Rightarrow> string \<Rightarrow> (string \<times> string) list" where
  "securityHeaders hsts path =
     [(''Content-Security-Policy'', content_policy), (''X-Content-Type-Options'', ''nosniff''),
      (''Referrer-Policy'', ''same-origin''), (''X-Frame-Options'', ''DENY'')] @
     (if hsts then [(''Strict-Transport-Security'', ''max-age=31536000'')] else []) @
     (if prefix ''/static/'' path then [] else [(''Cache-Control'', ''no-store'')])"

text \<open>\<open>/metrics\<close>: open with the ACL off, else a token with the capability.\<close>

definition metricsRoute :: "access_env \<Rightarrow> call \<Rightarrow> request \<Rightarrow> store \<Rightarrow> access \<Rightarrow> unit answer" where
  "metricsRoute env c r s a = (if \<not> en_acl_on env then Handled ()
     else case api_route env c (Globally ''metrics'') r s a of
         Handled _ \<Rightarrow> Handled () | Unauthorized \<Rightarrow> Unauthorized | LoginRedirect \<Rightarrow> LoginRedirect
       | HtmxLogin \<Rightarrow> HtmxLogin | Forbidden \<Rightarrow> Forbidden | ServerError \<Rightarrow> ServerError)"

definition healthz :: "nat \<times> string" where "healthz = (200, ''ok'' @ newline)"

section \<open>Only who knows the secret makes nops poll\<close>

definition hex_encode :: "string \<Rightarrow> string" where
  "hex_encode s = concat (map (\<lambda>c. [upper_hex (byte c div 16), upper_hex (byte c mod 16)]) s)"

lemma hex_decode_encode: "hex_decode (hex_encode s) = Some s"
proof (induction s)
  case (Cons c s)
  then show ?case
    by (simp add: hex_encode_def hex_value_upper byte_nibbles byte_split del: mult_div_mod_eq)
qed (simp add: hex_encode_def)

text \<open>What a request shows of the secret: the secret itself, or the HMAC of its body in hexadecimal.\<close>

definition shows_secret :: "(string \<Rightarrow> string \<Rightarrow> string) \<Rightarrow> string \<Rightarrow> webhook_request \<Rightarrow> bool" where
  "shows_secret hmac secret w = (wh_gitlab_token w = secret \<or>
     (\<exists>h. hex_decode h = Some (hmac secret (wh_body w)) \<and>
        (wh_hub_signature w = ''sha256='' @ h \<or> wh_gitea_signature w = h)))"

text \<open>
  Claim C39. A webhook request makes nops poll out of turn exactly when it is answered 202, and only if there is a
  secret and the request shows it: the secret itself as GitLab sends it, or the HMAC of this very body as
  GitHub and Gitea do. What a forge sends that signs with the secret is accepted, in whichever case its
  hexadecimal is.
\<close>

theorem webhook_needs_secret:
  "(snd (webhook_route hmac secret w) \<longleftrightarrow> fst (webhook_route hmac secret w) = 202) \<and>
   (snd (webhook_route hmac secret w) \<longrightarrow> secret \<noteq> [] \<and> length (wh_body w) \<le> webhookMaxBody \<and> shows_secret hmac secret w) \<and>
   (secret \<noteq> [] \<and> hmac secret body \<noteq> [] \<and> length body \<le> webhookMaxBody \<longrightarrow>
      webhook_route hmac secret \<lparr>wh_body = body, wh_broken = False, wh_gitlab_token = [],
        wh_hub_signature = ''sha256='' @ hex_encode (hmac secret body), wh_gitea_signature = []\<rparr> = (202, True))"
proof (intro conjI)
  show "snd (webhook_route hmac secret w) \<longleftrightarrow> fst (webhook_route hmac secret w) = 202"
    by (simp add: webhook_route_def webhook_call_def webhookAccepted_def webhookRejected_def)
  have hub: "\<exists>h. header = ''sha256='' @ h \<and> hex_decode h = Some (hmac secret body)"
    if "verifyHMACSHA256 hmac header ''sha256='' body secret" for header body
  proof -
    from that have "take (length ''sha256='') header = ''sha256=''" "hex_decode (drop (length ''sha256='') header) = Some (hmac secret body)"
      by (auto simp: verifyHMACSHA256_def Let_def split: if_split_asm option.split_asm)
    moreover have "header = take (length ''sha256='') header @ drop (length ''sha256='') header" by (rule append_take_drop_id [symmetric])
    ultimately show ?thesis by metis
  qed
  have tea: "hex_decode header = Some (hmac secret body)" if "verifyHMACSHA256 hmac header [] body secret" for header body
    using that by (auto simp: verifyHMACSHA256_def split: option.split_asm)
  show "snd (webhook_route hmac secret w) \<longrightarrow> secret \<noteq> [] \<and> length (wh_body w) \<le> webhookMaxBody \<and> shows_secret hmac secret w"
    using hub [of "wh_hub_signature w" "wh_body w"] tea [of "wh_gitea_signature w" "wh_body w"]
    unfolding webhook_route_def webhook_call_def webhookAccepted_def webhookRejected_def shows_secret_def
    by (auto split: if_split_asm)
  show "secret \<noteq> [] \<and> hmac secret body \<noteq> [] \<and> length body \<le> webhookMaxBody \<longrightarrow>
      webhook_route hmac secret \<lparr>wh_body = body, wh_broken = False, wh_gitlab_token = [],
        wh_hub_signature = ''sha256='' @ hex_encode (hmac secret body), wh_gitea_signature = []\<rparr> = (202, True)"
  proof
    assume s: "secret \<noteq> [] \<and> hmac secret body \<noteq> [] \<and> length body \<le> webhookMaxBody"
    then have "hex_encode (hmac secret body) \<noteq> []" by (cases "hmac secret body") (simp_all add: hex_encode_def)
    then have "verifyHMACSHA256 hmac (''sha256='' @ hex_encode (hmac secret body)) ''sha256='' body secret"
      by (simp add: verifyHMACSHA256_def Let_def hex_decode_encode)
    with s show "webhook_route hmac secret \<lparr>wh_body = body, wh_broken = False, wh_gitlab_token = [],
        wh_hub_signature = ''sha256='' @ hex_encode (hmac secret body), wh_gitea_signature = []\<rparr> = (202, True)"
      by (simp add: webhook_route_def webhook_call_def webhookAccepted_def)
  qed
qed

theorem webhook_needs_secret_witness:
  "webhook_route (\<lambda>k b. k @ b) ''k'' \<lparr>wh_body = ''b'', wh_broken = False, wh_gitlab_token = [],
     wh_hub_signature = ''sha256='' @ hex_encode ''kb'', wh_gitea_signature = []\<rparr> = (202, True)"
proof -
  have "length ''b'' \<le> webhookMaxBody" by (simp add: webhookMaxBody_def)
  with webhook_needs_secret [where hmac = "\<lambda>k b. k @ b" and secret = "''k''" and body = "''b''"] show ?thesis by simp
qed

end
