(* ===== verification/DeployPages.thy ===== *)
theory DeployPages
  imports Panel GitWatch
begin

text \<open>
  The pages of deployments and jobs (\<open>internal/web/pages.go\<close>, \<open>jobs.go\<close>, \<open>overview.go\<close>, the cards of
  \<open>render.go\<close>): the history, a deployment, a job, what needs attention, the overview. A handler is a
  function of the subject, of the store, of the engine and of what its getters return: the observations
  (in the order \<open>Observations\<close> gives them), the orphans, the pause of every job.
\<close>

section \<open>Cards\<close>

record deployment_card =
  ca_id :: string
  ca_job :: string
  ca_namespace :: string
  ca_title :: string
  ca_job_path :: string
  ca_path :: string
  ca_policy :: dpolicy
  ca_state :: dstate
  ca_state_label :: string
  ca_state_class :: string
  ca_error :: string
  ca_retried :: bool
  ca_window_lifted_by :: string
  ca_retry_of_path :: string
  ca_retry_path :: string
  ca_repository :: string
  ca_commit_sha :: string
  ca_commit_short :: string
  ca_commit_url :: string
  ca_commit_subject :: string
  ca_commit_author :: string
  ca_spec_hash :: string
  ca_spec_short :: string
  ca_cas_index :: nat
  ca_eval_id :: string
  ca_eval_short :: string
  ca_applied :: bool
  ca_decided_by :: string
  ca_decided_at :: time_view
  ca_retried_by :: string
  ca_retried_at :: time_view
  ca_created_at :: time_view
  ca_updated_at :: time_view

definition page_card :: "page_server \<Rightarrow> deployment \<Rightarrow> deployment_card" where
  "page_card srv d = (let at = when_view (srv_now srv) in
     \<lparr>ca_id = d_id d, ca_job = d_job_id d, ca_namespace = d_namespace d, ca_title = d_namespace d @ ''/'' @ d_job_id d,
      ca_job_path = jobPath srv (d_namespace d) (d_job_id d), ca_path = deploymentPath srv (d_id d),
      ca_policy = d_policy d, ca_state = d_state d, ca_state_label = stateLabel (d_state d),
      ca_state_class = stateClass (d_state d), ca_error = d_error d, ca_retried = (d_retried_at d \<noteq> None),
      ca_window_lifted_by = d_window_lifted_by d,
      ca_retry_of_path = (if d_retry_of d \<noteq> [] then deploymentPath srv (d_retry_of d) else []), ca_retry_path = [],
      ca_repository = d_repository d, ca_commit_sha = d_commit_sha d, ca_commit_short = short_sha (d_commit_sha d),
      ca_commit_url = (case srv_commit_url srv of None \<Rightarrow> [] | Some f \<Rightarrow> f (d_repository d) (d_commit_sha d)),
      ca_commit_subject = d_commit_subject d, ca_commit_author = d_commit_author d, ca_spec_hash = d_spec_hash d,
      ca_spec_short = short_text 12 (d_spec_hash d), ca_cas_index = d_cas_index d, ca_eval_id = d_eval_id d,
      ca_eval_short = short_text 8 (d_eval_id d), ca_applied = (AppliedIndex d \<noteq> 0), ca_decided_by = d_decided_by d,
      ca_decided_at = at (d_decided_at d), ca_retried_by = d_retried_by d, ca_retried_at = at (d_retried_at d),
      ca_created_at = at (Some (d_created_at d)), ca_updated_at = at (Some (d_updated_at d))\<rparr>)"

definition allows :: "subject \<Rightarrow> string \<Rightarrow> capability \<Rightarrow> bool" where
  "allows sub ns cap = allow (su_acl sub) ns cap"

definition withRetry :: "page_server \<Rightarrow> subject \<Rightarrow> engine \<Rightarrow> deployment_card \<Rightarrow> deployment \<Rightarrow> deployment option \<Rightarrow> deployment_card" where
  "withRetry srv sub E ca d latest =
     (if allows sub (d_namespace d) ''retry'' \<and> Retryable d latest E then ca\<lparr>ca_retry_path := retryPath srv (d_id d)\<rparr> else ca)"

text \<open>The first row of \<open>ListByJob\<close> with a limit of one.\<close>

definition latest_row :: "string \<Rightarrow> string \<Rightarrow> store \<Rightarrow> deployment option" where
  "latest_row ns job s = (case ListByJob ns job 1 s of [] \<Rightarrow> None | d # _ \<Rightarrow> Some d)"

section \<open>The history\<close>

fun latestOf :: "store \<Rightarrow> deployment list \<Rightarrow> (string \<rightharpoonup> deployment) \<Rightarrow> (string \<rightharpoonup> deployment)" where
  "latestOf s [] m = m"
| "latestOf s (d # ds) m = (let k = list_key (d_namespace d) (d_job_id d) in
     latestOf s ds (if k \<in> dom m then m
       else case latest_row (d_namespace d) (d_job_id d) s of None \<Rightarrow> m | Some l \<Rightarrow> m(k \<mapsto> l)))"

definition activityFilters :: "(string \<times> string) list" where
  "activityFilters = (''active'', ''In progress'') # map (\<lambda>st. (state_str st, stateLabel st)) [Completed, Failed, Rejected, Superseded]"

definition label_of :: "string \<Rightarrow> string" where
  "label_of k = (case find (\<lambda>st. state_str st = k) deploymentStates of None \<Rightarrow> k | Some st \<Rightarrow> stateLabel st)"

definition state_query :: "deployment_query \<Rightarrow> string \<Rightarrow> deployment_query" where
  "state_query dq k = (let q = dq\<lparr>q_active := False, q_states := []\<rparr> in
     if k = [] then q else if k = ''active'' then q\<lparr>q_active := True\<rparr>
     else q\<lparr>q_states := filter (\<lambda>st. state_str st = k) deploymentStates\<rparr>)"

fun count_filters :: "(string \<Rightarrow> store_error + nat) \<Rightarrow> (string \<Rightarrow> string) \<Rightarrow> string \<Rightarrow> (string \<times> string) list \<Rightarrow>
    store_error + filter_link list" where
  "count_filters tally link chosen [] = Inr []"
| "count_filters tally link chosen ((k, l) # ks) =
     bindE (tally k) (\<lambda>n. bindE (count_filters tally link chosen ks) (\<lambda>fs.
       Inr (if 0 < n \<or> k = chosen
         then \<lparr>fl_key = k, fl_label = l, fl_href = link k, fl_count = countLabel (int n), fl_active = (k = chosen)\<rparr> # fs else fs)))"

definition stateFilters :: "page_server \<Rightarrow> text_env \<Rightarrow> string \<Rightarrow> url_query \<Rightarrow> deployment_query \<Rightarrow> string \<Rightarrow> store \<Rightarrow>
    store_error + (filter_link list \<times> nat)" where
  "stateFilters srv te path q dq chosen s =
     (let tally = (\<lambda>k. CountDeployments te (state_query dq k) maxCount s);
          link = (\<lambda>k. listLink srv path q [(''state'', k)]);
          keys = (if chosen \<noteq> [] \<and> chosen \<notin> fst ` set activityFilters
            then activityFilters @ [(chosen, label_of chosen)] else activityFilters)
      in bindE (tally []) (\<lambda>n. bindE (count_filters tally link chosen keys) (\<lambda>fs.
        Inr (\<lparr>fl_key = [], fl_label = ''All'', fl_href = link [], fl_count = countLabel (int n), fl_active = (chosen = [])\<rparr> # fs, n))))"

definition day_start :: "time \<Rightarrow> time" where "day_start t = t - t mod whole_day"

definition dayLabel :: "time \<Rightarrow> time \<Rightarrow> string" where
  "dayLabel today t = (if day_start t = today then ''Today'' else if day_start t = today - whole_day then ''Yesterday''
     else day_text (day_start t))"

text \<open>The rows by day: a new day where the label of a row is not the one of the last day.\<close>

definition add_row :: "(deployment \<Rightarrow> string) \<Rightarrow> (deployment \<Rightarrow> 'a) \<Rightarrow> deployment \<Rightarrow> (string \<times> 'a list) list \<Rightarrow>
    (string \<times> 'a list) list" where
  "add_row label row d days = (if days = [] \<or> fst (last days) \<noteq> label d then days @ [(label d, [row d])]
     else butlast days @ [(fst (last days), snd (last days) @ [row d])])"

record activity_data =
  av_base :: base_data
  av_days :: "(string \<times> deployment_card list) list"
  av_filters :: "filter_link list"
  av_any :: bool
  av_list :: list_view

text \<open>The page of a list whose parameters are wrong says so; the parameters read before the error are left out.\<close>

record page_request =
  rp_uri :: string
  rp_path :: string
  rp_query :: url_query
  rp_size_cookie :: string
  rp_every :: "hold option"

definition deploymentSearch :: string where
  "deploymentSearch = ''Search job, namespace, commit, author or ID''"

definition history :: "page_server \<Rightarrow> read_env \<Rightarrow> subject \<Rightarrow> string list \<Rightarrow> page_request \<Rightarrow> engine \<Rightarrow> store \<Rightarrow>
    activity_data page_answer" where
  "history srv rd sub repos r E s =
     (case fst (dashboardList srv rd (rp_query r) (rp_size_cookie r) DeploymentList) of
        Inl m \<Rightarrow> ErrorPage 400 m
      | Inr lq \<Rightarrow>
          (let dq = query_of lq (scope_of (su_acl sub) ''read''); te = rd_text rd;
               res = bindE (pageDeployments te dq (lq_per_page lq) (lq_cursor lq) s) (\<lambda>(rows, p).
                 bindE (stateFilters srv te (rp_path r) (rp_query r) dq (lq_state lq) s) (\<lambda>(fs, n). Inr (rows, p, fs, n)))
           in case res of Inl _ \<Rightarrow> ErrorPage 500 ''Something went wrong''
            | Inr (rows, p, fs, n) \<Rightarrow>
                (let latest = latestOf s rows Map.empty; today = day_start (srv_now srv);
                     row = (\<lambda>d. withRetry srv sub E (page_card srv d) d (latest (list_key (d_namespace d) (d_job_id d))));
                     lv = list_view_of srv (rd_cursor rd) (rp_path r) (rp_query r) lq p ''live'' deploymentSearch
                 in Shown 200 \<lparr>av_base = base_of srv sub (rp_uri r) (rp_every r) ''history'',
                   av_days = fold (add_row (\<lambda>d. dayLabel today (d_created_at d)) row) rows [],
                   av_filters = fs, av_any = (0 < n),
                   av_list = lv\<lparr>lv_menus := menu_of srv (rp_path r) (rp_query r) ''Policy'' ''policy'' [''auto'', ''approval''] (lq_policy lq) @
                     menu_of srv (rp_path r) (rp_query r) ''Repository'' ''repository'' (repositoryNames repos) (lq_repository lq)\<rparr>\<rparr>)))"

section \<open>A deployment\<close>

record plan_step =
  ps_kind :: string
  ps_job :: string
  ps_revision :: string
  ps_timeout :: string
  ps_text :: string

definition hookTimeout :: "libs \<Rightarrow> deployment_hook \<Rightarrow> string" where
  "hookTimeout L h = (case lib_dec L (h_job_spec h) of Inl _ \<Rightarrow> []
     | Inr j \<Rightarrow> duration_text (hook_timeout (meta_of L (j_meta j))))"

definition trim_prefix :: "string \<Rightarrow> string \<Rightarrow> string" where
  "trim_prefix p s = (case cut_prefix p s of None \<Rightarrow> s | Some x \<Rightarrow> x)"

definition hook_step :: "libs \<Rightarrow> string \<Rightarrow> deployment_hook \<Rightarrow> plan_step" where
  "hook_step L kind h = \<lparr>ps_kind = kind, ps_job = h_hook_id h, ps_revision = trim_prefix (h_hook_id h @ ''-'') (h_revision h),
     ps_timeout = hookTimeout L h, ps_text = []\<rparr>"

definition plain_step :: "string \<Rightarrow> string \<Rightarrow> plan_step" where
  "plain_step kind msg = \<lparr>ps_kind = kind, ps_job = [], ps_revision = [], ps_timeout = [], ps_text = msg\<rparr>"

definition planSteps :: "libs \<Rightarrow> deployment \<Rightarrow> deployment_hook list \<Rightarrow> plan_step list" where
  "planSteps L d hooks =
     (if Rerun d then [plain_step ''health'' []]
      else map (hook_step L ''pre'') (filter (\<lambda>h. h_phase h = ''pre'') hooks) @
        [plain_step ''register'' (if d_cas_index d \<noteq> 0
           then ''Update the job in Nomad, only if it has not changed since (index '' @ show_nat (d_cas_index d) @ '').''
           else ''Create the job in Nomad (it is not registered yet).''), plain_step ''health'' []]) @
     map (hook_step L ''post'') (filter (\<lambda>h. h_phase h = ''post'') hooks)"

record event_view =
  evw_time :: time_view
  evw_from :: "dstate option"
  evw_to :: dstate
  evw_actor :: string
  evw_msg :: string
  evw_retry :: bool
  evw_same :: bool

definition event_view_of :: "time \<Rightarrow> event \<Rightarrow> event_view" where
  "event_view_of now e = \<lparr>evw_time = when_view now (Some (e_ts e)), evw_from = e_from e, evw_to = e_to e, evw_actor = e_actor e,
     evw_msg = e_message e, evw_retry = (e_from e = Some (e_to e) \<and> isTerminal (e_to e)),
     evw_same = (e_from e = Some (e_to e) \<and> \<not> isTerminal (e_to e))\<rparr>"

record hook_run_view =
  hw_phase :: string
  hw_job :: string
  hw_state :: hook_state
  hw_error :: string
  hw_started_at :: time_view
  hw_finished_at :: time_view

definition hook_run_view_of :: "time \<Rightarrow> hook_run \<Rightarrow> hook_run_view" where
  "hook_run_view_of now x = \<lparr>hw_phase = r_phase x, hw_job = r_hook_job_id x, hw_state = r_state x, hw_error = r_error x,
     hw_started_at = when_view now (Some (r_started_at x)), hw_finished_at = when_view now (r_finished_at x)\<rparr>"

text \<open>
  \<open>blockingView\<close>, \<open>retryView\<close> and \<open>heldView\<close>: why this deployment blocks its job and where its Retry
  posts, where the Retry of one that blocks nothing posts and whether it only repeats what came after the
  register, why the job is paused and where the Resume posts.
\<close>

record job_actions =
  jx_blocking :: "(string \<times> string) option"
  jx_retry :: "(string \<times> bool) option"
  jx_paused :: "(string \<times> string) option"

definition look_at :: "page_server \<Rightarrow> subject \<Rightarrow> deployment \<Rightarrow> bool \<Rightarrow> observation \<Rightarrow> job_actions \<Rightarrow> job_actions" where
  "look_at srv sub d retryable ob x0 =
     (let same = (ob_namespace ob = d_namespace d \<and> ob_job_id ob = d_job_id d);
          may = allows sub (d_namespace d) ''retry'';
          x1 = (if ob_blocked_by ob = d_id d
            then x0\<lparr>jx_blocking := Some (ob_blocked_reason ob, if may then retryPath srv (d_id d) else [])\<rparr> else x0);
          x2 = (if retryable \<and> jx_blocking x1 = None \<and> same \<and> may
            then x1\<lparr>jx_retry := Some (retryPath srv (d_id d), \<not> ob_drift ob)\<rparr> else x1)
      in case ob_hold ob of
          None \<Rightarrow> x2
        | Some h \<Rightarrow> if same \<and> ho_kind h = HoldPaused
            then x2\<lparr>jx_paused := Some (ho_reason h, if \<not> ho_all h \<and> allows sub (d_namespace d) ''pause''
              then jobPath srv (ob_namespace ob) (ob_job_id ob) @ ''/resume'' else [])\<rparr>
            else x2)"

definition no_actions :: job_actions where
  "no_actions = \<lparr>jx_blocking = None, jx_retry = None, jx_paused = None\<rparr>"

record deployment_page =
  dd_base :: base_data
  dd_deployment :: deployment_card
  dd_actions :: job_actions
  dd_retried_as :: "deployment_card option"
  dd_promotion_wait :: bool
  dd_nomad :: "nomad_view option"
  dd_nomad_url :: string
  dd_nomad_deployments_url :: string
  dd_diff :: "job_diff option"
  dd_summary :: diff_summary
  dd_steps :: "plan_step list"
  dd_events :: "event_view list"
  dd_hook_runs :: "hook_run_view list"
  dd_can_decide :: bool
  dd_may_decide :: bool
  dd_may_promote :: bool
  dd_notice :: string
  dd_oob :: bool

definition page_diff :: "page_server \<Rightarrow> string \<Rightarrow> string + job_diff option" where
  "page_diff srv raw = (if raw = [] then Inr None else srv_diff srv raw)"

text \<open>The deployment that retries one already retried; none yet while the job is held.\<close>

definition retried_as :: "page_server \<Rightarrow> deployment \<Rightarrow> store \<Rightarrow> store_error + deployment_card option" where
  "retried_as srv d s = (if d_retried_at d = None then Inr None
     else case RetryOf (d_id d) s of Inr x \<Rightarrow> Inr (Some (page_card srv x))
       | Inl e \<Rightarrow> if e = ErrNotFound then Inr None else Inl e)"

definition deploymentView :: "page_server \<Rightarrow> libs \<Rightarrow> subject \<Rightarrow> nomad_answers option \<Rightarrow> string \<Rightarrow> string \<Rightarrow> page_request \<Rightarrow>
    observation list \<Rightarrow> engine \<Rightarrow> store \<Rightarrow> panel_cache \<Rightarrow> deployment_page page_answer \<times> panel_cache" where
  "deploymentView srv L sub nomad i notice r obs E s cache = (case GetDeployment i s of
       Inl e \<Rightarrow> (if e = ErrNotFound then ErrorPage 404 ''This deployment does not exist.'' else ErrorPage 500 ''Something went wrong'', cache)
     | Inr d \<Rightarrow> (case page_diff srv (d_plan_diff d) of
         Inl _ \<Rightarrow> (ErrorPage 500 ''Something went wrong'', cache)
       | Inr diff \<Rightarrow>
           (let now = srv_now srv; decide_now = (d_state d = PendingApproval);
                panel = (if d_state d = Applying then nomadPanel srv nomad (d_namespace d) (d_job_id d) (AppliedIndex d) cache
                  else (None, cache, False));
                retryable = Retryable d (latest_row (d_namespace d) (d_job_id d) s) E
            in case retried_as srv d s of
                Inl _ \<Rightarrow> (ErrorPage 500 ''Something went wrong'', fst (snd panel))
              | Inr next_card \<Rightarrow> (Shown 200 \<lparr>dd_base = base_of srv sub (rp_uri r) (rp_every r) [],
                  dd_deployment = page_card srv d, dd_actions = fold (look_at srv sub d retryable) obs no_actions,
                  dd_retried_as = next_card,
                  dd_promotion_wait = (d_state d = Applying \<and> d_promotion_wait_since d \<noteq> None \<and> d_promoted_at d = None),
                  dd_nomad = fst panel, dd_nomad_url = nomadJobURL srv (d_namespace d) (d_job_id d),
                  dd_nomad_deployments_url = nomadDeploymentsURL srv (d_namespace d) (d_job_id d),
                  dd_diff = diff, dd_summary = Summarize diff,
                  dd_steps = (if decide_now then planSteps L d (DeploymentHooks i s) else []),
                  dd_events = map (event_view_of now) (Events i s),
                  dd_hook_runs = map (hook_run_view_of now) (ListHookRuns i s),
                  dd_can_decide = decide_now, dd_may_decide = allows sub (d_namespace d) ''approve'',
                  dd_may_promote = allows sub (d_namespace d) ''promote'', dd_notice = notice, dd_oob = False\<rparr>,
                  fst (snd panel)))))"

text \<open>
  The status of the page, which the handler of a decision that came too late reads off: 200 of a deployment
  that is there, whose diff and whose retry can be read.
\<close>

definition view_status :: "deployment_page page_answer \<times> panel_cache \<Rightarrow> nat" where
  "view_status v = (case fst v of Shown n _ \<Rightarrow> n | ErrorPage n _ \<Rightarrow> n | Moved n _ \<Rightarrow> n)"

lemma view_status_ok:
  "view_status (deploymentView srv L sub nomad i notice r obs E s cache) = 200 \<longleftrightarrow>
     (\<exists>d diff ca. GetDeployment i s = Inr d \<and> page_diff srv (d_plan_diff d) = Inr diff \<and> retried_as srv d s = Inr ca)"
  by (auto simp: deploymentView_def view_status_def Let_def split: sum.split)

text \<open>The fragment the page polls.\<close>

definition deploymentStatus :: "page_server \<Rightarrow> libs \<Rightarrow> subject \<Rightarrow> nomad_answers option \<Rightarrow> string \<Rightarrow> page_request \<Rightarrow>
    observation list \<Rightarrow> engine \<Rightarrow> store \<Rightarrow> panel_cache \<Rightarrow> deployment_page page_answer \<times> panel_cache" where
  "deploymentStatus srv L sub nomad i r obs E s cache =
     (case deploymentView srv L sub nomad i [] r obs E s cache of
        (Shown st x, c) \<Rightarrow> (Shown st (x\<lparr>dd_oob := True\<rparr>), c) | (y, c) \<Rightarrow> (y, c))"

section \<open>A job\<close>

record job_row =
  jr_namespace :: string
  jr_job :: string
  jr_title :: string
  jr_path :: string
  jr_policy :: string
  jr_sync :: sync_key
  jr_sync_label :: string
  jr_sync_class :: string
  jr_blocked_reason :: string
  jr_file :: string
  jr_observed :: time_view
  jr_last :: "deployment_card option"
  jr_warnings :: nat

definition orphanReason :: string where
  "orphanReason = ''removed from git, still running in Nomad''"

definition hold_reason :: "observation \<Rightarrow> string" where
  "hold_reason ob = (case ob_hold ob of None \<Rightarrow> [] | Some h \<Rightarrow> ho_reason h)"

definition jobRow :: "page_server \<Rightarrow> observation \<Rightarrow> deployment option \<Rightarrow> job_row" where
  "jobRow srv ob latest = (let k = jobSync ob latest in
     \<lparr>jr_namespace = ob_namespace ob, jr_job = ob_job_id ob, jr_title = list_key (ob_namespace ob) (ob_job_id ob),
      jr_path = jobPath srv (ob_namespace ob) (ob_job_id ob), jr_policy = mpolicy_str (ob_policy ob), jr_sync = k,
      jr_sync_label = sync_label k, jr_sync_class = sync_class k,
      jr_blocked_reason = (if k = SyncPaused \<or> k = SyncHeld then hold_reason ob
        else if k = SyncNomad then ob_nomad_error ob else ob_blocked_reason ob),
      jr_file = ob_file_path ob, jr_observed = when_view (srv_now srv) (Some (ob_observed_at ob)),
      jr_last = map_option (page_card srv) latest,
      jr_warnings = length (filter (\<lambda>i. issue_severity i \<noteq> SevError) (ob_issues ob))\<rparr>)"

definition orphanRow :: "page_server \<Rightarrow> orphan \<Rightarrow> deployment option \<Rightarrow> job_row" where
  "orphanRow srv x latest =
     \<lparr>jr_namespace = or_namespace x, jr_job = or_job_id x, jr_title = list_key (or_namespace x) (or_job_id x),
      jr_path = jobPath srv (or_namespace x) (or_job_id x), jr_policy = dpolicy_str (or_policy x), jr_sync = SyncOrphan,
      jr_sync_label = sync_label SyncOrphan, jr_sync_class = sync_class SyncOrphan, jr_blocked_reason = orphanReason,
      jr_file = [], jr_observed = when_view (srv_now srv) (Some (or_observed_at x)),
      jr_last = map_option (page_card srv) latest, jr_warnings = 0\<rparr>"

record jobs_data =
  jl_base :: base_data
  jl_rows :: "job_row list"
  jl_filters :: "filter_link list"
  jl_any :: bool
  jl_list :: list_view

definition jobSearch :: string where "jobSearch = ''Search job, namespace or file''"

definition entry_row :: "page_server \<Rightarrow> job_entry \<Rightarrow> job_row" where
  "entry_row srv e = (case je_job e of Watched ob \<Rightarrow> jobRow srv ob (je_latest e) | Orphaned x \<Rightarrow> orphanRow srv x (je_latest e))"

definition jobs_page :: "page_server \<Rightarrow> read_env \<Rightarrow> subject \<Rightarrow> string list \<Rightarrow> page_request \<Rightarrow> observation list \<Rightarrow> orphan list \<Rightarrow>
    store \<Rightarrow> jobs_data page_answer" where
  "jobs_page srv rd sub repos r obs orphans s =
     (case fst (dashboardList srv rd (rp_query r) (rp_size_cookie r) JobList) of
        Inl m \<Rightarrow> ErrorPage 400 m
      | Inr lq \<Rightarrow> (case pageJobs (te_lower (rd_text rd)) (jobEntries sub obs orphans s) lq of (rows, p, tally) \<Rightarrow>
          (let total = sum_list (map tally syncOrder); link = (\<lambda>k. listLink srv (rp_path r) (rp_query r) [(''state'', k)]);
               lv = list_view_of srv (rd_cursor rd) (rp_path r) (rp_query r) lq p ''live'' jobSearch
           in Shown 200 \<lparr>jl_base = base_of srv sub (rp_uri r) (rp_every r) ''jobs'', jl_rows = map (entry_row srv) rows,
             jl_filters = \<lparr>fl_key = [], fl_label = ''All'', fl_href = link [], fl_count = show_nat total, fl_active = (lq_state lq = [])\<rparr> #
               map (\<lambda>k. \<lparr>fl_key = sync_string k, fl_label = sync_label k, fl_href = link (sync_string k),
                   fl_count = show_nat (tally k), fl_active = (sync_string k = lq_state lq)\<rparr>)
                 (filter (\<lambda>k. 0 < tally k \<or> sync_string k = lq_state lq) syncOrder),
             jl_any = (0 < total),
             jl_list = lv\<lparr>lv_newer_label := ''Previous'', lv_older_label := ''Next'',
               lv_menus := menu_of srv (rp_path r) (rp_query r) ''Policy'' ''policy'' [''auto'', ''approval'', ''none''] (lq_policy lq) @
                 menu_of srv (rp_path r) (rp_query r) ''Repository'' ''repository'' (repositoryNames repos) (lq_repository lq)\<rparr>\<rparr>)))"

definition hooksOf :: "hook_ref list \<Rightarrow> (string \<times> string) list" where
  "hooksOf refs = map (\<lambda>h. (hr_job_id h, if 0 < hr_timeout h then duration_text (hr_timeout h) else [])) refs"

record pause_view =
  pz_by :: string
  pz_note :: string
  pz_since :: time_view
  pz_all :: bool
  pz_resume_path :: string

record window_view =
  wv_open :: bool
  wv_status :: string
  wv_schedule :: string

definition windowOf :: "libs \<Rightarrow> window_status option \<Rightarrow> window_view option" where
  "windowOf L w = map_option (\<lambda>ws. \<lparr>wv_open = ws_open ws,
     wv_status = (case ws_until ws of
         None \<Rightarrow> if ws_open ws then ''open, it never closes'' else ''closed, it does not open again''
       | Some t \<Rightarrow> (if ws_open ws then ''open until '' else ''closed until '') @ lib_fmt L (ws_zone ws) t),
     wv_schedule = ws_spec ws @ '' for '' @ duration_text (ws_duration ws) @ '', read in '' @ ws_zone ws\<rparr>) w"

text \<open>What can be done about a job: the pause, why it is held, the Deploy now form or who asked for it, where the Pause posts.\<close>

record job_holds =
  jh_paused :: "pause_view option"
  jh_held :: string
  jh_deploy_now :: "(string \<times> string) option"
  jh_deploy_now_by :: string
  jh_pause_path :: string

definition job_holds_of :: "page_server \<Rightarrow> subject \<Rightarrow> string \<Rightarrow> string \<Rightarrow> observation \<Rightarrow> deployment option \<Rightarrow> job_holds" where
  "job_holds_of srv sub ns job ob latest =
     (let may_pause = allows sub ns ''pause'';
          lifted = (case latest of None \<Rightarrow> False | Some d \<Rightarrow> IsActive (d_state d) \<and> d_window_lifted_by d \<noteq> []);
          empty = \<lparr>jh_paused = None, jh_held = [], jh_deploy_now = None, jh_deploy_now_by = [], jh_pause_path = []\<rparr>;
          pause_path = (if may_pause then jobPath srv ns job @ ''/pause'' else [])
      in case ob_hold ob of
          None \<Rightarrow> empty\<lparr>jh_pause_path := pause_path\<rparr>
        | Some h \<Rightarrow>
            if ho_kind h = HoldPaused then empty\<lparr>jh_paused := Some \<lparr>pz_by = ho_by h, pz_note = ho_note h,
              pz_since = when_view (srv_now srv) (ho_since h), pz_all = ho_all h,
              pz_resume_path = (if may_pause \<and> \<not> ho_all h then jobPath srv ns job @ ''/resume'' else [])\<rparr>\<rparr>
            else if ob_drift ob \<and> \<not> lifted then
              (let x = empty\<lparr>jh_held := ho_reason h, jh_pause_path := pause_path\<rparr> in
               if ob_deploy_now_by ob \<noteq> [] then x\<lparr>jh_deploy_now_by := ob_deploy_now_by ob\<rparr>
               else if DeployNowable ob latest \<and> allows sub ns ''deploy-now''
                 then x\<lparr>jh_deploy_now := Some (jobPath srv ns job @ ''/deploy-now'', ob_spec_hash ob)\<rparr> else x)
            else empty\<lparr>jh_pause_path := pause_path\<rparr>)"

record observed_job =
  oj_policy :: string
  oj_sync :: sync_key
  oj_file :: string
  oj_observed :: time_view
  oj_pre_hooks :: "(string \<times> string) list"
  oj_post_hooks :: "(string \<times> string) list"
  oj_nomad_error :: string
  oj_blocked_by :: string
  oj_blocked_reason :: string
  oj_retry_path :: string
  oj_holds :: job_holds
  oj_window :: "window_view option"
  oj_drift :: bool
  oj_diff :: "job_diff option"
  oj_summary :: diff_summary
  oj_issues :: "issue list"

definition observed_job_of :: "page_server \<Rightarrow> libs \<Rightarrow> subject \<Rightarrow> string \<Rightarrow> string \<Rightarrow> observation \<Rightarrow> deployment option \<Rightarrow>
    string + observed_job" where
  "observed_job_of srv L sub ns job ob latest = bindE (page_diff srv (ob_plan_diff ob)) (\<lambda>diff. Inr
     \<lparr>oj_policy = mpolicy_str (ob_policy ob), oj_sync = jobSync ob latest, oj_file = ob_repository ob @ '': '' @ ob_file_path ob,
      oj_observed = when_view (srv_now srv) (Some (ob_observed_at ob)), oj_pre_hooks = hooksOf (ob_pre_hooks ob),
      oj_post_hooks = hooksOf (ob_post_hooks ob), oj_nomad_error = ob_nomad_error ob, oj_blocked_by = ob_blocked_by ob,
      oj_blocked_reason = ob_blocked_reason ob,
      oj_retry_path = (if ob_blocked_by ob \<noteq> [] \<and> allows sub ns ''retry'' then retryPath srv (ob_blocked_by ob) else []),
      oj_holds = job_holds_of srv sub ns job ob latest, oj_window = windowOf L (ob_window ob), oj_drift = ob_drift ob,
      oj_diff = diff, oj_summary = Summarize diff, oj_issues = ob_issues ob\<rparr>)"

record job_data =
  jd_base :: base_data
  jd_namespace :: string
  jd_job :: string
  jd_orphan :: "(string \<times> string) option"
  jd_observed :: "observed_job option"
  jd_deployments :: "deployment_card list"
  jd_filters :: "filter_link list"
  jd_list :: "string + list_view"
  jd_tools :: bool
  jd_nomad :: "nomad_view option"
  jd_nomad_url :: string

text \<open>The list of the deployments of a job, searched and filtered as the history is.\<close>

definition job_deployments :: "page_server \<Rightarrow> read_env \<Rightarrow> subject \<Rightarrow> string \<Rightarrow> string \<Rightarrow> page_request \<Rightarrow> deployment option \<Rightarrow> engine \<Rightarrow>
    store \<Rightarrow> store_error + deployment_card list \<times> filter_link list \<times> (string + list_view) \<times> bool" where
  "job_deployments srv rd sub ns job r latest E s =
     (case fst (dashboardList srv rd (rp_query r) (rp_size_cookie r) DeploymentList) of
        Inl m \<Rightarrow> Inr ([], [], Inl m, True)
      | Inr lq0 \<Rightarrow>
          (let lq = lq0\<lparr>lq_namespace := ns, lq_job := job\<rparr>; dq = query_of lq (scope_of (su_acl sub) ''read'')
           in bindE (pageDeployments (rd_text rd) dq (lq_per_page lq) (lq_cursor lq) s) (\<lambda>(rows, p).
             bindE (stateFilters srv (rd_text rd) (rp_path r) (rp_query r) dq (lq_state lq) s) (\<lambda>(fs, n).
               Inr (map (\<lambda>d. withRetry srv sub E (page_card srv d) d latest) rows, fs,
                 Inr (list_view_of srv (rd_cursor rd) (rp_path r) (rp_query r) lq p ''live-deployments'' ''Search commit, author or ID''),
                 lq_per_page lq < int n \<or> lq_search lq \<noteq> [] \<or> lq_state lq \<noteq> [] \<or> lq_cursor lq \<noteq> None)))))"

definition job_page :: "page_server \<Rightarrow> libs \<Rightarrow> read_env \<Rightarrow> subject \<Rightarrow> nomad_answers option \<Rightarrow> string \<Rightarrow> string \<Rightarrow> page_request \<Rightarrow>
    observation list \<Rightarrow> orphan list \<Rightarrow> engine \<Rightarrow> store \<Rightarrow> panel_cache \<Rightarrow> job_data page_answer \<times> panel_cache" where
  "job_page srv L rd sub nomad ns job r obs orphans E s cache =
     (let ob = find (\<lambda>ob. ob_namespace ob = ns \<and> ob_job_id ob = job) obs;
          orphan = find (\<lambda>x. or_namespace x = ns \<and> or_job_id x = job) orphans;
          latest = latest_row ns job s
      in if ob = None \<and> orphan = None \<and> latest = None then (ErrorPage 404 ''This job does not exist.'', cache)
         else case job_deployments srv rd sub ns job r latest E s of
             Inl _ \<Rightarrow> (ErrorPage 500 ''Something went wrong'', cache)
           | Inr (cards, fs, lv, tools) \<Rightarrow>
               (let panel = nomadPanel srv nomad ns job 0 cache; cache' = fst (snd panel);
                    seen = (case ob of None \<Rightarrow> Inr None
                      | Some x \<Rightarrow> bindE (observed_job_of srv L sub ns job x latest) (\<lambda>j. Inr (Some j)))
                in case seen of Inl _ \<Rightarrow> (ErrorPage 500 ''Something went wrong'', cache')
                 | Inr j \<Rightarrow> (Shown (if is_ok lv then 200 else 400)
                     \<lparr>jd_base = base_of srv sub (rp_uri r) (rp_every r) ''jobs'', jd_namespace = ns, jd_job = job,
                      jd_orphan = map_option (\<lambda>x. (or_nomad_status x,
                        ''nomad job stop -namespace '' @ or_namespace x @ '' '' @ or_job_id x)) orphan,
                      jd_observed = j, jd_deployments = cards, jd_filters = fs, jd_list = lv, jd_tools = tools,
                      jd_nomad = fst panel, jd_nomad_url = nomadJobURL srv ns job\<rparr>, cache')))"

section \<open>What needs attention\<close>

definition recentFailure :: duration where "recentFailure = 7 * 24 * hour"

record attention_item =
  ai_kind :: string
  ai_label :: string
  ai_class :: string
  ai_title :: string
  ai_path :: string
  ai_detail :: string
  ai_when :: time_view
  ai_retry_path :: string
  ai_resume_path :: string

definition item :: "string \<times> string \<times> string \<Rightarrow> string \<Rightarrow> string \<Rightarrow> string \<Rightarrow> time_view \<Rightarrow> attention_item" where
  "item kind what path detail at = \<lparr>ai_kind = fst kind, ai_label = fst (snd kind), ai_class = snd (snd kind), ai_title = what,
     ai_path = path, ai_detail = detail, ai_when = at, ai_retry_path = [], ai_resume_path = []\<rparr>"

definition ob_item :: "page_server \<Rightarrow> string \<times> string \<times> string \<Rightarrow> observation \<Rightarrow> string \<Rightarrow> time_view \<Rightarrow> attention_item" where
  "ob_item srv kind ob detail at = item kind (list_key (ob_namespace ob) (ob_job_id ob))
     (jobPath srv (ob_namespace ob) (ob_job_id ob)) detail at"

definition pending_item :: "page_server \<Rightarrow> deployment \<Rightarrow> attention_item" where
  "pending_item srv d = (let ca = page_card srv d in item (''pending'', ''Needs approval'', ''state-pending'') (ca_title ca) (ca_path ca)
     (if ca_commit_subject ca = [] then ''commit '' @ ca_commit_short ca else ca_commit_subject ca) (ca_created_at ca))"

definition blocked_item :: "page_server \<Rightarrow> subject \<Rightarrow> (string \<rightharpoonup> deployment) \<Rightarrow> observation \<Rightarrow> attention_item" where
  "blocked_item srv sub latest ob = (ob_item srv (''blocked'', ''Blocked'', ''state-failed'') ob (ob_blocked_reason ob)
     (case latest (list_key (ob_namespace ob) (ob_job_id ob)) of None \<Rightarrow> no_moment
      | Some d \<Rightarrow> when_view (srv_now srv) (Some (d_updated_at d))))
     \<lparr>ai_retry_path := (if allows sub (ob_namespace ob) ''retry'' then retryPath srv (ob_blocked_by ob) else [])\<rparr>"

definition failed_item :: "page_server \<Rightarrow> subject \<Rightarrow> engine \<Rightarrow> deployment \<Rightarrow> attention_item" where
  "failed_item srv sub E d = (let ca = page_card srv d in
     (item (''failed'', ''Failed'', ''state-failed'') (ca_title ca) (ca_path ca)
       (if ca_error ca = [] then ''the deployment failed'' else ca_error ca) (when_view (srv_now srv) (Some (d_updated_at d))))
     \<lparr>ai_retry_path := ca_retry_path (withRetry srv sub E ca d (Some d))\<rparr>)"

definition invalid_item :: "(meta_msg \<Rightarrow> string) \<Rightarrow> page_server \<Rightarrow> observation \<Rightarrow> attention_item list" where
  "invalid_item say srv ob = (case find (\<lambda>i. issue_severity i = SevError) (ob_issues ob) of None \<Rightarrow> []
     | Some i \<Rightarrow> [ob_item srv (''invalid'', ''Invalid meta'', ''state-failed'') ob (issue_key i @ '': '' @ say (issue_msg i))
         (when_view (srv_now srv) (Some (ob_observed_at ob)))])"

definition paused_item :: "page_server \<Rightarrow> subject \<Rightarrow> observation \<Rightarrow> attention_item list" where
  "paused_item srv sub ob = (case ob_hold ob of None \<Rightarrow> []
     | Some h \<Rightarrow> if ho_kind h \<noteq> HoldPaused \<or> ho_all h then []
         else [(ob_item srv (''paused'', ''Paused'', ''state-pending'') ob (ho_reason h) (when_view (srv_now srv) (ho_since h)))
           \<lparr>ai_resume_path := (if allows sub (ob_namespace ob) ''pause''
             then jobPath srv (ob_namespace ob) (ob_job_id ob) @ ''/resume'' else [])\<rparr>])"

definition orphan_item :: "page_server \<Rightarrow> orphan \<Rightarrow> attention_item" where
  "orphan_item srv x = item (''orphan'', ''Not in git'', ''state-pending'') (list_key (or_namespace x) (or_job_id x))
     (jobPath srv (or_namespace x) (or_job_id x)) ''Removed from git, still running in Nomad'' no_moment"

text \<open>
  The latest deployments come as a list; the code walks a map of them in no order and then sorts the
  failures by their last update, the newest first. The text of an issue is a parameter, \<open>say\<close>.
\<close>

definition latest_list :: "subject \<Rightarrow> store \<Rightarrow> deployment list" where
  "latest_list sub s = filter (\<lambda>d. can_read sub (d_namespace d)) (LatestPerJob s)"

definition recent_failures :: "page_server \<Rightarrow> subject \<Rightarrow> observation list \<Rightarrow> store \<Rightarrow> deployment list" where
  "recent_failures srv sub obs s = sort_key (\<lambda>d. - d_updated_at d)
     (filter (\<lambda>d. d_state d = Failed \<and> d_retried_at d = None \<and>
         d_id d \<notin> ob_blocked_by ` set (filter (\<lambda>ob. ob_blocked_by ob \<noteq> []) obs) \<and>
         time_sub (srv_now srv) (d_updated_at d) < recentFailure) (latest_list sub s))"

definition attention :: "(meta_msg \<Rightarrow> string) \<Rightarrow> page_server \<Rightarrow> subject \<Rightarrow> observation list \<Rightarrow> deployment list \<Rightarrow> orphan list \<Rightarrow> engine \<Rightarrow> store \<Rightarrow>
    attention_item list" where
  "attention say srv sub obs act orphans E s =
     map (pending_item srv) (filter (\<lambda>d. d_state d = PendingApproval) act) @
     map (blocked_item srv sub (latestByJob sub s)) (filter (\<lambda>ob. ob_blocked_by ob \<noteq> []) obs) @
     map (failed_item srv sub E) (recent_failures srv sub obs s) @
     concat (map (invalid_item say srv) obs) @ concat (map (paused_item srv sub) obs) @
     map (orphan_item srv) (filter (\<lambda>x. can_read sub (or_namespace x)) orphans)"

section \<open>The overview\<close>

record git_view =
  gw_name :: string
  gw_show_name :: bool
  gw_known :: bool
  gw_sha :: string
  gw_short :: string
  gw_url :: string
  gw_subject :: string
  gw_author :: string
  gw_committed_at :: time_view
  gw_checked_at :: time_view
  gw_error :: string
  gw_error_at :: time_view
  gw_refused :: "refused_file list"

definition gitViews :: "page_server \<Rightarrow> repo_view list \<Rightarrow> refused_file list \<Rightarrow> git_view list" where
  "gitViews srv repos refused = map (\<lambda>x. (let sn = rv_snapshot x; st = rv_status x; at = when_view (srv_now srv) in
     \<lparr>gw_name = rv_name x, gw_show_name = (1 < length repos), gw_known = (gs_commit sn \<noteq> []), gw_sha = gs_commit sn,
      gw_short = short_sha (gs_commit sn),
      gw_url = (case srv_commit_url srv of None \<Rightarrow> [] | Some f \<Rightarrow> f (rv_name x) (gs_commit sn)),
      gw_subject = gs_subject sn, gw_author = gs_author sn,
      gw_committed_at = (if gs_commit sn = [] then no_moment else at (Some (gs_committed_at sn))),
      gw_checked_at = at (st_checked_at st), gw_error = st_error st, gw_error_at = at (st_error_at st),
      gw_refused = filter (\<lambda>f. rf_repository f = rv_name x) refused\<rparr>)) repos"

text \<open>The oldest poll; a repository never polled, whose time is zero, is the oldest.\<close>

definition oldest_poll :: "repo_view list \<Rightarrow> time option" where
  "oldest_poll repos = (let ts = map (\<lambda>x. st_checked_at (rv_status x)) repos in
     if repos = [] \<or> None \<in> set ts then None else Some (Min (set (map the ts))))"

record git_summary =
  gy_total :: nat
  gy_failing :: nat
  gy_checked_at :: time_view

definition summarize_repos :: "page_server \<Rightarrow> repo_view list \<Rightarrow> git_summary" where
  "summarize_repos srv repos = \<lparr>gy_total = length repos, gy_failing = length (filter (\<lambda>x. st_error (rv_status x) \<noteq> []) repos),
     gy_checked_at = when_view (srv_now srv) (oldest_poll repos)\<rparr>"

text \<open>
  How the last cycle went. When it ended, how long it took and what aborted it (the fields of \<open>Status\<close> the
  engine's own state leaves out) are given; \<open>Duration.Round\<close> goes away from zero and stops at the bounds.
\<close>

definition round_half :: "duration \<Rightarrow> duration \<Rightarrow> duration" where
  "round_half m d = (let r = d mod m in if r + r < m then d - r else d + m - r)"

definition round_duration :: "duration \<Rightarrow> duration \<Rightarrow> duration" where
  "round_duration m d = (if d < 0 then max (- (2 ^ 63)) (- round_half m (- d)) else min (2 ^ 63 - 1) (round_half m d))"

record cycle_view =
  cy_ran :: bool
  cy_at :: time_view
  cy_took :: string
  cy_error :: string
  cy_managed :: nat
  cy_skipped :: nat
  cy_unparsed :: nat
  cy_refused :: nat
  cy_orphan_check_skipped :: bool

definition cycleView :: "page_server \<Rightarrow> time option \<times> duration \<times> string \<Rightarrow> status \<Rightarrow> cycle_view" where
  "cycleView srv cyc st = (case cyc of (at, took, why) \<Rightarrow>
     \<lparr>cy_ran = (at \<noteq> None), cy_at = when_view (srv_now srv) at, cy_took = duration_string (round_duration 1000000 took),
      cy_error = why, cy_managed = su_managed st, cy_skipped = su_skipped st, cy_unparsed = su_unparsed st,
      cy_refused = length (su_refused st), cy_orphan_check_skipped = su_orphan_check_skipped st\<rparr>)"

record overview_data =
  od_base :: base_data
  od_git :: "git_view list"
  od_summary :: "git_summary option"
  od_can_fetch :: bool
  od_cycle :: cycle_view
  od_refused :: "refused_file list"
  od_can_pause :: bool
  od_attention :: "attention_item list"
  od_in_progress :: "deployment_card list"
  od_completed :: "deployment_card list"

definition recentCompletedLimit :: int where "recentCompletedLimit = 5"

definition overview :: "(meta_msg \<Rightarrow> string) \<Rightarrow> page_server \<Rightarrow> bool \<Rightarrow> subject \<Rightarrow> page_request \<Rightarrow>
    time option \<times> duration \<times> string \<Rightarrow> repo_view list \<Rightarrow> observation list \<Rightarrow> orphan list \<Rightarrow>
    engine \<Rightarrow> store \<Rightarrow> overview_data page_answer" where
  "overview say srv has_trigger sub r cyc repos obs orphans E s =
     (let act = filter (\<lambda>d. can_read sub (d_namespace d)) (ListActive s);
          refused = filter (\<lambda>f. can_read sub (rf_namespace f)) (su_refused (en_status E));
          seen = filter (\<lambda>ob. can_read sub (ob_namespace ob)) obs
      in Shown 200 \<lparr>od_base = base_of srv sub (rp_uri r) (rp_every r) ''overview'', od_git = gitViews srv repos [],
        od_summary = (if 1 < length repos then Some (summarize_repos srv repos) else None),
        od_can_fetch = (has_trigger \<and> allow_global (su_acl sub) ''fetch''), od_cycle = cycleView srv cyc (en_status E), od_refused = refused,
        od_can_pause = allow_global (su_acl sub) ''pause'', od_attention = attention say srv sub seen act orphans E s,
        od_in_progress = map (page_card srv) (filter (\<lambda>d. d_state d \<noteq> PendingApproval) act),
        od_completed = map (page_card srv)
          (filter (\<lambda>d. can_read sub (d_namespace d)) (ListRecentCompleted recentCompletedLimit s))\<rparr>)"

definition repositories_page :: "page_server \<Rightarrow> subject \<Rightarrow> page_request \<Rightarrow> repo_view list \<Rightarrow> engine \<Rightarrow>
    (base_data \<times> git_view list) page_answer" where
  "repositories_page srv sub r repos E = Shown 200 (base_of srv sub (rp_uri r) (rp_every r) ''overview'',
     map (\<lambda>v. v\<lparr>gw_show_name := True\<rparr>)
       (gitViews srv repos (filter (\<lambda>f. can_read sub (rf_namespace f)) (su_refused (en_status E)))))"

section \<open>A button is shown exactly when it works\<close>

lemma latest_row_eq: "latest_row ns job s = (case LatestDeployment ns job s of Inl _ \<Rightarrow> None | Inr d \<Rightarrow> Some d)"
  by (simp add: latest_row_def ListByJob_def LatestDeployment_def newest_def limit_rows_def or_not_found_def
      split: list.split option.split)

lemma MarkRetried_ok:
  "GetDeployment i s = Inr d \<Longrightarrow> failed_or_rejected d \<Longrightarrow> d_retried_at d = None \<Longrightarrow> actor \<noteq> [] \<Longrightarrow>
     \<exists>s'. MarkRetried c i actor s = Inr s'"
proof -
  assume d: "GetDeployment i s = Inr d" "failed_or_rejected d" "d_retried_at d = None" "actor \<noteq> []"
  then have "d \<in> set (deployments s)" "d_id d = i"
    by (auto simp: GetDeployment_def has_id_def find_Some_iff split: option.splits)
  with d(2,3) have "find (retriable_row i) (deployments s) \<noteq> None"
    by (auto simp: find_None_iff retriable_row_def failed_or_rejected_def)
  with d(4) show ?thesis by (auto simp: MarkRetried_def split: option.split)
qed

lemma Retry_works:
  assumes "GetDeployment i (en_store E) = Inr d" "managedNS cf (d_namespace d)" "actor \<noteq> []"
    "\<forall>k\<in>{10, 11, 12}. \<not> de_bad env k"
  shows "(\<exists>v E'. Retry L cf c env snaps i actor E = (Inr v, E')) \<longleftrightarrow>
    Retryable d (latest_row (d_namespace d) (d_job_id d) (en_store E)) E"
proof (cases "Retryable d (latest_row (d_namespace d) (d_job_id d) (en_store E)) E")
  case True
  then obtain l where l: "LatestDeployment (d_namespace d) (d_job_id d) (en_store E) = Inr l"
    by (auto simp: latest_row_eq Retryable_def split: sum.split_asm)
  with True have r: "Retryable d (Some l) E" by (simp add: latest_row_eq)
  then have d: "d_retried_at d = None" "failed_or_rejected d" by (auto simp: Retryable_def split: if_split_asm)
  obtain s where "MarkRetried c i actor (en_store E) = Inr s"
    using MarkRetried_ok [OF assms(1) d(2,1) assms(3)] by blast
  with assms l r d show ?thesis
    by (simp add: Retry_def db_def latest_row_eq split: prod.split option.split sum.split)
next
  case False
  show ?thesis
  proof (cases "LatestDeployment (d_namespace d) (d_job_id d) (en_store E)")
    case (Inr l)
    with False have "\<not> Retryable d (Some l) E" by (simp add: latest_row_eq)
    with False Inr assms show ?thesis by (simp add: Retry_def db_def)
  qed (use False assms in \<open>simp add: Retry_def db_def\<close>)
qed

lemma page_reply_works: "snd (page_reply res status) = SeeOther \<longleftrightarrow> (\<exists>v E'. res = (Inr v, E'))"
  by (auto simp: page_reply_def split: prod.split sum.split)

lemma retryPath_nonempty: "retryPath srv i \<noteq> []"
  by (simp add: retryPath_def)

text \<open>
  Claim C38. The Retry button of a deployment is on its card exactly when pressing it would work: the check of its
  route lets the subject through and the handler answers with the redirect after the engine took the
  retry. This holds of the store and the engine the page was made from, in a namespace nops manages, while
  SQLite answers.
\<close>

theorem retry_button_works:
  assumes "GetDeployment (rq_deployment r) (en_store E) = Inr d" "managedNS (xe_opts x) (d_namespace d)" "su_actor sub \<noteq> []"
    "\<forall>k\<in>{10, 11, 12}. \<not> de_bad (xe_detect x) k"
  shows "ca_retry_path (withRetry srv sub E (page_card srv d) d (latest_row (d_namespace d) (d_job_id d) (en_store E))) \<noteq> [] \<longleftrightarrow>
    run_check (page_check RetryReq) (en_store E) r sub = Inr True \<and> snd (page_retry x sub r E) = SeeOther"
proof -
  have "page_check RetryReq = OnDeployment ''retry''" by (simp add: page_check_def pageRoutes_def)
  then have may: "run_check (page_check RetryReq) (en_store E) r sub = Inr True \<longleftrightarrow> allows sub (d_namespace d) ''retry''"
    using assms(1) by (simp add: run_check_def allows_def)
  have "snd (page_retry x sub r E) = SeeOther \<longleftrightarrow> Retryable d (latest_row (d_namespace d) (d_job_id d) (en_store E)) E"
    unfolding page_retry_def logged_in_def UserFrom_def if_not_P [OF assms(3)] page_reply_works act_retry_def
    by (rule Retry_works [OF assms])
  with may show ?thesis by (simp add: withRetry_def retryPath_nonempty page_card_def Let_def)
qed

lemma RequestWindowLift_ok: "actor \<noteq> [] \<Longrightarrow> hash \<noteq> [] \<Longrightarrow> \<exists>s'. RequestWindowLift c ns job hash actor s = Inr s'"
  by (simp add: RequestWindowLift_def)

lemma latest_opt_row: "latest_opt False ns job s = Inr (latest_row ns job s)"
  by (auto simp: latest_opt_def db_def latest_row_eq LatestDeployment_def or_not_found_def split: option.splits)

lemma DeployNow_works:
  assumes "en_observations E (JobKey ns job) = Some ob" "managedNS cf ns" "actor \<noteq> []" "ob_spec_hash ob \<noteq> []"
    "\<forall>k\<in>{11, 12}. \<not> de_bad env k"
  shows "(\<exists>v E'. DeployNow L cf c env snaps ns job (ob_spec_hash ob) actor E = (Inr v, E')) \<longleftrightarrow>
    DeployNowable ob (latest_row ns job (en_store E))"
proof (cases "DeployNowable ob (latest_row ns job (en_store E))")
  case True
  obtain s where "RequestWindowLift c ns job (ob_spec_hash ob) actor (en_store E) = Inr s"
    using RequestWindowLift_ok [OF assms(3,4)] by blast
  with True assms show ?thesis
    by (simp add: DeployNow_def Let_def latest_opt_row db_def split: prod.split option.split sum.split)
qed (use assms in \<open>simp add: DeployNow_def Let_def latest_opt_row db_def\<close>)

lemma deploy_now_offered:
  "jh_deploy_now (job_holds_of srv sub ns job ob latest) =
     (if DeployNowable ob latest \<and> allows sub ns ''deploy-now'' \<and> ob_deploy_now_by ob = []
      then Some (jobPath srv ns job @ ''/deploy-now'', ob_spec_hash ob) else None)"
proof (cases "ob_hold ob")
  case (Some h)
  then show ?thesis
    by (cases "ho_kind h") (auto simp: job_holds_of_def Let_def DeployNowable_def split: option.split)
qed (simp add: job_holds_of_def Let_def DeployNowable_def)

text \<open>
  The Deploy now form of a job held by its sync window is on its page exactly when nobody asked for it yet and
  sending it would work, and then it carries the hash of the very spec the page shows the drift of: a form
  sent after the spec changed is refused.
\<close>

theorem deploy_now_form_works:
  assumes "en_observations E (JobKey ns job) = Some ob" "rq_namespace r = ns" "managedNS (xe_opts x) ns" "su_actor sub \<noteq> []"
    "ob_spec_hash ob \<noteq> []" "\<forall>k\<in>{11, 12}. \<not> de_bad (xe_detect x) k"
  shows "(jh_deploy_now (job_holds_of srv sub ns job ob (latest_row ns job (en_store E))) \<noteq> None \<longleftrightarrow>
      ob_deploy_now_by ob = [] \<and> run_check (page_check (DeployNowReq job None)) (en_store E) r sub = Inr True \<and>
      snd (page_deploy_now x sub r job \<lparr>fo_spec_hash = ob_spec_hash ob, fo_reason = [], fo_back = []\<rparr> E) = SeeOther) \<and>
    (\<forall>path h. jh_deploy_now (job_holds_of srv sub ns job ob (latest_row ns job (en_store E))) = Some (path, h) \<longrightarrow>
      h = ob_spec_hash ob \<and> path = jobPath srv ns job @ ''/deploy-now'') \<and>
    (h' \<noteq> ob_spec_hash ob \<longrightarrow>
      page_deploy_now x sub r job \<lparr>fo_spec_hash = h', fo_reason = [], fo_back = []\<rparr> E = (E, Status 409))"
proof -
  have "page_check (DeployNowReq job None) = InNamespace ''deploy-now''" by (simp add: page_check_def pageRoutes_def)
  then have may: "run_check (page_check (DeployNowReq job None)) (en_store E) r sub = Inr True \<longleftrightarrow> allows sub ns ''deploy-now''"
    using assms(2) by (simp add: run_check_def allows_def)
  have "snd (page_deploy_now x sub r job \<lparr>fo_spec_hash = ob_spec_hash ob, fo_reason = [], fo_back = []\<rparr> E) = SeeOther \<longleftrightarrow>
      DeployNowable ob (latest_row ns job (en_store E))"
    unfolding page_deploy_now_def logged_in_def UserFrom_def if_not_P [OF assms(4)] page_reply_works act_deploy_now_def
      assms(2) form.simps
    by (rule DeployNow_works [OF assms(1,3,4,5,6)])
  moreover have "h' \<noteq> ob_spec_hash ob \<Longrightarrow>
      page_deploy_now x sub r job \<lparr>fo_spec_hash = h', fo_reason = [], fo_back = []\<rparr> E = (E, Status 409)"
    using assms(1-4) by (simp add: page_deploy_now_def logged_in_def page_reply_def act_deploy_now_def DeployNow_def Let_def UserFrom_def)
  ultimately show ?thesis using may by (auto simp: deploy_now_offered)
qed

section \<open>What the pages list\<close>

text \<open>The rows of the history are the rows of its page, in order, no day is empty, and two days next to each other differ.\<close>

lemma add_row_days:
  assumes "concat (map snd days) = map row ds" "successively (\<lambda>x y. fst x \<noteq> fst y) days" "\<forall>p\<in>set days. snd p \<noteq> []"
  shows "concat (map snd (add_row label row d days)) = map row (ds @ [d]) \<and>
    successively (\<lambda>x y. fst x \<noteq> fst y) (add_row label row d days) \<and> (\<forall>p\<in>set (add_row label row d days). snd p \<noteq> [])"
proof (cases "days = [] \<or> fst (last days) \<noteq> label d")
  case True
  with assms show ?thesis by (auto simp: add_row_def successively_append_iff)
next
  case False
  then obtain ys p where ys: "days = ys @ [p]" by (metis append_butlast_last_id)
  with False assms show ?thesis by (auto simp: add_row_def successively_append_iff)
qed

lemma history_days:
  "concat (map snd (fold (add_row label row) rows [])) = map row rows \<and>
    successively (\<lambda>x y. fst x \<noteq> fst y) (fold (add_row label row) rows []) \<and>
    (\<forall>p\<in>set (fold (add_row label row) rows []). snd p \<noteq> [])"
proof -
  have "concat (map snd (fold (add_row label row) rows days)) = map row (ds @ rows) \<and>
      successively (\<lambda>x y. fst x \<noteq> fst y) (fold (add_row label row) rows days) \<and>
      (\<forall>p\<in>set (fold (add_row label row) rows days). snd p \<noteq> [])"
    if "concat (map snd days) = map row ds" "successively (\<lambda>x y. fst x \<noteq> fst y) days" "\<forall>p\<in>set days. snd p \<noteq> []" for days ds
    using that
  proof (induction rows arbitrary: days ds)
    case (Cons d rows)
    from Cons.IH [of "add_row label row d days" "ds @ [d]"] add_row_days [OF Cons.prems, of label d] show ?case by simp
  qed simp
  from this [of "[]" "[]"] show ?thesis by simp
qed

lemma title_of_items:
  "ai_title (pending_item srv d) = list_key (d_namespace d) (d_job_id d)"
  "ai_title (blocked_item srv sub latest ob) = list_key (ob_namespace ob) (ob_job_id ob)"
  "ai_title (failed_item srv sub E d) = list_key (d_namespace d) (d_job_id d)"
  "ai_title (orphan_item srv z) = list_key (or_namespace z) (or_job_id z)"
  "it \<in> set (invalid_item say srv ob) \<Longrightarrow> ai_title it = list_key (ob_namespace ob) (ob_job_id ob)"
  "it \<in> set (paused_item srv sub ob) \<Longrightarrow> ai_title it = list_key (ob_namespace ob) (ob_job_id ob)"
  by (auto simp: pending_item_def blocked_item_def failed_item_def orphan_item_def invalid_item_def paused_item_def
      ob_item_def item_def page_card_def list_key_def Let_def split: option.splits if_splits)

text \<open>The title of a line names a job of a namespace the subject can read.\<close>

definition readable_title :: "subject \<Rightarrow> string \<Rightarrow> bool" where
  "readable_title sub t = (\<exists>ns job. can_read sub ns \<and> t = list_key ns job)"

lemma readable_titleI: "can_read sub ns \<Longrightarrow> readable_title sub (list_key ns job)"
  by (auto simp: readable_title_def)

text \<open>
  The overview misses nothing that waits for a person: every deployment waiting for an approval, every job
  blocked, paused on its own or gone from git, in a namespace the subject can read, is on its list of
  what needs attention. And it tells nothing else: every line of it is of a namespace the subject can read.
\<close>

theorem overview_needs_attention:
  assumes "overview say srv has_trigger sub r cyc repos obs orphans E s = Shown 200 od"
  shows "(\<forall>d\<in>set (deployments s). d_state d = PendingApproval \<and> can_read sub (d_namespace d) \<longrightarrow>
      pending_item srv d \<in> set (od_attention od)) \<and>
    (\<forall>ob\<in>set obs. can_read sub (ob_namespace ob) \<longrightarrow>
      (ob_blocked_by ob \<noteq> [] \<longrightarrow> blocked_item srv sub (latestByJob sub s) ob \<in> set (od_attention od)) \<and>
      set (paused_item srv sub ob) \<subseteq> set (od_attention od) \<and> set (invalid_item say srv ob) \<subseteq> set (od_attention od)) \<and>
    (\<forall>z\<in>set orphans. can_read sub (or_namespace z) \<longrightarrow> orphan_item srv z \<in> set (od_attention od)) \<and>
    (\<forall>it\<in>set (od_attention od). readable_title sub (ai_title it))"
proof -
  let ?seen = "filter (\<lambda>ob. can_read sub (ob_namespace ob)) obs"
  let ?act = "filter (\<lambda>d. can_read sub (d_namespace d)) (ListActive s)"
  from assms have at: "od_attention od = attention say srv sub ?seen ?act orphans E s"
    by (auto simp: overview_def Let_def)
  have act: "set ?act = {d \<in> set (deployments s). IsActive (d_state d) \<and> can_read sub (d_namespace d)}"
    by (auto simp: ListActive_def)
  have failures: "d \<in> set (recent_failures srv sub ?seen s) \<Longrightarrow> can_read sub (d_namespace d)" for d
    by (auto simp: recent_failures_def latest_list_def)
  have "readable_title sub (ai_title it)" if "it \<in> set (od_attention od)" for it
    using that unfolding at attention_def
    by (auto simp: title_of_items intro: readable_titleI) (rule readable_titleI, rule failures, assumption)
  moreover have "pending_item srv d \<in> set (od_attention od)"
    if "d \<in> set (deployments s)" "d_state d = PendingApproval" "can_read sub (d_namespace d)" for d
  proof -
    have "d \<in> set ?act" unfolding act using that by (simp add: IsActive_def)
    with that(2) show ?thesis unfolding at attention_def by simp
  qed
  ultimately show ?thesis unfolding at by (auto simp: attention_def)
qed

section \<open>Samples\<close>

definition failed_api_row :: deployment where
  "failed_api_row = pending_row\<lparr>d_state := Failed, d_retried_at := None\<rparr>"

definition drifting :: observation where
  "drifting = (base_observation sample_detect sample_file Map.empty [] None None)
     \<lparr>ob_namespace := ''default'', ob_job_id := ''api'', ob_policy := PAuto, ob_spec_hash := ''{}'', ob_drift := True,
      ob_nomad_error := [], ob_blocked_by := [], ob_deploy_now_by := [],
      ob_hold := Some \<lparr>ho_kind = HoldWindow, ho_reason = [], ho_by = [], ho_since = None, ho_note = [], ho_all = False\<rparr>\<rparr>"

definition failed_engine :: engine where
  "failed_engine = pending_engine\<lparr>en_store := empty_store\<lparr>deployments := [failed_api_row]\<rparr>, en_observations := (\<lambda>_. Some drifting)\<rparr>"

lemma failed_engine_simps:
  "GetDeployment ''01A'' (en_store failed_engine) = Inr failed_api_row" "d_namespace failed_api_row = ''default''"
  "latest_row (d_namespace failed_api_row) (d_job_id failed_api_row) (en_store failed_engine) = Some failed_api_row"
  "latest_row ''default'' ''api'' (en_store failed_engine) = Some failed_api_row"
  by (simp_all add: failed_engine_def GetDeployment_def has_id_def failed_api_row_def pending_rows latest_row_eq
      LatestDeployment_def newest_def or_not_found_def of_job_def)

lemma sample_deploy_simps:
  "managedNS (xe_opts sample_deploy) ''default''" "\<not> de_bad (xe_detect sample_deploy) k"
  by (simp_all add: sample_deploy_def sample_opts_def managedNS_def sample_detect_def)

theorem retry_button_works_witness:
  "snd (page_retry sample_deploy as_A on_pending failed_engine) = SeeOther"
proof -
  have "Retryable failed_api_row (Some failed_api_row) failed_engine"
    by (simp add: Retryable_def failed_engine_def drifting_def failed_or_rejected_def)
      (simp add: failed_api_row_def pending_rows)
  then have shown: "ca_retry_path (withRetry sample_panel_server as_A failed_engine (page_card sample_panel_server failed_api_row)
      failed_api_row (latest_row (d_namespace failed_api_row) (d_job_id failed_api_row) (en_store failed_engine))) \<noteq> []"
    by (simp add: failed_engine_simps(3) withRetry_def retryPath_nonempty allows_def allow_def as_A_def management_acl_def)
  have i: "rq_deployment on_pending = ''01A''" "su_actor as_A \<noteq> []" by (simp_all add: on_pending_def as_A_def)
  have "\<forall>k\<in>{10, 11, 12}. \<not> de_bad (xe_detect sample_deploy) k" by (simp add: sample_deploy_simps)
  from retry_button_works [OF _ _ i(2) this, of on_pending failed_engine failed_api_row sample_panel_server] shown
  show ?thesis by (simp add: i(1) failed_engine_simps(1,2) sample_deploy_simps(1))
qed

theorem deploy_now_form_works_witness:
  "snd (page_deploy_now sample_deploy as_A (on_pending\<lparr>rq_namespace := ''default''\<rparr>) ''api''
     \<lparr>fo_spec_hash = ''{}'', fo_reason = [], fo_back = []\<rparr> failed_engine) = SeeOther"
proof -
  have ob: "en_observations failed_engine (JobKey ''default'' ''api'') = Some drifting" by (simp add: failed_engine_def)
  have h: "ob_spec_hash drifting = ''{}''" by (simp add: drifting_def)
  have "DeployNowable drifting (Some failed_api_row)"
    by (simp add: DeployNowable_def drifting_def failed_api_row_def IsActive_def)
  moreover have "allows as_A ''default'' ''deploy-now''" by (simp add: allows_def allow_def as_A_def management_acl_def)
  moreover have "ob_deploy_now_by drifting = []" by (simp add: drifting_def)
  ultimately have shown: "jh_deploy_now (job_holds_of sample_panel_server as_A ''default'' ''api'' drifting
      (latest_row ''default'' ''api'' (en_store failed_engine))) \<noteq> None"
    by (simp add: deploy_now_offered failed_engine_simps(4))
  have a: "su_actor as_A \<noteq> []" "ob_spec_hash drifting \<noteq> []" by (simp_all add: as_A_def h)
  have "\<forall>k\<in>{11, 12}. \<not> de_bad (xe_detect sample_deploy) k" by (simp add: sample_deploy_simps)
  from deploy_now_form_works [OF ob _ sample_deploy_simps(1) a(1,2) this, of "on_pending\<lparr>rq_namespace := ''default''\<rparr>"] shown
  show ?thesis by (simp add: h)
qed

theorem overview_needs_attention_witness:
  "\<exists>od. overview (\<lambda>_. []) sample_panel_server True as_A
       \<lparr>rp_uri = ''/'', rp_path = ''/'', rp_query = [], rp_size_cookie = [], rp_every = None\<rparr> (None, 0, []) [] [] [] pending_engine pending_store =
       Shown 200 od \<and> pending_item sample_panel_server pending_row \<in> set (od_attention od)"
proof -
  obtain od where od: "overview (\<lambda>_. []) sample_panel_server True as_A
       \<lparr>rp_uri = ''/'', rp_path = ''/'', rp_query = [], rp_size_cookie = [], rp_every = None\<rparr> (None, 0, []) [] [] [] pending_engine pending_store =
       Shown 200 od" by (simp add: overview_def Let_def)
  have "can_read as_A (d_namespace pending_row)" by (simp add: can_read_def allow_def as_A_def management_acl_def)
  with overview_needs_attention [OF od] od show ?thesis by (auto simp: pending_rows)
qed

end
