(* ===== verification/Spec2Isabelle.thy ===== *)
theory Spec2Isabelle
  imports Prelude Systems Glob Acl Meta StoreProperties RedactProperties RunnerProperties EngineProperties DetectProperties
    AccessApi Listing NomadClient DeployApi JobLists Notify GitWatch LoginFlow ConfigProperties Panel AdminPages Webhook
    DeployPages
begin

text \<open>
  A verification library for nops, a GitOps controller for HashiCorp Nomad: it watches git
  repositories, plans every job file against Nomad, and applies what changed, by itself or once a
  person approved it, keeping what it did in a SQLite database and showing it over a dashboard and
  an API.

  \<^bold>\<open>The program and how its parts interact.\<close> A detection cycle (\<open>engine/detect.go\<close>) reads the
  snapshots of the repositories (\<open>gitwatch\<close>), has Nomad parse and plan each job (\<open>nomadx\<close>), reads the
  job's meta (\<open>meta\<close>) and creates, supersedes or leaves alone deployments in the store
  (\<open>store/store.go\<close>). The apply loop (\<open>engine/apply.go\<close>) takes each open deployment one step at a
  time: its pre-hooks (\<open>hooks\<close>), the registration at the index the plan was made at, the health of
  what runs, its post-hooks. People approve, reject, promote, retry, pause, resume and deploy now
  (\<open>engine/apply.go\<close>, \<open>hold.go\<close>, \<open>retry.go\<close>, \<open>deploynow.go\<close>) over the API and the dashboard
  (\<open>web\<close>), which find out who asks and what they may do (\<open>acl\<close>, \<open>web/access.go\<close>, \<open>store/acl.go\<close>).
  What happened is sent to chat services (\<open>notify\<close>). All of it runs with the configuration of the
  start (\<open>config\<close>, \<open>secret\<close>).

  \<^bold>\<open>The theories.\<close> Paths are below \<open>src/internal\<close>.

  \<^item> \<open>Prelude\<close>, \<open>Systems\<close>, \<open>Tables\<close>: shared types, the string routines of Go's library, state machines
    in general with the interfaces \<open>inductive_invariant\<close> and \<open>forward_relation\<close>, SQL tables with the
    interface \<open>lock_table\<close> of a UNIQUE index.
  \<^item> \<open>Glob\<close>, \<open>Acl\<close>: \<open>acl/acl.go\<close>, the policies of a token, \<open>Allow\<close>, \<open>Global\<close> and \<open>Scope\<close>, with the
    matchers of \<open>path.Match\<close> and of SQLite's \<open>GLOB\<close>.
  \<^item> \<open>Meta\<close>: \<open>meta/meta.go\<close>, the \<open>nops_*\<close> keys of a job and the sync window.
  \<^item> \<open>StoreState\<close>, \<open>DeploymentStore\<close>, \<open>HookRunStore\<close>, \<open>PauseStore\<close>: \<open>store/store.go\<close>, \<open>pause.go\<close> and
    \<open>windowlift.go\<close>; one operation per method, each one transaction on the record \<open>store\<close> of tables.
    \<open>StoreSystem\<close> runs them in any order, \<open>Permitted\<close> under the guard of who may start what;
    \<open>StoreProperties\<close> holds what every reachable database satisfies.
  \<^item> \<open>Nomad\<close>, \<open>NomadDiff\<close>, \<open>NomadClient\<close>: \<open>nomadx/client.go\<close> and \<open>diff.go\<close>, the types the engine reads,
    the calls, and what is made of a plan's diff.
  \<^item> \<open>Redact\<close>: \<open>redact/redact.go\<close>. \<open>RedactProperties\<close> says on its own what a secret of a diff is and
    shows that this is what the redaction hides. \<open>Runner\<close>, \<open>RunnerProperties\<close>: \<open>hooks\<close>.
  \<^item> \<open>EngineState\<close>, \<open>Hold\<close>, \<open>Apply\<close>, \<open>Detect\<close>: \<open>engine\<close>; the record \<open>engine\<close> is the database, the
    observations in memory and what was asked of Nomad and of the notifier, in order. \<open>EngineWrites\<close>
    shows that all of it writes by guarded operations of the store, \<open>EngineSystem\<close> makes one system of
    the two loops, the actions of people and restarts, \<open>EngineSample\<close> runs it on a small repository,
    \<open>EngineProperties\<close> and \<open>DetectProperties\<close> hold the theorems.
  \<^item> \<open>AclStore\<close>, \<open>AclSystem\<close>, \<open>AclProperties\<close>: \<open>store/acl.go\<close>, policies, tokens, binding rules and their
    log, as operations, as a system, and what holds of it. \<open>LoginLimit\<close>: \<open>web/login_limit.go\<close> and the
    check of \<open>auth_basic.go\<close>. \<open>Access\<close>: \<open>acl/binding.go\<close>, \<open>web/access.go\<close>, \<open>login.go\<close>. \<open>AccessApi\<close>:
    \<open>web/acl.go\<close>, \<open>api_acl.go\<close> and the routes of \<open>api.go\<close>.
  \<^item> \<open>DeployApi\<close>: the actions of \<open>web/api.go\<close>, \<open>actions.go\<close> and \<open>pages.go\<close>, from the request to the engine.
  \<^item> \<open>Listing\<close>, \<open>JobLists\<close>: \<open>store/list.go\<close>, \<open>web/list.go\<close>, \<open>jobs.go\<close> and the reads of \<open>api.go\<close>.
  \<^item> \<open>PageParts\<close>: \<open>web/render.go\<close>, \<open>diff.go\<close>, \<open>nomadlinks.go\<close> and the links of \<open>list.go\<close>, what every page
    is made of. \<open>Panel\<close>: \<open>web/nomadpanel.go\<close>, what Nomad says of a job, and its cache.
    \<open>AdminPages\<close>: \<open>web/admin.go\<close>, the pages and forms of access control. \<open>Webhook\<close>: \<open>web/webhook.go\<close> and the
    frame of \<open>server.go\<close>.
  \<^item> \<open>DeployPages\<close>: \<open>web/pages.go\<close>, \<open>jobs.go\<close>, \<open>overview.go\<close>, the pages of the history, of a deployment, of
    the jobs, of a job, of what needs attention and of the repositories, from the state to what they show.
  \<^item> \<open>LoginFlow\<close>: \<open>web/auth_basic.go\<close>, \<open>auth.go\<close>, \<open>cli_login.go\<close>, the ways to log in, from the files of users
    and the provider to the session, with the one-time codes as a system of their own.
  \<^item> \<open>GitWatch\<close>: \<open>gitwatch\<close>, the watchers and their group as a system that shares snapshots and signals
    with the detection loop.
  \<^item> \<open>GoText\<close>, \<open>Utf8\<close>: what is used of \<open>strings\<close>, \<open>strconv\<close>, \<open>path\<close> and UTF-8. \<open>Notify\<close>: \<open>notify\<close>, one
    definition per message and service.
  \<^item> \<open>Secret\<close>: \<open>secret/secret.go\<close>. \<open>Settings\<close>, \<open>SettingsProperties\<close>: the reading of single settings of
    \<open>config/config.go\<close>. \<open>Config\<close>, \<open>ConfigProperties\<close>: its options, file, checks and \<open>Load\<close>.

  \<^bold>\<open>What the lemmas show.\<close> The store: its unique indexes, the audit log as a path of the state machine,
  what is never rewritten, the compare-and-set of a transition. The engine: nothing starts or is
  registered that neither \<open>auto\<close> nor a person let through, a hook is dispatched at most once, what
  stops a deployment and what ends its waits, what detection leaves alone. Access: which secrets
  authenticate, what a revocation reaches, who may act, that every action is behind its check, that
  lists tell nothing of what their reader may not read. The rest: that what is shown (diffs, counts,
  pages, links) is what there is, and that secrets are not; that no commit is missed; that a message
  fits its service and carries nothing of its own; that the panel asks Nomad at most once in four seconds, unless
  a promotion made it forget the job; that the forms act as the API, and a Retry or Deploy now button is shown
  exactly when it works; that a start runs only on a safe configuration.

  \<^bold>\<open>Time, order, bounds.\<close> Goroutines are steps: each store operation is one transaction, a step of a
  loop is given the row as the loop read it, which may be older than the database, and any other
  steps come in between. Times are nanoseconds, durations wrap at 64 bits where the code adds them. A
  time in the database is its text: \<open>ts_key\<close> orders times as SQLite does. Waits are given one entry
  per poll, so that a loop ends with its entries or its deadline (\<open>await_ends_at_deadline\<close>). The closure
  of a revocation has as much fuel as there are rows, which \<open>taken_is_closure\<close> shows to be enough;
  the walk over pages has one round per page, which \<open>pages_enumerate\<close> shows to be enough; the search for
  the end of a sync window has the code's own bound. The page of a late decision is made after the engine
  answered: \<open>decide\<close> takes its status (\<open>xe_view\<close>), which \<open>view_status\<close> of \<open>DeployPages\<close> gives. Any call of the store, of Nomad or of git may fail, as an argument
  of the step says.

  \<^bold>\<open>What is a parameter.\<close> Nomad's answers, the cron library, HCL and JSON, selectors (go-bexpr), bcrypt
  and SHA-256, SQLite's full text index, the parsers and formats of times, durations and URLs, what
  go-git lists and clones, the OIDC provider and its tokens, the HTTP posts of messages, random values.

  \<^bold>\<open>What modelling found.\<close> \<open>created_within_a_second_misordered\<close> and \<open>bounds_miss_first_second\<close>: times
  compare as texts without trailing zeros, which misorders two within a second.
  \<open>revocation_loses_orphans\<close>: a revocation does not reach past a token whose row was deleted.
  \<open>job_link_loses_escape\<close>: the links of a list forget the escapes of the path they are on, and
  \<open>list_link_changes_one\<close> holds of paths that need none.

  \<^bold>\<open>Not modelled.\<close> Opening and migrating the SQLite file and its backup; the HTML templates; the
  command line client; the metrics; process start and TLS.
\<close>

end
